(* ===== verification/Prelude.thy ===== *)
theory Prelude
  imports Complex_Main
begin

text \<open>
  Shared vocabulary of the development: the Python values and errors the modelled code
  works with, the string methods of Python's standard library that it uses, the
  error-propagating bind, and generic lemmas on them.

  Strings. A Python string is modelled as an Isabelle \<open>string\<close> whose characters stand for
  the code points U+0000 to U+00FF. On these code points the functions below agree with
  \<open>str.strip\<close>, \<open>str.lower\<close>, \<open>str.split\<close>, \<open>str.join\<close>, \<open>str.partition\<close>,
  \<open>str.rpartition\<close>, \<open>str.isalnum\<close> and \<open>repr\<close>.

  Errors. An exception is a value of \<open>py_error\<close>; a function that may raise returns
  \<open>py_error + 'a\<close>. Exceptions with an error code (\<open>SystemPlanningError\<close>,
  \<open>OrchestrationError\<close>, ...) are \<open>CodedErr cls code path message\<close>.
\<close>

section \<open>Errors and the sum bind\<close>

datatype py_error =
    TypeErr string
  | ValueErr string
  | KeyErr string
  | LookupErr string
  | RuntimeErr string
  | OSErr string
  | NamedErr string string
  | CodedErr string string string string

type_synonym 'a result = "py_error + 'a"

lemma case_Inr: "(case x of Inl _ \<Rightarrow> False | Inr y \<Rightarrow> P y) \<Longrightarrow> \<exists>y. x = Inr y \<and> P y"
  by (cases x) auto

text \<open>The class name \<open>type(exc).__name__\<close>.\<close>

fun exc_type :: "py_error \<Rightarrow> string" where
  "exc_type (TypeErr m) = ''TypeError''"
| "exc_type (ValueErr m) = ''ValueError''"
| "exc_type (KeyErr k) = ''KeyError''"
| "exc_type (LookupErr m) = ''LookupError''"
| "exc_type (RuntimeErr m) = ''RuntimeError''"
| "exc_type (OSErr m) = ''OSError''"
| "exc_type (NamedErr cls m) = cls"
| "exc_type (CodedErr cls code path m) = cls"

named_theorems result_elims \<open>inversion of successful results\<close>

definition ebind :: "'e + 'a \<Rightarrow> ('a \<Rightarrow> 'e + 'b) \<Rightarrow> 'e + 'b" where
  "ebind m f = (case m of Inl e \<Rightarrow> Inl e | Inr x \<Rightarrow> f x)"

lemma ebind_Inl [simp]: "ebind (Inl e) f = Inl e"
  by (simp add: ebind_def)

lemma ebind_Inr [simp]: "ebind (Inr x) f = f x"
  by (simp add: ebind_def)

lemma ebind_eq_Inr [result_elims]: "ebind m f = Inr y \<longleftrightarrow> (\<exists>x. m = Inr x \<and> f x = Inr y)"
  by (cases m) auto

lemma ebind_eq_Inl: "ebind m f = Inl e \<longleftrightarrow> m = Inl e \<or> (\<exists>x. m = Inr x \<and> f x = Inl e)"
  by (cases m) auto

lemma ebind_cong [fundef_cong]:
  assumes "m = n" and "\<And>x. n = Inr x \<Longrightarrow> f x = g x"
  shows "ebind m f = ebind n g"
  using assms by (cases n) auto

lemma ebind_assoc: "ebind (ebind m f) g = ebind m (\<lambda>x. ebind (f x) g)"
  by (cases m) simp_all

lemma if_eq_Inr [result_elims]:
  "(if b then Inl e else m) = Inr x \<longleftrightarrow> \<not> b \<and> m = Inr x"
  "(if b then m else Inl e) = Inr x \<longleftrightarrow> b \<and> m = Inr x"
  by auto

definition ensure :: "bool \<Rightarrow> 'e \<Rightarrow> 'e + unit" where
  "ensure b e = (if b then Inr () else Inl e)"

lemma ensure_eq_Inr [result_elims]: "ensure b e = Inr u \<longleftrightarrow> b"
  by (simp add: ensure_def)

lemma ensure_simps [simp]: "ensure True e = Inr ()" "ensure False e = Inl e"
  by (simp_all add: ensure_def)

text \<open>\<open>[f x for x in xs]\<close> where \<open>f\<close> may raise: the first error stops the comprehension.\<close>

fun emap :: "('a \<Rightarrow> 'e + 'b) \<Rightarrow> 'a list \<Rightarrow> 'e + 'b list" where
  "emap f [] = Inr []"
| "emap f (x # xs) = ebind (f x) (\<lambda>y. ebind (emap f xs) (\<lambda>ys. Inr (y # ys)))"

lemma emap_cong [fundef_cong]:
  assumes "xs = ys" and "\<And>x. x \<in> set ys \<Longrightarrow> f x = g x"
  shows "emap f xs = emap g ys"
proof -
  have "(\<And>x. x \<in> set ys \<Longrightarrow> f x = g x) \<Longrightarrow> emap f ys = emap g ys"
    by (induction ys) (auto intro!: ebind_cong)
  with assms show ?thesis by blast
qed

lemma emap_Inr_set: "emap f xs = Inr ys \<Longrightarrow> y \<in> set ys \<Longrightarrow> \<exists>x \<in> set xs. f x = Inr y"
  by (induction xs arbitrary: ys) (auto simp: result_elims)

lemma emap_succeeds: "(\<exists>ys. emap f xs = Inr ys) \<longleftrightarrow> (\<forall>x \<in> set xs. \<exists>y. f x = Inr y)"
  by (induction xs) (auto simp: ebind_eq_Inr)

lemma emap_Inr_length: "emap f xs = Inr ys \<Longrightarrow> length ys = length xs"
  by (induction xs arbitrary: ys) (auto simp: result_elims)

lemma emap_Inr_map: "(\<And>x. x \<in> set xs \<Longrightarrow> f x = Inr (g x)) \<Longrightarrow> emap f xs = Inr (map g xs)"
  by (induction xs) auto

lemma emap_Inr_list_all2: "emap f xs = Inr ys \<longleftrightarrow> list_all2 (\<lambda>x y. f x = Inr y) xs ys"
  by (induction xs arbitrary: ys) (auto simp: result_elims list_all2_Cons1)

text \<open>A loop \<open>for x in xs: state = body(state, x)\<close> whose body may raise.\<close>

fun efold :: "('s \<Rightarrow> 'a \<Rightarrow> 'e + 's) \<Rightarrow> 's \<Rightarrow> 'a list \<Rightarrow> 'e + 's" where
  "efold f s [] = Inr s"
| "efold f s (x # xs) = ebind (f s x) (\<lambda>t. efold f t xs)"

lemma efold_append: "efold f s (xs @ ys) = ebind (efold f s xs) (\<lambda>t. efold f t ys)"
  by (induction xs arbitrary: s) (simp_all add: ebind_assoc)

lemma efold_invariant:
  assumes "efold f s xs = Inr t" and "P s"
    and "\<And>s x t. x \<in> set xs \<Longrightarrow> P s \<Longrightarrow> f s x = Inr t \<Longrightarrow> P t"
  shows "P t"
  using assms
proof (induction xs arbitrary: s)
  case Nil
  then show ?case by simp
next
  case (Cons x xs)
  then obtain u where "f s x = Inr u" "efold f u xs = Inr t"
    by (auto simp: result_elims)
  with Cons show ?case by (meson list.set_intros)
qed

section \<open>Characters and strings\<close>

abbreviation code_point :: "char \<Rightarrow> nat" where
  "code_point c \<equiv> of_char c"

text \<open>\<open>str.isspace\<close> on U+0000 to U+00FF.\<close>

definition is_space :: "char \<Rightarrow> bool" where
  "is_space c = (let n = code_point c in
     (9 \<le> n \<and> n \<le> 13) \<or> (28 \<le> n \<and> n \<le> 32) \<or> n = 133 \<or> n = 160)"

definition is_upper :: "char \<Rightarrow> bool" where
  "is_upper c = (let n = code_point c in
     (65 \<le> n \<and> n \<le> 90) \<or> (192 \<le> n \<and> n \<le> 222 \<and> n \<noteq> 215))"

definition lower_char :: "char \<Rightarrow> char" where
  "lower_char c = (if is_upper c then char_of (code_point c + 32) else c)"

definition lower_str :: "string \<Rightarrow> string" where
  "lower_str s = map lower_char s"

text \<open>\<open>str.isalnum\<close> of one character on U+0000 to U+00FF.\<close>

definition is_alnum :: "char \<Rightarrow> bool" where
  "is_alnum c = (let n = code_point c in
     (48 \<le> n \<and> n \<le> 57) \<or> (65 \<le> n \<and> n \<le> 90) \<or> (97 \<le> n \<and> n \<le> 122) \<or>
     n \<in> {170, 178, 179, 181, 185, 186, 188, 189, 190} \<or>
     (192 \<le> n \<and> n \<noteq> 215 \<and> n \<noteq> 247))"

text \<open>The regular expression classes \<open>[a-z]\<close>, \<open>[A-Za-z0-9]\<close> and \<open>[0-9a-fA-F]\<close>.\<close>

definition ascii_lower :: "char \<Rightarrow> bool" where
  "ascii_lower c = (97 \<le> code_point c \<and> code_point c \<le> 122)"

definition ascii_digit :: "char \<Rightarrow> bool" where
  "ascii_digit c = (48 \<le> code_point c \<and> code_point c \<le> 57)"

definition ascii_alnum :: "char \<Rightarrow> bool" where
  "ascii_alnum c = (ascii_digit c \<or> ascii_lower c \<or> (65 \<le> code_point c \<and> code_point c \<le> 90))"

definition hex_char :: "char \<Rightarrow> bool" where
  "hex_char c = (let n = code_point c in
     (48 \<le> n \<and> n \<le> 57) \<or> (97 \<le> n \<and> n \<le> 102) \<or> (65 \<le> n \<and> n \<le> 70))"

definition strip_by :: "(char \<Rightarrow> bool) \<Rightarrow> string \<Rightarrow> string" where
  "strip_by p s = rev (dropWhile p (rev (dropWhile p s)))"

definition strip :: "string \<Rightarrow> string" where
  "strip s = strip_by is_space s"

definition starts_with :: "string \<Rightarrow> string \<Rightarrow> bool" where
  "starts_with p s = (take (length p) s = p)"

fun split_on :: "char \<Rightarrow> string \<Rightarrow> string list" where
  "split_on d [] = [[]]"
| "split_on d (c # cs) =
     (if c = d then [] # split_on d cs
      else (case split_on d cs of [] \<Rightarrow> [[c]] | w # ws \<Rightarrow> (c # w) # ws))"

fun join_on :: "string \<Rightarrow> string list \<Rightarrow> string" where
  "join_on d [] = []"
| "join_on d [w] = w"
| "join_on d (w # v # ws) = w @ d @ join_on d (v # ws)"

definition partition_on :: "char \<Rightarrow> string \<Rightarrow> string \<times> bool \<times> string" where
  "partition_on d s = (takeWhile (\<lambda>c. c \<noteq> d) s, d \<in> set s, tl (dropWhile (\<lambda>c. c \<noteq> d) s))"

definition rpartition_on :: "char \<Rightarrow> string \<Rightarrow> string \<times> bool \<times> string" where
  "rpartition_on d s =
     (if d \<in> set s
      then (rev (tl (dropWhile (\<lambda>c. c \<noteq> d) (rev s))), True, rev (takeWhile (\<lambda>c. c \<noteq> d) (rev s)))
      else ([], False, s))"

text \<open>\<open>repr\<close> of a string.\<close>

definition hex_digit :: "nat \<Rightarrow> char" where
  "hex_digit n = (if n < 10 then char_of (48 + n) else char_of (87 + n))"

definition repr_char :: "char \<Rightarrow> char \<Rightarrow> string" where
  "repr_char q c = (let n = code_point c in
     if c = q \<or> n = 92 then [char_of (92::nat), c]
     else if n = 9 then [char_of (92::nat), CHR ''t'']
     else if n = 10 then [char_of (92::nat), CHR ''n'']
     else if n = 13 then [char_of (92::nat), CHR ''r'']
     else if n < 32 \<or> (127 \<le> n \<and> n \<le> 160) \<or> n = 173
     then [char_of (92::nat), CHR ''x'', hex_digit (n div 16), hex_digit (n mod 16)]
     else [c])"

definition repr_str :: "string \<Rightarrow> string" where
  "repr_str s = (let sq = char_of (39::nat); dq = char_of (34::nat);
                     q = (if sq \<in> set s \<and> dq \<notin> set s then dq else sq)
                 in q # concat (map (repr_char q) s) @ [q])"

text \<open>Decimal rendering of integers, as \<open>str(n)\<close>.\<close>

fun nat_digits :: "nat \<Rightarrow> string" where
  "nat_digits n = (if n < 10 then [char_of (48 + n)]
                   else nat_digits (n div 10) @ [char_of (48 + n mod 10)])"

declare nat_digits.simps [simp del]

definition int_str :: "int \<Rightarrow> string" where
  "int_str i = (if i < 0 then CHR ''-'' # nat_digits (nat (- i)) else nat_digits (nat i))"

text \<open>\<open>str(exc)\<close>: a \<open>KeyError\<close> shows the key with \<open>repr\<close>, a coded error its code and path first.\<close>

fun exc_str :: "py_error \<Rightarrow> string" where
  "exc_str (TypeErr m) = m"
| "exc_str (ValueErr m) = m"
| "exc_str (KeyErr k) = repr_str k"
| "exc_str (LookupErr m) = m"
| "exc_str (RuntimeErr m) = m"
| "exc_str (OSErr m) = m"
| "exc_str (NamedErr cls m) = m"
| "exc_str (CodedErr cls code path m) =
     (if path = [] then code else code @ '' '' @ path) @ '': '' @ m"

text \<open>\<open>x or y\<close> on an optional string.\<close>

definition or_else :: "string option \<Rightarrow> string \<Rightarrow> string" where
  "or_else x d = (case x of None \<Rightarrow> d | Some s \<Rightarrow> if s = [] then d else s)"

definition repr_opt :: "string option \<Rightarrow> string" where
  "repr_opt x = (case x of None \<Rightarrow> ''None'' | Some s \<Rightarrow> repr_str s)"

section \<open>Python values\<close>

text \<open>
  The dynamically typed values that reach the modelled code: JSON documents, parameters,
  metadata and arguments whose type the code checks with \<open>isinstance\<close>. A dictionary is an
  association list in insertion order. \<open>POther\<close> is any other object, known by its type name.
  A finite float is its exact value.
\<close>

datatype pyfloat = Finite rat | PosInf | NegInf | NaN

datatype pyval =
    PNone
  | PBool bool
  | PInt int
  | PFloat pyfloat
  | PStr string
  | PList "pyval list"
  | PTuple "pyval list"
  | PDict "(pyval \<times> pyval) list"
  | POther string

text \<open>Dictionaries with string keys, in insertion order.\<close>

type_synonym mapping = "(string \<times> pyval) list"
type_synonym strmap = "(string \<times> string) list"

fun is_pstr :: "pyval \<Rightarrow> bool" where
  "is_pstr (PStr s) = True"
| "is_pstr _ = False"

fun str_of :: "pyval \<Rightarrow> string option" where
  "str_of (PStr s) = Some s"
| "str_of _ = None"

fun type_name :: "pyval \<Rightarrow> string" where
  "type_name PNone = ''NoneType''"
| "type_name (PBool b) = ''bool''"
| "type_name (PInt i) = ''int''"
| "type_name (PFloat f) = ''float''"
| "type_name (PStr s) = ''str''"
| "type_name (PList xs) = ''list''"
| "type_name (PTuple xs) = ''tuple''"
| "type_name (PDict xs) = ''dict''"
| "type_name (POther t) = t"

definition dict_get :: "(pyval \<times> pyval) list \<Rightarrow> string \<Rightarrow> pyval" where
  "dict_get d k = (case map_of d (PStr k) of None \<Rightarrow> PNone | Some v \<Rightarrow> v)"

text \<open>\<open>isinstance(value, str)\<close>, then \<open>strip\<close>: shared by most constructors of the code.\<close>

definition need_str :: "string \<Rightarrow> pyval \<Rightarrow> string result" where
  "need_str msg v = (case v of PStr s \<Rightarrow> Inr s | _ \<Rightarrow> Inl (TypeErr msg))"

lemma need_str_Inr [result_elims]: "need_str msg v = Inr s \<longleftrightarrow> v = PStr s"
  by (cases v) (auto simp: need_str_def)

lemma need_str_PStr [simp]: "need_str msg (PStr s) = Inr s"
  by (simp add: need_str_def)

section \<open>Lookup by name\<close>

text \<open>\<open>for item in items: if item.name == name: return item\<close>, then \<open>raise KeyError(name)\<close>.\<close>

definition get_named :: "('a \<Rightarrow> string) \<Rightarrow> 'a list \<Rightarrow> string \<Rightarrow> 'a result" where
  "get_named f xs name = (case find (\<lambda>x. f x = name) xs of None \<Rightarrow> Inl (KeyErr name) | Some x \<Rightarrow> Inr x)"

lemma get_named_Inr: "get_named f xs name = Inr x \<Longrightarrow> x \<in> set xs \<and> f x = name"
  by (auto simp: get_named_def find_Some_iff split: option.splits)

lemma get_named_total: "name \<in> f ` set xs \<Longrightarrow> \<exists>x \<in> set xs. f x = name \<and> get_named f xs name = Inr x"
  by (auto simp: get_named_def find_Some_iff find_None_iff split: option.splits)

lemma get_named_cong [fundef_cong]:
  assumes "xs = ys" and "name = name'" and "\<And>x. x \<in> set ys \<Longrightarrow> f x = g x"
  shows "get_named f xs name = get_named g ys name'"
proof -
  have "find (\<lambda>x. f x = name') ys = find (\<lambda>x. g x = name') ys"
    using assms(3) by (induction ys) auto
  with assms show ?thesis by (simp add: get_named_def)
qed

text \<open>\<open>dict.fromkeys(xs)\<close> as a list of keys: the first occurrence of each element, in order.\<close>

definition ordered_unique :: "'a list \<Rightarrow> 'a list" where
  "ordered_unique xs = rev (fold (\<lambda>x acc. if x \<in> set acc then acc else x # acc) xs [])"

lemma fold_unique:
  "distinct acc \<Longrightarrow>
     distinct (fold (\<lambda>x acc. if x \<in> set acc then acc else x # acc) xs acc) \<and>
     set (fold (\<lambda>x acc. if x \<in> set acc then acc else x # acc) xs acc) = set acc \<union> set xs"
  by (induction xs arbitrary: acc) auto

lemma ordered_unique [simp]: "distinct (ordered_unique xs)" "set (ordered_unique xs) = set xs"
  using fold_unique [of "[]" xs] by (simp_all add: ordered_unique_def)

section \<open>Lemmas on the string functions\<close>

lemma strip_by_id:
  assumes "\<And>c. c \<in> set s \<Longrightarrow> \<not> p c"
  shows "strip_by p s = s"
proof -
  have id: "(\<And>c. c \<in> set t \<Longrightarrow> \<not> p c) \<Longrightarrow> dropWhile p t = t" for t
    by (cases t) auto
  have "dropWhile p s = s" using assms by (rule id)
  moreover have "dropWhile p (rev s) = rev s" by (rule id) (simp add: assms)
  ultimately show ?thesis by (simp add: strip_by_def)
qed

lemma strip_by_ends:
  "strip_by p s = [] \<or> (\<not> p (hd (strip_by p s)) \<and> \<not> p (last (strip_by p s)))"
proof (cases "strip_by p s = []")
  case False
  let ?t = "dropWhile p s"
  have ne: "dropWhile p (rev ?t) \<noteq> []" using False by (simp add: strip_by_def)
  have last: "\<not> p (last (strip_by p s))"
    using hd_dropWhile [OF ne] by (simp add: strip_by_def last_rev)
  have t: "?t \<noteq> []" using ne by (metis dropWhile.simps(1) rev.simps(1))
  have "\<exists>ys. ?t = strip_by p s @ ys"
    by (metis rev_append rev_rev_ident strip_by_def takeWhile_dropWhile_id)
  then have "hd (strip_by p s) = hd ?t" using False by (metis hd_append2)
  with hd_dropWhile [OF t] last show ?thesis by simp
qed simp

lemma strip_by_idem: "strip_by p (strip_by p s) = strip_by p s"
proof -
  let ?u = "strip_by p s"
  have "dropWhile p ?u = ?u"
    using strip_by_ends [of p s] by (cases ?u) auto
  moreover have "dropWhile p (rev ?u) = rev ?u"
    using strip_by_ends [of p s] by (cases "rev ?u") (auto simp: hd_rev [symmetric])
  ultimately show ?thesis by (simp add: strip_by_def)
qed

lemma set_strip_by: "set (strip_by p s) \<subseteq> set s"
  by (auto simp: strip_by_def dest!: set_dropWhileD)

lemma strip_strip [simp]: "strip (strip s) = strip s"
  by (simp add: strip_def strip_by_idem)

lemma strip_Nil [simp]: "strip [] = []"
  by (simp add: strip_def strip_by_def)

lemma set_strip: "set (strip s) \<subseteq> set s"
  by (simp add: strip_def set_strip_by)

lemma strip_id: "(\<And>c. c \<in> set s \<Longrightarrow> \<not> is_space c) \<Longrightarrow> strip s = s"
  by (simp add: strip_def strip_by_id)

lemma of_char_lower_char:
  "code_point (lower_char c) = (if is_upper c then code_point c + 32 else code_point c)"
  by (auto simp: lower_char_def is_upper_def Let_def)

lemma not_upper_lower_char [simp]: "\<not> is_upper (lower_char c)"
  by (auto simp: is_upper_def of_char_lower_char Let_def)

lemma lower_char_idem [simp]: "lower_char (lower_char c) = lower_char c"
  using not_upper_lower_char [of c] by (simp add: lower_char_def [of "lower_char c"])

lemma lower_str_idem [simp]: "lower_str (lower_str s) = lower_str s"
  by (simp add: lower_str_def)

lemma lower_str_Nil [simp]: "lower_str s = [] \<longleftrightarrow> s = []"
  by (simp add: lower_str_def)

lemma is_space_lower_char [simp]: "is_space (lower_char c) = is_space c"
  by (auto simp: is_space_def of_char_lower_char Let_def is_upper_def)

lemma dropWhile_lower: "dropWhile is_space (map lower_char s) = map lower_char (dropWhile is_space s)"
  by (induction s) auto

lemma strip_lower_str: "strip (lower_str s) = lower_str (strip s)"
  by (simp add: strip_def strip_by_def lower_str_def dropWhile_lower rev_map)

lemma lower_str_append: "lower_str (s @ t) = lower_str s @ lower_str t"
  by (simp add: lower_str_def)

subsection \<open>Splitting and joining\<close>

lemma split_on_nonempty [simp]: "split_on d s \<noteq> []"
  by (induction s) (auto split: list.splits)

lemma split_on_free: "w \<in> set (split_on d s) \<Longrightarrow> d \<notin> set w"
  by (induction s arbitrary: w) (auto split: list.splits if_splits)

lemma set_split_on: "w \<in> set (split_on d s) \<Longrightarrow> set w \<subseteq> set s"
  by (induction s arbitrary: w) (fastforce split: list.splits if_splits)+

lemma split_on_no_sep: "d \<notin> set s \<Longrightarrow> split_on d s = [s]"
  by (induction s) auto

lemma split_on_append_sep: "d \<notin> set w \<Longrightarrow> split_on d (w @ d # s) = w # split_on d s"
  by (induction w) auto

lemma split_join:
  assumes "ws \<noteq> []" and "\<forall>w \<in> set ws. d \<notin> set w"
  shows "split_on d (join_on [d] ws) = ws"
  using assms
proof (induction "[d]" ws rule: join_on.induct)
  case (3 w v ws)
  then show ?case by (simp add: split_on_append_sep)
qed (auto simp: split_on_no_sep)

lemma join_split: "join_on [d] (split_on d s) = s"
proof (induction s)
  case (Cons c s)
  obtain w ws where ws: "split_on d s = w # ws"
    using split_on_nonempty [of d s] by (cases "split_on d s") auto
  with Cons show ?case by (cases ws) auto
qed simp

lemma join_on_eq_Nil: "join_on [d] ws = [] \<longleftrightarrow> ws = [] \<or> ws = [[]]"
  by (induction "[d]" ws rule: join_on.induct) auto

lemma set_join_on: "set (join_on d ws) \<subseteq> (\<Union>w \<in> set ws. set w) \<union> set d"
  by (induction d ws rule: join_on.induct) auto

lemma join_on_snoc: "ws \<noteq> [] \<Longrightarrow> join_on d (ws @ [v]) = join_on d ws @ d @ v"
  by (induction d ws rule: join_on.induct) auto

lemma hd_join_on: "ws \<noteq> [] \<Longrightarrow> hd ws \<noteq> [] \<Longrightarrow> hd (join_on d ws) = hd (hd ws)"
  by (induction d ws rule: join_on.induct) auto

lemma last_join_on:
  "ws \<noteq> [] \<Longrightarrow> last ws \<noteq> [] \<Longrightarrow> join_on d ws \<noteq> [] \<and> last (join_on d ws) = last (last ws)"
  by (induction d ws rule: join_on.induct) (auto simp: last_append)

lemma partition_on_append: "d \<notin> set s \<Longrightarrow> partition_on d (s @ d # t) = (s, True, t)"
  by (induction s) (auto simp: partition_on_def)

lemma partition_on_found: "partition_on d s = (a, True, b) \<Longrightarrow> s = a @ d # b \<and> d \<notin> set a"
proof -
  assume *: "partition_on d s = (a, True, b)"
  then have "d \<in> set s" and a: "a = takeWhile (\<lambda>c. c \<noteq> d) s" and b: "b = tl (dropWhile (\<lambda>c. c \<noteq> d) s)"
    by (auto simp: partition_on_def)
  then obtain xs ys where s: "s = xs @ d # ys" "d \<notin> set xs" by (meson split_list_first)
  then show ?thesis using a b by (simp add: takeWhile_append dropWhile_append)
qed

lemma partition_on_foundD:
  assumes "partition_on d s = (a, sep, b)" and sep
  shows "s = a @ d # b" and "d \<notin> set a"
  using assms partition_on_found [of d s a b] by simp_all

lemma rpartition_on_append: "d \<notin> set t \<Longrightarrow> rpartition_on d (s @ d # t) = (s, True, t)"
  by (simp add: rpartition_on_def takeWhile_append dropWhile_append)

lemma rpartition_on_found: "rpartition_on d s = (a, True, b) \<Longrightarrow> s = a @ d # b \<and> d \<notin> set b"
proof -
  assume *: "rpartition_on d s = (a, True, b)"
  then have "d \<in> set s" by (auto simp: rpartition_on_def split: if_splits)
  then obtain xs ys where "s = xs @ d # ys" "d \<notin> set ys" by (meson split_list_last)
  with * show ?thesis by (simp add: rpartition_on_append)
qed

lemma starts_with_append [simp]: "starts_with p (p @ s)"
  by (simp add: starts_with_def)

lemma starts_withE:
  assumes "starts_with p s"
  obtains t where "s = p @ t"
  using assms by (metis append_take_drop_id starts_with_def)

subsection \<open>Character classes\<close>

lemma ascii_alnum_not_space: "ascii_alnum c \<Longrightarrow> \<not> is_space c"
  by (auto simp: ascii_alnum_def ascii_lower_def ascii_digit_def is_space_def Let_def)

lemma ascii_alnum_lower: "ascii_alnum c \<Longrightarrow> ascii_alnum (lower_char c)"
  by (auto simp: ascii_alnum_def ascii_lower_def ascii_digit_def of_char_lower_char is_upper_def Let_def)

lemma hex_char_lower: "hex_char (lower_char c) = hex_char c"
  by (auto simp: hex_char_def of_char_lower_char is_upper_def Let_def)

lemma ascii_lower_not_upper: "ascii_lower c \<Longrightarrow> \<not> is_upper c"
  by (auto simp: ascii_lower_def is_upper_def Let_def)

end
