(* ===== verification/Identity.thy ===== *)
theory Identity
  imports Prelude
begin

text \<open>
  Canonical references: \<open>src/nodrix/model/identity.py\<close> (\<open>EntityRef\<close>, \<open>RevisionRef\<close>) and
  \<open>src/nodrix/model/references.py\<close> (\<open>RecordRef\<close>, \<open>parse_canonical_ref\<close>). The constructors
  \<open>mk_...\<close> are the dataclasses' \<open>__post_init__\<close>: they take the raw Python arguments,
  validate and normalise them, and return the frozen record or the exception. The
  interface \<open>canonical_text\<close> states what a printed reference promises; it is interpreted on
  all three kinds of reference.
\<close>

section \<open>The interface of printed references\<close>

locale canonical_text =
  fixes wf :: "'a \<Rightarrow> bool" and render :: "'a \<Rightarrow> string" and parse :: "string \<Rightarrow> 'a result"
  assumes parse_render: "wf x \<Longrightarrow> parse (render x) = Inr x"
    and parse_wf: "parse s = Inr x \<Longrightarrow> wf x"
begin

lemma render_inject: "wf x \<Longrightarrow> wf y \<Longrightarrow> render x = render y \<longleftrightarrow> x = y"
  by (metis parse_render sum.inject(2))

lemma parse_normal_form: "parse s = Inr x \<Longrightarrow> parse (render x) = Inr x"
  by (blast intro: parse_render parse_wf)

lemma parse_eq_iff: "parse s = Inr x \<Longrightarrow> parse t = Inr y \<Longrightarrow> render x = render y \<longleftrightarrow> x = y"
  by (blast dest: parse_wf render_inject [THEN iffD1])

end

section \<open>Segments and namespaces\<close>

definition seg_char :: "char \<Rightarrow> bool" where
  "seg_char c = (ascii_alnum c \<or> c = CHR ''.'' \<or> c = CHR ''_'' \<or> c = CHR ''-'')"

definition seg_match :: "string \<Rightarrow> bool" where
  "seg_match s = (case s of [] \<Rightarrow> False | c # cs \<Rightarrow> ascii_alnum c \<and> list_all seg_char cs)"

definition sha256_match :: "string \<Rightarrow> bool" where
  "sha256_match s = (length s = 64 \<and> list_all hex_char s)"

definition segment :: "pyval \<Rightarrow> string \<Rightarrow> string result" where
  "segment value field =
     ebind (need_str (field @ '' must be a string'') value) (\<lambda>s.
       let normalized = strip s in
       if normalized = [] then Inl (ValueErr (field @ '' must be non-empty''))
       else if \<not> seg_match normalized
       then Inl (ValueErr (field @ '' must start with an alphanumeric character and contain '' @
                           ''only letters, digits, '' @ repr_str ''.'' @ '', '' @ repr_str ''_'' @
                           '' or '' @ repr_str ''-''))
       else Inr normalized)"

definition namespace :: "pyval \<Rightarrow> string result" where
  "namespace value =
     ebind (need_str ''namespace must be a string'' value) (\<lambda>s.
       let normalized = strip_by (\<lambda>c. c = CHR ''/'') (strip s) in
       if normalized = [] then Inl (ValueErr ''namespace must be non-empty'')
       else ebind (emap (\<lambda>part. segment (PStr part) ''namespace segment'')
                        (split_on (CHR ''/'') normalized))
                  (\<lambda>parts. Inr (join_on ''/'' parts)))"

section \<open>EntityRef\<close>

record entity_ref =
  er_kind :: string
  er_namespace :: string
  er_name :: string

definition mk_EntityRef :: "pyval \<Rightarrow> pyval \<Rightarrow> pyval \<Rightarrow> entity_ref result" where
  "mk_EntityRef kind ns name =
     ebind (segment kind ''kind'') (\<lambda>k.
     ebind (namespace ns) (\<lambda>n.
     ebind (segment name ''name'') (\<lambda>m.
     Inr \<lparr>er_kind = lower_str k, er_namespace = n, er_name = m\<rparr>)))"

definition entity_prefix :: string where
  "entity_prefix = ''nodrix://''"

definition EntityRef_canonical :: "entity_ref \<Rightarrow> string" where
  "EntityRef_canonical e =
     entity_prefix @ er_kind e @ ''/'' @ er_namespace e @ ''/'' @ er_name e"

definition EntityRef_parse :: "pyval \<Rightarrow> entity_ref result" where
  "EntityRef_parse value =
     ebind (need_str ''entity reference must be a string'' value) (\<lambda>s.
       if \<not> starts_with entity_prefix s
       then Inl (ValueErr (''entity reference must start with '' @ repr_str entity_prefix))
       else let parts = split_on (CHR ''/'') (drop (length entity_prefix) s) in
         if length parts < 3
         then Inl (ValueErr ''entity reference must contain kind, namespace and name'')
         else mk_EntityRef (PStr (hd parts)) (PStr (join_on ''/'' (butlast (tl parts))))
                           (PStr (last parts)))"

definition wf_segment :: "string \<Rightarrow> bool" where
  "wf_segment s = seg_match s"

definition wf_namespace :: "string \<Rightarrow> bool" where
  "wf_namespace n = list_all seg_match (split_on (CHR ''/'') n)"

definition wf_entity :: "entity_ref \<Rightarrow> bool" where
  "wf_entity e = (seg_match (er_kind e) \<and> lower_str (er_kind e) = er_kind e \<and>
                  wf_namespace (er_namespace e) \<and> seg_match (er_name e))"

subsection \<open>Lemmas on segments\<close>

lemma seg_char_not_space: "seg_char c \<Longrightarrow> \<not> is_space c"
  by (auto simp: seg_char_def ascii_alnum_not_space) (auto simp: is_space_def Let_def)

lemma seg_char_not_slash: "seg_char c \<Longrightarrow> c \<noteq> CHR ''/'' \<and> c \<noteq> CHR ''@'' \<and> c \<noteq> CHR '':''"
  by (auto simp: seg_char_def ascii_alnum_def ascii_lower_def ascii_digit_def)

lemma ascii_alnum_seg_char: "ascii_alnum c \<Longrightarrow> seg_char c"
  by (simp add: seg_char_def)

lemma seg_match_chars: "seg_match s \<Longrightarrow> c \<in> set s \<Longrightarrow> seg_char c"
  by (auto simp: seg_match_def list_all_iff ascii_alnum_seg_char split: list.splits)

lemma seg_match_Nil [simp]: "\<not> seg_match []"
  by (simp add: seg_match_def)

lemma seg_match_nonempty: "seg_match s \<Longrightarrow> s \<noteq> []"
  by (auto simp: seg_match_def)

lemma seg_match_strip: "seg_match s \<Longrightarrow> strip s = s"
  by (rule strip_id) (auto dest: seg_match_chars seg_char_not_space)

lemma seg_match_sep_free:
  "seg_match s \<Longrightarrow> CHR ''/'' \<notin> set s \<and> CHR ''@'' \<notin> set s \<and> CHR '':'' \<notin> set s"
  by (auto dest: seg_match_chars dest!: seg_char_not_slash)

lemma seg_char_lower: "seg_char c \<Longrightarrow> seg_char (lower_char c)"
  by (auto simp: seg_char_def ascii_alnum_lower) (auto simp: lower_char_def is_upper_def Let_def)

lemma seg_match_lower: "seg_match s \<Longrightarrow> seg_match (lower_str s)"
  by (auto simp: seg_match_def lower_str_def list_all_iff ascii_alnum_lower seg_char_lower
           split: list.splits)

lemma segment_Inr [result_elims]:
  "segment v f = Inr s \<longleftrightarrow> (\<exists>raw. v = PStr raw \<and> s = strip raw \<and> seg_match s)"
  by (auto simp: segment_def result_elims Let_def dest: seg_match_nonempty)

lemma segment_id: "seg_match s \<Longrightarrow> segment (PStr s) f = Inr s"
  by (simp add: segment_Inr seg_match_strip)

subsection \<open>Lemmas on namespaces\<close>

lemma emap_segment:
  assumes "emap (\<lambda>part. segment (PStr part) f) xs = Inr ys"
  shows "\<forall>y \<in> set ys. seg_match y"
  using assms by (auto dest!: emap_Inr_set simp: segment_Inr)

lemma wf_namespace_join:
  assumes "ys \<noteq> []" and "\<forall>y \<in> set ys. seg_match y"
  shows "wf_namespace (join_on ''/'' ys)"
proof -
  have "split_on (CHR ''/'') (join_on ''/'' ys) = ys"
    using assms by (intro split_join) (auto dest: seg_match_sep_free)
  with assms show ?thesis by (simp add: wf_namespace_def list_all_iff)
qed

lemma wf_namespace_chars: "wf_namespace n \<Longrightarrow> c \<in> set n \<Longrightarrow> seg_char c \<or> c = CHR ''/''"
proof -
  assume wf: "wf_namespace n" and c: "c \<in> set n"
  have "c \<in> set (join_on ''/'' (split_on (CHR ''/'') n))" using c by (simp add: join_split)
  then show ?thesis
    using set_join_on wf by (fastforce simp: wf_namespace_def list_all_iff dest: seg_match_chars)
qed

lemma wf_namespace_nonempty: "wf_namespace n \<Longrightarrow> n \<noteq> []"
  by (auto simp: wf_namespace_def dest: seg_match_nonempty)

lemma wf_namespace_ends:
  assumes "wf_namespace n"
  shows "hd n \<noteq> CHR ''/''" and "last n \<noteq> CHR ''/''"
proof -
  let ?ws = "split_on (CHR ''/'') n"
  have seg: "seg_match (hd ?ws)" "seg_match (last ?ws)"
    using assms by (auto simp: wf_namespace_def list_all_iff)
  note ne = seg [THEN seg_match_nonempty]
  have "hd n = hd (hd ?ws)" using hd_join_on [of ?ws "''/''"] ne by (simp add: join_split)
  then show "hd n \<noteq> CHR ''/''"
    using seg(1) ne(1) by (metis hd_in_set seg_match_sep_free)
  have "last n = last (last ?ws)" using last_join_on [of ?ws "''/''"] ne by (simp add: join_split)
  then show "last n \<noteq> CHR ''/''"
    using seg(2) ne(2) by (metis last_in_set seg_match_sep_free)
qed

lemma strip_by_keeps: "s \<noteq> [] \<Longrightarrow> \<not> p (hd s) \<Longrightarrow> \<not> p (last s) \<Longrightarrow> strip_by p s = s"
proof -
  assume *: "s \<noteq> []" "\<not> p (hd s)" "\<not> p (last s)"
  then have "dropWhile p s = s" by (cases s) auto
  moreover have "dropWhile p (rev s) = rev s"
    using * by (metis dropWhile_eq_self_iff hd_rev)
  ultimately show ?thesis by (simp add: strip_by_def)
qed

lemma namespace_wf: "namespace v = Inr n \<Longrightarrow> wf_namespace n"
  by (auto simp: namespace_def result_elims Let_def split: if_splits
           intro!: wf_namespace_join dest: emap_segment emap_Inr_length [THEN sym])

lemma namespace_id:
  assumes "wf_namespace n"
  shows "namespace (PStr n) = Inr n"
proof -
  have "strip n = n"
    using assms by (intro strip_id)
      (auto dest!: wf_namespace_chars dest: seg_char_not_space simp: is_space_def Let_def)
  moreover have "strip_by (\<lambda>c. c = CHR ''/'') n = n"
    using assms by (intro strip_by_keeps wf_namespace_nonempty) (simp_all add: wf_namespace_ends)
  moreover have "emap (\<lambda>part. segment (PStr part) ''namespace segment'') (split_on (CHR ''/'') n)
                 = Inr (map id (split_on (CHR ''/'') n))"
    using assms by (intro emap_Inr_map) (simp add: wf_namespace_def list_all_iff segment_id)
  ultimately show ?thesis
    using assms by (simp add: namespace_def wf_namespace_nonempty join_split)
qed

subsection \<open>Correctness of EntityRef\<close>

lemma mk_EntityRef_wf: "mk_EntityRef k n m = Inr e \<Longrightarrow> wf_entity e"
  by (auto simp: mk_EntityRef_def wf_entity_def result_elims seg_match_lower dest: namespace_wf)

lemma mk_EntityRef_id:
  "wf_entity e \<Longrightarrow> mk_EntityRef (PStr (er_kind e)) (PStr (er_namespace e)) (PStr (er_name e)) = Inr e"
  by (simp add: mk_EntityRef_def wf_entity_def segment_id namespace_id)

lemma split_canonical:
  assumes "wf_entity e"
  shows "split_on (CHR ''/'') (er_kind e @ ''/'' @ er_namespace e @ ''/'' @ er_name e) =
         er_kind e # split_on (CHR ''/'') (er_namespace e) @ [er_name e]"
proof -
  let ?ws = "er_kind e # split_on (CHR ''/'') (er_namespace e) @ [er_name e]"
  have "join_on ''/'' ?ws = er_kind e @ ''/'' @ join_on ''/'' (split_on (CHR ''/'') (er_namespace e)) @ ''/'' @ er_name e"
    by (cases "split_on (CHR ''/'') (er_namespace e)") (simp_all add: join_on_snoc flip: append_Cons)
  then have "join_on ''/'' ?ws = er_kind e @ ''/'' @ er_namespace e @ ''/'' @ er_name e"
    by (simp only: join_split)
  moreover have "split_on (CHR ''/'') (join_on ''/'' ?ws) = ?ws"
    using assms by (intro split_join)
      (auto simp: wf_entity_def wf_namespace_def list_all_iff dest: seg_match_sep_free)
  ultimately show ?thesis by simp
qed

lemma EntityRef_parse_canonical: "wf_entity e \<Longrightarrow> EntityRef_parse (PStr (EntityRef_canonical e)) = Inr e"
  by (simp add: EntityRef_parse_def EntityRef_canonical_def split_canonical [simplified]
                butlast_append join_split mk_EntityRef_id Let_def)

lemma EntityRef_parse_wf: "EntityRef_parse v = Inr e \<Longrightarrow> wf_entity e"
  by (auto simp: EntityRef_parse_def result_elims Let_def split: if_splits dest: mk_EntityRef_wf)

interpretation entity: canonical_text wf_entity EntityRef_canonical "\<lambda>s. EntityRef_parse (PStr s)"
  by unfold_locales (auto simp: EntityRef_parse_canonical dest: EntityRef_parse_wf)

section \<open>RevisionRef\<close>

record revision_ref =
  rv_entity :: entity_ref
  rv_algorithm :: string
  rv_digest :: string

definition mk_RevisionRef :: "entity_ref \<Rightarrow> pyval \<Rightarrow> pyval \<Rightarrow> revision_ref result" where
  "mk_RevisionRef e algorithm digest =
     ebind (need_str ''algorithm must be a string'' algorithm) (\<lambda>raw_a.
       let a = lower_str (strip raw_a) in
       if a = [] \<or> \<not> seg_match a then Inl (ValueErr ''invalid digest algorithm'')
       else ebind (need_str ''digest must be a string'' digest) (\<lambda>raw_d.
         let d = lower_str (strip raw_d) in
         if d = [] then Inl (ValueErr ''digest must be non-empty'')
         else if a = ''sha256'' \<and> \<not> sha256_match d
         then Inl (ValueErr ''sha256 digest must contain exactly 64 hexadecimal characters'')
         else Inr \<lparr>rv_entity = e, rv_algorithm = a, rv_digest = d\<rparr>))"

definition RevisionRef_canonical :: "revision_ref \<Rightarrow> string" where
  "RevisionRef_canonical r =
     EntityRef_canonical (rv_entity r) @ ''@'' @ rv_algorithm r @ '':'' @ rv_digest r"

definition RevisionRef_from_sha256 :: "entity_ref \<Rightarrow> pyval \<Rightarrow> revision_ref result" where
  "RevisionRef_from_sha256 e digest = mk_RevisionRef e (PStr ''sha256'') digest"

definition RevisionRef_parse :: "pyval \<Rightarrow> revision_ref result" where
  "RevisionRef_parse value =
     ebind (need_str ''revision reference must be a string'' value) (\<lambda>s.
       case rpartition_on (CHR ''@'') s of (entity_text, sep, revision) \<Rightarrow>
         if \<not> sep then Inl (ValueErr (''revision reference must contain '' @ repr_str ''@''))
         else case partition_on (CHR '':'') revision of (algorithm, sep2, digest) \<Rightarrow>
           if \<not> sep2
           then Inl (ValueErr (''revision reference must contain '' @ repr_str ''<algorithm>:<digest>''))
           else ebind (EntityRef_parse (PStr entity_text)) (\<lambda>e.
                  mk_RevisionRef e (PStr algorithm) (PStr digest)))"

definition wf_revision :: "revision_ref \<Rightarrow> bool" where
  "wf_revision r = (wf_entity (rv_entity r) \<and>
     seg_match (rv_algorithm r) \<and> lower_str (rv_algorithm r) = rv_algorithm r \<and>
     rv_digest r \<noteq> [] \<and> strip (rv_digest r) = rv_digest r \<and> lower_str (rv_digest r) = rv_digest r \<and>
     (rv_algorithm r = ''sha256'' \<longrightarrow> sha256_match (rv_digest r)))"

definition printable_revision :: "revision_ref \<Rightarrow> bool" where
  "printable_revision r = (wf_revision r \<and> CHR ''@'' \<notin> set (rv_digest r))"

lemma mk_RevisionRef_wf:
  "wf_entity e \<Longrightarrow> mk_RevisionRef e a d = Inr r \<Longrightarrow> wf_revision r \<and> rv_entity r = e"
  by (auto simp: mk_RevisionRef_def wf_revision_def result_elims Let_def strip_lower_str split: if_splits)

lemma mk_RevisionRef_id:
  "wf_revision r \<Longrightarrow> mk_RevisionRef (rv_entity r) (PStr (rv_algorithm r)) (PStr (rv_digest r)) = Inr r"
  by (auto simp: mk_RevisionRef_def wf_revision_def seg_match_strip Let_def)

lemma wf_entity_chars:
  "wf_entity e \<Longrightarrow> c \<in> set (EntityRef_canonical e) \<Longrightarrow>
     seg_char c \<or> c = CHR ''/'' \<or> c = CHR '':''"
  by (auto simp: EntityRef_canonical_def entity_prefix_def wf_entity_def
           dest: seg_match_chars wf_namespace_chars)
     (auto simp: seg_char_def ascii_alnum_def ascii_lower_def)

lemma wf_entity_no_at: "wf_entity e \<Longrightarrow> CHR ''@'' \<notin> set (EntityRef_canonical e)"
  by (auto dest!: wf_entity_chars seg_char_not_slash)

lemma RevisionRef_parse_canonical:
  assumes "printable_revision r"
  shows "RevisionRef_parse (PStr (RevisionRef_canonical r)) = Inr r"
proof -
  from assms have wf: "wf_revision r" and at: "CHR ''@'' \<notin> set (rv_digest r)"
    by (auto simp: printable_revision_def)
  have alg: "CHR '':'' \<notin> set (rv_algorithm r)" "CHR ''@'' \<notin> set (rv_algorithm r)"
    using wf by (auto simp: wf_revision_def dest: seg_match_sep_free)
  have "rpartition_on (CHR ''@'') (EntityRef_canonical (rv_entity r) @ CHR ''@'' # (rv_algorithm r @ CHR '':'' # rv_digest r))
        = (EntityRef_canonical (rv_entity r), True, rv_algorithm r @ CHR '':'' # rv_digest r)"
    using at alg by (intro rpartition_on_append) auto
  moreover have "partition_on (CHR '':'') (rv_algorithm r @ CHR '':'' # rv_digest r)
        = (rv_algorithm r, True, rv_digest r)"
    by (rule partition_on_append) (rule alg)
  moreover have "EntityRef_parse (PStr (EntityRef_canonical (rv_entity r))) = Inr (rv_entity r)"
    using wf by (intro EntityRef_parse_canonical) (simp add: wf_revision_def)
  ultimately show ?thesis
    by (simp add: RevisionRef_parse_def RevisionRef_canonical_def mk_RevisionRef_id [OF wf])
qed

lemma strip_no_char: "c \<notin> set s \<Longrightarrow> c \<notin> set (strip s)"
  using set_strip by blast

lemma lower_str_no_at: "CHR ''@'' \<notin> set s \<Longrightarrow> CHR ''@'' \<notin> set (lower_str s)"
proof -
  have "lower_char c = CHR ''@'' \<Longrightarrow> c = CHR ''@''" for c
  proof -
    assume "lower_char c = CHR ''@''"
    then have "code_point (lower_char c) = (64::nat)" by simp
    then have "\<not> is_upper c" by (auto simp: of_char_lower_char is_upper_def Let_def split: if_splits)
    then show ?thesis using \<open>lower_char c = CHR ''@''\<close> by (simp add: lower_char_def)
  qed
  then show "CHR ''@'' \<notin> set s \<Longrightarrow> CHR ''@'' \<notin> set (lower_str s)"
    by (auto simp: lower_str_def) (metis)
qed

lemma RevisionRef_parse_printable: "RevisionRef_parse v = Inr r \<Longrightarrow> printable_revision r"
proof -
  assume "RevisionRef_parse v = Inr r"
  then obtain s where v: "v = PStr s" and ok: "RevisionRef_parse (PStr s) = Inr r"
    by (auto simp: RevisionRef_parse_def result_elims)
  obtain et b rev where rp: "rpartition_on (CHR ''@'') s = (et, b, rev)" by (metis prod_cases3)
  obtain a c d where pa: "partition_on (CHR '':'') rev = (a, c, d)" by (metis prod_cases3)
  from ok rp pa obtain e where s: "rpartition_on (CHR ''@'') s = (et, True, rev)"
    and p: "partition_on (CHR '':'') rev = (a, True, d)" and e: "EntityRef_parse (PStr et) = Inr e"
    and mk: "mk_RevisionRef e (PStr a) (PStr d) = Inr r"
    by (auto simp: RevisionRef_parse_def result_elims)
  from rpartition_on_found [OF s] partition_on_found [OF p] have "CHR ''@'' \<notin> set d" by auto
  moreover have "rv_digest r = lower_str (strip d)"
    using mk by (auto simp: mk_RevisionRef_def result_elims Let_def split: if_splits)
  ultimately have "CHR ''@'' \<notin> set (rv_digest r)" by (simp add: strip_no_char lower_str_no_at)
  moreover have "wf_revision r" using mk_RevisionRef_wf [OF EntityRef_parse_wf [OF e] mk] by simp
  ultimately show ?thesis by (simp add: printable_revision_def)
qed

interpretation revision: canonical_text printable_revision RevisionRef_canonical
  "\<lambda>s. RevisionRef_parse (PStr s)"
  by unfold_locales (auto simp: RevisionRef_parse_canonical dest: RevisionRef_parse_printable)

section \<open>Kind names\<close>

text \<open>
  The expression \<open>^[a-z][a-z0-9._-]*$\<close>, shared by \<open>OperationKind\<close>, \<open>PlanKind\<close>,
  \<open>RelationKind\<close> and \<open>RecordRef.kind\<close>.
\<close>

definition kind_char :: "char \<Rightarrow> bool" where
  "kind_char c = (ascii_lower c \<or> ascii_digit c \<or> c = CHR ''.'' \<or> c = CHR ''_'' \<or> c = CHR ''-'')"

definition kind_match :: "string \<Rightarrow> bool" where
  "kind_match s = (case s of [] \<Rightarrow> False | c # cs \<Rightarrow> ascii_lower c \<and> list_all kind_char cs)"

definition kind_name :: "string \<Rightarrow> pyval \<Rightarrow> string result" where
  "kind_name what value =
     ebind (need_str (what @ '' kind must be a string'') value) (\<lambda>s.
       let normalized = lower_str (strip s) in
       if normalized = [] then Inl (ValueErr (what @ '' kind must be non-empty''))
       else if \<not> kind_match normalized
       then Inl (ValueErr (what @ '' kind must start with a letter and contain only '' @
              ''lowercase letters, digits, '' @ repr_str ''.'' @ '', '' @ repr_str ''_'' @
              '' or '' @ repr_str ''-''))
       else Inr normalized)"

lemma kind_char_seg: "kind_char c \<Longrightarrow> seg_char c \<and> \<not> is_upper c"
  by (auto simp: kind_char_def seg_char_def ascii_alnum_def ascii_lower_def ascii_digit_def is_upper_def Let_def)

lemma kind_match_chars: "kind_match s \<Longrightarrow> c \<in> set s \<Longrightarrow> kind_char c"
  by (auto simp: kind_match_def list_all_iff kind_char_def split: list.splits)

lemma kind_match_strip: "kind_match s \<Longrightarrow> strip s = s"
  by (rule strip_id) (auto dest!: kind_match_chars kind_char_seg seg_char_not_space)

lemma kind_match_lower: "kind_match s \<Longrightarrow> lower_str s = s"
  unfolding lower_str_def
  by (intro map_idI) (auto simp: lower_char_def dest!: kind_match_chars kind_char_seg)

lemma kind_match_Nil [simp]: "\<not> kind_match []" "\<not> kind_match (lower_str [])"
  by (simp_all add: kind_match_def lower_str_def)

lemma kind_match_nonempty: "kind_match s \<Longrightarrow> s \<noteq> []"
  by (auto simp: kind_match_def)

lemma kind_match_no_slash: "kind_match s \<Longrightarrow> CHR ''/'' \<notin> set s"
  by (auto dest!: kind_match_chars kind_char_seg seg_char_not_slash)

lemma kind_name_Inr [result_elims]:
  "kind_name w v = Inr k \<longleftrightarrow> (\<exists>raw. v = PStr raw \<and> k = lower_str (strip raw) \<and> kind_match k)"
  by (auto simp: kind_name_def result_elims Let_def dest: kind_match_nonempty)

lemma kind_name_id: "kind_match k \<Longrightarrow> kind_name w (PStr k) = Inr k"
  by (simp add: kind_name_Inr kind_match_strip kind_match_lower)

section \<open>RecordRef\<close>

record record_ref =
  rr_kind :: string
  rr_record_id :: string

definition record_id_match :: "string \<Rightarrow> bool" where
  "record_id_match s =
     (case s of [] \<Rightarrow> False | c # cs \<Rightarrow> ascii_alnum c \<and> list_all (\<lambda>c. seg_char c \<or> c = CHR '':'') cs)"

definition mk_RecordRef :: "pyval \<Rightarrow> pyval \<Rightarrow> record_ref result" where
  "mk_RecordRef kind record_id =
     ebind (kind_name ''record'' kind) (\<lambda>k.
     ebind (need_str ''record_id must be a string'' record_id) (\<lambda>raw.
       let r = strip raw in
       if r = [] then Inl (ValueErr ''record_id must be non-empty'')
       else if \<not> record_id_match r
       then Inl (ValueErr (''record_id must start with an alphanumeric character and '' @
              ''contain only letters, digits, '' @ repr_str ''.'' @ '', '' @ repr_str ''_'' @ '', '' @
              repr_str ''-'' @ '' or '' @ repr_str '':''))
       else Inr \<lparr>rr_kind = k, rr_record_id = r\<rparr>))"

definition record_prefix :: string where
  "record_prefix = ''nodrix://record/''"

definition RecordRef_canonical :: "record_ref \<Rightarrow> string" where
  "RecordRef_canonical r = record_prefix @ rr_kind r @ ''/'' @ rr_record_id r"

definition RecordRef_parse :: "pyval \<Rightarrow> record_ref result" where
  "RecordRef_parse value =
     ebind (need_str ''record reference must be a string'' value) (\<lambda>s.
       if \<not> starts_with record_prefix s
       then Inl (ValueErr (''record reference must start with '' @ repr_str record_prefix))
       else case partition_on (CHR ''/'') (drop (length record_prefix) s) of (kind, sep, record_id) \<Rightarrow>
         if \<not> sep \<or> kind = [] \<or> record_id = []
         then Inl (ValueErr ''record reference must contain kind and record id'')
         else if CHR ''/'' \<in> set record_id
         then Inl (ValueErr ''record reference contains unexpected path segments'')
         else mk_RecordRef (PStr kind) (PStr record_id))"

definition wf_record :: "record_ref \<Rightarrow> bool" where
  "wf_record r = (kind_match (rr_kind r) \<and> record_id_match (rr_record_id r))"

lemma record_id_chars:
  "record_id_match s \<Longrightarrow> c \<in> set s \<Longrightarrow> \<not> is_space c \<and> c \<noteq> CHR ''/'' \<and> c \<noteq> CHR ''@''"
  by (auto simp: record_id_match_def list_all_iff split: list.splits
           dest: seg_char_not_space ascii_alnum_not_space)
     (auto simp: is_space_def Let_def seg_char_def ascii_alnum_def ascii_lower_def ascii_digit_def)

lemma record_id_strip: "record_id_match s \<Longrightarrow> strip s = s \<and> s \<noteq> [] \<and> CHR ''/'' \<notin> set s"
  by (auto intro!: strip_id dest: record_id_chars) (simp add: record_id_match_def)

lemma mk_RecordRef_wf: "mk_RecordRef k i = Inr r \<Longrightarrow> wf_record r"
  by (auto simp: mk_RecordRef_def wf_record_def result_elims Let_def split: if_splits)

lemma RecordRef_parse_canonical: "wf_record r \<Longrightarrow> RecordRef_parse (PStr (RecordRef_canonical r)) = Inr r"
  by (auto simp: wf_record_def RecordRef_parse_def RecordRef_canonical_def partition_on_append
        kind_match_no_slash mk_RecordRef_def kind_name_id record_id_strip kind_match_nonempty Let_def)

lemma RecordRef_parse_wf: "RecordRef_parse v = Inr r \<Longrightarrow> wf_record r"
  by (auto simp: RecordRef_parse_def result_elims case_prod_beta split: if_splits dest: mk_RecordRef_wf)

interpretation recordref: canonical_text wf_record RecordRef_canonical "\<lambda>s. RecordRef_parse (PStr s)"
  by unfold_locales (auto simp: RecordRef_parse_canonical dest: RecordRef_parse_wf)

section \<open>parse_canonical_ref\<close>

datatype canonical_ref = CEntity entity_ref | CRevision revision_ref | CRecord record_ref

definition ebind_map :: "('a \<Rightarrow> 'b) \<Rightarrow> 'a result \<Rightarrow> 'b result" where
  "ebind_map f m = ebind m (\<lambda>x. Inr (f x))"

lemma ebind_map_Inr [result_elims]: "ebind_map f m = Inr y \<longleftrightarrow> (\<exists>x. m = Inr x \<and> y = f x)"
  by (auto simp: ebind_map_def result_elims)

definition parse_canonical_ref :: "pyval \<Rightarrow> canonical_ref result" where
  "parse_canonical_ref value =
     ebind (need_str ''canonical reference must be a string'' value) (\<lambda>s.
       if starts_with record_prefix s then ebind_map CRecord (RecordRef_parse (PStr s))
       else if CHR ''@'' \<in> set s then ebind_map CRevision (RevisionRef_parse (PStr s))
       else ebind_map CEntity (EntityRef_parse (PStr s)))"

definition canonical_of :: "canonical_ref \<Rightarrow> string" where
  "canonical_of r = (case r of
     CEntity e \<Rightarrow> EntityRef_canonical e
   | CRevision v \<Rightarrow> RevisionRef_canonical v
   | CRecord x \<Rightarrow> RecordRef_canonical x)"

definition wf_canonical :: "canonical_ref \<Rightarrow> bool" where
  "wf_canonical r = (case r of
     CEntity e \<Rightarrow> wf_entity e \<and> er_kind e \<noteq> ''record''
   | CRevision v \<Rightarrow> printable_revision v \<and> er_kind (rv_entity v) \<noteq> ''record''
   | CRecord x \<Rightarrow> wf_record x)"

lemma entity_not_record_prefix:
  assumes "wf_entity e" and "er_kind e \<noteq> ''record''"
  shows "\<not> starts_with record_prefix (EntityRef_canonical e @ t)"
proof
  assume "starts_with record_prefix (EntityRef_canonical e @ t)"
  then obtain u where u: "EntityRef_canonical e @ t = record_prefix @ u" by (rule starts_withE)
  then have "er_kind e @ CHR ''/'' # (er_namespace e @ ''/'' @ er_name e @ t) = ''record'' @ CHR ''/'' # u"
    by (simp add: EntityRef_canonical_def record_prefix_def entity_prefix_def)
  moreover have "CHR ''/'' \<notin> set (er_kind e)"
    using assms(1) by (auto simp: wf_entity_def dest: seg_match_sep_free)
  moreover have "CHR ''/'' \<notin> set ''record''" by simp
  ultimately have "er_kind e = ''record''"
    by (metis (no_types, lifting) partition_on_append prod.inject)
  with assms(2) show False by simp
qed

lemma parse_canonical_ref_render: "wf_canonical r \<Longrightarrow> parse_canonical_ref (PStr (canonical_of r)) = Inr r"
proof (cases r)
  case (CEntity e)
  moreover assume "wf_canonical r"
  ultimately have "wf_entity e" "er_kind e \<noteq> ''record''" by (auto simp: wf_canonical_def)
  then show ?thesis
    using entity_not_record_prefix [of e "[]"] CEntity
    by (simp add: parse_canonical_ref_def canonical_of_def wf_entity_no_at
                  EntityRef_parse_canonical ebind_map_def)
next
  case (CRevision v)
  moreover assume "wf_canonical r"
  ultimately have v: "printable_revision v" "er_kind (rv_entity v) \<noteq> ''record''"
    by (auto simp: wf_canonical_def)
  then have "\<not> starts_with record_prefix (RevisionRef_canonical v)"
    unfolding RevisionRef_canonical_def
    by (intro entity_not_record_prefix) (auto simp: printable_revision_def wf_revision_def)
  moreover have "CHR ''@'' \<in> set (RevisionRef_canonical v)" by (simp add: RevisionRef_canonical_def)
  ultimately show ?thesis
    using v CRevision
    by (simp add: parse_canonical_ref_def canonical_of_def RevisionRef_parse_canonical ebind_map_def)
next
  case (CRecord x)
  moreover assume "wf_canonical r"
  ultimately have "wf_record x" by (simp add: wf_canonical_def)
  moreover have "starts_with record_prefix (RecordRef_canonical x)"
    by (simp add: RecordRef_canonical_def)
  ultimately show ?thesis
    using CRecord by (simp add: parse_canonical_ref_def canonical_of_def RecordRef_parse_canonical
                               ebind_map_def)
qed

text \<open>A text with the record prefix is read as a record or refused.\<close>

lemma canonical_record_is_record:
  assumes "parse_canonical_ref (PStr (canonical_of r)) = Inr r"
  shows "case r of CEntity e \<Rightarrow> er_kind e \<noteq> ''record'' | CRevision v \<Rightarrow> er_kind (rv_entity v) \<noteq> ''record'' | CRecord x \<Rightarrow> True"
  using assms
  by (auto simp: parse_canonical_ref_def canonical_of_def RevisionRef_canonical_def EntityRef_canonical_def
      record_prefix_def entity_prefix_def starts_with_def result_elims split: canonical_ref.splits if_splits)

lemma parse_canonical_ref_Inr_cases:
  "parse_canonical_ref v = Inr r \<Longrightarrow> (\<exists>x. r = CRecord x \<and> wf_record x) \<or>
     (\<exists>x. r = CRevision x \<and> printable_revision x) \<or> (\<exists>x. r = CEntity x \<and> wf_entity x)"
  by (auto simp: parse_canonical_ref_def result_elims split: if_splits
           dest: RecordRef_parse_wf RevisionRef_parse_printable EntityRef_parse_wf)

section \<open>Properties\<close>

text \<open>
  C12: The sniffing parser \<open>parse_canonical_ref\<close> reads the canonical text of a reference back as that
  reference exactly for the records with well-formed segments, and for the entities and revisions with
  well-formed segments whose kind is not \<open>record\<close> and, for a revision, whose digest has no \<open>@\<close>.  So two
  kinds of reference that the constructors accept do not come back: those of kind \<open>record\<close>, whose
  text is read as a record, and revisions with an \<open>@\<close> in the digest.
\<close>

theorem canonical_ref_roundtrip:
  "parse_canonical_ref (PStr (canonical_of r)) = Inr r \<longleftrightarrow> wf_canonical r"
proof
  assume parses: "parse_canonical_ref (PStr (canonical_of r)) = Inr r"
  with parse_canonical_ref_Inr_cases [OF parses] canonical_record_is_record [of r] show "wf_canonical r"
    by (cases r) (auto simp: wf_canonical_def)
qed (rule parse_canonical_ref_render)

theorem canonical_ref_roundtrip_witness:
  "parse_canonical_ref (PStr (canonical_of (CRecord \<lparr>rr_kind = ''run'', rr_record_id = ''r1''\<rparr>))) =
     Inr (CRecord \<lparr>rr_kind = ''run'', rr_record_id = ''r1''\<rparr>)"
  unfolding canonical_ref_roundtrip by code_simp

text \<open>
  A revision reference that was parsed is in normal form: it satisfies the constructor's
  checks, its canonical text parses to it again, and two parsed references have the same
  canonical text only when they are equal.
\<close>

theorem revision_ref_normal_form:
  assumes "RevisionRef_parse (PStr s) = Inr r" and "RevisionRef_parse (PStr s') = Inr r'"
  shows "wf_revision r \<and> RevisionRef_parse (PStr (RevisionRef_canonical r)) = Inr r \<and>
    (RevisionRef_canonical r = RevisionRef_canonical r' \<longleftrightarrow> r = r')"
  using revision.parse_normal_form [OF assms(1)] revision.parse_eq_iff [OF assms]
    RevisionRef_parse_printable [OF assms(1)] by (simp add: printable_revision_def)

definition sample_revision_text :: string where
  "sample_revision_text = ''nodrix://system/local/demo@v:1a''"

theorem revision_ref_normal_form_witness:
  "\<exists>r. RevisionRef_parse (PStr sample_revision_text) = Inr r \<and>
     RevisionRef_parse (PStr (RevisionRef_canonical r)) = Inr r"
proof -
  have "\<not> isl (RevisionRef_parse (PStr sample_revision_text))" by code_simp
  then obtain r where r: "RevisionRef_parse (PStr sample_revision_text) = Inr r" by (auto simp: isl_def) (metis sum.exhaust)
  from revision_ref_normal_form [OF r r] r show ?thesis by blast
qed

text \<open>
  A digest may contain an at sign when its algorithm is not \<open>sha256\<close>: the constructor
  accepts it, but its canonical text does not parse back to it, because the parser splits at
  the last at sign.
\<close>

definition at_sign_revision :: "revision_ref result" where
  "at_sign_revision = ebind (mk_EntityRef (PStr ''system'') (PStr ''local'') (PStr ''demo''))
     (\<lambda>e. mk_RevisionRef e (PStr ''v'') (PStr ''1@2''))"

theorem revision_with_at_sign_not_parsed:
  "\<exists>r. at_sign_revision = Inr r \<and> RevisionRef_parse (PStr (RevisionRef_canonical r)) \<noteq> Inr r"
proof -
  have "case at_sign_revision of Inl _ \<Rightarrow> False
        | Inr r \<Rightarrow> isl (RevisionRef_parse (PStr (RevisionRef_canonical r)))" by code_simp
  from case_Inr [OF this] show ?thesis unfolding isl_def by (metis sum.distinct(1))
qed

end
