(* ===== verification/Endpoints.thy ===== *)
theory Endpoints
  imports Identity
begin

text \<open>
  Endpoint and parameter-target references of a System: \<open>src/nodrix/system/graph.py\<close>
  (\<open>split_local_endpoint\<close>, \<open>parse_system_endpoint\<close>, \<open>split_system_endpoint\<close>),
  \<open>src/nodrix/system/_base.py\<close> (\<open>NamedSystemModel.validate_name\<close>) and
  \<open>src/nodrix/system/contracts.py\<close> (the binding and parameter contracts).
  \<open>render_endpoint\<close> and \<open>render_target\<close> print the canonical forms the docstrings give;
  the code has no printer of its own.
\<close>

section \<open>Names\<close>

definition validate_name :: "string \<Rightarrow> string result" where
  "validate_name value =
     (let s = strip value in
      if value = [] then Inl (ValueErr ''String should have at least 1 character'')
      else if s = [] then Inl (ValueErr ''name must be non-empty'')
      else if CHR ''.'' \<in> set s \<or> CHR ''/'' \<in> set s
      then Inl (ValueErr (''name cannot contain '' @ repr_str ''.'' @ '' or '' @ repr_str ''/''))
      else Inr s)"

section \<open>Endpoints\<close>

definition split_local_endpoint :: "string \<Rightarrow> (string \<times> string) result" where
  "split_local_endpoint value =
     (case partition_on (CHR ''.'') value of (node, sep, port) \<Rightarrow>
        if \<not> sep \<or> node = [] \<or> port = []
        then Inl (ValueErr (''endpoint must use node.port syntax: '' @ repr_str value))
        else if CHR ''/'' \<in> set node
        then Inl (ValueErr (''local Graph endpoint cannot contain '' @ repr_str ''/'' @ '': '' @ repr_str value))
        else Inr (node, port))"

datatype system_endpoint_kind = APPLICATION | GRAPH | SYSTEM

record system_endpoint =
  ep_kind :: system_endpoint_kind
  ep_instance :: string
  ep_port :: string
  ep_scope :: "string option"

definition system_prefix :: string where
  "system_prefix = ''system:''"

definition parse_system_endpoint :: "string \<Rightarrow> system_endpoint result" where
  "parse_system_endpoint value =
     (let normalized = strip value in
      if starts_with system_prefix normalized
      then ebind (split_local_endpoint (drop (length system_prefix) normalized)) (\<lambda>(inst, port).
             Inr \<lparr>ep_kind = SYSTEM, ep_instance = inst, ep_port = port, ep_scope = None\<rparr>)
      else case partition_on (CHR ''/'') normalized of (scope, slash, local) \<Rightarrow>
        if slash
        then ebind (split_local_endpoint local) (\<lambda>(node, port).
               if scope = []
               then Inl (ValueErr (''system endpoint has an empty Graph name: '' @ repr_str value))
               else Inr \<lparr>ep_kind = GRAPH, ep_instance = node, ep_port = port, ep_scope = Some scope\<rparr>)
        else ebind (split_local_endpoint normalized) (\<lambda>(inst, port).
               Inr \<lparr>ep_kind = APPLICATION, ep_instance = inst, ep_port = port, ep_scope = None\<rparr>))"

definition split_system_endpoint :: "string \<Rightarrow> (string option \<times> string \<times> string) result" where
  "split_system_endpoint value =
     ebind (parse_system_endpoint value) (\<lambda>e.
       case ep_kind e of
         APPLICATION \<Rightarrow> Inr (None, ep_instance e, ep_port e)
       | SYSTEM \<Rightarrow> Inr (Some ''system'', ep_instance e, ep_port e)
       | GRAPH \<Rightarrow> Inr (ep_scope e, ep_instance e, ep_port e))"

definition render_endpoint :: "system_endpoint \<Rightarrow> string" where
  "render_endpoint e = (case ep_kind e of
     APPLICATION \<Rightarrow> ep_instance e @ ''.'' @ ep_port e
   | SYSTEM \<Rightarrow> system_prefix @ ep_instance e @ ''.'' @ ep_port e
   | GRAPH \<Rightarrow> (case ep_scope e of None \<Rightarrow> [] | Some g \<Rightarrow> g @ ''/'') @ ep_instance e @ ''.'' @ ep_port e)"

definition wf_endpoint :: "system_endpoint \<Rightarrow> bool" where
  "wf_endpoint e =
     (ep_instance e \<noteq> [] \<and> ep_port e \<noteq> [] \<and>
      CHR ''.'' \<notin> set (ep_instance e) \<and> CHR ''/'' \<notin> set (ep_instance e) \<and>
      strip (render_endpoint e) = render_endpoint e \<and>
      (case ep_kind e of
         SYSTEM \<Rightarrow> ep_scope e = None
       | APPLICATION \<Rightarrow> ep_scope e = None \<and> CHR ''/'' \<notin> set (ep_port e) \<and>
                        \<not> starts_with system_prefix (render_endpoint e)
       | GRAPH \<Rightarrow> (\<exists>g. ep_scope e = Some g \<and> g \<noteq> [] \<and> CHR ''/'' \<notin> set g) \<and>
                  \<not> starts_with system_prefix (render_endpoint e)))"

lemma split_local_endpoint_Inr:
  "split_local_endpoint v = Inr (n, p) \<longleftrightarrow>
     v = n @ ''.'' @ p \<and> n \<noteq> [] \<and> p \<noteq> [] \<and> CHR ''.'' \<notin> set n \<and> CHR ''/'' \<notin> set n"
proof
  assume *: "split_local_endpoint v = Inr (n, p)"
  then have "partition_on (CHR ''.'') v = (n, True, p)"
    by (cases "partition_on (CHR ''.'') v") (auto simp: split_local_endpoint_def split: if_splits)
  from partition_on_found [OF this] * show "v = n @ ''.'' @ p \<and> n \<noteq> [] \<and> p \<noteq> [] \<and> CHR ''.'' \<notin> set n \<and> CHR ''/'' \<notin> set n"
    by (auto simp: split_local_endpoint_def partition_on_append split: if_splits)
next
  assume "v = n @ ''.'' @ p \<and> n \<noteq> [] \<and> p \<noteq> [] \<and> CHR ''.'' \<notin> set n \<and> CHR ''/'' \<notin> set n"
  then show "split_local_endpoint v = Inr (n, p)"
    by (simp add: split_local_endpoint_def partition_on_append)
qed

lemma partition_on_not_found: "partition_on d s = (a, False, b) \<Longrightarrow> d \<notin> set s"
  by (auto simp: partition_on_def)

lemma partition_on_absent: "d \<notin> set s \<Longrightarrow> partition_on d s = (s, False, [])"
proof -
  assume d: "d \<notin> set s"
  then have "takeWhile (\<lambda>c. c \<noteq> d) s = s" "dropWhile (\<lambda>c. c \<noteq> d) s = []"
    by (simp_all add: takeWhile_eq_all_conv dropWhile_eq_Nil_conv) (use d in blast)+
  then show ?thesis unfolding partition_on_def using d by (simp only: list.sel simp_thms)
qed

lemma wf_endpointI:
  assumes "render_endpoint e = strip v"
    and "ep_instance e \<noteq> []" "ep_port e \<noteq> []"
    and "CHR ''.'' \<notin> set (ep_instance e)" "CHR ''/'' \<notin> set (ep_instance e)"
    and "case ep_kind e of
         SYSTEM \<Rightarrow> ep_scope e = None
       | APPLICATION \<Rightarrow> ep_scope e = None \<and> CHR ''/'' \<notin> set (ep_port e) \<and>
                        \<not> starts_with system_prefix (strip v)
       | GRAPH \<Rightarrow> (\<exists>g. ep_scope e = Some g \<and> g \<noteq> [] \<and> CHR ''/'' \<notin> set g) \<and>
                  \<not> starts_with system_prefix (strip v)"
  shows "render_endpoint e = strip v \<and> wf_endpoint e"
  using assms by (cases "ep_kind e") (simp_all add: wf_endpoint_def)

lemma parse_system_endpoint_render_strip:
  assumes "parse_system_endpoint v = Inr e"
  shows "render_endpoint e = strip v \<and> wf_endpoint e"
proof (cases "starts_with system_prefix (strip v)")
  case True
  then obtain t where t: "strip v = system_prefix @ t" by (rule starts_withE)
  from assms True obtain n p where "split_local_endpoint t = Inr (n, p)"
    and e: "e = \<lparr>ep_kind = SYSTEM, ep_instance = n, ep_port = p, ep_scope = None\<rparr>"
    by (auto simp: parse_system_endpoint_def result_elims t)
  from split_local_endpoint_Inr [THEN iffD1, OF this(1)]
  have "t = n @ ''.'' @ p \<and> n \<noteq> [] \<and> p \<noteq> [] \<and> CHR ''.'' \<notin> set n \<and> CHR ''/'' \<notin> set n" .
  then show ?thesis by (intro wf_endpointI) (simp_all add: e render_endpoint_def t)
next
  case False
  obtain scope slash local where part: "partition_on (CHR ''/'') (strip v) = (scope, slash, local)"
    by (metis prod_cases3)
  show ?thesis
  proof (cases slash)
    case True
    with part have split: "strip v = scope @ CHR ''/'' # local" "CHR ''/'' \<notin> set scope"
      by (simp_all add: partition_on_foundD [OF part])
    from assms False part True obtain n p where "split_local_endpoint local = Inr (n, p)" and scope: "scope \<noteq> []"
      and e: "e = \<lparr>ep_kind = GRAPH, ep_instance = n, ep_port = p, ep_scope = Some scope\<rparr>"
      by (auto simp: parse_system_endpoint_def result_elims Let_def split: if_splits)
    from split_local_endpoint_Inr [THEN iffD1, OF this(1)]
    have "local = n @ ''.'' @ p \<and> n \<noteq> [] \<and> p \<noteq> [] \<and> CHR ''.'' \<notin> set n \<and> CHR ''/'' \<notin> set n" .
    then show ?thesis
      using False scope split(2)
      by (intro wf_endpointI) (simp_all add: e render_endpoint_def split(1))
  next
    case no_slash: False
    with part have slash: "CHR ''/'' \<notin> set (strip v)" using partition_on_not_found by metis
    from assms False part no_slash obtain n p where sp: "split_local_endpoint (strip v) = Inr (n, p)"
      and e: "e = \<lparr>ep_kind = APPLICATION, ep_instance = n, ep_port = p, ep_scope = None\<rparr>"
      by (auto simp: parse_system_endpoint_def result_elims Let_def)
    from split_local_endpoint_Inr [THEN iffD1, OF sp] have eq: "strip v = n @ ''.'' @ p"
      and n: "n \<noteq> [] \<and> p \<noteq> [] \<and> CHR ''.'' \<notin> set n \<and> CHR ''/'' \<notin> set n" by blast+
    then have "CHR ''/'' \<notin> set p" using slash by simp
    then show ?thesis
      using False n by (intro wf_endpointI) (simp_all add: e render_endpoint_def eq)
  qed
qed

lemma parse_render_endpoint:
  assumes wf: "wf_endpoint e"
  shows "parse_system_endpoint (render_endpoint e) = Inr e"
proof -
  have strip: "strip (render_endpoint e) = render_endpoint e" using wf by (simp add: wf_endpoint_def)
  have split: "split_local_endpoint (ep_instance e @ ''.'' @ ep_port e) = Inr (ep_instance e, ep_port e)"
    using wf by (simp add: split_local_endpoint_Inr wf_endpoint_def)
  show ?thesis
  proof (cases "ep_kind e")
    case SYSTEM
    then show ?thesis using wf strip split
      by (simp add: parse_system_endpoint_def render_endpoint_def wf_endpoint_def)
  next
    case APPLICATION
    then have "CHR ''/'' \<notin> set (render_endpoint e)"
      using wf by (auto simp: render_endpoint_def wf_endpoint_def)
    then show ?thesis using wf strip split APPLICATION
      by (simp add: parse_system_endpoint_def partition_on_absent Let_def)
         (simp add: render_endpoint_def wf_endpoint_def)
  next
    case GRAPH
    then obtain g where g: "ep_scope e = Some g" "g \<noteq> []" "CHR ''/'' \<notin> set g"
      using wf by (auto simp: wf_endpoint_def)
    then have "render_endpoint e = g @ CHR ''/'' # (ep_instance e @ ''.'' @ ep_port e)"
      by (simp add: render_endpoint_def GRAPH)
    moreover have "\<not> starts_with system_prefix (render_endpoint e)"
      using wf GRAPH by (simp add: wf_endpoint_def)
    ultimately show ?thesis using strip split g GRAPH
      by (simp add: parse_system_endpoint_def partition_on_append Let_def)
  qed
qed

interpretation endpoint: canonical_text wf_endpoint render_endpoint parse_system_endpoint
  by unfold_locales (auto simp: parse_render_endpoint dest: parse_system_endpoint_render_strip)

section \<open>Parameter targets\<close>

datatype parameter_target_kind = PT_APPLICATION | PT_RESOURCE | PT_NODE | PT_SYSTEM

definition target_kind_value :: "parameter_target_kind \<Rightarrow> string" where
  "target_kind_value k = (case k of PT_APPLICATION \<Rightarrow> ''application'' | PT_RESOURCE \<Rightarrow> ''resource''
     | PT_NODE \<Rightarrow> ''node'' | PT_SYSTEM \<Rightarrow> ''system'')"

record parameter_target =
  pt_kind :: parameter_target_kind
  pt_instance :: string
  pt_parameter :: string
  pt_scope :: "string option"

definition target_prefix_error :: py_error where
  "target_prefix_error =
     ValueErr (''parameter target must start with application:, resource:, system:, '' @ ''or node:'')"

definition node_target_error :: py_error where
  "node_target_error = ValueErr ''node parameter target must use node:graph/name.parameter''"

definition parse_system_parameter_target :: "string \<Rightarrow> parameter_target result" where
  "parse_system_parameter_target value =
     (case partition_on (CHR '':'') (strip value) of (prefix, sep, local) \<Rightarrow>
        if \<not> sep then Inl target_prefix_error
        else if prefix = target_kind_value PT_NODE
        then (case partition_on (CHR ''/'') local of (graph, slash, node_parameter) \<Rightarrow>
                if \<not> slash \<or> graph = [] then Inl node_target_error
                else case partition_on (CHR ''.'') node_parameter of (inst, _, parameter) \<Rightarrow>
                  if inst = [] \<or> parameter = [] then Inl node_target_error
                  else Inr \<lparr>pt_kind = PT_NODE, pt_instance = inst, pt_parameter = parameter,
                            pt_scope = Some graph\<rparr>)
        else (case List.find (\<lambda>k. target_kind_value k = prefix) [PT_APPLICATION, PT_RESOURCE, PT_SYSTEM] of
                None \<Rightarrow> Inl target_prefix_error
              | Some kind \<Rightarrow>
                  (case partition_on (CHR ''.'') local of (inst, dot, parameter) \<Rightarrow>
                     if \<not> dot \<or> inst = [] \<or> parameter = []
                     then Inl (ValueErr ''parameter target must use kind:name.parameter syntax'')
                     else Inr \<lparr>pt_kind = kind, pt_instance = inst, pt_parameter = parameter,
                               pt_scope = None\<rparr>)))"

definition render_target :: "parameter_target \<Rightarrow> string" where
  "render_target t = target_kind_value (pt_kind t) @ '':'' @
     (case pt_scope t of None \<Rightarrow> [] | Some g \<Rightarrow> g @ ''/'') @ pt_instance t @ ''.'' @ pt_parameter t"

definition wf_target :: "parameter_target \<Rightarrow> bool" where
  "wf_target t =
     (pt_instance t \<noteq> [] \<and> pt_parameter t \<noteq> [] \<and> CHR ''.'' \<notin> set (pt_instance t) \<and>
      strip (render_target t) = render_target t \<and>
      (case pt_scope t of
         None \<Rightarrow> pt_kind t \<noteq> PT_NODE
       | Some g \<Rightarrow> pt_kind t = PT_NODE \<and> g \<noteq> [] \<and> CHR ''/'' \<notin> set g))"

lemma target_kind_value_no_colon [simp]: "CHR '':'' \<notin> set (target_kind_value k)"
  by (cases k) (simp_all add: target_kind_value_def)

lemma find_target_kind:
  "k \<noteq> PT_NODE \<Longrightarrow>
     List.find (\<lambda>j. target_kind_value j = target_kind_value k) [PT_APPLICATION, PT_RESOURCE, PT_SYSTEM] = Some k"
  by (cases k) (simp_all add: target_kind_value_def)

lemma find_target_kind_Some:
  "List.find (\<lambda>j. target_kind_value j = p) [PT_APPLICATION, PT_RESOURCE, PT_SYSTEM] = Some k \<Longrightarrow>
     p = target_kind_value k \<and> k \<noteq> PT_NODE"
  by (auto split: if_splits)

lemma target_kind_value_node [simp]: "target_kind_value k = target_kind_value PT_NODE \<longleftrightarrow> k = PT_NODE"
  by (cases k) (simp_all add: target_kind_value_def)

lemma parse_render_target:
  assumes wf: "wf_target t"
  shows "parse_system_parameter_target (render_target t) = Inr t"
proof -
  have strip: "strip (render_target t) = render_target t" using wf by (simp add: wf_target_def)
  have dot: "partition_on (CHR ''.'') (pt_instance t @ CHR ''.'' # pt_parameter t)
             = (pt_instance t, True, pt_parameter t)"
    using wf by (intro partition_on_append) (simp add: wf_target_def)
  show ?thesis
  proof (cases "pt_scope t")
    case None
    then have "render_target t = target_kind_value (pt_kind t) @ CHR '':'' # (pt_instance t @ CHR ''.'' # pt_parameter t)"
      by (simp add: render_target_def)
    then show ?thesis using None wf strip dot
      by (simp add: parse_system_parameter_target_def partition_on_append find_target_kind
                    wf_target_def del: find.simps)
  next
    case (Some g)
    then have "render_target t = target_kind_value PT_NODE @ CHR '':'' # (g @ CHR ''/'' # (pt_instance t @ CHR ''.'' # pt_parameter t))"
      using wf by (simp add: render_target_def wf_target_def)
    then show ?thesis using Some wf strip dot
      by (simp add: parse_system_parameter_target_def partition_on_append wf_target_def)
  qed
qed

lemma wf_targetI:
  assumes "render_target t = strip v"
    and "pt_instance t \<noteq> []" "pt_parameter t \<noteq> []" "CHR ''.'' \<notin> set (pt_instance t)"
    and "case pt_scope t of
         None \<Rightarrow> pt_kind t \<noteq> PT_NODE
       | Some g \<Rightarrow> pt_kind t = PT_NODE \<and> g \<noteq> [] \<and> CHR ''/'' \<notin> set g"
  shows "render_target t = strip v \<and> wf_target t"
  using assms by (simp add: wf_target_def)

lemma parse_system_parameter_target_wf:
  assumes "parse_system_parameter_target v = Inr t"
  shows "render_target t = strip v \<and> wf_target t"
proof -
  obtain prefix sep local where p: "partition_on (CHR '':'') (strip v) = (prefix, sep, local)"
    by (metis prod_cases3)
  have sep
  proof (rule ccontr)
    assume "\<not> sep"
    then show False using assms unfolding parse_system_parameter_target_def p by simp
  qed
  with p have v: "strip v = prefix @ CHR '':'' # local" by (rule partition_on_foundD)
  show ?thesis
  proof (cases "prefix = target_kind_value PT_NODE")
    case True
    obtain graph slash np where g: "partition_on (CHR ''/'') local = (graph, slash, np)" by (metis prod_cases3)
    obtain inst d par where i: "partition_on (CHR ''.'') np = (inst, d, par)" by (metis prod_cases3)
    from assms p \<open>sep\<close> True g i have ok: slash "graph \<noteq> []" "inst \<noteq> []" "par \<noteq> []"
      and t: "t = \<lparr>pt_kind = PT_NODE, pt_instance = inst, pt_parameter = par, pt_scope = Some graph\<rparr>"
      by (auto simp: parse_system_parameter_target_def split: if_splits)
    have d: d
    proof (rule ccontr)
      assume "\<not> d"
      with i have "CHR ''.'' \<notin> set np" by (auto dest: partition_on_not_found)
      from partition_on_absent [OF this] i ok(4) show False by simp
    qed
    then have "local = graph @ CHR ''/'' # np" "CHR ''/'' \<notin> set graph"
      and "np = inst @ CHR ''.'' # par" "CHR ''.'' \<notin> set inst"
      using partition_on_foundD [OF g ok(1)] partition_on_foundD [OF i d] by blast+
    then show ?thesis using ok(2-4)
      by (intro wf_targetI) (simp_all add: t render_target_def v True)
  next
    case False
    obtain inst d par where i: "partition_on (CHR ''.'') local = (inst, d, par)" by (metis prod_cases3)
    from assms p \<open>sep\<close> False i obtain k
      where k: "List.find (\<lambda>j. target_kind_value j = prefix) [PT_APPLICATION, PT_RESOURCE, PT_SYSTEM] = Some k"
        and ok: d "inst \<noteq> []" "par \<noteq> []"
        and t: "t = \<lparr>pt_kind = k, pt_instance = inst, pt_parameter = par, pt_scope = None\<rparr>"
      by (auto simp: parse_system_parameter_target_def split: if_splits option.splits simp del: find.simps)
    from find_target_kind_Some [OF k] have "prefix = target_kind_value k" "k \<noteq> PT_NODE" by auto
    moreover have "local = inst @ CHR ''.'' # par" "CHR ''.'' \<notin> set inst"
      using partition_on_foundD [OF i ok(1)] by blast+
    ultimately show ?thesis using ok(2,3)
      by (intro wf_targetI) (simp_all add: t render_target_def v)
  qed
qed

interpretation target: canonical_text wf_target render_target parse_system_parameter_target
  by unfold_locales (auto simp: parse_render_target dest: parse_system_parameter_target_wf)

section \<open>Parameter contracts\<close>

datatype parameter_type = T_ANY | T_STRING | T_INTEGER | T_NUMBER | T_BOOLEAN | T_OBJECT | T_ARRAY

record system_parameter =
  sp_name :: string
  sp_value_type :: parameter_type
  sp_required :: bool
  sp_nullable :: bool
  sp_default :: "pyval option"
  sp_description :: "string option"
  sp_metadata :: mapping
  sp_extensions :: mapping

text \<open>
  \<open>has_default\<close> is whether the field was set: \<open>sp_default = Some v\<close>. Integers whose
  conversion to a float overflows make \<open>math.isfinite\<close> raise \<open>OverflowError\<close>.
\<close>

definition has_default :: "system_parameter \<Rightarrow> bool" where
  "has_default p = (sp_default p \<noteq> None)"

definition float_overflow :: "int \<Rightarrow> bool" where
  "float_overflow i = (2 ^ 1024 - 2 ^ 970 \<le> \<bar>i\<bar>)"

definition accepts :: "system_parameter \<Rightarrow> pyval \<Rightarrow> bool result" where
  "accepts p value =
     (if value = PNone then Inr (sp_nullable p)
      else case sp_value_type p of
        T_ANY \<Rightarrow> Inr True
      | T_STRING \<Rightarrow> Inr (case value of PStr _ \<Rightarrow> True | _ \<Rightarrow> False)
      | T_INTEGER \<Rightarrow> Inr (case value of PInt _ \<Rightarrow> True | _ \<Rightarrow> False)
      | T_NUMBER \<Rightarrow> (case value of
            PInt i \<Rightarrow> if float_overflow i then Inl (NamedErr ''OverflowError'' ''int too large to convert to float'')
                      else Inr True
          | PFloat (Finite q) \<Rightarrow> Inr True
          | _ \<Rightarrow> Inr False)
      | T_BOOLEAN \<Rightarrow> Inr (case value of PBool _ \<Rightarrow> True | _ \<Rightarrow> False)
      | T_OBJECT \<Rightarrow> Inr (case value of PDict _ \<Rightarrow> True | _ \<Rightarrow> False)
      | T_ARRAY \<Rightarrow> Inr (case value of PList _ \<Rightarrow> True | _ \<Rightarrow> False))"

definition type_value :: "parameter_type \<Rightarrow> string" where
  "type_value t = (case t of T_ANY \<Rightarrow> ''any'' | T_STRING \<Rightarrow> ''string'' | T_INTEGER \<Rightarrow> ''integer''
     | T_NUMBER \<Rightarrow> ''number'' | T_BOOLEAN \<Rightarrow> ''boolean'' | T_OBJECT \<Rightarrow> ''object'' | T_ARRAY \<Rightarrow> ''array'')"

definition validate_default :: "system_parameter \<Rightarrow> system_parameter result" where
  "validate_default p = (case sp_default p of
     None \<Rightarrow> Inr p
   | Some d \<Rightarrow> ebind (accepts p d) (\<lambda>ok.
       if ok then Inr p
       else Inl (ValueErr (''default does not match parameter type '' @ repr_str (type_value (sp_value_type p))))))"

definition validate_targets :: "string list \<Rightarrow> string list result" where
  "validate_targets values =
     (if values = [] then Inl (ValueErr ''Tuple should have at least 1 item after validation, not 0'')
      else let normalized = map strip values in
        ebind (emap parse_system_parameter_target normalized) (\<lambda>_.
          if length (remdups normalized) \<noteq> length normalized
          then Inl (ValueErr ''parameter binding targets must be unique'')
          else Inr normalized))"

lemma validate_targets_distinct:
  assumes "validate_targets vs = Inr ts"
  shows "distinct ts \<and> (\<exists>ps. map parse_system_parameter_target ts = map Inr ps \<and> distinct ps)"
proof -
  from assms obtain ps where ts: "ts = map strip vs" and dist: "distinct ts"
    and "emap parse_system_parameter_target ts = Inr ps"
    by (auto simp: validate_targets_def result_elims Let_def split: if_splits)
  then have all: "list_all2 (\<lambda>t p. parse_system_parameter_target t = Inr p) ts ps"
    by (simp add: emap_Inr_list_all2)
  then have eq: "map parse_system_parameter_target ts = map Inr ps"
    by (induction rule: list_all2_induct) auto
  have render: "map render_target ps = ts"
    using all ts by (auto simp: list_all2_conv_all_nth list_eq_iff_nth_eq
                             dest!: parse_system_parameter_target_wf)
  then have "distinct ps" using dist by (metis distinct_map)
  with dist eq show ?thesis by blast
qed

section \<open>Properties\<close>

text \<open>
  Endpoint references: a well-formed endpoint is read back from its printed form, and
  whatever text parses, its endpoint prints as that text without the surrounding blanks.
\<close>

theorem endpoint_roundtrip:
  "(wf_endpoint e \<longrightarrow> parse_system_endpoint (render_endpoint e) = Inr e) \<and>
   (parse_system_endpoint v = Inr e \<longrightarrow> wf_endpoint e \<and> render_endpoint e = strip v)"
  using endpoint.parse_render parse_system_endpoint_render_strip by blast

theorem endpoint_roundtrip_witness:
  "render_endpoint \<lparr>ep_kind = GRAPH, ep_instance = ''n'', ep_port = ''p'', ep_scope = Some ''g''\<rparr> = strip '' g/n.p ''"
proof -
  have "parse_system_endpoint '' g/n.p '' =
      Inr \<lparr>ep_kind = GRAPH, ep_instance = ''n'', ep_port = ''p'', ep_scope = Some ''g''\<rparr>"
    by code_simp
  with endpoint_roundtrip show ?thesis by blast
qed

text \<open>
  The targets of a parameter binding that \<open>validate_targets\<close> accepts are distinct, each
  parses, and they denote distinct parameters.
\<close>

theorem binding_targets_distinct:
  assumes "validate_targets values = Inr ts"
  shows "distinct ts \<and> (\<exists>ps. map parse_system_parameter_target ts = map Inr ps \<and> distinct ps)"
  using assms by (rule validate_targets_distinct)

theorem binding_targets_distinct_witness:
  "distinct [''node:g/n.p'', ''resource:r.q''] \<and>
   (\<exists>ps. map parse_system_parameter_target [''node:g/n.p'', ''resource:r.q''] = map Inr ps \<and> distinct ps)"
proof (rule binding_targets_distinct)
  show "validate_targets ['' node:g/n.p'', ''resource:r.q''] = Inr [''node:g/n.p'', ''resource:r.q'']"
    by code_simp
qed

end
