(* ===== verification/Connection_Policy.thy ===== *)
theory Connection_Policy
  imports Prelude "HOL-Library.Char_ord" "HOL-Library.List_Lexorder"
begin

text \<open>
  The execution policy of a planned Connection: \<open>src/nodrix/system/connection_execution.py\<close>.
  \<open>resolve_connection_execution_defaults\<close> turns the free-form \<open>edge_defaults\<close> of an execution
  context into a bounded queue and an edge-memory policy. The error text quotes unknown keys;
  \<open>show\<close> is \<open>str\<close> of a key.
\<close>

record connection_policy =
  cp_capacity :: int
  cp_policy :: string
  cp_domain :: string
  cp_allow_copy :: bool

definition queue_policies :: "string list" where
  "queue_policies = [''block'', ''latest'', ''drop_oldest'', ''drop_newest'']"

definition connection_error :: "string \<Rightarrow> string \<Rightarrow> py_error" where
  "connection_error path msg = CodedErr ''ConnectionExecutionResolutionError'' path [] msg"

section \<open>The two policies\<close>

text \<open>\<open>hash(value)\<close> succeeds: what membership in a frozenset needs.\<close>

fun hashable :: "pyval \<Rightarrow> bool" where
  "hashable (PList xs) = False"
| "hashable (PDict d) = False"
| "hashable (PTuple xs) = list_all hashable xs"
| "hashable v = True"

definition mk_queue_policy :: "pyval \<Rightarrow> pyval \<Rightarrow> (int \<times> string) result" where
  "mk_queue_policy capacity policy =
     (case capacity of
        PInt n \<Rightarrow>
          if n < 1 then Inl (ValueErr ''capacity must be a positive integer'')
          else if \<not> hashable policy
          then Inl (TypeErr (''unhashable type: '' @ repr_str (type_name policy)))
          else (case policy of
            PStr p \<Rightarrow> if p \<in> set queue_policies then Inr (n, p)
                      else Inl (ValueErr (''policy must be one of: '' @ join_on '', '' (sort queue_policies)))
          | _ \<Rightarrow> Inl (ValueErr (''policy must be one of: '' @ join_on '', '' (sort queue_policies))))
      | _ \<Rightarrow> Inl (ValueErr ''capacity must be a positive integer''))"

definition mk_memory_policy :: "pyval \<Rightarrow> pyval \<Rightarrow> (string \<times> bool) result" where
  "mk_memory_policy domain allow_copy =
     (case domain of
        PStr d \<Rightarrow>
          if strip d = [] then Inl (ValueErr ''domain must be a non-empty string'')
          else (case allow_copy of
            PBool b \<Rightarrow> Inr (d, b)
          | _ \<Rightarrow> Inl (ValueErr ''allow_copy must be a boolean''))
      | _ \<Rightarrow> Inl (ValueErr ''domain must be a non-empty string''))"

section \<open>Resolution\<close>

type_synonym pydict = "(pyval \<times> pyval) list"

definition policy_mapping :: "string \<Rightarrow> pyval \<Rightarrow> pydict result" where
  "policy_mapping path value =
     (case value of PDict d \<Rightarrow> Inr d | _ \<Rightarrow> Inl (connection_error path ''must be a mapping''))"

definition reject_unknown :: "(pyval \<Rightarrow> string) \<Rightarrow> pydict \<Rightarrow> string list \<Rightarrow> string \<Rightarrow> unit result" where
  "reject_unknown show value allowed path =
     (let unknown = sort (map show (filter (\<lambda>k. k \<notin> set (map PStr allowed)) (map fst value))) in
      if unknown \<noteq> []
      then Inl (connection_error path (''unsupported fields: '' @ join_on '', '' unknown))
      else Inr ())"

definition field_or :: "pydict \<Rightarrow> string \<Rightarrow> pyval \<Rightarrow> pyval" where
  "field_or d k v = (case map_of d (PStr k) of None \<Rightarrow> v | Some x \<Rightarrow> x)"

text \<open>\<open>except ValueError as exc: raise ConnectionExecutionResolutionError\<close>; a \<open>TypeError\<close> passes.\<close>

definition wrap_value_error :: "string \<Rightarrow> 'a result \<Rightarrow> 'a result" where
  "wrap_value_error path r = (case r of Inl (ValueErr m) \<Rightarrow> Inl (connection_error path m) | _ \<Rightarrow> r)"

definition resolve_queue :: "(pyval \<Rightarrow> string) \<Rightarrow> pyval \<Rightarrow> (int \<times> string) result" where
  "resolve_queue show raw =
     (let path = ''edge_defaults.queue'' in
      ebind (policy_mapping path raw) (\<lambda>value.
      ebind (reject_unknown show value [''capacity'', ''policy''] path) (\<lambda>_.
      wrap_value_error path
        (mk_queue_policy (field_or value ''capacity'' (PInt 8)) (field_or value ''policy'' (PStr ''block''))))))"

definition resolve_memory :: "(pyval \<Rightarrow> string) \<Rightarrow> pyval \<Rightarrow> (string \<times> bool) result" where
  "resolve_memory show raw =
     (let path = ''edge_defaults.memory'' in
      ebind (policy_mapping path raw) (\<lambda>value.
      ebind (reject_unknown show value [''domain'', ''allow_copy''] path) (\<lambda>_.
      wrap_value_error path
        (mk_memory_policy (field_or value ''domain'' (PStr ''auto'')) (field_or value ''allow_copy'' (PBool True))))))"

definition resolve_connection_execution_defaults ::
    "(pyval \<Rightarrow> string) \<Rightarrow> pydict option \<Rightarrow> connection_policy result" where
  "resolve_connection_execution_defaults show defaults =
     (let value = (case defaults of None \<Rightarrow> [] | Some d \<Rightarrow> d) in
      ebind (reject_unknown show value [''queue'', ''memory''] ''edge_defaults'') (\<lambda>_.
      ebind (case map_of value (PStr ''queue'') of None \<Rightarrow> Inr (8, ''block'') | Some q \<Rightarrow> resolve_queue show q) (\<lambda>queue.
      ebind (case map_of value (PStr ''memory'') of None \<Rightarrow> Inr (''auto'', True) | Some m \<Rightarrow> resolve_memory show m) (\<lambda>memory.
      Inr \<lparr>cp_capacity = fst queue, cp_policy = snd queue, cp_domain = fst memory, cp_allow_copy = snd memory\<rparr>))))"

section \<open>What a resolved policy guarantees\<close>

definition wf_policy :: "connection_policy \<Rightarrow> bool" where
  "wf_policy p = (1 \<le> cp_capacity p \<and> cp_policy p \<in> set queue_policies \<and> strip (cp_domain p) \<noteq> [])"

lemma mk_queue_policy_Inr:
  "mk_queue_policy c p = Inr (n, s) \<longleftrightarrow> c = PInt n \<and> 1 \<le> n \<and> p = PStr s \<and> s \<in> set queue_policies"
  by (auto simp: mk_queue_policy_def split: pyval.splits if_splits)

lemma mk_memory_policy_Inr:
  "mk_memory_policy d a = Inr (s, b) \<longleftrightarrow> d = PStr s \<and> strip s \<noteq> [] \<and> a = PBool b"
  by (auto simp: mk_memory_policy_def split: pyval.splits if_splits)

lemma wrap_value_error_Inr [result_elims]: "wrap_value_error path r = Inr x \<longleftrightarrow> r = Inr x"
  by (auto simp: wrap_value_error_def split: sum.splits py_error.splits)

lemma resolve_queue_Inr:
  "resolve_queue show raw = Inr q \<Longrightarrow> 1 \<le> fst q \<and> snd q \<in> set queue_policies"
  by (cases q) (auto simp: resolve_queue_def Let_def result_elims mk_queue_policy_Inr)

lemma resolve_memory_Inr: "resolve_memory show raw = Inr m \<Longrightarrow> strip (fst m) \<noteq> []"
  by (cases m) (auto simp: resolve_memory_def Let_def result_elims mk_memory_policy_Inr)

lemma strip_auto [simp]: "strip ''auto'' = ''auto''"
  by (rule strip_id) (auto simp: is_space_def)

lemma resolve_connection_wf:
  assumes "resolve_connection_execution_defaults show d = Inr p"
  shows "wf_policy p"
proof -
  from assms obtain q m where
    q: "(case map_of (case d of None \<Rightarrow> [] | Some d \<Rightarrow> d) (PStr ''queue'') of
           None \<Rightarrow> Inr (8, ''block'') | Some q \<Rightarrow> resolve_queue show q) = Inr q"
    and m: "(case map_of (case d of None \<Rightarrow> [] | Some d \<Rightarrow> d) (PStr ''memory'') of
           None \<Rightarrow> Inr (''auto'', True) | Some m \<Rightarrow> resolve_memory show m) = Inr m"
    and p: "p = \<lparr>cp_capacity = fst q, cp_policy = snd q, cp_domain = fst m, cp_allow_copy = snd m\<rparr>"
    unfolding resolve_connection_execution_defaults_def Let_def by (auto simp: result_elims)
  have "1 \<le> fst q \<and> snd q \<in> set queue_policies"
    using q resolve_queue_Inr by (auto simp: queue_policies_def split: option.splits)
  moreover have "strip (fst m) \<noteq> []"
    using m resolve_memory_Inr by (auto split: option.splits)
  ultimately show ?thesis by (simp add: p wf_policy_def)
qed

text \<open>
  What the defaults ask for, read off the document: a field of a part, or the canonical setting when the
  defaults, the part or the field are not there; and the shape they must have - two parts at most, each a
  mapping of known fields.
\<close>

definition default_setting :: "pydict option \<Rightarrow> string \<Rightarrow> string \<Rightarrow> pyval \<Rightarrow> pyval" where
  "default_setting defaults part key canonical =
     (case defaults of
        None \<Rightarrow> canonical
      | Some d \<Rightarrow> (case map_of d (PStr part) of
          Some (PDict entries) \<Rightarrow> (case map_of entries (PStr key) of None \<Rightarrow> canonical | Some v \<Rightarrow> v)
        | _ \<Rightarrow> canonical))"

definition known_part :: "pydict \<Rightarrow> string \<Rightarrow> string list \<Rightarrow> bool" where
  "known_part d part keys =
     (case map_of d (PStr part) of
        None \<Rightarrow> True
      | Some (PDict entries) \<Rightarrow> list_all (\<lambda>k. k \<in> PStr ` set keys) (map fst entries)
      | Some _ \<Rightarrow> False)"

definition known_defaults :: "pydict option \<Rightarrow> bool" where
  "known_defaults defaults =
     (case defaults of
        None \<Rightarrow> True
      | Some d \<Rightarrow> list_all (\<lambda>k. k = PStr ''queue'' \<or> k = PStr ''memory'') (map fst d) \<and>
          known_part d ''queue'' [''capacity'', ''policy''] \<and> known_part d ''memory'' [''domain'', ''allow_copy''])"

lemma reject_unknown_Inr: "reject_unknown show d keys path = Inr u \<longleftrightarrow> list_all (\<lambda>k. k \<in> PStr ` set keys) (map fst d)"
proof -
  have "sort xs = [] \<longleftrightarrow> xs = []" for xs :: "string list" by (metis set_empty set_sort)
  then show ?thesis by (auto simp: reject_unknown_def Let_def list_all_iff filter_empty_conv)
qed

lemma queue_part_Inr:
  "(case map_of d (PStr ''queue'') of None \<Rightarrow> Inr (8, ''block'') | Some q \<Rightarrow> resolve_queue show q) = Inr (n, s) \<longleftrightarrow>
     known_part d ''queue'' [''capacity'', ''policy''] \<and>
     PInt n = default_setting (Some d) ''queue'' ''capacity'' (PInt 8) \<and> 1 \<le> n \<and>
     PStr s = default_setting (Some d) ''queue'' ''policy'' (PStr ''block'') \<and> s \<in> set queue_policies"
proof (cases "map_of d (PStr ''queue'')")
  case None
  then show ?thesis by (auto simp: known_part_def default_setting_def queue_policies_def)
next
  case (Some q)
  then show ?thesis
    by (cases q) (auto simp: known_part_def default_setting_def resolve_queue_def policy_mapping_def field_or_def
        Let_def result_elims mk_queue_policy_Inr reject_unknown_Inr split: option.splits)
qed

lemma memory_part_Inr:
  "(case map_of d (PStr ''memory'') of None \<Rightarrow> Inr (''auto'', True) | Some m \<Rightarrow> resolve_memory show m) = Inr (s, b) \<longleftrightarrow>
     known_part d ''memory'' [''domain'', ''allow_copy''] \<and>
     PStr s = default_setting (Some d) ''memory'' ''domain'' (PStr ''auto'') \<and> strip s \<noteq> [] \<and>
     PBool b = default_setting (Some d) ''memory'' ''allow_copy'' (PBool True)"
proof (cases "map_of d (PStr ''memory'')")
  case None
  then show ?thesis by (auto simp: known_part_def default_setting_def)
next
  case (Some q)
  then show ?thesis
    by (cases q) (auto simp: known_part_def default_setting_def resolve_memory_def policy_mapping_def field_or_def
        Let_def result_elims mk_memory_policy_Inr reject_unknown_Inr split: option.splits)
qed

section \<open>Properties\<close>

text \<open>
  C15: Resolving the execution defaults of a Connection gives a policy exactly when the defaults have at
  most the two known parts with known fields and ask for a policy within the bounds: a positive queue
  capacity, one of the four queue policies, a non-blank memory domain and a boolean.  The policy then is
  the one asked for: each of its four fields is the one the defaults set, and the canonical value (8,
  \<open>block\<close>, \<open>auto\<close>, copies allowed) when they do not set it.
\<close>

theorem resolved_policy_bounds:
  "resolve_connection_execution_defaults show defaults = Inr p \<longleftrightarrow>
     known_defaults defaults \<and> wf_policy p \<and>
     PInt (cp_capacity p) = default_setting defaults ''queue'' ''capacity'' (PInt 8) \<and>
     PStr (cp_policy p) = default_setting defaults ''queue'' ''policy'' (PStr ''block'') \<and>
     PStr (cp_domain p) = default_setting defaults ''memory'' ''domain'' (PStr ''auto'') \<and>
     PBool (cp_allow_copy p) = default_setting defaults ''memory'' ''allow_copy'' (PBool True)"
proof (cases defaults)
  case None
  then show ?thesis
    by (cases p) (auto simp: resolve_connection_execution_defaults_def reject_unknown_def known_defaults_def wf_policy_def
        default_setting_def queue_policies_def)
next
  case (Some d)
  have p: "p = \<lparr>cp_capacity = fst q, cp_policy = snd q, cp_domain = fst m, cp_allow_copy = snd m\<rparr> \<longleftrightarrow>
      q = (cp_capacity p, cp_policy p) \<and> m = (cp_domain p, cp_allow_copy p)" for q m by (cases p) auto
  show ?thesis
    by (simp add: Some resolve_connection_execution_defaults_def result_elims reject_unknown_Inr eq_commute [of _ p] p
          queue_part_Inr memory_part_Inr known_defaults_def wf_policy_def image_iff)
       (auto simp: eq_commute)
qed

theorem resolved_policy_bounds_witness:
  "resolve_connection_execution_defaults (\<lambda>_. []) (Some [(PStr ''queue'', PDict [(PStr ''capacity'', PInt 3)])]) =
     Inr \<lparr>cp_capacity = 3, cp_policy = ''block'', cp_domain = ''auto'', cp_allow_copy = True\<rparr>"
  unfolding resolved_policy_bounds
  by (simp add: known_defaults_def known_part_def default_setting_def wf_policy_def queue_policies_def)

text \<open>
  A queue policy that is a list is not reported as an invalid default: the membership test of
  the constructor raises a \<open>TypeError\<close>, which the \<open>except ValueError\<close> of the caller lets pass.
\<close>

lemma unhashable_policy_escapes:
  "resolve_connection_execution_defaults show (Some [(PStr ''queue'', PDict [(PStr ''policy'', PList [])])]) =
     Inl (TypeErr (''unhashable type: '' @ repr_str ''list''))"
  by (simp add: resolve_connection_execution_defaults_def reject_unknown_def resolve_queue_def policy_mapping_def
      field_or_def mk_queue_policy_def wrap_value_error_def)

end
