(* ===== verification/Plan_Model.thy ===== *)
theory Plan_Model
  imports Endpoints Connection_Policy
begin

text \<open>
  The resolved execution plan of \<open>src/nodrix/system/planning.py\<close>, the data every later layer
  reads. A plan contains the plans of its child Systems: \<open>system_plan\<close> is the recursive
  part and \<open>plan_body\<close> the remaining fields of \<open>SystemExecutionPlan\<close>. Free-form mappings
  are association lists in insertion order. The execution policy of a node, an object that
  pydantic builds, is an opaque value.
\<close>

section \<open>Planned objects\<close>

record planned_target =
  tg_name :: string
  tg_kind :: string
  tg_backend :: string
  tg_properties :: mapping
  tg_metadata :: mapping
  tg_implicit :: bool

record planned_port =
  po_ordinal :: nat
  po_name :: string
  po_type_id :: string
  po_optional :: bool
  po_description :: "string option"
  po_metadata :: mapping
  po_extensions :: mapping

record planned_parameter =
  pp_ordinal :: nat
  pp_name :: string
  pp_type :: string
  pp_required :: bool
  pp_nullable :: bool
  pp_default :: pyval
  pp_has_default :: bool
  pp_value :: pyval
  pp_configured :: bool
  pp_description :: "string option"
  pp_metadata :: mapping
  pp_extensions :: mapping

record planned_requirement =
  rq_ordinal :: nat
  rq_name :: string
  rq_uses :: string
  rq_optional :: bool
  rq_description :: "string option"
  rq_metadata :: mapping
  rq_extensions :: mapping

record planned_port_binding =
  pb_ordinal :: nat
  pb_port :: string
  pb_endpoint :: string
  pb_type_id :: string
  pb_endpoint_kind :: system_endpoint_kind
  pb_target :: string
  pb_backend :: string
  pb_metadata :: mapping
  pb_extensions :: mapping

record planned_parameter_binding =
  mb_ordinal :: nat
  mb_parameter :: string
  mb_targets :: "string list"
  mb_value :: pyval
  mb_configured :: bool
  mb_metadata :: mapping
  mb_extensions :: mapping

record planned_resource_binding =
  rb_ordinal :: nat
  rb_resource :: string
  rb_instance :: string
  rb_uses :: string
  rb_target :: string
  rb_backend :: string
  rb_metadata :: mapping
  rb_extensions :: mapping

record planned_boundary =
  bb_inputs :: "planned_port_binding list"
  bb_outputs :: "planned_port_binding list"
  bb_parameters :: "planned_parameter_binding list"
  bb_resources :: "planned_resource_binding list"

record planned_resource =
  rs_ordinal :: nat
  rs_name :: string
  rs_uses :: string
  rs_target :: string
  rs_backend :: string
  rs_parameters :: mapping
  rs_bindings :: strmap
  rs_metadata :: mapping
  rs_extensions :: mapping

record planned_application =
  ap_ordinal :: nat
  ap_name :: string
  ap_uses :: string
  ap_target :: string
  ap_backend :: string
  ap_parameters :: mapping
  ap_resources :: strmap
  ap_metadata :: mapping
  ap_extensions :: mapping

record planned_node =
  nd_ordinal :: nat
  nd_id :: string
  nd_graph :: string
  nd_name :: string
  nd_uses :: string
  nd_target :: string
  nd_backend :: string
  nd_parameters :: mapping
  nd_resources :: strmap
  nd_inputs :: strmap
  nd_outputs :: strmap
  nd_optional_inputs :: "string list"
  nd_execution :: pyval
  nd_metadata :: mapping
  nd_extensions :: mapping

record planned_connection =
  cn_ordinal :: nat
  cn_graph :: string
  cn_source :: string
  cn_target :: string
  cn_type_id :: "string option"
  cn_placement_target :: string
  cn_backend :: string
  cn_execution :: connection_policy
  cn_metadata :: mapping
  cn_extensions :: mapping

record planned_graph =
  gr_name :: string
  gr_nodes :: "planned_node list"
  gr_connections :: "planned_connection list"
  gr_topological_order :: "string list"
  gr_acyclic :: bool
  gr_targets :: "string list"
  gr_backends :: "string list"
  gr_metadata :: mapping
  gr_extensions :: mapping

datatype link_boundary = CROSS_GRAPH | CROSS_TARGET | CROSS_BACKEND | B_APPLICATION | B_SYSTEM

record planned_link =
  ln_ordinal :: nat
  ln_source :: string
  ln_target :: string
  ln_type_id :: "string option"
  ln_source_target :: string
  ln_target_target :: string
  ln_source_backend :: string
  ln_target_backend :: string
  ln_boundary :: link_boundary
  ln_transport_required :: bool
  ln_transport_uses :: "string option"
  ln_parameters :: mapping
  ln_metadata :: mapping
  ln_extensions :: mapping

record planned_artifact =
  af_name :: string
  af_kind :: string
  af_producer :: "string option"
  af_target :: "string option"
  af_backend :: "string option"
  af_path :: "string option"
  af_media_type :: "string option"
  af_metadata :: mapping
  af_extensions :: mapping

record planned_child_binding =
  cb_ordinal :: nat
  cb_requirement :: string
  cb_parent_resource :: string
  cb_child_resource :: string
  cb_uses :: string
  cb_target :: string
  cb_backend :: string
  cb_parameters :: mapping
  cb_bindings :: strmap
  cb_metadata :: mapping
  cb_extensions :: mapping

datatype dependency_condition = STARTED | READY | HEALTHY

definition condition_value :: "dependency_condition \<Rightarrow> string" where
  "condition_value c = (case c of STARTED \<Rightarrow> ''started'' | READY \<Rightarrow> ''ready'' | HEALTHY \<Rightarrow> ''healthy'')"

record planned_dependency =
  dp_ordinal :: nat
  dp_system :: string
  dp_requires :: string
  dp_condition :: dependency_condition
  dp_timeout_seconds :: rat

record planned_startup =
  st_dependencies :: "planned_dependency list"
  st_order :: "string list"
  st_roots :: "string list"

datatype diagnostic_source = PLANNER | SYSTEM_VALIDATION

record planning_diagnostic =
  pd_code :: string
  pd_path :: string
  pd_message :: string
  pd_source :: diagnostic_source

section \<open>The plan\<close>

record plan_body =
  pl_system :: string
  pl_system_sha256 :: string
  pl_execution_context_sha256 :: "string option"
  pl_inputs :: "planned_port list"
  pl_outputs :: "planned_port list"
  pl_parameters :: "planned_parameter list"
  pl_resource_requirements :: "planned_requirement list"
  pl_bindings :: planned_boundary
  pl_system_startup :: "planned_startup option"
  pl_targets :: "planned_target list"
  pl_resources :: "planned_resource list"
  pl_resource_order :: "string list"
  pl_applications :: "planned_application list"
  pl_graphs :: "planned_graph list"
  pl_links :: "planned_link list"
  pl_artifacts :: "planned_artifact list"
  pl_diagnostics :: "planning_diagnostic list"
  pl_policies :: mapping
  pl_metadata :: mapping
  pl_extensions :: mapping
  pl_summary :: "(string \<times> nat) list"

datatype system_plan =
    SystemExecutionPlan (plan_body: plan_body) (plan_systems: "planned_instance list")
and planned_instance =
    PlannedSystemInstance (in_ordinal: nat) (in_name: string) (in_revision: string)
      (in_parameters: mapping) (in_resources: strmap)
      (in_resource_bindings: "planned_child_binding list") (in_plan: system_plan)

definition plan_graph :: "system_plan \<Rightarrow> string \<Rightarrow> planned_graph result" where
  "plan_graph p name = get_named gr_name (pl_graphs (plan_body p)) name"

definition plan_target :: "system_plan \<Rightarrow> string \<Rightarrow> planned_target result" where
  "plan_target p name = get_named tg_name (pl_targets (plan_body p)) name"

definition plan_child :: "system_plan \<Rightarrow> string \<Rightarrow> planned_instance result" where
  "plan_child p name = get_named in_name (plan_systems p) name"

definition plan_input :: "system_plan \<Rightarrow> string \<Rightarrow> planned_port result" where
  "plan_input p name = get_named po_name (pl_inputs (plan_body p)) name"

definition plan_output :: "system_plan \<Rightarrow> string \<Rightarrow> planned_port result" where
  "plan_output p name = get_named po_name (pl_outputs (plan_body p)) name"

definition plan_resource_requirement :: "system_plan \<Rightarrow> string \<Rightarrow> planned_requirement result" where
  "plan_resource_requirement p name = get_named rq_name (pl_resource_requirements (plan_body p)) name"

definition boundary_input :: "planned_boundary \<Rightarrow> string \<Rightarrow> planned_port_binding result" where
  "boundary_input b name = get_named pb_port (bb_inputs b) name"

definition boundary_output :: "planned_boundary \<Rightarrow> string \<Rightarrow> planned_port_binding result" where
  "boundary_output b name = get_named pb_port (bb_outputs b) name"

definition boundary_resource :: "planned_boundary \<Rightarrow> string \<Rightarrow> planned_resource_binding result" where
  "boundary_resource b name = get_named rb_resource (bb_resources b) name"

definition boundary_parameter :: "planned_boundary \<Rightarrow> string \<Rightarrow> planned_parameter_binding result" where
  "boundary_parameter b name = get_named mb_parameter (bb_parameters b) name"

definition graph_node :: "planned_graph \<Rightarrow> string \<Rightarrow> planned_node result" where
  "graph_node g name = get_named nd_name (gr_nodes g) name"

lemma size_in_plan [termination_simp]: "i \<in> set (plan_systems p) \<Longrightarrow> size (in_plan i) < size p"
proof -
  assume i: "i \<in> set (plan_systems p)"
  have "size (in_plan i) < size i" by (cases i) simp
  moreover have "size i \<le> size_list size (plan_systems p)"
    using i by (simp add: size_list_estimation')
  ultimately show ?thesis by (cases p) simp
qed

lemma plan_child_size [termination_simp]: "plan_child p n = Inr i \<Longrightarrow> size (in_plan i) < size p"
  by (auto simp: plan_child_def dest!: get_named_Inr intro: size_in_plan)

section \<open>Sample plans\<close>

text \<open>A plan with no content and a plan with given nodes, for the concrete examples.\<close>

definition blank_body :: "string \<Rightarrow> plan_body" where
  "blank_body name =
     \<lparr>pl_system = name, pl_system_sha256 = ''sha'', pl_execution_context_sha256 = None,
      pl_inputs = [], pl_outputs = [], pl_parameters = [], pl_resource_requirements = [],
      pl_bindings = \<lparr>bb_inputs = [], bb_outputs = [], bb_parameters = [], bb_resources = []\<rparr>,
      pl_system_startup = None, pl_targets = [], pl_resources = [], pl_resource_order = [],
      pl_applications = [], pl_graphs = [], pl_links = [], pl_artifacts = [],
      pl_diagnostics = [], pl_policies = [], pl_metadata = [], pl_extensions = [], pl_summary = []\<rparr>"

definition sample_node :: "string \<Rightarrow> string \<Rightarrow> string \<Rightarrow> planned_node" where
  "sample_node name target backend =
     \<lparr>nd_ordinal = 0, nd_id = name, nd_graph = ''g'', nd_name = name, nd_uses = ''u'',
      nd_target = target, nd_backend = backend, nd_parameters = [], nd_resources = [],
      nd_inputs = [], nd_outputs = [], nd_optional_inputs = [], nd_execution = PNone,
      nd_metadata = [], nd_extensions = []\<rparr>"

definition sample_target :: "string \<Rightarrow> string \<Rightarrow> planned_target" where
  "sample_target name backend =
     \<lparr>tg_name = name, tg_kind = ''local'', tg_backend = backend, tg_properties = [],
      tg_metadata = [], tg_implicit = False\<rparr>"

definition sample_graph :: "planned_node list \<Rightarrow> planned_graph" where
  "sample_graph nodes =
     \<lparr>gr_name = ''g'', gr_nodes = nodes, gr_connections = [], gr_topological_order = map nd_name nodes,
      gr_acyclic = True, gr_targets = [], gr_backends = [],
      gr_metadata = [], gr_extensions = []\<rparr>"

definition sample_link :: "nat \<Rightarrow> string \<Rightarrow> string \<Rightarrow> planned_link" where
  "sample_link i source_backend target_backend =
     \<lparr>ln_ordinal = i, ln_source = ''a.out'', ln_target = ''b.in'', ln_type_id = None,
      ln_source_target = ''t'', ln_target_target = ''t'', ln_source_backend = source_backend,
      ln_target_backend = target_backend, ln_boundary = CROSS_BACKEND,
      ln_transport_required = True, ln_transport_uses = Some ''tcp'',
      ln_parameters = [], ln_metadata = [], ln_extensions = []\<rparr>"

definition sample_plan :: system_plan where
  "sample_plan = SystemExecutionPlan
     ((blank_body ''demo'')\<lparr>pl_targets := [sample_target ''t'' ''b1'', sample_target ''u'' ''b2''],
        pl_graphs := [sample_graph [sample_node ''n1'' ''u'' ''b2'', sample_node ''n2'' ''t'' ''b1'']],
        pl_links := [sample_link 0 ''b1'' ''b2'', sample_link 1 ''b2'' ''b2'', sample_link 2 ''b2'' ''b1'']\<rparr>) []"

lemmas sample_defs = blank_body_def sample_node_def sample_target_def sample_graph_def sample_link_def
  sample_plan_def

end
