(* ===== verification/Execution_Context.thy ===== *)
theory Execution_Context
  imports Plan_Model "HOL-Library.AList"
begin

text \<open>
  \<open>src/nodrix/system/execution_context.py\<close>: the effective execution context of a System, the
  overlays a parent gives its children, and the binding check between a plan and the context
  it was planned with. \<open>dict\<close> updates are \<open>AList.update\<close>: a key that exists keeps its
  place, a new key goes last. The digest (\<open>json.dumps\<close> and \<open>hashlib.sha256\<close>) is the
  parameter \<open>digest\<close>.
\<close>

section \<open>Merging mappings\<close>

text \<open>
  \<open>_deep_merge\<close> copies the base and folds the overlay's items into it; two mappings under one
  key merge recursively, anything else is replaced.
\<close>

fun deep_merge :: "(pyval \<times> pyval) list \<Rightarrow> (pyval \<times> pyval) list \<Rightarrow> (pyval \<times> pyval) list"
and merge_value :: "pyval option \<Rightarrow> pyval \<Rightarrow> pyval" where
  "deep_merge base [] = base"
| "deep_merge base ((k, v) # rest) =
     deep_merge (AList.update k (merge_value (map_of base k) v) base) rest"
| "merge_value (Some (PDict current)) (PDict new) = PDict (deep_merge current new)"
| "merge_value current v = v"

lemma map_of_deep_merge_absent: "k \<notin> fst ` set ov \<Longrightarrow> map_of (deep_merge base ov) k = map_of base k"
  by (induction ov arbitrary: base) (auto simp: update_conv)

lemma map_of_deep_merge:
  "distinct (map fst ov) \<Longrightarrow>
     map_of (deep_merge base ov) k =
       (case map_of ov k of None \<Rightarrow> map_of base k | Some v \<Rightarrow> Some (merge_value (map_of base k) v))"
proof (induction ov arbitrary: base)
  case (Cons kv ov)
  obtain j v where kv: "kv = (j, v)" by (cases kv)
  show ?case
  proof (cases "j = k")
    case True
    with Cons.prems kv have "k \<notin> fst ` set ov" by auto
    with True kv show ?thesis by (simp add: map_of_deep_merge_absent update_conv)
  next
    case False
    with Cons kv show ?thesis by (simp add: update_conv split: option.split)
  qed
qed simp

lemma distinct_deep_merge: "distinct (map fst base) \<Longrightarrow> distinct (map fst (deep_merge base ov))"
  by (induction ov arbitrary: base) (auto simp: distinct_update)

text \<open>Reading through nested mappings along a path of keys.\<close>

fun path_get :: "pyval \<Rightarrow> pyval list \<Rightarrow> pyval option" where
  "path_get v [] = Some v"
| "path_get (PDict d) (k # ks) = (case map_of d k of None \<Rightarrow> None | Some v \<Rightarrow> path_get v ks)"
| "path_get _ (k # ks) = None"

fun wf_dicts :: "pyval \<Rightarrow> bool" where
  "wf_dicts (PDict d) = (distinct (map fst d) \<and> (\<forall>kv \<in> set d. wf_dicts (snd kv)))"
| "wf_dicts _ = True"

definition is_dict :: "pyval \<Rightarrow> bool" where
  "is_dict v = (case v of PDict _ \<Rightarrow> True | _ \<Rightarrow> False)"

lemma path_get_Cons_Some: "path_get v (k # ks) = Some x \<Longrightarrow> \<exists>d. v = PDict d"
  by (cases v) auto

lemma wf_dicts_lookup: "wf_dicts (PDict d) \<Longrightarrow> map_of d k = Some v \<Longrightarrow> wf_dicts v"
  by (auto dest!: map_of_SomeD)

lemma merge_value_not_dict: "\<not> is_dict v \<or> (\<forall>d. c \<noteq> Some (PDict d)) \<Longrightarrow> merge_value c v = v"
  by (cases "(c, v)" rule: merge_value.cases) (auto simp: is_dict_def)

lemma path_get_merge_overlay:
  assumes "wf_dicts (PDict ov)" and "path_get (PDict ov) ks = Some v" and "\<not> is_dict v"
  shows "path_get (PDict (deep_merge base ov)) ks = Some v"
  using assms
proof (induction ks arbitrary: base ov)
  case Nil
  then show ?case by (auto simp: is_dict_def)
next
  case (Cons k ks)
  then obtain w where w: "map_of ov k = Some w" "path_get w ks = Some v"
    by (auto split: option.splits)
  have merged: "map_of (deep_merge base ov) k = Some (merge_value (map_of base k) w)"
    using Cons.prems w by (simp add: map_of_deep_merge)
  show ?case
  proof (cases "\<exists>b d. map_of base k = Some (PDict b) \<and> w = PDict d")
    case True
    then obtain b d where bd: "map_of base k = Some (PDict b)" "w = PDict d" by blast
    have "wf_dicts (PDict d)" using Cons.prems(1) w(1) bd(2) wf_dicts_lookup by blast
    from Cons.IH [OF this _ Cons.prems(3), of b] w(2) bd show ?thesis
      by (simp add: merged)
  next
    case False
    then have "merge_value (map_of base k) w = w"
      by (intro merge_value_not_dict) (auto simp: is_dict_def split: pyval.splits)
    with w(2) show ?thesis by (simp add: merged)
  qed
qed

lemma path_get_merge_base:
  assumes "wf_dicts (PDict ov)" and "path_get (PDict base) ks = Some v"
    and "\<forall>i \<le> length ks. case path_get (PDict ov) (take i ks) of None \<Rightarrow> True | Some w \<Rightarrow> is_dict w \<and> i < length ks"
  shows "path_get (PDict (deep_merge base ov)) ks = Some v"
  using assms
proof (induction ks arbitrary: base ov)
  case Nil
  from Nil.prems(3) [rule_format, of 0] show ?case by simp
next
  case (Cons k ks)
  from Cons.prems(2) obtain b where b: "map_of base k = Some b" "path_get b ks = Some v"
    by (auto split: option.splits)
  show ?case
  proof (cases "map_of ov k")
    case None
    then show ?thesis using Cons.prems(1) b by (simp add: map_of_deep_merge)
  next
    case (Some w)
    have "case path_get (PDict ov) (take 1 (k # ks)) of None \<Rightarrow> True | Some w \<Rightarrow> is_dict w \<and> 1 < length (k # ks)"
      using Cons.prems(3) by (metis One_nat_def Suc_leI length_greater_0_conv list.discI)
    with Some have "is_dict w" "ks \<noteq> []" by (auto simp: )
    then obtain d j js where d: "w = PDict d" and ks: "ks = j # js"
      by (cases ks) (auto simp: is_dict_def split: pyval.splits)
    from b(2) ks obtain bd where bd: "b = PDict bd" using path_get_Cons_Some by blast
    have "path_get (PDict (deep_merge bd d)) ks = Some v"
    proof (rule Cons.IH)
      show "wf_dicts (PDict d)" using Cons.prems(1) Some d wf_dicts_lookup by blast
      show "path_get (PDict bd) ks = Some v" using b(2) bd by simp
      show "\<forall>i \<le> length ks. case path_get (PDict d) (take i ks) of None \<Rightarrow> True
              | Some w \<Rightarrow> is_dict w \<and> i < length ks"
      proof (intro allI impI)
        fix i assume "i \<le> length ks"
        then have "Suc i \<le> length (k # ks)" by simp
        from Cons.prems(3) [rule_format, OF this] Some d
        show "case path_get (PDict d) (take i ks) of None \<Rightarrow> True | Some w \<Rightarrow> is_dict w \<and> i < length ks"
          by (auto split: option.splits)
      qed
    qed
    then show ?thesis using Cons.prems(1) Some b(1) bd d by (simp add: map_of_deep_merge)
  qed
qed

section \<open>Contexts and overlays\<close>

datatype context_override =
  Override (ov_inherit: bool) (ov_variables: strmap) (ov_sources: "string list")
    (ov_runtime: "(pyval \<times> pyval) list") (ov_node_defaults: "(pyval \<times> pyval) list")
    (ov_edge_defaults: "(pyval \<times> pyval) list") (ov_stream_defaults: "(pyval \<times> pyval) list")
    (ov_systems: "(string \<times> context_override) list")

record execution_context =
  cx_variables :: strmap
  cx_sources :: "string list"
  cx_runtime :: "(pyval \<times> pyval) list"
  cx_node_defaults :: "(pyval \<times> pyval) list"
  cx_edge_defaults :: "(pyval \<times> pyval) list"
  cx_stream_defaults :: "(pyval \<times> pyval) list"
  cx_systems :: "(string \<times> context_override) list"

definition empty_context :: execution_context where
  "empty_context = \<lparr>cx_variables = [], cx_sources = [], cx_runtime = [], cx_node_defaults = [],
     cx_edge_defaults = [], cx_stream_defaults = [], cx_systems = []\<rparr>"

text \<open>The validator of both \<open>systems\<close> fields.\<close>

definition validate_system_names :: "(string \<times> context_override) list \<Rightarrow> (string \<times> context_override) list result" where
  "validate_system_names value =
     (if \<exists>name \<in> set (map fst value). strip name = [] \<or> CHR ''.'' \<in> set name \<or> CHR ''/'' \<in> set name
      then Inl (ValueErr (''execution context System name must be non-empty and '' @
             ''cannot contain '' @ repr_str ''.'' @ '' or '' @ repr_str ''/''))
      else Inr value)"

text \<open>\<open>{**a, **b}\<close> and \<open>d.update(b)\<close>.\<close>

definition dict_update :: "('k \<times> 'v) list \<Rightarrow> ('k \<times> 'v) list \<Rightarrow> ('k \<times> 'v) list" where
  "dict_update a b = fold (\<lambda>(k, v). AList.update k v) b a"

lemma map_of_dict_update:
  "distinct (map fst b) \<Longrightarrow> map_of (dict_update a b) = map_of a ++ map_of b"
proof (induction b arbitrary: a)
  case (Cons kv b)
  obtain k v where kv: "kv = (k, v)" by (cases kv)
  have "map_of (dict_update (AList.update k v a) b) = (map_of a)(k \<mapsto> v) ++ map_of b"
    using Cons kv by (simp add: update_conv')
  also have "\<dots> = map_of a ++ map_of (kv # b)"
    using Cons.prems kv by (simp add: map_add_upd_left dom_map_of_conv_image_fst)
  finally show ?case by (simp only: dict_update_def kv fold_simps prod.case comp_apply)
qed (simp add: dict_update_def)

definition apply_override :: "execution_context option \<Rightarrow> context_override \<Rightarrow> execution_context" where
  "apply_override context ov =
     (let base = (case context of
                    Some c \<Rightarrow> if ov_inherit ov then c else empty_context
                  | None \<Rightarrow> empty_context)
      in \<lparr>cx_variables = dict_update (cx_variables base) (ov_variables ov),
          cx_sources = ordered_unique (cx_sources base @ ov_sources ov),
          cx_runtime = deep_merge (cx_runtime base) (ov_runtime ov),
          cx_node_defaults = deep_merge (cx_node_defaults base) (ov_node_defaults ov),
          cx_edge_defaults = deep_merge (cx_edge_defaults base) (ov_edge_defaults ov),
          cx_stream_defaults = deep_merge (cx_stream_defaults base) (ov_stream_defaults ov),
          cx_systems = dict_update (cx_systems base) (ov_systems ov)\<rparr>)"

definition child_context :: "execution_context option \<Rightarrow> string \<Rightarrow> execution_context option result" where
  "child_context context child =
     (case context of
        None \<Rightarrow> Inr None
      | Some c \<Rightarrow>
          let name = strip child in
          if name = [] then Inl (ValueErr ''child must be non-empty'')
          else let inherited = c\<lparr>cx_systems := []\<rparr> in
            case map_of (cx_systems c) name of
              None \<Rightarrow> Inr (Some inherited)
            | Some ov \<Rightarrow> Inr (Some (apply_override (Some inherited) ov)))"

definition validate_context_binding ::
    "(execution_context \<Rightarrow> string) \<Rightarrow> string option \<Rightarrow> execution_context option \<Rightarrow> unit result" where
  "validate_context_binding digest expected context =
     (case expected of
        None \<Rightarrow> (case context of
            Some _ \<Rightarrow> Inl (NamedErr ''SystemExecutionContextBindingError''
               (''Plan does not bind an execution context, '' @ ''but a materialized context was supplied''))
          | None \<Rightarrow> Inr ())
      | Some sha \<Rightarrow> (case context of
            None \<Rightarrow> Inl (NamedErr ''SystemExecutionContextBindingError''
               ''Plan requires a materialized execution context'')
          | Some c \<Rightarrow>
              if digest c \<noteq> sha
              then Inl (NamedErr ''SystemExecutionContextBindingError''
                (''materialized execution context digest does not '' @
                 ''match Plan execution_context_sha256: '' @
                 ''expected='' @ sha @ '', actual='' @ digest c))
              else Inr ()))"

lemma validate_context_binding_Inr [result_elims]:
  "validate_context_binding digest e c = Inr u \<longleftrightarrow> e = map_option digest c"
  by (auto simp: validate_context_binding_def split: option.splits)

lemma dict_update_Nil [simp]: "dict_update [] [] = []"
  by (simp add: dict_update_def)

lemma child_context_systems:
  "child_context (Some c) child = Inr (Some c') \<Longrightarrow>
     cx_systems c' = (case map_of (cx_systems c) (strip child) of
                        None \<Rightarrow> [] | Some ov \<Rightarrow> dict_update [] (ov_systems ov))"
  by (auto simp: child_context_def apply_override_def empty_context_def Let_def
           split: if_splits option.splits)

section \<open>Properties\<close>

text \<open>
  Merging an overlay into a mapping: a leaf of the overlay is found at its path in the
  result, and what the overlay does not touch on the way is found where it was.
\<close>

theorem deep_merge_lookup:
  assumes "wf_dicts (PDict ov)"
  shows "(path_get (PDict ov) ks = Some v \<and> \<not> is_dict v \<longrightarrow> path_get (PDict (deep_merge base ov)) ks = Some v) \<and>
    (path_get (PDict base) ks = Some v \<and>
     (\<forall>i \<le> length ks. case path_get (PDict ov) (take i ks) of None \<Rightarrow> True | Some w \<Rightarrow> is_dict w \<and> i < length ks) \<longrightarrow>
     path_get (PDict (deep_merge base ov)) ks = Some v)"
  using path_get_merge_overlay [OF assms] path_get_merge_base [OF assms] by blast

theorem deep_merge_lookup_witness:
  "path_get (PDict (deep_merge [(PStr ''a'', PDict [(PStr ''x'', PInt 1)])]
     [(PStr ''a'', PDict [(PStr ''y'', PInt 2)])])) [PStr ''a'', PStr ''y''] = Some (PInt 2)"
proof -
  have "wf_dicts (PDict [(PStr ''a'', PDict [(PStr ''y'', PInt 2)])])" by simp
  from deep_merge_lookup [OF this, of "[PStr ''a'', PStr ''y'']" "PInt 2"] show ?thesis
    by (simp add: is_dict_def)
qed

text \<open>
  A plan made with an execution context runs only with a context of the same digest, and a
  plan made without one only without one.
\<close>

lemma context_binding_exact:
  "validate_context_binding digest expected context = Inr () \<longleftrightarrow> expected = map_option digest context"
  by (rule validate_context_binding_Inr)

end
