(* ===== verification/Effects.thy ===== *)
theory Effects
  imports Prelude
begin

text \<open>
  Effects as explicit state passing. An \<open>act\<close> takes the state, returns a value or raises,
  and returns the new state: what a handler sees after an exception is the state the body
  left. A \<open>pact\<close> may also not return (\<open>None\<close>), for code that contains an unbounded loop.
\<close>

type_synonym ('s, 'a) act = "'s \<Rightarrow> 'a result \<times> 's"
type_synonym ('s, 'a) pact = "'s \<Rightarrow> ('a result \<times> 's) option"

named_theorems act_simps \<open>unfolding of the combinators\<close>

definition act_return :: "'a \<Rightarrow> ('s, 'a) act" where
  "act_return x = (\<lambda>s. (Inr x, s))"

definition act_raise :: "py_error \<Rightarrow> ('s, 'a) act" where
  "act_raise e = (\<lambda>s. (Inl e, s))"

definition act_lift :: "'a result \<Rightarrow> ('s, 'a) act" where
  "act_lift r = (\<lambda>s. (r, s))"

definition act_bind :: "('s, 'a) act \<Rightarrow> ('a \<Rightarrow> ('s, 'b) act) \<Rightarrow> ('s, 'b) act" where
  "act_bind m f = (\<lambda>s. case m s of (Inl e, t) \<Rightarrow> (Inl e, t) | (Inr x, t) \<Rightarrow> f x t)"

text \<open>\<open>try: m except Exception as exc: h(exc)\<close>.\<close>

definition act_try :: "('s, 'a) act \<Rightarrow> (py_error \<Rightarrow> ('s, 'a) act) \<Rightarrow> ('s, 'a) act" where
  "act_try m h = (\<lambda>s. case m s of (Inl e, t) \<Rightarrow> h e t | (Inr x, t) \<Rightarrow> (Inr x, t))"

definition act_modify :: "('s \<Rightarrow> 's) \<Rightarrow> ('s, unit) act" where
  "act_modify f = (\<lambda>s. (Inr (), f s))"

definition act_get :: "('s \<Rightarrow> 'a) \<Rightarrow> ('s, 'a) act" where
  "act_get f = (\<lambda>s. (Inr (f s), s))"

text \<open>\<open>for x in xs: body(x)\<close>; the first exception leaves the loop.\<close>

fun act_for :: "'x list \<Rightarrow> ('x \<Rightarrow> ('s, unit) act) \<Rightarrow> ('s, unit) act" where
  "act_for [] body = act_return ()"
| "act_for (x # xs) body = act_bind (body x) (\<lambda>_. act_for xs body)"

text \<open>\<open>[body(x) for x in xs]\<close>, or a loop that appends its results to a list.\<close>

fun act_seq :: "('s, 'a) act list \<Rightarrow> ('s, 'a list) act" where
  "act_seq [] = act_return []"
| "act_seq (m # ms) = act_bind m (\<lambda>x. act_bind (act_seq ms) (\<lambda>xs. act_return (x # xs)))"

lemma act_simps_basic [act_simps]:
  "act_return x s = (Inr x, s)"
  "act_raise e s = (Inl e, s)"
  "act_lift r s = (r, s)"
  "act_modify f s = (Inr (), f s)"
  "act_get g s = (Inr (g s), s)"
  by (simp_all add: act_return_def act_raise_def act_lift_def act_modify_def act_get_def)

lemma act_bind_app [act_simps]:
  "act_bind m f s = (case m s of (Inl e, t) \<Rightarrow> (Inl e, t) | (Inr x, t) \<Rightarrow> f x t)"
  by (simp add: act_bind_def)

lemma act_try_app [act_simps]:
  "act_try m h s = (case m s of (Inl e, t) \<Rightarrow> h e t | (Inr x, t) \<Rightarrow> (Inr x, t))"
  by (simp add: act_try_def)

lemma act_bind_assoc: "act_bind (act_bind m f) g = act_bind m (\<lambda>x. act_bind (f x) g)"
  by (rule ext) (auto simp: act_bind_def split: prod.splits sum.splits)

lemma act_return_bind [simp]: "act_bind (act_return x) f = f x"
  by (simp add: act_bind_def act_return_def)

lemma act_bind_return [simp]: "act_bind m act_return = m"
  by (rule ext) (auto simp: act_bind_def act_return_def split: prod.splits sum.splits)

lemma act_bind_Inr:
  "act_bind m f s = (Inr y, t) \<longleftrightarrow> (\<exists>x u. m s = (Inr x, u) \<and> f x u = (Inr y, t))"
  by (auto simp: act_bind_def split: prod.splits sum.splits)

lemma act_basic_Inr [simp]:
  "act_return x s = (Inr y, t) \<longleftrightarrow> y = x \<and> t = s"
  "act_raise e s \<noteq> (Inr y, t)"
  "act_lift r s = (Inr y, t) \<longleftrightarrow> r = Inr y \<and> t = s"
  by (auto simp: act_return_def act_raise_def act_lift_def)

text \<open>Each result of a successful sequence was returned by its own action.\<close>

lemma act_seq_results:
  "act_seq ms s = (Inr xs, t) \<Longrightarrow> list_all2 (\<lambda>m x. \<exists>u v. m u = (Inr x, v)) ms xs"
proof (induction ms arbitrary: s xs)
  case (Cons m ms)
  then obtain x u ys where "m s = (Inr x, u)" "act_seq ms u = (Inr ys, t)" "xs = x # ys"
    by (auto simp: act_bind_Inr)
  with Cons.IH show ?case by auto
qed simp

lemma act_bind_cases:
  assumes "act_bind m f s = (r, t)"
  obtains (err) e where "m s = (Inl e, t)" and "r = Inl e"
    | (ok) x u where "m s = (Inr x, u)" and "f x u = (r, t)"
  using assms by (auto simp: act_bind_def split: prod.splits sum.splits)

text \<open>An invariant of the state that every step of a loop keeps, whether it raises or not.\<close>

definition keeps :: "('s \<Rightarrow> bool) \<Rightarrow> ('s, 'a) act \<Rightarrow> bool" where
  "keeps P m = (\<forall>s. P s \<longrightarrow> P (snd (m s)))"

lemma keepsI: "(\<And>s. P s \<Longrightarrow> P (snd (m s))) \<Longrightarrow> keeps P m"
  by (simp add: keeps_def)

lemma keepsD: "keeps P m \<Longrightarrow> P s \<Longrightarrow> m s = (r, t) \<Longrightarrow> P t"
  by (force simp: keeps_def)

lemma keeps_basic [simp, intro]:
  "keeps P (act_return x)" "keeps P (act_raise e)" "keeps P (act_lift r)" "keeps P (act_get g)"
  by (simp_all add: keeps_def act_simps)

lemma keeps_modify: "(\<And>s. P s \<Longrightarrow> P (f s)) \<Longrightarrow> keeps P (act_modify f)"
  by (simp add: keeps_def act_simps)

lemma keeps_bind: "keeps P m \<Longrightarrow> (\<And>x. keeps P (f x)) \<Longrightarrow> keeps P (act_bind m f)"
  by (auto simp: keeps_def act_bind_def split: prod.splits sum.splits)


lemma keeps_try: "keeps P m \<Longrightarrow> (\<And>e. keeps P (h e)) \<Longrightarrow> keeps P (act_try m h)"
  by (auto simp: keeps_def act_try_def split: prod.splits sum.splits)


lemma keeps_for: "(\<And>x. x \<in> set xs \<Longrightarrow> keeps P (b x)) \<Longrightarrow> keeps P (act_for xs b)"
  by (induction xs) (auto intro!: keeps_bind)

lemma keeps_seq: "(\<And>m. m \<in> set ms \<Longrightarrow> keeps P m) \<Longrightarrow> keeps P (act_seq ms)"
  by (induction ms) (auto intro!: keeps_bind)

lemma keeps_if: "(b \<Longrightarrow> keeps P m) \<Longrightarrow> (\<not> b \<Longrightarrow> keeps P n) \<Longrightarrow> keeps P (if b then m else n)"
  by simp

section \<open>Actions that may not return\<close>

definition pact_of :: "('s, 'a) act \<Rightarrow> ('s, 'a) pact" where
  "pact_of m = (\<lambda>s. Some (m s))"

definition pact_bind :: "('s, 'a) pact \<Rightarrow> ('a \<Rightarrow> ('s, 'b) pact) \<Rightarrow> ('s, 'b) pact" where
  "pact_bind m f = (\<lambda>s. case m s of
     None \<Rightarrow> None
   | Some (Inl e, t) \<Rightarrow> Some (Inl e, t)
   | Some (Inr x, t) \<Rightarrow> f x t)"

definition pact_try :: "('s, 'a) pact \<Rightarrow> (py_error \<Rightarrow> ('s, 'a) pact) \<Rightarrow> ('s, 'a) pact" where
  "pact_try m h = (\<lambda>s. case m s of
     None \<Rightarrow> None
   | Some (Inl e, t) \<Rightarrow> h e t
   | Some (Inr x, t) \<Rightarrow> Some (Inr x, t))"

fun pact_for :: "'x list \<Rightarrow> ('x \<Rightarrow> ('s, unit) pact) \<Rightarrow> ('s, unit) pact" where
  "pact_for [] body = pact_of (act_return ())"
| "pact_for (x # xs) body = pact_bind (body x) (\<lambda>_. pact_for xs body)"

lemma pact_bind_cases:
  assumes "pact_bind m f s = Some (r, t)"
  obtains (err) e where "m s = Some (Inl e, t)" and "r = Inl e"
    | (ok) x u where "m s = Some (Inr x, u)" and "f x u = Some (r, t)"
  using assms by (auto simp: pact_bind_def split: option.splits prod.splits sum.splits)

lemma pact_try_cases:
  assumes "pact_try m h s = Some (r, t)"
  obtains (handled) e u where "m s = Some (Inl e, u)" and "h e u = Some (r, t)"
    | (ok) x where "m s = Some (Inr x, t)" and "r = Inr x"
  using assms by (auto simp: pact_try_def split: option.splits prod.splits sum.splits)

text \<open>The partial counterpart of \<open>keeps\<close>: whenever the action returns, the invariant holds.\<close>

definition pkeeps :: "('s \<Rightarrow> bool) \<Rightarrow> ('s, 'a) pact \<Rightarrow> bool" where
  "pkeeps P m = (\<forall>s r t. P s \<longrightarrow> m s = Some (r, t) \<longrightarrow> P t)"

lemma pkeepsD: "pkeeps P m \<Longrightarrow> P s \<Longrightarrow> m s = Some (r, t) \<Longrightarrow> P t"
  by (auto simp: pkeeps_def)

lemma pkeeps_of: "keeps P m \<Longrightarrow> pkeeps P (pact_of m)"
  by (force simp: pkeeps_def keeps_def pact_of_def)

lemma pkeeps_bind: "pkeeps P m \<Longrightarrow> (\<And>x. pkeeps P (f x)) \<Longrightarrow> pkeeps P (pact_bind m f)"
  unfolding pkeeps_def by (blast elim: pact_bind_cases)

lemma pkeeps_for: "(\<And>x. x \<in> set xs \<Longrightarrow> pkeeps P (b x)) \<Longrightarrow> pkeeps P (pact_for xs b)"
  by (induction xs) (auto intro!: pkeeps_bind pkeeps_of)

end
