(* ===== verification/Backend.thy ===== *)
theory Backend
  imports Execution_Context Effects "HOL-Library.Multiset"
begin

text \<open>
  \<open>src/nodrix/system/backend.py\<close>: the contract between the orchestrator and an execution
  backend. The projection of a plan onto one backend (\<open>BackendContext\<close>), the validation
  report, and the template methods \<open>validate\<close>, \<open>prepare\<close>, \<open>start\<close>, \<open>inspect\<close> and
  \<open>stop\<close> that wrap the hooks a subclass implements. A backend is the record of its
  identifier, its capabilities and its five hooks, which act on a world \<open>'w\<close> and attach
  payloads \<open>'p\<close> of their own. The metadata of capabilities and prepared executions and the
  metric sink of a context, which no modelled operation reads, are left out.
\<close>

section \<open>Capabilities\<close>

record capabilities =
  ca_target_kinds :: "string set"
  ca_transport_uses :: "string set"
  ca_features :: "string set"

definition supports_target_kind :: "capabilities \<Rightarrow> string \<Rightarrow> bool" where
  "supports_target_kind c kind = (ca_target_kinds c = {} \<or> kind \<in> ca_target_kinds c)"

definition supports_transport :: "capabilities \<Rightarrow> string option \<Rightarrow> bool" where
  "supports_transport c uses_opt = (case uses_opt of
     None \<Rightarrow> True
   | Some u \<Rightarrow> ca_transport_uses c = {} \<or> u \<in> ca_transport_uses c)"

definition supports_feature :: "capabilities \<Rightarrow> string \<Rightarrow> bool" where
  "supports_feature c feature = (feature \<in> ca_features c)"

section \<open>Contexts\<close>

datatype link_direction = INBOUND | OUTBOUND

record backend_system_link =
  sl_link :: planned_link
  sl_direction :: link_direction
  sl_local_endpoint :: string
  sl_remote_endpoint :: string
  sl_owner_system_path :: "string list"
  sl_local_system_path :: "string list"
  sl_remote_system_path :: "string list"

definition sl_ordinal :: "backend_system_link \<Rightarrow> nat" where
  "sl_ordinal l = ln_ordinal (sl_link l)"

record backend_context =
  bc_plan :: system_plan
  bc_backend :: string
  bc_execution_context :: "execution_context option"
  bc_targets :: "planned_target list"
  bc_system_parameters :: mapping
  bc_inherited_resources :: "planned_child_binding list"
  bc_resources :: "planned_resource list"
  bc_resource_order :: "string list"
  bc_applications :: "planned_application list"
  bc_nodes :: "planned_node list"
  bc_connections :: "planned_connection list"
  bc_internal_links :: "planned_link list"
  bc_inbound_links :: "planned_link list"
  bc_outbound_links :: "planned_link list"
  bc_system_inbound_links :: "backend_system_link list"
  bc_system_outbound_links :: "backend_system_link list"
  bc_artifacts :: "planned_artifact list"

definition backend_error :: "string \<Rightarrow> string \<Rightarrow> string \<Rightarrow> py_error" where
  "backend_error code path msg = CodedErr ''BackendContractError'' code path msg"

text \<open>\<open>__post_init__\<close>: a context is bound to the execution context its plan was made with.\<close>

definition mk_BackendContext :: "(execution_context \<Rightarrow> string) \<Rightarrow> backend_context \<Rightarrow> backend_context result" where
  "mk_BackendContext digest c =
     (case validate_context_binding digest (pl_execution_context_sha256 (plan_body (bc_plan c)))
             (bc_execution_context c) of
        Inl e \<Rightarrow> Inl (backend_error ''BACKEND208'' ''plan.execution_context_sha256'' (exc_str e))
      | Inr _ \<Rightarrow> Inr c)"

text \<open>\<open>{parameter.name: parameter.value for ... if configured or has_default}\<close>.\<close>

definition plan_system_parameters :: "system_plan \<Rightarrow> mapping" where
  "plan_system_parameters p = dict_update []
     (map (\<lambda>q. (pp_name q, pp_value q))
        (filter (\<lambda>q. pp_configured q \<or> pp_has_default q) (pl_parameters (plan_body p))))"

definition plan_nodes :: "system_plan \<Rightarrow> planned_node list" where
  "plan_nodes p = concat (map gr_nodes (pl_graphs (plan_body p)))"

definition plan_connections :: "system_plan \<Rightarrow> planned_connection list" where
  "plan_connections p = concat (map gr_connections (pl_graphs (plan_body p)))"

definition from_plan ::
    "(execution_context \<Rightarrow> string) \<Rightarrow> system_plan \<Rightarrow> string \<Rightarrow> execution_context option \<Rightarrow>
     planned_child_binding list \<Rightarrow> backend_system_link list \<Rightarrow> backend_system_link list \<Rightarrow>
     backend_context result" where
  "from_plan digest plan backend_arg ctx inherited inbound outbound =
     (let backend = strip backend_arg; b = plan_body plan in
      if backend = []
      then Inl (backend_error ''BACKEND001'' '''' ''backend identifier must be a non-empty string'')
      else
       let resources = filter (\<lambda>r. rs_backend r = backend) (pl_resources b);
           applications = filter (\<lambda>a. ap_backend a = backend) (pl_applications b);
           nodes = filter (\<lambda>n. nd_backend n = backend) (plan_nodes plan);
           connections = filter (\<lambda>c. cn_backend c = backend) (plan_connections plan);
           internal = filter (\<lambda>l. ln_source_backend l = backend \<and> ln_target_backend l = backend) (pl_links b);
           inb = filter (\<lambda>l. ln_target_backend l = backend \<and> ln_source_backend l \<noteq> backend) (pl_links b);
           outb = filter (\<lambda>l. ln_source_backend l = backend \<and> ln_target_backend l \<noteq> backend) (pl_links b);
           artifacts = filter (\<lambda>a. af_backend a = Some backend) (pl_artifacts b);
           referenced = set (map rs_target resources) \<union> set (map ap_target applications) \<union>
             set (map nd_target nodes) \<union> set (List.map_filter af_target artifacts) \<union>
             set (map ln_source_target (internal @ outb)) \<union> set (map ln_target_target (internal @ inb)) \<union>
             set (map tg_name (filter (\<lambda>t. tg_backend t = backend) (pl_targets b)));
           resource_names = set (map rs_name resources)
       in mk_BackendContext digest
            \<lparr>bc_plan = plan, bc_backend = backend, bc_execution_context = ctx,
             bc_targets = filter (\<lambda>t. tg_name t \<in> referenced) (pl_targets b),
             bc_system_parameters = plan_system_parameters plan,
             bc_inherited_resources = inherited,
             bc_resources = resources,
             bc_resource_order = filter (\<lambda>n. n \<in> resource_names) (pl_resource_order b),
             bc_applications = applications, bc_nodes = nodes, bc_connections = connections,
             bc_internal_links = internal, bc_inbound_links = inb, bc_outbound_links = outb,
             bc_system_inbound_links = inbound, bc_system_outbound_links = outbound,
             bc_artifacts = artifacts\<rparr>)"

definition graph_names :: "backend_context \<Rightarrow> string list" where
  "graph_names c =
     (let owned = set (map nd_graph (bc_nodes c)) \<union> set (map cn_graph (bc_connections c))
      in filter (\<lambda>n. n \<in> owned) (map gr_name (pl_graphs (plan_body (bc_plan c)))))"

text \<open>A dictionary by ordinal, then its values in the order of the sorted keys.\<close>

definition context_links :: "backend_context \<Rightarrow> planned_link list" where
  "context_links c =
     map snd (sort_key fst (dict_update []
       (map (\<lambda>l. (ln_ordinal l, l)) (bc_internal_links c @ bc_inbound_links c @ bc_outbound_links c))))"

definition system_link_key :: "backend_system_link \<Rightarrow> nat \<times> string \<times> string" where
  "system_link_key l = (sl_ordinal l, sl_local_endpoint l, sl_remote_endpoint l)"

definition setdefault :: "'k \<Rightarrow> 'v \<Rightarrow> ('k \<times> 'v) list \<Rightarrow> ('k \<times> 'v) list" where
  "setdefault k v d = (if map_of d k = None then d @ [(k, v)] else d)"

definition system_links :: "backend_context \<Rightarrow> backend_system_link list" where
  "system_links c = map snd
     (fold (\<lambda>l d. setdefault (system_link_key l) l d)
        (bc_system_inbound_links c @ bc_system_outbound_links c) [])"

definition context_is_empty :: "backend_context \<Rightarrow> bool" where
  "context_is_empty c =
     (bc_targets c = [] \<and> bc_system_parameters c = [] \<and> bc_inherited_resources c = [] \<and>
      bc_resources c = [] \<and> bc_applications c = [] \<and> bc_nodes c = [] \<and> bc_connections c = [] \<and>
      context_links c = [] \<and> system_links c = [] \<and> bc_artifacts c = [])"

definition nodes_for_graph :: "backend_context \<Rightarrow> string \<Rightarrow> planned_node list" where
  "nodes_for_graph c g = filter (\<lambda>n. nd_graph n = g) (bc_nodes c)"

definition connections_for_graph :: "backend_context \<Rightarrow> string \<Rightarrow> planned_connection list" where
  "connections_for_graph c g = filter (\<lambda>n. cn_graph n = g) (bc_connections c)"

section \<open>Reports\<close>

datatype level = LV_ERROR | LV_WARNING

record backend_diagnostic =
  bd_level :: level
  bd_code :: string
  bd_message :: string
  bd_path :: string

record backend_report =
  br_backend :: string
  br_diagnostics :: "backend_diagnostic list"

definition report_errors :: "backend_report \<Rightarrow> backend_diagnostic list" where
  "report_errors r = filter (\<lambda>d. bd_level d = LV_ERROR) (br_diagnostics r)"

definition report_warnings :: "backend_report \<Rightarrow> backend_diagnostic list" where
  "report_warnings r = filter (\<lambda>d. bd_level d = LV_WARNING) (br_diagnostics r)"

definition report_valid :: "backend_report \<Rightarrow> bool" where
  "report_valid r = (report_errors r = [])"

definition BackendValidationError :: "backend_report \<Rightarrow> py_error" where
  "BackendValidationError r =
     (let detail = join_on ''; '' (map (\<lambda>d. bd_code d @ '' '' @ bd_path d @ '': '' @ bd_message d)
                     (report_errors r))
      in CodedErr ''BackendValidationError'' ''BACKEND100'' ''''
           (or_else (Some detail) (''backend '' @ repr_str (br_backend r) @ '' validation failed'')))"

definition raise_for_errors :: "backend_report \<Rightarrow> unit result" where
  "raise_for_errors r = (if report_errors r \<noteq> [] then Inl (BackendValidationError r) else Inr ())"

section \<open>Executions and statuses\<close>

datatype execution_state = PREPARED | RUNNING | STOPPING | STOPPED | COMPLETED | FAILED

definition state_value :: "execution_state \<Rightarrow> string" where
  "state_value s = (case s of PREPARED \<Rightarrow> ''prepared'' | RUNNING \<Rightarrow> ''running'' | STOPPING \<Rightarrow> ''stopping''
     | STOPPED \<Rightarrow> ''stopped'' | COMPLETED \<Rightarrow> ''completed'' | FAILED \<Rightarrow> ''failed'')"

definition state_terminal :: "execution_state \<Rightarrow> bool" where
  "state_terminal s = (s = STOPPED \<or> s = COMPLETED \<or> s = FAILED)"

definition state_successful :: "execution_state \<Rightarrow> bool" where
  "state_successful s = (s = STOPPED \<or> s = COMPLETED)"

record 'p prepared_execution =
  pe_backend :: string
  pe_context :: backend_context
  pe_payload :: 'p

definition mk_PreparedExecution :: "string \<Rightarrow> backend_context \<Rightarrow> 'p \<Rightarrow> 'p prepared_execution result" where
  "mk_PreparedExecution backend ctx payload =
     (if strip backend = [] then Inl (ValueErr ''PreparedExecution.backend must be non-empty'')
      else Inr \<lparr>pe_backend = backend, pe_context = ctx, pe_payload = payload\<rparr>)"

record 'p execution_handle =
  eh_backend :: string
  eh_execution_id :: string
  eh_prepared :: "'p prepared_execution"
  eh_payload :: 'p

definition mk_BackendExecutionHandle ::
    "string \<Rightarrow> string \<Rightarrow> 'p prepared_execution \<Rightarrow> 'p \<Rightarrow> 'p execution_handle result" where
  "mk_BackendExecutionHandle backend execution_id prepared payload =
     (if strip backend = [] then Inl (ValueErr ''BackendExecutionHandle.backend must be non-empty'')
      else if strip execution_id = []
      then Inl (ValueErr ''BackendExecutionHandle.execution_id must be non-empty'')
      else Inr \<lparr>eh_backend = backend, eh_execution_id = execution_id, eh_prepared = prepared,
                eh_payload = payload\<rparr>)"

datatype health_state = UNKNOWN | HEALTHY_STATE | DEGRADED | UNHEALTHY

record observation =
  ob_ready :: "bool option"
  ob_health :: health_state
  ob_message :: "string option"

text \<open>
  \<open>ExecutionTiming\<close>: booleans and non-numbers are a \<open>TypeError\<close>; \<open>float(v)\<close> may overflow.
  The rounding of integers above \<open>2^53\<close> is not modelled.
\<close>

definition mk_ExecutionTiming :: "pyval \<Rightarrow> rat result" where
  "mk_ExecutionTiming v =
     (let bad = ValueErr (''ExecutionTiming.duration_seconds '' @ ''must be finite and non-negative'') in
      case v of
        PInt i \<Rightarrow> if float_overflow i
                  then Inl (NamedErr ''OverflowError'' ''int too large to convert to float'')
                  else if i < 0 then Inl bad else Inr (of_int i)
      | PFloat (Finite q) \<Rightarrow> if q < 0 then Inl bad else Inr q
      | PFloat _ \<Rightarrow> Inl bad
      | _ \<Rightarrow> Inl (TypeErr (''ExecutionTiming.duration_seconds '' @ ''must be a real number'')))"

record backend_status =
  bs_backend :: string
  bs_execution_id :: string
  bs_state :: execution_state
  bs_message :: "string option"
  bs_details :: mapping
  bs_observation :: "observation option"
  bs_timing :: "rat option"

section \<open>The template methods of ExecutionBackend\<close>

record ('w, 'p) backend =
  be_id :: string
  be_capabilities :: capabilities
  hook_validate :: "backend_context \<Rightarrow> ('w, backend_diagnostic list) act"
  hook_prepare :: "backend_context \<Rightarrow> ('w, 'p prepared_execution) act"
  hook_start :: "'p prepared_execution \<Rightarrow> ('w, 'p execution_handle) act"
  hook_inspect :: "'p execution_handle \<Rightarrow> ('w, backend_status) act"
  hook_stop :: "'p execution_handle \<Rightarrow> pyfloat option \<Rightarrow> ('w, backend_status) act"

definition bd_error :: "string \<Rightarrow> string \<Rightarrow> string \<Rightarrow> backend_diagnostic" where
  "bd_error code path msg = \<lparr>bd_level = LV_ERROR, bd_code = code, bd_message = msg, bd_path = path\<rparr>"

text \<open>The diagnostics of \<open>validate\<close> before those of the hook, in order.\<close>

definition generic_diagnostics :: "('w, 'p) backend \<Rightarrow> backend_context \<Rightarrow> backend_diagnostic list" where
  "generic_diagnostics b c =
     (let cap = be_capabilities b; me = ''backend '' @ repr_str (be_id b) in
      (if bc_backend c \<noteq> be_id b
       then [bd_error ''BACKEND101'' ''context.backend''
              (''context belongs to backend '' @ repr_str (bc_backend c) @ '', '' @ ''not '' @ repr_str (be_id b))]
       else []) @
      map (\<lambda>t. bd_error ''BACKEND102'' (''targets.'' @ tg_name t @ ''.kind'')
             (me @ '' does not support '' @ ''target kind '' @ repr_str (tg_kind t)))
        (filter (\<lambda>t. \<not> supports_target_kind cap (tg_kind t)) (bc_targets c)) @
      map (\<lambda>l. bd_error ''BACKEND103'' (''links['' @ nat_digits (ln_ordinal l) @ ''].uses'')
             (me @ '' does not support '' @ ''transport '' @ repr_opt (ln_transport_uses l)))
        (filter (\<lambda>l. ln_transport_required l \<and> \<not> supports_transport cap (ln_transport_uses l))
           (context_links c)) @
      (if bc_inherited_resources c \<noteq> [] \<and> \<not> supports_feature cap ''system_resources''
       then [bd_error ''BACKEND104'' ''inherited_resources''
              (me @ '' does not support '' @ ''inherited child System resources'')]
       else []) @
      (if system_links c \<noteq> [] \<and> \<not> supports_feature cap ''system_interfaces''
       then [bd_error ''BACKEND105'' ''system_links''
              (me @ '' does not support '' @ ''links across child System interfaces'')]
       else []) @
      map (\<lambda>l. bd_error ''BACKEND103'' (''system_links['' @ nat_digits (sl_ordinal l) @ ''].uses'')
             (me @ '' does not support '' @ ''transport '' @ repr_opt (ln_transport_uses (sl_link l))))
        (filter (\<lambda>l. ln_transport_required (sl_link l) \<and>
                     \<not> supports_transport cap (ln_transport_uses (sl_link l)))
           (system_links c)))"

definition backend_validate :: "('w, 'p) backend \<Rightarrow> backend_context \<Rightarrow> ('w, backend_report) act" where
  "backend_validate b c =
     act_bind (hook_validate b c) (\<lambda>ds.
       act_return \<lparr>br_backend = be_id b, br_diagnostics = generic_diagnostics b c @ ds\<rparr>)"

definition plan_sha :: "backend_context \<Rightarrow> string" where
  "plan_sha c = pl_system_sha256 (plan_body (bc_plan c))"

definition validate_prepared ::
    "('w, 'p) backend \<Rightarrow> 'p prepared_execution \<Rightarrow> backend_context option \<Rightarrow> unit result" where
  "validate_prepared b p context =
     (if pe_backend p \<noteq> be_id b
      then Inl (backend_error ''BACKEND201'' ''prepared.backend''
                  ''PreparedExecution belongs to a different backend'')
      else if bc_backend (pe_context p) \<noteq> be_id b
      then Inl (backend_error ''BACKEND202'' ''prepared.context.backend''
                  ''PreparedExecution context belongs to a different backend'')
      else case context of
        None \<Rightarrow> Inr ()
      | Some c \<Rightarrow> if plan_sha (pe_context p) \<noteq> plan_sha c
                  then Inl (backend_error ''BACKEND203'' ''prepared.context.plan.system_sha256''
                              ''PreparedExecution was created for a different System plan'')
                  else Inr ())"

definition validate_handle ::
    "('w, 'p) backend \<Rightarrow> 'p execution_handle \<Rightarrow> 'p prepared_execution option \<Rightarrow> unit result" where
  "validate_handle b h prepared =
     (if eh_backend h \<noteq> be_id b
      then Inl (backend_error ''BACKEND204'' ''handle.backend''
                  ''execution handle belongs to a different backend'')
      else ebind (validate_prepared b (eh_prepared h) None) (\<lambda>_.
        case prepared of
          None \<Rightarrow> Inr ()
        | Some p \<Rightarrow> if plan_sha (pe_context (eh_prepared h)) \<noteq> plan_sha (pe_context p)
                    then Inl (backend_error ''BACKEND205'' ''handle.prepared''
                                ''execution handle belongs to a different prepared plan'')
                    else Inr ()))"

definition validate_status :: "('w, 'p) backend \<Rightarrow> backend_status \<Rightarrow> 'p execution_handle \<Rightarrow> unit result" where
  "validate_status b s h =
     (if bs_backend s \<noteq> be_id b
      then Inl (backend_error ''BACKEND206'' ''status.backend'' ''status belongs to a different backend'')
      else if bs_execution_id s \<noteq> eh_execution_id h
      then Inl (backend_error ''BACKEND207'' ''status.execution_id''
                  ''status execution_id does not match the handle'')
      else Inr ())"

definition backend_prepare :: "('w, 'p) backend \<Rightarrow> backend_context \<Rightarrow> ('w, 'p prepared_execution) act" where
  "backend_prepare b c =
     act_bind (backend_validate b c) (\<lambda>report.
     act_bind (act_lift (raise_for_errors report)) (\<lambda>_.
     act_bind (hook_prepare b c) (\<lambda>p.
     act_bind (act_lift (validate_prepared b p (Some c))) (\<lambda>_.
     act_return p))))"

definition backend_start :: "('w, 'p) backend \<Rightarrow> 'p prepared_execution \<Rightarrow> ('w, 'p execution_handle) act" where
  "backend_start b p =
     act_bind (act_lift (validate_prepared b p None)) (\<lambda>_.
     act_bind (hook_start b p) (\<lambda>h.
     act_bind (act_lift (validate_handle b h (Some p))) (\<lambda>_.
     act_return h)))"

definition backend_inspect :: "('w, 'p) backend \<Rightarrow> 'p execution_handle \<Rightarrow> ('w, backend_status) act" where
  "backend_inspect b h =
     act_bind (act_lift (validate_handle b h None)) (\<lambda>_.
     act_bind (hook_inspect b h) (\<lambda>s.
     act_bind (act_lift (validate_status b s h)) (\<lambda>_.
     act_return s)))"

text \<open>\<open>timeout < 0\<close> and \<open>math.isfinite\<close> on floats.\<close>

definition pf_negative :: "pyfloat \<Rightarrow> bool" where
  "pf_negative f = (case f of Finite q \<Rightarrow> q < 0 | NegInf \<Rightarrow> True | _ \<Rightarrow> False)"

definition pf_finite :: "pyfloat \<Rightarrow> bool" where
  "pf_finite f = (case f of Finite q \<Rightarrow> True | _ \<Rightarrow> False)"

definition timeout_negative :: "pyfloat option \<Rightarrow> bool" where
  "timeout_negative t = (case t of None \<Rightarrow> False | Some f \<Rightarrow> pf_negative f)"

definition backend_stop ::
    "('w, 'p) backend \<Rightarrow> 'p execution_handle \<Rightarrow> pyfloat option \<Rightarrow> ('w, backend_status) act" where
  "backend_stop b h timeout =
     act_bind (act_lift (validate_handle b h None)) (\<lambda>_.
     if timeout_negative timeout then act_raise (ValueErr ''timeout_seconds cannot be negative'')
     else
     act_bind (hook_stop b h timeout) (\<lambda>s.
     act_bind (act_lift (validate_status b s h)) (\<lambda>_.
     act_return s)))"

section \<open>The links of a context\<close>

lemma dict_update_append:
  "distinct (map fst (a @ b)) \<Longrightarrow> dict_update a b = a @ b"
proof (induction b arbitrary: a)
  case (Cons kv b)
  obtain k v where kv: "kv = (k, v)" by (cases kv)
  have "k \<notin> fst ` set a" using Cons.prems kv by force
  then have "AList.update k v a = a @ [(k, v)]"
    by (induction a) auto
  moreover have "dict_update (a @ [(k, v)]) b = (a @ [(k, v)]) @ b"
    using Cons.prems kv by (intro Cons.IH) simp
  ultimately show ?case by (simp add: dict_update_def kv)
qed (simp add: dict_update_def)

lemma sort_key_pairs: "sort_key fst (map (\<lambda>l. (f l, l)) xs) = map (\<lambda>l. (f l, l)) (sort_key f xs)"
proof -
  have "insort_key fst (f x, x) (map (\<lambda>l. (f l, l)) ys) = map (\<lambda>l. (f l, l)) (insort_key f x ys)" for x ys
    by (induction ys) auto
  then show ?thesis by (induction xs) simp_all
qed

lemma sort_key_unique:
  assumes "mset xs = mset ys" and "sorted (map f ys)" and "distinct (map f ys)"
  shows "sort_key f xs = ys"
proof (rule properties_for_sort_key)
  show "mset ys = mset xs" using assms(1) by simp
  show "sorted (map f ys)" by fact
  fix k assume k: "k \<in> set ys"
  have unique: "y = k" if "y \<in> set zs" "f k = f y" "set zs = set ys" for y zs
    using assms(3) k that by (auto simp: distinct_map dest: inj_onD)
  have one: "filter (\<lambda>x. f k = f x) zs = replicate (count (mset zs) k) k" if "set zs = set ys" for zs
  proof -
    have "filter (\<lambda>x. f k = f x) zs = filter (\<lambda>x. k = x) zs"
      by (rule filter_cong) (use unique that in auto)
    also have "\<dots> = replicate (count (mset zs) k) k" by (induction zs) auto
    finally show ?thesis .
  qed
  have "set xs = set ys" using assms(1) by (rule mset_eq_setD)
  then show "filter (\<lambda>x. f k = f x) ys = filter (\<lambda>x. f k = f x) xs" using assms(1) by (simp add: one)
qed

lemma context_links_filter:
  assumes "mset (bc_internal_links c @ bc_inbound_links c @ bc_outbound_links c) = mset (filter P links)"
    and sorted: "sorted (map ln_ordinal links)" and distinct: "distinct (map ln_ordinal links)"
  shows "context_links c = filter P links"
proof -
  let ?ls = "bc_internal_links c @ bc_inbound_links c @ bc_outbound_links c"
  have "distinct (map ln_ordinal (filter P links))" using distinct by (rule distinct_map_filter)
  moreover have "mset (map ln_ordinal ?ls) = mset (map ln_ordinal (filter P links))"
    using assms(1) by (metis mset_map)
  ultimately have "distinct (map ln_ordinal ?ls)" by (metis mset_eq_imp_distinct_iff)
  then have "dict_update [] (map (\<lambda>l. (ln_ordinal l, l)) ?ls) = map (\<lambda>l. (ln_ordinal l, l)) ?ls"
    by (subst dict_update_append) (simp_all add: comp_def)
  moreover have "sort_key ln_ordinal ?ls = filter P links"
    using assms(1) sorted_filter [OF sorted] distinct_map_filter [OF distinct] by (intro sort_key_unique)
  ultimately show ?thesis by (simp add: context_links_def sort_key_pairs comp_def del: map_append)
qed

lemma mk_BackendContext_Inr [result_elims]:
  "mk_BackendContext digest c = Inr d \<longleftrightarrow>
     d = c \<and> pl_execution_context_sha256 (plan_body (bc_plan c)) = map_option digest (bc_execution_context c)"
proof (cases "validate_context_binding digest (pl_execution_context_sha256 (plan_body (bc_plan c))) (bc_execution_context c)")
  case (Inl e)
  then have "pl_execution_context_sha256 (plan_body (bc_plan c)) \<noteq> map_option digest (bc_execution_context c)"
    by (metis validate_context_binding_Inr sum.distinct(1))
  with Inl show ?thesis by (simp add: mk_BackendContext_def)
next
  case (Inr u)
  then have "pl_execution_context_sha256 (plan_body (bc_plan c)) = map_option digest (bc_execution_context c)"
    using validate_context_binding_Inr by blast
  with Inr show ?thesis by (auto simp: mk_BackendContext_def)
qed

lemma mset_three_classes:
  "mset (filter (\<lambda>x. P x \<and> Q x) xs @ filter (\<lambda>x. Q x \<and> \<not> P x) xs @ filter (\<lambda>x. P x \<and> \<not> Q x) xs) =
   mset (filter (\<lambda>x. P x \<or> Q x) xs)"
  by (induction xs) auto

lemma from_plan_Inr:
  assumes "from_plan digest plan b ctx inh inb outb = Inr c"
  shows "strip b \<noteq> [] \<and> bc_plan c = plan \<and> bc_backend c = strip b \<and>
    pl_execution_context_sha256 (plan_body plan) = map_option digest ctx \<and>
    bc_resources c = filter (\<lambda>r. rs_backend r = strip b) (pl_resources (plan_body plan)) \<and>
    bc_internal_links c = filter (\<lambda>l. ln_source_backend l = strip b \<and> ln_target_backend l = strip b) (pl_links (plan_body plan)) \<and>
    bc_inbound_links c = filter (\<lambda>l. ln_target_backend l = strip b \<and> ln_source_backend l \<noteq> strip b) (pl_links (plan_body plan)) \<and>
    bc_outbound_links c = filter (\<lambda>l. ln_source_backend l = strip b \<and> ln_target_backend l \<noteq> strip b) (pl_links (plan_body plan))"
  using assms by (auto simp: from_plan_def Let_def result_elims split: if_splits)

section \<open>The contract of a backend\<close>

text \<open>
  What a client of a backend relies on: a handle it starts is its own, an observation it
  returns is of the handle asked about, and a foreign handle is refused without an effect.
\<close>

locale execution_backend =
  fixes owns :: "'h \<Rightarrow> bool" and reports :: "'h \<Rightarrow> 'o \<Rightarrow> bool"
    and start :: "'q \<Rightarrow> ('w, 'h) act" and inspect :: "'h \<Rightarrow> ('w, 'o) act"
    and stop :: "'h \<Rightarrow> 't \<Rightarrow> ('w, 'o) act"
  assumes start_owns: "start p s = (Inr h, t) \<Longrightarrow> owns h"
    and inspect_reports: "inspect h s = (Inr st, t) \<Longrightarrow> reports h st"
    and stop_reports: "stop h m s = (Inr st, t) \<Longrightarrow> reports h st"
    and inspect_foreign: "\<not> owns h \<Longrightarrow> \<exists>e. inspect h s = (Inl e, s)"
    and stop_foreign: "\<not> owns h \<Longrightarrow> \<exists>e. stop h m s = (Inl e, s)"
begin

lemma foreign_untouched: "\<not> owns h \<Longrightarrow> keeps P (inspect h) \<and> keeps P (stop h m)"
  unfolding keeps_def by (metis inspect_foreign stop_foreign snd_conv)

lemma inspect_success: "inspect h s = (Inr st, t) \<Longrightarrow> owns h \<and> reports h st"
  by (metis inspect_reports inspect_foreign prod.inject sum.distinct(1))

lemma stop_success: "stop h m s = (Inr st, t) \<Longrightarrow> owns h \<and> reports h st"
  by (metis stop_reports stop_foreign prod.inject sum.distinct(1))

end

definition owns_handle :: "('w, 'p) backend \<Rightarrow> 'p execution_handle \<Rightarrow> bool" where
  "owns_handle b h = (eh_backend h = be_id b \<and> pe_backend (eh_prepared h) = be_id b \<and>
     bc_backend (pe_context (eh_prepared h)) = be_id b)"

definition status_of :: "('w, 'p) backend \<Rightarrow> 'p execution_handle \<Rightarrow> backend_status \<Rightarrow> bool" where
  "status_of b h s = (bs_backend s = be_id b \<and> bs_execution_id s = eh_execution_id h)"

lemma validate_prepared_Inr [result_elims]:
  "validate_prepared b p c = Inr u \<longleftrightarrow> pe_backend p = be_id b \<and> bc_backend (pe_context p) = be_id b \<and>
     (\<forall>d. c = Some d \<longrightarrow> plan_sha (pe_context p) = plan_sha d)"
  by (cases c) (auto simp: validate_prepared_def)

lemma validate_handle_Inr [result_elims]:
  "validate_handle b h p = Inr u \<longleftrightarrow> owns_handle b h \<and>
     (\<forall>q. p = Some q \<longrightarrow> plan_sha (pe_context (eh_prepared h)) = plan_sha (pe_context q))"
  by (cases p) (auto simp: validate_handle_def owns_handle_def result_elims)

lemma validate_status_Inr [result_elims]: "validate_status b s h = Inr u \<longleftrightarrow> status_of b h s"
  by (auto simp: validate_status_def status_of_def)

lemma validate_handle_Inl: "\<not> owns_handle b h \<Longrightarrow> \<exists>e. validate_handle b h p = Inl e"
  by (metis sum.exhaust validate_handle_Inr)

lemma backend_start_Inr:
  "backend_start b p s = (Inr h, t) \<Longrightarrow> owns_handle b h \<and> hook_start b p s = (Inr h, t) \<and>
     pe_backend p = be_id b \<and> plan_sha (pe_context (eh_prepared h)) = plan_sha (pe_context p)"
  by (auto simp: backend_start_def act_lift_def act_return_def result_elims elim!: act_bind_cases)

lemma backend_inspect_Inr:
  "backend_inspect b h s = (Inr st, t) \<Longrightarrow> status_of b h st"
  by (auto simp: backend_inspect_def act_lift_def act_return_def result_elims elim!: act_bind_cases)

lemma backend_stop_Inr:
  "backend_stop b h m s = (Inr st, t) \<Longrightarrow> status_of b h st"
  by (auto simp: backend_stop_def act_lift_def act_return_def act_raise_def result_elims
           elim!: act_bind_cases split: if_splits)

interpretation backend: execution_backend "owns_handle b" "status_of b" "backend_start b"
  "backend_inspect b" "backend_stop b" for b :: "('w, 'p) backend"
proof unfold_locales
  fix h :: "'p execution_handle" and s :: 'w
  assume "\<not> owns_handle b h"
  then obtain e where "validate_handle b h None = Inl e" using validate_handle_Inl by blast
  then show "\<exists>e. backend_inspect b h s = (Inl e, s)" and "\<exists>e. backend_stop b h m s = (Inl e, s)" for m
    by (simp_all add: backend_inspect_def backend_stop_def act_simps)
qed (auto dest: backend_start_Inr backend_inspect_Inr backend_stop_Inr)

lemma backend_prepare_Inr:
  assumes "backend_prepare b c s = (Inr p, t)"
  shows "pe_backend p = be_id b \<and> bc_backend (pe_context p) = be_id b \<and>
    plan_sha (pe_context p) = plan_sha c \<and>
    (\<exists>r u. backend_validate b c s = (Inr r, u) \<and> report_valid r)"
proof -
  from assms obtain r u where "backend_validate b c s = (Inr r, u)" "raise_for_errors r = Inr ()"
    and "validate_prepared b p (Some c) = Inr ()"
    by (auto simp: backend_prepare_def act_lift_def act_return_def elim!: act_bind_cases)
  then show ?thesis by (auto simp: result_elims raise_for_errors_def report_valid_def split: if_splits)
qed

text \<open>A valid report excludes each generic diagnostic.\<close>

lemma report_valid_append:
  "report_valid \<lparr>br_backend = b, br_diagnostics = xs @ ys\<rparr> \<longleftrightarrow>
     report_valid \<lparr>br_backend = b, br_diagnostics = xs\<rparr> \<and> report_valid \<lparr>br_backend = b, br_diagnostics = ys\<rparr>"
  by (simp add: report_valid_def report_errors_def)

lemma report_valid_errors:
  "report_valid \<lparr>br_backend = b, br_diagnostics = map (\<lambda>x. bd_error (f x) (g x) (h x)) xs\<rparr> \<longleftrightarrow> xs = []"
  "report_valid \<lparr>br_backend = b, br_diagnostics = if q then [bd_error x y z] else []\<rparr> \<longleftrightarrow> \<not> q"
  by (cases xs) (simp_all add: report_valid_def report_errors_def bd_error_def)

definition backend_accepts :: "('w, 'p) backend \<Rightarrow> backend_context \<Rightarrow> bool" where
  "backend_accepts b c =
     (bc_backend c = be_id b \<and>
      (\<forall>t \<in> set (bc_targets c). supports_target_kind (be_capabilities b) (tg_kind t)) \<and>
      (\<forall>l \<in> set (context_links c) \<union> set (map sl_link (system_links c)). ln_transport_required l \<longrightarrow>
          supports_transport (be_capabilities b) (ln_transport_uses l)) \<and>
      (bc_inherited_resources c \<noteq> [] \<longrightarrow> supports_feature (be_capabilities b) ''system_resources'') \<and>
      (system_links c \<noteq> [] \<longrightarrow> supports_feature (be_capabilities b) ''system_interfaces''))"

lemma generic_diagnostics_valid:
  "report_valid \<lparr>br_backend = x, br_diagnostics = generic_diagnostics b c\<rparr> \<longleftrightarrow> backend_accepts b c"
  unfolding generic_diagnostics_def backend_accepts_def Let_def report_valid_append report_valid_errors filter_empty_conv
  by auto

lemma backend_validate_valid:
  assumes "backend_validate b c s = (Inr r, t)"
  shows "\<exists>ds. hook_validate b c s = (Inr ds, t) \<and>
     (report_valid r \<longleftrightarrow> backend_accepts b c \<and> (\<forall>d \<in> set ds. bd_level d \<noteq> LV_ERROR))"
proof -
  from assms obtain ds where hook: "hook_validate b c s = (Inr ds, t)"
    and r: "r = \<lparr>br_backend = be_id b, br_diagnostics = generic_diagnostics b c @ ds\<rparr>"
    by (auto simp: backend_validate_def act_return_def elim!: act_bind_cases)
  have "report_valid r \<longleftrightarrow> backend_accepts b c \<and> (\<forall>d \<in> set ds. bd_level d \<noteq> LV_ERROR)"
    unfolding r report_valid_append generic_diagnostics_valid
    by (simp add: report_valid_def report_errors_def filter_empty_conv)
  with hook show ?thesis by blast
qed

section \<open>A sample backend\<close>

text \<open>A backend of one name that starts executions, or refuses to, in a world that counts calls.\<close>

definition sample_context :: "system_plan \<Rightarrow> string \<Rightarrow> backend_context" where
  "sample_context plan backend =
     \<lparr>bc_plan = plan, bc_backend = backend, bc_execution_context = None, bc_targets = [],
      bc_system_parameters = [], bc_inherited_resources = [], bc_resources = [], bc_resource_order = [],
      bc_applications = [], bc_nodes = [], bc_connections = [], bc_internal_links = [],
      bc_inbound_links = [], bc_outbound_links = [], bc_system_inbound_links = [],
      bc_system_outbound_links = [], bc_artifacts = []\<rparr>"

definition sample_status :: "string \<Rightarrow> string \<Rightarrow> execution_state \<Rightarrow> observation option \<Rightarrow> backend_status" where
  "sample_status backend i st ob =
     \<lparr>bs_backend = backend, bs_execution_id = i, bs_state = st, bs_message = None, bs_details = [],
      bs_observation = ob, bs_timing = None\<rparr>"

definition sample_backend :: "string \<Rightarrow> bool \<Rightarrow> (nat, unit) backend" where
  "sample_backend i ok =
     \<lparr>be_id = i, be_capabilities = \<lparr>ca_target_kinds = {}, ca_transport_uses = {}, ca_features = {}\<rparr>,
      hook_validate = (\<lambda>c. act_return []),
      hook_prepare = (\<lambda>c. act_return \<lparr>pe_backend = i, pe_context = c, pe_payload = ()\<rparr>),
      hook_start = (\<lambda>p. if ok
         then (\<lambda>w. (Inr \<lparr>eh_backend = i, eh_execution_id = ''x'', eh_prepared = p, eh_payload = ()\<rparr>, w + 1))
         else act_raise (RuntimeErr ''down'')),
      hook_inspect = (\<lambda>h. act_return (sample_status i (eh_execution_id h) RUNNING
         (Some \<lparr>ob_ready = Some True, ob_health = HEALTHY_STATE, ob_message = None\<rparr>))),
      hook_stop = (\<lambda>h t. act_return (sample_status i (eh_execution_id h) STOPPED None))\<rparr>"

definition sample_prepared_execution :: "system_plan \<Rightarrow> string \<Rightarrow> unit prepared_execution" where
  "sample_prepared_execution plan b = \<lparr>pe_backend = b, pe_context = sample_context plan b, pe_payload = ()\<rparr>"

definition sample_handle :: "system_plan \<Rightarrow> string \<Rightarrow> unit execution_handle" where
  "sample_handle plan b =
     \<lparr>eh_backend = b, eh_execution_id = ''x'', eh_prepared = sample_prepared_execution plan b, eh_payload = ()\<rparr>"

lemmas sample_backend_defs = sample_context_def sample_status_def sample_backend_def
  sample_prepared_execution_def sample_handle_def

section \<open>Properties\<close>

text \<open>
  C10: A handle that \<open>start\<close> returns belongs to the backend and to the plan that was prepared,
  and a status that \<open>inspect\<close> or \<open>stop\<close> returns names the backend and the execution of the
  handle it was asked about.
\<close>

theorem backend_contract:
  "(backend_start b p s = (Inr h, t) \<longrightarrow>
      eh_backend h = be_id b \<and> bc_backend (pe_context (eh_prepared h)) = be_id b \<and>
      plan_sha (pe_context (eh_prepared h)) = plan_sha (pe_context p)) \<and>
   (backend_inspect b h s = (Inr st, t) \<or> backend_stop b h tm s = (Inr st, t) \<longrightarrow>
      bs_backend st = be_id b \<and> bs_execution_id st = eh_execution_id h)"
  using backend_start_Inr [of b p s h t] backend.inspect_success [of b h s st t]
    backend.stop_success [of b h tm s st t] unfolding owns_handle_def status_of_def by blast

theorem backend_contract_witness:
  "bs_execution_id (sample_status ''a'' ''x'' STOPPED None) =
     eh_execution_id (sample_handle (SystemExecutionPlan (blank_body ''demo'') []) ''a'')"
proof -
  let ?p = "SystemExecutionPlan (blank_body ''demo'') []"
  have "backend_stop (sample_backend ''a'' True) (sample_handle ?p ''a'') None 0 =
      (Inr (sample_status ''a'' ''x'' STOPPED None), 0)"
    by (simp add: backend_stop_def validate_handle_def validate_prepared_def validate_status_def
                  sample_backend_defs act_simps timeout_negative_def)
  with backend_contract [of "sample_backend ''a'' True" _ 0 "sample_handle ?p ''a''"] show ?thesis by blast
qed

text \<open>
  A context for which \<open>prepare\<close> succeeds was accepted: it belongs to the backend, every
  target kind and every required transport is supported, inherited resources and child System
  links are there only when the backend has the feature, and the hook reported no error; the
  prepared execution is for the plan of the context.
\<close>

theorem prepared_context_accepted:
  assumes "backend_prepare b c s = (Inr p, t)"
  shows "backend_accepts b c \<and> plan_sha (pe_context p) = plan_sha c \<and>
    (\<exists>ds u. hook_validate b c s = (Inr ds, u) \<and> (\<forall>d \<in> set ds. bd_level d \<noteq> LV_ERROR))"
proof -
  from backend_prepare_Inr [OF assms] obtain r u where "plan_sha (pe_context p) = plan_sha c"
    "backend_validate b c s = (Inr r, u)" "report_valid r" by blast
  with backend_validate_valid [OF this(2)] show ?thesis by blast
qed

theorem prepared_context_accepted_witness:
  "backend_accepts (sample_backend ''a'' True) (sample_context (SystemExecutionPlan (blank_body ''demo'') []) ''a'')"
proof -
  let ?c = "sample_context (SystemExecutionPlan (blank_body ''demo'') []) ''a''"
  have "backend_prepare (sample_backend ''a'' True) ?c 0 =
      (Inr \<lparr>pe_backend = ''a'', pe_context = ?c, pe_payload = ()\<rparr>, 0)"
    by (simp add: backend_prepare_def backend_validate_def generic_diagnostics_def raise_for_errors_def
          report_errors_def validate_prepared_def context_links_def system_links_def Let_def sample_backend_defs act_simps)
  from prepared_context_accepted [OF this] show ?thesis by simp
qed

text \<open>
  \<open>BackendContext.from_plan\<close> classifies the links of a plan without loss: for links with
  increasing ordinals the property \<open>links\<close> returns exactly those that touch the backend, in
  plan order, each once.
\<close>

theorem from_plan_links:
  assumes "from_plan digest plan b ctx inh inb outb = Inr c"
    and "sorted (map ln_ordinal (pl_links (plan_body plan)))" and "distinct (map ln_ordinal (pl_links (plan_body plan)))"
  shows "context_links c = filter (\<lambda>l. ln_source_backend l = bc_backend c \<or> ln_target_backend l = bc_backend c)
           (pl_links (plan_body plan))"
proof (rule context_links_filter [OF _ assms(2,3)])
  show "mset (bc_internal_links c @ bc_inbound_links c @ bc_outbound_links c) =
      mset (filter (\<lambda>l. ln_source_backend l = bc_backend c \<or> ln_target_backend l = bc_backend c) (pl_links (plan_body plan)))"
    using from_plan_Inr [OF assms(1)] mset_three_classes [of "\<lambda>l. ln_source_backend l = bc_backend c"] by auto
qed

theorem from_plan_links_witness:
  "\<exists>c. from_plan (\<lambda>_. ''d'') sample_plan ''b1'' None [] [] [] = Inr c \<and>
     context_links c = filter (\<lambda>l. ln_source_backend l = bc_backend c \<or> ln_target_backend l = bc_backend c)
           (pl_links (plan_body sample_plan))"
proof -
  have "case from_plan (\<lambda>_. ''d'') sample_plan ''b1'' None [] [] [] of Inl _ \<Rightarrow> False | Inr _ \<Rightarrow> True" by code_simp
  then obtain c where c: "from_plan (\<lambda>_. ''d'') sample_plan ''b1'' None [] [] [] = Inr c" using case_Inr by blast
  have "sorted (map ln_ordinal (pl_links (plan_body sample_plan)))"
    "distinct (map ln_ordinal (pl_links (plan_body sample_plan)))" by code_simp+
  from from_plan_links [OF c this] c show ?thesis by blast
qed

end
