(* ===== verification/Scopes.thy ===== *)
theory Scopes
  imports Backend "HOL-Library.Product_Lexorder"
begin

text \<open>
  The first half of \<open>src/nodrix/system/orchestration.py\<close>: the execution scopes of a plan, the
  routing of links that cross child System boundaries, and the projection of a plan onto one
  scope.
\<close>

definition orch_error :: "string \<Rightarrow> string \<Rightarrow> string \<Rightarrow> py_error" where
  "orch_error code path msg = CodedErr ''OrchestrationError'' code path msg"

section \<open>Execution scopes\<close>

record execution_scope =
  sc_target :: string
  sc_backend :: string

definition mk_ExecutionScope :: "string \<Rightarrow> string \<Rightarrow> execution_scope result" where
  "mk_ExecutionScope target_arg backend_arg =
     (let target = strip target_arg; backend = strip backend_arg in
      if target = [] then Inl (ValueErr ''ExecutionScope.target must be non-empty'')
      else if backend = [] then Inl (ValueErr ''ExecutionScope.backend must be non-empty'')
      else Inr \<lparr>sc_target = target, sc_backend = backend\<rparr>)"

definition scope_id :: "execution_scope \<Rightarrow> string" where
  "scope_id s = sc_target s @ '':'' @ sc_backend s"

text \<open>The calls of \<open>add\<close>, in the order \<open>plan_execution_scopes\<close> makes them.\<close>

definition scope_mentions :: "system_plan \<Rightarrow> (string option \<times> string option) list" where
  "scope_mentions plan =
     (let b = plan_body plan in
      map (\<lambda>r. (Some (rs_target r), Some (rs_backend r))) (pl_resources b) @
      map (\<lambda>a. (Some (ap_target a), Some (ap_backend a))) (pl_applications b) @
      concat (map (\<lambda>g. map (\<lambda>n. (Some (nd_target n), Some (nd_backend n))) (gr_nodes g) @
                       map (\<lambda>c. (Some (cn_placement_target c), Some (cn_backend c))) (gr_connections g))
                (pl_graphs b)) @
      concat (map (\<lambda>l. [(Some (ln_source_target l), Some (ln_source_backend l)),
                        (Some (ln_target_target l), Some (ln_target_backend l))])
                (filter (\<lambda>l. ln_boundary l \<noteq> B_SYSTEM) (pl_links b))) @
      map (\<lambda>a. (af_target a, af_backend a)) (pl_artifacts b))"

text \<open>\<open>if not target or not backend: return\<close>; the set \<open>seen\<close> has the elements of \<open>discovered\<close>.\<close>

definition add_scope ::
    "execution_scope list \<Rightarrow> string option \<times> string option \<Rightarrow> execution_scope list result" where
  "add_scope discovered m =
     (case m of
        (Some target, Some backend) \<Rightarrow>
          if target = [] \<or> backend = [] then Inr discovered
          else ebind (mk_ExecutionScope target backend) (\<lambda>scope.
                 Inr (if scope \<in> set discovered then discovered else discovered @ [scope]))
      | _ \<Rightarrow> Inr discovered)"

text \<open>\<open>{key: index for index, key in enumerate(keys)}\<close>: the last index of a repeated key.\<close>

definition index_of :: "'k list \<Rightarrow> 'k \<Rightarrow> nat option" where
  "index_of keys = map_of (rev (zip keys [0..<length keys]))"

definition scope_sort_key :: "system_plan \<Rightarrow> execution_scope list \<Rightarrow> execution_scope \<Rightarrow> nat \<times> nat" where
  "scope_sort_key plan discovered s =
     (let order = index_of (map tg_name (pl_targets (plan_body plan)));
          n = card (set (map tg_name (pl_targets (plan_body plan)))) in
      (case order (sc_target s) of None \<Rightarrow> n | Some i \<Rightarrow> i,
       case index_of discovered s of None \<Rightarrow> 0 | Some i \<Rightarrow> i))"

definition plan_execution_scopes :: "system_plan \<Rightarrow> execution_scope list result" where
  "plan_execution_scopes plan =
     ebind (efold add_scope [] (scope_mentions plan)) (\<lambda>discovered.
       Inr (sort_key (scope_sort_key plan discovered) discovered))"

section \<open>Links across child Systems\<close>

datatype link_side = SOURCE | TARGET

function resolve_link_endpoint ::
    "system_plan \<Rightarrow> string \<Rightarrow> link_side \<Rightarrow> string list \<Rightarrow> (string list \<times> string) result" where
  "resolve_link_endpoint current value side path =
     ebind (parse_system_endpoint value) (\<lambda>e.
       if ep_kind e \<noteq> SYSTEM then Inr (path, value)
       else ebind (plan_child current (ep_instance e)) (\<lambda>child.
         ebind (if side = SOURCE
                then boundary_output (pl_bindings (plan_body (in_plan child))) (ep_port e)
                else boundary_input (pl_bindings (plan_body (in_plan child))) (ep_port e)) (\<lambda>b.
           resolve_link_endpoint (in_plan child) (pb_endpoint b) side (path @ [in_name child]))))"
  by auto

termination
  by (relation "measure (\<lambda>(p, v, s, q). size p)") (auto dest: plan_child_size)

declare resolve_link_endpoint.simps [simp del]

record routed_link =
  rl_binding :: backend_system_link
  rl_remaining :: "string list"
  rl_target :: string
  rl_backend :: string

definition link_routes :: "system_plan \<Rightarrow> string list \<Rightarrow> planned_link \<Rightarrow> routed_link list result" where
  "link_routes plan owner l =
     ebind (resolve_link_endpoint plan (ln_source l) SOURCE []) (\<lambda>(source_path, source_endpoint).
     ebind (resolve_link_endpoint plan (ln_target l) TARGET []) (\<lambda>(target_path, target_endpoint).
       Inr [\<lparr>rl_binding = \<lparr>sl_link = l, sl_direction = OUTBOUND,
               sl_local_endpoint = source_endpoint, sl_remote_endpoint = target_endpoint,
               sl_owner_system_path = owner, sl_local_system_path = source_path,
               sl_remote_system_path = target_path\<rparr>,
             rl_remaining = source_path, rl_target = ln_source_target l, rl_backend = ln_source_backend l\<rparr>,
            \<lparr>rl_binding = \<lparr>sl_link = l, sl_direction = INBOUND,
               sl_local_endpoint = target_endpoint, sl_remote_endpoint = source_endpoint,
               sl_owner_system_path = owner, sl_local_system_path = target_path,
               sl_remote_system_path = source_path\<rparr>,
             rl_remaining = target_path, rl_target = ln_target_target l, rl_backend = ln_target_backend l\<rparr>]))"

definition plan_system_link_routes :: "system_plan \<Rightarrow> string list \<Rightarrow> routed_link list result" where
  "plan_system_link_routes plan owner =
     ebind (emap (link_routes plan owner)
              (filter (\<lambda>l. ln_boundary l = B_SYSTEM) (pl_links (plan_body plan))))
       (\<lambda>rss. Inr (concat rss))"

text \<open>The two comprehensions on routes in \<open>validate_plan\<close> and \<open>prepare_plan\<close>.\<close>

definition scope_routes :: "routed_link list \<Rightarrow> execution_scope \<Rightarrow> link_direction \<Rightarrow> backend_system_link list" where
  "scope_routes routes s d =
     map rl_binding (filter (\<lambda>r. rl_remaining r = [] \<and> rl_target r = sc_target s \<and>
       rl_backend r = sc_backend s \<and> sl_direction (rl_binding r) = d) routes)"

definition child_routes :: "routed_link list \<Rightarrow> string \<Rightarrow> routed_link list" where
  "child_routes routes name =
     map (\<lambda>r. r\<lparr>rl_remaining := tl (rl_remaining r)\<rparr>)
       (filter (\<lambda>r. rl_remaining r \<noteq> [] \<and> hd (rl_remaining r) = name) routes)"

section \<open>The context of a scope\<close>

definition link_source_in :: "execution_scope \<Rightarrow> planned_link \<Rightarrow> bool" where
  "link_source_in s l = (ln_source_target l = sc_target s \<and> ln_source_backend l = sc_backend s)"

definition link_target_in :: "execution_scope \<Rightarrow> planned_link \<Rightarrow> bool" where
  "link_target_in s l = (ln_target_target l = sc_target s \<and> ln_target_backend l = sc_backend s)"

definition backend_context_for_scope ::
    "(execution_context \<Rightarrow> string) \<Rightarrow> system_plan \<Rightarrow> execution_scope \<Rightarrow> execution_context option \<Rightarrow>
     planned_child_binding list \<Rightarrow> backend_system_link list \<Rightarrow> backend_system_link list \<Rightarrow>
     backend_context result" where
  "backend_context_for_scope digest plan s ctx inherited inbound outbound =
     (case plan_target plan (sc_target s) of
        Inl _ \<Rightarrow> Inl (orch_error ''ORCH001'' ''scope.target''
                   (''execution scope references unknown target '' @ repr_str (sc_target s)))
      | Inr target \<Rightarrow>
         let b = plan_body plan;
             resources = filter (\<lambda>r. rs_target r = sc_target s \<and> rs_backend r = sc_backend s) (pl_resources b);
             resource_names = set (map rs_name resources) in
         mk_BackendContext digest
           \<lparr>bc_plan = plan, bc_backend = sc_backend s, bc_execution_context = ctx,
            bc_targets = [target],
            bc_system_parameters = plan_system_parameters plan,
            bc_inherited_resources =
              filter (\<lambda>i. cb_target i = sc_target s \<and> cb_backend i = sc_backend s) inherited,
            bc_resources = resources,
            bc_resource_order = filter (\<lambda>n. n \<in> resource_names) (pl_resource_order b),
            bc_applications =
              filter (\<lambda>a. ap_target a = sc_target s \<and> ap_backend a = sc_backend s) (pl_applications b),
            bc_nodes = filter (\<lambda>n. nd_target n = sc_target s \<and> nd_backend n = sc_backend s) (plan_nodes plan),
            bc_connections =
              filter (\<lambda>c. cn_placement_target c = sc_target s \<and> cn_backend c = sc_backend s)
                (plan_connections plan),
            bc_internal_links =
              filter (\<lambda>l. ln_boundary l \<noteq> B_SYSTEM \<and> link_source_in s l \<and> link_target_in s l) (pl_links b),
            bc_inbound_links =
              filter (\<lambda>l. ln_boundary l \<noteq> B_SYSTEM \<and> link_target_in s l \<and> \<not> link_source_in s l) (pl_links b),
            bc_outbound_links =
              filter (\<lambda>l. ln_boundary l \<noteq> B_SYSTEM \<and> link_source_in s l \<and> \<not> link_target_in s l) (pl_links b),
            bc_system_inbound_links = inbound, bc_system_outbound_links = outbound,
            bc_artifacts =
              filter (\<lambda>a. af_target a = Some (sc_target s) \<and> af_backend a = Some (sc_backend s))
                (pl_artifacts b)\<rparr>)"

section \<open>Lemmas on scopes\<close>

definition scope_of_mention :: "string option \<times> string option \<Rightarrow> execution_scope option" where
  "scope_of_mention m = (case m of
     (Some t, Some b) \<Rightarrow> if strip t = [] \<or> strip b = [] then None
                         else Some \<lparr>sc_target = strip t, sc_backend = strip b\<rparr>
   | _ \<Rightarrow> None)"

lemma add_scope_Inr:
  assumes "add_scope ds m = Inr es" and "distinct ds"
  shows "distinct es \<and> set es = set ds \<union> set_option (scope_of_mention m)"
  using assms
  by (cases m)
     (auto simp: add_scope_def scope_of_mention_def mk_ExecutionScope_def Let_def result_elims
           split: option.splits if_splits)

lemma efold_add_scope:
  assumes "efold add_scope ds ms = Inr es" and "distinct ds"
  shows "distinct es \<and> set es = set ds \<union> (\<Union>m \<in> set ms. set_option (scope_of_mention m))"
  using assms
proof (induction ms arbitrary: ds)
  case (Cons m ms)
  then obtain u where u: "add_scope ds m = Inr u" "efold add_scope u ms = Inr es"
    by (auto simp: result_elims)
  from add_scope_Inr [OF u(1) Cons.prems(2)] Cons.IH [OF u(2)] show ?case by auto
qed simp

lemma plan_execution_scopes_Inr:
  assumes "plan_execution_scopes plan = Inr ss"
  shows "distinct ss \<and> set ss = (\<Union>m \<in> set (scope_mentions plan). set_option (scope_of_mention m))"
  using assms by (auto simp: plan_execution_scopes_def result_elims dest!: efold_add_scope)

definition target_rank :: "system_plan \<Rightarrow> execution_scope \<Rightarrow> nat" where
  "target_rank plan s = fst (scope_sort_key plan [] s)"

lemma plan_execution_scopes_sorted:
  assumes "plan_execution_scopes plan = Inr ss"
  shows "sorted (map (target_rank plan) ss)"
proof -
  from assms obtain ds where ss: "ss = sort_key (scope_sort_key plan ds) ds"
    by (auto simp: plan_execution_scopes_def result_elims)
  have rank: "target_rank plan s = fst (scope_sort_key plan ds s)" for s
    by (simp add: target_rank_def scope_sort_key_def Let_def)
  have "sorted_wrt (\<lambda>x y. scope_sort_key plan ds x \<le> scope_sort_key plan ds y) ss"
    using sorted_sort_key [of "scope_sort_key plan ds" ds] by (simp add: ss sorted_wrt_map)
  then have "sorted_wrt (\<lambda>x y. target_rank plan x \<le> target_rank plan y) ss"
    by (rule sorted_wrt_mono_rel [rotated]) (auto simp: rank less_eq_prod_def)
  then show ?thesis by (simp add: sorted_wrt_map)
qed

text \<open>Elements classified by a list of keys that never overlap.\<close>

lemma mset_partition:
  assumes "distinct ss" and "\<And>s t x. R s x \<Longrightarrow> R t x \<Longrightarrow> s = t"
  shows "mset (concat (map (\<lambda>s. filter (R s) xs) ss)) = filter_mset (\<lambda>x. \<exists>s \<in> set ss. R s x) (mset xs)"
  using assms(1)
proof (induction ss)
  case (Cons s ss)
  have "filter_mset (\<lambda>x. \<exists>t \<in> set (s # ss). R t x) (mset xs) =
        filter_mset (R s) (mset xs) + filter_mset (\<lambda>x. \<exists>t \<in> set ss. R t x) (mset xs)"
    by (rule multiset_eqI) (use Cons.prems assms(2) in \<open>auto simp del: mset_filter\<close>)
  with Cons show ?case by simp
qed simp

definition placed_at :: "('a \<Rightarrow> string) \<Rightarrow> ('a \<Rightarrow> string) \<Rightarrow> execution_scope \<Rightarrow> 'a \<Rightarrow> bool" where
  "placed_at target backend s x = (target x = sc_target s \<and> backend x = sc_backend s)"

definition normal_place :: "('a \<Rightarrow> string) \<Rightarrow> ('a \<Rightarrow> string) \<Rightarrow> 'a \<Rightarrow> bool" where
  "normal_place target backend x =
     (target x \<noteq> [] \<and> backend x \<noteq> [] \<and> strip (target x) = target x \<and> strip (backend x) = backend x)"

lemma placed_partition:
  assumes "plan_execution_scopes plan = Inr ss"
    and "\<forall>x \<in> set xs. (Some (target x), Some (backend x)) \<in> set (scope_mentions plan)"
    and "\<forall>x \<in> set xs. normal_place target backend x"
  shows "mset (concat (map (\<lambda>s. filter (placed_at target backend s) xs) ss)) = mset xs"
proof -
  have ex: "\<exists>s \<in> set ss. placed_at target backend s x" if "x \<in> set xs" for x
  proof
    let ?s = "\<lparr>sc_target = target x, sc_backend = backend x\<rparr>"
    show "placed_at target backend ?s x" by (simp add: placed_at_def)
    have "scope_of_mention (Some (target x), Some (backend x)) = Some ?s"
      using assms(3) that by (auto simp: scope_of_mention_def normal_place_def)
    with assms(2) that plan_execution_scopes_Inr [OF assms(1)] show "?s \<in> set ss" by force
  qed
  have "mset (concat (map (\<lambda>s. filter (placed_at target backend s) xs) ss)) =
        filter_mset (\<lambda>x. \<exists>s \<in> set ss. placed_at target backend s x) (mset xs)"
    using plan_execution_scopes_Inr [OF assms(1)] by (intro mset_partition) (auto simp: placed_at_def)
  also have "\<dots> = filter_mset (\<lambda>_. True) (mset xs)" by (rule filter_mset_cong) (auto simp: ex)
  finally show ?thesis by simp
qed

lemma context_for_scope_Inr:
  assumes "backend_context_for_scope digest plan s ctx inh inb outb = Inr c"
  shows "bc_plan c = plan \<and> bc_backend c = sc_backend s \<and> bc_execution_context c = ctx \<and>
    pl_execution_context_sha256 (plan_body plan) = map_option digest ctx \<and>
    map tg_name (bc_targets c) = [sc_target s] \<and>
    bc_resources c = filter (placed_at rs_target rs_backend s) (pl_resources (plan_body plan)) \<and>
    bc_applications c = filter (placed_at ap_target ap_backend s) (pl_applications (plan_body plan)) \<and>
    bc_nodes c = filter (placed_at nd_target nd_backend s) (plan_nodes plan) \<and>
    bc_connections c = filter (placed_at cn_placement_target cn_backend s) (plan_connections plan) \<and>
    bc_system_inbound_links c = inb \<and> bc_system_outbound_links c = outb"
  using assms
  by (auto simp: backend_context_for_scope_def Let_def result_elims placed_at_def [abs_def] plan_target_def
           split: sum.splits dest: get_named_Inr)

lemma context_for_scope_links:
  assumes "backend_context_for_scope digest plan s ctx inh inb outb = Inr c"
    and "sorted (map ln_ordinal (pl_links (plan_body plan)))"
    and "distinct (map ln_ordinal (pl_links (plan_body plan)))"
  shows "context_links c = filter (\<lambda>l. ln_boundary l \<noteq> B_SYSTEM \<and> (link_source_in s l \<or> link_target_in s l))
           (pl_links (plan_body plan))"
proof (rule context_links_filter [OF _ assms(2,3)])
  have "bc_internal_links c @ bc_inbound_links c @ bc_outbound_links c =
      filter (\<lambda>l. ln_boundary l \<noteq> B_SYSTEM \<and> link_source_in s l \<and> link_target_in s l) (pl_links (plan_body plan)) @
      filter (\<lambda>l. ln_boundary l \<noteq> B_SYSTEM \<and> link_target_in s l \<and> \<not> link_source_in s l) (pl_links (plan_body plan)) @
      filter (\<lambda>l. ln_boundary l \<noteq> B_SYSTEM \<and> link_source_in s l \<and> \<not> link_target_in s l) (pl_links (plan_body plan))"
    using assms(1) by (auto simp: backend_context_for_scope_def Let_def result_elims split: sum.splits)
  also have "mset \<dots> = mset (filter (\<lambda>l. ln_boundary l \<noteq> B_SYSTEM \<and> (link_source_in s l \<or> link_target_in s l))
           (pl_links (plan_body plan)))"
    using mset_three_classes [of "link_source_in s" "link_target_in s"
        "filter (\<lambda>l. ln_boundary l \<noteq> B_SYSTEM) (pl_links (plan_body plan))"]
    by (simp add: conj_commute cong: conj_cong)
  finally show "mset (bc_internal_links c @ bc_inbound_links c @ bc_outbound_links c) = \<dots>" .
qed

section \<open>Lemmas on routes\<close>

fun plan_at :: "system_plan \<Rightarrow> string list \<Rightarrow> system_plan result" where
  "plan_at p [] = Inr p"
| "plan_at p (n # ns) = ebind (plan_child p n) (\<lambda>c. plan_at (in_plan c) ns)"

lemma plan_child_name: "plan_child p n = Inr c \<Longrightarrow> in_name c = n"
  by (auto simp: plan_child_def dest: get_named_Inr)

lemma resolve_link_endpoint_Inr:
  "resolve_link_endpoint current v side path = Inr (p, w) \<Longrightarrow>
     \<exists>q target e. p = path @ q \<and> plan_at current q = Inr target \<and>
       parse_system_endpoint w = Inr e \<and> ep_kind e \<noteq> SYSTEM"
proof (induction current v side path rule: resolve_link_endpoint.induct)
  case (1 current v side path)
  note step = "1.prems" [unfolded resolve_link_endpoint.simps [of current v side path]]
  from step obtain e where e: "parse_system_endpoint v = Inr e"
    by (auto simp: result_elims)
  show ?case
  proof (cases "ep_kind e = SYSTEM")
    case False
    with step e show ?thesis by simp
  next
    case True
    from step e True obtain child b where child: "plan_child current (ep_instance e) = Inr child"
      and b: "(if side = SOURCE then boundary_output (pl_bindings (plan_body (in_plan child))) (ep_port e)
               else boundary_input (pl_bindings (plan_body (in_plan child))) (ep_port e)) = Inr b"
      and rec: "resolve_link_endpoint (in_plan child) (pb_endpoint b) side (path @ [in_name child]) = Inr (p, w)"
      by (auto simp: result_elims)
    from "1.IH" [OF e _ child b rec] True obtain q target e' where
      "p = (path @ [in_name child]) @ q" "plan_at (in_plan child) q = Inr target"
      "parse_system_endpoint w = Inr e'" "ep_kind e' \<noteq> SYSTEM" by blast
    then show ?thesis using child plan_child_name [OF child]
      by (intro exI [of _ "in_name child # q"]) auto
  qed
qed

text \<open>The routes a plan receives when its ancestors hand theirs down along a path.\<close>

definition routes_at :: "routed_link list \<Rightarrow> string list \<Rightarrow> routed_link list" where
  "routes_at routes path = fold (\<lambda>name rs. child_routes rs name) path routes"

lemma scope_routes_at:
  "scope_routes (routes_at routes path) s d =
     map rl_binding (filter (\<lambda>r. rl_remaining r = path \<and> rl_target r = sc_target s \<and>
       rl_backend r = sc_backend s \<and> sl_direction (rl_binding r) = d) routes)"
proof (induction path arbitrary: routes)
  case Nil
  show ?case by (simp add: routes_at_def scope_routes_def)
next
  case (Cons n path)
  have "scope_routes (routes_at routes (n # path)) s d = scope_routes (routes_at (child_routes routes n) path) s d"
    by (simp add: routes_at_def)
  also have "\<dots> = map rl_binding (filter (\<lambda>r. rl_remaining r = path \<and> rl_target r = sc_target s \<and>
       rl_backend r = sc_backend s \<and> sl_direction (rl_binding r) = d) (child_routes routes n))"
    by (rule Cons.IH)
  also have "\<dots> = map rl_binding (filter (\<lambda>r. rl_remaining r = n # path \<and> rl_target r = sc_target s \<and>
       rl_backend r = sc_backend s \<and> sl_direction (rl_binding r) = d) routes)"
    by (induction routes) (auto simp: child_routes_def neq_Nil_conv)
  finally show ?case .
qed

section \<open>Properties\<close>

text \<open>
  The scopes of a plan are distinct, they are exactly the places its objects name, and they
  follow the declaration order of the targets.
\<close>

theorem scopes_distinct_and_ordered:
  assumes "plan_execution_scopes plan = Inr ss"
  shows "distinct ss \<and> (\<forall>s. s \<in> set ss \<longleftrightarrow> (\<exists>m \<in> set (scope_mentions plan). scope_of_mention m = Some s)) \<and>
    sorted (map (target_rank plan) ss)"
  using plan_execution_scopes_Inr [OF assms] plan_execution_scopes_sorted [OF assms] by auto

theorem scopes_distinct_and_ordered_witness:
  "sorted (map (target_rank sample_plan) [\<lparr>sc_target = ''t'', sc_backend = ''b1''\<rparr>,
     \<lparr>sc_target = ''t'', sc_backend = ''b2''\<rparr>, \<lparr>sc_target = ''u'', sc_backend = ''b2''\<rparr>])"
proof -
  have "plan_execution_scopes sample_plan = Inr [\<lparr>sc_target = ''t'', sc_backend = ''b1''\<rparr>,
     \<lparr>sc_target = ''t'', sc_backend = ''b2''\<rparr>, \<lparr>sc_target = ''u'', sc_backend = ''b2''\<rparr>]" by code_simp
  from scopes_distinct_and_ordered [OF this] show ?thesis by blast
qed



text \<open>
  An endpoint of a System link resolves through nested children to an endpoint that is no
  longer a System endpoint, and the path it returns leads from the plan to an existing
  descendant plan.
\<close>

theorem link_endpoint_resolved:
  assumes "resolve_link_endpoint plan value side [] = Inr (path, endpoint)"
  shows "(\<exists>target. plan_at plan path = Inr target) \<and>
    (\<exists>e. parse_system_endpoint endpoint = Inr e \<and> ep_kind e \<noteq> SYSTEM)"
  using resolve_link_endpoint_Inr [OF assms] by auto

definition nested_plan :: system_plan where
  "nested_plan = SystemExecutionPlan (blank_body ''top'')
     [PlannedSystemInstance 0 ''c'' ''rev'' [] [] []
       (SystemExecutionPlan ((blank_body ''child'')\<lparr>pl_bindings := \<lparr>bb_inputs = [],
          bb_outputs = [\<lparr>pb_ordinal = 0, pb_port = ''out'', pb_endpoint = ''g/n.p'', pb_type_id = ''t'',
             pb_endpoint_kind = GRAPH, pb_target = ''t'', pb_backend = ''b'', pb_metadata = [], pb_extensions = []\<rparr>],
          bb_parameters = [], bb_resources = []\<rparr>\<rparr>) [])]"

theorem link_endpoint_resolved_witness: "\<exists>target. plan_at nested_plan [''c''] = Inr target"
proof -
  have "resolve_link_endpoint nested_plan ''system:c.out'' SOURCE [] = Inr ([''c''], ''g/n.p'')" by code_simp
  from link_endpoint_resolved [OF this] show ?thesis by blast
qed

text \<open>
  When every level hands a route down with the comprehension of \<open>validate_plan\<close> and
  \<open>prepare_plan\<close>, the routes delivered to a scope of the plan at some path are exactly those
  whose remaining path is that path and that name the scope and the direction.
\<close>

lemma routes_delivered_at_path:
  "scope_routes (routes_at routes path) s d =
     map rl_binding (filter (\<lambda>r. rl_remaining r = path \<and> rl_target r = sc_target s \<and>
       rl_backend r = sc_backend s \<and> sl_direction (rl_binding r) = d) routes)"
  by (rule scope_routes_at)

end
