(* ===== verification/System_Status.thy ===== *)
theory System_Status
  imports Scopes
begin

text \<open>
  The data and the pure functions of \<open>src/nodrix/system/orchestration.py\<close>: prepared, running
  and observed executions of nested Systems, the aggregation of states, readiness and health,
  the failure context and the search for a path without observation. A running child and its
  handle are mutually recursive, as are statuses and prepared executions.
\<close>

section \<open>Executions\<close>

record ('w, 'p) prepared_scope =
  psc_scope :: execution_scope
  psc_backend :: "('w, 'p) backend"
  psc_prepared :: "'p prepared_execution"

datatype ('w, 'p) prepared_system =
    PreparedSystemExecution (ps_plan: system_plan) (ps_context: "execution_context option")
      (ps_inherited: "planned_child_binding list") (ps_links: "backend_system_link list")
      (ps_scopes: "('w, 'p) prepared_scope list") (ps_systems: "('w, 'p) prepared_child list")
and ('w, 'p) prepared_child =
    PreparedChild (pc_instance: planned_instance) (pc_execution: "('w, 'p) prepared_system")

text \<open>\<open>__post_init__\<close> of the two child records.\<close>

definition mk_PreparedChild :: "planned_instance \<Rightarrow> ('w, 'p) prepared_system \<Rightarrow> ('w, 'p) prepared_child result" where
  "mk_PreparedChild i x =
     (if ps_plan x \<noteq> in_plan i
      then Inl (ValueErr (''prepared child execution belongs to '' @ ''a different child System plan''))
      else Inr (PreparedChild i x))"

record ('w, 'p) running_scope =
  rsc_scope :: execution_scope
  rsc_backend :: "('w, 'p) backend"
  rsc_handle :: "'p execution_handle"

datatype ('w, 'p) system_handle =
    SystemExecutionHandle (sh_id: string) (sh_prepared: "('w, 'p) prepared_system")
      (sh_scopes: "('w, 'p) running_scope list") (sh_systems: "('w, 'p) running_child list")
and ('w, 'p) running_child =
    RunningChild (rc_instance: planned_instance) (rc_handle: "('w, 'p) system_handle")

definition mk_RunningChild :: "planned_instance \<Rightarrow> ('w, 'p) system_handle \<Rightarrow> ('w, 'p) running_child result" where
  "mk_RunningChild i h =
     (if ps_plan (sh_prepared h) \<noteq> in_plan i
      then Inl (ValueErr (''running child execution belongs to '' @ ''a different child System plan''))
      else Inr (RunningChild i h))"

definition pc_name :: "('w, 'p) prepared_child \<Rightarrow> string" where
  "pc_name c = in_name (pc_instance c)"

definition rc_name :: "('w, 'p) running_child \<Rightarrow> string" where
  "rc_name c = in_name (rc_instance c)"

section \<open>Statuses\<close>

record scope_status =
  sst_scope :: execution_scope
  sst_status :: backend_status

datatype system_status =
    SystemExecutionStatus (ss_execution_id: string) (ss_state: execution_state)
      (ss_scopes: "scope_status list") (ss_systems: "child_status list")
      (ss_message: "string option") (ss_details: mapping) (ss_observation: "observation option")
and child_status =
    ChildStatus (cs_instance: planned_instance) (cs_status: system_status)

definition cs_name :: "child_status \<Rightarrow> string" where
  "cs_name c = in_name (cs_instance c)"

definition ss_terminal :: "system_status \<Rightarrow> bool" where
  "ss_terminal s = state_terminal (ss_state s)"

definition ss_successful :: "system_status \<Rightarrow> bool" where
  "ss_successful s = state_successful (ss_state s)"

text \<open>The lookups \<open>child(name)\<close> of the three levels.\<close>

definition prepared_child_named :: "('w, 'p) prepared_system \<Rightarrow> string \<Rightarrow> ('w, 'p) prepared_child result" where
  "prepared_child_named x name = get_named pc_name (ps_systems x) name"

definition running_child_named :: "('w, 'p) system_handle \<Rightarrow> string \<Rightarrow> ('w, 'p) running_child result" where
  "running_child_named h name = get_named rc_name (sh_systems h) name"

definition status_child_named :: "system_status \<Rightarrow> string \<Rightarrow> child_status result" where
  "status_child_named s name = get_named cs_name (ss_systems s) name"

section \<open>Aggregation\<close>

definition all_states :: "scope_status list \<Rightarrow> child_status list \<Rightarrow> execution_state list" where
  "all_states statuses systems =
     map (\<lambda>x. bs_state (sst_status x)) statuses @ map (\<lambda>x. ss_state (cs_status x)) systems"

definition aggregate_state :: "scope_status list \<Rightarrow> child_status list \<Rightarrow> execution_state" where
  "aggregate_state statuses systems =
     (let states = all_states statuses systems in
      if states = [] then COMPLETED
      else if FAILED \<in> set states then FAILED
      else if list_all (\<lambda>s. s = COMPLETED) states then COMPLETED
      else if list_all (\<lambda>s. s = STOPPED \<or> s = COMPLETED) states then STOPPED
      else if STOPPING \<in> set states then STOPPING
      else if RUNNING \<in> set states then RUNNING
      else PREPARED)"

type_synonym observed_entry = "string \<times> observation option"

definition observation_entries :: "scope_status list \<Rightarrow> child_status list \<Rightarrow> observed_entry list" where
  "observation_entries statuses systems =
     map (\<lambda>x. (''scopes.'' @ scope_id (sst_scope x), bs_observation (sst_status x))) statuses @
     map (\<lambda>x. (''systems.'' @ cs_name x, ss_observation (cs_status x))) systems"

text \<open>\<open>any(observation is not None and p(observation) ...)\<close> and its dual.\<close>

definition some_observed :: "(observation \<Rightarrow> bool) \<Rightarrow> observed_entry \<Rightarrow> bool" where
  "some_observed p e = (case snd e of None \<Rightarrow> False | Some x \<Rightarrow> p x)"

definition missing_or :: "(observation \<Rightarrow> bool) \<Rightarrow> observed_entry \<Rightarrow> bool" where
  "missing_or p e = (case snd e of None \<Rightarrow> True | Some x \<Rightarrow> p x)"

definition aggregate_ready :: "observed_entry list \<Rightarrow> execution_state \<Rightarrow> bool option" where
  "aggregate_ready entries state =
     (if state \<in> {STOPPING, STOPPED, COMPLETED, FAILED} then Some False
      else if state \<noteq> RUNNING then None
      else if list_ex (some_observed (\<lambda>x. ob_ready x = Some False)) entries then Some False
      else if list_ex (missing_or (\<lambda>x. ob_ready x = None)) entries then None
      else Some True)"

definition aggregate_health :: "observed_entry list \<Rightarrow> execution_state \<Rightarrow> health_state" where
  "aggregate_health entries state =
     (if state = FAILED then UNHEALTHY
      else if list_ex (some_observed (\<lambda>x. ob_health x = UNHEALTHY)) entries then UNHEALTHY
      else if list_ex (some_observed (\<lambda>x. ob_health x = DEGRADED)) entries then DEGRADED
      else if list_ex (missing_or (\<lambda>x. ob_health x = UNKNOWN)) entries then UNKNOWN
      else HEALTHY_STATE)"

text \<open>The loops that look for the first entry to name: \<open>path: reason\<close>.\<close>

definition entry_reason :: "(observation \<Rightarrow> bool) \<Rightarrow> string \<Rightarrow> observed_entry list \<Rightarrow> string option" where
  "entry_reason p dflt entries =
     (case find (some_observed p) entries of
        None \<Rightarrow> None
      | Some e \<Rightarrow> Some (fst e @ '': '' @ or_else (Option.bind (snd e) ob_message) dflt))"

definition unknown_reason :: "observed_entry list \<Rightarrow> string option" where
  "unknown_reason entries =
     (case find (missing_or (\<lambda>x. ob_health x = UNKNOWN \<or> ob_ready x = None)) entries of
        None \<Rightarrow> None
      | Some (path, None) \<Rightarrow> Some (''observation unavailable: '' @ path)
      | Some (path, Some x) \<Rightarrow> Some (path @ '': '' @ or_else (ob_message x) ''observation is unknown''))"

text \<open>One guarded assignment \<open>if message is None and cond: message = ...\<close>.\<close>

definition fill_message :: "bool \<Rightarrow> string option \<Rightarrow> string option \<Rightarrow> string option" where
  "fill_message cond found message = (if message = None \<and> cond then found else message)"

definition aggregate_message ::
    "observed_entry list \<Rightarrow> execution_state \<Rightarrow> string option \<Rightarrow> bool option \<Rightarrow> health_state \<Rightarrow> string option" where
  "aggregate_message entries state failure_message ready health =
     (let m0 = (if state = FAILED \<and> failure_message \<noteq> None \<and> failure_message \<noteq> Some []
                then failure_message else None);
          m1 = fill_message (health = UNHEALTHY)
                 (entry_reason (\<lambda>x. ob_health x = UNHEALTHY) ''unhealthy'' entries) m0;
          m2 = fill_message (health = DEGRADED)
                 (entry_reason (\<lambda>x. ob_health x = DEGRADED) ''degraded'' entries) m1;
          m3 = fill_message (ready = Some False)
                 (entry_reason (\<lambda>x. ob_ready x = Some False) ''not ready'' entries) m2
      in fill_message (health = UNKNOWN \<or> ready = None) (unknown_reason entries) m3)"

definition aggregate_observation ::
    "scope_status list \<Rightarrow> child_status list \<Rightarrow> execution_state \<Rightarrow> string option \<Rightarrow> observation option" where
  "aggregate_observation statuses systems state failure_message =
     (let entries = observation_entries statuses systems in
      if list_all (\<lambda>e. snd e = None) entries then None
      else let ready = aggregate_ready entries state;
               health = aggregate_health entries state
           in Some \<lparr>ob_ready = ready, ob_health = health,
                    ob_message = aggregate_message entries state failure_message ready health\<rparr>)"

section \<open>Failures\<close>

definition failure_context :: "scope_status list \<Rightarrow> child_status list \<Rightarrow> string option \<times> mapping" where
  "failure_context statuses systems =
     (case find (\<lambda>x. bs_state (sst_status x) = FAILED) statuses of
        Some x \<Rightarrow>
          (bs_message (sst_status x),
           dict_update (bs_details (sst_status x))
             [(''failure_source'', PStr ''scope''), (''scope'', PStr (scope_id (sst_scope x))),
              (''backend'', PStr (bs_backend (sst_status x))),
              (''execution_id'', PStr (bs_execution_id (sst_status x)))])
      | None \<Rightarrow>
         (case find (\<lambda>x. ss_state (cs_status x) = FAILED) systems of
            Some x \<Rightarrow>
              (ss_message (cs_status x),
               dict_update (ss_details (cs_status x))
                 [(''failure_source'', PStr ''system''), (''system'', PStr (cs_name x)),
                  (''revision'', PStr (in_revision (cs_instance x))),
                  (''execution_id'', PStr (ss_execution_id (cs_status x)))])
          | None \<Rightarrow> (None, [])))"

definition failed_status :: "('w, 'p) running_scope \<Rightarrow> py_error \<Rightarrow> backend_status" where
  "failed_status r exc =
     \<lparr>bs_backend = sc_backend (rsc_scope r), bs_execution_id = eh_execution_id (rsc_handle r),
      bs_state = FAILED, bs_message = Some (exc_str exc),
      bs_details = [(''exception_type'', PStr (exc_type exc))], bs_observation = None, bs_timing = None\<rparr>"

definition failed_system_status :: "('w, 'p) system_handle \<Rightarrow> py_error \<Rightarrow> system_status" where
  "failed_system_status h exc =
     SystemExecutionStatus (sh_id h) FAILED [] [] (Some (exc_str exc))
       [(''exception_type'', PStr (exc_type exc))] None"

text \<open>The end of \<open>inspect\<close> and of \<open>stop\<close>: one status from those of the scopes and children.\<close>

definition combine_status :: "string \<Rightarrow> scope_status list \<Rightarrow> child_status list \<Rightarrow> system_status" where
  "combine_status execution_id statuses systems =
     (let state = aggregate_state statuses systems;
          (message, details) = (if state = FAILED then failure_context statuses systems else (None, []))
      in SystemExecutionStatus execution_id state statuses systems message details
           (aggregate_observation statuses systems state message))"

fun observation_gap :: "system_status \<Rightarrow> string \<Rightarrow> string option"
and children_gap :: "child_status list \<Rightarrow> string \<Rightarrow> string option" where
  "observation_gap (SystemExecutionStatus i st scopes systems m d ob) path =
     (if scopes = [] \<and> systems = [] then Some path
      else case find (\<lambda>s. bs_observation (sst_status s) = None) scopes of
        Some s \<Rightarrow> Some (path @ ''.scopes.'' @ scope_id (sst_scope s))
      | None \<Rightarrow> children_gap systems path)"
| "children_gap [] path = None"
| "children_gap (ChildStatus i st # rest) path =
     (case observation_gap st (path @ ''.systems.'' @ in_name i) of
        Some missing \<Rightarrow> Some missing
      | None \<Rightarrow> children_gap rest path)"

section \<open>Lemmas on aggregation\<close>

lemma aggregate_failed_iff: "aggregate_state ss cs = FAILED \<longleftrightarrow> FAILED \<in> set (all_states ss cs)"
  by (auto simp: aggregate_state_def Let_def)

lemma aggregate_completed_iff: "aggregate_state ss cs = COMPLETED \<longleftrightarrow> set (all_states ss cs) \<subseteq> {COMPLETED}"
  by (auto simp: aggregate_state_def Let_def list_all_iff)

lemma aggregate_successful_iff:
  "state_successful (aggregate_state ss cs) \<longleftrightarrow> (\<forall>s \<in> set (all_states ss cs). state_successful s)"
  by (auto simp: aggregate_state_def Let_def list_all_iff state_successful_def)

lemma aggregate_terminal_iff:
  "state_terminal (aggregate_state ss cs) \<longleftrightarrow>
     FAILED \<in> set (all_states ss cs) \<or> (\<forall>s \<in> set (all_states ss cs). state_successful s)"
  by (auto simp: aggregate_state_def Let_def list_all_iff state_successful_def state_terminal_def)

lemma aggregate_state_set:
  assumes "set (all_states ss cs) = set (all_states ts ds)"
  shows "aggregate_state ss cs = aggregate_state ts ds"
proof -
  have "all_states ss cs = [] \<longleftrightarrow> all_states ts ds = []" using assms by (metis set_empty)
  then show ?thesis unfolding aggregate_state_def Let_def list_all_iff by (simp only: assms)
qed

lemma entry_ready:
  "\<not> some_observed (\<lambda>x. ob_ready x = Some False) e \<and> \<not> missing_or (\<lambda>x. ob_ready x = None) e \<longleftrightarrow>
     (\<exists>x. snd e = Some x \<and> ob_ready x = Some True)"
proof (cases "snd e")
  case (Some x)
  then show ?thesis by (cases "ob_ready x") (simp_all add: some_observed_def missing_or_def)
qed (simp add: some_observed_def missing_or_def)

lemma entry_healthy:
  "\<not> some_observed (\<lambda>x. ob_health x = UNHEALTHY) e \<and> \<not> some_observed (\<lambda>x. ob_health x = DEGRADED) e \<and>
     \<not> missing_or (\<lambda>x. ob_health x = UNKNOWN) e \<longleftrightarrow>
     (\<exists>x. snd e = Some x \<and> ob_health x = HEALTHY_STATE)"
proof (cases "snd e")
  case (Some x)
  then show ?thesis by (cases "ob_health x") (simp_all add: some_observed_def missing_or_def)
qed (simp add: some_observed_def missing_or_def)

lemma ready_iff:
  "aggregate_ready es st = Some True \<longleftrightarrow>
     st = RUNNING \<and> (\<forall>e \<in> set es. \<exists>x. snd e = Some x \<and> ob_ready x = Some True)"
  unfolding entry_ready [symmetric] by (auto simp: aggregate_ready_def list_ex_iff)

lemma healthy_iff:
  "aggregate_health es st = HEALTHY_STATE \<longleftrightarrow>
     st \<noteq> FAILED \<and> (\<forall>e \<in> set es. \<exists>x. snd e = Some x \<and> ob_health x = HEALTHY_STATE)"
  unfolding entry_healthy [symmetric] by (auto simp: aggregate_health_def list_ex_iff)

lemma find_ex: "x \<in> set xs \<Longrightarrow> P x \<Longrightarrow> \<exists>y. find P xs = Some y \<and> y \<in> set xs \<and> P y"
  by (induction xs) auto

lemma entry_reason_Some: "list_ex (some_observed p) es \<Longrightarrow> entry_reason p d es \<noteq> None"
proof -
  assume "list_ex (some_observed p) es"
  then obtain y where "find (some_observed p) es = Some y"
    using find_ex [where P = "some_observed p" and xs = es] unfolding list_ex_iff by blast
  then show ?thesis by (simp add: entry_reason_def)
qed

lemma unknown_reason_Some:
  assumes "list_ex (missing_or (\<lambda>x. ob_health x = UNKNOWN \<or> ob_ready x = None)) es"
  shows "unknown_reason es \<noteq> None"
proof -
  obtain y where "find (missing_or (\<lambda>x. ob_health x = UNKNOWN \<or> ob_ready x = None)) es = Some y"
    using assms find_ex [where P = "missing_or (\<lambda>x. ob_health x = UNKNOWN \<or> ob_ready x = None)" and xs = es]
    unfolding list_ex_iff by blast
  then show ?thesis by (cases y; cases "snd y") (simp_all add: unknown_reason_def)
qed

lemma fill_message_None: "fill_message c f m = None \<longleftrightarrow> m = None \<and> (c \<longrightarrow> f = None)"
  by (auto simp: fill_message_def)

lemma missing_or_mono: "missing_or p e \<Longrightarrow> (\<And>x. p x \<Longrightarrow> q x) \<Longrightarrow> missing_or q e"
  by (auto simp: missing_or_def split: option.splits)

lemma running_explained:
  assumes "aggregate_ready es RUNNING \<noteq> Some True \<or> aggregate_health es RUNNING \<noteq> HEALTHY_STATE"
  shows "aggregate_message es RUNNING fm (aggregate_ready es RUNNING) (aggregate_health es RUNNING) \<noteq> None"
proof
  let ?h = "aggregate_health es RUNNING" and ?r = "aggregate_ready es RUNNING"
  assume "aggregate_message es RUNNING fm ?r ?h = None"
  then have none: "?h = UNHEALTHY \<longrightarrow> entry_reason (\<lambda>x. ob_health x = UNHEALTHY) ''unhealthy'' es = None"
      "?h = DEGRADED \<longrightarrow> entry_reason (\<lambda>x. ob_health x = DEGRADED) ''degraded'' es = None"
      "?r = Some False \<longrightarrow> entry_reason (\<lambda>x. ob_ready x = Some False) ''not ready'' es = None"
      "?h = UNKNOWN \<or> ?r = None \<longrightarrow> unknown_reason es = None"
    by (auto simp: aggregate_message_def Let_def fill_message_None)
  have "?h = UNHEALTHY \<longrightarrow> list_ex (some_observed (\<lambda>x. ob_health x = UNHEALTHY)) es"
    and "?h = DEGRADED \<longrightarrow> list_ex (some_observed (\<lambda>x. ob_health x = DEGRADED)) es"
    and "?r = Some False \<longrightarrow> list_ex (some_observed (\<lambda>x. ob_ready x = Some False)) es"
    by (simp_all add: aggregate_health_def aggregate_ready_def)
  then have "?h \<noteq> UNHEALTHY" "?h \<noteq> DEGRADED" "?r \<noteq> Some False"
    using none(1-3) entry_reason_Some by blast+
  moreover have "?h \<noteq> UNKNOWN \<and> ?r \<noteq> None"
  proof (rule ccontr)
    assume "\<not> (?h \<noteq> UNKNOWN \<and> ?r \<noteq> None)"
    then have "list_ex (missing_or (\<lambda>x. ob_health x = UNKNOWN)) es \<or> list_ex (missing_or (\<lambda>x. ob_ready x = None)) es"
      by (auto simp: aggregate_health_def aggregate_ready_def split: if_splits)
    then have "list_ex (missing_or (\<lambda>x. ob_health x = UNKNOWN \<or> ob_ready x = None)) es"
      by (auto simp: list_ex_iff intro: missing_or_mono)
    with unknown_reason_Some none(4) \<open>\<not> (?h \<noteq> UNKNOWN \<and> ?r \<noteq> None)\<close> show False by blast
  qed
  ultimately have "?h = HEALTHY_STATE" "?r = Some True"
    by (metis health_state.exhaust) (metis \<open>?h \<noteq> UNKNOWN \<and> ?r \<noteq> None\<close> \<open>?r \<noteq> Some False\<close> not_None_eq)
  with assms show False by blast
qed

lemma aggregate_observation_Some:
  assumes "aggregate_observation ss cs st fm = Some x"
  shows "ob_ready x = aggregate_ready (observation_entries ss cs) st \<and>
    ob_health x = aggregate_health (observation_entries ss cs) st \<and>
    ob_message x = aggregate_message (observation_entries ss cs) st fm (ob_ready x) (ob_health x)"
  using assms by (auto simp: aggregate_observation_def Let_def split: if_splits)

section \<open>Lemmas on gaps and failures\<close>

text \<open>Every leaf scope below a status reports an observation, and no System is empty.\<close>

fun observed_all :: "system_status \<Rightarrow> bool"
and observed_child :: "child_status \<Rightarrow> bool" where
  "observed_all (SystemExecutionStatus i st scopes systems m d ob) =
     ((scopes \<noteq> [] \<or> systems \<noteq> []) \<and> list_all (\<lambda>s. bs_observation (sst_status s) \<noteq> None) scopes \<and>
      list_all observed_child systems)"
| "observed_child (ChildStatus i st) = observed_all st"

lemma gap_iff:
  "observation_gap s path = None \<longleftrightarrow> observed_all s"
  "children_gap cs path = None \<longleftrightarrow> list_all observed_child cs"
proof (induction s path and cs path rule: observation_gap_children_gap.induct)
  case (1 i st scopes systems m d ob path)
  show ?case
  proof (cases "find (\<lambda>s. bs_observation (sst_status s) = None) scopes")
    case None
    then have "list_all (\<lambda>s. bs_observation (sst_status s) \<noteq> None) scopes"
      by (auto simp: find_None_iff list_all_iff)
    with 1 None show ?thesis by (cases "scopes = [] \<and> systems = []") auto
  next
    case (Some s)
    then have "s \<in> set scopes" "bs_observation (sst_status s) = None" by (auto simp: find_Some_iff)
    with Some show ?thesis by (auto simp: list_all_iff)
  qed
next
  case (3 i st rest path)
  then show ?case by (cases "observation_gap st (path @ ''.systems.'' @ in_name i)") auto
qed simp

lemma combine_status_simps [simp]:
  "ss_execution_id (combine_status i ss cs) = i" "ss_state (combine_status i ss cs) = aggregate_state ss cs"
  "ss_scopes (combine_status i ss cs) = ss" "ss_systems (combine_status i ss cs) = cs"
  by (simp_all add: combine_status_def Let_def split: prod.split)

lemma combine_status_failure:
  assumes "aggregate_state ss cs = FAILED"
  shows "ss_message (combine_status i ss cs) = fst (failure_context ss cs)"
    and "ss_details (combine_status i ss cs) = snd (failure_context ss cs)"
  using assms by (simp_all add: combine_status_def Let_def split: prod.split)

lemma failure_context_scope:
  assumes "s \<in> set ss" and "bs_state (sst_status s) = FAILED"
  shows "\<exists>x xs ys. ss = xs @ x # ys \<and> bs_state (sst_status x) = FAILED \<and>
    (\<forall>y \<in> set xs. bs_state (sst_status y) \<noteq> FAILED) \<and>
    fst (failure_context ss cs) = bs_message (sst_status x) \<and>
    map_of (snd (failure_context ss cs)) ''scope'' = Some (PStr (scope_id (sst_scope x)))"
proof -
  from find_ex [where P = "\<lambda>x. bs_state (sst_status x) = FAILED", OF assms] obtain x
    where x: "find (\<lambda>x. bs_state (sst_status x) = FAILED) ss = Some x" by blast
  then obtain i where i: "i < length ss" "x = ss ! i" "bs_state (sst_status x) = FAILED"
    and first: "\<forall>j < i. bs_state (sst_status (ss ! j)) \<noteq> FAILED" by (auto simp: find_Some_iff)
  have "ss = take i ss @ x # drop (Suc i) ss" using i by (simp add: id_take_nth_drop)
  moreover have "\<forall>y \<in> set (take i ss). bs_state (sst_status y) \<noteq> FAILED"
    using first i(1) by (auto simp: in_set_conv_nth)
  moreover have "fst (failure_context ss cs) = bs_message (sst_status x)"
    by (simp add: failure_context_def x)
  moreover have "map_of (snd (failure_context ss cs)) ''scope'' = Some (PStr (scope_id (sst_scope x)))"
    by (simp add: failure_context_def x map_of_dict_update)
  ultimately show ?thesis using i(3) by blast
qed

lemma failure_context_system:
  assumes "\<forall>s \<in> set ss. bs_state (sst_status s) \<noteq> FAILED" and "c \<in> set cs" and "ss_state (cs_status c) = FAILED"
  shows "\<exists>x \<in> set cs. ss_state (cs_status x) = FAILED \<and>
    fst (failure_context ss cs) = ss_message (cs_status x) \<and>
    map_of (snd (failure_context ss cs)) ''system'' = Some (PStr (cs_name x))"
proof -
  have "find (\<lambda>x. bs_state (sst_status x) = FAILED) ss = None" using assms(1) by (auto simp: find_None_iff)
  moreover from find_ex [where P = "\<lambda>x. ss_state (cs_status x) = FAILED", OF assms(2,3)] obtain x
    where "find (\<lambda>x. ss_state (cs_status x) = FAILED) cs = Some x" "x \<in> set cs" "ss_state (cs_status x) = FAILED" by blast
  ultimately show ?thesis by (intro bexI [of _ x]) (simp_all add: failure_context_def map_of_dict_update)
qed

section \<open>Sample executions\<close>

definition sample_prepared_scope :: "system_plan \<Rightarrow> string \<Rightarrow> bool \<Rightarrow> (nat, unit) prepared_scope" where
  "sample_prepared_scope plan b ok =
     \<lparr>psc_scope = \<lparr>sc_target = ''t'', sc_backend = b\<rparr>, psc_backend = sample_backend b ok,
      psc_prepared = sample_prepared_execution plan b\<rparr>"

definition sample_running_scope :: "system_plan \<Rightarrow> string \<Rightarrow> (nat, unit) running_scope" where
  "sample_running_scope plan b =
     \<lparr>rsc_scope = \<lparr>sc_target = ''t'', sc_backend = b\<rparr>, rsc_backend = sample_backend b True,
      rsc_handle = sample_handle plan b\<rparr>"

definition sample_instance :: "string \<Rightarrow> system_plan \<Rightarrow> planned_instance" where
  "sample_instance name plan = PlannedSystemInstance 0 name ''rev'' [] [] [] plan"

definition sample_system :: "(nat, unit) prepared_scope list \<Rightarrow> (nat, unit) prepared_system" where
  "sample_system scopes =
     PreparedSystemExecution (SystemExecutionPlan (blank_body ''demo'') []) None [] [] scopes []"

definition sample_system_handle :: "string list \<Rightarrow> (nat, unit) system_handle" where
  "sample_system_handle bs =
     SystemExecutionHandle ''system-abc'' (sample_system [])
       (map (sample_running_scope (SystemExecutionPlan (blank_body ''demo'') [])) bs) []"

lemmas sample_system_defs = sample_prepared_scope_def sample_running_scope_def sample_instance_def
  sample_system_def sample_system_handle_def

section \<open>Properties\<close>

text \<open>
  The state of a System is failed exactly when a part failed, completed exactly when every
  part completed, and successful exactly when every part is; it depends only on the set of
  the states below, not on their order or number.
\<close>

theorem aggregate_state_spec:
  "(aggregate_state ss cs = FAILED \<longleftrightarrow> FAILED \<in> set (all_states ss cs)) \<and>
   (aggregate_state ss cs = COMPLETED \<longleftrightarrow> set (all_states ss cs) \<subseteq> {COMPLETED}) \<and>
   (state_successful (aggregate_state ss cs) \<longleftrightarrow> (\<forall>s \<in> set (all_states ss cs). state_successful s)) \<and>
   (set (all_states ss cs) = set (all_states ts ds) \<longrightarrow> aggregate_state ss cs = aggregate_state ts ds)"
  using aggregate_failed_iff aggregate_completed_iff aggregate_successful_iff aggregate_state_set by blast

definition observed_scope :: "execution_state \<Rightarrow> observation option \<Rightarrow> scope_status" where
  "observed_scope st ob =
     \<lparr>sst_scope = \<lparr>sc_target = ''t'', sc_backend = ''b''\<rparr>, sst_status = sample_status ''b'' ''x'' st ob\<rparr>"

theorem aggregate_state_spec_witness:
  "aggregate_state [observed_scope RUNNING None, observed_scope RUNNING None, observed_scope STOPPED None] [] =
   aggregate_state [observed_scope STOPPED None, observed_scope RUNNING None] []"
proof -
  have "set (all_states [observed_scope RUNNING None, observed_scope RUNNING None, observed_scope STOPPED None] []) =
      set (all_states [observed_scope STOPPED None, observed_scope RUNNING None] [])"
    by (auto simp: all_states_def observed_scope_def sample_status_def)
  with aggregate_state_spec show ?thesis by blast
qed

text \<open>
  A System is reported ready only when it runs and every part reports ready, and healthy
  only when it has not failed and every part reports healthy: a part without an observation is
  never hidden. A running System that is not ready and healthy comes with a message.
\<close>

theorem aggregate_observation_spec:
  assumes "aggregate_observation ss cs st fm = Some x"
  shows "(ob_ready x = Some True \<longleftrightarrow>
      st = RUNNING \<and> (\<forall>e \<in> set (observation_entries ss cs). \<exists>y. snd e = Some y \<and> ob_ready y = Some True)) \<and>
    (ob_health x = HEALTHY_STATE \<longleftrightarrow>
      st \<noteq> FAILED \<and> (\<forall>e \<in> set (observation_entries ss cs). \<exists>y. snd e = Some y \<and> ob_health y = HEALTHY_STATE)) \<and>
    (st = RUNNING \<and> (ob_ready x \<noteq> Some True \<or> ob_health x \<noteq> HEALTHY_STATE) \<longrightarrow> ob_message x \<noteq> None)"
  using aggregate_observation_Some [OF assms] ready_iff [of "observation_entries ss cs" st]
    healthy_iff [of "observation_entries ss cs" st] running_explained [of "observation_entries ss cs" fm] by auto

theorem aggregate_observation_spec_witness:
  "\<exists>x. aggregate_observation [observed_scope RUNNING (Some \<lparr>ob_ready = Some True, ob_health = HEALTHY_STATE, ob_message = None\<rparr>),
         observed_scope RUNNING None] [] RUNNING None = Some x \<and> ob_message x \<noteq> None"
proof -
  let ?ss = "[observed_scope RUNNING (Some \<lparr>ob_ready = Some True, ob_health = HEALTHY_STATE, ob_message = None\<rparr>),
         observed_scope RUNNING None]"
  have "case aggregate_observation ?ss [] RUNNING None of None \<Rightarrow> False | Some x \<Rightarrow> ob_ready x = None" by code_simp
  then obtain x where "aggregate_observation ?ss [] RUNNING None = Some x" "ob_ready x = None"
    by (cases "aggregate_observation ?ss [] RUNNING None") auto
  with aggregate_observation_spec [OF this(1)] show ?thesis by auto
qed

text \<open>
  \<open>_observation_gap\<close> returns nothing exactly when every scope at every depth reports an
  observation and no System of the tree is empty.
\<close>

lemma observation_gap_complete:
  "observation_gap s path = None \<longleftrightarrow> observed_all s"
  by (rule gap_iff)

text \<open>
  The message and the details of a failed System are those of its first failed scope, and
  of its first failed child when no scope failed.
\<close>

theorem failure_is_attributed:
  assumes "ss_state (combine_status i ss cs) = FAILED"
  shows "(\<exists>s xs ys. ss = xs @ s # ys \<and> bs_state (sst_status s) = FAILED \<and>
        (\<forall>y \<in> set xs. bs_state (sst_status y) \<noteq> FAILED) \<and>
        ss_message (combine_status i ss cs) = bs_message (sst_status s) \<and>
        map_of (ss_details (combine_status i ss cs)) ''scope'' = Some (PStr (scope_id (sst_scope s)))) \<or>
    ((\<forall>s \<in> set ss. bs_state (sst_status s) \<noteq> FAILED) \<and>
     (\<exists>c \<in> set cs. ss_state (cs_status c) = FAILED \<and>
        ss_message (combine_status i ss cs) = ss_message (cs_status c) \<and>
        map_of (ss_details (combine_status i ss cs)) ''system'' = Some (PStr (cs_name c))))"
proof -
  have agg: "aggregate_state ss cs = FAILED" using assms by simp
  note msg = combine_status_failure [OF agg, of i]
  show ?thesis
  proof (cases "\<exists>s \<in> set ss. bs_state (sst_status s) = FAILED")
    case True
    then obtain s where "s \<in> set ss" "bs_state (sst_status s) = FAILED" by blast
    from failure_context_scope [OF this, of cs] show ?thesis unfolding msg by blast
  next
    case False
    then obtain c where "c \<in> set cs" "ss_state (cs_status c) = FAILED"
      using agg by (auto simp: aggregate_failed_iff all_states_def)
    with failure_context_system [OF _ this] False show ?thesis unfolding msg by blast
  qed
qed

theorem failure_is_attributed_witness:
  "map_of (ss_details (combine_status ''i'' [observed_scope RUNNING None, observed_scope FAILED None] [])) ''scope'' =
     Some (PStr ''t:b'')"
proof -
  let ?ss = "[observed_scope RUNNING None, observed_scope FAILED None]"
  have "ss_state (combine_status ''i'' ?ss []) = FAILED" by code_simp
  from failure_is_attributed [OF this] obtain s where "s \<in> set ?ss"
    "map_of (ss_details (combine_status ''i'' ?ss [])) ''scope'' = Some (PStr (scope_id (sst_scope s)))"
    by (metis empty_iff in_set_conv_decomp list.set(1))
  moreover have "\<forall>s \<in> set ?ss. scope_id (sst_scope s) = ''t:b''" by (simp add: observed_scope_def scope_id_def)
  ultimately show ?thesis by simp
qed

end
