(* ===== verification/Orchestration_Plan.thy ===== *)
theory Orchestration_Plan
  imports System_Status
begin

text \<open>
  \<open>SystemOrchestrator\<close> up to the prepared execution: its constructor, \<open>validate_plan\<close> and
  \<open>prepare_plan\<close> of \<open>src/nodrix/system/orchestration.py\<close>. Both methods recurse into the plans
  of child Systems, handing each child the routes that start with its name.
\<close>

section \<open>The orchestrator\<close>

record ('w, 'p) orchestrator =
  oc_bindings :: "(execution_scope \<times> ('w, 'p) backend) list"
  oc_clock :: "('w, rat) act"
  oc_wait :: "rat \<Rightarrow> ('w, unit) act"
  oc_poll_interval :: rat
  oc_uuid_hex :: "('w, string) act"
  oc_digest :: "execution_context \<Rightarrow> string"
  oc_format_g :: "rat \<Rightarrow> string"

text \<open>
  A binding key is a scope or a tuple of strings. \<open>clock\<close>, \<open>wait\<close>, the random hexadecimal
  digits of \<open>uuid4\<close>, the context digest and the float format \<open>g\<close> are parameters.
\<close>

datatype raw_scope = KeyScope execution_scope | KeyTuple "string list"

definition normalize_key :: "raw_scope \<Rightarrow> execution_scope result" where
  "normalize_key k = (case k of
     KeyScope s \<Rightarrow> Inr s
   | KeyTuple xs \<Rightarrow> (case xs of
        [t, b] \<Rightarrow> mk_ExecutionScope t b
      | _ \<Rightarrow> Inl (ValueErr ''orchestrator binding keys must be (target, backend) pairs'')))"

definition mk_bindings ::
    "(raw_scope \<times> ('w, 'p) backend) list \<Rightarrow> (execution_scope \<times> ('w, 'p) backend) list result" where
  "mk_bindings raw = efold (\<lambda>acc (k, b). ebind (normalize_key k) (\<lambda>s.
     if s \<in> fst ` set acc then Inl (ValueErr (''duplicate orchestrator binding for '' @ scope_id s))
     else Inr (acc @ [(s, b)]))) [] raw"

definition mk_orchestrator ::
    "(raw_scope \<times> ('w, 'p) backend) list \<Rightarrow> ('w, rat) act \<Rightarrow> (rat \<Rightarrow> ('w, unit) act) \<Rightarrow> pyfloat \<Rightarrow>
     ('w, string) act \<Rightarrow> (execution_context \<Rightarrow> string) \<Rightarrow> (rat \<Rightarrow> string) \<Rightarrow>
     ('w, 'p) orchestrator result" where
  "mk_orchestrator raw clock wait interval uuid digest g =
     (let bad = ValueErr ''dependency_poll_interval_seconds must be finite and positive'' in
      case interval of
        Finite q \<Rightarrow> if q \<le> 0 then Inl bad else
          ebind (mk_bindings raw) (\<lambda>bs.
            Inr \<lparr>oc_bindings = bs, oc_clock = clock, oc_wait = wait, oc_poll_interval = q,
                 oc_uuid_hex = uuid, oc_digest = digest, oc_format_g = g\<rparr>)
      | _ \<Rightarrow> Inl bad)"

section \<open>Reports\<close>

record orchestration_diagnostic =
  od_level :: level
  od_code :: string
  od_message :: string
  od_scope :: "execution_scope option"
  od_path :: string
  od_source :: string

record orchestration_report =
  or_scopes :: "execution_scope list"
  or_diagnostics :: "orchestration_diagnostic list"

definition orch_errors :: "orchestration_report \<Rightarrow> orchestration_diagnostic list" where
  "orch_errors r = filter (\<lambda>d. od_level d = LV_ERROR) (or_diagnostics r)"

definition orch_warnings :: "orchestration_report \<Rightarrow> orchestration_diagnostic list" where
  "orch_warnings r = filter (\<lambda>d. od_level d = LV_WARNING) (or_diagnostics r)"

definition orch_valid :: "orchestration_report \<Rightarrow> bool" where
  "orch_valid r = (orch_errors r = [])"

definition OrchestrationValidationError :: "orchestration_report \<Rightarrow> py_error" where
  "OrchestrationValidationError r =
     (let detail = join_on ''; '' (map (\<lambda>d. strip (od_code d @ '' '' @
            (case od_scope d of Some s \<Rightarrow> scope_id s | None \<Rightarrow> ''-'') @ '' '' @ od_path d @ '': '' @ od_message d))
            (orch_errors r))
      in CodedErr ''OrchestrationValidationError'' ''ORCH100'' ''''
           (or_else (Some detail) ''orchestration validation failed''))"

definition orch_raise_for_errors :: "orchestration_report \<Rightarrow> unit result" where
  "orch_raise_for_errors r = (if orch_errors r \<noteq> [] then Inl (OrchestrationValidationError r) else Inr ())"

definition orch_diag :: "string \<Rightarrow> execution_scope option \<Rightarrow> string \<Rightarrow> string \<Rightarrow> orchestration_diagnostic" where
  "orch_diag code scope path msg =
     \<lparr>od_level = LV_ERROR, od_code = code, od_message = msg, od_scope = scope, od_path = path,
      od_source = ''orchestrator''\<rparr>"

definition from_backend :: "execution_scope \<Rightarrow> backend_diagnostic \<Rightarrow> orchestration_diagnostic" where
  "from_backend scope d =
     \<lparr>od_level = bd_level d, od_code = bd_code d, od_message = bd_message d, od_scope = Some scope,
      od_path = bd_path d, od_source = ''backend''\<rparr>"

definition under_child :: "string \<Rightarrow> orchestration_diagnostic \<Rightarrow> orchestration_diagnostic" where
  "under_child name d =
     (let prefix = ''systems.'' @ name in
      d\<lparr>od_path := if od_path d = [] then prefix else prefix @ ''.'' @ od_path d\<rparr>)"

section \<open>validate_plan\<close>

definition scope_context ::
    "('w, 'p) orchestrator \<Rightarrow> system_plan \<Rightarrow> execution_context option \<Rightarrow> planned_child_binding list \<Rightarrow>
     routed_link list \<Rightarrow> execution_scope \<Rightarrow> backend_context result" where
  "scope_context env plan ctx inherited routes scope =
     backend_context_for_scope (oc_digest env) plan scope ctx inherited
       (scope_routes routes scope INBOUND) (scope_routes routes scope OUTBOUND)"

text \<open>One iteration of the loop over the scopes.\<close>

definition scope_diagnostics ::
    "('w, 'p) orchestrator \<Rightarrow> system_plan \<Rightarrow> execution_context option \<Rightarrow> planned_child_binding list \<Rightarrow>
     routed_link list \<Rightarrow> execution_scope \<Rightarrow> ('w, orchestration_diagnostic list) act" where
  "scope_diagnostics env plan ctx inherited routes scope =
     (case map_of (oc_bindings env) scope of
        None \<Rightarrow> act_return [orch_diag ''ORCH101'' (Some scope) ''bindings''
                   (''no execution backend is bound to this '' @ ''target/backend scope'')]
      | Some b \<Rightarrow>
          if be_id b \<noteq> sc_backend scope
          then act_return [orch_diag ''ORCH102'' (Some scope) ''bindings.backend_id''
                 (''bound backend advertises '' @ repr_str (be_id b) @ ''; '' @
                  ''plan requires '' @ repr_str (sc_backend scope))]
          else act_bind (act_lift (scope_context env plan ctx inherited routes scope)) (\<lambda>c.
               act_bind (backend_validate b c) (\<lambda>r.
               act_return (map (from_backend scope) (br_diagnostics r)))))"

fun validate_plan ::
    "('w, 'p) orchestrator \<Rightarrow> system_plan \<Rightarrow> execution_context option \<Rightarrow> planned_child_binding list \<Rightarrow>
     routed_link list \<Rightarrow> string list \<Rightarrow> ('w, orchestration_report) act" where
  "validate_plan env plan ctx inherited routes path =
     act_bind (act_lift (plan_execution_scopes plan)) (\<lambda>scopes.
     act_bind (act_lift (plan_system_link_routes plan path)) (\<lambda>own.
       (case validate_context_binding (oc_digest env) (pl_execution_context_sha256 (plan_body plan)) ctx of
          Inl e \<Rightarrow> act_return \<lparr>or_scopes = scopes,
                     or_diagnostics = [orch_diag ''ORCH103'' None ''execution_context'' (exc_str e)]\<rparr>
        | Inr _ \<Rightarrow>
            act_bind (act_seq (map (scope_diagnostics env plan ctx inherited (routes @ own)) scopes)) (\<lambda>dss.
            act_bind (act_seq (map (\<lambda>child.
                act_bind (act_lift (child_context ctx (in_name child))) (\<lambda>cctx.
                act_bind (validate_plan env (in_plan child) cctx (in_resource_bindings child)
                            (child_routes (routes @ own) (in_name child)) (path @ [in_name child])) (\<lambda>r.
                act_return (map (under_child (in_name child)) (or_diagnostics r)))))
              (plan_systems plan))) (\<lambda>css.
            act_return \<lparr>or_scopes = scopes, or_diagnostics = concat dss @ concat css\<rparr>)))))"

declare validate_plan.simps [simp del]

section \<open>prepare_plan\<close>

definition prepare_scope ::
    "('w, 'p) orchestrator \<Rightarrow> system_plan \<Rightarrow> execution_context option \<Rightarrow> planned_child_binding list \<Rightarrow>
     routed_link list \<Rightarrow> execution_scope \<Rightarrow> ('w, ('w, 'p) prepared_scope) act" where
  "prepare_scope env plan ctx inherited routes scope =
     (case map_of (oc_bindings env) scope of
        None \<Rightarrow> act_raise (KeyErr (scope_id scope))
      | Some b \<Rightarrow>
          act_bind (act_lift (scope_context env plan ctx inherited routes scope)) (\<lambda>c.
          act_bind (act_try (backend_prepare b c) (\<lambda>exc.
            act_raise (orch_error ''ORCH201'' (scope_id scope)
              (''prepare failed for scope '' @ scope_id scope @ '': '' @ exc_str exc)))) (\<lambda>p.
          act_return \<lparr>psc_scope = scope, psc_backend = b, psc_prepared = p\<rparr>)))"

fun prepare_plan ::
    "('w, 'p) orchestrator \<Rightarrow> system_plan \<Rightarrow> execution_context option \<Rightarrow> planned_child_binding list \<Rightarrow>
     routed_link list \<Rightarrow> string list \<Rightarrow> ('w, ('w, 'p) prepared_system) act" where
  "prepare_plan env plan ctx inherited routes path =
     act_bind (act_lift (plan_system_link_routes plan path)) (\<lambda>own.
     act_bind (validate_plan env plan ctx inherited routes path) (\<lambda>report.
     act_bind (act_lift (orch_raise_for_errors report)) (\<lambda>_.
     act_bind (act_seq (map (prepare_scope env plan ctx inherited (routes @ own)) (or_scopes report))) (\<lambda>scopes.
     act_bind (act_seq (map (\<lambda>child.
         act_bind (act_lift (child_context ctx (in_name child))) (\<lambda>cctx.
         act_bind (act_try
             (prepare_plan env (in_plan child) cctx (in_resource_bindings child)
                (child_routes (routes @ own) (in_name child)) (path @ [in_name child]))
             (\<lambda>exc. act_raise (orch_error ''ORCH203'' (''systems.'' @ in_name child)
                (''prepare failed for child System '' @ repr_str (in_name child) @ '': '' @ exc_str exc)))) (\<lambda>x.
         act_lift (mk_PreparedChild child x))))
       (plan_systems plan))) (\<lambda>systems.
     act_return (PreparedSystemExecution plan ctx inherited (map rl_binding (routes @ own)) scopes systems))))))"

declare prepare_plan.simps [simp del]

section \<open>Lemmas on validation\<close>

text \<open>Every scope of a plan and of its descendants is bound to a backend that bears its name.\<close>

fun plan_bound :: "('w, 'p) orchestrator \<Rightarrow> system_plan \<Rightarrow> bool" where
  "plan_bound env plan =
     ((case plan_execution_scopes plan of
         Inl _ \<Rightarrow> False
       | Inr ss \<Rightarrow> list_all (\<lambda>s. case map_of (oc_bindings env) s of
                      None \<Rightarrow> False | Some b \<Rightarrow> be_id b = sc_backend s) ss) \<and>
      list_all (\<lambda>child. plan_bound env (in_plan child)) (plan_systems plan))"

declare plan_bound.simps [simp del]

lemma orch_valid_iff: "orch_valid r \<longleftrightarrow> (\<forall>d \<in> set (or_diagnostics r). od_level d \<noteq> LV_ERROR)"
  by (auto simp: orch_valid_def orch_errors_def filter_empty_conv)

lemma act_seq_map_results:
  assumes "act_seq (map f xs) s = (Inr ys, t)"
  shows "list_all2 (\<lambda>x y. \<exists>u v. f x u = (Inr y, v)) xs ys"
  using act_seq_results [OF assms] by (simp add: list_all2_map1)

lemma scope_diagnostics_bound:
  assumes "scope_diagnostics env plan ctx inh routes s u = (Inr ds, v)"
    and "\<forall>d \<in> set ds. od_level d \<noteq> LV_ERROR"
  shows "case map_of (oc_bindings env) s of None \<Rightarrow> False | Some b \<Rightarrow> be_id b = sc_backend s"
  using assms by (auto simp: scope_diagnostics_def orch_diag_def split: option.splits if_splits)

lemma validate_plan_Inr:
  assumes "validate_plan env plan ctx inh routes path s = (Inr r, t)"
  obtains (unbound) "or_diagnostics r = [orch_diag ''ORCH103'' None ''execution_context''
      (exc_str (projl (validate_context_binding (oc_digest env) (pl_execution_context_sha256 (plan_body plan)) ctx)))]"
    and "plan_execution_scopes plan = Inr (or_scopes r)"
  | (bound) own dss css where "plan_execution_scopes plan = Inr (or_scopes r)"
    and "plan_system_link_routes plan path = Inr own"
    and "list_all2 (\<lambda>sc ds. \<exists>u v. scope_diagnostics env plan ctx inh (routes @ own) sc u = (Inr ds, v)) (or_scopes r) dss"
    and "list_all2 (\<lambda>child ds. \<exists>cctx q u v. child_context ctx (in_name child) = Inr cctx \<and>
           validate_plan env (in_plan child) cctx (in_resource_bindings child)
             (child_routes (routes @ own) (in_name child)) (path @ [in_name child]) u = (Inr q, v) \<and>
           ds = map (under_child (in_name child)) (or_diagnostics q)) (plan_systems plan) css"
    and "or_diagnostics r = concat dss @ concat css"
    and "pl_execution_context_sha256 (plan_body plan) = map_option (oc_digest env) ctx"
proof -
  note step = assms [unfolded validate_plan.simps [of env plan]]
  show ?thesis
  proof (cases "validate_context_binding (oc_digest env) (pl_execution_context_sha256 (plan_body plan)) ctx")
    case (Inl e)
    with step show ?thesis by (intro unbound) (auto simp: act_bind_Inr)
  next
    case (Inr w)
    with step obtain own dss css u v where
      "plan_execution_scopes plan = Inr (or_scopes r)" "plan_system_link_routes plan path = Inr own"
      "act_seq (map (scope_diagnostics env plan ctx inh (routes @ own)) (or_scopes r)) s = (Inr dss, u)"
      "act_seq (map (\<lambda>child.
                act_bind (act_lift (child_context ctx (in_name child))) (\<lambda>cctx.
                act_bind (validate_plan env (in_plan child) cctx (in_resource_bindings child)
                            (child_routes (routes @ own) (in_name child)) (path @ [in_name child])) (\<lambda>r.
                act_return (map (under_child (in_name child)) (or_diagnostics r)))))
              (plan_systems plan)) u = (Inr css, v)"
      "or_diagnostics r = concat dss @ concat css"
      by (auto simp: act_bind_Inr)
    moreover have "pl_execution_context_sha256 (plan_body plan) = map_option (oc_digest env) ctx"
      using Inr validate_context_binding_Inr by blast
    ultimately show ?thesis
      by (intro bound [of own dss css] act_seq_map_results list_all2_mono [OF act_seq_map_results [where xs = "plan_systems plan"]])
         (assumption | auto simp: act_bind_Inr)+
  qed
qed

lemma validate_plan_bound:
  "validate_plan env plan ctx inh routes path s = (Inr r, t) \<Longrightarrow> orch_valid r \<Longrightarrow> plan_bound env plan"
proof (induction plan arbitrary: ctx inh routes path s r t rule: measure_induct_rule [where f = size])
  case (less plan)
  from less.prems(1) show ?case
  proof (cases rule: validate_plan_Inr)
    case unbound
    with less.prems(2) show ?thesis by (simp add: orch_valid_iff orch_diag_def)
  next
    case (bound own dss css)
    have clean: "\<forall>d \<in> set (concat dss @ concat css). od_level d \<noteq> LV_ERROR"
      using less.prems(2) bound(5) by (simp add: orch_valid_iff)
    have "list_all (\<lambda>s. case map_of (oc_bindings env) s of None \<Rightarrow> False | Some b \<Rightarrow> be_id b = sc_backend s) (or_scopes r)"
      unfolding list_all_length
    proof (intro allI impI)
      fix i assume i: "i < length (or_scopes r)"
      have len: "i < length dss" using bound(3) i list_all2_lengthD by fastforce
      from list_all2_nthD [OF bound(3) i] obtain u v where
        "scope_diagnostics env plan ctx inh (routes @ own) (or_scopes r ! i) u = (Inr (dss ! i), v)" by blast
      moreover have "\<forall>d \<in> set (dss ! i). od_level d \<noteq> LV_ERROR"
        using clean nth_mem [OF len] by auto
      ultimately show "case map_of (oc_bindings env) (or_scopes r ! i) of None \<Rightarrow> False | Some b \<Rightarrow> be_id b = sc_backend (or_scopes r ! i)"
        by (rule scope_diagnostics_bound)
    qed
    moreover have "list_all (\<lambda>child. plan_bound env (in_plan child)) (plan_systems plan)"
      unfolding list_all_length
    proof (intro allI impI)
      fix i assume i: "i < length (plan_systems plan)"
      let ?child = "plan_systems plan ! i"
      have len: "i < length css" using bound(4) i list_all2_lengthD by fastforce
      from list_all2_nthD [OF bound(4) i] obtain cctx q u v where
        q: "validate_plan env (in_plan ?child) cctx (in_resource_bindings ?child)
             (child_routes (routes @ own) (in_name ?child)) (path @ [in_name ?child]) u = (Inr q, v)"
        and ds: "css ! i = map (under_child (in_name ?child)) (or_diagnostics q)"
        by blast
      have "\<forall>d \<in> set (css ! i). od_level d \<noteq> LV_ERROR"
        using clean nth_mem [OF len] by auto
      then have "orch_valid q" by (simp add: ds orch_valid_iff under_child_def Let_def)
      moreover have "size (in_plan ?child) < size plan" using i by (intro size_in_plan nth_mem)
      ultimately show "plan_bound env (in_plan ?child)" using less.IH q by blast
    qed
    ultimately show ?thesis using bound(1) by (simp add: plan_bound.simps [of env plan])
  qed
qed

section \<open>Lemmas on preparation\<close>

text \<open>A prepared scope and a prepared System that fit their plan.\<close>

definition prepared_scope_ok :: "system_plan \<Rightarrow> ('w, 'p) prepared_scope \<Rightarrow> bool" where
  "prepared_scope_ok plan x =
     (be_id (psc_backend x) = sc_backend (psc_scope x) \<and>
      pe_backend (psc_prepared x) = sc_backend (psc_scope x) \<and>
      bc_backend (pe_context (psc_prepared x)) = sc_backend (psc_scope x) \<and>
      plan_sha (pe_context (psc_prepared x)) = pl_system_sha256 (plan_body plan))"

lemma size_pc_execution [termination_simp]: "c \<in> set (ps_systems x) \<Longrightarrow> size (pc_execution c) < size x"
proof -
  assume c: "c \<in> set (ps_systems x)"
  have "size (pc_execution c) < size c" by (cases c) simp
  moreover have "size c \<le> size_list size (ps_systems x)" using c by (simp add: size_list_estimation')
  ultimately show ?thesis by (cases x) simp
qed

fun prepared_ok :: "('w, 'p) prepared_system \<Rightarrow> bool" where
  "prepared_ok x =
     (plan_execution_scopes (ps_plan x) = Inr (map psc_scope (ps_scopes x)) \<and>
      list_all (prepared_scope_ok (ps_plan x)) (ps_scopes x) \<and>
      map pc_instance (ps_systems x) = plan_systems (ps_plan x) \<and>
      list_all (\<lambda>c. ps_plan (pc_execution c) = in_plan (pc_instance c)) (ps_systems x) \<and>
      list_all (\<lambda>c. prepared_ok (pc_execution c)) (ps_systems x))"

declare prepared_ok.simps [simp del]

lemma act_try_raise_Inr [simp]:
  "act_try m (\<lambda>e. act_raise (f e)) s = (Inr x, t) \<longleftrightarrow> m s = (Inr x, t)"
  by (auto simp: act_try_def split: prod.splits sum.splits)

lemma prepare_scope_Inr:
  assumes "prepare_scope env plan ctx inh routes sc s = (Inr x, t)"
  shows "\<exists>c u. psc_scope x = sc \<and> map_of (oc_bindings env) sc = Some (psc_backend x) \<and>
    scope_context env plan ctx inh routes sc = Inr c \<and>
    backend_prepare (psc_backend x) c u = (Inr (psc_prepared x), t)"
  using assms by (auto simp: prepare_scope_def act_bind_Inr split: option.splits)

lemma prepare_scope_ok:
  assumes "prepare_scope env plan ctx inh routes sc s = (Inr x, t)"
    and "case map_of (oc_bindings env) sc of None \<Rightarrow> False | Some b \<Rightarrow> be_id b = sc_backend sc"
  shows "psc_scope x = sc \<and> prepared_scope_ok plan x"
proof -
  from prepare_scope_Inr [OF assms(1)] obtain c u where x: "psc_scope x = sc"
    "map_of (oc_bindings env) sc = Some (psc_backend x)" "scope_context env plan ctx inh routes sc = Inr c"
    "backend_prepare (psc_backend x) c u = (Inr (psc_prepared x), t)" by blast
  then have "bc_plan c = plan" by (auto simp: scope_context_def dest: context_for_scope_Inr)
  with backend_prepare_Inr [OF x(4)] assms(2) x(1,2) show ?thesis
    by (auto simp: prepared_scope_ok_def plan_sha_def)
qed

lemma validate_plan_scopes:
  "validate_plan env plan ctx inh routes path s = (Inr r, t) \<Longrightarrow> plan_execution_scopes plan = Inr (or_scopes r)"
  by (erule validate_plan_Inr) blast+

lemma prepare_plan_Inr:
  assumes "prepare_plan env plan ctx inh routes path s = (Inr x, t)"
  obtains own r u where "plan_system_link_routes plan path = Inr own"
    and "validate_plan env plan ctx inh routes path s = (Inr r, u)" and "orch_valid r"
    and "ps_plan x = plan" and "ps_links x = map rl_binding (routes @ own)" and "ps_context x = ctx"
    and "list_all2 (\<lambda>sc y. \<exists>u v. prepare_scope env plan ctx inh (routes @ own) sc u = (Inr y, v)) (or_scopes r) (ps_scopes x)"
    and "list_all2 (\<lambda>child c. \<exists>cctx u v. child_context ctx (in_name child) = Inr cctx \<and>
           prepare_plan env (in_plan child) cctx (in_resource_bindings child)
             (child_routes (routes @ own) (in_name child)) (path @ [in_name child]) u = (Inr (pc_execution c), v) \<and>
           mk_PreparedChild child (pc_execution c) = Inr c) (plan_systems plan) (ps_systems x)"
proof -
  have mk: "mk_PreparedChild child y = Inr c \<Longrightarrow> y = pc_execution c" for child y and c :: "('a, 'b) prepared_child"
    by (auto simp: mk_PreparedChild_def split: if_splits)
  from assms [unfolded prepare_plan.simps [of env plan]] show ?thesis
    by (auto simp: act_bind_Inr orch_raise_for_errors_def split: if_splits
             intro!: that dest!: act_seq_map_results elim!: list_all2_mono)
       (auto simp: orch_valid_def dest: mk)
qed

lemma prepare_plan_ok:
  "prepare_plan env plan ctx inh routes path s = (Inr x, t) \<Longrightarrow> ps_plan x = plan \<and> prepared_ok x"
proof (induction plan arbitrary: ctx inh routes path s x t rule: measure_induct_rule [where f = size])
  case (less plan)
  from less.prems obtain own r u where val: "validate_plan env plan ctx inh routes path s = (Inr r, u)" "orch_valid r"
    and plan: "ps_plan x = plan"
    and scopes: "list_all2 (\<lambda>sc y. \<exists>u v. prepare_scope env plan ctx inh (routes @ own) sc u = (Inr y, v)) (or_scopes r) (ps_scopes x)"
    and systems: "list_all2 (\<lambda>child c. \<exists>cctx u v. child_context ctx (in_name child) = Inr cctx \<and>
           prepare_plan env (in_plan child) cctx (in_resource_bindings child)
             (child_routes (routes @ own) (in_name child)) (path @ [in_name child]) u = (Inr (pc_execution c), v) \<and>
           mk_PreparedChild child (pc_execution c) = Inr c) (plan_systems plan) (ps_systems x)"
    by (rule prepare_plan_Inr)
  note sc = validate_plan_scopes [OF val(1)]
  have "list_all (\<lambda>s. case map_of (oc_bindings env) s of None \<Rightarrow> False | Some b \<Rightarrow> be_id b = sc_backend s) (or_scopes r)"
    using validate_plan_bound [OF val] sc by (simp add: plan_bound.simps [of env plan])
  with scopes have "list_all2 (\<lambda>sc y. psc_scope y = sc \<and> prepared_scope_ok plan y) (or_scopes r) (ps_scopes x)"
    unfolding list_all2_conv_all_nth list_all_length using prepare_scope_ok by metis
  then have "map psc_scope (ps_scopes x) = or_scopes r" "list_all (prepared_scope_ok plan) (ps_scopes x)"
    by (auto simp: list_all2_conv_all_nth list_all_length intro!: nth_equalityI)
  moreover have "list_all2 (\<lambda>child c. pc_instance c = child \<and> ps_plan (pc_execution c) = in_plan child \<and>
      prepared_ok (pc_execution c)) (plan_systems plan) (ps_systems x)"
  proof (rule list_all2_all_nthI)
    show "length (plan_systems plan) = length (ps_systems x)" using systems by (rule list_all2_lengthD)
    fix i assume i: "i < length (plan_systems plan)"
    let ?c = "ps_systems x ! i" and ?child = "plan_systems plan ! i"
    have "size (in_plan ?child) < size plan" using i by (intro size_in_plan nth_mem)
    moreover from list_all2_nthD [OF systems i] obtain cctx u v where
      "prepare_plan env (in_plan ?child) cctx (in_resource_bindings ?child)
             (child_routes (routes @ own) (in_name ?child)) (path @ [in_name ?child]) u = (Inr (pc_execution ?c), v)"
      and "mk_PreparedChild ?child (pc_execution ?c) = Inr ?c" by blast
    ultimately show "pc_instance ?c = ?child \<and> ps_plan (pc_execution ?c) = in_plan ?child \<and> prepared_ok (pc_execution ?c)"
      using less.IH by (auto simp: mk_PreparedChild_def split: if_splits) (metis prepared_child.sel(1))
  qed
  then have "map pc_instance (ps_systems x) = plan_systems plan"
    and "list_all (\<lambda>c. ps_plan (pc_execution c) = in_plan (pc_instance c)) (ps_systems x)"
    and "list_all (\<lambda>c. prepared_ok (pc_execution c)) (ps_systems x)"
    by (auto simp: list_all2_conv_all_nth list_all_length intro!: nth_equalityI)
  ultimately show ?case using sc plan by (simp add: prepared_ok.simps [of x])
qed

section \<open>Code equations\<close>

text \<open>
  For evaluation the recursive calls stay inside constants that wait for a constructor.
\<close>

definition validate_child where
  "validate_child env ctx routes path child =
     act_bind (act_lift (child_context ctx (in_name child))) (\<lambda>cctx.
     act_bind (validate_plan env (in_plan child) cctx (in_resource_bindings child)
                 (child_routes routes (in_name child)) (path @ [in_name child])) (\<lambda>r.
     act_return (map (under_child (in_name child)) (or_diagnostics r))))"

lemma validate_child_code [code]:
  "validate_child env ctx routes path (PlannedSystemInstance i n v ps rs rbs plan) =
     act_bind (act_lift (child_context ctx n)) (\<lambda>cctx.
     act_bind (validate_plan env plan cctx rbs (child_routes routes n) (path @ [n])) (\<lambda>r.
     act_return (map (under_child n) (or_diagnostics r))))"
  by (simp add: validate_child_def)

lemma validate_plan_code [code]:
  "validate_plan env plan ctx inherited routes path =
     act_bind (act_lift (plan_execution_scopes plan)) (\<lambda>scopes.
     act_bind (act_lift (plan_system_link_routes plan path)) (\<lambda>own.
       (case validate_context_binding (oc_digest env) (pl_execution_context_sha256 (plan_body plan)) ctx of
          Inl e \<Rightarrow> act_return \<lparr>or_scopes = scopes,
                     or_diagnostics = [orch_diag ''ORCH103'' None ''execution_context'' (exc_str e)]\<rparr>
        | Inr _ \<Rightarrow>
            act_bind (act_seq (map (scope_diagnostics env plan ctx inherited (routes @ own)) scopes)) (\<lambda>dss.
            act_bind (act_seq (map (validate_child env ctx (routes @ own) path) (plan_systems plan))) (\<lambda>css.
            act_return \<lparr>or_scopes = scopes, or_diagnostics = concat dss @ concat css\<rparr>)))))"
  unfolding validate_plan.simps [of env plan] validate_child_def ..

definition prepare_child where
  "prepare_child env ctx routes path child =
     act_bind (act_lift (child_context ctx (in_name child))) (\<lambda>cctx.
     act_bind (act_try
         (prepare_plan env (in_plan child) cctx (in_resource_bindings child)
            (child_routes routes (in_name child)) (path @ [in_name child]))
         (\<lambda>exc. act_raise (orch_error ''ORCH203'' (''systems.'' @ in_name child)
            (''prepare failed for child System '' @ repr_str (in_name child) @ '': '' @ exc_str exc)))) (\<lambda>x.
     act_lift (mk_PreparedChild child x)))"

lemma prepare_child_code [code]:
  "prepare_child env ctx routes path (PlannedSystemInstance i n v ps rs rbs plan) =
     act_bind (act_lift (child_context ctx n)) (\<lambda>cctx.
     act_bind (act_try (prepare_plan env plan cctx rbs (child_routes routes n) (path @ [n]))
         (\<lambda>exc. act_raise (orch_error ''ORCH203'' (''systems.'' @ n)
            (''prepare failed for child System '' @ repr_str n @ '': '' @ exc_str exc)))) (\<lambda>x.
     act_lift (mk_PreparedChild (PlannedSystemInstance i n v ps rs rbs plan) x)))"
  by (simp add: prepare_child_def)

lemma prepare_plan_code [code]:
  "prepare_plan env plan ctx inherited routes path =
     act_bind (act_lift (plan_system_link_routes plan path)) (\<lambda>own.
     act_bind (validate_plan env plan ctx inherited routes path) (\<lambda>report.
     act_bind (act_lift (orch_raise_for_errors report)) (\<lambda>_.
     act_bind (act_seq (map (prepare_scope env plan ctx inherited (routes @ own)) (or_scopes report))) (\<lambda>scopes.
     act_bind (act_seq (map (prepare_child env ctx (routes @ own) path) (plan_systems plan))) (\<lambda>systems.
     act_return (PreparedSystemExecution plan ctx inherited (map rl_binding (routes @ own)) scopes systems))))))"
  unfolding prepare_plan.simps [of env plan] prepare_child_def ..

section \<open>A sample orchestrator\<close>

definition sample_orchestrator :: "(execution_scope \<times> (nat, unit) backend) list \<Rightarrow> (nat, unit) orchestrator" where
  "sample_orchestrator bs =
     \<lparr>oc_bindings = bs, oc_clock = (\<lambda>w. (Inr (of_nat w), w + 1)), oc_wait = (\<lambda>d w. (Inr (), w + 1)),
      oc_poll_interval = 1, oc_uuid_hex = act_return ''abc'', oc_digest = (\<lambda>_. ''digest''),
      oc_format_g = (\<lambda>_. ''1'')\<rparr>"

section \<open>Properties\<close>

text \<open>
  A plan whose validation reports no error has, for each of its scopes and for each scope of
  every descendant System, a bound backend whose identifier is the one the plan asks for.
\<close>

theorem valid_plan_is_bound:
  assumes "validate_plan env plan ctx inh routes path s = (Inr r, t)" and "orch_valid r"
  shows "plan_bound env plan"
  using assms by (rule validate_plan_bound)

definition sample_bindings :: "(execution_scope \<times> (nat, unit) backend) list" where
  "sample_bindings =
     [(\<lparr>sc_target = ''t'', sc_backend = ''b''\<rparr>, sample_backend ''b'' True)]"

definition one_node_plan :: system_plan where
  "one_node_plan = SystemExecutionPlan ((blank_body ''demo'')
     \<lparr>pl_targets := [sample_target ''t'' ''b''], pl_graphs := [sample_graph [sample_node ''n'' ''t'' ''b'']]\<rparr>) []"

theorem valid_plan_is_bound_witness: "plan_bound (sample_orchestrator sample_bindings) one_node_plan"
proof -
  have "case fst (validate_plan (sample_orchestrator sample_bindings) one_node_plan None [] [] [] 0) of
      Inl _ \<Rightarrow> False | Inr r \<Rightarrow> orch_valid r" by code_simp
  then obtain r where "fst (validate_plan (sample_orchestrator sample_bindings) one_node_plan None [] [] [] 0) = Inr r"
    and "orch_valid r" using case_Inr by blast
  with valid_plan_is_bound show ?thesis by (metis prod.collapse)
qed

text \<open>
  C9: \<open>prepare_plan\<close> returns a prepared System of the shape of the plan: one prepared scope for
  each scope of the plan, in order, bound to the backend of that scope and prepared for that
  plan, and one prepared child for each child instance, at every depth.
\<close>

theorem prepared_system_fits_plan:
  assumes "prepare_plan env plan ctx inh routes path s = (Inr x, t)"
  shows "ps_plan x = plan \<and> prepared_ok x"
  using assms by (rule prepare_plan_ok)

theorem prepared_system_fits_plan_witness:
  "\<exists>x. ps_plan x = one_node_plan \<and> prepared_ok x \<and>
     fst (prepare_plan (sample_orchestrator sample_bindings) one_node_plan None [] [] [] 0) = Inr x"
proof -
  have "case fst (prepare_plan (sample_orchestrator sample_bindings) one_node_plan None [] [] [] 0) of
      Inl _ \<Rightarrow> False | Inr x \<Rightarrow> True" by code_simp
  then obtain x where "fst (prepare_plan (sample_orchestrator sample_bindings) one_node_plan None [] [] [] 0) = Inr x"
    using case_Inr by blast
  with prepared_system_fits_plan show ?thesis by (metis prod.collapse)
qed

end
