(* ===== verification/Orchestrator.thy ===== *)
theory Orchestrator
  imports Orchestration_Plan
begin

text \<open>
  The running half of \<open>SystemOrchestrator\<close> (\<open>src/nodrix/system/orchestration.py\<close>):
  \<open>start\<close> with its rollback and its dependency scheduler, \<open>inspect\<close> and \<open>stop\<close>.

  The state of these methods is a \<open>machine\<close>: the world the backends act on, and a trace of
  the calls the orchestrator makes, which no operation reads. \<open>stop\<close> and \<open>inspect\<close> recurse
  into running children, \<open>start\<close> into prepared children. The scheduler's \<open>while pending\<close>
  loop waits for other processes, so it is a \<open>partial_function\<close>: a start that never returns
  is \<open>None\<close>. Clock readings and timeouts of dependencies are exact rationals: the rounding
  of float sums is not modelled.
\<close>

section \<open>Calls\<close>

datatype event_kind = CHILD_STARTED | DEPENDENCY_WAITING | DEPENDENCY_SATISFIED | DEPENDENCY_FAILED

record startup_event =
  ev_event :: event_kind
  ev_execution_id :: string
  ev_system :: string
  ev_child :: string
  ev_child_execution_id :: "string option"
  ev_dependency_ordinal :: "nat option"
  ev_requires :: "string option"
  ev_condition :: "dependency_condition option"
  ev_timeout_seconds :: "rat option"
  ev_elapsed_seconds :: "rat option"
  ev_message :: "string option"

text \<open>\<open>SystemStartupEvent.__post_init__\<close>; the \<open>isinstance\<close> checks hold by typing.\<close>

definition event_text :: "string \<Rightarrow> string \<Rightarrow> string result" where
  "event_text field value =
     (if strip value = [] then Inl (ValueErr (field @ '' must be a non-empty string'')) else Inr (strip value))"

definition event_optional :: "string \<Rightarrow> string option \<Rightarrow> unit result" where
  "event_optional field value =
     (case value of
        Some v \<Rightarrow> if strip v = []
                  then Inl (ValueErr (field @ '' must be a non-empty string or None'')) else Inr ()
      | None \<Rightarrow> Inr ())"

definition mk_startup_event :: "startup_event \<Rightarrow> startup_event result" where
  "mk_startup_event e =
     ebind (event_text ''execution_id'' (ev_execution_id e)) (\<lambda>x.
     ebind (event_text ''system'' (ev_system e)) (\<lambda>s.
     ebind (event_text ''child'' (ev_child e)) (\<lambda>c.
     ebind (event_optional ''child_execution_id'' (ev_child_execution_id e)) (\<lambda>_.
     ebind (event_optional ''message'' (ev_message e)) (\<lambda>_.
       let norm = e\<lparr>ev_execution_id := x, ev_system := s, ev_child := c\<rparr> in
       if ev_event e = CHILD_STARTED
       then (if ev_child_execution_id e = None
             then Inl (ValueErr ''child_started events require child_execution_id'') else Inr norm)
       else if ev_dependency_ordinal e = None
       then Inl (ValueErr ''dependency_ordinal must be a non-negative integer'')
       else if strip (or_else (ev_requires e) []) = []
       then Inl (ValueErr ''requires must be a non-empty string'')
       else if ev_condition e = None
       then Inl (TypeErr ''condition must be a SystemDependencyCondition'')
       else case ev_timeout_seconds e of
         None \<Rightarrow> Inl (ValueErr ''timeout_seconds must be finite and positive'')
       | Some t \<Rightarrow> if t \<le> 0 then Inl (ValueErr ''timeout_seconds must be finite and positive'')
         else case ev_elapsed_seconds e of
           None \<Rightarrow> Inl (ValueErr ''elapsed_seconds must be finite and non-negative'')
         | Some d \<Rightarrow> if d < 0 then Inl (ValueErr ''elapsed_seconds must be finite and non-negative'')
                     else Inr norm)))))"

datatype 'p call =
    CStart execution_scope "'p execution_handle"
  | CStop execution_scope "'p execution_handle"
  | CInspect execution_scope "'p execution_handle"
  | CEvent startup_event
  | CWait rat

record ('w, 'p) machine =
  mc_world :: 'w
  mc_trace :: "'p call list"

definition on_world :: "('w, 'a) act \<Rightarrow> (('w, 'p) machine, 'a) act" where
  "on_world m = (\<lambda>s. case m (mc_world s) of (r, w) \<Rightarrow> (r, s\<lparr>mc_world := w\<rparr>))"

definition note_call :: "'p call \<Rightarrow> (('w, 'p) machine, unit) act" where
  "note_call c = act_modify (\<lambda>s. s\<lparr>mc_trace := mc_trace s @ [c]\<rparr>)"

definition call_start :: "('w, 'p) prepared_scope \<Rightarrow> (('w, 'p) machine, 'p execution_handle) act" where
  "call_start x =
     act_bind (on_world (backend_start (psc_backend x) (psc_prepared x))) (\<lambda>h.
     act_bind (note_call (CStart (psc_scope x) h)) (\<lambda>_. act_return h))"

definition call_stop :: "('w, 'p) running_scope \<Rightarrow> pyfloat option \<Rightarrow> (('w, 'p) machine, backend_status) act" where
  "call_stop r timeout =
     act_bind (note_call (CStop (rsc_scope r) (rsc_handle r))) (\<lambda>_.
     on_world (backend_stop (rsc_backend r) (rsc_handle r) timeout))"

definition call_inspect :: "('w, 'p) running_scope \<Rightarrow> (('w, 'p) machine, backend_status) act" where
  "call_inspect r =
     act_bind (note_call (CInspect (rsc_scope r) (rsc_handle r))) (\<lambda>_.
     on_world (backend_inspect (rsc_backend r) (rsc_handle r)))"

section \<open>inspect\<close>

lemma size_rc_handle [termination_simp]: "c \<in> set (sh_systems h) \<Longrightarrow> size (rc_handle c) < size h"
proof -
  assume c: "c \<in> set (sh_systems h)"
  have "size (rc_handle c) < size c" by (cases c) simp
  moreover have "size c \<le> size_list size (sh_systems h)" using c by (simp add: size_list_estimation')
  ultimately show ?thesis by (cases h) simp
qed

definition inspect_scope :: "('w, 'p) running_scope \<Rightarrow> (('w, 'p) machine, scope_status) act" where
  "inspect_scope r =
     act_bind (act_try (call_inspect r) (\<lambda>exc. act_return (failed_status r exc))) (\<lambda>st.
     act_return \<lparr>sst_scope = rsc_scope r, sst_status = st\<rparr>)"

fun inspect_system :: "('w, 'p) system_handle \<Rightarrow> (('w, 'p) machine, system_status) act" where
  "inspect_system h =
     act_bind (act_seq (map inspect_scope (sh_scopes h))) (\<lambda>statuses.
     act_bind (act_seq (map (\<lambda>c.
         act_bind (act_try (inspect_system (rc_handle c)) (\<lambda>exc. act_return (failed_system_status (rc_handle c) exc)))
           (\<lambda>st. act_return (ChildStatus (rc_instance c) st)))
       (sh_systems h))) (\<lambda>systems.
     act_return (combine_status (sh_id h) statuses systems)))"

declare inspect_system.simps [simp del]

section \<open>stop\<close>

definition stop_scope ::
    "pyfloat option \<Rightarrow> ('w, 'p) running_scope \<Rightarrow> (('w, 'p) machine, execution_scope \<times> backend_status) act" where
  "stop_scope timeout r =
     act_bind (act_try (call_stop r timeout) (\<lambda>exc. act_return (failed_status r exc))) (\<lambda>st.
     act_return (rsc_scope r, st))"

text \<open>\<open>by_scope[running.scope]\<close>: of two entries for one scope the later one stays.\<close>

definition stopped_statuses ::
    "('w, 'p) running_scope list \<Rightarrow> (execution_scope \<times> backend_status) list \<Rightarrow> scope_status list result" where
  "stopped_statuses scopes by_scope =
     emap (\<lambda>r. case map_of (rev by_scope) (rsc_scope r) of
                 None \<Rightarrow> Inl (KeyErr (scope_id (rsc_scope r)))
               | Some st \<Rightarrow> Inr \<lparr>sst_scope = rsc_scope r, sst_status = st\<rparr>) scopes"

fun stop_system :: "('w, 'p) system_handle \<Rightarrow> pyfloat option \<Rightarrow> (('w, 'p) machine, system_status) act" where
  "stop_system h timeout =
     (if timeout_negative timeout then act_raise (ValueErr ''timeout_seconds cannot be negative'')
      else
        act_bind (act_seq (map (\<lambda>c.
            act_bind (act_try (stop_system (rc_handle c) timeout)
                        (\<lambda>exc. act_return (failed_system_status (rc_handle c) exc)))
              (\<lambda>st. act_return (ChildStatus (rc_instance c) st)))
          (rev (sh_systems h)))) (\<lambda>stopped_reverse.
        act_bind (act_seq (map (stop_scope timeout) (rev (sh_scopes h)))) (\<lambda>by_scope.
        act_bind (act_lift (stopped_statuses (sh_scopes h) by_scope)) (\<lambda>statuses.
        act_return (combine_status (sh_id h) statuses (rev stopped_reverse))))))"

declare stop_system.simps [simp del]

section \<open>Dependencies\<close>

definition dependency_error :: "string \<Rightarrow> planned_dependency \<Rightarrow> string \<Rightarrow> py_error" where
  "dependency_error code d msg = orch_error code (''dependencies.'' @ nat_digits (dp_ordinal d)) msg"

definition dependency_condition_satisfied :: "planned_dependency \<Rightarrow> system_status \<Rightarrow> bool result" where
  "dependency_condition_satisfied d st =
     (let context = ''prerequisite '' @ repr_str (dp_requires d) @ '' for child System '' @ repr_str (dp_system d);
          cond = repr_str (condition_value (dp_condition d)) in
      if ss_state st = FAILED
      then Inl (dependency_error ''ORCH302'' d (context @ '' failed before satisfying '' @ cond @ '': '' @
                  or_else (ss_message st) ''execution failed''))
      else if dp_condition d = STARTED then Inr True
      else case observation_gap st (''systems.'' @ dp_requires d) of
        Some missing \<Rightarrow>
          Inl (dependency_error ''ORCH304'' d (context @ '' cannot satisfy '' @ cond @ '': '' @
                 ''observation is unsupported at '' @ missing))
      | None \<Rightarrow> (case ss_observation st of
          None \<Rightarrow> Inl (dependency_error ''ORCH304'' d (context @ '' cannot satisfy '' @ cond @ '': '' @
                         ''observation is unsupported''))
        | Some ob \<Rightarrow>
            if ob_health ob = UNHEALTHY
            then Inl (dependency_error ''ORCH303'' d (context @ '' became unhealthy before satisfying '' @ cond @ '': '' @
                        or_else (ob_message ob) ''execution is unhealthy''))
            else let satisfied = (if dp_condition d = READY then ob_ready ob = Some True
                                  else ob_health ob = HEALTHY_STATE) in
              if satisfied then Inr True
              else if ss_terminal st
              then Inl (dependency_error ''ORCH302'' d (context @ '' reached terminal state '' @
                          repr_str (state_value (ss_state st)) @ '' before satisfying '' @ cond))
              else Inr False))"

section \<open>start\<close>

text \<open>
  The local variables of one \<open>start\<close> call. \<open>su_cache\<close>, \<open>su_unresolved\<close> and \<open>su_progress\<close>
  are those of one round of the scheduler.
\<close>

record ('w, 'p) startup =
  su_machine :: "('w, 'p) machine"
  su_scopes :: "('w, 'p) running_scope list"
  su_systems :: "('w, 'p) running_child list"
  su_pending :: "string list"
  su_by_name :: "(string \<times> ('w, 'p) running_child) list"
  su_started_at :: "(string \<times> rat) list"
  su_waiting :: "nat list"
  su_satisfied :: "nat list"
  su_cache :: "(string \<times> system_status) list"
  su_unresolved :: "rat list"
  su_progress :: bool

definition on_machine :: "(('w, 'p) machine, 'a) act \<Rightarrow> (('w, 'p) startup, 'a) act" where
  "on_machine m = (\<lambda>s. case m (su_machine s) of (r, t) \<Rightarrow> (r, s\<lparr>su_machine := t\<rparr>))"

definition on_machine_p :: "(('w, 'p) machine, 'a) pact \<Rightarrow> (('w, 'p) startup, 'a) pact" where
  "on_machine_p m = (\<lambda>s. case m (su_machine s) of
     None \<Rightarrow> None | Some (r, t) \<Rightarrow> Some (r, s\<lparr>su_machine := t\<rparr>))"

record ('w, 'p) start_env =
  se_orchestrator :: "('w, 'p) orchestrator"
  se_timeout :: "pyfloat option"
  se_sink :: "(startup_event \<Rightarrow> ('w, unit) act) option"
  se_execution_id :: string
  se_system :: string

definition read_clock :: "('w, 'p) start_env \<Rightarrow> (('w, 'p) startup, rat) act" where
  "read_clock env = on_machine (on_world (oc_clock (se_orchestrator env)))"

definition emit_event :: "('w, 'p) start_env \<Rightarrow> startup_event \<Rightarrow> (('w, 'p) startup, unit) act" where
  "emit_event env raw =
     act_bind (act_lift (mk_startup_event raw)) (\<lambda>e.
     act_bind (on_machine (note_call (CEvent e))) (\<lambda>_.
     case se_sink env of
       None \<Rightarrow> act_return ()
     | Some sink \<Rightarrow> on_machine (on_world (sink e))))"

definition child_started_event :: "('w, 'p) start_env \<Rightarrow> string \<Rightarrow> string \<Rightarrow> startup_event" where
  "child_started_event env child child_id =
     \<lparr>ev_event = CHILD_STARTED, ev_execution_id = se_execution_id env, ev_system = se_system env,
      ev_child = child, ev_child_execution_id = Some child_id, ev_dependency_ordinal = None,
      ev_requires = None, ev_condition = None, ev_timeout_seconds = None, ev_elapsed_seconds = None,
      ev_message = None\<rparr>"

definition dependency_elapsed :: "('w, 'p) start_env \<Rightarrow> planned_dependency \<Rightarrow> (('w, 'p) startup, rat) act" where
  "dependency_elapsed env d =
     act_bind (read_clock env) (\<lambda>now.
     act_bind (act_get (\<lambda>s. map_of (su_started_at s) (dp_requires d))) (\<lambda>begun.
     case begun of
       None \<Rightarrow> act_raise (KeyErr (dp_requires d))
     | Some t0 \<Rightarrow> act_return (max 0 (now - t0))))"

definition emit_dependency_event ::
    "('w, 'p) start_env \<Rightarrow> event_kind \<Rightarrow> planned_dependency \<Rightarrow> string option \<Rightarrow>
     (('w, 'p) startup, unit) act" where
  "emit_dependency_event env kind d msg =
     act_bind (dependency_elapsed env d) (\<lambda>elapsed.
     emit_event env
       \<lparr>ev_event = kind, ev_execution_id = se_execution_id env, ev_system = se_system env,
        ev_child = dp_system d, ev_child_execution_id = None,
        ev_dependency_ordinal = Some (dp_ordinal d), ev_requires = Some (dp_requires d),
        ev_condition = Some (dp_condition d), ev_timeout_seconds = Some (dp_timeout_seconds d),
        ev_elapsed_seconds = Some elapsed, ev_message = msg\<rparr>)"

definition timeout_message :: "('w, 'p) start_env \<Rightarrow> planned_dependency \<Rightarrow> string" where
  "timeout_message env d =
     ''timed out after '' @ oc_format_g (se_orchestrator env) (dp_timeout_seconds d) @ ''s waiting for '' @
     ''prerequisite '' @ repr_str (dp_requires d) @ '' to '' @ ''satisfy '' @
     repr_str (condition_value (dp_condition d)) @ '' for '' @ ''child System '' @ repr_str (dp_system d)"

text \<open>\<open>raise dependency_timeout_error(dependency)\<close>: the event goes out first.\<close>

definition raise_timeout :: "('w, 'p) start_env \<Rightarrow> planned_dependency \<Rightarrow> (('w, 'p) startup, 'a) act" where
  "raise_timeout env d =
     act_bind (emit_dependency_event env DEPENDENCY_FAILED d (Some (timeout_message env d))) (\<lambda>_.
     act_raise (dependency_error ''ORCH301'' d (timeout_message env d)))"

definition mark_satisfied :: "('w, 'p) start_env \<Rightarrow> planned_dependency \<Rightarrow> (('w, 'p) startup, unit) act" where
  "mark_satisfied env d =
     act_bind (act_modify (\<lambda>s. s\<lparr>su_satisfied := dp_ordinal d # su_satisfied s\<rparr>)) (\<lambda>_.
     emit_dependency_event env DEPENDENCY_SATISFIED d None)"

definition cached_status ::
    "planned_dependency \<Rightarrow> ('w, 'p) running_child \<Rightarrow> (('w, 'p) startup, system_status) act" where
  "cached_status d pre =
     act_bind (act_get (\<lambda>s. map_of (su_cache s) (dp_requires d))) (\<lambda>cached.
     case cached of
       Some st \<Rightarrow> act_return st
     | None \<Rightarrow>
         act_bind (on_machine (inspect_system (rc_handle pre))) (\<lambda>st.
         act_bind (act_modify (\<lambda>s. s\<lparr>su_cache := (dp_requires d, st) # su_cache s\<rparr>)) (\<lambda>_.
         act_return st)))"

definition exc_message :: "py_error \<Rightarrow> string" where
  "exc_message e = (case e of CodedErr cls code path msg \<Rightarrow> msg | _ \<Rightarrow> exc_str e)"

definition observed_dependency ::
    "('w, 'p) start_env \<Rightarrow> planned_dependency \<Rightarrow> ('w, 'p) running_child \<Rightarrow> rat \<Rightarrow>
     (('w, 'p) startup, bool) act" where
  "observed_dependency env d pre deadline =
     act_bind (cached_status d pre) (\<lambda>st.
     act_bind (read_clock env) (\<lambda>observed_at.
     if observed_at > deadline then raise_timeout env d
     else
       act_bind (act_try (act_lift (dependency_condition_satisfied d st)) (\<lambda>exc.
           act_bind (emit_dependency_event env DEPENDENCY_FAILED d (Some (exc_message exc))) (\<lambda>_.
           act_raise exc))) (\<lambda>satisfied.
       if satisfied then act_bind (mark_satisfied env d) (\<lambda>_. act_return True)
       else if observed_at \<ge> deadline then raise_timeout env d
       else
         act_bind (act_get (\<lambda>s. dp_ordinal d \<in> set (su_waiting s))) (\<lambda>known.
         act_bind (if known then act_return ()
             else act_bind (act_modify (\<lambda>s. s\<lparr>su_waiting := dp_ordinal d # su_waiting s\<rparr>)) (\<lambda>_.
                  emit_dependency_event env DEPENDENCY_WAITING d None)) (\<lambda>_.
         act_bind (act_modify (\<lambda>s. s\<lparr>su_unresolved := su_unresolved s @ [deadline]\<rparr>)) (\<lambda>_.
         act_return False))))))"

text \<open>One iteration of \<open>for dependency in dependencies\<close>: does the child stay eligible?\<close>

definition process_dependency ::
    "('w, 'p) start_env \<Rightarrow> planned_dependency \<Rightarrow> (('w, 'p) startup, bool) act" where
  "process_dependency env d = (\<lambda>s.
     if dp_ordinal d \<in> set (su_satisfied s) then (Inr True, s)
     else case map_of (su_by_name s) (dp_requires d) of
       None \<Rightarrow> (Inr False, s)
     | Some pre \<Rightarrow> (case map_of (su_started_at s) (dp_requires d) of
         None \<Rightarrow> (Inl (KeyErr (dp_requires d)), s)
       | Some t0 \<Rightarrow>
           let deadline = t0 + dp_timeout_seconds d in
           if dp_condition d = STARTED
           then act_bind (read_clock env) (\<lambda>now.
                if now > deadline then raise_timeout env d
                else act_bind (mark_satisfied env d) (\<lambda>_. act_return True)) s
           else observed_dependency env d pre deadline s))"

text \<open>Starting one child: \<open>start_child\<close>, whose recursive call is \<open>starter\<close>.\<close>

definition start_child ::
    "('w, 'p) start_env \<Rightarrow> ('w, 'p) prepared_child \<Rightarrow> (('w, 'p) machine, ('w, 'p) system_handle) pact \<Rightarrow>
     (('w, 'p) startup, unit) pact" where
  "start_child env child starter =
     pact_bind (pact_try (on_machine_p starter) (\<lambda>exc.
         pact_of (act_raise (orch_error ''ORCH204'' (''systems.'' @ pc_name child)
           (''start failed for child System '' @ repr_str (pc_name child) @ '': '' @ exc_str exc))))) (\<lambda>h.
     pact_of (
       act_bind (act_lift (mk_RunningChild (pc_instance child) h)) (\<lambda>running.
       act_bind (act_modify (\<lambda>s. s\<lparr>su_systems := su_systems s @ [running]\<rparr>)) (\<lambda>_.
       emit_event env (child_started_event env (pc_name child) (sh_id h))))))"

section \<open>The scheduler\<close>

fun process_dependencies ::
    "('w, 'p) start_env \<Rightarrow> planned_dependency list \<Rightarrow> (('w, 'p) startup, bool) act" where
  "process_dependencies env [] = act_return True"
| "process_dependencies env (d # ds) =
     act_bind (process_dependency env d) (\<lambda>a.
     act_bind (process_dependencies env ds) (\<lambda>b. act_return (a \<and> b)))"

type_synonym ('w, 'p) starters =
  "(('w, 'p) prepared_child \<times> (('w, 'p) machine, ('w, 'p) system_handle) pact) list"

text \<open>\<open>prepared_by_name\<close>: of two children with one name the later one stays.\<close>

definition starter_named ::
    "('w, 'p) starters \<Rightarrow> string \<Rightarrow>
     (('w, 'p) prepared_child \<times> (('w, 'p) machine, ('w, 'p) system_handle) pact) option" where
  "starter_named children name = map_of (rev (map (\<lambda>(c, m). (pc_name c, (c, m))) children)) name"

definition child_running :: "string \<Rightarrow> rat \<Rightarrow> ('w, 'p) startup \<Rightarrow> ('w, 'p) startup" where
  "child_running name t0 s =
     s\<lparr>su_by_name := (name, last (su_systems s)) # su_by_name s,
       su_started_at := (name, t0) # su_started_at s,
       su_pending := remove1 name (su_pending s),
       su_progress := True\<rparr>"

definition process_child ::
    "('w, 'p) start_env \<Rightarrow> planned_dependency list \<Rightarrow> ('w, 'p) starters \<Rightarrow> string \<Rightarrow>
     (('w, 'p) startup, unit) pact" where
  "process_child env deps children name =
     pact_bind (pact_of (process_dependencies env (filter (\<lambda>d. dp_system d = name) deps))) (\<lambda>eligible.
     if \<not> eligible then pact_of (act_return ())
     else case starter_named children name of
       None \<Rightarrow> pact_of (act_raise (KeyErr name))
     | Some (child, starter) \<Rightarrow>
         pact_bind (pact_of (read_clock env)) (\<lambda>t0.
         pact_bind (start_child env child starter) (\<lambda>_.
         pact_of (act_modify (child_running name t0)))))"

definition begin_round :: "('w, 'p) startup \<Rightarrow> ('w, 'p) startup" where
  "begin_round s = s\<lparr>su_cache := [], su_unresolved := [], su_progress := False\<rparr>"

definition end_round :: "('w, 'p) start_env \<Rightarrow> (('w, 'p) startup, unit) act" where
  "end_round env = (\<lambda>s.
     if su_pending s = [] \<or> su_progress s then (Inr (), s)
     else if su_unresolved s = []
     then (Inl (orch_error ''ORCH305'' ''system_startup''
             ''compiled System startup topology cannot make progress''), s)
     else act_bind (read_clock env) (\<lambda>now.
            let delay = min (oc_poll_interval (se_orchestrator env)) (min_list (su_unresolved s) - now) in
            if delay > 0
            then act_bind (on_machine (note_call (CWait delay))) (\<lambda>_.
                 on_machine (on_world (oc_wait (se_orchestrator env) delay)))
            else act_return ()) s)"

definition scheduler_round ::
    "('w, 'p) start_env \<Rightarrow> planned_dependency list \<Rightarrow> ('w, 'p) starters \<Rightarrow> (('w, 'p) startup, unit) pact" where
  "scheduler_round env deps children =
     pact_bind (pact_of (act_modify begin_round)) (\<lambda>_.
     pact_bind (\<lambda>s. pact_for (su_pending s) (process_child env deps children) s) (\<lambda>_.
     pact_of (end_round env)))"

partial_function (option) while_pending ::
    "(('w, 'p) startup, unit) pact \<Rightarrow> (('w, 'p) startup, unit) pact" where
  "while_pending step s =
     (if su_pending s = [] then Some (Inr (), s)
      else Option.bind (step s) (\<lambda>(r, t).
             case r of Inl e \<Rightarrow> Some (Inl e, t) | Inr _ \<Rightarrow> while_pending step t))"

declare while_pending.simps [code]

section \<open>The whole start\<close>

definition check_startup :: "planned_startup option \<Rightarrow> string list \<Rightarrow> unit result" where
  "check_startup startup names =
     (case startup of
        None \<Rightarrow> Inr ()
      | Some st \<Rightarrow>
          if length (st_order st) \<noteq> card (set names) \<or> \<not> distinct (st_order st) \<or>
             set (st_order st) \<noteq> set names
          then Inl (orch_error ''ORCH305'' ''system_startup.order''
                 ''compiled System startup order does not match prepared children'')
          else case find (\<lambda>d. dp_system d \<notin> set names \<or> dp_requires d \<notin> set names \<or>
                             dp_system d = dp_requires d) (st_dependencies st) of
            Some d \<Rightarrow> Inl (orch_error ''ORCH305'' (''system_startup.dependencies.'' @ nat_digits (dp_ordinal d))
                        ''compiled System dependency references invalid children'')
          | None \<Rightarrow> Inr ())"

text \<open>\<open>rollback()\<close>: children first, each list in reverse; the errors it collects.\<close>

definition collect_error :: "('s, 'a) act \<Rightarrow> string \<Rightarrow> ('s, string list) act" where
  "collect_error m what =
     act_try (act_bind m (\<lambda>_. act_return [])) (\<lambda>exc. act_return [what @ '': '' @ exc_str exc])"

definition rollback :: "pyfloat option \<Rightarrow> (('w, 'p) startup, string list) act" where
  "rollback timeout = (\<lambda>s.
     act_bind (act_seq (map (\<lambda>c. collect_error (on_machine (stop_system (rc_handle c) timeout))
                                   (''systems.'' @ rc_name c)) (rev (su_systems s)))) (\<lambda>e1.
     act_bind (act_seq (map (\<lambda>r. collect_error (on_machine (call_stop r timeout))
                                   (scope_id (rsc_scope r))) (rev (su_scopes s)))) (\<lambda>e2.
     act_return (concat e1 @ concat e2))) s)"

definition rollback_suffix :: "string list \<Rightarrow> string" where
  "rollback_suffix errors =
     (if errors = [] then [] else ''; rollback errors: '' @ join_on ''; '' errors)"

definition start_scope :: "pyfloat option \<Rightarrow> ('w, 'p) prepared_scope \<Rightarrow> (('w, 'p) startup, unit) act" where
  "start_scope timeout x =
     act_bind (act_try (on_machine (call_start x)) (\<lambda>exc.
         act_bind (rollback timeout) (\<lambda>errors.
         act_raise (orch_error ''ORCH202'' (scope_id (psc_scope x))
           (''start failed for scope '' @ scope_id (psc_scope x) @ '': '' @ exc_str exc @
            rollback_suffix errors))))) (\<lambda>h.
     act_modify (\<lambda>s. s\<lparr>su_scopes := su_scopes s @
       [\<lparr>rsc_scope = psc_scope x, rsc_backend = psc_backend x, rsc_handle = h\<rparr>]\<rparr>))"

definition is_orchestration_error :: "py_error \<Rightarrow> bool" where
  "is_orchestration_error e = (case e of
     CodedErr cls code path msg \<Rightarrow> cls = ''OrchestrationError'' \<or> cls = ''OrchestrationValidationError''
   | _ \<Rightarrow> False)"

definition startup_failed :: "pyfloat option \<Rightarrow> py_error \<Rightarrow> (('w, 'p) startup, 'a) act" where
  "startup_failed timeout exc =
     act_bind (rollback timeout) (\<lambda>errors.
       let suffix = rollback_suffix errors in
       case exc of
         CodedErr cls code path msg \<Rightarrow>
           if is_orchestration_error exc
           then (if suffix = [] then act_raise exc else act_raise (orch_error code path (msg @ suffix)))
           else act_raise (orch_error ''ORCH305'' ''system_startup''
                  (''System startup scheduler failed: '' @ exc_str exc @ suffix))
       | _ \<Rightarrow> act_raise (orch_error ''ORCH305'' ''system_startup''
                  (''System startup scheduler failed: '' @ exc_str exc @ suffix)))"

definition start_children ::
    "('w, 'p) start_env \<Rightarrow> planned_startup option \<Rightarrow> ('w, 'p) starters \<Rightarrow> (('w, 'p) startup, unit) pact" where
  "start_children env startup children =
     (case startup of
        None \<Rightarrow> pact_for children (\<lambda>(c, m). start_child env c m)
      | Some st \<Rightarrow>
          pact_bind (pact_of (act_modify (\<lambda>s. s\<lparr>su_pending := st_order st\<rparr>))) (\<lambda>_.
          while_pending (scheduler_round env (st_dependencies st) children)))"

definition initial_startup :: "('w, 'p) machine \<Rightarrow> ('w, 'p) startup" where
  "initial_startup m =
     \<lparr>su_machine = m, su_scopes = [], su_systems = [], su_pending = [], su_by_name = [],
      su_started_at = [], su_waiting = [], su_satisfied = [], su_cache = [], su_unresolved = [],
      su_progress = False\<rparr>"

definition run_startup ::
    "('w, 'p) start_env \<Rightarrow> ('w, 'p) prepared_system \<Rightarrow> ('w, 'p) starters \<Rightarrow>
     (('w, 'p) startup, ('w, 'p) system_handle) pact" where
  "run_startup env x children =
     pact_bind (pact_of (act_for (ps_scopes x) (start_scope (se_timeout env)))) (\<lambda>_.
     pact_bind (pact_try (start_children env (pl_system_startup (plan_body (ps_plan x))) children)
                  (\<lambda>exc. pact_of (startup_failed (se_timeout env) exc))) (\<lambda>_.
     pact_of (act_get (\<lambda>s. SystemExecutionHandle (se_execution_id env) x (su_scopes s) (su_systems s)))))"

definition timeout_invalid :: "pyfloat option \<Rightarrow> bool" where
  "timeout_invalid t = (case t of None \<Rightarrow> False | Some f \<Rightarrow> \<not> pf_finite f \<or> pf_negative f)"

definition start_body ::
    "('w, 'p) orchestrator \<Rightarrow> pyfloat option \<Rightarrow> (startup_event \<Rightarrow> ('w, unit) act) option \<Rightarrow>
     ('w, 'p) prepared_system \<Rightarrow> ('w, 'p) starters \<Rightarrow> (('w, 'p) machine, ('w, 'p) system_handle) pact" where
  "start_body orch timeout sink x children =
     pact_bind (pact_of (act_bind
         (if timeout_invalid timeout
          then act_raise (ValueErr ''rollback_timeout_seconds must be finite and non-negative'')
          else act_return ()) (\<lambda>_.
       act_bind (on_world (oc_uuid_hex orch)) (\<lambda>hex.
       act_bind (act_lift (check_startup (pl_system_startup (plan_body (ps_plan x)))
                             (map (\<lambda>c. pc_name (fst c)) children))) (\<lambda>_.
       act_return (''system-'' @ take 12 hex)))))) (\<lambda>execution_id.
     \<lambda>m. case run_startup
            \<lparr>se_orchestrator = orch, se_timeout = timeout, se_sink = sink,
             se_execution_id = execution_id, se_system = pl_system (plan_body (ps_plan x))\<rparr>
            x children (initial_startup m) of
          None \<Rightarrow> None
        | Some (r, s) \<Rightarrow> Some (r, su_machine s))"

fun start_system ::
    "('w, 'p) orchestrator \<Rightarrow> pyfloat option \<Rightarrow> (startup_event \<Rightarrow> ('w, unit) act) option \<Rightarrow>
     ('w, 'p) prepared_system \<Rightarrow> (('w, 'p) machine, ('w, 'p) system_handle) pact" where
  "start_system orch timeout sink x =
     start_body orch timeout sink x
       (map (\<lambda>c. (c, start_system orch timeout sink (pc_execution c))) (ps_systems x))"

declare start_system.simps [simp del]

end
