(* ===== verification/Orchestrator_Stop.thy ===== *)
theory Orchestrator_Stop
  imports Orchestrator
begin

text \<open>
  Correctness of \<open>inspect\<close> and \<open>stop\<close>: they never raise (but for a negative timeout), they
  make a fixed sequence of backend calls whatever the backends answer, and the status they
  return mirrors the handle.
\<close>

section \<open>Actions that never raise and have a fixed trace\<close>

definition total_act :: "('s, 'a) act \<Rightarrow> bool" where
  "total_act m = (\<forall>s. \<exists>x t. m s = (Inr x, t))"

text \<open>\<open>calls_of tr m cs\<close>: every run of \<open>m\<close> appends exactly \<open>cs\<close> to the trace that \<open>tr\<close> reads.\<close>

definition calls_of :: "('s \<Rightarrow> 'c list) \<Rightarrow> ('s, 'a) act \<Rightarrow> 'c list \<Rightarrow> bool" where
  "calls_of tr m cs = (\<forall>s. tr (snd (m s)) = tr s @ cs)"

abbreviation calls :: "(('w, 'p) machine, 'a) act \<Rightarrow> 'p call list \<Rightarrow> bool" where
  "calls \<equiv> calls_of mc_trace"

lemma total_act_return [simp]: "total_act (act_return x)"
  by (simp add: total_act_def)

lemma total_act_bind: "total_act m \<Longrightarrow> (\<And>x. total_act (f x)) \<Longrightarrow> total_act (act_bind m f)"
  unfolding total_act_def act_bind_def by (metis (no_types, lifting) prod.case sum.case(2))

lemma total_act_try: "(\<And>e. total_act (h e)) \<Longrightarrow> total_act (act_try m h)"
  by (auto simp: total_act_def act_try_def split: prod.splits sum.splits)

lemma total_act_seq: "(\<And>x. x \<in> set xs \<Longrightarrow> total_act (f x)) \<Longrightarrow> total_act (act_seq (map f xs))"
  by (induction xs) (auto intro!: total_act_bind)

lemma calls_return [simp]: "calls_of tr (act_return x) []"
  by (simp add: calls_of_def act_simps)

lemma calls_lift [simp]: "calls_of tr (act_lift x) []"
  by (simp add: calls_of_def act_simps)

lemma calls_world [simp]: "calls (on_world m) []"
  by (simp add: calls_of_def on_world_def split: prod.split)

lemma calls_note [simp]: "calls (note_call c) [c]"
  by (simp add: calls_of_def note_call_def act_simps)

lemma calls_bind:
  assumes "calls_of tr m cs" and "\<And>x. calls_of tr (f x) ds" and "total_act m \<or> ds = []"
  shows "calls_of tr (act_bind m f) (cs @ ds)"
  unfolding calls_of_def
proof
  fix s
  obtain r t where m: "m s = (r, t)" by fastforce
  with assms(1) have t: "tr t = tr s @ cs" by (metis calls_of_def snd_conv)
  show "tr (snd (act_bind m f s)) = tr s @ cs @ ds"
  proof (cases r)
    case (Inl e)
    with m assms(3) have "ds = []" by (metis Inl_Inr_False total_act_def prod.inject)
    with Inl m t show ?thesis by (simp add: act_simps)
  next
    case (Inr x)
    with m t assms(2) [of x] show ?thesis by (simp add: act_simps calls_of_def)
  qed
qed

lemma calls_try:
  assumes "calls_of tr m cs" and "\<And>e. calls_of tr (h e) []"
  shows "calls_of tr (act_try m h) cs"
  unfolding calls_of_def
proof
  fix s
  obtain r t where m: "m s = (r, t)" by fastforce
  with assms(1) have "tr t = tr s @ cs" by (metis calls_of_def snd_conv)
  with m assms(2) show "tr (snd (act_try m h s)) = tr s @ cs"
    by (cases r) (simp_all add: act_simps calls_of_def)
qed

lemma calls_then: "calls_of tr m cs \<Longrightarrow> (\<And>x. calls_of tr (f x) []) \<Longrightarrow> calls_of tr (act_bind m f) cs"
  using calls_bind [of tr m cs f "[]"] by simp

lemma calls_seq:
  assumes "\<And>x. x \<in> set xs \<Longrightarrow> total_act (f x) \<and> calls_of tr (f x) (g x)"
  shows "calls_of tr (act_seq (map f xs)) (concat (map g xs))"
  using assms
proof (induction xs)
  case (Cons x xs)
  then have "calls_of tr (act_seq (map f xs)) (concat (map g xs))" by simp
  then have "calls_of tr (act_bind (f x) (\<lambda>y. act_bind (act_seq (map f xs)) (\<lambda>ys. act_return (y # ys)))) (g x @ concat (map g xs))"
    using Cons.prems [of x] by (intro calls_bind calls_then) auto
  then show ?case by simp
qed simp

section \<open>Leaves of a handle\<close>

text \<open>The backend executions of a handle, in the order they are started.\<close>

fun handle_leaves :: "('w, 'p) system_handle \<Rightarrow> (execution_scope \<times> 'p execution_handle) list" where
  "handle_leaves h =
     map (\<lambda>r. (rsc_scope r, rsc_handle r)) (sh_scopes h) @
     concat (map (\<lambda>c. handle_leaves (rc_handle c)) (sh_systems h))"

declare handle_leaves.simps [simp del]

definition stop_calls :: "('w, 'p) system_handle \<Rightarrow> 'p call list" where
  "stop_calls h = map (\<lambda>(s, x). CStop s x) (rev (handle_leaves h))"

lemma stop_calls_unfold:
  "stop_calls h = concat (map (\<lambda>c. stop_calls (rc_handle c)) (rev (sh_systems h))) @
     map (\<lambda>r. CStop (rsc_scope r) (rsc_handle r)) (rev (sh_scopes h))"
  by (simp add: stop_calls_def handle_leaves.simps [of h] rev_map [symmetric] rev_concat map_concat comp_def)

lemma total_stop_scope: "total_act (stop_scope t r)"
  by (auto simp: stop_scope_def intro!: total_act_bind total_act_try)

lemma calls_call_stop: "calls (call_stop r t) [CStop (rsc_scope r) (rsc_handle r)]"
  unfolding call_stop_def by (auto intro!: calls_then)

lemma calls_stop_scope: "calls (stop_scope t r) [CStop (rsc_scope r) (rsc_handle r)]"
  unfolding stop_scope_def by (intro calls_then calls_try calls_call_stop) simp_all

lemma stop_scope_result: "stop_scope t r s = (Inr p, u) \<Longrightarrow> fst p = rsc_scope r"
  by (auto simp: stop_scope_def act_bind_Inr)

definition stop_child ::
    "pyfloat option \<Rightarrow> ('w, 'p) running_child \<Rightarrow> (('w, 'p) machine, child_status) act" where
  "stop_child timeout c =
     act_bind (act_try (stop_system (rc_handle c) timeout)
                 (\<lambda>exc. act_return (failed_system_status (rc_handle c) exc)))
       (\<lambda>st. act_return (ChildStatus (rc_instance c) st))"

lemma stop_system_unfold:
  "stop_system h t =
     (if timeout_negative t then act_raise (ValueErr ''timeout_seconds cannot be negative'')
      else
        act_bind (act_seq (map (stop_child t) (rev (sh_systems h)))) (\<lambda>stopped_reverse.
        act_bind (act_seq (map (stop_scope t) (rev (sh_scopes h)))) (\<lambda>by_scope.
        act_bind (act_lift (stopped_statuses (sh_scopes h) by_scope)) (\<lambda>statuses.
        act_return (combine_status (sh_id h) statuses (rev stopped_reverse))))))"
  unfolding stop_system.simps [of h] stop_child_def ..

lemma total_stop_child: "total_act (stop_child t c)"
  by (auto simp: stop_child_def intro!: total_act_bind total_act_try)

lemma stopped_statuses_total:
  assumes "fst ` set ps = rsc_scope ` set rs"
  shows "\<exists>sts. stopped_statuses rs ps = Inr sts"
proof -
  have "\<exists>st. map_of (rev ps) (rsc_scope r) = Some st" if "r \<in> set rs" for r
    using that assms by (metis imageI map_of_eq_None_iff not_Some_eq set_rev)
  then have "stopped_statuses rs ps = Inr (map (\<lambda>r. \<lparr>sst_scope = rsc_scope r,
      sst_status = the (map_of (rev ps) (rsc_scope r))\<rparr>) rs)"
    unfolding stopped_statuses_def by (intro emap_Inr_map) fastforce
  then show ?thesis by blast
qed

lemma stop_scopes_domain:
  assumes "act_seq (map (stop_scope t) rs) s = (Inr ps, u)"
  shows "map fst ps = map rsc_scope rs"
proof -
  have "list_all2 (\<lambda>r p. fst p = rsc_scope r) rs ps"
    by (rule list_all2_mono [OF act_seq_map_results [OF assms]]) (auto dest: stop_scope_result)
  then show ?thesis by (auto simp: list_all2_conv_all_nth intro: nth_equalityI)
qed

lemma stop_system_total: "\<not> timeout_negative t \<Longrightarrow> total_act (stop_system h t)"
proof -
  assume t: "\<not> timeout_negative t"
  have "\<exists>x u. stop_system h t s = (Inr x, u)" for s :: "('a, 'b) machine"
  proof -
    obtain cs u where cs: "act_seq (map (stop_child t) (rev (sh_systems h))) s = (Inr cs, u)"
      using total_act_seq [of "rev (sh_systems h)" "stop_child t"] total_stop_child unfolding total_act_def by metis
    obtain ps v where ps: "act_seq (map (stop_scope t) (rev (sh_scopes h))) u = (Inr ps, v)"
      using total_act_seq [of "rev (sh_scopes h)" "stop_scope t"] total_stop_scope unfolding total_act_def by metis
    from stop_scopes_domain [OF ps] have "fst ` set ps = rsc_scope ` set (sh_scopes h)"
      by (metis list.set_map set_rev)
    with stopped_statuses_total obtain sts where "stopped_statuses (sh_scopes h) ps = Inr sts" by blast
    with cs ps t show ?thesis by (simp add: stop_system_unfold [of h] act_simps)
  qed
  then show ?thesis by (simp add: total_act_def)
qed

lemma stop_system_calls: "\<not> timeout_negative t \<Longrightarrow> calls (stop_system h t) (stop_calls h)"
proof (induction h rule: measure_induct_rule [where f = size])
  case (less h)
  have child: "calls (stop_child t c) (stop_calls (rc_handle c))" if "c \<in> set (sh_systems h)" for c
    unfolding stop_child_def using less size_rc_handle [OF that]
    by (intro calls_then calls_try) auto
  have "calls (act_seq (map (stop_child t) (rev (sh_systems h))))
      (concat (map (\<lambda>c. stop_calls (rc_handle c)) (rev (sh_systems h))))"
    using child total_stop_child by (intro calls_seq) auto
  moreover have "calls (act_seq (map (stop_scope t) (rev (sh_scopes h))))
      (concat (map (\<lambda>r. [CStop (rsc_scope r) (rsc_handle r)]) (rev (sh_scopes h))))"
    using calls_stop_scope total_stop_scope by (intro calls_seq) auto
  moreover have "total_act (act_seq (map (stop_child t) (rev (sh_systems h))))"
    using total_stop_child by (intro total_act_seq)
  ultimately show ?case
    unfolding stop_calls_unfold [of h] stop_system_unfold [of h] if_not_P [OF less.prems]
    by (intro calls_bind) (auto intro!: calls_then)
qed

section \<open>inspect\<close>

definition inspect_calls :: "('w, 'p) system_handle \<Rightarrow> 'p call list" where
  "inspect_calls h = map (\<lambda>(s, x). CInspect s x) (handle_leaves h)"

definition inspect_child :: "('w, 'p) running_child \<Rightarrow> (('w, 'p) machine, child_status) act" where
  "inspect_child c =
     act_bind (act_try (inspect_system (rc_handle c)) (\<lambda>exc. act_return (failed_system_status (rc_handle c) exc)))
       (\<lambda>st. act_return (ChildStatus (rc_instance c) st))"

lemma inspect_system_unfold:
  "inspect_system h =
     act_bind (act_seq (map inspect_scope (sh_scopes h))) (\<lambda>statuses.
     act_bind (act_seq (map inspect_child (sh_systems h))) (\<lambda>systems.
     act_return (combine_status (sh_id h) statuses systems)))"
  unfolding inspect_system.simps [of h] inspect_child_def ..

lemma total_inspect_scope: "total_act (inspect_scope r)"
  by (auto simp: inspect_scope_def intro!: total_act_bind total_act_try)

lemma total_inspect_child: "total_act (inspect_child c)"
  by (auto simp: inspect_child_def intro!: total_act_bind total_act_try)

lemma inspect_system_total: "total_act (inspect_system h)"
  unfolding inspect_system_unfold [of h]
  by (intro total_act_bind total_act_seq total_inspect_scope total_inspect_child total_act_return)

lemma calls_inspect_scope: "calls (inspect_scope r) [CInspect (rsc_scope r) (rsc_handle r)]"
  unfolding inspect_scope_def call_inspect_def by (intro calls_then calls_try) auto

lemma inspect_system_calls: "calls (inspect_system h) (inspect_calls h)"
proof (induction h rule: measure_induct_rule [where f = size])
  case (less h)
  have child: "calls (inspect_child c) (inspect_calls (rc_handle c))" if "c \<in> set (sh_systems h)" for c
    unfolding inspect_child_def using less size_rc_handle [OF that]
    by (intro calls_then calls_try) auto
  have "calls (act_seq (map inspect_child (sh_systems h)))
      (concat (map (\<lambda>c. inspect_calls (rc_handle c)) (sh_systems h)))"
    using child total_inspect_child by (intro calls_seq) auto
  moreover have "calls (act_seq (map inspect_scope (sh_scopes h)))
      (concat (map (\<lambda>r. [CInspect (rsc_scope r) (rsc_handle r)]) (sh_scopes h)))"
    using calls_inspect_scope total_inspect_scope by (intro calls_seq) auto
  moreover have "total_act (act_seq (map inspect_scope (sh_scopes h)))"
    using total_inspect_scope by (intro total_act_seq)
  moreover have "inspect_calls h = map (\<lambda>r. CInspect (rsc_scope r) (rsc_handle r)) (sh_scopes h) @
      concat (map (\<lambda>c. inspect_calls (rc_handle c)) (sh_systems h))"
    by (simp add: inspect_calls_def handle_leaves.simps [of h] map_concat comp_def)
  ultimately show ?case
    unfolding inspect_system_unfold [of h] by (simp, intro calls_bind) (auto intro!: calls_then)
qed

section \<open>Code equations\<close>

declare stop_system_unfold [code] inspect_system_unfold [code]

lemma stop_child_code [code]:
  "stop_child tm (RunningChild i h) =
     act_bind (act_try (stop_system h tm) (\<lambda>exc. act_return (failed_system_status h exc)))
       (\<lambda>st. act_return (ChildStatus i st))"
  by (simp add: stop_child_def)

lemma inspect_child_code [code]:
  "inspect_child (RunningChild i h) =
     act_bind (act_try (inspect_system h) (\<lambda>exc. act_return (failed_system_status h exc)))
       (\<lambda>st. act_return (ChildStatus i st))"
  by (simp add: inspect_child_def)

section \<open>The status mirrors the handle\<close>

text \<open>
  A handle whose scopes are distinct and run on backends that bear their names, down to the
  leaves. A status mirrors it when it names the same executions in the same order and its
  state is the aggregate of the states below.
\<close>

fun handle_ok :: "('w, 'p) system_handle \<Rightarrow> bool" where
  "handle_ok h =
     (distinct (map rsc_scope (sh_scopes h)) \<and>
      list_all (\<lambda>r. be_id (rsc_backend r) = sc_backend (rsc_scope r)) (sh_scopes h) \<and>
      list_all (\<lambda>c. handle_ok (rc_handle c)) (sh_systems h))"

declare handle_ok.simps [simp del]

definition scope_mirrors :: "('w, 'p) running_scope \<Rightarrow> scope_status \<Rightarrow> bool" where
  "scope_mirrors r st =
     (sst_scope st = rsc_scope r \<and> bs_backend (sst_status st) = sc_backend (rsc_scope r) \<and>
      bs_execution_id (sst_status st) = eh_execution_id (rsc_handle r))"

fun mirrors :: "('w, 'p) system_handle \<Rightarrow> system_status \<Rightarrow> bool" where
  "mirrors h (SystemExecutionStatus i state scopes systems m d ob) =
     (i = sh_id h \<and> state = aggregate_state scopes systems \<and>
      list_all2 scope_mirrors (sh_scopes h) scopes \<and>
      list_all2 (\<lambda>c st. cs_instance st = rc_instance c \<and> mirrors (rc_handle c) (cs_status st))
        (sh_systems h) systems)"

lemma mirrors_unfold:
  "mirrors h st \<longleftrightarrow> ss_execution_id st = sh_id h \<and> ss_state st = aggregate_state (ss_scopes st) (ss_systems st) \<and>
      list_all2 scope_mirrors (sh_scopes h) (ss_scopes st) \<and>
      list_all2 (\<lambda>c st. cs_instance st = rc_instance c \<and> mirrors (rc_handle c) (cs_status st))
        (sh_systems h) (ss_systems st)"
  by (cases st) simp

lemma failed_status_mirrors: "scope_mirrors r \<lparr>sst_scope = rsc_scope r, sst_status = failed_status r e\<rparr>"
  by (simp add: scope_mirrors_def failed_status_def)

lemma on_world_Inr: "on_world m s = (Inr x, t) \<Longrightarrow> m (mc_world s) = (Inr x, mc_world t)"
  by (auto simp: on_world_def split: prod.splits)

lemma inspect_scope_mirrors:
  assumes "inspect_scope r s = (Inr st, t)" and "be_id (rsc_backend r) = sc_backend (rsc_scope r)"
  shows "scope_mirrors r st"
  using assms
  by (auto simp: inspect_scope_def call_inspect_def act_bind_Inr act_try_def failed_status_mirrors
                 scope_mirrors_def status_of_def failed_status_def
           split: prod.splits sum.splits dest!: on_world_Inr backend.inspect_success)

lemma stop_scope_mirrors:
  assumes "stop_scope tm r s = (Inr p, t)" and "be_id (rsc_backend r) = sc_backend (rsc_scope r)"
  shows "fst p = rsc_scope r \<and> scope_mirrors r \<lparr>sst_scope = rsc_scope r, sst_status = snd p\<rparr>"
  using assms
  by (auto simp: stop_scope_def call_stop_def act_bind_Inr act_try_def failed_status_mirrors
                 scope_mirrors_def status_of_def failed_status_def
           split: prod.splits sum.splits dest!: on_world_Inr backend.stop_success)

lemma child_mirrors:
  assumes "list_all2 (\<lambda>c st. \<exists>u v. f c u = (Inr st, v)) cs sts"
    and "\<And>c st u v. c \<in> set cs \<Longrightarrow> f c u = (Inr st, v) \<Longrightarrow>
           cs_instance st = rc_instance c \<and> mirrors (rc_handle c) (cs_status st)"
  shows "list_all2 (\<lambda>c st. cs_instance st = rc_instance c \<and> mirrors (rc_handle c) (cs_status st)) cs sts"
  using assms unfolding list_all2_conv_all_nth by (metis nth_mem)

lemma total_act_try_id: "total_act m \<Longrightarrow> act_try m h s = m s"
  unfolding total_act_def act_try_def by (metis (no_types, lifting) prod.case sum.case(2))

lemma inspect_system_mirrors:
  "handle_ok h \<Longrightarrow> inspect_system h s = (Inr st, t) \<Longrightarrow> mirrors h st"
proof (induction h arbitrary: s st t rule: measure_induct_rule [where f = size])
  case (less h)
  from less.prems(2) obtain scopes systems u v where
    scopes: "act_seq (map inspect_scope (sh_scopes h)) s = (Inr scopes, u)"
    and systems: "act_seq (map inspect_child (sh_systems h)) u = (Inr systems, v)"
    and st: "st = combine_status (sh_id h) scopes systems"
    by (auto simp: inspect_system_unfold [of h] act_bind_Inr)
  have "list_all2 scope_mirrors (sh_scopes h) scopes"
    using act_seq_map_results [OF scopes] less.prems(1) inspect_scope_mirrors
    unfolding handle_ok.simps [of h] list_all2_conv_all_nth list_all_length by metis
  moreover have "list_all2 (\<lambda>c st. cs_instance st = rc_instance c \<and> mirrors (rc_handle c) (cs_status st))
        (sh_systems h) systems"
  proof (rule child_mirrors [OF act_seq_map_results [OF systems]])
    fix c cst u v assume c: "c \<in> set (sh_systems h)" and "inspect_child c u = (Inr cst, v)"
    then obtain x where run: "inspect_system (rc_handle c) u = (Inr x, v)" and cst: "cst = ChildStatus (rc_instance c) x"
      by (auto simp: inspect_child_def act_bind_Inr total_act_try_id [OF inspect_system_total])
    have ok: "handle_ok (rc_handle c)" using less.prems(1) c by (simp add: handle_ok.simps [of h] list_all_iff)
    from less.IH [OF size_rc_handle [OF c] ok run]
    show "cs_instance cst = rc_instance c \<and> mirrors (rc_handle c) (cs_status cst)"
      by (simp add: cst)
  qed
  ultimately show ?case unfolding mirrors_unfold [of h] by (simp add: st)
qed

lemma stopped_statuses_mirror:
  assumes "list_all2 (\<lambda>r p. fst p = rsc_scope r \<and> scope_mirrors r \<lparr>sst_scope = rsc_scope r, sst_status = snd p\<rparr>) (rev rs) ps"
    and "distinct (map rsc_scope rs)" and "stopped_statuses rs ps = Inr sts"
  shows "list_all2 scope_mirrors rs sts"
proof -
  have fst_ps: "map fst ps = map rsc_scope (rev rs)"
    using assms(1) by (auto simp: list_all2_conv_all_nth intro: nth_equalityI)
  then have dist: "distinct (map fst (rev ps))" using assms(2) by (metis rev_map distinct_rev)
  have "scope_mirrors r st" if "r \<in> set rs"
    and st: "(case map_of (rev ps) (rsc_scope r) of None \<Rightarrow> Inl (KeyErr (scope_id (rsc_scope r)))
               | Some st \<Rightarrow> Inr \<lparr>sst_scope = rsc_scope r, sst_status = st\<rparr>) = Inr st" for r st
  proof -
    from st obtain x where x: "map_of (rev ps) (rsc_scope r) = Some x"
      and eq: "st = \<lparr>sst_scope = rsc_scope r, sst_status = x\<rparr>" by (auto split: option.splits)
    from x have "(rsc_scope r, x) \<in> set ps" by (auto dest: map_of_SomeD)
    then obtain i where i: "i < length ps" "ps ! i = (rsc_scope r, x)" by (auto simp: in_set_conv_nth)
    with assms(1) have *: "fst (ps ! i) = rsc_scope (rev rs ! i)"
      "scope_mirrors (rev rs ! i) \<lparr>sst_scope = rsc_scope (rev rs ! i), sst_status = snd (ps ! i)\<rparr>"
      and len: "length (rev rs) = length ps"
      by (auto simp: list_all2_conv_all_nth)
    have "rev rs ! i = r"
    proof -
      have "rev rs ! i \<in> set rs" using i len by (metis nth_mem set_rev)
      moreover have "rsc_scope (rev rs ! i) = rsc_scope r" using * i by simp
      ultimately show ?thesis using assms(2) \<open>r \<in> set rs\<close> by (meson distinct_map inj_onD)
    qed
    with * i eq show ?thesis by simp
  qed
  then show ?thesis using assms(3) unfolding stopped_statuses_def emap_Inr_list_all2
    by (auto simp: list_all2_conv_all_nth)
qed

lemma stop_system_mirrors:
  "handle_ok h \<Longrightarrow> stop_system h tm s = (Inr st, t) \<Longrightarrow> mirrors h st"
proof (induction h arbitrary: s st t rule: measure_induct_rule [where f = size])
  case (less h)
  have tm: "\<not> timeout_negative tm" using less.prems(2) by (auto simp: stop_system_unfold [of h])
  from less.prems(2) obtain cs ps sts u v where
    systems: "act_seq (map (stop_child tm) (rev (sh_systems h))) s = (Inr cs, u)"
    and scopes: "act_seq (map (stop_scope tm) (rev (sh_scopes h))) u = (Inr ps, v)"
    and sts: "stopped_statuses (sh_scopes h) ps = Inr sts"
    and st: "st = combine_status (sh_id h) sts (rev cs)"
    by (auto simp: stop_system_unfold [of h] act_bind_Inr tm)
  have "list_all2 (\<lambda>r p. fst p = rsc_scope r \<and> scope_mirrors r \<lparr>sst_scope = rsc_scope r, sst_status = snd p\<rparr>)
      (rev (sh_scopes h)) ps"
    unfolding list_all2_conv_all_nth
  proof (intro conjI allI impI)
    note seq = act_seq_map_results [OF scopes]
    show len: "length (rev (sh_scopes h)) = length ps" using seq by (rule list_all2_lengthD)
    fix i assume i: "i < length (rev (sh_scopes h))"
    then have "be_id (rsc_backend (rev (sh_scopes h) ! i)) = sc_backend (rsc_scope (rev (sh_scopes h) ! i))"
      using less.prems(1) nth_mem [OF i] by (simp add: handle_ok.simps [of h] list_all_iff)
    with list_all2_nthD [OF seq i] stop_scope_mirrors
    show "fst (ps ! i) = rsc_scope (rev (sh_scopes h) ! i)"
      and "scope_mirrors (rev (sh_scopes h) ! i)
             \<lparr>sst_scope = rsc_scope (rev (sh_scopes h) ! i), sst_status = snd (ps ! i)\<rparr>" by blast+
  qed
  then have "list_all2 scope_mirrors (sh_scopes h) sts"
    using sts less.prems(1) by (intro stopped_statuses_mirror) (simp_all add: handle_ok.simps [of h])
  moreover have "list_all2 (\<lambda>c st. cs_instance st = rc_instance c \<and> mirrors (rc_handle c) (cs_status st))
        (rev (sh_systems h)) cs"
  proof (rule child_mirrors [OF act_seq_map_results [OF systems]])
    fix c cst u v assume "c \<in> set (rev (sh_systems h))" and "stop_child tm c u = (Inr cst, v)"
    then have c: "c \<in> set (sh_systems h)" by simp
    from \<open>stop_child tm c u = (Inr cst, v)\<close> obtain x where
      run: "stop_system (rc_handle c) tm u = (Inr x, v)" and cst: "cst = ChildStatus (rc_instance c) x"
      by (auto simp: stop_child_def act_bind_Inr total_act_try_id [OF stop_system_total [OF tm]])
    have ok: "handle_ok (rc_handle c)" using less.prems(1) c by (simp add: handle_ok.simps [of h] list_all_iff)
    from less.IH [OF size_rc_handle [OF c] ok run]
    show "cs_instance cst = rc_instance c \<and> mirrors (rc_handle c) (cs_status cst)"
      by (simp add: cst)
  qed
  then have "list_all2 (\<lambda>c st. cs_instance st = rc_instance c \<and> mirrors (rc_handle c) (cs_status st))
        (sh_systems h) (rev cs)"
    by (subst list_all2_rev [symmetric]) simp
  ultimately show ?case unfolding mirrors_unfold [of h] by (simp add: st)
qed

section \<open>Properties\<close>

text \<open>
  C7: \<open>stop\<close> with a valid timeout never raises, whatever the backends do, and it asks every
  leaf execution of the handle to stop, exactly once, in the reverse of their start order.
\<close>

theorem stop_reaches_every_leaf:
  assumes "\<not> timeout_negative tm"
  shows "\<exists>st t. stop_system h tm m = (Inr st, t) \<and>
    mc_trace t = mc_trace m @ map (\<lambda>(s, x). CStop s x) (rev (handle_leaves h))"
proof -
  from stop_system_total [OF assms] obtain st t where run: "stop_system h tm m = (Inr st, t)"
    unfolding total_act_def by blast
  with stop_system_calls [OF assms, of h] have "mc_trace t = mc_trace m @ stop_calls h"
    unfolding calls_of_def by (metis snd_conv)
  with run show ?thesis by (simp add: stop_calls_def)
qed

theorem stop_reaches_every_leaf_witness:
  "\<exists>st t. stop_system (sample_system_handle [''a'', ''b'']) (Some (Finite 3)) \<lparr>mc_world = 0, mc_trace = []\<rparr> = (Inr st, t) \<and>
    mc_trace t = map (\<lambda>(s, x). CStop s x) (rev (handle_leaves (sample_system_handle [''a'', ''b''])))"
  using stop_reaches_every_leaf [of "Some (Finite 3)" "sample_system_handle [''a'', ''b'']" "\<lparr>mc_world = 0, mc_trace = []\<rparr>"]
  by (simp add: timeout_negative_def pf_negative_def)

text \<open>
  The status \<open>stop\<close> returns has the shape of the handle: the same executions in the same
  order at every level, each status reported by the backend of its scope for its execution,
  and each System's state the aggregate of the states below it.
\<close>

theorem stop_status_mirrors_handle:
  assumes "handle_ok h" and "stop_system h tm m = (Inr st, t)"
  shows "mirrors h st"
  using assms by (rule stop_system_mirrors)

theorem stop_status_mirrors_handle_witness:
  "\<exists>st t. stop_system (sample_system_handle [''a'', ''b'']) None \<lparr>mc_world = 0, mc_trace = []\<rparr> = (Inr st, t) \<and>
     mirrors (sample_system_handle [''a'', ''b'']) st"
proof -
  have ok: "handle_ok (sample_system_handle [''a'', ''b''])" by code_simp
  have "total_act (stop_system (sample_system_handle [''a'', ''b'']) None)"
    by (rule stop_system_total) (simp add: timeout_negative_def)
  then have "\<exists>st t. stop_system (sample_system_handle [''a'', ''b'']) None \<lparr>mc_world = 0, mc_trace = []\<rparr> = (Inr st, t)"
    by (simp add: total_act_def)
  with stop_status_mirrors_handle [OF ok] show ?thesis by blast
qed

text \<open>
  C8: \<open>inspect\<close> never raises, asks every leaf exactly once in start order, starts and stops
  nothing, and for a well-formed handle returns a status that mirrors it.
\<close>

theorem inspect_is_total_and_faithful:
  "\<exists>st t. inspect_system h m = (Inr st, t) \<and>
     mc_trace t = mc_trace m @ map (\<lambda>(s, x). CInspect s x) (handle_leaves h) \<and>
     (handle_ok h \<longrightarrow> mirrors h st)"
proof -
  from inspect_system_total obtain st t where run: "inspect_system h m = (Inr st, t)"
    unfolding total_act_def by blast
  with inspect_system_calls [of h] have "mc_trace t = mc_trace m @ inspect_calls h"
    unfolding calls_of_def by (metis snd_conv)
  with run inspect_system_mirrors show ?thesis by (auto simp: inspect_calls_def)
qed

theorem inspect_is_total_and_faithful_witness:
  "\<exists>st t. inspect_system (sample_system_handle [''a'', ''b'']) \<lparr>mc_world = 0, mc_trace = []\<rparr> = (Inr st, t) \<and>
     mirrors (sample_system_handle [''a'', ''b'']) st"
proof -
  have "handle_ok (sample_system_handle [''a'', ''b''])" by code_simp
  with inspect_is_total_and_faithful [of "sample_system_handle [''a'', ''b'']" "\<lparr>mc_world = 0, mc_trace = []\<rparr>"]
  show ?thesis by blast
qed

end
