(* ===== verification/Orchestrator_Start.thy ===== *)
theory Orchestrator_Start
  imports Orchestrator_Stop
begin

text \<open>
  Correctness of \<open>start\<close>: whatever the backends, the clock and the event sink do, a start
  that fails has stopped every backend execution it had started, in the reverse order, and a
  start that succeeds has stopped none and returns a handle with exactly the executions it
  started.
\<close>

section \<open>Starts and stops of a trace\<close>

definition start_of :: "'p call \<Rightarrow> (execution_scope \<times> 'p execution_handle) list" where
  "start_of c = (case c of CStart s h \<Rightarrow> [(s, h)] | _ \<Rightarrow> [])"

definition stop_of :: "'p call \<Rightarrow> (execution_scope \<times> 'p execution_handle) list" where
  "stop_of c = (case c of CStop s h \<Rightarrow> [(s, h)] | _ \<Rightarrow> [])"

definition starts :: "'p call list \<Rightarrow> (execution_scope \<times> 'p execution_handle) list" where
  "starts tr = concat (map start_of tr)"

definition stops :: "'p call list \<Rightarrow> (execution_scope \<times> 'p execution_handle) list" where
  "stops tr = concat (map stop_of tr)"

lemma starts_append [simp]: "starts (a @ b) = starts a @ starts b" "starts [] = []"
  by (simp_all add: starts_def)

lemma stops_append [simp]: "stops (a @ b) = stops a @ stops b" "stops [] = []"
  by (simp_all add: stops_def)

lemma starts_call [simp]:
  "starts [CStart s h] = [(s, h)]" "starts [CStop s h] = []" "starts [CInspect s h] = []"
  "starts [CEvent e] = []" "starts [CWait q] = []"
  by (simp_all add: starts_def start_of_def)

lemma stops_call [simp]:
  "stops [CStart s h] = []" "stops [CStop s h] = [(s, h)]" "stops [CInspect s h] = []"
  "stops [CEvent e] = []" "stops [CWait q] = []"
  by (simp_all add: stops_def stop_of_def)

lemma starts_inspect [simp]: "starts (inspect_calls h) = []" "stops (inspect_calls h) = []"
  by (auto simp: inspect_calls_def starts_def stops_def start_of_def stop_of_def)

lemma starts_stops [simp]:
  "starts (map (\<lambda>(s, x). CStop s x) ls) = []" "stops (map (\<lambda>(s, x). CStop s x) ls) = ls"
  by (induction ls) (auto simp: starts_def stops_def start_of_def stop_of_def)

definition tr :: "('w, 'p) startup \<Rightarrow> 'p call list" where
  "tr s = mc_trace (su_machine s)"

definition running_leaves :: "('w, 'p) startup \<Rightarrow> (execution_scope \<times> 'p execution_handle) list" where
  "running_leaves s =
     map (\<lambda>r. (rsc_scope r, rsc_handle r)) (su_scopes s) @
     concat (map (\<lambda>c. handle_leaves (rc_handle c)) (su_systems s))"

text \<open>
  The part of the local state the balance depends on; a quiet action does not change it.
\<close>

definition view where
  "view s = (su_scopes s, su_systems s, starts (tr s), stops (tr s))"

definition quiet :: "(('w, 'p) startup, 'a) act \<Rightarrow> bool" where
  "quiet m = (\<forall>v. keeps (\<lambda>s. view s = v) m)"

lemma quiet_view: "quiet m \<Longrightarrow> m s = (r, t) \<Longrightarrow> view t = view s"
  unfolding quiet_def by (rule keepsD [of "\<lambda>u. view u = view s" m s r t]) (rule spec, assumption, rule refl)

lemma quietI: "(\<And>s. view (snd (m s)) = view s) \<Longrightarrow> quiet m"
  by (auto simp: quiet_def intro!: keepsI)

lemma quietD: "quiet m \<Longrightarrow> view (snd (m s)) = view s"
  by (rule quiet_view [of m s "fst (m s)"]) simp_all

lemma quiet_basic [simp, intro]:
  "quiet (act_return x)" "quiet (act_raise e)" "quiet (act_lift r)" "quiet (act_get g)"
  by (simp_all add: quiet_def)

lemma quiet_bind: "quiet m \<Longrightarrow> (\<And>x. quiet (f x)) \<Longrightarrow> quiet (act_bind m f)"
  by (simp add: quiet_def keeps_bind)

lemma quiet_try: "quiet m \<Longrightarrow> (\<And>e. quiet (h e)) \<Longrightarrow> quiet (act_try m h)"
  by (simp add: quiet_def keeps_try)

lemma quiet_if: "quiet m \<Longrightarrow> quiet n \<Longrightarrow> quiet (if b then m else n)"
  by simp

lemma quiet_option: "quiet m \<Longrightarrow> (\<And>x. quiet (f x)) \<Longrightarrow> quiet (case q of None \<Rightarrow> m | Some x \<Rightarrow> f x)"
  by (cases q) simp_all

lemma quiet_modify: "(\<And>s. view (f s) = view s) \<Longrightarrow> quiet (act_modify f)"
  by (auto simp: quiet_def intro!: keeps_modify)

lemma quiet_machine:
  fixes m :: "(('w, 'p) machine, 'a) act"
  assumes "calls m cs" and "starts cs = []" and "stops cs = []"
  shows "quiet (on_machine m)"
proof (rule quietI)
  fix s :: "('w, 'p) startup"
  obtain r t where m: "m (su_machine s) = (r, t)" by fastforce
  with assms(1) have "mc_trace t = mc_trace (su_machine s) @ cs" by (metis calls_of_def snd_conv)
  with m assms(2,3) show "view (snd (on_machine m s)) = view s"
    by (auto simp: view_def tr_def on_machine_def)
qed

lemma quiet_clock [simp, intro]: "quiet (read_clock env)"
  unfolding read_clock_def by (rule quiet_machine [OF calls_world]) simp_all

lemma quiet_note:
  "quiet (on_machine (note_call (CEvent e)))" "quiet (on_machine (note_call (CWait q)))"
  by (rule quiet_machine [OF calls_note]; simp)+

lemma quiet_world [simp, intro]: "quiet (on_machine (on_world m))"
  by (rule quiet_machine [OF calls_world]) simp_all

lemma quiet_inspect: "quiet (on_machine (inspect_system h))"
  by (rule quiet_machine [OF inspect_system_calls]) simp_all

lemmas quiet_rules = quiet_bind quiet_try quiet_if quiet_option quiet_note quiet_inspect

lemma quiet_emit [simp, intro]: "quiet (emit_event env e)"
  unfolding emit_event_def by (intro quiet_rules) auto

lemma quiet_emit_dependency [simp, intro]: "quiet (emit_dependency_event env k d m)"
  unfolding emit_dependency_event_def dependency_elapsed_def by (intro quiet_rules) auto

lemma quiet_raise_timeout [simp, intro]: "quiet (raise_timeout env d)"
  unfolding raise_timeout_def by (intro quiet_rules) auto

lemma view_update [simp]:
  "view (s\<lparr>su_satisfied := a\<rparr>) = view s" "view (s\<lparr>su_cache := b\<rparr>) = view s"
  "view (s\<lparr>su_waiting := c\<rparr>) = view s" "view (s\<lparr>su_unresolved := d\<rparr>) = view s"
  "view (s\<lparr>su_pending := e\<rparr>) = view s" "view (begin_round s) = view s"
  "view (child_running n q s) = view s"
  by (simp_all add: view_def tr_def begin_round_def child_running_def)

lemma quiet_mark [simp, intro]: "quiet (mark_satisfied env d)"
  unfolding mark_satisfied_def by (intro quiet_rules quiet_modify) auto

lemma quiet_observed [simp, intro]: "quiet (observed_dependency env d pre q)"
  unfolding observed_dependency_def cached_status_def
  by (intro quiet_rules quiet_modify) auto

lemma quiet_dependency [simp, intro]: "quiet (process_dependency env d)"
proof -
  have *: "quiet (act_bind (read_clock env) (\<lambda>now. if now > q then raise_timeout env d
        else act_bind (mark_satisfied env d) (\<lambda>_. act_return True)))" for q
    by (intro quiet_rules) auto
  show ?thesis
  proof (rule quietI)
    fix s
    show "view (snd (process_dependency env d s)) = view s"
      by (simp add: process_dependency_def Let_def quietD [OF quiet_observed] quietD [OF *] split: option.split)
  qed
qed

lemma quiet_dependencies [simp, intro]: "quiet (process_dependencies env ds)"
  by (induction ds) (auto intro!: quiet_bind)

lemma quiet_end_round [simp, intro]:
  fixes env :: "('w, 'p) start_env"
  shows "quiet (end_round env)"
proof (rule quietI)
  fix s :: "('w, 'p) startup"
  have "quiet (act_bind (read_clock env) (\<lambda>now.
            let delay = min q (l - now) in
            if delay > 0
            then act_bind (on_machine (note_call (CWait delay))) (\<lambda>_. on_machine (on_world (w delay)))
            else act_return ()))" for q l and w :: "rat \<Rightarrow> ('w, unit) act"
    unfolding Let_def by (intro quiet_rules) auto
  from quietD [OF this] show "view (snd (end_round env s)) = view s"
    by (simp add: end_round_def)
qed

section \<open>The balance of starts and stops\<close>

text \<open>
  Relative to the trace \<open>b\<close> at the beginning: \<open>clean\<close> while all that was started runs and
  nothing was stopped; \<open>dirty\<close> when a child gave up and stopped its own part; \<open>undone\<close> when
  everything started was stopped in reverse.
\<close>

definition clean :: "'p call list \<Rightarrow> ('w, 'p) startup \<Rightarrow> bool" where
  "clean b s = (starts (tr s) = starts b @ running_leaves s \<and> stops (tr s) = stops b)"

definition dirty :: "'p call list \<Rightarrow> ('w, 'p) startup \<Rightarrow> bool" where
  "dirty b s = (\<exists>C. starts (tr s) = starts b @ running_leaves s @ C \<and> stops (tr s) = stops b @ rev C)"

definition undone :: "'p call list \<Rightarrow> 'p call list \<Rightarrow> bool" where
  "undone b t = (\<exists>C. starts t = starts b @ C \<and> stops t = stops b @ rev C)"

lemma clean_dirty: "clean b s \<Longrightarrow> dirty b s"
  unfolding clean_def dirty_def by (intro exI [of _ "[]"]) simp

lemma clean_view: "view t = view s \<Longrightarrow> clean b t \<longleftrightarrow> clean b s"
  by (simp add: view_def clean_def running_leaves_def)

lemma quiet_clean: "quiet m \<Longrightarrow> clean b s \<Longrightarrow> m s = (r, t) \<Longrightarrow> clean b t"
  using quiet_view clean_view by metis

text \<open>
  \<open>settles P Q m\<close>: from a state where \<open>P\<close> holds, \<open>m\<close> returns in \<open>P\<close> or raises in \<open>Q\<close>.
\<close>

definition settles :: "('s \<Rightarrow> bool) \<Rightarrow> ('s \<Rightarrow> bool) \<Rightarrow> ('s, 'a) pact \<Rightarrow> bool" where
  "settles P Q m = (\<forall>s r t. P s \<longrightarrow> m s = Some (r, t) \<longrightarrow> (case r of Inl _ \<Rightarrow> Q t | Inr _ \<Rightarrow> P t))"

lemma settlesD: "settles P Q m \<Longrightarrow> P s \<Longrightarrow> m s = Some (r, t) \<Longrightarrow> (case r of Inl _ \<Rightarrow> Q t | Inr _ \<Rightarrow> P t)"
  unfolding settles_def by blast

lemma settles_bind:
  assumes m: "settles P Q m" and f: "\<And>x. settles P Q (f x)"
  shows "settles P Q (pact_bind m f)"
  unfolding settles_def
proof (intro allI impI)
  fix s r t assume P: "P s" and run: "pact_bind m f s = Some (r, t)"
  from run show "case r of Inl _ \<Rightarrow> Q t | Inr _ \<Rightarrow> P t"
  proof (cases rule: pact_bind_cases)
    case (err e)
    with settlesD [OF m P err(1)] show ?thesis by simp
  next
    case (ok x u)
    from settlesD [OF m P ok(1)] have "P u" by simp
    from settlesD [OF f this ok(2)] show ?thesis .
  qed
qed

lemma settles_for: "(\<And>x. x \<in> set xs \<Longrightarrow> settles P Q (f x)) \<Longrightarrow> settles P Q (pact_for xs f)"
proof (induction xs)
  case Nil
  show ?case by (simp add: settles_def pact_of_def act_return_def)
next
  case (Cons x xs)
  then show ?case by (auto intro!: settles_bind)
qed

lemma settles_while:
  assumes "settles P Q step"
  shows "settles P Q (while_pending step)"
proof -
  have main: "st = step \<longrightarrow> P s \<longrightarrow> (case fst y of Inl _ \<Rightarrow> Q (snd y) | Inr _ \<Rightarrow> P (snd y))"
    if "while_pending st s = Some y" for st s y
    using that
  proof (rule while_pending.raw_induct [rotated])
    fix w st s y
    assume IH: "\<And>st s y. w st s = Some y \<Longrightarrow>
        st = step \<longrightarrow> P s \<longrightarrow> (case fst y of Inl _ \<Rightarrow> Q (snd y) | Inr _ \<Rightarrow> P (snd y))"
      and body: "(if su_pending s = [] then Some (Inr (), s)
          else Option.bind (st s) (\<lambda>(r, t). case r of Inl e \<Rightarrow> Some (Inl e, t) | Inr _ \<Rightarrow> w st t)) = Some y"
    show "st = step \<longrightarrow> P s \<longrightarrow> (case fst y of Inl _ \<Rightarrow> Q (snd y) | Inr _ \<Rightarrow> P (snd y))"
    proof (intro impI)
      assume st: "st = step" and P: "P s"
      show "case fst y of Inl _ \<Rightarrow> Q (snd y) | Inr _ \<Rightarrow> P (snd y)"
      proof (cases "su_pending s = []")
        case True
        with body P show ?thesis by auto
      next
        case False
        with body st obtain r t where run: "step s = Some (r, t)"
          and y: "(case r of Inl e \<Rightarrow> Some (Inl e, t) | Inr _ \<Rightarrow> w step t) = Some y"
          by (cases "step s") auto
        from settlesD [OF assms P run] y IH [of step t y] show ?thesis by (cases r) auto
      qed
    qed
  qed
  show ?thesis unfolding settles_def
  proof (intro allI impI)
    fix s r t assume "P s" and run: "while_pending step s = Some (r, t)"
    with main [OF run] show "case r of Inl _ \<Rightarrow> Q t | Inr _ \<Rightarrow> P t" by (cases r) simp_all
  qed
qed

lemma settles_quiet: "quiet m \<Longrightarrow> settles (clean b) (dirty b) (pact_of m)"
  unfolding settles_def pact_of_def
  by (auto dest: quiet_clean clean_dirty split: sum.split)

section \<open>Starting a child\<close>

text \<open>What the recursive call of \<open>start\<close> promises for a child.\<close>

definition balanced_result ::
    "('w, 'p) prepared_system \<Rightarrow> 'p call list \<Rightarrow> py_error + ('w, 'p) system_handle \<Rightarrow> 'p call list \<Rightarrow> bool" where
  "balanced_result x b r t =
     (case r of
        Inr h \<Rightarrow> starts t = starts b @ handle_leaves h \<and> stops t = stops b \<and> sh_prepared h = x
      | Inl _ \<Rightarrow> undone b t)"

definition starter_balanced ::
    "('w, 'p) prepared_child \<Rightarrow> (('w, 'p) machine, ('w, 'p) system_handle) pact \<Rightarrow> bool" where
  "starter_balanced c m =
     (ps_plan (pc_execution c) = in_plan (pc_instance c) \<and>
      (\<forall>s r t. m s = Some (r, t) \<longrightarrow> balanced_result (pc_execution c) (mc_trace s) r (mc_trace t)))"

lemma settles_start_child:
  assumes bal: "starter_balanced c m"
  shows "settles (clean b) (dirty b) (start_child env c m)"
  unfolding settles_def
proof (intro allI impI)
  fix s r t assume clean: "clean b s" and run: "start_child env c m s = Some (r, t)"
  show "case r of Inl _ \<Rightarrow> dirty b t | Inr _ \<Rightarrow> clean b t"
  proof (cases "on_machine_p m s")
    case None
    with run show ?thesis by (simp add: start_child_def pact_bind_def pact_try_def)
  next
    case (Some q)
    then obtain r' mt where m: "m (su_machine s) = Some (r', mt)" and q: "q = (r', s\<lparr>su_machine := mt\<rparr>)"
      by (auto simp: on_machine_p_def split: option.splits)
    have res: "balanced_result (pc_execution c) (tr s) r' (mc_trace mt)"
      using bal m unfolding starter_balanced_def tr_def by blast
    show ?thesis
    proof (cases r')
      case (Inl e)
      then have "undone (tr s) (mc_trace mt)" using res by (simp add: balanced_result_def)
      with clean have "dirty b (s\<lparr>su_machine := mt\<rparr>)"
        by (auto simp: clean_def dirty_def undone_def tr_def running_leaves_def)
      with run Some q Inl show ?thesis
        by (auto simp: start_child_def pact_bind_def pact_try_def pact_of_def act_raise_def)
    next
      case (Inr h)
      then have h: "starts (mc_trace mt) = starts (tr s) @ handle_leaves h"
        "stops (mc_trace mt) = stops (tr s)" "sh_prepared h = pc_execution c"
        using res by (simp_all add: balanced_result_def)
      let ?rc = "RunningChild (pc_instance c) h"
      let ?u = "s\<lparr>su_machine := mt, su_systems := su_systems s @ [?rc]\<rparr>"
      have "mk_RunningChild (pc_instance c) h = Inr ?rc"
        using bal h(3) by (simp add: mk_RunningChild_def starter_balanced_def)
      then have "emit_event env (child_started_event env (pc_name c) (sh_id h)) ?u = (r, t)"
        using run Some q Inr
        by (simp add: start_child_def pact_bind_def pact_try_def pact_of_def act_simps)
      moreover have "clean b ?u" using clean h by (simp add: clean_def tr_def running_leaves_def)
      ultimately have "clean b t" using quiet_clean [OF quiet_emit] by blast
      then show ?thesis by (cases r) (simp_all add: clean_dirty)
    qed
  qed
qed

lemma starter_named_set: "starter_named children name = Some (c, m) \<Longrightarrow> (c, m) \<in> set children \<and> pc_name c = name"
  by (auto simp: starter_named_def dest!: map_of_SomeD)

lemma settles_process_child:
  assumes "\<And>c m. (c, m) \<in> set children \<Longrightarrow> starter_balanced c m"
  shows "settles (clean b) (dirty b) (process_child env deps children name)"
proof -
  have "settles (clean b) (dirty b) (start_child env c m)" if "starter_named children name = Some (c, m)" for c m
    using starter_named_set [OF that] assms by (auto intro: settles_start_child)
  then show ?thesis
    unfolding process_child_def
    by (auto intro!: settles_bind settles_quiet quiet_modify split: option.split)
qed

lemma settles_children:
  assumes "\<And>c m. (c, m) \<in> set children \<Longrightarrow> starter_balanced c m"
  shows "settles (clean b) (dirty b) (start_children env startup children)"
proof (cases startup)
  case None
  then show ?thesis unfolding start_children_def
    using assms by (auto intro!: settles_for settles_start_child)
next
  case (Some st)
  have "settles (clean b) (dirty b) (pact_for xs (process_child env (st_dependencies st) children))" for xs
    by (intro settles_for settles_process_child assms)
  then have "settles (clean b) (dirty b) (\<lambda>s. pact_for (su_pending s) (process_child env (st_dependencies st) children) s)"
    unfolding settles_def by blast
  then have "settles (clean b) (dirty b) (scheduler_round env (st_dependencies st) children)"
    unfolding scheduler_round_def by (auto intro!: settles_bind settles_quiet quiet_modify)
  then show ?thesis unfolding start_children_def Some
    by (auto intro!: settles_bind settles_quiet quiet_modify settles_while)
qed

section \<open>Rollback\<close>

lemma calls_on_machine: "calls m cs \<Longrightarrow> calls_of tr (on_machine m) cs"
  unfolding calls_of_def on_machine_def tr_def by (auto split: prod.split) (metis snd_conv)

lemma collect_error:
  assumes "calls m cs"
  shows "total_act (collect_error (on_machine m) w)" and "calls_of tr (collect_error (on_machine m) w) cs"
  unfolding collect_error_def using calls_on_machine [OF assms]
  by (auto intro!: total_act_try calls_try calls_then)

lemma rollback_calls:
  assumes "\<not> timeout_negative tm"
  shows "\<exists>errors u. rollback tm s = (Inr errors, u) \<and>
           tr u = tr s @ map (\<lambda>(s, x). CStop s x) (rev (running_leaves s))"
proof -
  let ?m1 = "act_seq (map (\<lambda>c. collect_error (on_machine (stop_system (rc_handle c) tm))
                       (''systems.'' @ rc_name c)) (rev (su_systems s)))"
  let ?m2 = "act_seq (map (\<lambda>r. collect_error (on_machine (call_stop r tm))
                       (scope_id (rsc_scope r))) (rev (su_scopes s)))"
  note c1 = collect_error [OF stop_system_calls [OF assms]]
  note c2 = collect_error [OF calls_call_stop]
  have "calls_of tr ?m1 (concat (map (\<lambda>c. stop_calls (rc_handle c)) (rev (su_systems s))))"
    by (rule calls_seq) (use c1 in blast)
  moreover have "calls_of tr ?m2 (concat (map (\<lambda>r. [CStop (rsc_scope r) (rsc_handle r)]) (rev (su_scopes s))))"
    by (rule calls_seq) (use c2 in blast)
  moreover have t1: "total_act ?m1" and t2: "total_act ?m2"
    by (rule total_act_seq; use c1 c2 in blast)+
  ultimately have c: "calls_of tr (act_bind ?m1 (\<lambda>e1. act_bind ?m2 (\<lambda>e2. act_return (concat e1 @ concat e2))))
      (concat (map (\<lambda>c. stop_calls (rc_handle c)) (rev (su_systems s))) @
       concat (map (\<lambda>r. [CStop (rsc_scope r) (rsc_handle r)]) (rev (su_scopes s))))"
    by (intro calls_bind calls_then) auto
  have "total_act (act_bind ?m1 (\<lambda>e1. act_bind ?m2 (\<lambda>e2. act_return (concat e1 @ concat e2))))"
    using t1 t2 by (intro total_act_bind) auto
  then obtain errors u where run: "rollback tm s = (Inr errors, u)"
    unfolding rollback_def total_act_def by blast
  have leaves: "concat (map (\<lambda>c. stop_calls (rc_handle c)) (rev (su_systems s))) @
       concat (map (\<lambda>r. [CStop (rsc_scope r) (rsc_handle r)]) (rev (su_scopes s))) =
       map (\<lambda>(s, x). CStop s x) (rev (running_leaves s))"
    by (simp add: running_leaves_def stop_calls_def rev_concat map_concat rev_map comp_def)
  from c [unfolded calls_of_def, rule_format, of s] run have "tr u = tr s @ map (\<lambda>(s, x). CStop s x) (rev (running_leaves s))"
    unfolding rollback_def leaves by simp
  with run show ?thesis by blast
qed

lemma rollback_undoes:
  assumes "\<not> timeout_negative tm" and "dirty b s"
  shows "\<exists>errors u. rollback tm s = (Inr errors, u) \<and> undone b (tr u)"
proof -
  from rollback_calls [OF assms(1), of s] obtain errors u where run: "rollback tm s = (Inr errors, u)"
    and "tr u = tr s @ map (\<lambda>(s, x). CStop s x) (rev (running_leaves s))" by blast
  moreover from assms(2) obtain C where "starts (tr s) = starts b @ running_leaves s @ C"
    "stops (tr s) = stops b @ rev C" unfolding dirty_def by blast
  ultimately have "undone b (tr u)"
    unfolding undone_def by (intro exI [of _ "running_leaves s @ C"]) simp
  with run show ?thesis by blast
qed

lemma startup_failed_undone:
  assumes "\<not> timeout_negative tm" and "dirty b s" and "startup_failed tm exc s = (r, t)"
  shows "undone b (tr t) \<and> (\<exists>e. r = Inl e)"
proof -
  from rollback_undoes [OF assms(1,2)] obtain errors u where
    "rollback tm s = (Inr errors, u)" "undone b (tr u)" by blast
  with assms(3) show ?thesis
    by (auto simp: startup_failed_def act_simps Let_def is_orchestration_error_def
             split: py_error.splits if_splits)
qed

section \<open>Direct scopes\<close>

lemma start_scope_clean:
  assumes tm: "\<not> timeout_negative tm" and clean: "clean b s" and none: "su_systems s = []"
    and run: "start_scope tm x s = (r, t)"
  shows "case r of Inl _ \<Rightarrow> undone b (tr t) | Inr _ \<Rightarrow> clean b t \<and> su_systems t = []"
proof -
  obtain q m where m: "backend_start (psc_backend x) (psc_prepared x) (mc_world (su_machine s)) = (q, m)"
    by fastforce
  show ?thesis
  proof (cases q)
    case (Inl e)
    let ?u = "s\<lparr>su_machine := su_machine s\<lparr>mc_world := m\<rparr>\<rparr>"
    have call: "on_machine (call_start x) s = (Inl e, ?u)"
      by (simp add: on_machine_def call_start_def act_simps on_world_def m Inl)
    have "clean b ?u" using clean by (simp add: clean_def tr_def running_leaves_def)
    then obtain errors v where "rollback tm ?u = (Inr errors, v)" "undone b (tr v)"
      using rollback_undoes [OF tm clean_dirty] by blast
    with run call show ?thesis by (auto simp: start_scope_def act_simps)
  next
    case (Inr h)
    let ?u = "s\<lparr>su_machine := su_machine s\<lparr>mc_world := m,
        mc_trace := mc_trace (su_machine s) @ [CStart (psc_scope x) h]\<rparr>\<rparr>"
    have call: "on_machine (call_start x) s = (Inr h, ?u)"
      by (simp add: on_machine_def call_start_def note_call_def act_simps on_world_def m Inr)
    with run have "r = Inr ()" and t: "t = ?u\<lparr>su_scopes := su_scopes s @
        [\<lparr>rsc_scope = psc_scope x, rsc_backend = psc_backend x, rsc_handle = h\<rparr>]\<rparr>"
      by (auto simp: start_scope_def act_simps)
    moreover have "clean b t" "su_systems t = []"
      using clean none unfolding t by (simp_all add: clean_def tr_def running_leaves_def)
    ultimately show ?thesis by simp
  qed
qed

lemma start_scopes_clean:
  assumes tm: "\<not> timeout_negative tm"
  shows "clean b s \<Longrightarrow> su_systems s = [] \<Longrightarrow> act_for xs (start_scope tm) s = (r, t) \<Longrightarrow>
    (case r of Inl _ \<Rightarrow> undone b (tr t) | Inr _ \<Rightarrow> clean b t \<and> su_systems t = [])"
proof (induction xs arbitrary: s)
  case (Cons x xs)
  obtain q u where x: "start_scope tm x s = (q, u)" by fastforce
  from start_scope_clean [OF tm Cons.prems(1,2) x] Cons x show ?case
    by (cases q) (auto simp: act_simps)
qed (auto simp: act_simps)

section \<open>The whole start\<close>

lemma run_startup_balanced:
  assumes tm: "\<not> timeout_negative (se_timeout env)"
    and children: "\<And>c m. (c, m) \<in> set children \<Longrightarrow> starter_balanced c m"
    and run: "run_startup env x children (initial_startup m) = Some (r, t)"
  shows "balanced_result x (mc_trace m) r (tr t)"
proof -
  let ?b = "mc_trace m" and ?s = "initial_startup m"
  have init: "clean ?b ?s" "su_systems ?s = []"
    by (simp_all add: initial_startup_def clean_def tr_def running_leaves_def)
  obtain q u where scopes: "act_for (ps_scopes x) (start_scope (se_timeout env)) ?s = (q, u)" by fastforce
  note clean = start_scopes_clean [OF tm init scopes]
  show ?thesis
  proof (cases q)
    case (Inl e)
    with clean run scopes show ?thesis
      by (auto simp: run_startup_def pact_bind_def pact_of_def balanced_result_def)
  next
    case (Inr _)
    let ?kids = "start_children env (pl_system_startup (plan_body (ps_plan x))) children"
    from run scopes Inr obtain q' v where kids: "?kids u = Some (q', v)"
      by (auto simp: run_startup_def pact_bind_def pact_of_def pact_try_def split: option.splits)
    from settlesD [OF settles_children [OF children] _ kids, of ?b] clean Inr
    have settled: "case q' of Inl _ \<Rightarrow> dirty ?b v | Inr _ \<Rightarrow> clean ?b v" by simp
    show ?thesis
    proof (cases q')
      case (Inl e)
      obtain r' :: "unit result" and w where failed: "startup_failed (se_timeout env) e v = (r', w)" by fastforce
      from startup_failed_undone [OF tm _ this, of ?b] settled Inl
      have "undone ?b (tr w)" "\<exists>e. r' = Inl e" by auto
      with run scopes \<open>q = Inr _\<close> kids Inl failed show ?thesis
        by (auto simp: run_startup_def pact_bind_def pact_of_def pact_try_def balanced_result_def)
    next
      case (Inr _)
      with run scopes \<open>q = Inr _\<close> kids have "t = v" and
        "r = Inr (SystemExecutionHandle (se_execution_id env) x (su_scopes v) (su_systems v))"
        by (auto simp: run_startup_def pact_bind_def pact_of_def pact_try_def act_simps)
      with settled Inr show ?thesis
        by (simp add: balanced_result_def clean_def running_leaves_def handle_leaves.simps [of "SystemExecutionHandle _ _ _ _"])
    qed
  qed
qed

text \<open>Prepared children belong to the plans of their instances, at every level.\<close>

fun matched :: "('w, 'p) prepared_system \<Rightarrow> bool" where
  "matched x = list_all (\<lambda>c. ps_plan (pc_execution c) = in_plan (pc_instance c) \<and> matched (pc_execution c))
                 (ps_systems x)"

declare matched.simps [simp del]

lemma prepared_ok_matched: "prepared_ok x \<Longrightarrow> matched x"
proof (induction x rule: measure_induct_rule [where f = size])
  case (less x)
  then show ?case
    using size_pc_execution [of _ x]
    by (auto simp: matched.simps [of x] prepared_ok.simps [of x] list_all_iff)
qed

lemma on_world_trace: "on_world m s = (r, t) \<Longrightarrow> mc_trace t = mc_trace s"
  by (auto simp: on_world_def split: prod.splits)

lemma timeout_invalid_negative: "\<not> timeout_invalid tm \<Longrightarrow> \<not> timeout_negative tm"
  by (auto simp: timeout_invalid_def timeout_negative_def split: option.splits)

lemma start_body_balanced:
  assumes children: "\<And>c m. (c, m) \<in> set children \<Longrightarrow> starter_balanced c m"
    and run: "start_body orch tm sink x children m = Some (r, t)"
  shows "balanced_result x (mc_trace m) r (mc_trace t)"
proof (cases "timeout_invalid tm")
  case True
  with run show ?thesis
    by (auto simp: start_body_def pact_bind_def pact_of_def act_simps balanced_result_def undone_def)
next
  case False
  obtain q u where hex: "on_world (oc_uuid_hex orch) m = (q, u)" by fastforce
  let ?check = "check_startup (pl_system_startup (plan_body (ps_plan x))) (map (\<lambda>c. pc_name (fst c)) children)"
  note u = on_world_trace [OF hex]
  show ?thesis
  proof (cases q)
    case (Inl e)
    with run hex False u show ?thesis
      by (auto simp: start_body_def pact_bind_def pact_of_def act_simps balanced_result_def undone_def)
  next
    case q: (Inr digits)
    show ?thesis
    proof (cases ?check)
      case (Inl e)
      with run hex False q u show ?thesis
        by (auto simp: start_body_def pact_bind_def pact_of_def act_simps balanced_result_def undone_def)
    next
      case (Inr _)
      with run hex False q obtain v where
        "run_startup \<lparr>se_orchestrator = orch, se_timeout = tm, se_sink = sink,
             se_execution_id = ''system-'' @ take 12 digits, se_system = pl_system (plan_body (ps_plan x))\<rparr>
            x children (initial_startup u) = Some (r, v)" and "t = su_machine v"
        by (auto simp: start_body_def pact_bind_def pact_of_def act_simps split: option.splits)
      with run_startup_balanced [OF _ children this(1)] timeout_invalid_negative [OF False] u
      show ?thesis by (simp add: tr_def)
    qed
  qed
qed

lemma start_system_result:
  "matched x \<Longrightarrow> start_system orch tm sink x m = Some (r, t) \<Longrightarrow> balanced_result x (mc_trace m) r (mc_trace t)"
proof (induction x arbitrary: m r t rule: measure_induct_rule [where f = size])
  case (less x)
  have "starter_balanced c (start_system orch tm sink (pc_execution c))" if "c \<in> set (ps_systems x)" for c
    using less that size_pc_execution [OF that]
    by (auto simp: starter_balanced_def matched.simps [of x] list_all_iff)
  then show ?case
    using less.prems(2) unfolding start_system.simps [of orch tm sink x]
    by (intro start_body_balanced) auto
qed

section \<open>Code equations\<close>

definition starter_of where
  "starter_of orch tm sink c = (c, start_system orch tm sink (pc_execution c))"

lemma starter_of_code [code]:
  "starter_of orch tm sink (PreparedChild i x) = (PreparedChild i x, start_system orch tm sink x)"
  by (simp add: starter_of_def)

lemma start_system_code [code]:
  "start_system orch tm sink x = start_body orch tm sink x (map (starter_of orch tm sink) (ps_systems x))"
  unfolding start_system.simps [of orch tm sink x] starter_of_def ..

section \<open>Properties\<close>

text \<open>
  C1: A start that fails, in whatever scope or child and for whatever reason (a backend, the
  clock, the event sink, a dependency), has stopped every backend execution that it had
  started, each exactly once and in the reverse of the order of the starts.
\<close>

theorem failed_start_is_undone:
  assumes "matched x" and "start_system orch tm sink x m = Some (Inl e, t)"
  shows "\<exists>C. starts (mc_trace t) = starts (mc_trace m) @ C \<and> stops (mc_trace t) = stops (mc_trace m) @ rev C"
  using start_system_result [OF assms] by (simp add: balanced_result_def undone_def)

text \<open>The start of two scopes whose second backend refuses.\<close>

definition half_started :: "(nat, unit) prepared_system" where
  "half_started = (let plan = SystemExecutionPlan (blank_body ''demo'') [] in
     sample_system [sample_prepared_scope plan ''a'' True, sample_prepared_scope plan ''b'' False])"

definition fresh_machine :: "(nat, unit) machine" where
  "fresh_machine = \<lparr>mc_world = 0, mc_trace = []\<rparr>"

definition failed_run :: "(py_error \<times> (nat, unit) machine) option" where
  "failed_run = (case start_system (sample_orchestrator []) None None half_started fresh_machine of
     Some (Inl e, t) \<Rightarrow> Some (e, t) | _ \<Rightarrow> None)"

theorem failed_start_is_undone_witness:
  "\<exists>e t C. start_system (sample_orchestrator []) None None half_started fresh_machine = Some (Inl e, t) \<and>
     starts (mc_trace t) = C \<and> stops (mc_trace t) = rev C"
proof -
  have "failed_run \<noteq> None" by code_simp
  then obtain e t where run: "start_system (sample_orchestrator []) None None half_started fresh_machine = Some (Inl e, t)"
    by (auto simp: failed_run_def split: option.splits sum.splits)
  have "matched half_started" by code_simp
  from failed_start_is_undone [OF this run] run show ?thesis by (auto simp: fresh_machine_def)
qed

text \<open>
  A start that succeeds stopped nothing; the handle it returns is for the prepared System
  it was given, and its leaves are exactly the executions it started, in that order.
\<close>

theorem successful_start_runs_all:
  assumes "matched x" and "start_system orch tm sink x m = Some (Inr h, t)"
  shows "starts (mc_trace t) = starts (mc_trace m) @ handle_leaves h \<and>
    stops (mc_trace t) = stops (mc_trace m) \<and> sh_prepared h = x"
  using start_system_result [OF assms] by (simp add: balanced_result_def)

definition two_scopes :: "(nat, unit) prepared_system" where
  "two_scopes = (let plan = SystemExecutionPlan (blank_body ''demo'') [] in
     sample_system [sample_prepared_scope plan ''a'' True, sample_prepared_scope plan ''b'' True])"

definition good_run :: "((nat, unit) system_handle \<times> (nat, unit) machine) option" where
  "good_run = (case start_system (sample_orchestrator []) None None two_scopes fresh_machine of
     Some (Inr h, t) \<Rightarrow> Some (h, t) | _ \<Rightarrow> None)"

theorem successful_start_runs_all_witness:
  "\<exists>h t. start_system (sample_orchestrator []) None None two_scopes fresh_machine = Some (Inr h, t) \<and>
     starts (mc_trace t) = handle_leaves h \<and> stops (mc_trace t) = []"
proof -
  have "good_run \<noteq> None" by code_simp
  then obtain h t where run: "start_system (sample_orchestrator []) None None two_scopes fresh_machine = Some (Inr h, t)"
    by (auto simp: good_run_def split: option.splits sum.splits)
  have "matched two_scopes" by code_simp
  from successful_start_runs_all [OF this run] run show ?thesis by (auto simp: fresh_machine_def)
qed

end
