(* ===== verification/Orchestrator_Schedule.thy ===== *)
theory Orchestrator_Schedule
  imports Orchestrator_Start
begin

text \<open>
  What a successful \<open>start\<close> returns: a handle of the shape of the prepared System, and, when
  the plan declares a startup, children started once each in an order in which every
  prerequisite comes before the child that depends on it.
\<close>

section \<open>Actions that keep the scheduler's bookkeeping\<close>

definition core where
  "core s = (su_systems s, su_pending s, su_by_name s, su_satisfied s)"

definition still :: "(('w, 'p) startup, 'a) act \<Rightarrow> bool" where
  "still m = (\<forall>s. core (snd (m s)) = core s)"

lemma stillD: "still m \<Longrightarrow> m s = (r, t) \<Longrightarrow> core t = core s"
  unfolding still_def by (metis snd_conv)

lemma still_basic [simp, intro]:
  "still (act_return x)" "still (act_raise e)" "still (act_lift r)" "still (act_get g)" "still (on_machine m)"
  by (simp_all add: still_def act_simps on_machine_def core_def split: prod.split)

lemma still_bind: "still m \<Longrightarrow> (\<And>x. still (f x)) \<Longrightarrow> still (act_bind m f)"
  unfolding still_def act_bind_def by (auto split: prod.splits sum.splits) (metis snd_conv)+

lemma still_if: "still m \<Longrightarrow> still n \<Longrightarrow> still (if b then m else n)"
  by simp

lemma still_option: "still m \<Longrightarrow> (\<And>x. still (f x)) \<Longrightarrow> still (case q of None \<Rightarrow> m | Some x \<Rightarrow> f x)"
  by (cases q) simp_all

lemma still_modify: "(\<And>s. core (f s) = core s) \<Longrightarrow> still (act_modify f)"
  by (simp add: still_def act_simps)

lemmas still_rules = still_bind still_if still_option

lemma still_clock [simp, intro]: "still (read_clock env)"
  by (simp add: read_clock_def)

lemma still_emit [simp, intro]: "still (emit_event env e)"
  unfolding emit_event_def by (intro still_rules) auto

lemma still_emit_dependency [simp, intro]: "still (emit_dependency_event env k d m)"
  unfolding emit_dependency_event_def dependency_elapsed_def by (intro still_rules) auto

lemma still_cached [simp, intro]: "still (cached_status d pre)"
  unfolding cached_status_def by (intro still_rules still_modify) (auto simp: core_def)

lemma raise_timeout_fails [simp]: "raise_timeout env d s \<noteq> (Inr x, t)"
  by (auto simp: raise_timeout_def act_bind_Inr)

lemma still_end_round [simp, intro]: "still (end_round env)"
  by (auto simp: still_def end_round_def act_simps read_clock_def on_machine_def core_def Let_def
           split: prod.splits sum.splits)

text \<open>A dependency is processed: what a result says about the satisfied ordinals.\<close>

definition settled_by ::
    "planned_dependency list \<Rightarrow> bool \<Rightarrow> ('w, 'p) startup \<Rightarrow> ('w, 'p) startup \<Rightarrow> bool" where
  "settled_by ds b s t =
     (su_systems t = su_systems s \<and> su_pending t = su_pending s \<and> su_by_name t = su_by_name s \<and>
      set (su_satisfied s) \<subseteq> set (su_satisfied t) \<and>
      (\<forall>i \<in> set (su_satisfied t). i \<in> set (su_satisfied s) \<or>
         (\<exists>d \<in> set ds. dp_ordinal d = i \<and> dp_requires d \<in> dom (map_of (su_by_name s)))) \<and>
      (b \<longrightarrow> (\<forall>d \<in> set ds. dp_ordinal d \<in> set (su_satisfied t))))"

lemma mark_satisfied_Inr:
  assumes "mark_satisfied env d s = (Inr x, t)"
  shows "su_systems t = su_systems s \<and> su_pending t = su_pending s \<and> su_by_name t = su_by_name s \<and>
    su_satisfied t = dp_ordinal d # su_satisfied s"
proof -
  from assms have "emit_dependency_event env DEPENDENCY_SATISFIED d None
      (s\<lparr>su_satisfied := dp_ordinal d # su_satisfied s\<rparr>) = (Inr x, t)"
    by (simp add: mark_satisfied_def act_simps)
  from stillD [OF still_emit_dependency this] show ?thesis by (simp add: core_def)
qed

lemma observed_dependency_Inr:
  assumes "observed_dependency env d pre q s = (Inr b, t)"
  shows "su_systems t = su_systems s \<and> su_pending t = su_pending s \<and> su_by_name t = su_by_name s \<and>
    su_satisfied t = (if b then dp_ordinal d # su_satisfied s else su_satisfied s)"
proof -
  from assms obtain st now u v where c: "cached_status d pre s = (Inr st, u)"
    and clock: "read_clock env u = (Inr now, v)"
    and rest: "(if now > q then raise_timeout env d
     else
       act_bind (act_try (act_lift (dependency_condition_satisfied d st)) (\<lambda>exc.
           act_bind (emit_dependency_event env DEPENDENCY_FAILED d (Some (exc_message exc))) (\<lambda>_.
           act_raise exc))) (\<lambda>satisfied.
       if satisfied then act_bind (mark_satisfied env d) (\<lambda>_. act_return True)
       else if now \<ge> q then raise_timeout env d
       else
         act_bind (act_get (\<lambda>s. dp_ordinal d \<in> set (su_waiting s))) (\<lambda>known.
         act_bind (if known then act_return ()
             else act_bind (act_modify (\<lambda>s. s\<lparr>su_waiting := dp_ordinal d # su_waiting s\<rparr>)) (\<lambda>_.
                  emit_dependency_event env DEPENDENCY_WAITING d None)) (\<lambda>_.
         act_bind (act_modify (\<lambda>s. s\<lparr>su_unresolved := su_unresolved s @ [q]\<rparr>)) (\<lambda>_.
         act_return False))))) v = (Inr b, t)"
    unfolding observed_dependency_def by (auto simp: act_bind_Inr)
  have core: "core v = core s" using stillD [OF still_cached c] stillD [OF still_clock clock] by simp
  have now: "\<not> now > q" using rest by (cases "now > q") auto
  show ?thesis
  proof (cases "dependency_condition_satisfied d st")
    case (Inl e)
    with rest now show ?thesis by (auto simp: act_bind_Inr act_try_def act_lift_def)
  next
    case (Inr sat)
    show ?thesis
    proof (cases sat)
      case True
      with rest now Inr obtain w where "mark_satisfied env d v = (Inr w, t)" "b"
        by (auto simp: act_bind_Inr act_try_def act_lift_def)
      from mark_satisfied_Inr [OF this(1)] this(2) core show ?thesis by (simp add: core_def)
    next
      case False
      have st: "still (act_bind (act_get (\<lambda>s. dp_ordinal d \<in> set (su_waiting s))) (\<lambda>known.
         act_bind (if known then act_return ()
             else act_bind (act_modify (\<lambda>s. s\<lparr>su_waiting := dp_ordinal d # su_waiting s\<rparr>)) (\<lambda>_.
                  emit_dependency_event env DEPENDENCY_WAITING d None)) (\<lambda>_.
         act_bind (act_modify (\<lambda>s. s\<lparr>su_unresolved := su_unresolved s @ [q]\<rparr>)) (\<lambda>_.
         act_return False))))"
        by (intro still_rules still_modify) (auto simp: core_def)
      have run: "act_bind (act_get (\<lambda>s. dp_ordinal d \<in> set (su_waiting s))) (\<lambda>known.
         act_bind (if known then act_return ()
             else act_bind (act_modify (\<lambda>s. s\<lparr>su_waiting := dp_ordinal d # su_waiting s\<rparr>)) (\<lambda>_.
                  emit_dependency_event env DEPENDENCY_WAITING d None)) (\<lambda>_.
         act_bind (act_modify (\<lambda>s. s\<lparr>su_unresolved := su_unresolved s @ [q]\<rparr>)) (\<lambda>_.
         act_return False))) v = (Inr b, t)"
        using rest now Inr False by (auto simp: act_bind_app act_try_def act_lift_def split: if_splits)
      have "\<not> b" using run by (auto simp: act_bind_Inr)
      with stillD [OF st run] core show ?thesis by (simp add: core_def)
    qed
  qed
qed

lemma process_dependency_Inr:
  assumes "process_dependency env d s = (Inr b, t)"
  shows "settled_by [d] b s t"
proof -
  consider (skip) "dp_ordinal d \<in> set (su_satisfied s)" "b" "t = s"
    | (absent) "\<not> b" "t = s"
    | (started) pre u v now where "map_of (su_by_name s) (dp_requires d) = Some pre" "dp_ordinal d \<notin> set (su_satisfied s)"
        "read_clock env s = (Inr now, u)" "mark_satisfied env d u = (Inr v, t)" "b"
    | (observed) pre q where "map_of (su_by_name s) (dp_requires d) = Some pre"
        "observed_dependency env d pre q s = (Inr b, t)"
    using assms unfolding process_dependency_def Let_def
    by (auto simp: act_bind_Inr split: if_splits option.splits)
  then show ?thesis
  proof cases
    case (started pre u v now)
    from stillD [OF still_clock started(3)] mark_satisfied_Inr [OF started(4)] started show ?thesis
      by (auto simp: settled_by_def core_def)
  next
    case (observed pre q)
    from observed_dependency_Inr [OF observed(2)] observed(1) show ?thesis
      by (auto simp: settled_by_def)
  qed (auto simp: settled_by_def)
qed

lemma process_dependencies_Inr:
  "process_dependencies env ds s = (Inr b, t) \<Longrightarrow> settled_by ds b s t"
proof (induction ds arbitrary: s b)
  case (Cons d ds)
  from Cons.prems obtain x u y where d: "process_dependency env d s = (Inr x, u)"
    and ds: "process_dependencies env ds u = (Inr y, t)" and b: "b = (x \<and> y)"
    by (auto simp: act_bind_Inr)
  from process_dependency_Inr [OF d] Cons.IH [OF ds] show ?case
    unfolding settled_by_def b by (auto 0 3)
qed (auto simp: settled_by_def)

section \<open>The scheduler's invariant\<close>

definition sched_ok ::
    "planned_dependency list \<Rightarrow> string list \<Rightarrow> ('w, 'p) startup \<Rightarrow> bool" where
  "sched_ok deps order s =
     (mset (map rc_name (su_systems s)) + mset (su_pending s) = mset order \<and>
      dom (map_of (su_by_name s)) \<subseteq> rc_name ` set (su_systems s) \<and>
      (\<forall>d \<in> set deps. dp_ordinal d \<in> set (su_satisfied s) \<longrightarrow> dp_requires d \<in> rc_name ` set (su_systems s)) \<and>
      (\<forall>xs rc ys. su_systems s = xs @ rc # ys \<longrightarrow>
         (\<forall>d \<in> set deps. dp_system d = rc_name rc \<longrightarrow> dp_requires d \<in> rc_name ` set xs)))"

lemma sched_ok_core: "core t = core s \<Longrightarrow> sched_ok deps order t \<longleftrightarrow> sched_ok deps order s"
  by (simp add: core_def sched_ok_def)

lemma settled_sched_ok:
  assumes "sched_ok deps order s" and "settled_by ds b s t" and "set ds \<subseteq> set deps"
    and inj: "inj_on dp_ordinal (set deps)"
  shows "sched_ok deps order t"
proof -
  have "dp_requires d \<in> rc_name ` set (su_systems s)"
    if "d \<in> set deps" "dp_ordinal d \<in> set (su_satisfied t)" for d
  proof (cases "dp_ordinal d \<in> set (su_satisfied s)")
    case True
    with assms(1) that show ?thesis by (simp add: sched_ok_def)
  next
    case False
    with assms(2) that obtain e where e: "e \<in> set ds" "dp_ordinal e = dp_ordinal d"
      "dp_requires e \<in> dom (map_of (su_by_name s))" unfolding settled_by_def by blast
    then have "e = d" using inj that assms(3) by (auto dest: inj_onD)
    with e assms(1) show ?thesis unfolding sched_ok_def by blast
  qed
  with assms(1,2) show ?thesis by (simp add: sched_ok_def settled_by_def)
qed

lemma start_child_Inr:
  assumes "start_child env c m s = Some (Inr x, t)"
  shows "\<exists>h u. m (su_machine s) = Some (Inr h, u) \<and> su_systems t = su_systems s @ [RunningChild (pc_instance c) h] \<and>
    su_pending t = su_pending s \<and> su_by_name t = su_by_name s \<and> su_satisfied t = su_satisfied s \<and>
    ps_plan (sh_prepared h) = in_plan (pc_instance c) \<and> su_scopes t = su_scopes s"
proof -
  from assms obtain h mt where m: "m (su_machine s) = Some (Inr h, mt)"
    and rest: "act_bind (act_lift (mk_RunningChild (pc_instance c) h)) (\<lambda>running.
       act_bind (act_modify (\<lambda>s. s\<lparr>su_systems := su_systems s @ [running]\<rparr>)) (\<lambda>_.
       emit_event env (child_started_event env (pc_name c) (sh_id h)))) (s\<lparr>su_machine := mt\<rparr>) = (Inr x, t)"
    by (auto simp: start_child_def pact_bind_def pact_try_def pact_of_def on_machine_p_def act_raise_def
             split: option.splits sum.splits)
  let ?rc = "RunningChild (pc_instance c) h"
  let ?u = "s\<lparr>su_machine := mt, su_systems := su_systems s @ [?rc]\<rparr>"
  from rest have mk: "mk_RunningChild (pc_instance c) h = Inr ?rc"
    and emit: "emit_event env (child_started_event env (pc_name c) (sh_id h)) ?u = (Inr x, t)"
    by (auto simp: act_bind_Inr mk_RunningChild_def act_modify_def split: if_splits)
  from stillD [OF still_emit emit] quiet_view [OF quiet_emit emit] mk m show ?thesis
    by (auto simp: core_def view_def mk_RunningChild_def split: if_splits)
qed

lemma append_eq_snoc: "as @ [a] = xs @ x # ys \<longleftrightarrow> (ys = [] \<and> as = xs \<and> a = x) \<or> (\<exists>zs. ys = zs @ [a] \<and> as = xs @ x # zs)"
  by (cases ys rule: rev_cases) auto

lemma moved_name:
  assumes "x \<in> set xs"
  shows "A + mset xs = add_mset x (A + mset (remove1 x xs))"
proof -
  have "mset xs = add_mset x (mset (remove1 x xs))" using assms by simp
  then show ?thesis by (metis union_mset_add_mset_right)
qed

lemma process_child_ok:
  assumes ok: "sched_ok deps order s" and inj: "inj_on dp_ordinal (set deps)"
    and pending: "name \<in> set (su_pending s)"
    and run: "process_child env deps children name s = Some (Inr x, t)"
  shows "sched_ok deps order t \<and> (su_pending t = su_pending s \<or> su_pending t = remove1 name (su_pending s))"
proof -
  let ?ds = "filter (\<lambda>d. dp_system d = name) deps"
  from run obtain b u where deps: "process_dependencies env ?ds s = (Inr b, u)"
    and rest: "(if \<not> b then pact_of (act_return ())
     else case starter_named children name of
       None \<Rightarrow> pact_of (act_raise (KeyErr name))
     | Some (child, starter) \<Rightarrow>
         pact_bind (pact_of (read_clock env)) (\<lambda>t0.
         pact_bind (start_child env child starter) (\<lambda>_.
         pact_of (act_modify (child_running name t0))))) u = Some (Inr x, t)"
    unfolding process_child_def by (auto simp: pact_of_def elim!: pact_bind_cases)
  note settled = process_dependencies_Inr [OF deps]
  have u: "sched_ok deps order u" "su_pending u = su_pending s"
    using settled_sched_ok [OF ok settled _ inj] settled by (auto simp: settled_by_def)
  show ?thesis
  proof (cases b)
    case False
    with rest u show ?thesis by (simp add: pact_of_def)
  next
    case True
    with rest obtain c m t0 v w where named: "starter_named children name = Some (c, m)"
      and clock: "read_clock env u = (Inr t0, v)" and start: "start_child env c m v = Some (Inr (), w)"
      and t: "t = child_running name t0 w"
      by (auto simp: pact_of_def act_raise_def act_modify_def elim!: pact_bind_cases split: option.splits)
    have v: "core v = core u" using stillD [OF still_clock clock] .
    from start_child_Inr [OF start] obtain h where w:
      "su_systems w = su_systems v @ [RunningChild (pc_instance c) h]" "su_pending w = su_pending v"
      "su_by_name w = su_by_name v" "su_satisfied w = su_satisfied v" by blast
    let ?rc = "RunningChild (pc_instance c) h"
    have name: "rc_name ?rc = name" using starter_named_set [OF named] by (simp add: rc_name_def pc_name_def)
    have sys: "su_systems t = su_systems u @ [?rc]" "su_pending t = remove1 name (su_pending s)"
      "su_satisfied t = su_satisfied u" "dom (map_of (su_by_name t)) = insert name (dom (map_of (su_by_name u)))"
      using w v u(2) by (auto simp: t child_running_def core_def)
    have req: "dp_requires d \<in> rc_name ` set (su_systems u)" if "d \<in> set deps" "dp_system d = name" for d
    proof -
      have "dp_ordinal d \<in> set (su_satisfied u)" using settled True that by (simp add: settled_by_def)
      with u(1) that show ?thesis by (simp add: sched_ok_def)
    qed
    have "mset (map rc_name (su_systems t)) + mset (su_pending t) = mset order"
      using u(1) by (simp add: sched_ok_def sys name u(2) moved_name [OF pending, symmetric] del: mset_remove1)
    moreover have "dom (map_of (su_by_name t)) \<subseteq> rc_name ` set (su_systems t)"
      using u(1) by (auto simp: sched_ok_def sys name)
    moreover have "\<forall>d \<in> set deps. dp_ordinal d \<in> set (su_satisfied t) \<longrightarrow> dp_requires d \<in> rc_name ` set (su_systems t)"
      using u(1) by (auto simp: sched_ok_def sys)
    moreover have "\<forall>xs rc ys. su_systems t = xs @ rc # ys \<longrightarrow>
         (\<forall>d \<in> set deps. dp_system d = rc_name rc \<longrightarrow> dp_requires d \<in> rc_name ` set xs)"
      using u(1) req by (auto simp: sched_ok_def sys name append_eq_snoc)
    ultimately show ?thesis using sys(2) by (simp add: sched_ok_def)
  qed
qed

text \<open>One round processes the children that were pending when it began.\<close>

lemma process_children_ok:
  assumes inj: "inj_on dp_ordinal (set deps)"
  shows "sched_ok deps order s \<Longrightarrow> distinct ns \<Longrightarrow> set ns \<subseteq> set (su_pending s) \<Longrightarrow>
    pact_for ns (process_child env deps children) s = Some (Inr x, t) \<Longrightarrow> sched_ok deps order t"
proof (induction ns arbitrary: s)
  case Nil
  then show ?case by (simp add: pact_of_def)
next
  case (Cons n ns)
  from Cons.prems(4) obtain y u where n: "process_child env deps children n s = Some (Inr y, u)"
    and ns: "pact_for ns (process_child env deps children) u = Some (Inr x, t)"
    by (auto elim!: pact_bind_cases)
  have u: "sched_ok deps order u" "su_pending u = su_pending s \<or> su_pending u = remove1 n (su_pending s)"
    using process_child_ok [OF Cons.prems(1) inj _ n] Cons.prems(3) by auto
  have "set ns \<subseteq> set (su_pending u)"
  proof
    fix k assume "k \<in> set ns"
    then have "k \<noteq> n" "k \<in> set (su_pending s)" using Cons.prems(2,3) by auto
    then show "k \<in> set (su_pending u)" using u(2) by auto
  qed
  with Cons.IH [OF u(1) _ _ ns] Cons.prems(2) show ?case by simp
qed

lemma sched_ok_distinct:
  assumes "distinct order" and "sched_ok deps order s"
  shows "distinct (su_pending s)"
proof -
  have "mset (map rc_name (su_systems s) @ su_pending s) = mset order"
    using assms(2) by (simp add: sched_ok_def)
  then have "distinct (map rc_name (su_systems s) @ su_pending s)"
    using assms(1) by (metis mset_eq_imp_distinct_iff)
  then show ?thesis by simp
qed

abbreviation anything :: "'s \<Rightarrow> bool" where
  "anything \<equiv> (\<lambda>_. True)"

lemma settlesI:
  "(\<And>s x t. P s \<Longrightarrow> m s = Some (Inr x, t) \<Longrightarrow> P t) \<Longrightarrow> settles P anything m"
  by (auto simp: settles_def split: sum.splits)

lemma settles_Inr: "settles P Q m \<Longrightarrow> P s \<Longrightarrow> m s = Some (Inr x, t) \<Longrightarrow> P t"
  by (auto dest: settlesD)

lemma begin_round_core: "core (begin_round s) = core s"
  by (simp add: begin_round_def core_def)

lemma scheduler_round_ok:
  assumes "inj_on dp_ordinal (set deps)" and "distinct order"
  shows "settles (sched_ok deps order) anything (scheduler_round env deps children)"
proof (rule settlesI)
  fix s x t
  assume ok: "sched_ok deps order s" and run: "scheduler_round env deps children s = Some (Inr x, t)"
  let ?s = "begin_round s"
  from run obtain y u where body: "pact_for (su_pending ?s) (process_child env deps children) ?s = Some (Inr y, u)"
    and fin: "end_round env u = (Inr x, t)"
    by (auto simp: scheduler_round_def pact_of_def act_modify_def elim!: pact_bind_cases)
  have s: "sched_ok deps order ?s" using ok by (simp add: sched_ok_core [OF begin_round_core])
  from process_children_ok [OF assms(1) s sched_ok_distinct [OF assms(2) s] subset_refl body]
  show "sched_ok deps order t" by (simp add: sched_ok_core [OF stillD [OF still_end_round fin]])
qed

lemma while_pending_empty:
  "while_pending step s = Some (Inr x, t) \<Longrightarrow> su_pending t = []"
proof -
  have "\<forall>x t. y = (Inr x, t) \<longrightarrow> su_pending t = []" if "while_pending st s = Some y" for st s y
    using that
  proof (rule while_pending.raw_induct [rotated])
    fix w st s y
    assume IH: "\<And>st s y. w st s = Some y \<Longrightarrow> \<forall>x t. y = (Inr x, t) \<longrightarrow> su_pending t = []"
      and body: "(if su_pending s = [] then Some (Inr (), s)
          else Option.bind (st s) (\<lambda>(r, t). case r of Inl e \<Rightarrow> Some (Inl e, t) | Inr _ \<Rightarrow> w st t)) = Some y"
    show "\<forall>x t. y = (Inr x, t) \<longrightarrow> su_pending t = []"
    proof (cases "su_pending s = []")
      case True
      with body show ?thesis by auto
    next
      case False
      with body obtain r t where "st s = Some (r, t)"
        and y: "(case r of Inl e \<Rightarrow> Some (Inl e, t) | Inr _ \<Rightarrow> w st t) = Some y"
        by (cases "st s") auto
      with IH [of st t y] show ?thesis by (cases r) auto
    qed
  qed
  then show "while_pending step s = Some (Inr x, t) \<Longrightarrow> su_pending t = []" by blast
qed

section \<open>What a start returns\<close>

definition scope_started :: "('w, 'p) prepared_scope \<Rightarrow> ('w, 'p) running_scope \<Rightarrow> bool" where
  "scope_started x r =
     (rsc_scope r = psc_scope x \<and> rsc_backend r = psc_backend x)"

lemma start_scope_Inr:
  assumes "start_scope tm x s = (Inr y, t)"
  shows "\<exists>r. scope_started x r \<and> su_scopes t = su_scopes s @ [r] \<and> core t = core s"
proof -
  from assms obtain h u where call: "on_machine (call_start x) s = (Inr h, u)"
    and t: "t = u\<lparr>su_scopes := su_scopes u @ [\<lparr>rsc_scope = psc_scope x, rsc_backend = psc_backend x, rsc_handle = h\<rparr>]\<rparr>"
    by (auto simp: start_scope_def act_bind_Inr act_try_def act_modify_def split: prod.splits sum.splits)
  have "su_scopes u = su_scopes s" using call
    by (auto simp: on_machine_def split: prod.splits)
  with t stillD [OF still_basic(5) call] show ?thesis by (auto simp: scope_started_def core_def)
qed

lemma start_scopes_Inr:
  "act_for xs (start_scope tm) s = (Inr y, t) \<Longrightarrow>
    \<exists>rs. list_all2 scope_started xs rs \<and> su_scopes t = su_scopes s @ rs \<and> core t = core s"
proof (induction xs arbitrary: s)
  case (Cons x xs)
  from Cons.prems obtain u z where x: "start_scope tm x s = (Inr z, u)"
    and xs: "act_for xs (start_scope tm) u = (Inr y, t)" by (auto simp: act_bind_Inr)
  from start_scope_Inr [OF x] obtain r where r: "scope_started x r" "su_scopes u = su_scopes s @ [r]"
    "core u = core s" by blast
  from Cons.IH [OF xs] obtain rs where "list_all2 scope_started xs rs" "su_scopes t = su_scopes u @ rs"
    "core t = core u" by blast
  with r show ?case by (intro exI [of _ "r # rs"]) simp
qed simp

text \<open>Every running child was started by the starter of a prepared child; the scopes stay.\<close>

definition came_from ::
    "('w, 'p) starters \<Rightarrow> ('w, 'p) running_child \<Rightarrow> bool" where
  "came_from children rc = (\<exists>c m u v. (c, m) \<in> set children \<and> rc_instance rc = pc_instance c \<and>
     m u = Some (Inr (rc_handle rc), v))"

definition kids_ok where
  "kids_ok children scopes s = (su_scopes s = scopes \<and> list_all (came_from children) (su_systems s))"

lemma kids_ok_view: "view t = view s \<Longrightarrow> kids_ok cs sc t = kids_ok cs sc s"
  by (simp add: view_def kids_ok_def)

lemma settles_kids_quiet: "quiet m \<Longrightarrow> settles (kids_ok cs sc) anything (pact_of m)"
  by (rule settlesI) (metis kids_ok_view option.inject pact_of_def quiet_view)

lemma start_child_kids:
  assumes "(c, m) \<in> set cs"
  shows "settles (kids_ok cs sc) anything (start_child env c m)"
proof (rule settlesI)
  fix s x t assume ok: "kids_ok cs sc s" and run: "start_child env c m s = Some (Inr x, t)"
  from start_child_Inr [OF run] obtain h u where m: "m (su_machine s) = Some (Inr h, u)"
    and t: "su_systems t = su_systems s @ [RunningChild (pc_instance c) h]" "su_scopes t = su_scopes s" by blast
  have "came_from cs (RunningChild (pc_instance c) h)"
    unfolding came_from_def
    by (intro exI [of _ c] exI [of _ m] exI [of _ "su_machine s"] exI [of _ u]) (simp add: assms m)
  with ok t show "kids_ok cs sc t" by (simp add: kids_ok_def)
qed

lemma process_child_kids: "settles (kids_ok cs sc) anything (process_child env deps cs name)"
proof -
  have "settles (kids_ok cs sc) anything (start_child env c m)" if "starter_named cs name = Some (c, m)" for c m
    using starter_named_set [OF that] by (auto intro: start_child_kids)
  then show ?thesis
    unfolding process_child_def
    by (auto intro!: settles_bind settles_kids_quiet quiet_modify split: option.split)
qed

lemma start_children_kids: "settles (kids_ok cs sc) anything (start_children env startup cs)"
proof (cases startup)
  case None
  then show ?thesis unfolding start_children_def
    by (auto intro!: settles_for start_child_kids)
next
  case (Some st)
  have "settles (kids_ok cs sc) anything (pact_for xs (process_child env (st_dependencies st) cs))" for xs
    by (intro settles_for process_child_kids)
  then have "settles (kids_ok cs sc) anything (\<lambda>s. pact_for (su_pending s) (process_child env (st_dependencies st) cs) s)"
    unfolding settles_def by blast
  then have "settles (kids_ok cs sc) anything (scheduler_round env (st_dependencies st) cs)"
    unfolding scheduler_round_def by (auto intro!: settles_bind settles_kids_quiet quiet_modify)
  then show ?thesis unfolding start_children_def Some
    by (auto intro!: settles_bind settles_kids_quiet quiet_modify settles_while)
qed

definition starts_before :: "planned_dependency list \<Rightarrow> string list \<Rightarrow> bool" where
  "starts_before deps names =
     list_all (\<lambda>i. list_all (\<lambda>d. dp_system d = names ! i \<longrightarrow> dp_requires d \<in> set (take i names)) deps)
       [0..<length names]"

definition children_fit :: "planned_startup option \<Rightarrow> planned_instance list \<Rightarrow> planned_instance list \<Rightarrow> bool" where
  "children_fit startup planned running =
     (case startup of
        None \<Rightarrow> running = planned
      | Some st \<Rightarrow> mset (map in_name running) = mset (st_order st) \<and>
                   starts_before (st_dependencies st) (map in_name running))"

lemma start_children_plain:
  "pact_for cs (\<lambda>(c, m). start_child env c m) s = Some (Inr x, t) \<Longrightarrow>
    map rc_instance (su_systems t) = map rc_instance (su_systems s) @ map (pc_instance \<circ> fst) cs"
proof (induction cs arbitrary: s)
  case (Cons p cs)
  obtain c m where p: "p = (c, m)" by fastforce
  from Cons.prems p obtain y u where c: "start_child env c m s = Some (Inr y, u)"
    and cs: "pact_for cs (\<lambda>(c, m). start_child env c m) u = Some (Inr x, t)"
    by (auto elim!: pact_bind_cases)
  from start_child_Inr [OF c] Cons.IH [OF cs] show ?case by (auto simp: p)
qed (simp add: pact_of_def)

lemma sched_ok_starts_before:
  assumes "sched_ok deps order s"
  shows "starts_before deps (map rc_name (su_systems s))"
  unfolding starts_before_def list_all_iff
proof (intro ballI impI)
  fix i d assume i: "i \<in> set [0..<length (map rc_name (su_systems s))]" and d: "d \<in> set deps"
    "dp_system d = map rc_name (su_systems s) ! i"
  then have len: "i < length (su_systems s)" by simp
  then have "su_systems s = take i (su_systems s) @ su_systems s ! i # drop (Suc i) (su_systems s)"
    by (rule id_take_nth_drop)
  moreover have "dp_system d = rc_name (su_systems s ! i)" using d(2) len by simp
  ultimately have "dp_requires d \<in> rc_name ` set (take i (su_systems s))"
    using assms d(1) unfolding sched_ok_def by blast
  then show "dp_requires d \<in> set (take i (map rc_name (su_systems s)))" by (simp add: take_map)
qed

lemma rc_name_comp: "in_name \<circ> rc_instance = rc_name"
  by (rule ext) (simp add: rc_name_def)

lemma start_children_fit:
  assumes run: "start_children env startup cs s = Some (Inr x, t)"
    and init: "su_systems s = []" "su_by_name s = []" "su_satisfied s = []"
    and st: "\<And>st. startup = Some st \<Longrightarrow> distinct (st_order st) \<and> inj_on dp_ordinal (set (st_dependencies st))"
  shows "children_fit startup (map (pc_instance \<circ> fst) cs) (map rc_instance (su_systems t))"
proof (cases startup)
  case None
  with run start_children_plain [of cs env s x t] init show ?thesis
    by (simp add: start_children_def children_fit_def)
next
  case (Some st)
  let ?s = "s\<lparr>su_pending := st_order st\<rparr>"
  from run Some have loop: "while_pending (scheduler_round env (st_dependencies st) cs) ?s = Some (Inr x, t)"
    by (auto simp: start_children_def pact_of_def act_modify_def elim!: pact_bind_cases)
  have "sched_ok (st_dependencies st) (st_order st) ?s" using init by (simp add: sched_ok_def)
  with st [OF Some] settles_Inr [OF settles_while [OF scheduler_round_ok] _ loop]
  have ok: "sched_ok (st_dependencies st) (st_order st) t" by blast
  from ok while_pending_empty [OF loop] sched_ok_starts_before [OF ok] show ?thesis
    by (simp add: children_fit_def Some sched_ok_def rc_name_comp)
qed

text \<open>A handle fits a prepared System when its scopes and children do, at every level.\<close>

fun handle_fits :: "('w, 'p) prepared_system \<Rightarrow> ('w, 'p) system_handle \<Rightarrow> bool" where
  "handle_fits x h =
     (list_all2 scope_started (ps_scopes x) (sh_scopes h) \<and>
      children_fit (pl_system_startup (plan_body (ps_plan x))) (map pc_instance (ps_systems x))
        (map rc_instance (sh_systems h)) \<and>
      list_all (\<lambda>rc. list_ex (\<lambda>c. rc_instance rc = pc_instance c \<and> handle_fits (pc_execution c) (rc_handle rc))
                  (ps_systems x)) (sh_systems h))"

declare handle_fits.simps [simp del]

text \<open>The planner numbers the dependencies of one System, at every level.\<close>

fun numbered :: "('w, 'p) prepared_system \<Rightarrow> bool" where
  "numbered x =
     ((case pl_system_startup (plan_body (ps_plan x)) of
         None \<Rightarrow> True | Some st \<Rightarrow> distinct (map dp_ordinal (st_dependencies st))) \<and>
      list_all (\<lambda>c. numbered (pc_execution c)) (ps_systems x))"

declare numbered.simps [simp del]

lemma check_startup_distinct: "check_startup (Some st) names = Inr u \<Longrightarrow> distinct (st_order st)"
  by (auto simp: check_startup_def split: if_splits)

lemma startup_failed_fails [simp]: "startup_failed tm e s \<noteq> (Inr x, t)"
  by (auto simp: startup_failed_def act_bind_Inr Let_def split: py_error.splits if_splits)

lemma run_startup_cases:
  assumes "run_startup env x cs s = Some (Inr h, t)"
  obtains y u z where "act_for (ps_scopes x) (start_scope (se_timeout env)) s = (Inr y, u)"
    and "start_children env (pl_system_startup (plan_body (ps_plan x))) cs u = Some (Inr z, t)"
    and "h = SystemExecutionHandle (se_execution_id env) x (su_scopes t) (su_systems t)"
  using assms unfolding run_startup_def
  by (auto simp: pact_of_def act_get_def elim!: pact_bind_cases pact_try_cases)

lemma run_startup_fits:
  assumes run: "run_startup env x cs (initial_startup m) = Some (Inr h, t)"
    and st: "\<And>st. pl_system_startup (plan_body (ps_plan x)) = Some st \<Longrightarrow>
               distinct (st_order st) \<and> distinct (map dp_ordinal (st_dependencies st))"
  shows "list_all2 scope_started (ps_scopes x) (sh_scopes h) \<and>
     children_fit (pl_system_startup (plan_body (ps_plan x))) (map (pc_instance \<circ> fst) cs) (map rc_instance (sh_systems h)) \<and>
     list_all (came_from cs) (sh_systems h)"
proof -
  let ?s = "initial_startup m" and ?startup = "pl_system_startup (plan_body (ps_plan x))"
  from run obtain y u z where scopes: "act_for (ps_scopes x) (start_scope (se_timeout env)) ?s = (Inr y, u)"
    and kids: "start_children env ?startup cs u = Some (Inr z, t)"
    and h: "h = SystemExecutionHandle (se_execution_id env) x (su_scopes t) (su_systems t)"
    by (rule run_startup_cases)
  from start_scopes_Inr [OF scopes] have u: "list_all2 scope_started (ps_scopes x) (su_scopes u)"
    "su_systems u = []" "su_by_name u = []" "su_satisfied u = []"
    by (auto simp: initial_startup_def core_def)
  have "kids_ok cs (su_scopes u) u" using u by (simp add: kids_ok_def)
  from settles_Inr [OF start_children_kids this kids]
  have t: "su_scopes t = su_scopes u" "list_all (came_from cs) (su_systems t)" by (simp_all add: kids_ok_def)
  have "children_fit ?startup (map (pc_instance \<circ> fst) cs) (map rc_instance (su_systems t))"
    by (rule start_children_fit [OF kids u(2-4)]) (use st in \<open>auto simp: distinct_map\<close>)
  with u(1) t show ?thesis by (simp add: h)
qed

lemma start_body_cases:
  assumes "start_body orch tm sink x cs m = Some (Inr h, t)"
  obtains env v s where "check_startup (pl_system_startup (plan_body (ps_plan x))) (map (\<lambda>c. pc_name (fst c)) cs) = Inr ()"
    and "run_startup env x cs (initial_startup v) = Some (Inr h, s)"
  using assms unfolding start_body_def
  by (auto simp: pact_of_def act_bind_Inr split: option.splits elim!: pact_bind_cases)

lemma start_system_fits:
  "numbered x \<Longrightarrow> start_system orch tm sink x m = Some (Inr h, t) \<Longrightarrow> handle_fits x h"
proof (induction x arbitrary: m h t rule: measure_induct_rule [where f = size])
  case (less x)
  let ?cs = "map (\<lambda>c. (c, start_system orch tm sink (pc_execution c))) (ps_systems x)"
  let ?startup = "pl_system_startup (plan_body (ps_plan x))"
  from less.prems(2) obtain env v s where
    check: "check_startup ?startup (map (\<lambda>c. pc_name (fst c)) ?cs) = Inr ()"
    and run: "run_startup env x ?cs (initial_startup v) = Some (Inr h, s)"
    unfolding start_system.simps [of orch tm sink x] by (rule start_body_cases)
  have "distinct (st_order st) \<and> distinct (map dp_ordinal (st_dependencies st))" if "?startup = Some st" for st
    using check_startup_distinct [of st] check less.prems(1) that by (simp add: numbered.simps [of x])
  note fits = run_startup_fits [OF run this]
  have "list_ex (\<lambda>c. rc_instance rc = pc_instance c \<and> handle_fits (pc_execution c) (rc_handle rc)) (ps_systems x)"
    if rc: "rc \<in> set (sh_systems h)" for rc
  proof -
    from fits rc have "came_from ?cs rc" by (simp add: list_all_iff)
    then obtain c u v where c: "c \<in> set (ps_systems x)" "rc_instance rc = pc_instance c"
      and start: "start_system orch tm sink (pc_execution c) u = Some (Inr (rc_handle rc), v)"
      unfolding came_from_def by auto
    have "numbered (pc_execution c)"
      using less.prems(1) c(1) by (simp add: numbered.simps [of x] list_all_iff)
    from less.IH [OF size_pc_execution [OF c(1)] this start] c show ?thesis
      by (auto simp: list_ex_iff)
  qed
  with fits show ?case
    by (simp add: handle_fits.simps [of x h] list_all_iff comp_def)
qed

text \<open>The handle of a prepared System is well formed: what \<open>stop\<close> and \<open>inspect\<close> expect.\<close>

lemma handle_fits_ok: "handle_fits x h \<Longrightarrow> prepared_ok x \<Longrightarrow> handle_ok h"
proof (induction h arbitrary: x rule: measure_induct_rule [where f = size])
  case (less h)
  have scopes: "list_all2 scope_started (ps_scopes x) (sh_scopes h)"
    using less.prems(1) by (simp add: handle_fits.simps [of x h])
  then have map: "map rsc_scope (sh_scopes h) = map psc_scope (ps_scopes x)"
    by (auto simp: list_all2_conv_all_nth scope_started_def intro: nth_equalityI)
  moreover have "distinct (map psc_scope (ps_scopes x))"
    using less.prems(2) plan_execution_scopes_Inr by (auto simp: prepared_ok.simps [of x])
  moreover have "list_all (\<lambda>r. be_id (rsc_backend r) = sc_backend (rsc_scope r)) (sh_scopes h)"
    using scopes less.prems(2)
    by (auto simp: prepared_ok.simps [of x] list_all_length list_all2_conv_all_nth scope_started_def prepared_scope_ok_def)
  moreover have "handle_ok (rc_handle rc)" if rc: "rc \<in> set (sh_systems h)" for rc
  proof -
    obtain c where c: "c \<in> set (ps_systems x)" "handle_fits (pc_execution c) (rc_handle rc)"
      using less.prems(1) rc by (auto simp: handle_fits.simps [of x h] list_all_iff list_ex_iff)
    moreover have "prepared_ok (pc_execution c)"
      using less.prems(2) c(1) by (simp add: prepared_ok.simps [of x] list_all_iff)
    ultimately show ?thesis using less.IH [OF size_rc_handle [OF rc]] by blast
  qed
  ultimately show ?case by (simp add: handle_ok.simps [of h] list_all_iff)
qed

section \<open>Properties\<close>

lemma life_cycle:
  assumes "prepare_plan orch plan ctx inh routes path w = (Inr x, w')"
    and "numbered x" and "start_system orch tm sink x m = Some (Inr h, t)" and "\<not> timeout_negative q"
  shows "\<exists>st u. stop_system h q t = (Inr st, u) \<and> mirrors h st \<and> ps_plan (sh_prepared h) = plan \<and>
    (\<exists>C. starts (mc_trace u) = starts (mc_trace m) @ C \<and> stops (mc_trace u) = stops (mc_trace m) @ rev C)"
proof -
  have ok: "prepared_ok x" "ps_plan x = plan" using prepare_plan_ok [OF assms(1)] by simp_all
  have h: "handle_ok h" by (rule handle_fits_ok [OF start_system_fits [OF assms(2,3)] ok(1)])
  have start: "starts (mc_trace t) = starts (mc_trace m) @ handle_leaves h"
    "stops (mc_trace t) = stops (mc_trace m)" "sh_prepared h = x"
    using start_system_result [OF prepared_ok_matched [OF ok(1)] assms(3)] by (simp_all add: balanced_result_def)
  obtain st u where stop: "stop_system h q t = (Inr st, u)"
    using stop_system_total [OF assms(4), of h] unfolding total_act_def by blast
  with stop_system_calls [OF assms(4), of h] have "mc_trace u = mc_trace t @ stop_calls h"
    unfolding calls_of_def by (metis snd_conv)
  then have "starts (mc_trace u) = starts (mc_trace m) @ handle_leaves h"
    "stops (mc_trace u) = stops (mc_trace m) @ rev (handle_leaves h)"
    using start by (simp_all add: stop_calls_def)
  with stop stop_system_mirrors [OF h stop] start(3) ok(2) show ?thesis by blast
qed

text \<open>
  A start that succeeds returns a handle of the shape of the prepared System at every level:
  one running scope per prepared scope, in order and on its backend; without a startup the
  children in plan order; with one, each child of the compiled order once, every prerequisite
  before the child that depends on it.
\<close>

theorem started_handle_fits_prepared:
  assumes "numbered x" and "start_system orch tm sink x m = Some (Inr h, t)"
  shows "handle_fits x h"
  using assms by (rule start_system_fits)

text \<open>Two children: \<open>left\<close>, listed first, waits until \<open>right\<close> is healthy.\<close>

definition chain_plan :: system_plan where
  "chain_plan = SystemExecutionPlan ((blank_body ''chain'')
     \<lparr>pl_system_startup := Some
        \<lparr>st_dependencies = [\<lparr>dp_ordinal = 0, dp_system = ''left'', dp_requires = ''right'',
            dp_condition = HEALTHY, dp_timeout_seconds = 1000\<rparr>],
         st_order = [''right'', ''left''], st_roots = [''right'']\<rparr>\<rparr>)
     [sample_instance ''left'' one_node_plan, sample_instance ''right'' one_node_plan]"

definition chain_prepared :: "(nat, unit) prepared_system option" where
  "chain_prepared = (case prepare_plan (sample_orchestrator sample_bindings) chain_plan None [] [] [] 0 of
     (Inr x, t) \<Rightarrow> Some x | _ \<Rightarrow> None)"

definition chain_run :: "((nat, unit) prepared_system \<times> (nat, unit) system_handle \<times> (nat, unit) machine) option" where
  "chain_run = (case chain_prepared of
     None \<Rightarrow> None
   | Some x \<Rightarrow> (case start_system (sample_orchestrator sample_bindings) None None x fresh_machine of
       Some (Inr h, t) \<Rightarrow> if numbered x then Some (x, h, t) else None | _ \<Rightarrow> None))"

lemma chain_run_ex:
  obtains x h t u where
    "prepare_plan (sample_orchestrator sample_bindings) chain_plan None [] [] [] 0 = (Inr x, u)"
    and "start_system (sample_orchestrator sample_bindings) None None x fresh_machine = Some (Inr h, t)"
    and "numbered x"
proof -
  have "chain_run \<noteq> None" by code_simp
  then show thesis
    using that by (auto simp: chain_run_def chain_prepared_def split: option.splits sum.splits prod.splits if_splits)
qed

theorem started_handle_fits_prepared_witness: "\<exists>x (h :: (nat, unit) system_handle). numbered x \<and> handle_fits x h"
proof (rule chain_run_ex)
  fix x and h :: "(nat, unit) system_handle" and t u
  assume run: "start_system (sample_orchestrator sample_bindings) None None x fresh_machine = Some (Inr h, t)"
    and num: "numbered x"
  from started_handle_fits_prepared [OF num run] num show ?thesis by blast
qed

text \<open>
  C2: The whole life of a System: of a plan that was prepared and whose start succeeded,
  \<open>stop\<close> with a valid timeout asks exactly the executions that the start began to stop, each
  once and in reverse, and returns a status that mirrors the handle at every level.
\<close>

theorem prepared_started_stopped:
  assumes "prepare_plan orch plan ctx inh routes path w = (Inr x, w')"
    and "numbered x" and "start_system orch tm sink x m = Some (Inr h, t)" and "\<not> timeout_negative q"
  shows "\<exists>st u. stop_system h q t = (Inr st, u) \<and> mirrors h st \<and> ps_plan (sh_prepared h) = plan \<and>
    (\<exists>C. starts (mc_trace u) = starts (mc_trace m) @ C \<and> stops (mc_trace u) = stops (mc_trace m) @ rev C)"
  using assms by (rule life_cycle)

theorem prepared_started_stopped_witness:
  "\<exists>(h :: (nat, unit) system_handle) t st u. stop_system h None t = (Inr st, u) \<and> mirrors h st \<and>
     ps_plan (sh_prepared h) = chain_plan"
proof (rule chain_run_ex)
  fix x and h :: "(nat, unit) system_handle" and t u
  assume prep: "prepare_plan (sample_orchestrator sample_bindings) chain_plan None [] [] [] 0 = (Inr x, u)"
    and run: "start_system (sample_orchestrator sample_bindings) None None x fresh_machine = Some (Inr h, t)"
    and num: "numbered x"
  from prepared_started_stopped [OF prep num run, of None] show ?thesis
    by (auto simp: timeout_negative_def)
qed

end
