(* ===== verification/Orchestrator_Live.thy ===== *)
theory Orchestrator_Live
  imports Orchestrator_Schedule
begin

text \<open>
  \<open>start\<close> returns. The scheduler's loop waits for other processes to change what the inspections
  report, and nothing forces them to; it ends because every dependency it waits for has a
  deadline. The argument is relative to a time of the world that no call turns back, that the
  clock reads, and that \<open>wait\<close> moves on by at least the delay it is given.
\<close>

section \<open>Actions that respect an invariant\<close>

definition secures :: "('s \<Rightarrow> bool) \<Rightarrow> ('a \<Rightarrow> bool) \<Rightarrow> ('s, 'a) act \<Rightarrow> bool" where
  "secures P Q m = (\<forall>s. P s \<longrightarrow> P (snd (m s)) \<and> (\<forall>x. fst (m s) = Inr x \<longrightarrow> Q x))"

lemma secures_keeps: "keeps P m \<Longrightarrow> secures P (\<lambda>_. True) m"
  by (simp add: secures_def keeps_def)

lemma keeps_secures: "secures P Q m \<Longrightarrow> keeps P m"
  by (simp add: secures_def keeps_def)

lemma secures_return: "Q x \<Longrightarrow> secures P Q (act_return x)"
  by (simp add: secures_def act_simps)

lemma secures_raise: "secures P Q (act_raise e)"
  by (simp add: secures_def act_simps)

lemma secures_lift: "(\<And>x. r = Inr x \<Longrightarrow> Q x) \<Longrightarrow> secures P Q (act_lift r)"
  by (simp add: secures_def act_simps)

lemma secures_get: "(\<And>s. P s \<Longrightarrow> Q (f s)) \<Longrightarrow> secures P Q (act_get f)"
  by (simp add: secures_def act_simps)

lemma secures_bind:
  "secures P Q m \<Longrightarrow> (\<And>x. Q x \<Longrightarrow> secures P R (f x)) \<Longrightarrow> secures P R (act_bind m f)"
  by (fastforce simp: secures_def act_bind_def split: prod.splits sum.splits)

lemma secures_try: "secures P Q m \<Longrightarrow> (\<And>e. secures P Q (h e)) \<Longrightarrow> secures P Q (act_try m h)"
  by (fastforce simp: secures_def act_try_def split: prod.splits sum.splits)

lemma secures_seq: "(\<And>m. m \<in> set ms \<Longrightarrow> secures P Q m) \<Longrightarrow> secures P (list_all Q) (act_seq ms)"
proof (induction ms)
  case Nil
  then show ?case by (simp add: secures_return)
next
  case (Cons m ms)
  then show ?case by (auto intro!: secures_bind [of P Q m] secures_bind [of P "list_all Q"] secures_return)
qed

text \<open>An action that may not return, but does so from every state of the invariant.\<close>

definition runs :: "('s \<Rightarrow> bool) \<Rightarrow> ('a \<Rightarrow> bool) \<Rightarrow> ('s, 'a) pact \<Rightarrow> bool" where
  "runs P Q m = (\<forall>s. P s \<longrightarrow> (\<exists>r t. m s = Some (r, t) \<and> P t \<and> (\<forall>x. r = Inr x \<longrightarrow> Q x)))"

lemma runsD: "runs P Q m \<Longrightarrow> P s \<Longrightarrow> \<exists>r t. m s = Some (r, t) \<and> P t \<and> (\<forall>x. r = Inr x \<longrightarrow> Q x)"
  by (simp add: runs_def)

lemma runs_of: "secures P Q m \<Longrightarrow> runs P Q (pact_of m)"
  unfolding runs_def secures_def pact_of_def by (metis prod.collapse)

lemma runs_bind: "runs P Q m \<Longrightarrow> (\<And>x. Q x \<Longrightarrow> runs P R (f x)) \<Longrightarrow> runs P R (pact_bind m f)"
  by (fastforce simp: runs_def pact_bind_def split: sum.splits)

lemma runs_try: "runs P Q m \<Longrightarrow> (\<And>e. runs P Q (h e)) \<Longrightarrow> runs P Q (pact_try m h)"
  by (fastforce simp: runs_def pact_try_def split: sum.splits)

lemma runs_for: "(\<And>x. x \<in> set xs \<Longrightarrow> runs P anything (b x)) \<Longrightarrow> runs P anything (pact_for xs b)"
  by (induction xs) (auto intro!: runs_of secures_return runs_bind [where Q = anything])

lemma runs_weaken: "runs P Q m \<Longrightarrow> (\<And>x. Q x \<Longrightarrow> R x) \<Longrightarrow> runs P R m"
  by (fastforce simp: runs_def)

section \<open>Time\<close>

text \<open>What a backend, a prepared System and a running System may do to time: not turn it back.\<close>

definition timed :: "('w \<Rightarrow> rat) \<Rightarrow> ('w, 'a) act \<Rightarrow> bool" where
  "timed T m = (\<forall>w. T w \<le> T (snd (m w)))"

definition timed_backend :: "('w \<Rightarrow> rat) \<Rightarrow> ('w, 'p) backend \<Rightarrow> bool" where
  "timed_backend T b =
     ((\<forall>p. timed T (hook_start b p)) \<and> (\<forall>h. timed T (hook_inspect b h)) \<and> (\<forall>h q. timed T (hook_stop b h q)))"

lemma size_pc_execution_live [termination_simp]:
  "c \<in> set (ps_systems x) \<Longrightarrow> size (pc_execution c) < size x"
  by (rule size_pc_execution)

fun timed_prepared :: "('w \<Rightarrow> rat) \<Rightarrow> ('w, 'p) prepared_system \<Rightarrow> bool" where
  "timed_prepared T x =
     (list_all (\<lambda>s. timed_backend T (psc_backend s)) (ps_scopes x) \<and>
      list_all (\<lambda>c. timed_prepared T (pc_execution c)) (ps_systems x))"

fun timed_handle :: "('w \<Rightarrow> rat) \<Rightarrow> ('w, 'p) system_handle \<Rightarrow> bool" where
  "timed_handle T h =
     (list_all (\<lambda>r. timed_backend T (rsc_backend r)) (sh_scopes h) \<and>
      list_all (\<lambda>c. timed_handle T (rc_handle c)) (sh_systems h))"

declare timed_prepared.simps [simp del] timed_handle.simps [simp del]

text \<open>The orchestrator's own calls.\<close>

definition time_flows :: "('w \<Rightarrow> rat) \<Rightarrow> ('w, 'p) orchestrator \<Rightarrow> (startup_event \<Rightarrow> ('w, unit) act) option \<Rightarrow> bool" where
  "time_flows T orch sink =
     (0 < oc_poll_interval orch \<and>
      (\<forall>w. T w \<le> T (snd (oc_clock orch w)) \<and>
           (\<forall>q. fst (oc_clock orch w) = Inr q \<longrightarrow> T w \<le> q \<and> q \<le> T (snd (oc_clock orch w)))) \<and>
      (\<forall>d w. T w \<le> T (snd (oc_wait orch d w)) \<and>
           (0 < d \<and> d \<le> oc_poll_interval orch \<and> fst (oc_wait orch d w) = Inr () \<longrightarrow> T w + d \<le> T (snd (oc_wait orch d w)))) \<and>
      timed T (oc_uuid_hex orch) \<and> (case sink of None \<Rightarrow> True | Some f \<Rightarrow> \<forall>e. timed T (f e)))"

text \<open>On machines: time is not before \<open>c\<close>.\<close>

definition since :: "('w \<Rightarrow> rat) \<Rightarrow> rat \<Rightarrow> ('w, 'p) machine \<Rightarrow> bool" where
  "since T c m = (c \<le> T (mc_world m))"

lemma timed_return: "timed T (act_return x)" "timed T (act_lift r)" "timed T (act_raise e)"
  by (simp_all add: timed_def act_simps)

lemma timed_bind: "timed T m \<Longrightarrow> (\<And>x. timed T (f x)) \<Longrightarrow> timed T (act_bind m f)"
  unfolding timed_def
proof
  fix w
  assume m: "\<forall>w. T w \<le> T (snd (m w))" and f: "\<And>x. \<forall>w. T w \<le> T (snd (f x w))"
  obtain r u where run: "m w = (r, u)" by fastforce
  with m have "T w \<le> T u" by (metis snd_conv)
  also have "T u \<le> T (snd (act_bind m f w))" using f run by (cases r) (simp_all add: act_bind_def)
  finally show "T w \<le> T (snd (act_bind m f w))" .
qed

lemma timed_calls:
  assumes "timed_backend T b"
  shows "timed T (backend_start b p)" "timed T (backend_inspect b h)" "timed T (backend_stop b h q)"
  using assms unfolding backend_start_def backend_inspect_def backend_stop_def timed_backend_def
  by (auto intro!: timed_bind timed_return)

lemma since_world: "timed T m \<Longrightarrow> keeps (since T c) (on_world m)"
  unfolding keeps_def since_def timed_def on_world_def by (auto split: prod.splits) (metis order_trans snd_conv)

lemma since_note: "keeps (since T c) (note_call k)"
  by (auto simp: note_call_def since_def intro!: keeps_modify)

lemma since_call:
  "timed_backend T (psc_backend x) \<Longrightarrow> keeps (since T c) (call_start x)"
  "timed_backend T (rsc_backend r) \<Longrightarrow> keeps (since T c) (call_inspect r)"
  "timed_backend T (rsc_backend r) \<Longrightarrow> keeps (since T c) (call_stop r q)"
  unfolding call_start_def call_inspect_def call_stop_def
  by (intro keeps_bind since_world since_note timed_calls keeps_basic; assumption)+

lemma since_inspect: "timed_handle T h \<Longrightarrow> keeps (since T c) (inspect_system h)"
proof (induction h rule: inspect_system.induct)
  case (1 h)
  then have kids: "keeps (since T c) (inspect_system (rc_handle k))" if "k \<in> set (sh_systems h)" for k
    using that by (auto simp: timed_handle.simps [of T h] list_all_iff)
  have scopes: "keeps (since T c) (inspect_scope r)" if "r \<in> set (sh_scopes h)" for r
    using that 1(2) unfolding inspect_scope_def
    by (intro keeps_bind keeps_try since_call) (auto simp: timed_handle.simps [of T h] list_all_iff)
  show ?case unfolding inspect_system.simps [of h]
    by (intro keeps_bind keeps_seq) (auto intro!: keeps_bind keeps_try kids scopes)
qed

lemma since_stop: "timed_handle T h \<Longrightarrow> keeps (since T c) (stop_system h q)"
proof (induction h q rule: stop_system.induct)
  case (1 h q)
  show ?case
  proof (cases "timeout_negative q")
    case False
    then have kids: "keeps (since T c) (stop_system (rc_handle k) q)" if "k \<in> set (sh_systems h)" for k
      using that 1 by (auto simp: timed_handle.simps [of T h] list_all_iff)
    have scopes: "keeps (since T c) (stop_scope q r)" if "r \<in> set (sh_scopes h)" for r
      using that 1(2) unfolding stop_scope_def
      by (intro keeps_bind keeps_try since_call) (auto simp: timed_handle.simps [of T h] list_all_iff)
    show ?thesis using False unfolding stop_system.simps [of h q]
      by (simp, intro keeps_bind keeps_seq) (auto intro!: keeps_bind keeps_try kids scopes)
  qed (simp add: stop_system.simps [of h q])
qed

section \<open>The state of one start\<close>

definition live_state :: "('w \<Rightarrow> rat) \<Rightarrow> rat \<Rightarrow> ('w, 'p) startup \<Rightarrow> bool" where
  "live_state T c s =
     (since T c (su_machine s) \<and>
      list_all (\<lambda>r. timed_backend T (rsc_backend r)) (su_scopes s) \<and>
      list_all (\<lambda>r. timed_handle T (rc_handle r)) (su_systems s) \<and>
      list_all (\<lambda>(n, r). timed_handle T (rc_handle r)) (su_by_name s))"

definition now_of :: "('w \<Rightarrow> rat) \<Rightarrow> ('w, 'p) startup \<Rightarrow> rat" where
  "now_of T s = T (mc_world (su_machine s))"

text \<open>A deadline, not yet reached at the state \<open>s0\<close>, of a dependency whose prerequisite runs.\<close>

definition awaited :: "('w \<Rightarrow> rat) \<Rightarrow> planned_dependency list \<Rightarrow> ('w, 'p) startup \<Rightarrow> rat \<Rightarrow> bool" where
  "awaited T deps s0 q =
     (now_of T s0 < q \<and> (\<exists>d \<in> set deps. \<exists>t0. map_of (su_started_at s0) (dp_requires d) = Some t0 \<and>
        q = t0 + dp_timeout_seconds d))"

text \<open>
  Within a round that began in \<open>s0\<close>: either a child was started, or nothing changed but what
  is known of the dependencies, and the round waits only for deadlines to come.
\<close>

definition in_round ::
    "('w \<Rightarrow> rat) \<Rightarrow> planned_dependency list \<Rightarrow> ('w, 'p) startup \<Rightarrow> ('w, 'p) startup \<Rightarrow> bool" where
  "in_round T deps s0 s =
     (live_state T (now_of T s0) s \<and>
      (if su_progress s then length (su_pending s) < length (su_pending s0)
       else su_pending s = su_pending s0 \<and> su_started_at s = su_started_at s0 \<and>
            list_all (awaited T deps s0) (su_unresolved s)))"

definition round_flag ::
    "('w \<Rightarrow> rat) \<Rightarrow> planned_dependency list \<Rightarrow> ('w, 'p) startup \<Rightarrow> bool \<Rightarrow> ('w, 'p) startup \<Rightarrow> bool" where
  "round_flag T deps s0 b s = (in_round T deps s0 s \<and> su_progress s = b)"

lemma live_updates [simp]:
  "live_state T c (s\<lparr>su_satisfied := a\<rparr>) = live_state T c s" "live_state T c (s\<lparr>su_cache := b\<rparr>) = live_state T c s"
  "live_state T c (s\<lparr>su_waiting := w\<rparr>) = live_state T c s" "live_state T c (s\<lparr>su_unresolved := d\<rparr>) = live_state T c s"
  "live_state T c (s\<lparr>su_pending := e\<rparr>) = live_state T c s"
  by (simp_all add: live_state_def)

lemma round_updates [simp]:
  "round_flag T deps s0 b (s\<lparr>su_satisfied := a\<rparr>) = round_flag T deps s0 b s"
  "round_flag T deps s0 b (s\<lparr>su_cache := ca\<rparr>) = round_flag T deps s0 b s"
  "round_flag T deps s0 b (s\<lparr>su_waiting := w\<rparr>) = round_flag T deps s0 b s"
  by (simp_all add: round_flag_def in_round_def)

lemma live_on_machine: "keeps (since T c) m \<Longrightarrow> keeps (live_state T c) (on_machine m)"
  by (force simp: keeps_def on_machine_def live_state_def split: prod.splits)

lemma round_on_machine:
  assumes "keeps (since T (now_of T s0)) m"
  shows "keeps (round_flag T deps s0 b) (on_machine m)"
proof (rule keepsI)
  fix s assume s: "round_flag T deps s0 b s"
  obtain r t where m: "m (su_machine s) = (r, t)" by fastforce
  from s have "since T (now_of T s0) (su_machine s)" by (simp add: round_flag_def in_round_def live_state_def)
  with assms m have "since T (now_of T s0) t" by (metis keepsD)
  with s m show "round_flag T deps s0 b (snd (on_machine m s))"
    by (auto simp: on_machine_def round_flag_def in_round_def live_state_def)
qed

lemma timed_clock: "time_flows T orch sink \<Longrightarrow> timed T (oc_clock orch)"
  by (simp add: time_flows_def timed_def)

lemma timed_wait: "time_flows T orch sink \<Longrightarrow> timed T (oc_wait orch d)"
  by (simp add: time_flows_def timed_def)

lemma timed_sink: "time_flows T orch (Some f) \<Longrightarrow> timed T (f e)"
  by (simp add: time_flows_def)

lemma wait_passes:
  assumes "time_flows T orch sink" and "oc_wait orch d w = (Inr (), w')" and "0 < d" and "d \<le> oc_poll_interval orch"
  shows "T w + d \<le> T w'"
proof -
  from assms(1) have "\<forall>d w. T w \<le> T (snd (oc_wait orch d w)) \<and>
      (0 < d \<and> d \<le> oc_poll_interval orch \<and> fst (oc_wait orch d w) = Inr () \<longrightarrow> T w + d \<le> T (snd (oc_wait orch d w)))"
    unfolding time_flows_def by (elim conjE)
  then have "T w \<le> T (snd (oc_wait orch d w)) \<and>
      (0 < d \<and> d \<le> oc_poll_interval orch \<and> fst (oc_wait orch d w) = Inr () \<longrightarrow> T w + d \<le> T (snd (oc_wait orch d w)))"
    by (elim allE)
  with assms(2-) show ?thesis by simp
qed

section \<open>One dependency\<close>

abbreviation flows :: "('w \<Rightarrow> rat) \<Rightarrow> ('w, 'p) start_env \<Rightarrow> bool" where
  "flows T env \<equiv> time_flows T (se_orchestrator env) (se_sink env)"

lemma round_clock:
  assumes "flows T env"
  shows "secures (round_flag T deps s0 b) (\<lambda>q. now_of T s0 \<le> q) (read_clock env)"
proof -
  have keep: "keeps (round_flag T deps s0 b) (read_clock env)"
    unfolding read_clock_def by (intro round_on_machine since_world timed_clock [OF assms])
  have "now_of T s0 \<le> q" if s: "round_flag T deps s0 b s" and q: "fst (read_clock env s) = Inr q" for s q
  proof -
    from q have "fst (oc_clock (se_orchestrator env) (mc_world (su_machine s))) = Inr q"
      by (auto simp: read_clock_def on_machine_def on_world_def split: prod.splits)
    with assms have "T (mc_world (su_machine s)) \<le> q" unfolding time_flows_def by blast
    with s show ?thesis by (simp add: round_flag_def in_round_def live_state_def since_def)
  qed
  with keep show ?thesis by (simp add: secures_def keeps_def)
qed

lemma keeps_emit:
  fixes env :: "('w, 'p) start_env"
  assumes "flows T env" and "\<And>m :: (('w, 'p) machine, unit) act. keeps (since T c) m \<Longrightarrow> keeps P (on_machine m)"
  shows "keeps P (emit_event env e)"
proof -
  have "keeps (since T c) (on_world (f x))" if "se_sink env = Some f" for f x
    using assms(1) that by (intro since_world) (simp add: timed_sink)
  then show ?thesis
    unfolding emit_event_def by (cases "se_sink env") (auto intro!: keeps_bind assms(2) since_note)
qed

lemma round_emit: "flows T env \<Longrightarrow> keeps (round_flag T deps s0 b) (emit_event env e)"
  by (rule keeps_emit [OF _ round_on_machine])

lemma live_emit: "flows T env \<Longrightarrow> keeps (live_state T c) (emit_event env e)"
  by (rule keeps_emit [OF _ live_on_machine])

lemma keeps_option: "keeps P m \<Longrightarrow> (\<And>x. keeps P (f x)) \<Longrightarrow> keeps P (case q of None \<Rightarrow> m | Some x \<Rightarrow> f x)"
  by (cases q) simp_all

lemma round_emit_dependency: "flows T env \<Longrightarrow> keeps (round_flag T deps s0 b) (emit_dependency_event env k d msg)"
  unfolding emit_dependency_event_def dependency_elapsed_def
  by (intro keeps_bind round_emit keeps_secures [OF round_clock] keeps_option) auto

lemma round_raise_timeout: "flows T env \<Longrightarrow> keeps (round_flag T deps s0 b) (raise_timeout env d)"
  unfolding raise_timeout_def by (intro keeps_bind round_emit_dependency) auto

lemma round_mark: "flows T env \<Longrightarrow> keeps (round_flag T deps s0 b) (mark_satisfied env d)"
  unfolding mark_satisfied_def by (intro keeps_bind round_emit_dependency keeps_modify) auto

lemma round_cached: "timed_handle T (rc_handle pre) \<Longrightarrow> keeps (round_flag T deps s0 b) (cached_status d pre)"
  unfolding cached_status_def
  by (intro keeps_bind keeps_option round_on_machine since_inspect keeps_modify) auto

lemma round_unresolved:
  assumes "round_flag T deps s0 b s" and "b \<or> awaited T deps s0 q"
  shows "round_flag T deps s0 b (s\<lparr>su_unresolved := su_unresolved s @ [q]\<rparr>)"
  using assms by (auto simp: round_flag_def in_round_def)

lemma round_observed:
  assumes flows: "flows T env" and pre: "timed_handle T (rc_handle pre)" and d: "d \<in> set deps"
    and q: "b \<or> (\<exists>t0. map_of (su_started_at s0) (dp_requires d) = Some t0 \<and> q = t0 + dp_timeout_seconds d)"
  shows "keeps (round_flag T deps s0 b) (observed_dependency env d pre q)"
proof -
  let ?P = "round_flag T deps s0 b"
  let ?wait = "act_bind (act_get (\<lambda>s. dp_ordinal d \<in> set (su_waiting s))) (\<lambda>known.
         act_bind (if known then act_return ()
             else act_bind (act_modify (\<lambda>s. s\<lparr>su_waiting := dp_ordinal d # su_waiting s\<rparr>)) (\<lambda>_.
                  emit_dependency_event env DEPENDENCY_WAITING d None)) (\<lambda>_.
         act_bind (act_modify (\<lambda>s. s\<lparr>su_unresolved := su_unresolved s @ [q]\<rparr>)) (\<lambda>_. act_return False)))"
  have wait: "keeps ?P ?wait" if "now_of T s0 < q"
  proof -
    have "b \<or> awaited T deps s0 q" using q d that by (auto simp: awaited_def)
    then show ?thesis
      by (intro keeps_bind keeps_if keeps_modify round_emit_dependency [OF flows] round_unresolved) auto
  qed
  have "keeps ?P (if at_now > q then raise_timeout env d
     else act_bind (act_try (act_lift (dependency_condition_satisfied d st)) (\<lambda>exc.
           act_bind (emit_dependency_event env DEPENDENCY_FAILED d (Some (exc_message exc))) (\<lambda>_. act_raise exc))) (\<lambda>satisfied.
       if satisfied then act_bind (mark_satisfied env d) (\<lambda>_. act_return True)
       else if at_now \<ge> q then raise_timeout env d else ?wait))"
    if "now_of T s0 \<le> at_now" for at_now st
    using that
    by (intro keeps_if keeps_bind keeps_try round_raise_timeout [OF flows] round_mark [OF flows]
          round_emit_dependency [OF flows] wait) auto
  then have "secures ?P anything (act_bind (read_clock env) (\<lambda>at_now. if at_now > q then raise_timeout env d
     else act_bind (act_try (act_lift (dependency_condition_satisfied d st)) (\<lambda>exc.
           act_bind (emit_dependency_event env DEPENDENCY_FAILED d (Some (exc_message exc))) (\<lambda>_. act_raise exc))) (\<lambda>satisfied.
       if satisfied then act_bind (mark_satisfied env d) (\<lambda>_. act_return True)
       else if at_now \<ge> q then raise_timeout env d else ?wait)))" for st
    by (intro secures_bind [OF round_clock [OF flows]] secures_keeps)
  then show ?thesis
    unfolding observed_dependency_def by (intro keeps_bind round_cached [OF pre] keeps_secures)
qed

lemma round_dependency:
  assumes flows: "flows T env" and d: "d \<in> set deps"
  shows "keeps (in_round T deps s0) (process_dependency env d)"
proof (rule keepsI)
  fix s assume s: "in_round T deps s0 s"
  let ?P = "round_flag T deps s0 (su_progress s)"
  have P: "?P s" using s by (simp add: round_flag_def)
  have "?P (snd (process_dependency env d s))"
  proof (cases "dp_ordinal d \<in> set (su_satisfied s) \<or> map_of (su_by_name s) (dp_requires d) = None \<or>
      map_of (su_started_at s) (dp_requires d) = None")
    case True
    with P show ?thesis by (auto simp: process_dependency_def split: option.split)
  next
    case False
    then obtain pre t0 where new: "dp_ordinal d \<notin> set (su_satisfied s)" and pre: "map_of (su_by_name s) (dp_requires d) = Some pre"
      and t0: "map_of (su_started_at s) (dp_requires d) = Some t0" by auto
    from s map_of_SomeD [OF pre] have handle: "timed_handle T (rc_handle pre)"
      by (auto simp: in_round_def live_state_def list_all_iff)
    have q: "su_progress s \<or> (\<exists>t. map_of (su_started_at s0) (dp_requires d) = Some t \<and> t0 + dp_timeout_seconds d = t + dp_timeout_seconds d)"
      using s t0 by (cases "su_progress s") (auto simp: in_round_def)
    have "keeps ?P (act_bind (read_clock env) (\<lambda>now.
          if now > t0 + dp_timeout_seconds d then raise_timeout env d
          else act_bind (mark_satisfied env d) (\<lambda>_. act_return True)))"
      by (intro keeps_bind keeps_if keeps_secures [OF round_clock [OF flows]] round_raise_timeout [OF flows] round_mark [OF flows])
        auto
    with round_observed [OF flows handle d q] P show ?thesis
      by (simp add: process_dependency_def new pre t0 Let_def keeps_def)
  qed
  then show "in_round T deps s0 (snd (process_dependency env d s))" by (simp add: round_flag_def)
qed

lemma round_dependencies:
  assumes "flows T env"
  shows "set ds \<subseteq> set deps \<Longrightarrow> keeps (in_round T deps s0) (process_dependencies env ds)"
  by (induction ds) (auto intro!: keeps_bind round_dependency [OF assms])

section \<open>One child\<close>

definition live_starters :: "('w \<Rightarrow> rat) \<Rightarrow> ('w, 'p) starters \<Rightarrow> bool" where
  "live_starters T children = (\<forall>(c, m) \<in> set children. \<forall>c0. runs (since T c0) (timed_handle T) m)"

lemma runs_start_child:
  fixes env :: "('w, 'p) start_env" and P :: "('w, 'p) startup \<Rightarrow> bool"
  assumes m: "runs (since T c) (timed_handle T) m"
    and machine: "\<And>s t. P s \<Longrightarrow> since T c (su_machine s) \<and> (since T c t \<longrightarrow> P (s\<lparr>su_machine := t\<rparr>))"
    and systems: "\<And>s x. P s \<Longrightarrow> timed_handle T (rc_handle x) \<Longrightarrow> P (s\<lparr>su_systems := su_systems s @ [x]\<rparr>)"
    and emit: "\<And>e. keeps P (emit_event env e)"
  shows "runs P anything (start_child env k m)"
proof -
  have m: "runs P (timed_handle T) (on_machine_p m)"
    unfolding runs_def
  proof (intro allI impI)
    fix s assume s: "P s"
    then have "since T c (su_machine s)" using machine by blast
    from runsD [OF m this] obtain r t where "m (su_machine s) = Some (r, t)" "since T c t"
      "\<forall>h. r = Inr h \<longrightarrow> timed_handle T h" by blast
    with s machine show "\<exists>r t. on_machine_p m s = Some (r, t) \<and> P t \<and> (\<forall>h. r = Inr h \<longrightarrow> timed_handle T h)"
      by (auto simp: on_machine_p_def)
  qed
  have "keeps P (act_bind (act_lift (mk_RunningChild (pc_instance k) h)) (\<lambda>running.
       act_bind (act_modify (\<lambda>s. s\<lparr>su_systems := su_systems s @ [running]\<rparr>)) (\<lambda>_.
       emit_event env (child_started_event env (pc_name k) (sh_id h)))))" if "timed_handle T h" for h
  proof -
    have "keeps P (act_bind (act_modify (\<lambda>s. s\<lparr>su_systems := su_systems s @ [RunningChild (pc_instance k) h]\<rparr>)) (\<lambda>_.
       emit_event env (child_started_event env (pc_name k) (sh_id h))))"
      using that by (intro keeps_bind keeps_modify emit systems) simp_all
    then show ?thesis by (auto simp: mk_RunningChild_def keeps_def act_bind_def act_lift_def)
  qed
  then show ?thesis
    unfolding start_child_def
    by (intro runs_bind [where Q = "timed_handle T"] runs_try m runs_of secures_keeps secures_raise)
qed

lemma live_start_child:
  "flows T env \<Longrightarrow> runs (since T c) (timed_handle T) m \<Longrightarrow> runs (live_state T c) anything (start_child env k m)"
  by (rule runs_start_child [where c = c]) (auto simp: live_state_def intro: live_emit)

lemma round_start_child:
  assumes "flows T env" and "runs (since T (now_of T s0)) (timed_handle T) m"
  shows "runs (round_flag T deps s0 b) anything (start_child env k m)"
  by (rule runs_start_child [OF assms(2) _ _ round_emit [OF assms(1)]])
    (auto simp: round_flag_def in_round_def live_state_def)

lemma runs_in_round:
  assumes "\<And>b. runs (round_flag T deps s0 b) anything m"
  shows "runs (in_round T deps s0) anything m"
  using assms unfolding runs_def round_flag_def by blast

lemma keeps_in_round:
  assumes "\<And>b. keeps (round_flag T deps s0 b) m"
  shows "keeps (in_round T deps s0) m"
  using assms unfolding keeps_def round_flag_def by blast

lemma round_child_running:
  assumes "in_round T deps s0 s" and "su_systems s \<noteq> []" and "name \<in> set (su_pending s0)"
  shows "in_round T deps s0 (child_running name t0 s)"
proof -
  have "length (remove1 name (su_pending s)) < length (su_pending s0)"
  proof (cases "su_progress s")
    case True
    have "length (remove1 name (su_pending s)) \<le> length (su_pending s)" by (simp add: length_remove1)
    with assms(1) True show ?thesis by (simp add: in_round_def)
  next
    case False
    with assms(1,3) have "su_pending s = su_pending s0" "0 < length (su_pending s0)" by (auto simp: in_round_def)
    with assms(3) show ?thesis by (simp add: length_remove1)
  qed
  moreover have "timed_handle T (rc_handle (last (su_systems s)))"
    using assms(1,2) by (simp add: in_round_def live_state_def list_all_iff)
  ultimately show ?thesis
    using assms(1) by (simp add: in_round_def live_state_def child_running_def)
qed

lemma round_child:
  assumes flows: "flows T env" and kids: "live_starters T children" and name: "name \<in> set (su_pending s0)"
  shows "runs (in_round T deps s0) anything (process_child env deps children name)"
proof -
  let ?P = "in_round T deps s0"
  have deps: "runs ?P anything (pact_of (process_dependencies env (filter (\<lambda>d. dp_system d = name) deps)))"
    by (intro runs_of secures_keeps round_dependencies [OF flows]) auto
  have start: "runs ?P anything (pact_bind (start_child env k m) (\<lambda>_. pact_of (act_modify (child_running name t0))))"
    if "(k, m) \<in> set children" for k m t0
    unfolding runs_def
  proof (intro allI impI)
    fix s assume s: "?P s"
    have "runs ?P anything (start_child env k m)"
      using kids that by (intro runs_in_round round_start_child [OF flows]) (auto simp: live_starters_def)
    from runsD [OF this s] obtain r t where run: "start_child env k m s = Some (r, t)" "?P t" by blast
    show "\<exists>r t. pact_bind (start_child env k m) (\<lambda>_. pact_of (act_modify (child_running name t0))) s = Some (r, t) \<and> ?P t \<and>
        (\<forall>x. r = Inr x \<longrightarrow> anything x)"
    proof (cases r)
      case (Inl e)
      with run show ?thesis by (simp add: pact_bind_def)
    next
      case (Inr x)
      with run have ok: "start_child env k m s = Some (Inr x, t)" by simp
      obtain h u where "su_systems t = su_systems s @ [RunningChild (pc_instance k) h]"
        using start_child_Inr [OF ok] by blast
      then have "?P (child_running name t0 t)" by (intro round_child_running run name) simp
      with ok show ?thesis by (simp add: pact_bind_def pact_of_def act_modify_def)
    qed
  qed
  have clock: "keeps ?P (read_clock env)"
    by (intro keeps_in_round keeps_secures [OF round_clock [OF flows]])
  show ?thesis
    unfolding process_child_def
  proof (rule runs_bind [OF deps])
    fix eligible :: bool
    show "runs ?P anything (if \<not> eligible then pact_of (act_return ())
     else case starter_named children name of
       None \<Rightarrow> pact_of (act_raise (KeyErr name))
     | Some (child, starter) \<Rightarrow>
         pact_bind (pact_of (read_clock env)) (\<lambda>t0.
         pact_bind (start_child env child starter) (\<lambda>_.
         pact_of (act_modify (child_running name t0)))))"
      using starter_named_set [of children name]
      by (auto split: option.split intro!: runs_of secures_keeps runs_bind [OF runs_of [OF secures_keeps [OF clock]]] start)
  qed
qed

section \<open>One round\<close>

definition remaining :: "rat \<Rightarrow> rat \<Rightarrow> nat" where
  "remaining poll t = nat \<lceil>t / poll\<rceil>"

lemma remaining_mono: "0 < poll \<Longrightarrow> a \<le> b \<Longrightarrow> remaining poll a \<le> remaining poll b"
  by (simp add: remaining_def nat_mono ceiling_mono divide_right_mono)

lemma remaining_less:
  assumes "0 < poll" and "0 < b" and "a \<le> 0 \<or> a + poll \<le> b"
  shows "remaining poll a < remaining poll b"
proof -
  have b: "0 < \<lceil>b / poll\<rceil>" using assms by simp
  have "\<lceil>a / poll\<rceil> \<le> 0 \<or> \<lceil>a / poll\<rceil> < \<lceil>b / poll\<rceil>"
    using assms(3)
  proof
    assume "a \<le> 0"
    then have "a / poll \<le> 0" using assms(1) by (simp add: divide_nonpos_pos)
    then have "\<lceil>a / poll\<rceil> \<le> 0" by simp
    then show ?thesis ..
  next
    assume "a + poll \<le> b"
    then have "(a + poll) / poll \<le> b / poll" using assms(1) by (intro divide_right_mono) simp_all
    then have "a / poll + 1 \<le> b / poll" using assms(1) by (simp add: add_divide_distrib)
    then have "\<lceil>a / poll + 1\<rceil> \<le> \<lceil>b / poll\<rceil>" by (rule ceiling_mono)
    then show ?thesis by simp
  qed
  moreover have "0 < y \<Longrightarrow> x \<le> 0 \<or> x < y \<Longrightarrow> nat x < nat y" for x y :: int by arith
  ultimately show ?thesis using b unfolding remaining_def by blast
qed

text \<open>The rounds that all dependencies together may still wait, one poll interval each.\<close>

definition waits :: "('w \<Rightarrow> rat) \<Rightarrow> rat \<Rightarrow> planned_dependency list \<Rightarrow> ('w, 'p) startup \<Rightarrow> nat" where
  "waits T poll deps s = sum_list (map (\<lambda>d. case map_of (su_started_at s) (dp_requires d) of
     None \<Rightarrow> 0 | Some t0 \<Rightarrow> remaining poll (t0 + dp_timeout_seconds d - now_of T s)) deps)"

lemma sum_list_less:
  fixes f g :: "'a \<Rightarrow> nat"
  assumes "\<And>x. x \<in> set xs \<Longrightarrow> f x \<le> g x" and "y \<in> set xs" and "f y < g y"
  shows "sum_list (map f xs) < sum_list (map g xs)"
  using assms
proof (induction xs)
  case (Cons x xs)
  have "sum_list (map f xs) \<le> sum_list (map g xs)" using Cons.prems(1) by (intro sum_list_mono) simp
  with Cons show ?case by (cases "y = x") (auto intro: add_le_less_mono add_less_le_mono)
qed simp

lemma waits_less:
  assumes "0 < poll" and same: "su_started_at t = su_started_at s" and q: "awaited T deps s q"
    and time: "q \<le> now_of T t \<or> now_of T s + poll \<le> now_of T t"
  shows "waits T poll deps t < waits T poll deps s"
proof -
  from q obtain d t0 where d: "d \<in> set deps" "map_of (su_started_at s) (dp_requires d) = Some t0"
    and eq: "q = t0 + dp_timeout_seconds d" and future: "now_of T s < q" by (auto simp: awaited_def)
  have "now_of T s \<le> now_of T t" using time future assms(1) by linarith
  moreover have "remaining poll (q - now_of T t) < remaining poll (q - now_of T s)"
    using time future by (intro remaining_less [OF assms(1)]) auto
  ultimately show ?thesis
    unfolding waits_def same
    by (intro sum_list_less [OF _ d(1)]) (auto simp: d(2) eq intro: remaining_mono [OF assms(1)] split: option.split)
qed

lemma wait_step:
  assumes "act_bind (on_machine (note_call c)) (\<lambda>_. on_machine (on_world m)) u = (Inr x, t)"
  shows "\<exists>mm. m (mc_world (su_machine u)) = (Inr x, mc_world mm) \<and> t = u\<lparr>su_machine := mm\<rparr>"
proof -
  obtain r w where m: "m (mc_world (su_machine u)) = (r, w)" by fastforce
  with assms show ?thesis
    by (intro exI [of _ "su_machine t"]) (auto simp: act_bind_def on_machine_def on_world_def note_call_def act_modify_def)
qed

text \<open>The end of a round without progress waits for the next poll or for the first deadline.\<close>

lemma end_round_waits:
  assumes flows: "flows T env" and run: "end_round env s = (Inr x, t)"
    and "su_pending s \<noteq> []" and "\<not> su_progress s"
  shows "su_unresolved s \<noteq> [] \<and> (\<exists>m. t = s\<lparr>su_machine := m\<rparr>) \<and>
    (min_list (su_unresolved s) \<le> now_of T t \<or> now_of T s + oc_poll_interval (se_orchestrator env) \<le> now_of T t)"
proof -
  let ?poll = "oc_poll_interval (se_orchestrator env)" and ?first = "min_list (su_unresolved s)"
  from assms(3,4) run have ne: "su_unresolved s \<noteq> []" by (auto simp: end_round_def split: if_splits)
  with assms(3,4) run have run: "act_bind (read_clock env) (\<lambda>now.
            let delay = min ?poll (?first - now) in
            if delay > 0
            then act_bind (on_machine (note_call (CWait delay))) (\<lambda>_. on_machine (on_world (oc_wait (se_orchestrator env) delay)))
            else act_return ()) s = (Inr x, t)"
    by (simp add: end_round_def)
  then obtain now u where clock: "read_clock env s = (Inr now, u)"
    and rest: "(let delay = min ?poll (?first - now) in
            if delay > 0
            then act_bind (on_machine (note_call (CWait delay))) (\<lambda>_. on_machine (on_world (oc_wait (se_orchestrator env) delay)))
            else act_return ()) u = (Inr x, t)" by (auto simp: act_bind_Inr)
  define w where "w = mc_world (su_machine s)"
  obtain w' where w': "oc_clock (se_orchestrator env) w = (Inr now, w')" and u: "u = s\<lparr>su_machine := (su_machine s)\<lparr>mc_world := w'\<rparr>\<rparr>"
    using clock by (auto simp: read_clock_def on_machine_def on_world_def w_def split: prod.splits)
  have now: "T w \<le> now" "now \<le> T w'"
    using flows w' unfolding time_flows_def by (metis fst_conv snd_conv)+
  have poll: "0 < ?poll" using flows by (simp add: time_flows_def)
  show ?thesis
  proof (cases "min ?poll (?first - now) > 0")
    case False
    with rest poll now u ne show ?thesis by (auto simp: Let_def now_of_def min_def split: if_splits)
  next
    case True
    define delay where "delay = min ?poll (?first - now)"
    from rest True have "act_bind (on_machine (note_call (CWait delay)))
        (\<lambda>_. on_machine (on_world (oc_wait (se_orchestrator env) delay))) u = (Inr x, t)"
      by (simp add: Let_def delay_def)
    from wait_step [OF this] obtain mm where mm: "oc_wait (se_orchestrator env) delay w' = (Inr (), mc_world mm)"
      and tm: "t = u\<lparr>su_machine := mm\<rparr>" by (auto simp: u)
    then have t: "now_of T t = T (mc_world mm)" "\<exists>m. t = s\<lparr>su_machine := m\<rparr>" by (auto simp: now_of_def u)
    have "0 < delay" "delay \<le> ?poll" using True by (simp_all add: delay_def)
    with wait_passes [OF flows mm] have "T w' + delay \<le> T (mc_world mm)" by simp
    then have "now + delay \<le> now_of T t" using now t by simp
    then show ?thesis using t ne now by (auto simp: delay_def min_def now_of_def w_def split: if_splits)
  qed
qed

lemma min_list_awaited:
  fixes qs :: "rat list"
  assumes "qs \<noteq> []" and "list_all P qs"
  shows "P (min_list qs)"
proof -
  have "min_list qs \<in> set qs" using assms(1) Min_in [of "set qs"] by (simp add: min_list_Min)
  with assms(2) show ?thesis by (simp add: list_all_iff)
qed

lemma round_end_round:
  assumes flows: "flows T env"
  shows "keeps (in_round T deps s0) (end_round env)"
proof (rule keeps_in_round)
  fix b
  let ?P = "round_flag T deps s0 b"
  have wait: "keeps ?P (on_machine (note_call c))" "keeps ?P (on_machine (on_world (oc_wait (se_orchestrator env) d)))" for c d
    using flows by (intro round_on_machine since_note since_world timed_wait; assumption)+
  have "keeps ?P (act_bind (read_clock env) (\<lambda>now.
            let delay = min (oc_poll_interval (se_orchestrator env)) (first - now) in
            if delay > 0
            then act_bind (on_machine (note_call (CWait delay))) (\<lambda>_. on_machine (on_world (oc_wait (se_orchestrator env) delay)))
            else act_return ()))" for first
    unfolding Let_def by (intro keeps_bind keeps_if wait keeps_secures [OF round_clock [OF flows]]) auto
  then show "keeps ?P (end_round env)" by (auto simp: keeps_def end_round_def)
qed

lemma live_weaken: "live_state T c s \<Longrightarrow> c' \<le> c \<Longrightarrow> live_state T c' s"
  by (auto simp: live_state_def since_def)

lemma round_decreases:
  assumes flows: "flows T env" and kids: "live_starters T children" and s: "live_state T c s" and pending: "su_pending s \<noteq> []"
  shows "\<exists>r t. scheduler_round env deps children s = Some (r, t) \<and> live_state T c t \<and>
    (r = Inr () \<longrightarrow> length (su_pending t) < length (su_pending s) \<or>
       length (su_pending t) = length (su_pending s) \<and>
       waits T (oc_poll_interval (se_orchestrator env)) deps t < waits T (oc_poll_interval (se_orchestrator env)) deps s)"
proof -
  define s0 where "s0 = begin_round s"
  let ?P = "in_round T deps s0" and ?poll = "oc_poll_interval (se_orchestrator env)"
  have same: "su_pending s0 = su_pending s" "now_of T s0 = now_of T s" "su_started_at s0 = su_started_at s"
    by (simp_all add: s0_def begin_round_def now_of_def)
  have "?P s0" using s by (simp add: s0_def begin_round_def in_round_def live_state_def now_of_def since_def)
  moreover have "runs ?P anything (pact_for (su_pending s0) (process_child env deps children))"
    by (intro runs_for round_child [OF flows kids])
  ultimately obtain r u where run: "pact_for (su_pending s0) (process_child env deps children) s0 = Some (r, u)" and u: "?P u"
    by (blast dest: runsD)
  have c: "c \<le> now_of T s0" using s same(2) by (simp add: live_state_def since_def now_of_def)
  have step: "scheduler_round env deps children s =
      (case r of Inl e \<Rightarrow> Some (Inl e, u) | Inr _ \<Rightarrow> Some (end_round env u))"
    using run by (auto simp: scheduler_round_def pact_bind_def pact_of_def act_modify_def s0_def [symmetric] split: sum.splits)
  show ?thesis
  proof (cases r)
    case (Inl e)
    with step u c show ?thesis by (auto simp: in_round_def intro: live_weaken)
  next
    case (Inr x)
    obtain q t where end_: "end_round env u = (q, t)" by fastforce
    have t: "?P t" using keepsD [OF round_end_round [OF flows] u end_] .
    have "length (su_pending t) < length (su_pending s) \<or>
        length (su_pending t) = length (su_pending s) \<and> waits T ?poll deps t < waits T ?poll deps s" if q: "q = Inr ()"
    proof (cases "su_progress u \<or> su_pending u = []")
      case True
      then have "t = u" using end_ q by (auto simp: end_round_def split: if_splits)
      with True u pending same show ?thesis by (auto simp: in_round_def split: if_splits)
    next
      case False
      with end_round_waits [OF flows, of u "()" t] end_ q obtain m where
        w: "su_unresolved u \<noteq> []" "t = u\<lparr>su_machine := m\<rparr>"
          "min_list (su_unresolved u) \<le> now_of T t \<or> now_of T u + ?poll \<le> now_of T t" by auto
      from u False have un: "su_pending u = su_pending s0" "su_started_at u = su_started_at s0"
        "list_all (awaited T deps s0) (su_unresolved u)" by (auto simp: in_round_def)
      have "now_of T s0 \<le> now_of T u" using u by (simp add: in_round_def live_state_def since_def now_of_def)
      with w(3) have "min_list (su_unresolved u) \<le> now_of T t \<or> now_of T s0 + ?poll \<le> now_of T t" by auto
      then have "waits T ?poll deps t < waits T ?poll deps s0"
        using flows un w by (intro waits_less [OF _ _ min_list_awaited [OF w(1) un(3)]]) (simp_all add: time_flows_def)
      moreover have "waits T ?poll deps s0 = waits T ?poll deps s" by (simp add: waits_def same cong: option.case_cong)
      ultimately show ?thesis using un(1) w(2) same(1) by simp
    qed
    with Inr step end_ t c show ?thesis by (auto simp: in_round_def intro: live_weaken)
  qed
qed

lemma while_pending_runs:
  assumes flows: "flows T env" and kids: "live_starters T children"
  shows "live_state T c s \<Longrightarrow> \<exists>r t. while_pending (scheduler_round env deps children) s = Some (r, t) \<and> live_state T c t"
proof (induction s rule: wf_induct_rule [OF wf_inv_image [OF wf_lex_prod [OF wf_less_than wf_less_than],
    where f = "\<lambda>s. (length (su_pending s), waits T (oc_poll_interval (se_orchestrator env)) deps s)"]])
  case (1 s)
  show ?case
  proof (cases "su_pending s = []")
    case True
    with 1(2) show ?thesis by (simp add: while_pending.simps)
  next
    case False
    obtain r t where step: "scheduler_round env deps children s = Some (r, t)" and t: "live_state T c t"
      and less: "r = Inr () \<Longrightarrow> length (su_pending t) < length (su_pending s) \<or>
       length (su_pending t) = length (su_pending s) \<and>
       waits T (oc_poll_interval (se_orchestrator env)) deps t < waits T (oc_poll_interval (se_orchestrator env)) deps s"
      using round_decreases [OF flows kids 1(2) False] by blast
    show ?thesis
    proof (cases r)
      case (Inl e)
      with False step t show ?thesis by (simp add: while_pending.simps)
    next
      case (Inr x)
      with less have "(t, s) \<in> inv_image (less_than <*lex*> less_than)
          (\<lambda>s. (length (su_pending s), waits T (oc_poll_interval (se_orchestrator env)) deps s))" by auto
      from 1(1) [OF this t] False step Inr show ?thesis by (simp add: while_pending.simps [of _ s])
    qed
  qed
qed

section \<open>The whole start\<close>

lemma live_rollback:
  fixes T :: "'w \<Rightarrow> rat"
  shows "keeps (live_state T c) (rollback q :: (('w, 'p) startup, string list) act)"
proof (rule keepsI)
  fix s :: "('w, 'p) startup" assume s: "live_state T c s"
  have kid: "keeps (live_state T c) (collect_error (on_machine (stop_system (rc_handle k) q)) what)"
    if "k \<in> set (su_systems s)" for k what
    using s that unfolding collect_error_def
    by (intro keeps_try keeps_bind live_on_machine since_stop) (auto simp: live_state_def list_all_iff)
  have scope: "keeps (live_state T c) (collect_error (on_machine (call_stop r q)) what)"
    if "r \<in> set (su_scopes s)" for r what
    using s that unfolding collect_error_def
    by (intro keeps_try keeps_bind live_on_machine since_call) (auto simp: live_state_def list_all_iff)
  have "keeps (live_state T c)
     (act_bind (act_seq (map (\<lambda>c. collect_error (on_machine (stop_system (rc_handle c) q)) (''systems.'' @ rc_name c)) (rev (su_systems s)))) (\<lambda>e1.
      act_bind (act_seq (map (\<lambda>r. collect_error (on_machine (call_stop r q)) (scope_id (rsc_scope r))) (rev (su_scopes s)))) (\<lambda>e2.
      act_return (concat e1 @ concat e2))))"
    by (intro keeps_bind keeps_seq) (auto intro: kid scope)
  with s show "live_state T c (snd (rollback q s))" by (simp add: rollback_def keeps_def)
qed

lemma live_start_scope:
  assumes "timed_backend T (psc_backend x)"
  shows "keeps (live_state T c) (start_scope q x)"
  unfolding start_scope_def
  by (intro keeps_bind keeps_try live_on_machine since_call live_rollback keeps_modify)
    (use assms in \<open>auto simp: live_state_def\<close>)

lemma live_startup_failed: "keeps (live_state T c) (startup_failed q e)"
proof -
  have "keeps (live_state T c) (let suffix = rollback_suffix errors in
       case e of
         CodedErr cls code path msg \<Rightarrow>
           if is_orchestration_error e
           then (if suffix = [] then act_raise e else act_raise (orch_error code path (msg @ suffix)))
           else act_raise (orch_error ''ORCH305'' ''system_startup''
                  (''System startup scheduler failed: '' @ exc_str e @ suffix))
       | _ \<Rightarrow> act_raise (orch_error ''ORCH305'' ''system_startup''
                  (''System startup scheduler failed: '' @ exc_str e @ suffix)))" for errors
    by (auto simp: Let_def split: py_error.split)
  then show ?thesis unfolding startup_failed_def by (intro keeps_bind live_rollback)
qed

lemma live_start_children:
  assumes flows: "flows T env" and kids: "live_starters T children"
  shows "runs (live_state T c) anything (start_children env startup children)"
proof (cases startup)
  case None
  have "runs (live_state T c) anything (case k of (c, m) \<Rightarrow> start_child env c m)" if "k \<in> set children" for k
    using kids that live_start_child [OF flows] by (auto simp: live_starters_def split: prod.split)
  then show ?thesis unfolding start_children_def None by (simp add: runs_for)
next
  case (Some st)
  have "runs (live_state T c) anything (while_pending (scheduler_round env (st_dependencies st) children))"
    using while_pending_runs [OF flows kids] by (auto simp: runs_def)
  then show ?thesis
    unfolding start_children_def Some option.case
    by (intro runs_bind [where Q = anything] runs_of secures_keeps keeps_modify) auto
qed

lemma live_run_startup:
  assumes flows: "flows T env" and kids: "live_starters T children"
    and scopes: "list_all (\<lambda>s. timed_backend T (psc_backend s)) (ps_scopes x)"
  shows "runs (live_state T c) (timed_handle T) (run_startup env x children)"
  unfolding run_startup_def
proof (intro runs_bind [where Q = anything] runs_try runs_of live_start_children [OF flows kids])
  show "secures (live_state T c) anything (act_for (ps_scopes x) (start_scope (se_timeout env)))"
    using scopes by (intro secures_keeps keeps_for live_start_scope) (simp add: list_all_iff)
  show "secures (live_state T c) anything (startup_failed (se_timeout env) e)" for e
    by (intro secures_keeps live_startup_failed)
  show "secures (live_state T c) (timed_handle T)
      (act_get (\<lambda>s. SystemExecutionHandle (se_execution_id env) x (su_scopes s) (su_systems s)))"
    by (rule secures_get, subst timed_handle.simps) (simp add: live_state_def)
qed

lemma live_start_body:
  fixes orch :: "('w, 'p) orchestrator"
  assumes flows: "time_flows T orch sink" and kids: "live_starters T children"
    and scopes: "list_all (\<lambda>s. timed_backend T (psc_backend s)) (ps_scopes x)"
  shows "runs (since T c) (timed_handle T) (start_body orch q sink x children)"
proof -
  have prefix: "keeps (since T c) (act_bind (if timeout_invalid q
          then act_raise (ValueErr ''rollback_timeout_seconds must be finite and non-negative'')
          else act_return ()) (\<lambda>_.
       act_bind (on_world (oc_uuid_hex orch)) (\<lambda>hex.
       act_bind (act_lift (check_startup (pl_system_startup (plan_body (ps_plan x))) (map (\<lambda>c. pc_name (fst c)) children))) (\<lambda>_.
       act_return (''system-'' @ take 12 hex)))))"
    using flows by (intro keeps_bind keeps_if since_world) (auto simp: time_flows_def)
  have body: "runs (since T c) (timed_handle T) (\<lambda>m. case run_startup
            \<lparr>se_orchestrator = orch, se_timeout = q, se_sink = sink,
             se_execution_id = i, se_system = pl_system (plan_body (ps_plan x))\<rparr>
            x children (initial_startup m) of
          None \<Rightarrow> None
        | Some (r, s) \<Rightarrow> Some (r, su_machine s))" for i
    unfolding runs_def
  proof (intro allI impI)
    fix m :: "('w, 'p) machine" assume "since T c m"
    then have start: "live_state T c (initial_startup m)" by (simp add: live_state_def initial_startup_def)
    let ?env = "\<lparr>se_orchestrator = orch, se_timeout = q, se_sink = sink,
             se_execution_id = i, se_system = pl_system (plan_body (ps_plan x))\<rparr>"
    have "runs (live_state T c) (timed_handle T) (run_startup ?env x children)"
      using flows by (intro live_run_startup kids scopes) simp
    from runsD [OF this start] show "\<exists>r t. (case run_startup ?env x children (initial_startup m) of
          None \<Rightarrow> None | Some (r, s) \<Rightarrow> Some (r, su_machine s)) = Some (r, t) \<and> since T c t \<and>
        (\<forall>h. r = Inr h \<longrightarrow> timed_handle T h)"
      by (auto simp: live_state_def)
  qed
  show ?thesis
    unfolding start_body_def by (intro runs_bind [where Q = anything] runs_of secures_keeps prefix body)
qed

lemma live_start_system:
  assumes flows: "time_flows T orch sink"
  shows "timed_prepared T x \<Longrightarrow> runs (since T c) (timed_handle T) (start_system orch q sink x)"
proof (induction x arbitrary: c rule: measure_induct_rule [where f = size])
  case (less x)
  have "live_starters T (map (\<lambda>c. (c, start_system orch q sink (pc_execution c))) (ps_systems x))"
    using less.IH [OF size_pc_execution] less.prems
    by (auto simp: live_starters_def timed_prepared.simps [of T x] list_all_iff)
  moreover have "list_all (\<lambda>s. timed_backend T (psc_backend s)) (ps_scopes x)"
    using less.prems by (simp add: timed_prepared.simps [of T x])
  ultimately show ?case unfolding start_system.simps [of orch q sink x] by (rule live_start_body [OF flows])
qed

lemma prepare_plan_timed:
  assumes "list_all (\<lambda>(sc, b). timed_backend T b) (oc_bindings env)"
  shows "prepare_plan env plan ctx inh routes path s = (Inr x, t) \<Longrightarrow> timed_prepared T x"
proof (induction x arbitrary: plan ctx inh routes path s t rule: measure_induct_rule [where f = size])
  case (less x)
  from less.prems obtain own r u where "validate_plan env plan ctx inh routes path s = (Inr r, u)"
    and scopes: "list_all2 (\<lambda>sc y. \<exists>u v. prepare_scope env plan ctx inh (routes @ own) sc u = (Inr y, v)) (or_scopes r) (ps_scopes x)"
    and systems: "list_all2 (\<lambda>child c. \<exists>cctx u v. child_context ctx (in_name child) = Inr cctx \<and>
           prepare_plan env (in_plan child) cctx (in_resource_bindings child)
             (child_routes (routes @ own) (in_name child)) (path @ [in_name child]) u = (Inr (pc_execution c), v) \<and>
           mk_PreparedChild child (pc_execution c) = Inr c) (plan_systems plan) (ps_systems x)"
    by (rule prepare_plan_Inr)
  have "timed_backend T (psc_backend y)" if y: "y \<in> set (ps_scopes x)" for y
  proof -
    from scopes y obtain sc u v where "prepare_scope env plan ctx inh (routes @ own) sc u = (Inr y, v)"
      by (auto simp: list_all2_conv_all_nth in_set_conv_nth)
    from prepare_scope_Inr [OF this] have "(sc, psc_backend y) \<in> set (oc_bindings env)" by (blast dest: map_of_SomeD)
    with assms show ?thesis by (auto simp: list_all_iff)
  qed
  moreover have "timed_prepared T (pc_execution c)" if c: "c \<in> set (ps_systems x)" for c
  proof -
    from c obtain i where "i < length (ps_systems x)" "ps_systems x ! i = c" by (auto simp: in_set_conv_nth)
    with systems have "\<exists>p cx rb rs pa u v. prepare_plan env p cx rb rs pa u = (Inr (pc_execution c), v)"
      by (auto simp: list_all2_conv_all_nth) blast
    with less.IH [OF size_pc_execution [OF c]] show ?thesis by blast
  qed
  ultimately show ?case by (auto simp: timed_prepared.simps [of T x] list_all_iff)
qed

section \<open>Property\<close>

text \<open>
  C3: \<open>start\<close> returns. When time passes (the clock reads a time of the world that no bound backend,
  no event sink and no identifier generator turns back, and \<open>wait\<close> moves on by at least the
  delay it is given, up to the poll interval), the dependency scheduler comes to an end at every
  level of a prepared System, whatever the backends report: \<open>start\<close> returns a handle or raises.
\<close>

theorem start_returns:
  assumes "time_flows T orch sink" and "list_all (\<lambda>(sc, b). timed_backend T b) (oc_bindings orch)"
    and "prepare_plan orch plan ctx inh routes path w = (Inr x, w')"
  shows "\<exists>r t. start_system orch rollback_timeout sink x m = Some (r, t) \<and> T (mc_world m) \<le> T (mc_world t)"
proof -
  have "since T (T (mc_world m)) m" by (simp add: since_def)
  from runsD [OF live_start_system [OF assms(1) prepare_plan_timed [OF assms(2,3)]] this, of rollback_timeout]
  show ?thesis unfolding since_def by blast
qed

theorem start_returns_witness:
  "\<exists>x u r t. prepare_plan (sample_orchestrator sample_bindings) chain_plan None [] [] [] 0 = (Inr x, u) \<and>
     start_system (sample_orchestrator sample_bindings) None None x fresh_machine = Some (r, t)"
proof (rule chain_run_ex)
  fix x and h :: "(nat, unit) system_handle" and t u
  assume x: "prepare_plan (sample_orchestrator sample_bindings) chain_plan None [] [] [] 0 = (Inr x, u)"
  have flows: "time_flows (\<lambda>w. of_nat w) (sample_orchestrator sample_bindings) None"
    by (auto simp: time_flows_def sample_orchestrator_def timed_def act_simps)
  have "timed_backend (\<lambda>w. of_nat w) (sample_backend i ok)" for i ok
    by (auto simp: timed_backend_def timed_def sample_backend_def act_simps)
  then have "list_all (\<lambda>(sc, b). timed_backend (\<lambda>w. of_nat w) b) (oc_bindings (sample_orchestrator sample_bindings))"
    by (simp add: sample_orchestrator_def sample_bindings_def)
  from start_returns [OF flows this x, of None fresh_machine] x show ?thesis by blast
qed

end
