(* ===== verification/Bounded_Queue.thy ===== *)
theory Bounded_Queue
  imports Prelude "HOL-Library.Sublist"
begin

text \<open>
  The bounded message queue of the runtime data plane (queueing.py, PythonBoundedQueue), the
  queue behind every Connection edge when the native queue is not available.

  One method call holds the queue's condition variable from its first test to its return, except
  while it waits, so an attempt of a call is one atomic step: it gives the result and the new
  queue, or None where the source calls Condition.wait.  Threads that share a queue are a step
  relation over a monitor: a call is invoked, an attempt returns or puts its thread to sleep, and
  every attempt that ends in notify_all makes all sleeping threads ready again.

  The theorems: the statistics account for every message under every interleaving; messages are
  delivered in the order in which they were accepted and, unless the policy or a discard drops
  them, all of them; no wake-up is lost and producers and consumers never wait for each other.
\<close>

subsection \<open>State and operations\<close>

record 'a bounded_queue =
  bq_capacity :: int
  bq_policy :: string
  bq_items :: "'a list"
  bq_closed :: bool
  bq_enqueued :: int
  bq_dequeued :: int
  bq_dropped :: int
  bq_max_depth :: int

definition new_queue :: "int \<Rightarrow> string \<Rightarrow> 'a bounded_queue result" where
  "new_queue capacity policy =
     (if capacity \<le> 0 then Inl (ValueErr ''queue capacity must be positive'')
      else if policy \<notin> set [''block'', ''latest'', ''drop_oldest'', ''drop_newest'']
      then Inl (ValueErr (''unsupported queue policy: '' @ policy))
      else Inr \<lparr>bq_capacity = capacity, bq_policy = policy, bq_items = [], bq_closed = False,
                bq_enqueued = 0, bq_dequeued = 0, bq_dropped = 0, bq_max_depth = 0\<rparr>)"

text \<open>What a call returns: put and put_control a truth value, get and try_get an item or None,
  discard_pending a count and close nothing.\<close>

datatype 'a queue_result = QBool bool | QItem "'a option" | QCount int | QNothing

type_synonym 'a attempted = "('a queue_result \<times> 'a bounded_queue) option"

definition queue_full :: "'a bounded_queue \<Rightarrow> bool" where
  "queue_full q = (int (length (bq_items q)) \<ge> bq_capacity q)"

definition append_item :: "'a \<Rightarrow> 'a bounded_queue \<Rightarrow> 'a bounded_queue" where
  "append_item x q =
     q\<lparr>bq_items := bq_items q @ [x], bq_enqueued := bq_enqueued q + 1,
       bq_max_depth := max (bq_max_depth q) (int (length (bq_items q @ [x])))\<rparr>"

definition queue_put :: "'a \<Rightarrow> 'a bounded_queue \<Rightarrow> 'a attempted" where
  "queue_put x q =
     (if bq_closed q then Some (QBool False, q)
      else if bq_policy q = ''block'' then
        (if queue_full q then None else Some (QBool True, append_item x q))
      else if bq_policy q = ''drop_newest'' \<and> queue_full q then
        Some (QBool False, q\<lparr>bq_dropped := bq_dropped q + 1\<rparr>)
      else if bq_policy q = ''latest'' then
        Some (QBool True, append_item x (q\<lparr>bq_dropped := bq_dropped q + int (length (bq_items q)), bq_items := []\<rparr>))
      else if queue_full q then
        Some (QBool True, append_item x (q\<lparr>bq_items := tl (bq_items q), bq_dropped := bq_dropped q + 1\<rparr>))
      else Some (QBool True, append_item x q))"

definition queue_put_control :: "'a \<Rightarrow> 'a bounded_queue \<Rightarrow> 'a attempted" where
  "queue_put_control x q =
     (if queue_full q \<and> \<not> bq_closed q then None
      else if bq_closed q then Some (QBool False, q)
      else Some (QBool True, append_item x q))"

definition pop_item :: "'a bounded_queue \<Rightarrow> 'a attempted" where
  "pop_item q =
     (case bq_items q of
        [] \<Rightarrow> Some (QItem None, q)
      | x # xs \<Rightarrow> Some (QItem (Some x), q\<lparr>bq_items := xs, bq_dequeued := bq_dequeued q + 1\<rparr>))"

definition queue_get :: "'a bounded_queue \<Rightarrow> 'a attempted" where
  "queue_get q = (if bq_items q = [] \<and> \<not> bq_closed q then None else pop_item q)"

definition queue_try_get :: "'a bounded_queue \<Rightarrow> 'a attempted" where
  "queue_try_get q = pop_item q"

definition queue_close :: "'a bounded_queue \<Rightarrow> 'a attempted" where
  "queue_close q = Some (QNothing, q\<lparr>bq_closed := True\<rparr>)"

definition queue_discard_pending :: "'a bounded_queue \<Rightarrow> 'a attempted" where
  "queue_discard_pending q =
     Some (QCount (int (length (bq_items q))),
           q\<lparr>bq_items := [], bq_dropped := bq_dropped q + int (length (bq_items q))\<rparr>)"

definition queue_size :: "'a bounded_queue \<Rightarrow> int" where
  "queue_size q = int (length (bq_items q))"

definition queue_stats :: "'a bounded_queue \<Rightarrow> (string \<times> int) list" where
  "queue_stats q =
     [(''enqueued'', bq_enqueued q), (''dequeued'', bq_dequeued q), (''dropped'', bq_dropped q),
      (''max_depth'', bq_max_depth q), (''depth'', int (length (bq_items q)))]"

text \<open>The calls that change a queue, their attempts, and the returns that notify.\<close>

datatype 'a queue_call = QPut 'a | QPutControl 'a | QGet | QTryGet | QClose | QDiscardPending

fun attempt :: "'a queue_call \<Rightarrow> 'a bounded_queue \<Rightarrow> 'a attempted" where
  "attempt (QPut x) q = queue_put x q"
| "attempt (QPutControl x) q = queue_put_control x q"
| "attempt QGet q = queue_get q"
| "attempt QTryGet q = queue_try_get q"
| "attempt QClose q = queue_close q"
| "attempt QDiscardPending q = queue_discard_pending q"

fun notifies :: "'a queue_call \<Rightarrow> 'a queue_result \<Rightarrow> bool" where
  "notifies QClose r = True"
| "notifies QDiscardPending r = True"
| "notifies c (QBool b) = b"
| "notifies c (QItem x) = (x \<noteq> None)"
| "notifies c r = False"

lemmas queue_defs = queue_put_def queue_put_control_def pop_item_def queue_get_def queue_try_get_def
  queue_close_def queue_discard_pending_def append_item_def queue_full_def

subsection \<open>Threads that share a queue\<close>

datatype 'a caller = Idle | Ready "'a queue_call" | Asleep "'a queue_call"

record 'a monitor =
  mon_queue :: "'a bounded_queue"
  mon_callers :: "nat \<Rightarrow> 'a caller"

datatype 'a queue_event =
    Invoked nat "'a queue_call"
  | Slept nat
  | Returned nat "'a queue_call" "'a queue_result"

fun wake :: "'a caller \<Rightarrow> 'a caller" where
  "wake (Asleep c) = Ready c"
| "wake s = s"

definition notify_all :: "bool \<Rightarrow> (nat \<Rightarrow> 'a caller) \<Rightarrow> nat \<Rightarrow> 'a caller" where
  "notify_all b f = (if b then wake \<circ> f else f)"

definition shared :: "'a bounded_queue \<Rightarrow> 'a monitor" where
  "shared q = \<lparr>mon_queue = q, mon_callers = (\<lambda>_. Idle)\<rparr>"

inductive mstep :: "'a monitor \<Rightarrow> 'a queue_event \<Rightarrow> 'a monitor \<Rightarrow> bool" where
  invoke: "f t = Idle \<Longrightarrow>
    mstep \<lparr>mon_queue = q, mon_callers = f\<rparr> (Invoked t c) \<lparr>mon_queue = q, mon_callers = f(t := Ready c)\<rparr>"
| sleep: "f t = Ready c \<Longrightarrow> attempt c q = None \<Longrightarrow>
    mstep \<lparr>mon_queue = q, mon_callers = f\<rparr> (Slept t) \<lparr>mon_queue = q, mon_callers = f(t := Asleep c)\<rparr>"
| return: "f t = Ready c \<Longrightarrow> attempt c q = Some (r, q') \<Longrightarrow>
    mstep \<lparr>mon_queue = q, mon_callers = f\<rparr> (Returned t c r)
      \<lparr>mon_queue = q', mon_callers = notify_all (notifies c r) (f(t := Idle))\<rparr>"

inductive_cases mstepE: "mstep m e m'"

inductive mruns :: "'a monitor \<Rightarrow> 'a queue_event list \<Rightarrow> 'a monitor \<Rightarrow> bool" where
  start: "mruns m [] m"
| step: "mruns m tr m1 \<Longrightarrow> mstep m1 e m2 \<Longrightarrow> mruns m (tr @ [e]) m2"

text \<open>Every event determines its step, so a trace can be replayed.\<close>

definition follow :: "'a queue_event \<Rightarrow> 'a monitor \<Rightarrow> 'a monitor option" where
  "follow e m =
     (let q = mon_queue m; f = mon_callers m in
      case e of
        Invoked t c \<Rightarrow> (case f t of Idle \<Rightarrow> Some \<lparr>mon_queue = q, mon_callers = f(t := Ready c)\<rparr> | _ \<Rightarrow> None)
      | Slept t \<Rightarrow>
          (case f t of
             Ready c \<Rightarrow> (case attempt c q of None \<Rightarrow> Some \<lparr>mon_queue = q, mon_callers = f(t := Asleep c)\<rparr> | Some x \<Rightarrow> None)
           | _ \<Rightarrow> None)
      | Returned t c r \<Rightarrow>
          (case f t of
             Ready d \<Rightarrow>
               (case attempt d q of
                  Some (r', q') \<Rightarrow>
                    if d = c \<and> r' = r
                    then Some \<lparr>mon_queue = q', mon_callers = notify_all (notifies c r) (f(t := Idle))\<rparr> else None
                | None \<Rightarrow> None)
           | _ \<Rightarrow> None))"

lemma follow_mstep: "follow e m = Some m' \<Longrightarrow> mstep m e m'"
  by (cases m) (auto simp: follow_def Let_def intro: mstep.intros
      split: queue_event.splits caller.splits option.splits if_splits)

lemma mstep_follow: "mstep m e m' \<Longrightarrow> follow e m = Some m'"
  by (erule mstep.cases) (simp_all add: follow_def)

fun replay :: "'a queue_event list \<Rightarrow> 'a monitor \<Rightarrow> 'a monitor option" where
  "replay [] m = Some m"
| "replay (e # tr) m = Option.bind (follow e m) (replay tr)"

lemma mruns_trans: "mruns m1 tr' m2 \<Longrightarrow> mruns m tr m1 \<Longrightarrow> mruns m (tr @ tr') m2"
proof (induction rule: mruns.induct)
  case (step m1 tr' m2 e m3)
  from mruns.step [OF step.IH [OF step.prems] step.hyps(2)] show ?case by simp
qed simp

lemma replay_mruns: "replay tr m = Some m' \<Longrightarrow> mruns m tr m'"
proof (induction tr arbitrary: m)
  case (Cons e tr)
  then obtain m1 where "follow e m = Some m1" "replay tr m1 = Some m'" by (auto split: bind_splits)
  with Cons.IH [of m1] mruns.step [OF mruns.start follow_mstep, of e m m1]
  have "mruns m1 tr m'" "mruns m ([] @ [e]) m1" by simp_all
  then show ?case using mruns_trans by fastforce
qed (simp add: mruns.start)

subsection \<open>What a history of returns says\<close>

text \<open>The returned calls of a trace, in the order in which their attempts took place.\<close>

fun returned :: "'a queue_event \<Rightarrow> ('a queue_call \<times> 'a queue_result) list" where
  "returned (Returned t c r) = [(c, r)]"
| "returned e = []"

definition history :: "'a queue_event list \<Rightarrow> ('a queue_call \<times> 'a queue_result) list" where
  "history tr = concat (map returned tr)"

lemma history_simps [simp]:
  "history [] = []"
  "history (tr @ [e]) = history tr @ returned e"
  by (simp_all add: history_def)

fun accepted_item :: "'a queue_call \<times> 'a queue_result \<Rightarrow> 'a list" where
  "accepted_item (QPut x, QBool True) = [x]"
| "accepted_item (QPutControl x, QBool True) = [x]"
| "accepted_item h = []"

fun delivered_item :: "'a queue_call \<times> 'a queue_result \<Rightarrow> 'a list" where
  "delivered_item (c, QItem (Some x)) = [x]"
| "delivered_item h = []"

definition accepted_items :: "('a queue_call \<times> 'a queue_result) list \<Rightarrow> 'a list" where
  "accepted_items hs = concat (map accepted_item hs)"

definition delivered_items :: "('a queue_call \<times> 'a queue_result) list \<Rightarrow> 'a list" where
  "delivered_items hs = concat (map delivered_item hs)"

lemma accepted_items_simps [simp]: "accepted_items [] = []" "accepted_items (hs @ [h]) = accepted_items hs @ accepted_item h"
  by (simp_all add: accepted_items_def)

lemma delivered_items_simps [simp]: "delivered_items [] = []" "delivered_items (hs @ [h]) = delivered_items hs @ delivered_item h"
  by (simp_all add: delivered_items_def)

text \<open>The messages a queue turned away while it was still open.\<close>

definition open_before :: "('a queue_call \<times> 'a queue_result) list \<Rightarrow> bool" where
  "open_before hs = (QClose \<notin> fst ` set hs)"

fun overflow :: "'a queue_call \<times> 'a queue_result \<Rightarrow> int" where
  "overflow (QPut x, QBool False) = 1"
| "overflow h = 0"

fun overflows :: "('a queue_call \<times> 'a queue_result) list \<Rightarrow> int" where
  "overflows [] = 0"
| "overflows (h # hs) = (if fst h = QClose then 0 else overflow h + overflows hs)"

lemma overflow_simps [simp]:
  "overflow (c, QBool True) = 0" "overflow (QPutControl x, r) = 0" "overflow (QGet, r) = 0"
  "overflow (QTryGet, r) = 0" "overflow (QClose, r) = 0" "overflow (QDiscardPending, r) = 0"
  by (cases c; simp) simp_all

lemma overflow_close: "fst h = QClose \<Longrightarrow> overflow h = 0"
  by (cases h) simp

lemma overflows_snoc: "overflows (hs @ [h]) = overflows hs + (if open_before hs then overflow h else 0)"
  by (induction hs) (auto simp: open_before_def overflow_close)

lemma open_before_snoc [simp]: "open_before []" "open_before (hs @ [h]) \<longleftrightarrow> open_before hs \<and> fst h \<noteq> QClose"
  by (auto simp: open_before_def)

subsection \<open>Accounting\<close>

definition accounted :: "int \<Rightarrow> string \<Rightarrow> ('a queue_call \<times> 'a queue_result) list \<Rightarrow> 'a bounded_queue \<Rightarrow> bool" where
  "accounted capacity policy hs q \<longleftrightarrow>
     bq_capacity q = capacity \<and> bq_policy q = policy \<and> 0 < capacity \<and> bq_closed q = (\<not> open_before hs) \<and>
     bq_enqueued q = int (length (accepted_items hs)) \<and> bq_dequeued q = int (length (delivered_items hs)) \<and>
     bq_enqueued q + overflows hs = bq_dequeued q + bq_dropped q + int (length (bq_items q)) \<and>
     int (length (bq_items q)) \<le> bq_max_depth q \<and> bq_max_depth q \<le> capacity \<and>
     (policy \<noteq> ''drop_newest'' \<longrightarrow> overflows hs = 0)"

lemma new_queue_fresh:
  assumes "new_queue capacity policy = Inr q"
  shows "q = \<lparr>bq_capacity = capacity, bq_policy = policy, bq_items = [], bq_closed = False,
           bq_enqueued = 0, bq_dequeued = 0, bq_dropped = 0, bq_max_depth = 0\<rparr> \<and> 0 < capacity \<and>
         policy \<in> {''block'', ''latest'', ''drop_oldest'', ''drop_newest''}"
  using assms by (simp add: new_queue_def split: if_splits)

lemma new_queue_accounted: "new_queue capacity policy = Inr q \<Longrightarrow> accounted capacity policy [] q"
  by (drule new_queue_fresh) (simp add: accounted_def)

text \<open>Every operation that appends does it with room for the item.\<close>

lemma append_accounted:
  assumes "accounted n p hs q" and "\<not> bq_closed q" and "int (length (bq_items q)) < n" and "accepted_item h = [x]"
    and "fst h \<noteq> QClose" and "overflow h = 0" and "delivered_item h = []"
  shows "accounted n p (hs @ [h]) (append_item x q)"
  using assms by (auto simp: accounted_def append_item_def overflows_snoc)

definition drop_items :: "nat \<Rightarrow> 'a bounded_queue \<Rightarrow> 'a bounded_queue" where
  "drop_items k q = q\<lparr>bq_items := drop k (bq_items q), bq_dropped := bq_dropped q + int (min k (length (bq_items q)))\<rparr>"

lemma drop_accounted: "accounted n p hs q \<Longrightarrow> accounted n p hs (drop_items k q)"
  by (auto simp: accounted_def drop_items_def min_def)

lemma accounted_room:
  "accounted n p hs q \<Longrightarrow> bq_capacity q = n \<and> 0 < n \<and> bq_policy q = p \<and> int (length (bq_items q)) \<le> n"
  by (auto simp: accounted_def)

lemma put_drop:
  "\<not> bq_closed q \<Longrightarrow> bq_policy q = ''latest'' \<Longrightarrow>
     queue_put x q = Some (QBool True, append_item x (drop_items (length (bq_items q)) q))"
  "\<not> bq_closed q \<Longrightarrow> bq_policy q \<notin> {''block'', ''drop_newest'', ''latest''} \<Longrightarrow> 0 < bq_capacity q \<Longrightarrow> queue_full q \<Longrightarrow>
     queue_put x q = Some (QBool True, append_item x (drop_items 1 q))"
  "\<not> bq_closed q \<Longrightarrow> bq_policy q \<noteq> ''latest'' \<Longrightarrow> \<not> queue_full q \<Longrightarrow> queue_put x q = Some (QBool True, append_item x q)"
  by (cases q; auto simp: queue_put_def drop_items_def drop_Suc queue_full_def append_item_def min_def Suc_le_eq)+

lemma put_accounted:
  assumes "queue_put x q = Some (r, q')" and a: "accounted n p hs q"
  shows "accounted n p (hs @ [(QPut x, r)]) q'"
proof (cases "bq_closed q")
  case True
  with assms show ?thesis by (auto simp: queue_put_def accounted_def overflows_snoc)
next
  case False
  note room = accounted_room [OF a]
  have put: "accounted n p (hs @ [(QPut x, QBool True)]) (append_item x (drop_items k q))"
    if "int (length (drop k (bq_items q))) < n" for k
    using False that by (intro append_accounted drop_accounted a) (simp_all add: drop_items_def)
  consider "p = ''latest''" | "p \<noteq> ''latest''" "queue_full q" | "p \<noteq> ''latest''" "\<not> queue_full q" by blast
  then show ?thesis
  proof cases
    case 1
    with put [of "length (bq_items q)"] room False assms(1) show ?thesis
      by (auto simp: put_drop)
  next
    case 2
    show ?thesis
    proof (cases "p \<in> {''block'', ''drop_newest''}")
      case True
      with 2 False room assms show ?thesis
        by (auto simp: queue_put_def accounted_def overflows_snoc)
    next
      case other: False
      with 2 put [of 1] room False assms(1) show ?thesis
        by (auto simp: put_drop(2) queue_full_def)
    qed
  next
    case 3
    with room False assms show ?thesis
      by (auto simp: put_drop(3) queue_full_def intro!: append_accounted)
  qed
qed

lemma attempt_accounted:
  assumes "attempt c q = Some (r, q')" and a: "accounted n p hs q"
  shows "accounted n p (hs @ [(c, r)]) q'"
proof (cases c)
  case (QPut x)
  with put_accounted [of x q r q'] assms show ?thesis by simp
next
  case (QPutControl x)
  show ?thesis
  proof (cases "bq_closed q")
    case True
    with assms QPutControl show ?thesis
      by (auto simp: queue_put_control_def accounted_def overflows_snoc)
  next
    case False
    with assms accounted_room [OF a] QPutControl show ?thesis
      by (auto simp: queue_put_control_def queue_full_def intro!: append_accounted split: if_splits)
  qed
next
  case QGet
  with assms show ?thesis
    by (auto simp: queue_get_def pop_item_def accounted_def overflows_snoc split: if_splits list.splits)
next
  case QTryGet
  with assms show ?thesis
    by (auto simp: queue_try_get_def pop_item_def accounted_def overflows_snoc split: list.splits)
next
  case QClose
  with assms show ?thesis by (auto simp: queue_close_def accounted_def overflows_snoc)
next
  case QDiscardPending
  with assms show ?thesis by (auto simp: queue_discard_pending_def accounted_def overflows_snoc)
qed

lemma mstep_accounted:
  "mstep m e m' \<Longrightarrow> accounted n p hs (mon_queue m) \<Longrightarrow> accounted n p (hs @ returned e) (mon_queue m')"
  by (erule mstepE) (auto intro: attempt_accounted)

lemma mruns_accounted:
  "mruns m tr m' \<Longrightarrow> accounted n p [] (mon_queue m) \<Longrightarrow> accounted n p (history tr) (mon_queue m')"
  by (induction rule: mruns.induct) (auto dest: mstep_accounted)

text \<open>
  C22: The queue accounts for every message under every interleaving of its callers: it never holds
  more than its capacity, nor did it ever; its statistics are the number of messages accepted and
  delivered, and everything offered to it while open is delivered, dropped or still pending - where
  what drop_newest turned away counts as dropped without having been enqueued.
\<close>

theorem queue_accounting:
  assumes "new_queue capacity policy = Inr q" and "mruns (shared q) tr m"
  shows "let r = mon_queue m; hs = history tr in
     int (length (bq_items r)) \<le> bq_max_depth r \<and> bq_max_depth r \<le> capacity \<and>
     bq_enqueued r = int (length (accepted_items hs)) \<and> bq_dequeued r = int (length (delivered_items hs)) \<and>
     bq_enqueued r + overflows hs = bq_dequeued r + bq_dropped r + int (length (bq_items r)) \<and>
     (policy \<noteq> ''drop_newest'' \<longrightarrow> overflows hs = 0)"
  using mruns_accounted [OF assms(2)] new_queue_accounted [OF assms(1)]
  by (simp add: shared_def accounted_def Let_def)

subsection \<open>Channels: order of delivery\<close>

text \<open>
  What a user of a queue relies on, whichever implementation it gets (the native queue where it is
  built, this one otherwise): an accepted item is put behind a tail of the pending ones, a refused
  call changes nothing, what is taken is the oldest pending item, and nothing else adds items.
\<close>

fun offered :: "'a queue_call \<Rightarrow> 'a option" where
  "offered (QPut x) = Some x"
| "offered (QPutControl x) = Some x"
| "offered c = None"

inductive served :: "('a queue_call \<Rightarrow> 'q \<Rightarrow> ('a queue_result \<times> 'q) option) \<Rightarrow> 'q \<Rightarrow> ('a queue_call \<times> 'a queue_result) list \<Rightarrow> 'q \<Rightarrow> bool"
  for perform where
  nothing: "served perform q [] q"
| one: "served perform q hs q1 \<Longrightarrow> perform c q1 = Some (r, q2) \<Longrightarrow> served perform q (hs @ [(c, r)]) q2"

locale channel =
  fixes perform :: "'a queue_call \<Rightarrow> 'q \<Rightarrow> ('a queue_result \<times> 'q) option"
    and pending :: "'q \<Rightarrow> 'a list"
  assumes accepts: "perform c q = Some (QBool True, q') \<Longrightarrow>
      \<exists>x ys. offered c = Some x \<and> suffix ys (pending q) \<and> pending q' = ys @ [x]"
    and refuses: "perform c q = Some (QBool False, q') \<Longrightarrow> pending q' = pending q"
    and takes: "perform c q = Some (QItem (Some x), q') \<Longrightarrow> offered c = None \<and> pending q = x # pending q'"
    and finds_nothing: "perform c q = Some (QItem None, q') \<Longrightarrow> pending q' = pending q"
    and others: "perform c q = Some (r, q') \<Longrightarrow> r \<in> range QCount \<union> {QNothing} \<Longrightarrow> suffix (pending q') (pending q)"
begin

lemma offered_accepted:
  assumes "perform c q = Some (r, q')"
  shows "accepted_item (c, r) = (case (offered c, r) of (Some x, QBool True) \<Rightarrow> [x] | _ \<Rightarrow> [])"
  by (cases "(c, r)" rule: accepted_item.cases) (auto split: option.split)

text \<open>The invariant: what was delivered and what is pending is a subsequence of what was accepted,
  and what is pending is its newest part.\<close>

definition ordered :: "('a queue_call \<times> 'a queue_result) list \<Rightarrow> 'q \<Rightarrow> bool" where
  "ordered hs q \<longleftrightarrow> (\<exists>old. accepted_items hs = old @ pending q \<and> subseq (delivered_items hs) old)"

lemma drop_ordered:
  assumes "ordered hs q" and "suffix ys (pending q)"
  shows "\<exists>old. accepted_items hs = old @ ys \<and> subseq (delivered_items hs) old"
proof -
  from assms obtain old zs where "accepted_items hs = old @ zs @ ys" "subseq (delivered_items hs) old"
    by (auto simp: ordered_def suffix_def)
  moreover from this have "subseq (delivered_items hs) (old @ zs)"
    using list_emb_append2 subseq_rev_drop_many by blast
  ultimately show ?thesis by (metis append_assoc)
qed

lemma ordered_step:
  assumes o: "ordered hs q" and p: "perform c q = Some (r, q')"
  shows "ordered (hs @ [(c, r)]) q'"
proof (cases r)
  case (QBool b)
  show ?thesis
  proof (cases b)
    case True
    with p QBool accepts [of c q q'] obtain x ys where x: "offered c = Some x" "suffix ys (pending q)" "pending q' = ys @ [x]"
      by auto
    with drop_ordered [OF o] obtain old where "accepted_items hs = old @ ys" "subseq (delivered_items hs) old" by blast
    with x True QBool offered_accepted [OF p] show ?thesis by (auto simp: ordered_def)
  next
    case False
    with p QBool refuses [of c q q'] o show ?thesis by (auto simp: ordered_def offered_accepted [OF p] split: option.split)
  qed
next
  case (QItem i)
  show ?thesis
  proof (cases i)
    case None
    with p QItem finds_nothing [of c q q'] o show ?thesis by (auto simp: ordered_def offered_accepted [OF p] split: option.split)
  next
    case (Some x)
    with p QItem have t: "pending q = x # pending q'" using takes [of c q x q'] by simp
    from o obtain old where "accepted_items hs = old @ pending q" "subseq (delivered_items hs) old" by (auto simp: ordered_def)
    with t have "accepted_items hs = (old @ [x]) @ pending q'" "subseq (delivered_items hs @ [x]) (old @ [x])" by simp_all
    with QItem Some show ?thesis by (auto simp: ordered_def offered_accepted [OF p] split: option.split)
  qed
next
  case (QCount n)
  with p others [OF p] drop_ordered [OF o, of "pending q'"] show ?thesis
    by (auto simp: ordered_def offered_accepted [OF p] split: option.split)
next
  case QNothing
  with p others [OF p] drop_ordered [OF o, of "pending q'"] show ?thesis
    by (auto simp: ordered_def offered_accepted [OF p] split: option.split)
qed

lemma served_ordered:
  "served perform q hs q' \<Longrightarrow> pending q = [] \<Longrightarrow> ordered hs q'"
  by (induction rule: served.induct) (simp add: ordered_def, blast intro: ordered_step)

lemma pending_is_newest:
  "served perform q hs q' \<Longrightarrow> pending q = [] \<Longrightarrow> suffix (pending q') (accepted_items hs)"
  by (drule (1) served_ordered) (auto simp: ordered_def suffix_def)

lemma delivered_in_order:
  "served perform q hs q' \<Longrightarrow> pending q = [] \<Longrightarrow> subseq (delivered_items hs @ pending q') (accepted_items hs)"
  by (drule (1) served_ordered) (auto simp: ordered_def)

end

lemma suffix_tl: "suffix (tl xs) xs"
  by (cases xs) (simp_all add: suffix_ConsI)

lemma put_accepts:
  "queue_put x q = Some (QBool True, q') \<Longrightarrow> \<exists>ys. suffix ys (bq_items q) \<and> bq_items q' = ys @ [x]"
  by (simp add: queue_put_def append_item_def split: if_splits) (use suffix_tl in fastforce)+

lemma put_refuses: "queue_put x q = Some (QBool False, q') \<Longrightarrow> bq_items q' = bq_items q"
  by (auto simp: queue_put_def split: if_splits)

lemma put_result: "queue_put x q = Some (r, q') \<Longrightarrow> \<exists>b. r = QBool b"
  by (auto simp: queue_put_def split: if_splits)

lemma put_control_result:
  "queue_put_control x q = Some (r, q') \<Longrightarrow>
     r = QBool True \<and> bq_items q' = bq_items q @ [x] \<or> r = QBool False \<and> q' = q"
  by (auto simp: queue_put_control_def append_item_def split: if_splits)

lemma pop_item_result:
  "pop_item q = Some (r, q') \<Longrightarrow>
     r = QItem None \<and> q' = q \<and> bq_items q = [] \<or> (\<exists>x. r = QItem (Some x) \<and> bq_items q = x # bq_items q')"
  by (auto simp: pop_item_def split: list.splits)

lemma get_result: "queue_get q = Some (r, q') \<Longrightarrow> pop_item q = Some (r, q')"
  by (simp add: queue_get_def split: if_splits)

lemma attempt_result:
  assumes "attempt c q = Some (r, q')"
  obtains (accepts) x ys where "r = QBool True" "offered c = Some x" "suffix ys (bq_items q)" "bq_items q' = ys @ [x]"
  | (refuses) "r = QBool False" "bq_items q' = bq_items q"
  | (takes) x where "r = QItem (Some x)" "offered c = None" "bq_items q = x # bq_items q'"
  | (finds_nothing) "r = QItem None" "offered c = None" "bq_items q' = bq_items q"
  | (closes) "r = QNothing" "c = QClose" "bq_items q' = bq_items q"
  | (discards) n where "r = QCount n" "c = QDiscardPending" "bq_items q' = []"
proof (cases c)
  case (QPut x)
  with assms put_result [of x q r q'] obtain b where "r = QBool b" by auto
  with QPut assms that(1,2) put_accepts [of x q q'] put_refuses [of x q q'] show ?thesis
    by (cases b) auto
next
  case (QPutControl x)
  with assms put_control_result [of x q r q'] that(1) [of x "bq_items q"] that(2) show ?thesis by auto
next
  case QGet
  with assms pop_item_result [OF get_result, of q r q'] that(3,4) show ?thesis by auto
next
  case QTryGet
  with assms pop_item_result [of q r q'] that(3,4) show ?thesis by (auto simp: queue_try_get_def)
next
  case QClose
  with assms that(5) show ?thesis by (auto simp: queue_close_def)
next
  case QDiscardPending
  with assms that(6) show ?thesis by (auto simp: queue_discard_pending_def)
qed

interpretation python_queue: channel attempt bq_items
proof
  fix c :: "'a queue_call" and q q' :: "'a bounded_queue"
  show "attempt c q = Some (QBool True, q') \<Longrightarrow>
      \<exists>x ys. offered c = Some x \<and> suffix ys (bq_items q) \<and> bq_items q' = ys @ [x]"
    by (erule attempt_result) auto
  show "attempt c q = Some (QBool False, q') \<Longrightarrow> bq_items q' = bq_items q"
    by (erule attempt_result) auto
  show "attempt c q = Some (QItem (Some x), q') \<Longrightarrow> offered c = None \<and> bq_items q = x # bq_items q'" for x
    by (erule attempt_result) auto
  show "attempt c q = Some (QItem None, q') \<Longrightarrow> bq_items q' = bq_items q"
    by (erule attempt_result) auto
  show "attempt c q = Some (r, q') \<Longrightarrow> r \<in> range QCount \<union> {QNothing} \<Longrightarrow> suffix (bq_items q') (bq_items q)" for r
    by (erule attempt_result) auto
qed

lemma mruns_served: "mruns m tr m' \<Longrightarrow> served attempt (mon_queue m) (history tr) (mon_queue m')"
proof (induction rule: mruns.induct)
  case (step m tr m1 e m2)
  from step.hyps(2) show ?case
    by (cases rule: mstep.cases) (use step.IH in \<open>auto intro: served.one\<close>)
qed (simp add: served.nothing)

text \<open>Nothing that was accepted is lost, unless the policy drops pending messages or a caller
  discards them.\<close>

lemma keeps_all:
  assumes "served attempt q hs q'" and "bq_items q = []" and "bq_policy q \<in> {''block'', ''drop_newest''}"
    and "QDiscardPending \<notin> fst ` set hs"
  shows "delivered_items hs @ bq_items q' = accepted_items hs \<and> bq_policy q' = bq_policy q"
  using assms
proof (induction rule: served.induct)
  case (one q hs q1 c r q2)
  then have ih: "delivered_items hs @ bq_items q1 = accepted_items hs" "bq_policy q1 = bq_policy q" and d: "c \<noteq> QDiscardPending"
    by auto
  from d one.hyps(2) one.prems(2) ih(2) show ?case
    by (cases c)
       (auto simp: queue_defs ih(1) [symmetric] split: if_splits list.splits)
qed simp

text \<open>
  C23: Messages leave the queue in the order in which they were accepted: at every moment, under
  every interleaving, what was delivered followed by what is pending is a subsequence of what was
  accepted, and what is pending is its newest part.  Under the policies block and drop_newest
  nothing accepted is ever lost, unless a caller discards what is pending.
\<close>

theorem queue_fifo:
  assumes "new_queue capacity policy = Inr q" and "mruns (shared q) tr m"
  shows "let pending = bq_items (mon_queue m); hs = history tr in
     subseq (delivered_items hs @ pending) (accepted_items hs) \<and> suffix pending (accepted_items hs) \<and>
     (policy \<in> {''block'', ''drop_newest''} \<and> QDiscardPending \<notin> fst ` set hs \<longrightarrow>
        delivered_items hs @ pending = accepted_items hs)"
proof -
  from new_queue_fresh [OF assms(1)] have "bq_items q = []" "bq_policy q = policy" by simp_all
  moreover from mruns_served [OF assms(2)] have "served attempt q (history tr) (mon_queue m)"
    by (simp add: shared_def)
  ultimately show ?thesis
    using keeps_all by (auto simp: Let_def python_queue.delivered_in_order python_queue.pending_is_newest)
qed

subsection \<open>Waiting and waking\<close>

lemma attempt_None:
  "attempt c q = None \<longleftrightarrow> \<not> bq_closed q \<and>
     (case c of QPut x \<Rightarrow> bq_policy q = ''block'' \<and> queue_full q | QPutControl x \<Rightarrow> queue_full q
      | QGet \<Rightarrow> bq_items q = [] | _ \<Rightarrow> False)"
  by (cases c) (auto simp: queue_defs split: list.splits)

lemma blocked_full:
  "attempt c q = None \<Longrightarrow> 0 < bq_capacity q \<Longrightarrow> offered c = None \<longleftrightarrow> \<not> queue_full q"
  by (cases c) (simp_all add: attempt_None queue_full_def del: attempt.simps)

lemma silent_attempt:
  assumes "attempt c q = Some (r, q')" and "\<not> notifies c r"
  shows "bq_items q' = bq_items q \<and> bq_closed q' = bq_closed q \<and> bq_policy q' = bq_policy q \<and> bq_capacity q' = bq_capacity q"
  using assms by (cases c) (auto simp: queue_defs split: if_splits list.splits)

lemma silent_waits:
  "attempt c q = Some (r, q') \<Longrightarrow> \<not> notifies c r \<Longrightarrow> attempt d q' = None \<longleftrightarrow> attempt d q = None"
  by (drule (1) silent_attempt) (simp add: attempt_None queue_full_def split: queue_call.split)

definition sleeps :: "'a monitor \<Rightarrow> nat \<Rightarrow> 'a queue_call \<Rightarrow> bool" where
  "sleeps m t c = (mon_callers m t = Asleep c)"

lemma wake_not_asleep [simp]: "wake s \<noteq> Asleep c"
  by (cases s) auto

lemma mstep_waiting:
  assumes "mstep m e m'" and "\<And>t c. sleeps m t c \<Longrightarrow> attempt c (mon_queue m) = None" and "sleeps m' t c"
  shows "attempt c (mon_queue m') = None"
  using assms(1)
proof (cases rule: mstep.cases)
  case (return f u d q r q')
  with assms(3) have "\<not> notifies d r" "sleeps m t c"
    by (auto simp: sleeps_def notify_all_def split: if_splits)
  with return assms(2) [of t c] show ?thesis by (auto simp: silent_waits)
qed (use assms(2) [of t c] assms(3) in \<open>auto simp: sleeps_def split: if_splits\<close>)

lemma mruns_waiting:
  "mruns m tr m' \<Longrightarrow> (\<And>t c. sleeps m t c \<Longrightarrow> attempt c (mon_queue m) = None) \<Longrightarrow>
     sleeps m' t c \<Longrightarrow> attempt c (mon_queue m') = None"
  by (induction arbitrary: t c rule: mruns.induct) (auto intro: mstep_waiting)

text \<open>
  C24: No wake-up is lost: under every interleaving a sleeping caller is one that really cannot
  proceed - a producer while the queue is full, a consumer while it is empty.  So producers and
  consumers are never asleep at the same time, and once the queue is closed nobody is: every call
  returns at its next attempt.
\<close>

theorem queue_no_lost_wakeup:
  assumes "new_queue capacity policy = Inr q" and "mruns (shared q) tr m"
  shows "(\<forall>t c. sleeps m t c \<longrightarrow> attempt c (mon_queue m) = None) \<and>
     (\<forall>t c u d. sleeps m t c \<and> sleeps m u d \<longrightarrow> (offered c = None \<longleftrightarrow> offered d = None)) \<and>
     (bq_closed (mon_queue m) \<longrightarrow> (\<forall>t c. \<not> sleeps m t c \<and> attempt c (mon_queue m) \<noteq> None))"
proof -
  have w: "attempt c (mon_queue m) = None" if "sleeps m t c" for t c
    using mruns_waiting [OF assms(2) _ that] by (simp add: sleeps_def shared_def)
  have "0 < bq_capacity (mon_queue m)"
    using mruns_accounted [OF assms(2)] new_queue_accounted [OF assms(1)] by (simp add: shared_def accounted_def)
  then have "offered c = None \<longleftrightarrow> \<not> queue_full (mon_queue m)" if "sleeps m t c" for t c
    using blocked_full [OF w [OF that]] by simp
  then have "offered c = None \<longleftrightarrow> offered d = None" if "sleeps m t c" "sleeps m u d" for t c u d
    using that by metis
  moreover have "attempt c (mon_queue m) \<noteq> None" if "bq_closed (mon_queue m)" for c
    using that by (simp add: attempt_None del: attempt.simps)
  ultimately show ?thesis using w by metis
qed

text \<open>
  A full queue that blocks and is not read: no call to put or put_control returns, for as long as
  nobody takes a message, discards or closes - and until then the queue does not change.
\<close>

theorem unread_queue_blocks:
  assumes "mruns m tr m'" and "bq_policy (mon_queue m) = ''block''" and "queue_full (mon_queue m)"
    and "\<not> bq_closed (mon_queue m)" and "\<forall>(c, r) \<in> set (history tr). offered c \<noteq> None"
  shows "history tr = [] \<and> mon_queue m' = mon_queue m"
  using assms
proof (induction rule: mruns.induct)
  case (step m tr m1 e m2)
  then have ih: "history tr = []" "mon_queue m1 = mon_queue m" by auto
  from step.hyps(2) show ?case
  proof (cases rule: mstep.cases)
    case (return f t c q r q')
    with step.prems ih have "offered c \<noteq> None" by simp
    with step.prems(1-3) have "attempt c (mon_queue m) = None"
      by (cases c) (simp_all add: attempt_None del: attempt.simps)
    with return ih show ?thesis by simp
  qed (use ih in auto)
qed simp

subsection \<open>An example\<close>

text \<open>Two producers and a consumer on a queue of one place: the second producer sleeps until the
  consumer takes the first message.\<close>

definition relay :: "nat queue_event list" where
  "relay = [Invoked 0 (QPut 5), Returned 0 (QPut 5) (QBool True), Invoked 1 (QPut 6), Slept 1,
            Invoked 2 QGet, Returned 2 QGet (QItem (Some 5)), Returned 1 (QPut 6) (QBool True),
            Invoked 0 (QPut 7), Slept 0]"

definition one_place :: "nat bounded_queue" where
  "one_place = \<lparr>bq_capacity = 1, bq_policy = ''block'', bq_items = [], bq_closed = False,
     bq_enqueued = 0, bq_dequeued = 0, bq_dropped = 0, bq_max_depth = 0\<rparr>"

lemma one_place: "new_queue 1 ''block'' = Inr one_place"
  by (simp add: new_queue_def one_place_def)

lemma relay_runs:
  "\<exists>m. mruns (shared one_place) relay m \<and> sleeps m 0 (QPut 7) \<and> bq_items (mon_queue m) = [6] \<and>
     delivered_items (history relay) = [5]"
proof -
  have "case replay relay (shared one_place) of None \<Rightarrow> False
     | Some m \<Rightarrow> mon_callers m 0 = Asleep (QPut 7) \<and> bq_items (mon_queue m) = [6]"
    by code_simp
  moreover have "delivered_items (history relay) = [5]" by code_simp
  ultimately show ?thesis
    by (auto simp: sleeps_def dest: replay_mruns split: option.splits)
qed

lemma queue_accounting_witness: "\<exists>m. mruns (shared one_place) relay m \<and> bq_enqueued (mon_queue m) = 2"
proof -
  obtain m where m: "mruns (shared one_place) relay m" using relay_runs by blast
  moreover have "length (accepted_items (history relay)) = 2" by code_simp
  ultimately show ?thesis using queue_accounting [OF one_place m] by (auto simp: Let_def)
qed

lemma queue_fifo_witness:
  "\<exists>m. mruns (shared one_place) relay m \<and> [5] @ bq_items (mon_queue m) = accepted_items (history relay)"
proof -
  obtain m where m: "mruns (shared one_place) relay m" "delivered_items (history relay) = [5]" using relay_runs by blast
  moreover have "QDiscardPending \<notin> fst ` set (history relay)" by code_simp
  ultimately show ?thesis using queue_fifo [OF one_place m(1)] by (auto simp: Let_def)
qed

lemma queue_no_lost_wakeup_witness:
  "\<exists>m. mruns (shared one_place) relay m \<and> sleeps m 0 (QPut 7) \<and> attempt (QPut 7) (mon_queue m) = None"
proof -
  obtain m where m: "mruns (shared one_place) relay m" "sleeps m 0 (QPut 7)" using relay_runs by blast
  with queue_no_lost_wakeup [OF one_place m(1)] show ?thesis by blast
qed

text \<open>A queue of one place that holds a message, and a producer that comes to it.\<close>

definition held :: "nat bounded_queue" where
  "held = one_place\<lparr>bq_items := [5], bq_enqueued := 1, bq_max_depth := 1\<rparr>"

lemma unread_queue_blocks_witness:
  "\<exists>m. mruns (shared held) [Invoked 1 (QPut 6), Slept 1] m \<and> mon_queue m = held"
proof -
  let ?tr = "[Invoked 1 (QPut 6), Slept 1] :: nat queue_event list"
  have "replay ?tr (shared held) \<noteq> None" by code_simp
  then obtain m where "replay ?tr (shared held) = Some m" by blast
  then have m: "mruns (shared held) ?tr m" by (rule replay_mruns)
  have held: "mon_queue (shared held) = held" "bq_policy held = ''block''" "queue_full held" "\<not> bq_closed held"
    by (simp_all add: held_def one_place_def queue_full_def shared_def)
  have "\<forall>(c, r) \<in> set (history ?tr). offered c \<noteq> None" by (simp add: history_def)
  from unread_queue_blocks [OF m _ _ _ this] held have "mon_queue m = held" by simp
  with m show ?thesis by blast
qed

end
