(* ===== verification/Edge_Queue.thy ===== *)
theory Edge_Queue
  imports Bounded_Queue Connection_Policy
begin

text \<open>
  The queue of one runtime edge (runtime_primitives.py: Envelope, Received, RuntimeQueueBinding and
  RuntimeEdgeQueue; messages.py: Message).

  A RuntimeEdgeQueue wraps a bounded queue - the native one where it is built, else
  PythonBoundedQueue - and adds envelopes with the time of the offer, counters of the payload
  memory it saw, and a report.  A method is modelled by what it does before it calls the queue,
  the call it makes, and what it does with the call's result; the call itself is an attempt of
  Bounded_Queue.  The clock value perf_counter_ns returns is an argument.

  The theorems: the report accounts for every message offered, splitting the losses of the queue
  by what they mean to a consumer; a resolved Connection policy always builds its queue.
\<close>

subsection \<open>Messages\<close>

record managed_buffer =
  mb_nbytes :: "int option"  \<comment> \<open>None: the nbytes property raises TypeError or ValueError\<close>
  mb_memory_type :: string

datatype 'p payload =
    Managed managed_buffer
  | Framed "managed_buffer option"  \<comment> \<open>Frame, Tensor and EncodedFrame with their buffer\<close>
  | Plain 'p

record 'p message =
  msg_type :: string
  msg_payload :: "'p payload"
  msg_sequence :: int
  msg_timestamp_ns :: int
  msg_stream_id :: string
  msg_trace_id :: pyval
  msg_span_id :: string
  msg_pipeline_id :: string
  msg_run_id :: string
  msg_source_id :: string
  msg_metadata :: mapping
  msg_created_ns :: int
  msg_lease :: "string option"

text \<open>What travels through a queue: an envelope with the time it was offered, or the end-of-stream
  marker.\<close>

datatype 'p edge_item = Envelope "'p message" int | EOS

text \<open>What get and try_get return: a message with the time it waited, the marker, or None.\<close>

datatype 'p received = Received "'p message" int | ReceivedEOS

fun message_managed_buffer :: "'p message \<Rightarrow> managed_buffer option" where
  "message_managed_buffer m =
     (case msg_payload m of Managed b \<Rightarrow> Some b | Framed b \<Rightarrow> b | Plain x \<Rightarrow> None)"

subsection \<open>Bindings\<close>

record queue_binding =
  qb_source :: string
  qb_target :: string
  qb_capacity :: int
  qb_policy :: string

definition nonempty_text :: "string \<Rightarrow> pyval \<Rightarrow> string result" where
  "nonempty_text name v =
     (case v of PStr s \<Rightarrow> if s = [] then Inl (ValueErr (name @ '' must be a non-empty string'')) else Inr s
      | _ \<Rightarrow> Inl (ValueErr (name @ '' must be a non-empty string'')))"

definition mk_RuntimeQueueBinding :: "pyval \<Rightarrow> pyval \<Rightarrow> pyval \<Rightarrow> pyval \<Rightarrow> queue_binding result" where
  "mk_RuntimeQueueBinding source target capacity policy =
     ebind (nonempty_text ''source'' source) (\<lambda>s.
     ebind (nonempty_text ''target'' target) (\<lambda>t.
     ebind (case capacity of
              PInt n \<Rightarrow> if n < 1 then Inl (ValueErr ''capacity must be a positive integer'') else Inr n
            | _ \<Rightarrow> Inl (ValueErr ''capacity must be a positive integer'')) (\<lambda>n.
     ebind (nonempty_text ''policy'' policy) (\<lambda>p.
       Inr \<lparr>qb_source = s, qb_target = t, qb_capacity = n, qb_policy = p\<rparr>))))"

subsection \<open>The edge queue\<close>

record ('p, 'q) edge_queue =
  eq_binding :: queue_binding
  eq_bytes :: int
  eq_memory_types :: "string \<Rightarrow> int"
  eq_queue :: 'q

definition mk_RuntimeEdgeQueue :: "queue_binding \<Rightarrow> ('p, 'p edge_item bounded_queue) edge_queue result" where
  "mk_RuntimeEdgeQueue binding =
     ebind (new_queue (qb_capacity binding) (qb_policy binding)) (\<lambda>q.
       Inr \<lparr>eq_binding = binding, eq_bytes = 0, eq_memory_types = (\<lambda>_. 0), eq_queue = q\<rparr>)"

definition edge_put :: "int \<Rightarrow> 'p message \<Rightarrow> ('p, 'q) edge_queue \<Rightarrow> ('p, 'q) edge_queue \<times> 'p edge_item queue_call" where
  "edge_put now m e =
     (case message_managed_buffer m of
        None \<Rightarrow> e
      | Some b \<Rightarrow> e\<lparr>eq_bytes := eq_bytes e + (case mb_nbytes b of None \<Rightarrow> 0 | Some n \<Rightarrow> n),
                    eq_memory_types := (eq_memory_types e)(mb_memory_type b := eq_memory_types e (mb_memory_type b) + 1)\<rparr>,
      QPut (Envelope m now))"

definition edge_put_control :: "'p edge_item \<Rightarrow> 'p edge_item queue_call" where
  "edge_put_control x = QPutControl x"

fun decode_item :: "int \<Rightarrow> 'p edge_item \<Rightarrow> 'p received" where
  "decode_item now (Envelope m enqueued) = Received m (now - enqueued)"
| "decode_item now EOS = ReceivedEOS"

definition edge_get :: "int \<Rightarrow> 'p edge_item queue_call \<times> ('p edge_item option \<Rightarrow> 'p received option)" where
  "edge_get now = (QGet, map_option (decode_item now))"

definition edge_try_get :: "int \<Rightarrow> 'p edge_item queue_call \<times> ('p edge_item option \<Rightarrow> 'p received option)" where
  "edge_try_get now = (QTryGet, map_option (decode_item now))"

definition edge_close :: "'p edge_item queue_call" where
  "edge_close = QClose"

record edge_report =
  rp_source :: string
  rp_target :: string
  rp_enqueued :: int
  rp_dequeued :: int
  rp_dropped :: int
  rp_stale_skips :: int
  rp_overflow_drops :: int
  rp_max_depth :: int
  rp_depth :: int
  rp_capacity :: int
  rp_policy :: string
  rp_bytes :: int
  rp_observed_memory :: "string \<Rightarrow> int"

definition stat :: "(string \<times> int) list \<Rightarrow> string \<Rightarrow> int" where
  "stat stats name = (case map_of stats name of None \<Rightarrow> 0 | Some n \<Rightarrow> n)"

definition edge_report :: "('q \<Rightarrow> (string \<times> int) list) \<Rightarrow> ('p, 'q) edge_queue \<Rightarrow> edge_report" where
  "edge_report stats_of e =
     (let stats = stats_of (eq_queue e); dropped = stat stats ''dropped''; b = eq_binding e in
      \<lparr>rp_source = qb_source b, rp_target = qb_target b,
       rp_enqueued = stat stats ''enqueued'', rp_dequeued = stat stats ''dequeued'', rp_dropped = dropped,
       rp_stale_skips = (if qb_policy b \<in> {''latest'', ''drop_oldest''} then dropped else 0),
       rp_overflow_drops = (if qb_policy b = ''drop_newest'' then dropped else 0),
       rp_max_depth = stat stats ''max_depth'', rp_depth = stat stats ''depth'',
       rp_capacity = qb_capacity b, rp_policy = qb_policy b, rp_bytes = eq_bytes e,
       rp_observed_memory = eq_memory_types e\<rparr>)"

subsection \<open>What a report says\<close>

lemma queue_stats_simps [simp]:
  "stat (queue_stats q) ''enqueued'' = bq_enqueued q"
  "stat (queue_stats q) ''dequeued'' = bq_dequeued q"
  "stat (queue_stats q) ''dropped'' = bq_dropped q"
  "stat (queue_stats q) ''max_depth'' = bq_max_depth q"
  "stat (queue_stats q) ''depth'' = int (length (bq_items q))"
  by (simp_all add: stat_def queue_stats_def)

lemma mk_RuntimeEdgeQueue_Inr:
  "mk_RuntimeEdgeQueue b = Inr e \<Longrightarrow>
     new_queue (qb_capacity b) (qb_policy b) = Inr (eq_queue e) \<and> eq_binding e = b"
  by (auto simp: mk_RuntimeEdgeQueue_def result_elims)

text \<open>
  The report of an edge explains every loss, under every interleaving of its producers and
  consumers: the messages that were accepted but will never be read are its stale skips, the ones
  that were turned away at a full queue are its overflow drops, and together they are what the
  queue dropped; an edge whose policy is block reports neither.
\<close>

theorem edge_report_accounts:
  assumes e: "mk_RuntimeEdgeQueue b = Inr e" and run: "mruns (shared (eq_queue e)) tr m"
    and no_discard: "QDiscardPending \<notin> fst ` set (history tr)"
  shows "let r = edge_report queue_stats (e\<lparr>eq_queue := mon_queue m\<rparr>); hs = history tr in
     rp_enqueued r = int (length (accepted_items hs)) \<and> rp_dequeued r = int (length (delivered_items hs)) \<and>
     rp_stale_skips r = int (length (accepted_items hs)) - int (length (delivered_items hs)) - rp_depth r \<and>
     rp_overflow_drops r = overflows hs \<and>
     rp_dropped r = rp_stale_skips r + rp_overflow_drops r \<and>
     (rp_policy r = ''block'' \<longrightarrow> rp_dropped r = 0) \<and>
     rp_depth r \<le> rp_max_depth r \<and> rp_max_depth r \<le> rp_capacity r"
proof -
  let ?hs = "history tr" and ?q = "mon_queue m"
  from mk_RuntimeEdgeQueue_Inr [OF e] have q: "new_queue (qb_capacity b) (qb_policy b) = Inr (eq_queue e)" and b: "eq_binding e = b"
    by simp_all
  note fresh = new_queue_fresh [OF q]
  from mruns_accounted [OF run] new_queue_accounted [OF q]
  have a: "accounted (qb_capacity b) (qb_policy b) ?hs ?q" by (simp add: shared_def)
  have "delivered_items ?hs @ bq_items ?q = accepted_items ?hs" if "qb_policy b \<in> {''block'', ''drop_newest''}"
    using keeps_all [OF _ _ _ no_discard] mruns_served [OF run] fresh that by (auto simp: shared_def)
  then have "length (delivered_items ?hs) + length (bq_items ?q) = length (accepted_items ?hs)" if "qb_policy b \<in> {''block'', ''drop_newest''}"
    using that by (metis length_append)
  then show ?thesis
    using a fresh by (auto simp: Let_def edge_report_def b accounted_def)
qed

text \<open>An edge that turns its newest messages away: of two messages the second finds the queue full,
  and the end-of-stream marker waits for the consumer.\<close>

definition frame_message :: "int \<Rightarrow> nat message" where
  "frame_message n = \<lparr>msg_type = ''core.any'', msg_payload = Plain 0, msg_sequence = n, msg_timestamp_ns = n,
     msg_stream_id = [], msg_trace_id = PInt 0, msg_span_id = [], msg_pipeline_id = [], msg_run_id = [],
     msg_source_id = [], msg_metadata = [], msg_created_ns = n, msg_lease = None\<rparr>"

definition lossy_binding :: queue_binding where
  "lossy_binding = \<lparr>qb_source = ''a.out'', qb_target = ''b.in'', qb_capacity = 1, qb_policy = ''drop_newest''\<rparr>"

definition lossy_trace :: "nat edge_item queue_event list" where
  "lossy_trace =
     (let p0 = QPut (Envelope (frame_message 0) 10); p1 = QPut (Envelope (frame_message 1) 20) in
      [Invoked 0 p0, Returned 0 p0 (QBool True), Invoked 0 p1, Returned 0 p1 (QBool False),
       Invoked 0 (QPutControl EOS), Slept 0, Invoked 1 QGet,
       Returned 1 QGet (QItem (Some (Envelope (frame_message 0) 10))), Returned 0 (QPutControl EOS) (QBool True)])"

lemma edge_report_accounts_witness:
  "\<exists>e m. mk_RuntimeEdgeQueue lossy_binding = Inr e \<and> mruns (shared (eq_queue e)) lossy_trace m \<and>
     rp_overflow_drops (edge_report queue_stats (e\<lparr>eq_queue := mon_queue m\<rparr>)) = 1"
proof -
  have "case mk_RuntimeEdgeQueue lossy_binding of Inl _ \<Rightarrow> False | Inr e \<Rightarrow> replay lossy_trace (shared (eq_queue e)) \<noteq> None"
    by code_simp
  then obtain e m where e: "mk_RuntimeEdgeQueue lossy_binding = Inr e"
    and m: "replay lossy_trace (shared (eq_queue e)) = Some m"
    by (auto split: sum.splits)
  have "QDiscardPending \<notin> fst ` set (history lossy_trace)" "overflows (history lossy_trace) = 1" by code_simp+
  with edge_report_accounts [OF e replay_mruns [OF m]] e replay_mruns [OF m] show ?thesis
    by (auto simp: Let_def)
qed

text \<open>Composition with the Connection policies: the queue that a resolved policy describes can
  always be built.\<close>

lemma resolved_policy_builds:
  assumes "resolve_connection_execution_defaults show d = Inr p" and "s \<noteq> []" and "t \<noteq> []"
  shows "\<exists>b e. mk_RuntimeQueueBinding (PStr s) (PStr t) (PInt (cp_capacity p)) (PStr (cp_policy p)) = Inr b \<and>
     mk_RuntimeEdgeQueue b = Inr (e :: ('p, 'p edge_item bounded_queue) edge_queue)"
  using resolve_connection_wf [OF assms(1)] assms(2,3)
  by (auto simp: wf_policy_def queue_policies_def mk_RuntimeQueueBinding_def nonempty_text_def
      mk_RuntimeEdgeQueue_def new_queue_def)

end
