(* ===== verification/Runtime_Graph.thy ===== *)
theory Runtime_Graph
  imports Edge_Queue "HOL-Library.AList" "HOL-Library.List_Lexorder" "HOL-Library.Char_ord"
begin

text \<open>
  The wiring of a runtime graph (memory.py: MemoryRequirement, MemoryPlan, plan_memory,
  requirement_for_port; runtime_edge_materialization.py; runtime_graph_validation.py).

  A loaded node is what the wiring reads of it: its port types, its optional inputs, the memory it
  declares and is configured with (as requirements: MemoryRequirement.from_value, which parses the
  other spellings, is not modelled), its isolation, and the edges wired so far.  The nodes are a
  dictionary in insertion order; an edge is its queue binding and its memory plan.

  The theorems: a memory plan without a copy uses a domain both ends accept, one with a copy is
  made only when there is none; wiring gives every input port at most one edge, between compatible
  ports, and a validated graph has every required input connected.
\<close>

subsection \<open>Memory requirements and plans\<close>

record memory_requirement =
  mr_allowed :: "string list"
  mr_preferred :: "string option"
  mr_access :: string
  mr_contiguous :: bool

definition any_requirement :: memory_requirement where
  "any_requirement = \<lparr>mr_allowed = [''any''], mr_preferred = None, mr_access = ''read'', mr_contiguous = True\<rparr>"

definition accepts_memory :: "memory_requirement \<Rightarrow> string \<Rightarrow> bool" where
  "accepts_memory r m = (''any'' \<in> set (mr_allowed r) \<or> m \<in> set (mr_allowed r))"

record memory_plan =
  mp_source :: string
  mp_target :: string
  mp_selected :: string
  mp_copies :: int
  mp_transfers :: "string list"
  mp_adapter :: "string option"
  mp_reason :: string
  mp_runtime_supported :: bool

text \<open>\<open>r.preferred or ...\<close>.\<close>

definition preference :: "memory_requirement \<Rightarrow> string option" where
  "preference r = (case mr_preferred r of None \<Rightarrow> None | Some p \<Rightarrow> if p = [] then None else Some p)"

definition ordered_allowed :: "memory_requirement \<Rightarrow> string list" where
  "ordered_allowed r =
     (let items = filter (\<lambda>m. m \<noteq> ''any'') (mr_allowed r) in
      case preference r of
        None \<Rightarrow> items
      | Some p \<Rightarrow> if p \<in> set items then p # filter (\<lambda>m. m \<noteq> p) items else items)"

definition host_memory :: "string list" where
  "host_memory = [''cpu'', ''pinned_cpu'', ''shared'']"

definition device_memory :: "string list" where
  "device_memory = [''cuda'', ''rocm'', ''vulkan'', ''opencl'', ''metal'', ''npu'', ''dma_buf'', ''external'']"

definition direct_memory :: "string \<Rightarrow> string \<Rightarrow> memory_plan" where
  "direct_memory m reason =
     \<lparr>mp_source = m, mp_target = m, mp_selected = m, mp_copies = 0, mp_transfers = [], mp_adapter = None,
      mp_reason = reason, mp_runtime_supported = True\<rparr>"

definition first_or :: "string \<Rightarrow> string list \<Rightarrow> string" where
  "first_or d xs = (case xs of [] \<Rightarrow> d | x # _ \<Rightarrow> x)"

definition copy_memory :: "string \<Rightarrow> string \<Rightarrow> string \<Rightarrow> string \<Rightarrow> string \<Rightarrow> string \<Rightarrow> bool \<Rightarrow> memory_plan" where
  "copy_memory src dst selected transfer adapter reason supported =
     \<lparr>mp_source = src, mp_target = dst, mp_selected = selected, mp_copies = 1, mp_transfers = [transfer],
      mp_adapter = Some adapter, mp_reason = reason, mp_runtime_supported = supported\<rparr>"

definition arrow :: "string \<Rightarrow> string \<Rightarrow> string" where
  "arrow a b = a @ ''->'' @ b"

definition plan_forced :: "memory_requirement \<Rightarrow> memory_requirement \<Rightarrow> string \<Rightarrow> bool \<Rightarrow> memory_plan" where
  "plan_forced source target forced allow_copy =
     (let src = first_or ''unknown'' (ordered_allowed source) in
      if \<not> accepts_memory source forced
      then copy_memory src forced forced (arrow src forced) (''copy_to_'' @ forced)
             ''edge forces a memory domain not produced by source'' allow_copy
      else if \<not> accepts_memory target forced
      then copy_memory forced (first_or ''unknown'' (ordered_allowed target)) forced
             (arrow forced (first_or ''unknown'' (ordered_allowed target)))
             (''copy_to_'' @ first_or ''target'' (ordered_allowed target))
             ''edge forces a memory domain not accepted by target'' False
      else direct_memory forced ''explicit edge memory domain'')"

definition plan_transfer :: "string \<Rightarrow> string \<Rightarrow> bool \<Rightarrow> memory_plan" where
  "plan_transfer src dst allow_copy =
     (if \<not> allow_copy
      then copy_memory src dst dst (arrow src dst) (''copy_'' @ src @ ''_to_'' @ dst)
             ''no common memory domain and copies are forbidden'' False
      else if src \<in> set host_memory \<and> dst \<in> set host_memory
      then copy_memory src dst dst (arrow src dst) (''host_copy_to_'' @ dst)
             ''host memory domains require one explicit copy'' True
      else if src \<in> set host_memory \<and> dst \<in> set device_memory
      then copy_memory src dst dst (''host_to_'' @ dst) (''upload_'' @ dst)
             ''host-to-device transfer requires an explicit backend adapter'' False
      else if src \<in> set device_memory \<and> dst \<in> set host_memory
      then copy_memory src dst dst (src @ ''_to_host'') (''download_'' @ src)
             ''device-to-host transfer requires an explicit backend adapter'' False
      else copy_memory src dst dst (arrow src dst) (''convert_'' @ src @ ''_to_'' @ dst)
             ''device-domain interoperability adapter required'' False)"

text \<open>\<open>r.preferred or values[0]\<close>.\<close>

definition leading_memory :: "memory_requirement \<Rightarrow> string result" where
  "leading_memory r =
     (case preference r of
        Some p \<Rightarrow> Inr p
      | None \<Rightarrow> (case ordered_allowed r of [] \<Rightarrow> Inl (NamedErr ''IndexError'' ''tuple index out of range'') | m # _ \<Rightarrow> Inr m))"

definition plan_memory :: "memory_requirement \<Rightarrow> memory_requirement \<Rightarrow> string \<Rightarrow> bool \<Rightarrow> memory_plan result" where
  "plan_memory source target forced allow_copy =
     (let source_any = ''any'' \<in> set (mr_allowed source); target_any = ''any'' \<in> set (mr_allowed target);
          common = filter (\<lambda>m. m \<in> set (mr_allowed target)) (ordered_allowed source) in
      if forced \<noteq> ''auto'' then Inr (plan_forced source target forced allow_copy)
      else if source_any \<and> target_any then Inr (direct_memory ''dynamic'' ''both ports accept dynamic memory'')
      else if source_any then
        Inr (direct_memory (case preference target of Some p \<Rightarrow> p | None \<Rightarrow> first_or ''dynamic'' (ordered_allowed target))
               ''source preserves downstream-selected memory'')
      else if target_any then
        Inr (direct_memory (case preference source of Some p \<Rightarrow> p | None \<Rightarrow> first_or ''dynamic'' (ordered_allowed source))
               ''target accepts producer memory'')
      else if common \<noteq> [] then
        Inr (direct_memory
               (case mr_preferred target of
                  Some p \<Rightarrow> if p \<in> set common then p
                            else (case mr_preferred source of Some q \<Rightarrow> if q \<in> set common then q else hd common | None \<Rightarrow> hd common)
                | None \<Rightarrow> (case mr_preferred source of Some q \<Rightarrow> if q \<in> set common then q else hd common | None \<Rightarrow> hd common))
               ''producer and consumer share a memory domain'')
      else ebind (leading_memory source) (\<lambda>src. ebind (leading_memory target) (\<lambda>dst. Inr (plan_transfer src dst allow_copy))))"

subsection \<open>What a plan guarantees\<close>

definition proper_requirement :: "memory_requirement \<Rightarrow> bool" where
  "proper_requirement r \<longleftrightarrow> mr_allowed r \<noteq> [] \<and> (\<forall>p. mr_preferred r = Some p \<longrightarrow> p \<in> set (mr_allowed r) \<and> p \<notin> {[], ''any''})"

lemma set_ordered_allowed [simp]: "set (ordered_allowed r) = set (mr_allowed r) - {''any''}"
  by (auto simp: ordered_allowed_def Let_def split: option.split)

lemma leading_memory_allowed:
  assumes "proper_requirement r" and "''any'' \<notin> set (mr_allowed r)"
  shows "\<exists>m. leading_memory r = Inr m \<and> m \<in> set (mr_allowed r)"
proof -
  have "set (ordered_allowed r) \<noteq> {}" using assms by (auto simp: proper_requirement_def)
  moreover have "p \<in> set (mr_allowed r)" if "preference r = Some p" for p
    using assms(1) that by (auto simp: preference_def proper_requirement_def split: option.splits if_splits)
  moreover have "m \<in> set (mr_allowed r)" if "ordered_allowed r = m # ms" for m ms
    using set_ordered_allowed [of r] that by auto
  ultimately show ?thesis
    by (cases "ordered_allowed r") (auto simp: leading_memory_def split: option.split)
qed

lemma chosen_allowed:
  assumes "proper_requirement r" and "''any'' \<notin> set (mr_allowed r)"
  shows "(case preference r of Some p \<Rightarrow> p | None \<Rightarrow> first_or d (ordered_allowed r)) \<in> set (mr_allowed r)"
  using leading_memory_allowed [OF assms]
  by (auto simp: leading_memory_def first_or_def split: option.splits list.splits)

text \<open>A plan is honest: it moves nothing only if both ends accept the domain it selects.\<close>

definition honest_plan :: "memory_requirement \<Rightarrow> memory_requirement \<Rightarrow> string \<Rightarrow> bool \<Rightarrow> memory_plan \<Rightarrow> bool" where
  "honest_plan source target forced allow_copy p \<longleftrightarrow>
     (if mp_copies p = 0
      then mp_transfers p = [] \<and> mp_adapter p = None \<and> mp_source p = mp_selected p \<and> mp_target p = mp_selected p \<and>
        accepts_memory source (mp_selected p) \<and> accepts_memory target (mp_selected p) \<and> mp_runtime_supported p \<and>
        (forced \<noteq> ''auto'' \<longrightarrow> mp_selected p = forced)
      else mp_copies p = 1 \<and> length (mp_transfers p) = 1 \<and> mp_adapter p \<noteq> None \<and>
        (mp_runtime_supported p \<longrightarrow> allow_copy) \<and>
        (forced = ''auto'' \<longrightarrow> accepts_memory source (mp_source p) \<and> accepts_memory target (mp_target p) \<and>
           (\<nexists>m. accepts_memory source m \<and> accepts_memory target m) \<and>
           (mp_runtime_supported p \<longrightarrow> mp_source p \<in> set host_memory \<and> mp_target p \<in> set host_memory)) \<and>
        (forced \<noteq> ''auto'' \<longrightarrow> \<not> (accepts_memory source forced \<and> accepts_memory target forced)))"

lemma honest_direct:
  "accepts_memory s m \<Longrightarrow> accepts_memory t m \<Longrightarrow> (f \<noteq> ''auto'' \<Longrightarrow> m = f) \<Longrightarrow> honest_plan s t f a (direct_memory m reason)"
  by (auto simp: honest_plan_def direct_memory_def)

lemma honest_transfer:
  assumes "src \<in> set (mr_allowed s)" and "dst \<in> set (mr_allowed t)" and "\<nexists>m. accepts_memory s m \<and> accepts_memory t m"
  shows "honest_plan s t ''auto'' a (plan_transfer src dst a)"
proof -
  have "accepts_memory s src" "accepts_memory t dst" using assms(1,2) by (simp_all add: accepts_memory_def)
  with assms(3) show ?thesis
    by (cases a) (simp_all add: plan_transfer_def copy_memory_def honest_plan_def)
qed

text \<open>
  C29: The memory planner never hides a transfer, for requirements whose preferred domain is one they
  allow (others can be given a domain they do not accept).  Planning an edge then returns a plan.  When
  the edge forces no domain, the plan is without a copy exactly when the two ends share a domain.  When
  it forces one, the plan is without a copy exactly when both ends accept that domain, whatever else they
  share.  The domain of a plan without a copy is accepted by both ends and is the forced one, if one is
  forced; otherwise the plan announces one transfer, executable only if copies are allowed, and, when no
  domain is forced, from a domain the source accepts to one the target accepts.
\<close>

theorem plan_memory_honest:
  assumes s: "proper_requirement s" and t: "proper_requirement t"
  shows "\<exists>p. plan_memory s t forced allow_copy = Inr p \<and> honest_plan s t forced allow_copy p"
proof -
  let ?common = "filter (\<lambda>m. m \<in> set (mr_allowed t)) (ordered_allowed s)"
  consider (forced) "forced \<noteq> ''auto''"
    | (both) "forced = ''auto''" "''any'' \<in> set (mr_allowed s)" "''any'' \<in> set (mr_allowed t)"
    | (source) "forced = ''auto''" "''any'' \<in> set (mr_allowed s)" "''any'' \<notin> set (mr_allowed t)"
    | (target) "forced = ''auto''" "''any'' \<notin> set (mr_allowed s)" "''any'' \<in> set (mr_allowed t)"
    | (shared) "forced = ''auto''" "''any'' \<notin> set (mr_allowed s)" "''any'' \<notin> set (mr_allowed t)" "?common \<noteq> []"
    | (apart) "forced = ''auto''" "''any'' \<notin> set (mr_allowed s)" "''any'' \<notin> set (mr_allowed t)" "?common = []"
    by blast
  then show ?thesis
  proof cases
    case forced
    then show ?thesis
      by (simp add: plan_memory_def Let_def plan_forced_def honest_direct)
         (simp add: honest_plan_def copy_memory_def)
  next
    case both
    then show ?thesis by (auto simp: plan_memory_def accepts_memory_def intro!: honest_direct)
  next
    case source
    with chosen_allowed [OF t, of "''dynamic''"] show ?thesis
      by (auto simp: plan_memory_def accepts_memory_def intro!: honest_direct)
  next
    case target
    with chosen_allowed [OF s, of "''dynamic''"] show ?thesis
      by (auto simp: plan_memory_def accepts_memory_def intro!: honest_direct)
  next
    case shared
    from shared(4) have "hd ?common \<in> set ?common" by (rule hd_in_set)
    with shared show ?thesis
      by (auto simp: plan_memory_def Let_def accepts_memory_def split: option.split intro!: honest_direct)
  next
    case apart
    obtain src dst where d: "leading_memory s = Inr src" "src \<in> set (mr_allowed s)"
      "leading_memory t = Inr dst" "dst \<in> set (mr_allowed t)"
      using leading_memory_allowed [OF s apart(2)] leading_memory_allowed [OF t apart(3)] by blast
    from apart(4) have "\<nexists>m. accepts_memory s m \<and> accepts_memory t m"
      using apart(2,3) by (auto simp: accepts_memory_def filter_empty_conv)
    with apart d honest_transfer [OF d(2,4)] show ?thesis by (simp add: plan_memory_def Let_def)
  qed
qed

definition cpu_only :: memory_requirement where
  "cpu_only = any_requirement\<lparr>mr_allowed := [''cpu'']\<rparr>"

definition shared_only :: memory_requirement where
  "shared_only = any_requirement\<lparr>mr_allowed := [''shared''], mr_preferred := Some ''shared''\<rparr>"

lemma plan_memory_honest_witness:
  "\<exists>p. plan_memory cpu_only shared_only ''auto'' True = Inr p \<and> honest_plan cpu_only shared_only ''auto'' True p \<and> mp_copies p = 1"
proof -
  have "proper_requirement cpu_only" "proper_requirement shared_only"
    by (simp_all add: proper_requirement_def cpu_only_def shared_only_def any_requirement_def)
  from plan_memory_honest [OF this, of "''auto''" True] obtain p where
    p: "plan_memory cpu_only shared_only ''auto'' True = Inr p" "honest_plan cpu_only shared_only ''auto'' True p" by blast
  have "case plan_memory cpu_only shared_only ''auto'' True of Inl _ \<Rightarrow> False | Inr p \<Rightarrow> mp_copies p = 1" by code_simp
  with p show ?thesis by auto
qed

text \<open>A forced domain that neither end accepts is planned as an executable copy towards it: only
  the source is checked.\<close>

lemma forced_domain_unchecked:
  "\<exists>p. plan_memory cpu_only shared_only ''cuda'' True = Inr p \<and> mp_runtime_supported p \<and> mp_target p = ''cuda'' \<and>
     \<not> accepts_memory shared_only (mp_target p)"
proof -
  have "case plan_memory cpu_only shared_only ''cuda'' True of Inl _ \<Rightarrow> False
    | Inr p \<Rightarrow> mp_runtime_supported p \<and> mp_target p = ''cuda'' \<and> \<not> accepts_memory shared_only (mp_target p)" by code_simp
  then show ?thesis by (auto split: sum.splits)
qed

text \<open>A preferred domain that is not allowed is selected all the same.\<close>

lemma preferred_domain_unchecked:
  "\<exists>p. plan_memory any_requirement (cpu_only\<lparr>mr_preferred := Some ''cuda''\<rparr>) ''auto'' True = Inr p \<and> mp_copies p = 0 \<and>
     \<not> accepts_memory cpu_only (mp_selected p)"
proof -
  have "case plan_memory any_requirement (cpu_only\<lparr>mr_preferred := Some ''cuda''\<rparr>) ''auto'' True of Inl _ \<Rightarrow> False
    | Inr p \<Rightarrow> mp_copies p = 0 \<and> \<not> accepts_memory cpu_only (mp_selected p)" by code_simp
  then show ?thesis by (auto split: sum.splits)
qed

subsection \<open>Loaded nodes and edges\<close>

record edge_binding =
  eb_queue :: queue_binding
  eb_memory_domain :: string
  eb_allow_copy :: bool

definition mk_RuntimeEdgeBinding :: "queue_binding \<Rightarrow> string \<Rightarrow> bool \<Rightarrow> edge_binding result" where
  "mk_RuntimeEdgeBinding queue domain allow_copy =
     (if strip domain = [] then Inl (ValueErr ''memory_domain must be a non-empty string'')
      else Inr \<lparr>eb_queue = queue, eb_memory_domain = domain, eb_allow_copy = allow_copy\<rparr>)"

record graph_memory =
  gm_default_domain :: string
  gm_forbid_implicit_copies :: bool

record runtime_edge =
  rg_binding :: queue_binding
  rg_memory :: memory_plan

record loaded_node =
  ld_output_types :: strmap
  ld_input_types :: strmap
  ld_optional_inputs :: "string list"
  ld_output_memory :: "(string \<times> memory_requirement) list"
  ld_input_memory :: "(string \<times> memory_requirement) list"
  ld_memory_outputs :: "(string \<times> memory_requirement) list"
  ld_memory_inputs :: "(string \<times> memory_requirement) list"
  ld_isolation :: string
  ld_inputs :: "(string \<times> runtime_edge) list"
  ld_outputs :: "(string \<times> runtime_edge list) list"

type_synonym loaded_nodes = "(string \<times> loaded_node) list"

definition runtime_graph_error :: "string \<Rightarrow> py_error" where
  "runtime_graph_error msg = NamedErr ''RuntimeGraphError'' msg"

definition runtime_types_compatible :: "string \<Rightarrow> string \<Rightarrow> bool" where
  "runtime_types_compatible source target = (source = target \<or> source = ''core.any'' \<or> target = ''core.any'')"

definition split_endpoint :: "string \<Rightarrow> string \<Rightarrow> (string \<times> string) result" where
  "split_endpoint reference field =
     (case partition_on CHR ''.'' reference of (name, separator, port) \<Rightarrow>
        if \<not> separator \<or> name = [] \<or> port = []
        then Inl (runtime_graph_error (''Edge '' @ field @ '' must be in node.port form: '' @ repr_str reference))
        else Inr (name, port))"

text \<open>\<open>{**implementation, **configured}\<close>, then \<open>requirement_for_port\<close>.\<close>

definition port_memory_requirement :: "loaded_node \<Rightarrow> string \<Rightarrow> bool \<Rightarrow> memory_requirement" where
  "port_memory_requirement n port output =
     (let implementation = (if output then ld_output_memory n else ld_input_memory n);
          configured = (if output then ld_memory_outputs n else ld_memory_inputs n);
          requirement = (case map_of configured port of
             Some r \<Rightarrow> r
           | None \<Rightarrow> (case map_of implementation port of Some r \<Rightarrow> r | None \<Rightarrow> any_requirement))
      in if ld_isolation n = ''process''
         then any_requirement\<lparr>mr_allowed := [''shared''], mr_preferred := Some ''shared''\<rparr> else requirement)"

definition edge_memory_plan ::
    "loaded_node \<Rightarrow> loaded_node \<Rightarrow> string \<Rightarrow> string \<Rightarrow> edge_binding \<Rightarrow> graph_memory \<Rightarrow> memory_plan result" where
  "edge_memory_plan source target source_port target_port binding gm =
     (let allow_copy = (eb_allow_copy binding \<and> \<not> gm_forbid_implicit_copies gm);
          forced = (if eb_memory_domain binding = ''auto'' \<and> gm_default_domain gm \<noteq> ''auto''
                    then gm_default_domain gm else eb_memory_domain binding) in
      ebind (plan_memory (port_memory_requirement source source_port True)
               (port_memory_requirement target target_port False) forced allow_copy) (\<lambda>p.
      let p = (if mp_adapter p = Some ''host_copy_to_shared'' \<and> ld_isolation target \<noteq> ''process''
               then p\<lparr>mp_runtime_supported := False,
                      mp_reason := ''in-process CPU-to-shared conversion needs an explicit adapter node''\<rparr>
               else p)
      in if \<not> mp_runtime_supported p \<and> (\<not> allow_copy \<or> mp_copies p \<noteq> 0)
         then Inl (runtime_graph_error (''Unsupported memory path '' @ qb_source (eb_queue binding) @ '' -> '' @
                qb_target (eb_queue binding) @ '': '' @ mp_reason p @ '' ('' @ mp_source p @ '' -> '' @ mp_target p @ '')''))
         else Inr p))"

definition edges_at :: "string \<Rightarrow> loaded_node \<Rightarrow> runtime_edge list" where
  "edges_at port n = (case map_of (ld_outputs n) port of None \<Rightarrow> [] | Some es \<Rightarrow> es)"

definition add_output :: "string \<Rightarrow> runtime_edge \<Rightarrow> loaded_node \<Rightarrow> loaded_node" where
  "add_output port e n = n\<lparr>ld_outputs := AList.update port (edges_at port n @ [e]) (ld_outputs n)\<rparr>"

definition set_input :: "string \<Rightarrow> runtime_edge \<Rightarrow> loaded_node \<Rightarrow> loaded_node" where
  "set_input port e n = n\<lparr>ld_inputs := AList.update port e (ld_inputs n)\<rparr>"

text \<open>A node object is shared: an update changes it in place.\<close>

definition update_node :: "string \<Rightarrow> (loaded_node \<Rightarrow> loaded_node) \<Rightarrow> loaded_nodes \<Rightarrow> loaded_nodes" where
  "update_node name f nodes = map (\<lambda>(k, n). (k, if k = name then f n else n)) nodes"

definition materialize_runtime_edge ::
    "loaded_nodes \<Rightarrow> edge_binding \<Rightarrow> graph_memory \<Rightarrow> (loaded_nodes \<times> runtime_edge) result" where
  "materialize_runtime_edge nodes binding gm =
     (let b = eb_queue binding in
      ebind (split_endpoint (qb_source b) ''source'') (\<lambda>(source_name, source_port).
      ebind (split_endpoint (qb_target b) ''target'') (\<lambda>(target_name, target_port).
      case (map_of nodes source_name, map_of nodes target_name) of
        (Some source, Some target) \<Rightarrow>
          (case (map_of (ld_output_types source) source_port, map_of (ld_input_types target) target_port) of
             (None, _) \<Rightarrow> Inl (runtime_graph_error (''Unknown output port: '' @ qb_source b))
           | (_, None) \<Rightarrow> Inl (runtime_graph_error (''Unknown input port: '' @ qb_target b))
           | (Some source_type, Some target_type) \<Rightarrow>
               if \<not> runtime_types_compatible source_type target_type
               then Inl (runtime_graph_error (''Type mismatch '' @ qb_source b @ '' ('' @ source_type @ '') -> '' @
                      qb_target b @ '' ('' @ target_type @ '')''))
               else if target_port \<in> fst ` set (ld_inputs target)
               then Inl (runtime_graph_error (''Input port already connected: '' @ qb_target b))
               else
                 ebind (edge_memory_plan source target source_port target_port binding gm) (\<lambda>plan.
                 ebind (new_queue (qb_capacity b) (qb_policy b) :: unit bounded_queue result) (\<lambda>_.
                 let e = \<lparr>rg_binding = b, rg_memory = plan\<rparr>
                 in Inr (update_node target_name (set_input target_port e)
                           (update_node source_name (add_output source_port e) nodes), e))))
      | _ \<Rightarrow> Inl (runtime_graph_error (''Edge references unknown node: '' @ qb_source b @ '' -> '' @ qb_target b)))))"

text \<open>The loop over the edges of a graph, which collects them in order.\<close>

definition wire_edge ::
    "graph_memory \<Rightarrow> loaded_nodes \<times> runtime_edge list \<Rightarrow> edge_binding \<Rightarrow> (loaded_nodes \<times> runtime_edge list) result" where
  "wire_edge gm = (\<lambda>(nodes, es) b. ebind (materialize_runtime_edge nodes b gm) (\<lambda>(nodes, e). Inr (nodes, es @ [e])))"

definition materialize_edges :: "graph_memory \<Rightarrow> edge_binding list \<Rightarrow> loaded_nodes \<Rightarrow> (loaded_nodes \<times> runtime_edge list) result" where
  "materialize_edges gm bindings nodes = efold (wire_edge gm) (nodes, []) bindings"

definition unconnected_inputs :: "loaded_node \<Rightarrow> string list" where
  "unconnected_inputs n =
     sort (filter (\<lambda>p. p \<notin> set (ld_optional_inputs n) \<and> p \<notin> fst ` set (ld_inputs n)) (remdups (map fst (ld_input_types n))))"

lemma set_unconnected_inputs:
  "set (unconnected_inputs n) = {p \<in> fst ` set (ld_input_types n). p \<notin> set (ld_optional_inputs n) \<and> p \<notin> fst ` set (ld_inputs n)}"
  by (simp add: unconnected_inputs_def)

fun validate_runtime_graph :: "(string list \<Rightarrow> string) \<Rightarrow> loaded_nodes \<Rightarrow> unit result" where
  "validate_runtime_graph render [] = Inr ()"
| "validate_runtime_graph render ((name, n) # nodes) =
     (if unconnected_inputs n \<noteq> []
      then Inl (runtime_graph_error (''Node '' @ repr_str name @ '' has unconnected inputs: '' @ render (unconnected_inputs n)))
      else validate_runtime_graph render nodes)"

subsection \<open>What the wiring guarantees\<close>

abbreviation edge_source :: "runtime_edge \<Rightarrow> string" where
  "edge_source e \<equiv> qb_source (rg_binding e)"

abbreviation edge_target :: "runtime_edge \<Rightarrow> string" where
  "edge_target e \<equiv> qb_target (rg_binding e)"

definition endpoint :: "string \<Rightarrow> string \<Rightarrow> string" where
  "endpoint name port = name @ CHR ''.'' # port"

text \<open>The maps of the nodes say exactly what the list of edges says.\<close>

definition wired :: "loaded_nodes \<Rightarrow> runtime_edge list \<Rightarrow> bool" where
  "wired nodes es \<longleftrightarrow> distinct (map edge_target es) \<and>
     (\<forall>(name, n) \<in> set nodes. \<forall>port.
        map_of (ld_inputs n) port = find (\<lambda>e. edge_target e = endpoint name port) es \<and>
        edges_at port n = filter (\<lambda>e. edge_source e = endpoint name port) es)"

definition typed_edge :: "loaded_nodes \<Rightarrow> runtime_edge \<Rightarrow> bool" where
  "typed_edge nodes e \<longleftrightarrow> (\<exists>s sp t tp m n a b.
     edge_source e = endpoint s sp \<and> (s, m) \<in> set nodes \<and> map_of (ld_output_types m) sp = Some a \<and>
     edge_target e = endpoint t tp \<and> (t, n) \<in> set nodes \<and> map_of (ld_input_types n) tp = Some b \<and>
     runtime_types_compatible a b)"

definition plain_names :: "loaded_nodes \<Rightarrow> bool" where
  "plain_names nodes \<longleftrightarrow> distinct (map fst nodes) \<and> (\<forall>name \<in> fst ` set nodes. CHR ''.'' \<notin> set name)"

lemma split_endpoint_Inr: "split_endpoint r f = Inr (name, port) \<Longrightarrow> r = endpoint name port \<and> CHR ''.'' \<notin> set name"
  by (auto simp: split_endpoint_def endpoint_def split: prod.splits if_splits dest: partition_on_found)

lemma endpoint_inject:
  "CHR ''.'' \<notin> set a \<Longrightarrow> CHR ''.'' \<notin> set b \<Longrightarrow> endpoint a p = endpoint b q \<longleftrightarrow> a = b \<and> p = q"
  by (metis endpoint_def partition_on_append prod.inject)

lemma map_fst_update_node [simp]: "map fst (update_node name f nodes) = map fst nodes"
  by (simp add: update_node_def comp_def split_beta)

lemma plain_names_update_node [simp]: "plain_names (update_node name f nodes) = plain_names nodes"
proof -
  have "fst ` set (update_node name f nodes) = fst ` set nodes"
    by (metis list.set_map map_fst_update_node)
  then show ?thesis by (simp add: plain_names_def)
qed

lemma add_output_simps [simp]:
  "edges_at p (add_output port e n) = (if p = port then edges_at p n @ [e] else edges_at p n)"
  "ld_inputs (add_output port e n) = ld_inputs n" "ld_output_types (add_output port e n) = ld_output_types n"
  "ld_input_types (add_output port e n) = ld_input_types n" "ld_optional_inputs (add_output port e n) = ld_optional_inputs n"
  by (auto simp: edges_at_def add_output_def update_conv')

lemma set_input_simps [simp]:
  "map_of (ld_inputs (set_input port e n)) p = (if p = port then Some e else map_of (ld_inputs n) p)"
  "edges_at p (set_input port e n) = edges_at p n" "ld_output_types (set_input port e n) = ld_output_types n"
  "ld_input_types (set_input port e n) = ld_input_types n" "ld_optional_inputs (set_input port e n) = ld_optional_inputs n"
  by (auto simp: edges_at_def set_input_def update_conv')

lemma materialize_runtime_edge_Inr:
  assumes "materialize_runtime_edge nodes binding gm = Inr (nodes', e)"
  obtains s sp t tp m n a b where
    "edge_source e = endpoint s sp" "edge_target e = endpoint t tp" "CHR ''.'' \<notin> set s" "CHR ''.'' \<notin> set t"
    "map_of nodes s = Some m" "map_of nodes t = Some n" "map_of (ld_output_types m) sp = Some a"
    "map_of (ld_input_types n) tp = Some b" "runtime_types_compatible a b" "tp \<notin> fst ` set (ld_inputs n)"
    "nodes' = update_node t (set_input tp e) (update_node s (add_output sp e) nodes)"
    "rg_binding e = eb_queue binding" "edge_memory_plan m n sp tp binding gm = Inr (rg_memory e)"
proof -
  let ?b = "eb_queue binding"
  from assms obtain s sp t tp where s: "split_endpoint (qb_source ?b) ''source'' = Inr (s, sp)"
    and t: "split_endpoint (qb_target ?b) ''target'' = Inr (t, tp)"
    by (auto simp: materialize_runtime_edge_def Let_def result_elims)
  from assms s t obtain m n where m: "map_of nodes s = Some m" and n: "map_of nodes t = Some n"
    by (auto simp: materialize_runtime_edge_def Let_def split: option.splits)
  from assms s t m n obtain a b where a: "map_of (ld_output_types m) sp = Some a" and b: "map_of (ld_input_types n) tp = Some b"
    by (auto simp: materialize_runtime_edge_def Let_def split: option.splits)
  from assms s t m n a b obtain plan where ok: "runtime_types_compatible a b" "tp \<notin> fst ` set (ld_inputs n)"
    and plan: "edge_memory_plan m n sp tp binding gm = Inr plan"
    and e: "e = \<lparr>rg_binding = ?b, rg_memory = plan\<rparr>"
    and nodes': "nodes' = update_node t (set_input tp e) (update_node s (add_output sp e) nodes)"
    by (auto simp: materialize_runtime_edge_def Let_def result_elims split: if_splits)
  from that [of s sp t tp m n a b] split_endpoint_Inr [OF s] split_endpoint_Inr [OF t] m n a b ok plan e nodes'
  show thesis by simp
qed

lemma in_update_node:
  "(k, x) \<in> set (update_node name f nodes) \<longleftrightarrow> (\<exists>n. (k, n) \<in> set nodes \<and> x = (if k = name then f n else n))"
  by (induction nodes) (auto simp: update_node_def)

lemma find_snoc: "find P (xs @ [x]) = (case find P xs of None \<Rightarrow> if P x then Some x else None | Some y \<Rightarrow> Some y)"
  by (induction xs) auto

lemma edge_step:
  assumes step: "materialize_runtime_edge nodes binding gm = Inr (nodes', e)" and names: "plain_names nodes" and w: "wired nodes es"
  shows "wired nodes' (es @ [e])" and "typed_edge nodes e" and "plain_names nodes'"
    and "\<And>k x. (k, x) \<in> set nodes' \<Longrightarrow> \<exists>n. (k, n) \<in> set nodes \<and> ld_output_types x = ld_output_types n \<and>
        ld_input_types x = ld_input_types n \<and> ld_optional_inputs x = ld_optional_inputs n"
proof -
  from step obtain s sp t tp m n a b where
    e: "edge_source e = endpoint s sp" "edge_target e = endpoint t tp" and dots: "CHR ''.'' \<notin> set s" "CHR ''.'' \<notin> set t"
    and m: "map_of nodes s = Some m" and n: "map_of nodes t = Some n"
    and types: "map_of (ld_output_types m) sp = Some a" "map_of (ld_input_types n) tp = Some b" "runtime_types_compatible a b"
    and free: "tp \<notin> fst ` set (ld_inputs n)"
    and nodes': "nodes' = update_node t (set_input tp e) (update_node s (add_output sp e) nodes)"
    by (rule materialize_runtime_edge_Inr)
  have plain: "CHR ''.'' \<notin> set k" if "(k, x) \<in> set nodes" for k x
    using names that by (force simp: plain_names_def)
  have free': "find (\<lambda>e'. edge_target e' = endpoint t tp) es = None"
  proof -
    have "map_of (ld_inputs n) tp = None" using free by (simp add: map_of_eq_None_iff)
    with w map_of_SomeD [OF n] show ?thesis unfolding wired_def by force
  qed
  show "typed_edge nodes e"
    using e types map_of_SomeD [OF m] map_of_SomeD [OF n] unfolding typed_edge_def by blast
  show "plain_names nodes'" using names by (simp add: nodes')
  show "\<exists>n. (k, n) \<in> set nodes \<and> ld_output_types x = ld_output_types n \<and>
        ld_input_types x = ld_input_types n \<and> ld_optional_inputs x = ld_optional_inputs n" if "(k, x) \<in> set nodes'" for k x
    using that by (fastforce simp: nodes' in_update_node split: if_splits)
  have "distinct (map edge_target (es @ [e]))"
    using w free' by (auto simp: wired_def find_None_iff e)
  moreover have "map_of (ld_inputs x) port = find (\<lambda>e'. edge_target e' = endpoint k port) (es @ [e]) \<and>
      edges_at port x = filter (\<lambda>e'. edge_source e' = endpoint k port) (es @ [e])"
    if "(k, x) \<in> set nodes'" for k x port
  proof -
    from that obtain y where y: "(k, y) \<in> set nodes"
      and x: "x = (if k = t then set_input tp e else id) ((if k = s then add_output sp e else id) y)"
      by (auto simp: nodes' in_update_node)
    have old: "map_of (ld_inputs y) port = find (\<lambda>e'. edge_target e' = endpoint k port) es"
      "edges_at port y = filter (\<lambda>e'. edge_source e' = endpoint k port) es"
      using w y by (auto simp: wired_def)
    have at: "edge_target e = endpoint k port \<longleftrightarrow> k = t \<and> port = tp" "edge_source e = endpoint k port \<longleftrightarrow> k = s \<and> port = sp"
      using endpoint_inject [OF dots(2) plain [OF y]] endpoint_inject [OF dots(1) plain [OF y]] by (auto simp: e)
    have ins: "map_of (ld_inputs x) port = (if k = t \<and> port = tp then Some e else map_of (ld_inputs y) port)"
      and outs: "edges_at port x = (if k = s \<and> port = sp then edges_at port y @ [e] else edges_at port y)"
      by (simp_all add: x)
    have "map_of (ld_inputs x) port = find (\<lambda>e'. edge_target e' = endpoint k port) (es @ [e])"
    proof (cases "k = t \<and> port = tp")
      case True
      with free' show ?thesis unfolding ins find_snoc by (simp add: e)
    next
      case False
      with at(1) show ?thesis unfolding ins find_snoc old by (auto split: option.split)
    qed
    moreover have "edges_at port x = filter (\<lambda>e'. edge_source e' = endpoint k port) (es @ [e])"
      unfolding outs old filter_append by (simp add: at(2))
    ultimately show ?thesis ..
  qed
  ultimately show "wired nodes' (es @ [e])" by (auto simp: wired_def)
qed

text \<open>The invariant of the loop: the edges so far are those of the bindings so far.\<close>

definition same_ports :: "loaded_nodes \<Rightarrow> loaded_nodes \<Rightarrow> bool" where
  "same_ports nodes ns \<longleftrightarrow> (\<forall>(k, x) \<in> set ns. \<exists>n. (k, n) \<in> set nodes \<and> ld_output_types x = ld_output_types n \<and>
     ld_input_types x = ld_input_types n \<and> ld_optional_inputs x = ld_optional_inputs n)"

fun wiring :: "loaded_nodes \<Rightarrow> edge_binding list \<Rightarrow> loaded_nodes \<times> runtime_edge list \<Rightarrow> bool" where
  "wiring nodes bs (ns, es) \<longleftrightarrow> map rg_binding es = map eb_queue bs \<and> wired ns es \<and> plain_names ns \<and>
     (\<forall>e \<in> set es. typed_edge nodes e) \<and> same_ports nodes ns"

lemma same_portsD:
  "same_ports nodes ns \<Longrightarrow> (k, x) \<in> set ns \<Longrightarrow> \<exists>n. (k, n) \<in> set nodes \<and> ld_output_types x = ld_output_types n \<and>
     ld_input_types x = ld_input_types n \<and> ld_optional_inputs x = ld_optional_inputs n"
  unfolding same_ports_def by blast

lemma typed_edge_same_ports: "typed_edge ns e \<Longrightarrow> same_ports nodes ns \<Longrightarrow> typed_edge nodes e"
proof -
  assume "typed_edge ns e" and same: "same_ports nodes ns"
  then obtain s sp t tp m n a b where e: "edge_source e = endpoint s sp" "edge_target e = endpoint t tp"
    and m: "(s, m) \<in> set ns" "map_of (ld_output_types m) sp = Some a"
    and n: "(t, n) \<in> set ns" "map_of (ld_input_types n) tp = Some b" and ok: "runtime_types_compatible a b"
    unfolding typed_edge_def by blast
  from same_portsD [OF same m(1)] obtain m' where "(s, m') \<in> set nodes" "map_of (ld_output_types m') sp = Some a"
    using m(2) by auto
  moreover from same_portsD [OF same n(1)] obtain n' where "(t, n') \<in> set nodes" "map_of (ld_input_types n') tp = Some b"
    using n(2) by auto
  ultimately show "typed_edge nodes e" using e ok unfolding typed_edge_def by blast
qed

lemma wiring_step:
  assumes w: "wiring nodes bs st" and step: "wire_edge gm st b = Inr st'"
  shows "wiring nodes (bs @ [b]) st'"
proof -
  obtain ns es where st: "st = (ns, es)" by (cases st)
  from step st obtain ns' e where e: "materialize_runtime_edge ns b gm = Inr (ns', e)" and st': "st' = (ns', es @ [e])"
    by (auto simp: wire_edge_def result_elims)
  from w st have g: "wired ns es" "plain_names ns" "same_ports nodes ns" by simp_all
  note s = edge_step [OF e g(2,1)]
  have "rg_binding e = eb_queue b" by (rule materialize_runtime_edge_Inr [OF e])
  moreover have "typed_edge nodes e" by (rule typed_edge_same_ports [OF s(2) g(3)])
  moreover have "same_ports nodes ns'" using s(4) g(3) unfolding same_ports_def by fastforce
  ultimately show ?thesis using w s(1,3) by (simp add: st st')
qed

lemma wiring_steps: "efold (wire_edge gm) st cs = Inr out \<Longrightarrow> wiring nodes bs st \<Longrightarrow> wiring nodes (bs @ cs) out"
proof (induction cs arbitrary: bs st)
  case (Cons c cs)
  then obtain st' where "wire_edge gm st c = Inr st'" "efold (wire_edge gm) st' cs = Inr out" by (auto simp: result_elims)
  with Cons.IH [of st' "bs @ [c]"] wiring_step [OF Cons.prems(2)] show ?case by simp
qed simp

text \<open>
  C30: Wiring a graph, when it succeeds, makes one edge per binding, in order; no input port is fed
  by two edges; every edge joins a declared output with a declared input of compatible type; and
  the maps of the nodes agree with the edges - a port's input is the edge that targets it, its
  outputs are the edges that leave it, in order.
\<close>

theorem edges_wired:
  assumes "materialize_edges gm bindings nodes = Inr (nodes', es)" and "plain_names nodes"
    and "\<forall>(k, n) \<in> set nodes. ld_inputs n = [] \<and> ld_outputs n = []"
  shows "map rg_binding es = map eb_queue bindings \<and> wired nodes' es \<and> (\<forall>e \<in> set es. typed_edge nodes e)"
proof -
  have "wiring nodes [] (nodes, [])"
    using assms(2,3) by (auto simp: wired_def edges_at_def same_ports_def)
  from wiring_steps [OF assms(1) [unfolded materialize_edges_def] this] show ?thesis by simp
qed

definition sample_port_node :: "strmap \<Rightarrow> strmap \<Rightarrow> loaded_node" where
  "sample_port_node outs ins = \<lparr>ld_output_types = outs, ld_input_types = ins, ld_optional_inputs = [], ld_output_memory = [],
     ld_input_memory = [], ld_memory_outputs = [], ld_memory_inputs = [], ld_isolation = ''in_process'', ld_inputs = [], ld_outputs = []\<rparr>"

definition sample_graph_nodes :: loaded_nodes where
  "sample_graph_nodes = [(''camera'', sample_port_node [(''out'', ''image/v1'')] []), (''view'', sample_port_node [] [(''in'', ''core.any'')])]"

definition sample_edge_binding :: edge_binding where
  "sample_edge_binding = \<lparr>eb_queue = \<lparr>qb_source = ''camera.out'', qb_target = ''view.in'', qb_capacity = 2, qb_policy = ''block''\<rparr>,
     eb_memory_domain = ''auto'', eb_allow_copy = True\<rparr>"

theorem edges_wired_witness:
  "\<exists>nodes es. materialize_edges \<lparr>gm_default_domain = ''auto'', gm_forbid_implicit_copies = False\<rparr> [sample_edge_binding]
      sample_graph_nodes = Inr (nodes, es) \<and> wired nodes es \<and> length es = 1"
proof -
  let ?gm = "\<lparr>gm_default_domain = ''auto'', gm_forbid_implicit_copies = False\<rparr>"
  have "case materialize_edges ?gm [sample_edge_binding] sample_graph_nodes of Inl _ \<Rightarrow> False | Inr _ \<Rightarrow> True" by code_simp
  then obtain nodes es where r: "materialize_edges ?gm [sample_edge_binding] sample_graph_nodes = Inr (nodes, es)"
    by (auto split: sum.splits)
  have "plain_names sample_graph_nodes" "\<forall>(k, n) \<in> set sample_graph_nodes. ld_inputs n = [] \<and> ld_outputs n = []"
    by (simp_all add: plain_names_def sample_graph_nodes_def sample_port_node_def)
  from edges_wired [OF r this] r show ?thesis by (auto dest: map_eq_imp_length_eq)
qed

lemma validated_graph_connected:
  assumes "validate_runtime_graph render nodes = Inr ()" and "(name, n) \<in> set nodes" and "port \<in> fst ` set (ld_input_types n)"
    and "port \<notin> set (ld_optional_inputs n)"
  shows "\<exists>e. map_of (ld_inputs n) port = Some e"
proof -
  have "unconnected_inputs n = []" using assms(1,2)
    by (induction render nodes rule: validate_runtime_graph.induct) (auto split: if_splits)
  with assms(3,4) have "port \<in> fst ` set (ld_inputs n)" using set_unconnected_inputs [of n] by auto
  then show ?thesis by (metis map_of_eq_None_iff option.exhaust)
qed

end
