(* ===== verification/Node_Policy.thy ===== *)
theory Node_Policy
  imports Execution_Context
begin

text \<open>
  Node defaults of an execution context: \<open>resolve_node_execution_defaults\<close> and
  \<open>merge_node_parameters\<close> of \<open>src/nodrix/system/node_execution.py\<close>. The resolved policy is a
  pydantic model: its construction from the normalized payload is the parameter \<open>ne_build\<close>,
  its default value \<open>ne_default\<close>. \<open>ne_round\<close> rounds an exact value to a float.
\<close>

record node_payload =
  np_synchronization :: pydict
  np_execution :: pydict
  np_failure :: pydict
  np_health :: pydict
  np_limits :: pydict
  np_memory :: pydict

record node_env =
  ne_default :: pyval
  ne_build :: "node_payload \<Rightarrow> pyval result"
  ne_round :: "rat \<Rightarrow> pyfloat"

definition node_error :: "string \<Rightarrow> string \<Rightarrow> py_error" where
  "node_error path msg = CodedErr ''NodeExecutionResolutionError'' ''node_defaults'' path msg"

definition node_mapping :: "string \<Rightarrow> pyval \<Rightarrow> pydict result" where
  "node_mapping path value = (case value of PDict d \<Rightarrow> Inr d | _ \<Rightarrow> Inl (node_error path ''must be a mapping''))"

text \<open>
  \<open>sorted(set(mapping) - allowed)\<close> and \<open>", ".join(unknown)\<close>: an unknown key that is not a
  string makes one of the two raise a \<open>TypeError\<close>, whose text is not modelled.
\<close>

definition reject_fields :: "string \<Rightarrow> pydict \<Rightarrow> string list \<Rightarrow> unit result" where
  "reject_fields path d allowed =
     (let unknown = remdups (filter (\<lambda>k. k \<notin> set (map PStr allowed)) (map fst d)) in
      if unknown = [] then Inr ()
      else if \<exists>k \<in> set unknown. \<not> is_pstr k then Inl (TypeErr ''field names must be strings'')
      else Inl (node_error path (''unsupported fields: '' @
             join_on '', '' (sort (map (\<lambda>k. or_else (str_of k) []) unknown)))))"

definition node_section :: "pydict \<Rightarrow> string \<Rightarrow> string list \<Rightarrow> pydict result" where
  "node_section defaults name allowed =
     ebind (node_mapping name (field_or defaults name (PDict []))) (\<lambda>d.
     ebind (reject_fields name d allowed) (\<lambda>_. Inr d))"

text \<open>\<open>_milliseconds_to_ns\<close>: the float is converted, checked, scaled and truncated.\<close>

definition scaled_ns :: "(rat \<Rightarrow> pyfloat) \<Rightarrow> string \<Rightarrow> pyfloat \<Rightarrow> int result" where
  "scaled_ns rnd path numeric =
     (case numeric of
        Finite q \<Rightarrow>
          if q < 0 then Inl (node_error path (''must be a finite non-negative '' @ ''real number''))
          else (case rnd (q * 1000000) of
            Finite p \<Rightarrow> Inr \<lfloor>p\<rfloor>
          | NaN \<Rightarrow> Inl (ValueErr ''cannot convert float NaN to integer'')
          | _ \<Rightarrow> Inl (NamedErr ''OverflowError'' ''cannot convert float infinity to integer''))
      | _ \<Rightarrow> Inl (node_error path (''must be a finite non-negative '' @ ''real number'')))"

definition milliseconds_to_ns :: "(rat \<Rightarrow> pyfloat) \<Rightarrow> string \<Rightarrow> pyval \<Rightarrow> int result" where
  "milliseconds_to_ns rnd path value =
     (case value of
        PInt i \<Rightarrow>
          if float_overflow i then Inl (NamedErr ''OverflowError'' ''int too large to convert to float'')
          else scaled_ns rnd path (rnd (of_int i))
      | PFloat f \<Rightarrow> scaled_ns rnd path f
      | _ \<Rightarrow> Inl (node_error path ''must be a non-negative real number''))"

text \<open>\<open>_failure_policy\<close> and \<open>_health_policy\<close>: the legacy spellings.\<close>

definition policy_alias :: "pyval \<Rightarrow> pyval result" where
  "policy_alias value =
     (if \<not> hashable value then Inl (TypeErr (''unhashable type: '' @ repr_str (type_name value)))
      else if value = PStr ''restart'' then Inr (PStr ''restart_node'')
      else if value = PStr ''stop_pipeline'' then Inr (PStr ''stop_execution'')
      else Inr value)"

text \<open>\<open>payload["new"] = f(payload.pop("old"))\<close>, and the same for one key in place.\<close>

definition move_field :: "string \<Rightarrow> string \<Rightarrow> (pyval \<Rightarrow> pyval result) \<Rightarrow> pydict \<Rightarrow> pydict result" where
  "move_field old new f d =
     (case map_of d (PStr old) of
        None \<Rightarrow> Inr d
      | Some v \<Rightarrow> ebind (f v) (\<lambda>w.
          Inr (AList.update (PStr new) w (if old = new then d else AList.delete (PStr old) d))))"

definition resolve_node_execution_defaults :: "node_env \<Rightarrow> pyval option \<Rightarrow> (pydict \<times> pyval) result" where
  "resolve_node_execution_defaults env raw =
     (case raw of
        None \<Rightarrow> Inr ([], ne_default env)
      | Some value \<Rightarrow>
         if value = PNone then Inr ([], ne_default env)
         else
         ebind (node_mapping ''node_defaults'' value) (\<lambda>defaults.
         ebind (reject_fields ''node_defaults'' defaults
            [''parameters'', ''synchronization'', ''execution'', ''failure'', ''health'', ''resources'', ''memory'']) (\<lambda>_.
         ebind (node_mapping ''parameters'' (field_or defaults ''parameters'' (PDict []))) (\<lambda>parameters.
         ebind (node_section defaults ''synchronization''
            [''policy'', ''tolerance_ms'', ''trigger_port'', ''optional_inputs'']) (\<lambda>synchronization.
         ebind (node_section defaults ''execution'' [''isolation'', ''cpu_affinity'', ''device'']) (\<lambda>execution.
         ebind (node_section defaults ''failure'' [''policy'', ''max_restarts'', ''backoff_ms'', ''fallback_uses'']) (\<lambda>failure.
         ebind (node_section defaults ''health'' [''timeout_ms'', ''on_timeout'']) (\<lambda>health.
         ebind (node_section defaults ''resources'' [''memory_limit_mb'', ''cpu_limit'', ''max_message_bytes'']) (\<lambda>resources.
         ebind (node_section defaults ''memory'' [''inputs'', ''outputs'']) (\<lambda>memory.
         ebind (move_field ''tolerance_ms'' ''tolerance_ns''
            (\<lambda>v. ebind (milliseconds_to_ns (ne_round env) ''synchronization.tolerance_ms'' v) (\<lambda>n. Inr (PInt n)))
            synchronization) (\<lambda>synchronization_payload.
         ebind (move_field ''policy'' ''policy'' policy_alias failure) (\<lambda>failure_payload.
         ebind (move_field ''timeout_ms'' ''timeout_ns''
            (\<lambda>v. ebind (milliseconds_to_ns (ne_round env) ''health.timeout_ms'' v) (\<lambda>n. Inr (PInt n)))
            health) (\<lambda>health_timeout.
         ebind (move_field ''on_timeout'' ''on_timeout'' policy_alias health_timeout) (\<lambda>health_payload.
         ebind (ne_build env
            \<lparr>np_synchronization = synchronization_payload, np_execution = execution,
             np_failure = failure_payload, np_health = health_payload, np_limits = resources,
             np_memory = memory\<rparr>) (\<lambda>policy.
         Inr (parameters, policy))))))))))))))))"

text \<open>
  \<open>_deep_merge\<close> of this file is the recursion of the execution context's \<open>deep_merge\<close>: a
  mapping is copied and the explicit items are folded into it.
\<close>

definition merge_node_parameters :: "pydict \<Rightarrow> pydict \<Rightarrow> pydict" where
  "merge_node_parameters defaults explicit = deep_merge defaults explicit"

section \<open>Lemmas\<close>

lemma milliseconds_to_ns_nonneg:
  assumes "milliseconds_to_ns rnd path v = Inr n"
    and "\<And>q p. 0 \<le> q \<Longrightarrow> rnd q = Finite p \<Longrightarrow> 0 \<le> p"
  shows "0 \<le> n"
proof -
  have "0 \<le> m" if "scaled_ns rnd path f = Inr m" for f m
  proof -
    from that obtain q p where "\<not> q < 0" "rnd (q * 1000000) = Finite p" "m = \<lfloor>p\<rfloor>"
      by (cases f) (auto simp: scaled_ns_def split: if_splits pyfloat.splits)
    then have "0 \<le> p" using assms(2) [of "q * 1000000" p] by simp
    with \<open>m = \<lfloor>p\<rfloor>\<close> show ?thesis by simp
  qed
  with assms(1) show ?thesis by (cases v) (auto simp: milliseconds_to_ns_def split: if_splits)
qed

lemma policy_alias_canonical:
  "policy_alias v = Inr w \<Longrightarrow> w \<notin> {PStr ''restart'', PStr ''stop_pipeline''}"
  by (auto simp: policy_alias_def split: if_splits)

lemma move_field_spec:
  assumes "move_field old new f d = Inr e"
  shows "case map_of d (PStr old) of
           None \<Rightarrow> e = d
         | Some v \<Rightarrow> \<exists>w. f v = Inr w \<and> map_of e (PStr new) = Some w \<and>
             (old \<noteq> new \<longrightarrow> map_of e (PStr old) = None)"
  using assms
  by (auto simp: move_field_def result_elims update_conv' delete_conv' split: option.splits if_splits)

section \<open>Properties\<close>

definition canonical_payload :: "node_payload \<Rightarrow> bool" where
  "canonical_payload p =
     (map_of (np_synchronization p) (PStr ''tolerance_ms'') = None \<and>
      map_of (np_health p) (PStr ''timeout_ms'') = None \<and>
      map_of (np_failure p) (PStr ''policy'') \<notin> Some ` {PStr ''restart'', PStr ''stop_pipeline''} \<and>
      map_of (np_health p) (PStr ''on_timeout'') \<notin> Some ` {PStr ''restart'', PStr ''stop_pipeline''})"

lemma move_policy_canonical:
  "move_field k k policy_alias d = Inr e \<Longrightarrow> map_of e (PStr k) \<notin> Some ` {PStr ''restart'', PStr ''stop_pipeline''}"
  using move_field_spec [of k k policy_alias d e] policy_alias_canonical
  by (cases "map_of d (PStr k)") fastforce+

lemma move_field_removes: "old \<noteq> new \<Longrightarrow> move_field old new f d = Inr e \<Longrightarrow> map_of e (PStr old) = None"
  using move_field_spec [of old new f d e] by (auto split: option.splits)

lemma move_field_other:
  "move_field old new f d = Inr e \<Longrightarrow> k \<noteq> old \<Longrightarrow> k \<noteq> new \<Longrightarrow> map_of e (PStr k) = map_of d (PStr k)"
  by (auto simp: move_field_def result_elims update_conv' delete_conv' split: option.splits if_splits)

text \<open>
  Whatever node defaults the execution context carries, the payload the policy is built from
  has no millisecond field and no legacy Pipeline spelling of a failure or health policy.
\<close>

theorem node_defaults_normalized:
  assumes "resolve_node_execution_defaults env raw = Inr (parameters, policy)"
  shows "policy = ne_default env \<or> (\<exists>p. canonical_payload p \<and> ne_build env p = Inr policy)"
proof (cases raw)
  case None
  with assms show ?thesis by (simp add: resolve_node_execution_defaults_def)
next
  case (Some v)
  show ?thesis
  proof (cases "v = PNone")
    case True
    with assms Some show ?thesis by (simp add: resolve_node_execution_defaults_def)
  next
    case False
    with assms Some obtain s e f h r m f' s' h1 h2 where
      s': "move_field ''tolerance_ms'' ''tolerance_ns''
            (\<lambda>v. ebind (milliseconds_to_ns (ne_round env) ''synchronization.tolerance_ms'' v) (\<lambda>n. Inr (PInt n))) s = Inr s'"
      and f': "move_field ''policy'' ''policy'' policy_alias f = Inr f'"
      and h1: "move_field ''timeout_ms'' ''timeout_ns''
            (\<lambda>v. ebind (milliseconds_to_ns (ne_round env) ''health.timeout_ms'' v) (\<lambda>n. Inr (PInt n))) h = Inr h1"
      and h2: "move_field ''on_timeout'' ''on_timeout'' policy_alias h1 = Inr h2"
      and build: "ne_build env \<lparr>np_synchronization = s', np_execution = e, np_failure = f', np_health = h2,
             np_limits = r, np_memory = m\<rparr> = Inr policy"
      unfolding resolve_node_execution_defaults_def by (auto simp: result_elims)
    have "map_of h2 (PStr ''timeout_ms'') = None"
      using move_field_other [OF h2, of "''timeout_ms''"] move_field_removes [OF _ h1] by simp
    then have "canonical_payload \<lparr>np_synchronization = s', np_execution = e, np_failure = f', np_health = h2,
             np_limits = r, np_memory = m\<rparr>"
      unfolding canonical_payload_def
      using move_field_removes [OF _ s'] move_policy_canonical [OF f'] move_policy_canonical [OF h2] by simp
    with build show ?thesis by blast
  qed
qed

definition sample_node_env :: node_env where
  "sample_node_env = \<lparr>ne_default = PStr ''default'', ne_build = (\<lambda>p. Inr (PDict (np_health p))), ne_round = Finite\<rparr>"

theorem node_defaults_normalized_witness:
  "\<exists>ps policy. resolve_node_execution_defaults sample_node_env
       (Some (PDict [(PStr ''health'', PDict [(PStr ''timeout_ms'', PInt 5), (PStr ''on_timeout'', PStr ''restart'')])])) = Inr (ps, policy) \<and>
     (policy = ne_default sample_node_env \<or> (\<exists>p. canonical_payload p \<and> ne_build sample_node_env p = Inr policy))"
proof -
  let ?raw = "Some (PDict [(PStr ''health'', PDict [(PStr ''timeout_ms'', PInt 5), (PStr ''on_timeout'', PStr ''restart'')])])"
  have "case resolve_node_execution_defaults sample_node_env ?raw of Inl _ \<Rightarrow> False | Inr x \<Rightarrow> True" by code_simp
  then obtain x where "resolve_node_execution_defaults sample_node_env ?raw = Inr x" using case_Inr by blast
  moreover obtain ps policy where "x = (ps, policy)" by fastforce
  ultimately have run: "resolve_node_execution_defaults sample_node_env ?raw = Inr (ps, policy)" by simp
  from node_defaults_normalized [OF run] run show ?thesis by blast
qed

end
