(* ===== verification/System_Model.thy ===== *)
theory System_Model
  imports Node_Policy
begin

text \<open>
  The declarative System Model: \<open>src/nodrix/system/model.py\<close>, \<open>graph.py\<close>, \<open>instances.py\<close>,
  \<open>contracts.py\<close> and \<open>dependencies.py\<close>. Each class is a record; its field validators are
  functions, and \<open>model_ok\<close> states what construction through pydantic guarantees of a
  \<open>SystemModel\<close>: every field is a value its validator accepted and normalized.
\<close>

section \<open>Boundary contracts\<close>

record system_port =
  prt_name :: string
  prt_type_id :: string
  prt_optional :: bool
  prt_description :: "string option"
  prt_metadata :: mapping
  prt_extensions :: mapping

record resource_requirement =
  rr_name :: string
  rr_uses :: string
  rr_optional :: bool
  rr_description :: "string option"
  rr_metadata :: mapping
  rr_extensions :: mapping

record port_binding =
  ib_port :: string
  ib_endpoint :: string
  ib_metadata :: mapping
  ib_extensions :: mapping

record parameter_binding =
  xb_parameter :: string
  xb_targets :: "string list"
  xb_metadata :: mapping
  xb_extensions :: mapping

record resource_binding =
  yb_resource :: string
  yb_instance :: string
  yb_metadata :: mapping
  yb_extensions :: mapping

record boundary_bindings =
  bo_inputs :: "port_binding list"
  bo_outputs :: "port_binding list"
  bo_parameters :: "parameter_binding list"
  bo_resources :: "resource_binding list"

section \<open>Instances\<close>

record node_instance =
  ni_name :: string
  ni_uses :: string
  ni_parameters :: mapping
  ni_resources :: strmap
  ni_target :: "string option"
  ni_backend :: "string option"
  ni_metadata :: mapping
  ni_extensions :: mapping

record resource_instance =
  ri_name :: string
  ri_uses :: string
  ri_parameters :: mapping
  ri_bindings :: strmap
  ri_target :: "string option"
  ri_metadata :: mapping
  ri_extensions :: mapping

record application_instance =
  ai_name :: string
  ai_uses :: string
  ai_parameters :: mapping
  ai_resources :: strmap
  ai_target :: "string option"
  ai_metadata :: mapping
  ai_extensions :: mapping

record system_instance =
  si_name :: string
  si_uses :: string
  si_parameters :: mapping
  si_resources :: strmap
  si_metadata :: mapping
  si_extensions :: mapping

record target_instance =
  tt_name :: string
  tt_kind :: string
  tt_properties :: mapping
  tt_metadata :: mapping

record artifact_instance =
  ar_name :: string
  ar_kind :: string
  ar_producer :: "string option"
  ar_path :: "string option"
  ar_media_type :: "string option"
  ar_metadata :: mapping
  ar_extensions :: mapping

section \<open>Graphs, links and dependencies\<close>

record graph_connection =
  co_source :: string
  co_target :: string
  co_type_id :: "string option"
  co_metadata :: mapping
  co_extensions :: mapping

record system_graph =
  gp_name :: string
  gp_nodes :: "node_instance list"
  gp_connections :: "graph_connection list"
  gp_metadata :: mapping
  gp_extensions :: mapping

record system_link =
  lk_source :: string
  lk_target :: string
  lk_uses :: "string option"
  lk_parameters :: mapping
  lk_type_id :: "string option"
  lk_metadata :: mapping
  lk_extensions :: mapping

record system_dependency =
  de_system :: string
  de_requires :: string
  de_condition :: dependency_condition
  de_timeout_seconds :: rat
  de_metadata :: mapping
  de_extensions :: mapping

record system_model =
  sm_name :: string
  sm_description :: "string option"
  sm_inputs :: "system_port list"
  sm_outputs :: "system_port list"
  sm_parameters :: "system_parameter list"
  sm_resource_requirements :: "resource_requirement list"
  sm_bindings :: boundary_bindings
  sm_systems :: "system_instance list"
  sm_dependencies :: "system_dependency list"
  sm_resources :: "resource_instance list"
  sm_applications :: "application_instance list"
  sm_graphs :: "system_graph list"
  sm_links :: "system_link list"
  sm_targets :: "target_instance list"
  sm_artifacts :: "artifact_instance list"
  sm_policies :: mapping
  sm_metadata :: mapping
  sm_extensions :: mapping

definition model_input :: "system_model \<Rightarrow> string \<Rightarrow> system_port result" where
  "model_input m name = get_named prt_name (sm_inputs m) name"

definition model_output :: "system_model \<Rightarrow> string \<Rightarrow> system_port result" where
  "model_output m name = get_named prt_name (sm_outputs m) name"

definition model_resource_requirement :: "system_model \<Rightarrow> string \<Rightarrow> resource_requirement result" where
  "model_resource_requirement m name = get_named rr_name (sm_resource_requirements m) name"

section \<open>Field validators\<close>

definition nonempty_field :: "string \<Rightarrow> string \<Rightarrow> string result" where
  "nonempty_field msg value =
     (if value = [] then Inl (ValueErr ''String should have at least 1 character'')
      else if strip value = [] then Inl (ValueErr msg) else Inr (strip value))"

definition validate_port :: "string \<Rightarrow> string result" where
  "validate_port value = nonempty_field ''binding port must be non-empty'' value"

definition validate_endpoint :: "string \<Rightarrow> string result" where
  "validate_endpoint value =
     (if value = [] then Inl (ValueErr ''String should have at least 1 character'')
      else ebind (parse_system_endpoint (strip value)) (\<lambda>_. Inr (strip value)))"

definition validate_parameter :: "string \<Rightarrow> string result" where
  "validate_parameter value = nonempty_field ''parameter binding name must be non-empty'' value"

definition validate_binding_name :: "string \<Rightarrow> string result" where
  "validate_binding_name value =
     ebind (nonempty_field ''resource binding name must be non-empty'' value) (\<lambda>s.
       if CHR ''.'' \<in> set s \<or> CHR ''/'' \<in> set s
       then Inl (ValueErr (''resource binding name cannot contain '' @ repr_str ''.'' @ '' or '' @ repr_str ''/''))
       else Inr s)"

definition validate_type_id :: "string \<Rightarrow> string result" where
  "validate_type_id value = nonempty_field ''type_id must be non-empty'' value"

definition validate_requirement_uses :: "string \<Rightarrow> string result" where
  "validate_requirement_uses value = nonempty_field ''uses must be non-empty'' value"

definition validate_instance_name :: "string \<Rightarrow> string result" where
  "validate_instance_name value =
     ebind (nonempty_field ''System dependency instance name must be non-empty'' value) (\<lambda>s.
       if CHR ''.'' \<in> set s \<or> CHR ''/'' \<in> set s
       then Inl (ValueErr (''System dependency instance name cannot contain '' @ repr_str ''.'' @ '' or '' @ repr_str ''/''))
       else Inr s)"

definition validate_connection_endpoints :: "graph_connection \<Rightarrow> graph_connection result" where
  "validate_connection_endpoints c =
     ebind (split_local_endpoint (co_source c)) (\<lambda>_.
     ebind (split_local_endpoint (co_target c)) (\<lambda>_. Inr c))"

definition validate_link_endpoints :: "system_link \<Rightarrow> system_link result" where
  "validate_link_endpoints l =
     ebind (parse_system_endpoint (lk_source l)) (\<lambda>_.
     ebind (parse_system_endpoint (lk_target l)) (\<lambda>_. Inr l))"

text \<open>\<open>SystemInstance.validate_uses\<close>; a \<open>TypeError\<close> or \<open>ValueError\<close> of the parser is renamed.\<close>

definition validate_system_uses :: "string \<Rightarrow> string result" where
  "validate_system_uses value =
     (if value = [] then Inl (ValueErr ''String should have at least 1 character'')
      else case RevisionRef_parse (PStr (strip value)) of
        Inl _ \<Rightarrow> Inl (ValueErr (''SystemInstance.uses must be a canonical '' @ ''immutable System RevisionRef''))
      | Inr r \<Rightarrow>
          if er_kind (rv_entity r) \<noteq> ''system''
          then Inl (ValueErr (''SystemInstance.uses must reference '' @ ''an entity of kind '' @ repr_str ''system''))
          else Inr (RevisionRef_canonical r))"

definition instance_revision :: "system_instance \<Rightarrow> revision_ref result" where
  "instance_revision i = RevisionRef_parse (PStr (si_uses i))"

section \<open>What construction guarantees\<close>

definition accepted :: "('a \<Rightarrow> 'a result) \<Rightarrow> 'a \<Rightarrow> bool" where
  "accepted v x = (v x = Inr x)"

definition boundary_ok :: "boundary_bindings \<Rightarrow> bool" where
  "boundary_ok b =
     (list_all (\<lambda>p. accepted validate_port (ib_port p) \<and> accepted validate_endpoint (ib_endpoint p)) (bo_inputs b) \<and>
      list_all (\<lambda>p. accepted validate_port (ib_port p) \<and> accepted validate_endpoint (ib_endpoint p)) (bo_outputs b) \<and>
      list_all (\<lambda>p. accepted validate_parameter (xb_parameter p) \<and> accepted validate_targets (xb_targets p)) (bo_parameters b) \<and>
      list_all (\<lambda>p. accepted validate_binding_name (yb_resource p) \<and> accepted validate_binding_name (yb_instance p)) (bo_resources b))"

definition graph_ok :: "system_graph \<Rightarrow> bool" where
  "graph_ok g =
     (accepted validate_name (gp_name g) \<and>
      list_all (\<lambda>n. accepted validate_name (ni_name n) \<and> ni_uses n \<noteq> []) (gp_nodes g) \<and>
      list_all (accepted validate_connection_endpoints) (gp_connections g))"

definition model_ok :: "system_model \<Rightarrow> bool" where
  "model_ok m =
     (sm_name m \<noteq> [] \<and>
      list_all (\<lambda>p. accepted validate_name (prt_name p) \<and> accepted validate_type_id (prt_type_id p)) (sm_inputs m @ sm_outputs m) \<and>
      list_all (\<lambda>p. accepted validate_name (sp_name p) \<and> accepted validate_default p) (sm_parameters m) \<and>
      list_all (\<lambda>r. accepted validate_name (rr_name r) \<and> accepted validate_requirement_uses (rr_uses r)) (sm_resource_requirements m) \<and>
      boundary_ok (sm_bindings m) \<and>
      list_all (\<lambda>i. accepted validate_name (si_name i) \<and> accepted validate_system_uses (si_uses i)) (sm_systems m) \<and>
      list_all (\<lambda>d. accepted validate_instance_name (de_system d) \<and> accepted validate_instance_name (de_requires d) \<and>
                    0 < de_timeout_seconds d) (sm_dependencies m) \<and>
      list_all (\<lambda>r. accepted validate_name (ri_name r) \<and> ri_uses r \<noteq> []) (sm_resources m) \<and>
      list_all (\<lambda>a. accepted validate_name (ai_name a) \<and> ai_uses a \<noteq> []) (sm_applications m) \<and>
      list_all graph_ok (sm_graphs m) \<and>
      list_all (accepted validate_link_endpoints) (sm_links m) \<and>
      list_all (\<lambda>t. accepted validate_name (tt_name t)) (sm_targets m) \<and>
      list_all (\<lambda>a. accepted validate_name (ar_name a) \<and> ar_kind a \<noteq> []) (sm_artifacts m))"

section \<open>Sample Systems\<close>

definition blank_model :: "string \<Rightarrow> system_model" where
  "blank_model name =
     \<lparr>sm_name = name, sm_description = None, sm_inputs = [], sm_outputs = [], sm_parameters = [],
      sm_resource_requirements = [],
      sm_bindings = \<lparr>bo_inputs = [], bo_outputs = [], bo_parameters = [], bo_resources = []\<rparr>,
      sm_systems = [], sm_dependencies = [], sm_resources = [], sm_applications = [], sm_graphs = [],
      sm_links = [], sm_targets = [], sm_artifacts = [], sm_policies = [], sm_metadata = [], sm_extensions = []\<rparr>"

definition sample_node_instance :: "string \<Rightarrow> strmap \<Rightarrow> node_instance" where
  "sample_node_instance name resources =
     \<lparr>ni_name = name, ni_uses = ''pkg.node'', ni_parameters = [], ni_resources = resources, ni_target = None,
      ni_backend = None, ni_metadata = [], ni_extensions = []\<rparr>"

definition sample_resource_instance :: "string \<Rightarrow> strmap \<Rightarrow> resource_instance" where
  "sample_resource_instance name bindings =
     \<lparr>ri_name = name, ri_uses = ''pkg.store'', ri_parameters = [], ri_bindings = bindings, ri_target = None,
      ri_metadata = [], ri_extensions = []\<rparr>"

definition sample_connection :: "string \<Rightarrow> string \<Rightarrow> graph_connection" where
  "sample_connection s t =
     \<lparr>co_source = s, co_target = t, co_type_id = None, co_metadata = [], co_extensions = []\<rparr>"

text \<open>A graph of two nodes on one resource, whose second node feeds the System's output.\<close>

definition sample_model :: system_model where
  "sample_model = (blank_model ''demo'')
     \<lparr>sm_outputs := [\<lparr>prt_name = ''out'', prt_type_id = ''image/v1'', prt_optional = False,
                       prt_description = None, prt_metadata = [], prt_extensions = []\<rparr>],
      sm_bindings := \<lparr>bo_inputs = [],
         bo_outputs = [\<lparr>ib_port = ''out'', ib_endpoint = ''g/sink.image'', ib_metadata = [], ib_extensions = []\<rparr>],
         bo_parameters = [], bo_resources = []\<rparr>,
      sm_resources := [sample_resource_instance ''cache'' [(''disk'', ''disk'')], sample_resource_instance ''disk'' []],
      sm_graphs := [\<lparr>gp_name = ''g'',
         gp_nodes = [sample_node_instance ''sink'' [(''store'', ''cache'')], sample_node_instance ''source'' []],
         gp_connections = [sample_connection ''source.out'' ''sink.in''], gp_metadata = [], gp_extensions = []\<rparr>]\<rparr>"

definition sample_uses :: string where
  "sample_uses = ''nodrix://system/project/child@sha256:'' @ replicate 64 (CHR ''a'')"

definition sample_child_instance :: "string \<Rightarrow> mapping \<Rightarrow> system_instance" where
  "sample_child_instance name parameters =
     \<lparr>si_name = name, si_uses = sample_uses, si_parameters = parameters, si_resources = [],
      si_metadata = [], si_extensions = []\<rparr>"

section \<open>Validators normalize\<close>

lemma nonempty_field_idem: "ebind (nonempty_field msg v) (nonempty_field msg) = nonempty_field msg v"
  by (simp add: nonempty_field_def)

lemma strip_not_Nil: "strip v \<noteq> [] \<Longrightarrow> v \<noteq> []"
  by auto

lemma ebind_idem: "(\<And>x. f v = Inr x \<Longrightarrow> f x = Inr x) \<Longrightarrow> ebind (f v) f = f v"
  by (cases "f v") auto

lemma validate_name_idem: "ebind (validate_name v) validate_name = validate_name v"
  by (rule ebind_idem) (auto simp: validate_name_def Let_def split: if_splits)

lemma parse_system_endpoint_strip: "parse_system_endpoint (strip v) = Inr e \<Longrightarrow> strip v \<noteq> []"
  using parse_system_endpoint_render_strip [of "strip v" e]
  by (cases "ep_kind e") (auto simp: render_endpoint_def system_prefix_def)

lemma validate_endpoint_idem: "ebind (validate_endpoint v) validate_endpoint = validate_endpoint v"
  by (rule ebind_idem)
     (auto simp: validate_endpoint_def result_elims split: if_splits dest: parse_system_endpoint_strip)

lemma validate_targets_idem: "ebind (validate_targets v) validate_targets = validate_targets v"
proof (rule ebind_idem)
  fix ts assume run: "validate_targets v = Inr ts"
  then have ts: "ts = map strip v" "v \<noteq> []" by (auto simp: validate_targets_def Let_def result_elims)
  then have "map strip ts = ts" by simp
  with run ts show "validate_targets ts = Inr ts"
    by (simp add: validate_targets_def Let_def del: map_map)
qed

lemma strip_id_ends:
  assumes "s \<noteq> []" and "\<not> is_space (hd s)" and "\<not> is_space (last s)"
  shows "strip s = s"
proof -
  have "dropWhile is_space s = s" using assms(1,2) by (cases s) simp_all
  moreover have "dropWhile is_space (rev s) = rev s"
    using assms(1,3) by (cases "rev s") (auto simp: hd_rev [symmetric])
  ultimately show ?thesis by (simp add: strip_def strip_by_def)
qed

lemma strip_last: "strip s = s \<Longrightarrow> s \<noteq> [] \<Longrightarrow> \<not> is_space (last s)"
  using strip_by_ends [of is_space s] by (simp add: strip_def)

lemma strip_RevisionRef_canonical:
  assumes "wf_revision r"
  shows "strip (RevisionRef_canonical r) = RevisionRef_canonical r" and "RevisionRef_canonical r \<noteq> []"
proof -
  have "\<not> is_space (last (rv_digest r))" "rv_digest r \<noteq> []"
    using assms strip_last by (auto simp: wf_revision_def)
  then show "strip (RevisionRef_canonical r) = RevisionRef_canonical r"
    by (intro strip_id_ends)
       (simp_all add: RevisionRef_canonical_def EntityRef_canonical_def entity_prefix_def is_space_def)
qed (simp add: RevisionRef_canonical_def)

lemma validate_system_uses_idem: "ebind (validate_system_uses v) validate_system_uses = validate_system_uses v"
proof (rule ebind_idem)
  fix u assume "validate_system_uses v = Inr u"
  then obtain r where parse: "RevisionRef_parse (PStr (strip v)) = Inr r" and kind: "er_kind (rv_entity r) = ''system''"
    and u: "u = RevisionRef_canonical r"
    by (auto simp: validate_system_uses_def split: if_splits sum.splits)
  have again: "RevisionRef_parse (PStr u) = Inr r"
    using revision.parse_normal_form [OF parse] RevisionRef_parse_printable [OF parse] by (simp add: u)
  have "wf_revision r" using RevisionRef_parse_printable [OF parse] by (simp add: printable_revision_def)
  note strip_RevisionRef_canonical [OF this]
  with again kind show "validate_system_uses u = Inr u" by (simp add: validate_system_uses_def u)
qed

text \<open>What the validators accept: the text without its blanks, if it is not empty, and is a plain name.\<close>

definition filled_field :: "string \<Rightarrow> string \<Rightarrow> bool" where
  "filled_field v s = (s = strip v \<and> s \<noteq> [])"

definition name_field :: "string \<Rightarrow> string \<Rightarrow> bool" where
  "name_field v s = (filled_field v s \<and> CHR ''.'' \<notin> set s \<and> CHR ''/'' \<notin> set s)"

lemma nonempty_field_Inr: "nonempty_field msg v = Inr s \<longleftrightarrow> filled_field v s"
  by (auto simp: nonempty_field_def filled_field_def)

lemma parses_endpoint_iff: "(\<exists>e. parse_system_endpoint (strip v) = Inr e) \<longleftrightarrow> (\<exists>e. wf_endpoint e \<and> render_endpoint e = strip v)"
  using endpoint.parse_render parse_system_endpoint_render_strip [of "strip v"] by fastforce

lemma validate_endpoint_Inr:
  "validate_endpoint v = Inr s \<longleftrightarrow> s = strip v \<and> (\<exists>e. wf_endpoint e \<and> render_endpoint e = strip v)"
  using parse_system_endpoint_strip [of v]
  by (auto simp: validate_endpoint_def result_elims simp flip: parses_endpoint_iff)

lemma validate_system_uses_Inr:
  "validate_system_uses v = Inr s \<longleftrightarrow> (\<exists>r. RevisionRef_parse (PStr (strip v)) = Inr r \<and>
     er_kind (rv_entity r) = ''system'' \<and> s = RevisionRef_canonical r)"
proof -
  have "isl (RevisionRef_parse (PStr (strip [])))" by code_simp
  then show ?thesis by (auto simp: validate_system_uses_def split: sum.splits)
qed

lemma validate_targets_Inr:
  "validate_targets vs = Inr us \<longleftrightarrow>
     us = map strip vs \<and> us \<noteq> [] \<and> distinct us \<and> list_all (\<lambda>u. \<exists>p. wf_target p \<and> render_target p = u) us"
proof -
  have parses: "(\<exists>p. parse_system_parameter_target (strip v) = Inr p) \<longleftrightarrow> (\<exists>p. wf_target p \<and> render_target p = strip v)" for v
    using target.parse_render parse_system_parameter_target_wf [of "strip v"] by fastforce
  have "(\<exists>ps. emap parse_system_parameter_target (map strip vs) = Inr ps) \<longleftrightarrow>
      list_all (\<lambda>u. \<exists>p. wf_target p \<and> render_target p = u) (map strip vs)"
    by (simp add: list_all_iff parses [symmetric] emap_succeeds)
  then show ?thesis
    by (auto simp: validate_targets_def Let_def result_elims simp del: map_map)
qed

text \<open>
  C16: What the field validators of the System Model accept, and as what.  A port, a parameter name, a
  type id and a requirement's \<open>uses\<close> are accepted when they are not blank, a name, a binding name and
  an instance name when they moreover have no dot and no slash, an endpoint when it is the text of an
  endpoint, the \<open>uses\<close> of a child when it is a revision reference of kind \<open>system\<close>, and the targets of a
  binding when there is one at least, each is the text of a parameter target and no two are equal;
  what is kept is the text without its surrounding blanks (the canonical text of the reference, for a
  child).  What a validator has accepted it accepts again, unchanged, so a model rebuilt from its own
  fields is the same model.
\<close>

theorem validators_normalize:
  "(validate_name v = Inr s \<longleftrightarrow> name_field v s) \<and>
   (validate_binding_name v = Inr s \<longleftrightarrow> name_field v s) \<and>
   (validate_instance_name v = Inr s \<longleftrightarrow> name_field v s) \<and>
   (validate_port v = Inr s \<longleftrightarrow> filled_field v s) \<and>
   (validate_parameter v = Inr s \<longleftrightarrow> filled_field v s) \<and>
   (validate_type_id v = Inr s \<longleftrightarrow> filled_field v s) \<and>
   (validate_requirement_uses v = Inr s \<longleftrightarrow> filled_field v s) \<and>
   (validate_endpoint v = Inr s \<longleftrightarrow> s = strip v \<and> (\<exists>e. wf_endpoint e \<and> render_endpoint e = strip v)) \<and>
   (validate_system_uses v = Inr s \<longleftrightarrow> (\<exists>r. RevisionRef_parse (PStr (strip v)) = Inr r \<and>
      er_kind (rv_entity r) = ''system'' \<and> s = RevisionRef_canonical r)) \<and>
   (validate_targets ts = Inr us \<longleftrightarrow> us = map strip ts \<and> us \<noteq> [] \<and> distinct us \<and>
      list_all (\<lambda>u. \<exists>p. wf_target p \<and> render_target p = u) us) \<and>
   ebind (validate_name v) validate_name = validate_name v \<and>
   ebind (validate_port v) validate_port = validate_port v \<and>
   ebind (validate_endpoint v) validate_endpoint = validate_endpoint v \<and>
   ebind (validate_parameter v) validate_parameter = validate_parameter v \<and>
   ebind (validate_binding_name v) validate_binding_name = validate_binding_name v \<and>
   ebind (validate_type_id v) validate_type_id = validate_type_id v \<and>
   ebind (validate_requirement_uses v) validate_requirement_uses = validate_requirement_uses v \<and>
   ebind (validate_instance_name v) validate_instance_name = validate_instance_name v \<and>
   ebind (validate_system_uses v) validate_system_uses = validate_system_uses v \<and>
   ebind (validate_targets ts) validate_targets = validate_targets ts"
proof (intro conjI)
  show "ebind (validate_binding_name v) validate_binding_name = validate_binding_name v"
    and "ebind (validate_instance_name v) validate_instance_name = validate_instance_name v"
    by (rule ebind_idem; auto simp: validate_binding_name_def validate_instance_name_def nonempty_field_def
          result_elims split: if_splits)+
  show "validate_name v = Inr s \<longleftrightarrow> name_field v s"
    by (auto simp: validate_name_def name_field_def filled_field_def Let_def)
  show "validate_binding_name v = Inr s \<longleftrightarrow> name_field v s" and "validate_instance_name v = Inr s \<longleftrightarrow> name_field v s"
    by (auto simp: validate_binding_name_def validate_instance_name_def nonempty_field_Inr name_field_def result_elims)
  show "validate_targets ts = Inr us \<longleftrightarrow> us = map strip ts \<and> us \<noteq> [] \<and> distinct us \<and>
      list_all (\<lambda>u. \<exists>p. wf_target p \<and> render_target p = u) us" by (rule validate_targets_Inr)
  show "validate_system_uses v = Inr s \<longleftrightarrow> (\<exists>r. RevisionRef_parse (PStr (strip v)) = Inr r \<and>
      er_kind (rv_entity r) = ''system'' \<and> s = RevisionRef_canonical r)" by (rule validate_system_uses_Inr)
  show "validate_endpoint v = Inr s \<longleftrightarrow> s = strip v \<and> (\<exists>e. wf_endpoint e \<and> render_endpoint e = strip v)"
    by (rule validate_endpoint_Inr)
  show "validate_port v = Inr s \<longleftrightarrow> filled_field v s" and "validate_parameter v = Inr s \<longleftrightarrow> filled_field v s"
    and "validate_type_id v = Inr s \<longleftrightarrow> filled_field v s" and "validate_requirement_uses v = Inr s \<longleftrightarrow> filled_field v s"
    by (simp_all add: validate_port_def validate_parameter_def validate_type_id_def validate_requirement_uses_def nonempty_field_Inr)
qed (simp_all add: validate_port_def [abs_def] validate_parameter_def [abs_def] validate_type_id_def [abs_def] validate_requirement_uses_def [abs_def]
       nonempty_field_idem validate_name_idem validate_endpoint_idem validate_targets_idem validate_system_uses_idem)

end
