(* ===== verification/Catalog.thy ===== *)
theory Catalog
  imports System_Model
begin

text \<open>
  The SDK definitions a System refers to and the compatibility checks between contracts:
  \<open>src/nodrix/system/catalog.py\<close>, the dataclasses of \<open>src/nodrix/sdk/definitions.py\<close> and the
  helper functions of \<open>src/nodrix/system/validation.py\<close>. A Python type annotation is a value
  of \<open>annotation\<close>; what Python's type system says of two annotations (\<open>==\<close>, \<open>issubclass\<close>,
  the printed name) are parameters, since the classes are the users'.
\<close>

section \<open>Definitions\<close>

datatype annotation =
    AnyType
  | ClassType string
  | GenericType string "annotation list"
  | UnionType "annotation list"
  | AnnotatedType annotation string
  | LiteralType string
  | OtherType string

record type_env =
  te_equal :: "annotation \<Rightarrow> annotation \<Rightarrow> bool"
  te_subclass :: "string \<Rightarrow> string \<Rightarrow> bool option"
  te_name :: "annotation \<Rightarrow> string"

record port_definition =
  pf_name :: string
  pf_type_id :: string
  pf_optional :: bool

record parameter_definition =
  qd_name :: string
  qd_annotation :: annotation
  qd_required :: bool
  qd_default :: pyval

record dependency_definition =
  dd_name :: string
  dd_kind :: string
  dd_annotation :: annotation

record node_definition =
  nf_name :: string
  nf_inputs :: "port_definition list"
  nf_outputs :: "port_definition list"
  nf_parameters :: "parameter_definition list"
  nf_dependencies :: "dependency_definition list"

record resource_definition =
  rf_name :: string
  rf_parameters :: "parameter_definition list"
  rf_provided_type :: "annotation option"

record message_definition =
  mf_type_id :: string
  mf_version :: int
  mf_compatible_versions :: "int list"

record definition_catalog =
  dc_nodes :: "(string \<times> node_definition) list"
  dc_resources :: "(string \<times> resource_definition) list"
  dc_messages :: "(string \<times> message_definition) list"

text \<open>\<open>DefinitionCatalog.from_definitions\<close>: of two messages with one type id the later stays.\<close>

definition catalog_from_definitions ::
    "(string \<times> node_definition) list option \<Rightarrow> (string \<times> resource_definition) list option \<Rightarrow>
     message_definition list \<Rightarrow> definition_catalog" where
  "catalog_from_definitions nodes resources messages =
     \<lparr>dc_nodes = (case nodes of None \<Rightarrow> [] | Some ns \<Rightarrow> ns),
      dc_resources = (case resources of None \<Rightarrow> [] | Some rs \<Rightarrow> rs),
      dc_messages = dict_update [] (map (\<lambda>d. (mf_type_id d, d)) messages)\<rparr>"

section \<open>Type annotations\<close>

definition is_any_or_object :: "annotation \<Rightarrow> bool" where
  "is_any_or_object a = (a = AnyType \<or> a = ClassType ''object'')"

text \<open>\<open>get_origin(a) or a\<close>.\<close>

fun runtime_type :: "annotation \<Rightarrow> annotation" where
  "runtime_type (GenericType c args) = ClassType c"
| "runtime_type (UnionType args) = OtherType ''Union''"
| "runtime_type (AnnotatedType a m) = OtherType ''Annotated''"
| "runtime_type (LiteralType t) = OtherType ''Literal''"
| "runtime_type a = a"

definition runtime_compatible :: "type_env \<Rightarrow> annotation \<Rightarrow> annotation \<Rightarrow> bool" where
  "runtime_compatible env required provided =
     (case (runtime_type required, runtime_type provided) of
        (ClassType r, ClassType p) \<Rightarrow>
          (case te_subclass env p r of Some b \<Rightarrow> b | None \<Rightarrow> r = p)
      | (r, p) \<Rightarrow> r = p)"

fun resource_type_compatible :: "type_env \<Rightarrow> annotation \<Rightarrow> annotation \<Rightarrow> bool" where
  "resource_type_compatible env (UnionType options) provided =
     (provided = AnyType \<or> te_equal env (UnionType options) provided \<or>
      list_ex (\<lambda>a. a \<noteq> ClassType ''NoneType'' \<and> resource_type_compatible env a provided) options)"
| "resource_type_compatible env required provided =
     (is_any_or_object required \<or> provided = AnyType \<or> te_equal env required provided \<or>
      runtime_compatible env required provided)"

text \<open>\<open>_annotation_accepts_runtime_type\<close>; \<open>None\<close> is "cannot be decided".\<close>

definition accepts_union :: "bool option list \<Rightarrow> bool option" where
  "accepts_union results =
     (if Some True \<in> set results then Some True else if None \<in> set results then None else Some False)"

definition class_accepts :: "type_env \<Rightarrow> string \<Rightarrow> string \<Rightarrow> bool option" where
  "class_accepts env target rt =
     (if target = ''float'' \<and> rt = ''int'' then Some True
      else if rt = ''bool'' \<and> target = ''int'' then Some False
      else te_subclass env rt target)"

fun annotation_accepts :: "type_env \<Rightarrow> annotation \<Rightarrow> string \<Rightarrow> bool option" where
  "annotation_accepts env AnyType rt = Some True"
| "annotation_accepts env (ClassType c) rt = (if c = ''object'' then Some True else class_accepts env c rt)"
| "annotation_accepts env (GenericType c args) rt = class_accepts env c rt"
| "annotation_accepts env (UnionType options) rt = accepts_union (map (\<lambda>a. annotation_accepts env a rt) options)"
| "annotation_accepts env (AnnotatedType a m) rt = annotation_accepts env a rt"
| "annotation_accepts env (LiteralType t) rt = Some False"
| "annotation_accepts env (OtherType t) rt = None"

definition portable_types :: "parameter_type \<Rightarrow> string list" where
  "portable_types t = (case t of T_ANY \<Rightarrow> [] | T_STRING \<Rightarrow> [''str''] | T_INTEGER \<Rightarrow> [''int'']
     | T_NUMBER \<Rightarrow> [''int'', ''float''] | T_BOOLEAN \<Rightarrow> [''bool''] | T_OBJECT \<Rightarrow> [''dict''] | T_ARRAY \<Rightarrow> [''list''])"

definition parameter_type_compatible :: "type_env \<Rightarrow> system_parameter \<Rightarrow> annotation \<Rightarrow> bool option" where
  "parameter_type_compatible env contract a =
     (if sp_value_type contract = T_ANY then Some (is_any_or_object a)
      else let results = map (annotation_accepts env a) (portable_types (sp_value_type contract)) in
        if Some False \<in> set results then Some False
        else if None \<in> set results then None
        else if sp_nullable contract
        then (let nullable = annotation_accepts env a ''NoneType'' in
              if nullable \<noteq> Some True then nullable else Some True)
        else Some True)"

definition contract_compatible :: "system_parameter \<Rightarrow> system_parameter \<Rightarrow> bool" where
  "contract_compatible source target =
     (if sp_nullable source \<and> \<not> sp_nullable target then False
      else if sp_value_type target = T_ANY then True
      else if sp_value_type source = T_ANY then False
      else if sp_value_type source = sp_value_type target then True
      else sp_value_type source = T_INTEGER \<and> sp_value_type target = T_NUMBER)"

section \<open>Message contracts\<close>

text \<open>\<open>str.rpartition\<close> at the last occurrence of a separator.\<close>

definition rpartition_str :: "string \<Rightarrow> string \<Rightarrow> (string \<times> string) option" where
  "rpartition_str sep s =
     map_option (\<lambda>i. (take i s, drop (i + length sep) s))
       (find (\<lambda>i. starts_with sep (drop i s)) (rev [0..<Suc (length s)]))"

text \<open>
  \<open>int(text)\<close> on U+0000 to U+00FF: surrounding space, one sign, decimal digits with single
  underscores between them; more than 4300 digits raise the same \<open>ValueError\<close>. An ASCII text
  is stripped of ASCII space only.
\<close>

definition c_space :: "char \<Rightarrow> bool" where
  "c_space c = (code_point c = (32::nat) \<or> (9 \<le> (code_point c :: nat) \<and> code_point c \<le> (13::nat)))"

definition int_strip :: "string \<Rightarrow> string" where
  "int_strip s = (if list_all (\<lambda>c. code_point c < (128::nat)) s then strip_by c_space s else strip s)"

definition digits_value :: "string \<Rightarrow> int" where
  "digits_value s = fold (\<lambda>c n. 10 * n + (of_char c - 48)) s 0"

definition parse_digits :: "string \<Rightarrow> int option" where
  "parse_digits s =
     (let groups = split_on (CHR ''_'') s in
      if list_all (\<lambda>g. g \<noteq> [] \<and> list_all ascii_digit g) groups \<and> length (concat groups) \<le> 4300
      then Some (digits_value (concat groups)) else None)"

definition parse_int :: "string \<Rightarrow> int option" where
  "parse_int s =
     (case int_strip s of
        [] \<Rightarrow> None
      | c # cs \<Rightarrow> if c = CHR ''-'' then map_option uminus (parse_digits cs)
                  else if c = CHR ''+'' then parse_digits cs else parse_digits (c # cs))"

definition message_contract_version :: "string \<Rightarrow> (string \<times> int) option" where
  "message_contract_version type_id =
     (case rpartition_str ''/v'' type_id of
        None \<Rightarrow> None
      | Some (stem, version) \<Rightarrow> if stem = [] then None else map_option (\<lambda>n. (stem, n)) (parse_int version))"

definition message_contracts_compatible :: "definition_catalog option \<Rightarrow> string \<Rightarrow> string \<Rightarrow> bool" where
  "message_contracts_compatible catalog source_type target_type =
     (if source_type = target_type then True
      else case catalog of
        None \<Rightarrow> False
      | Some c \<Rightarrow>
          (case (message_contract_version source_type, message_contract_version target_type) of
             (Some (source_stem, source_number), Some (target_stem, _)) \<Rightarrow>
               if source_stem \<noteq> target_stem then False
               else (case map_of (dc_messages c) target_type of
                       None \<Rightarrow> False
                     | Some d \<Rightarrow> source_number \<in> set (mf_compatible_versions d))
           | _ \<Rightarrow> False))"

section \<open>Properties\<close>

text \<open>A value of each portable type that no other type accepts, integers and numbers apart.\<close>

definition typical_value :: "parameter_type \<Rightarrow> pyval" where
  "typical_value t = (case t of T_ANY \<Rightarrow> POther ''object'' | T_STRING \<Rightarrow> PStr [] | T_INTEGER \<Rightarrow> PInt 0
     | T_NUMBER \<Rightarrow> PFloat (Finite 0) | T_BOOLEAN \<Rightarrow> PBool True | T_OBJECT \<Rightarrow> PDict [] | T_ARRAY \<Rightarrow> PList [])"

lemma contract_compatible_sound:
  assumes "contract_compatible s t" and "accepts s v = Inr True"
  shows "accepts t v = Inr True \<or> (\<exists>i. v = PInt i \<and> float_overflow i)"
  using assms
  by (cases v) (auto simp: contract_compatible_def accepts_def split: if_splits parameter_type.splits pyfloat.splits)

lemma contract_incompatible:
  assumes "\<not> contract_compatible s t"
  shows "\<exists>v. accepts s v = Inr True \<and> accepts t v \<noteq> Inr True \<and> (\<forall>i. v = PInt i \<longrightarrow> \<not> float_overflow i)"
proof (cases "sp_nullable s \<and> \<not> sp_nullable t")
  case True
  then show ?thesis by (intro exI [of _ PNone]) (simp add: accepts_def)
next
  case False
  with assms show ?thesis
    by (intro exI [of _ "typical_value (sp_value_type s)"])
       (cases "sp_value_type s"; cases "sp_value_type t";
        simp add: contract_compatible_def accepts_def typical_value_def float_overflow_def split: if_splits)
qed

text \<open>
  A System parameter may be bound to a child parameter exactly when every value the parent
  contract accepts is a value the child contract accepts. (Integers beyond the float range,
  for which the check of a number raises, are the one exception.)
\<close>

theorem contract_compatible_iff:
  "contract_compatible s t \<longleftrightarrow>
     (\<forall>v. accepts s v = Inr True \<longrightarrow> accepts t v = Inr True \<or> (\<exists>i. v = PInt i \<and> float_overflow i))"
  using contract_compatible_sound contract_incompatible by blast

definition sample_parameter :: "parameter_type \<Rightarrow> system_parameter" where
  "sample_parameter t = \<lparr>sp_name = ''p'', sp_value_type = t, sp_required = False, sp_nullable = False,
     sp_default = None, sp_description = None, sp_metadata = [], sp_extensions = []\<rparr>"

theorem contract_compatible_iff_witness:
  "accepts (sample_parameter T_NUMBER) (PInt 3) = Inr True"
proof -
  have "contract_compatible (sample_parameter T_INTEGER) (sample_parameter T_NUMBER)"
    by (simp add: contract_compatible_def sample_parameter_def)
  moreover have "accepts (sample_parameter T_INTEGER) (PInt 3) = Inr True"
    by (simp add: accepts_def sample_parameter_def)
  ultimately have "accepts (sample_parameter T_NUMBER) (PInt 3) = Inr True \<or> (\<exists>i. PInt 3 = PInt i \<and> float_overflow i)"
    using contract_compatible_iff [of "sample_parameter T_INTEGER" "sample_parameter T_NUMBER"] by blast
  then show ?thesis by (simp add: float_overflow_def)
qed

end
