(* ===== verification/Validation.thy ===== *)
theory Validation
  imports Catalog
begin

text \<open>
  Semantic validation of a System: \<open>validate_system\<close> of \<open>src/nodrix/system/validation.py\<close>.
  The function collects diagnostics and raises only where a reference does not parse or a
  value check raises. Each section of the code is a definition that returns the diagnostics
  it appends, in order; a set the code fills while it iterates (names or edges seen so far)
  is the set of the elements before the current index.
\<close>

section \<open>Diagnostics\<close>

record system_diagnostic =
  dg_error :: bool
  dg_code :: string
  dg_path :: string
  dg_message :: string

definition sys_error :: "string \<Rightarrow> string \<Rightarrow> string \<Rightarrow> system_diagnostic" where
  "sys_error code path msg = \<lparr>dg_error = True, dg_code = code, dg_path = path, dg_message = msg\<rparr>"

definition sys_warning :: "string \<Rightarrow> string \<Rightarrow> string \<Rightarrow> system_diagnostic" where
  "sys_warning code path msg = \<lparr>dg_error = False, dg_code = code, dg_path = path, dg_message = msg\<rparr>"

definition report_errors_of :: "system_diagnostic list \<Rightarrow> system_diagnostic list" where
  "report_errors_of ds = filter dg_error ds"

definition report_warnings_of :: "system_diagnostic list \<Rightarrow> system_diagnostic list" where
  "report_warnings_of ds = filter (\<lambda>d. \<not> dg_error d) ds"

definition system_report_valid :: "system_diagnostic list \<Rightarrow> bool" where
  "system_report_valid ds = (report_errors_of ds = [])"

text \<open>\<open>SystemValidationError(report)\<close> of \<open>raise_for_errors\<close>.\<close>

definition diagnostics_summary :: "system_diagnostic list \<Rightarrow> string" where
  "diagnostics_summary ds =
     join_on ''; '' (map (\<lambda>d. dg_code d @ '' '' @ dg_path d @ '': '' @ dg_message d) ds)"

definition sys_raise_for_errors :: "system_diagnostic list \<Rightarrow> unit result" where
  "sys_raise_for_errors ds =
     (if report_errors_of ds \<noteq> []
      then Inl (NamedErr ''SystemValidationError''
             (or_else (Some (diagnostics_summary (report_errors_of ds))) ''System validation failed''))
      else Inr ())"

definition at_index :: "string \<Rightarrow> nat \<Rightarrow> string" where
  "at_index field i = field @ ''['' @ nat_digits i @ '']''"

definition guarded :: "bool \<Rightarrow> system_diagnostic \<Rightarrow> system_diagnostic list" where
  "guarded b d = (if b then [d] else [])"

text \<open>\<open>{item.name: item for item in items}\<close>, and \<open>sorted(set(values) - set(known))\<close>.\<close>

definition by_name :: "('a \<Rightarrow> string) \<Rightarrow> 'a list \<Rightarrow> (string \<times> 'a) list" where
  "by_name f xs = dict_update [] (map (\<lambda>x. (f x, x)) xs)"

definition unknown_keys :: "string list \<Rightarrow> string list \<Rightarrow> string list" where
  "unknown_keys values known = sort (remdups (filter (\<lambda>k. k \<notin> set known) values))"

definition duplicate_names :: "string list \<Rightarrow> string list" where
  "duplicate_names ns = sort (remdups (filter (\<lambda>n. 1 < count_list ns n) ns))"

section \<open>Names\<close>

definition category_diagnostics :: "string \<Rightarrow> string list \<Rightarrow> system_diagnostic list" where
  "category_diagnostics category names =
     map (\<lambda>d. sys_error ''SYS001'' (category @ ''.'' @ d) (''duplicate '' @ butlast category @ '' name''))
       (duplicate_names names)"

definition name_diagnostics :: "system_model \<Rightarrow> system_diagnostic list" where
  "name_diagnostics m =
     category_diagnostics ''inputs'' (map prt_name (sm_inputs m)) @
     category_diagnostics ''outputs'' (map prt_name (sm_outputs m)) @
     category_diagnostics ''parameters'' (map sp_name (sm_parameters m)) @
     category_diagnostics ''resourceRequirements'' (map rr_name (sm_resource_requirements m)) @
     category_diagnostics ''systems'' (map si_name (sm_systems m)) @
     category_diagnostics ''resources'' (map ri_name (sm_resources m)) @
     category_diagnostics ''applications'' (map ai_name (sm_applications m)) @
     category_diagnostics ''graphs'' (map gp_name (sm_graphs m)) @
     category_diagnostics ''targets'' (map tt_name (sm_targets m)) @
     category_diagnostics ''artifacts'' (map ar_name (sm_artifacts m))"

section \<open>Parameter bindings\<close>

definition parameter_binding_diagnostics :: "system_model \<Rightarrow> system_diagnostic list" where
  "parameter_binding_diagnostics m =
     (let bs = bo_parameters (sm_bindings m) in
      concat (map (\<lambda>(i, b).
        let path = at_index ''bindings.parameters'' i in
        guarded (xb_parameter b \<in> set (map xb_parameter (take i bs)))
          (sys_error ''SYS058'' (path @ ''.parameter'')
             (''duplicate binding for System parameter '' @ repr_str (xb_parameter b))) @
        guarded (xb_parameter b \<notin> sp_name ` set (sm_parameters m))
          (sys_error ''SYS059'' (path @ ''.parameter'')
             (''unknown System parameter '' @ repr_str (xb_parameter b))) @
        concat (map (\<lambda>(j, t).
          guarded (t \<in> set (concat (map xb_targets (take i bs))) \<or> t \<in> set (take j (xb_targets b)))
            (sys_error ''SYS060'' (path @ at_index ''.targets'' j)
               (''internal parameter target is bound more than once: '' @ repr_str t)))
          (enumerate 0 (xb_targets b))))
        (enumerate 0 bs)))"

text \<open>\<open>parameter_target_bindings\<close>: the parameters bound at a (kind, scope, instance).\<close>

definition parameter_targets :: "system_model \<Rightarrow> parameter_target list result" where
  "parameter_targets m =
     emap parse_system_parameter_target (concat (map xb_targets (bo_parameters (sm_bindings m))))"

definition bound_parameters ::
    "parameter_target list \<Rightarrow> parameter_target_kind \<Rightarrow> string option \<Rightarrow> string \<Rightarrow> string list" where
  "bound_parameters ts kind scope inst =
     map pt_parameter (filter (\<lambda>t. pt_kind t = kind \<and> pt_scope t = scope \<and> pt_instance t = inst) ts)"

section \<open>Child Systems\<close>

datatype resolved_definition = NotResolved | NotASystem | Resolved system_model

type_synonym resolver = "revision_ref \<Rightarrow> resolved_definition result"

definition resolve_child :: "resolver option \<Rightarrow> system_instance \<Rightarrow> system_model option result" where
  "resolve_child resolver i =
     (case resolver of
        None \<Rightarrow> Inr None
      | Some r \<Rightarrow> ebind (instance_revision i) (\<lambda>rev. ebind (r rev) (\<lambda>v.
          Inr (case v of Resolved m \<Rightarrow> Some m | _ \<Rightarrow> None))))"

definition child_parameter_diagnostics ::
    "string \<Rightarrow> system_instance \<Rightarrow> string list \<Rightarrow> string \<times> system_parameter \<Rightarrow> system_diagnostic list result" where
  "child_parameter_diagnostics path i bound = (\<lambda>(name, contract).
     let missing = guarded (sp_required contract \<and> name \<notin> fst ` set (si_parameters i) \<and> name \<notin> set bound)
           (sys_error ''SYS172'' (path @ ''.parameters.'' @ name) ''required child System parameter is not configured'')
     in case map_of (si_parameters i) name of
          None \<Rightarrow> Inr missing
        | Some v \<Rightarrow> ebind (accepts contract v) (\<lambda>ok.
            Inr (missing @ guarded (\<not> ok)
              (sys_error ''SYS173'' (path @ ''.parameters.'' @ name)
                 (''child System parameter does not match declared type '' @
                  repr_str (type_value (sp_value_type contract)))))))"

definition child_resource_diagnostics ::
    "string \<Rightarrow> system_instance \<Rightarrow> (string \<times> resource_instance) list \<Rightarrow> string \<times> resource_requirement \<Rightarrow>
     system_diagnostic list" where
  "child_resource_diagnostics path i resources = (\<lambda>(name, requirement).
     if \<not> rr_optional requirement \<and> name \<notin> fst ` set (si_resources i)
     then [sys_error ''SYS175'' (path @ ''.resources.'' @ name) ''required child System resource is not bound'']
     else case map_of resources (or_else (map_of (si_resources i) name) []) of
            None \<Rightarrow> []
          | Some parent \<Rightarrow>
              guarded (ri_uses parent \<noteq> rr_uses requirement)
                (sys_error ''SYS176'' (path @ ''.resources.'' @ name)
                   (''bound parent ResourceInstance has incompatible '' @ ''definition '' @
                    repr_str (ri_uses parent) @ ''; expected '' @ repr_str (rr_uses requirement))))"

definition instance_slot_diagnostics :: "system_model \<Rightarrow> string \<Rightarrow> system_instance \<Rightarrow> system_diagnostic list" where
  "instance_slot_diagnostics m path i =
     concat (map (\<lambda>(slot, resource_name).
       guarded (resource_name \<notin> ri_name ` set (sm_resources m))
         (sys_error ''SYS065'' (path @ ''.resources.'' @ slot)
            (''unknown parent ResourceInstance '' @ repr_str resource_name))) (si_resources i))"

definition child_diagnostics ::
    "system_model \<Rightarrow> resolver option \<Rightarrow> parameter_target list \<Rightarrow> nat \<times> system_instance \<Rightarrow>
     (system_diagnostic list \<times> (string \<times> system_model) list) result" where
  "child_diagnostics m resolver targets = (\<lambda>(index, i).
     let path = at_index ''systems'' index;
         slots = instance_slot_diagnostics m path i
     in ebind (resolve_child resolver i) (\<lambda>child.
       case child of
         None \<Rightarrow> Inr (slots, [])
       | Some c \<Rightarrow>
           let parameters = by_name sp_name (sm_parameters c);
               requirements = by_name rr_name (sm_resource_requirements c);
               bound = bound_parameters targets PT_SYSTEM None (si_name i);
               unknown_p = map (\<lambda>name. sys_error ''SYS171'' (path @ ''.parameters.'' @ name)
                   ''parameter is not declared by the child System Definition'')
                 (unknown_keys (map fst (si_parameters i)) (map fst parameters));
               unknown_r = map (\<lambda>name. sys_error ''SYS174'' (path @ ''.resources.'' @ name)
                   ''resource slot is not declared by the child System Definition'')
                 (unknown_keys (map fst (si_resources i)) (map fst requirements))
           in ebind (emap (child_parameter_diagnostics path i bound) parameters) (\<lambda>contracts.
              Inr (slots @ unknown_p @ concat contracts @ unknown_r @
                   concat (map (child_resource_diagnostics path i (by_name ri_name (sm_resources m))) requirements),
                   [(si_name i, c)]))))"

text \<open>Required inputs of children: fed by a delegated parent input or by a link.\<close>

definition system_ports :: "system_endpoint list \<Rightarrow> (string \<times> string) list" where
  "system_ports es = map (\<lambda>e. (ep_instance e, ep_port e)) (filter (\<lambda>e. ep_kind e = SYSTEM) es)"

definition child_input_diagnostics ::
    "system_model \<Rightarrow> (string \<times> system_model) list \<Rightarrow> (string \<times> string) list \<Rightarrow> system_diagnostic list" where
  "child_input_diagnostics m children supplied =
     concat (map (\<lambda>(index, i).
       case map_of children (si_name i) of
         None \<Rightarrow> []
       | Some c \<Rightarrow> concat (map (\<lambda>port.
           guarded (\<not> prt_optional port \<and> (si_name i, prt_name port) \<notin> set supplied)
             (sys_error ''SYS177'' (at_index ''systems'' index @ ''.inputs.'' @ prt_name port)
                (''required child System input is not '' @
                 ''satisfied by a parent link or delegated '' @ ''parent System input''))) (sm_inputs c)))
       (enumerate 0 (sm_systems m)))"

section \<open>Dependencies\<close>

definition dependency_edge :: "system_dependency \<Rightarrow> string \<times> string" where
  "dependency_edge d = (de_system d, de_requires d)"

definition dependency_diagnostics :: "system_model \<Rightarrow> system_diagnostic list" where
  "dependency_diagnostics m =
     (let names = si_name ` set (sm_systems m) in
      concat (map (\<lambda>(index, d).
        let path = at_index ''dependencies'' index in
        guarded (de_system d \<notin> names)
          (sys_error ''SYS061'' (path @ ''.system'')
             (''dependency target must name a sibling SystemInstance: '' @
              ''unknown SystemInstance '' @ repr_str (de_system d))) @
        guarded (de_requires d \<notin> names)
          (sys_error ''SYS062'' (path @ ''.requires'')
             (''dependency prerequisite must name a sibling '' @ ''SystemInstance: unknown SystemInstance '' @
              repr_str (de_requires d))) @
        guarded (de_system d = de_requires d)
          (sys_error ''SYS063'' path ''SystemInstance cannot depend on itself'') @
        guarded (dependency_edge d \<in> set (map dependency_edge (take index (sm_dependencies m))))
          (sys_error ''SYS064'' path
             (''duplicate System dependency edge: '' @ repr_str (de_system d) @ '' requires '' @
              repr_str (de_requires d))))
        (enumerate 0 (sm_dependencies m))))"

section \<open>Parameters and resources of SDK definitions\<close>

definition definition_parameter_diagnostics ::
    "string \<Rightarrow> mapping \<Rightarrow> parameter_definition list \<Rightarrow> string list \<Rightarrow> system_diagnostic list" where
  "definition_parameter_diagnostics path values definitions bound =
     (let known = by_name qd_name definitions in
      map (\<lambda>name. sys_error ''SYS121'' (path @ ''.parameters.'' @ name)
             ''parameter is not declared by the referenced definition'')
        (unknown_keys (map fst values) (map fst known)) @
      concat (map (\<lambda>(name, definition).
        guarded (qd_required definition \<and> name \<notin> fst ` set values \<and> name \<notin> set bound)
          (sys_error ''SYS122'' (path @ ''.parameters.'' @ name) ''required parameter is not configured'')) known))"

definition slot_diagnostics ::
    "string \<Rightarrow> type_env \<Rightarrow> definition_catalog \<Rightarrow> (string \<times> resource_instance) list \<Rightarrow>
     (string \<times> dependency_definition) list \<Rightarrow> string \<times> string \<Rightarrow> system_diagnostic list" where
  "slot_diagnostics path env catalog resources dependencies = (\<lambda>(slot, resource_name).
     case map_of resources resource_name of
       None \<Rightarrow> [sys_error ''SYS125'' (path @ ''.resources.'' @ slot)
                  (''unknown ResourceInstance '' @ repr_str resource_name)]
     | Some r \<Rightarrow> (case map_of dependencies slot of
         None \<Rightarrow> []
       | Some dependency \<Rightarrow> (case map_of (dc_resources catalog) (ri_uses r) of
           None \<Rightarrow> []
         | Some definition \<Rightarrow> (case rf_provided_type definition of
             None \<Rightarrow> [sys_warning ''SYS126'' (path @ ''.resources.'' @ slot)
                  (''ResourceDefinition '' @ repr_str (ri_uses r) @ '' does not declare '' @
                   ''its provided Python type; use a return annotation or '' @
                   ''@resource(provides=...) to enable type validation'')]
           | Some provided \<Rightarrow>
               guarded (\<not> resource_type_compatible env (dd_annotation dependency) provided)
                 (sys_error ''SYS127'' (path @ ''.resources.'' @ slot)
                    (''resource type mismatch: '' @ ''node requires '' @ te_name env (dd_annotation dependency) @
                     '', '' @ repr_str (ri_uses r) @ '' provides '' @ te_name env provided))))))"

definition node_definition_diagnostics ::
    "string \<Rightarrow> type_env \<Rightarrow> definition_catalog \<Rightarrow> (string \<times> resource_instance) list \<Rightarrow> node_definition \<Rightarrow>
     string list \<Rightarrow> node_instance \<Rightarrow> system_diagnostic list" where
  "node_definition_diagnostics path env catalog resources definition bound node =
     (let dependencies = by_name dd_name (filter (\<lambda>d. dd_kind d = ''resource'') (nf_dependencies definition)) in
      definition_parameter_diagnostics path (ni_parameters node) (nf_parameters definition) bound @
      map (\<lambda>slot. sys_error ''SYS123'' (path @ ''.resources.'' @ slot)
             ''resource slot is not declared by the referenced NodeDefinition'')
        (unknown_keys (map fst (ni_resources node)) (map fst dependencies)) @
      map (\<lambda>slot. sys_error ''SYS124'' (path @ ''.resources.'' @ slot) ''required Resource[T] slot is not bound'')
        (unknown_keys (map fst dependencies) (map fst (ni_resources node))) @
      concat (map (slot_diagnostics path env catalog resources dependencies) (ni_resources node)))"

section \<open>Resources and applications\<close>

definition target_diagnostics :: "system_model \<Rightarrow> string \<Rightarrow> string option \<Rightarrow> system_diagnostic list" where
  "target_diagnostics m path target =
     (case target of
        None \<Rightarrow> []
      | Some t \<Rightarrow> guarded (t \<notin> tt_name ` set (sm_targets m))
                    (sys_error ''SYS011'' (path @ ''.target'') (''unknown Target '' @ repr_str t)))"

definition bound_resource_diagnostics ::
    "system_model \<Rightarrow> string \<Rightarrow> string \<Rightarrow> string \<Rightarrow> strmap \<Rightarrow> system_diagnostic list" where
  "bound_resource_diagnostics m code path field bindings =
     concat (map (\<lambda>(slot, bound).
       guarded (bound \<notin> ri_name ` set (sm_resources m))
         (sys_error code (path @ ''.'' @ field @ ''.'' @ slot) (''unknown ResourceInstance '' @ repr_str bound)))
       bindings)"

definition resource_diagnostics ::
    "system_model \<Rightarrow> definition_catalog option \<Rightarrow> parameter_target list \<Rightarrow> system_diagnostic list" where
  "resource_diagnostics m catalog targets =
     concat (map (\<lambda>(index, r).
       let path = at_index ''resources'' index in
       target_diagnostics m path (ri_target r) @
       bound_resource_diagnostics m ''SYS012'' path ''bindings'' (ri_bindings r) @
       (case catalog of
          None \<Rightarrow> []
        | Some c \<Rightarrow> (case map_of (dc_resources c) (ri_uses r) of
            None \<Rightarrow> [sys_error ''SYS101'' (path @ ''.uses'') (''unknown ResourceDefinition '' @ repr_str (ri_uses r))]
          | Some definition \<Rightarrow>
              definition_parameter_diagnostics path (ri_parameters r) (rf_parameters definition)
                (bound_parameters targets PT_RESOURCE None (ri_name r)))))
       (enumerate 0 (sm_resources m)))"

definition application_diagnostics :: "system_model \<Rightarrow> system_diagnostic list" where
  "application_diagnostics m =
     concat (map (\<lambda>(index, a).
       let path = at_index ''applications'' index in
       target_diagnostics m path (ai_target a) @
       bound_resource_diagnostics m ''SYS013'' path ''resources'' (ai_resources a))
       (enumerate 0 (sm_applications m)))"

section \<open>Graphs\<close>

definition graph_node_map :: "system_graph \<Rightarrow> (string \<times> node_instance) list" where
  "graph_node_map g = by_name ni_name (gp_nodes g)"

definition graph_node_maps :: "system_model \<Rightarrow> (string \<times> (string \<times> node_instance) list) list" where
  "graph_node_maps m = dict_update [] (map (\<lambda>g. (gp_name g, graph_node_map g)) (sm_graphs m))"

definition definition_port :: "node_definition \<Rightarrow> string \<Rightarrow> bool \<Rightarrow> port_definition option" where
  "definition_port d name output = find (\<lambda>p. pf_name p = name) (if output then nf_outputs d else nf_inputs d)"

definition node_diagnostics ::
    "system_model \<Rightarrow> definition_catalog option \<Rightarrow> type_env \<Rightarrow> parameter_target list \<Rightarrow> string \<Rightarrow> string \<Rightarrow>
     nat \<times> node_instance \<Rightarrow> system_diagnostic list" where
  "node_diagnostics m catalog env targets graph graph_path = (\<lambda>(index, n).
     let path = graph_path @ at_index ''.nodes'' index in
     target_diagnostics m path (ni_target n) @
     bound_resource_diagnostics m ''SYS022'' path ''resources'' (ni_resources n) @
     (case catalog of
        None \<Rightarrow> []
      | Some c \<Rightarrow> (case map_of (dc_nodes c) (ni_uses n) of
          None \<Rightarrow> [sys_error ''SYS102'' (path @ ''.uses'') (''unknown NodeDefinition '' @ repr_str (ni_uses n))]
        | Some definition \<Rightarrow>
            node_definition_diagnostics path env c (by_name ri_name (sm_resources m)) definition
              (bound_parameters targets PT_NODE (Some graph) (ni_name n)) n)))"

definition contract_diagnostics ::
    "definition_catalog \<Rightarrow> string \<Rightarrow> graph_connection \<Rightarrow> string \<Rightarrow> string \<Rightarrow> node_definition \<Rightarrow> node_definition \<Rightarrow>
     system_diagnostic list" where
  "contract_diagnostics c path conn source_port target_port source_definition target_definition =
     (case definition_port source_definition source_port True of
        None \<Rightarrow> [sys_error ''SYS131'' (path @ ''.from'') (''NodeDefinition has no output port '' @ repr_str source_port)]
      | Some source_contract \<Rightarrow> (case definition_port target_definition target_port False of
          None \<Rightarrow> [sys_error ''SYS132'' (path @ ''.to'') (''NodeDefinition has no input port '' @ repr_str target_port)]
        | Some target_contract \<Rightarrow>
            guarded (\<not> message_contracts_compatible (Some c) (pf_type_id source_contract) (pf_type_id target_contract))
              (sys_error ''SYS133'' path (''message contract mismatch: '' @ repr_str (pf_type_id source_contract) @
                 '' -> '' @ repr_str (pf_type_id target_contract))) @
            guarded (co_type_id conn \<noteq> None \<and> co_type_id conn \<noteq> Some (pf_type_id source_contract))
              (sys_error ''SYS134'' (path @ ''.type_id'') ''explicit connection type does not match source definition'')))"

definition connection_diagnostics ::
    "definition_catalog option \<Rightarrow> string \<Rightarrow> (string \<times> node_instance) list \<Rightarrow> nat \<times> graph_connection \<Rightarrow>
     system_diagnostic list result" where
  "connection_diagnostics catalog graph_path nodes = (\<lambda>(index, conn).
     let path = graph_path @ at_index ''.connections'' index in
     ebind (split_local_endpoint (co_source conn)) (\<lambda>(source_name, source_port).
     ebind (split_local_endpoint (co_target conn)) (\<lambda>(target_name, target_port).
       let source_node = map_of nodes source_name; target_node = map_of nodes target_name in
       Inr (
         guarded (source_node = None)
           (sys_error ''SYS031'' (path @ ''.from'') (''unknown source NodeInstance '' @ repr_str source_name)) @
         guarded (target_node = None)
           (sys_error ''SYS032'' (path @ ''.to'') (''unknown target NodeInstance '' @ repr_str target_name)) @
         (case (catalog, source_node, target_node) of
            (Some c, Some sn, Some tn) \<Rightarrow>
              (case (map_of (dc_nodes c) (ni_uses sn), map_of (dc_nodes c) (ni_uses tn)) of
                 (Some sd, Some td) \<Rightarrow> contract_diagnostics c path conn source_port target_port sd td
               | _ \<Rightarrow> [])
          | _ \<Rightarrow> [])))))"

definition graph_diagnostics ::
    "system_model \<Rightarrow> definition_catalog option \<Rightarrow> type_env \<Rightarrow> parameter_target list \<Rightarrow> nat \<times> system_graph \<Rightarrow>
     system_diagnostic list result" where
  "graph_diagnostics m catalog env targets = (\<lambda>(index, g).
     let graph_path = at_index ''graphs'' index in
     ebind (emap (connection_diagnostics catalog graph_path (graph_node_map g)) (enumerate 0 (gp_connections g)))
       (\<lambda>connections. Inr (
         map (\<lambda>d. sys_error ''SYS021'' (graph_path @ ''.nodes.'' @ d) ''duplicate NodeInstance name inside Graph'')
           (duplicate_names (map ni_name (gp_nodes g))) @
         concat (map (node_diagnostics m catalog env targets (gp_name g) graph_path) (enumerate 0 (gp_nodes g))) @
         concat connections)))"

section \<open>Targets of parameter bindings\<close>

definition explicit_value_error :: "string \<Rightarrow> system_diagnostic" where
  "explicit_value_error path =
     sys_error ''SYS178'' path (''bound parameter target also has an explicit '' @ ''instance value'')"

text \<open>The tail shared by resources and nodes: the parameter of the referenced definition.\<close>

definition definition_target_diagnostics ::
    "system_model \<Rightarrow> type_env \<Rightarrow> string \<Rightarrow> string \<Rightarrow> string \<Rightarrow> parameter_definition list option \<Rightarrow>
     system_diagnostic list" where
  "definition_target_diagnostics m env path parameter target_parameter definition =
     (case definition of
        None \<Rightarrow> []
      | Some ps \<Rightarrow> (case find (\<lambda>p. qd_name p = target_parameter) ps of
          None \<Rightarrow> [sys_error ''SYS177'' path (''referenced definition has no parameter '' @ repr_str target_parameter)]
        | Some p \<Rightarrow> (case map_of (by_name sp_name (sm_parameters m)) parameter of
            None \<Rightarrow> []
          | Some sp \<Rightarrow> (case parameter_type_compatible env sp (qd_annotation p) of
              Some True \<Rightarrow> []
            | Some False \<Rightarrow> [sys_error ''SYS179'' path
                (''System parameter type '' @ repr_str (type_value (sp_value_type sp)) @ '' is not '' @
                 ''accepted by SDK parameter annotation '' @ te_name env (qd_annotation p))]
            | None \<Rightarrow> [sys_warning ''SYS180'' path
                (''SDK parameter annotation could not be verified '' @
                 ''against the portable System parameter type'')]))))"

definition system_target_diagnostics ::
    "system_model \<Rightarrow> (string \<times> system_model) list \<Rightarrow> string \<Rightarrow> string \<Rightarrow> parameter_target \<Rightarrow>
     system_diagnostic list" where
  "system_target_diagnostics m children path parameter t =
     (case find (\<lambda>i. si_name i = pt_instance t) (sm_systems m) of
        None \<Rightarrow> [sys_error ''SYS075'' path (''unknown SystemInstance '' @ repr_str (pt_instance t))]
      | Some i \<Rightarrow>
          guarded (pt_parameter t \<in> fst ` set (si_parameters i)) (explicit_value_error path) @
          (case map_of children (pt_instance t) of
             None \<Rightarrow> []
           | Some c \<Rightarrow> (case find (\<lambda>p. sp_name p = pt_parameter t) (sm_parameters c) of
               None \<Rightarrow> [sys_error ''SYS177'' path
                   (''child System Definition has no parameter '' @ repr_str (pt_parameter t))]
             | Some cp \<Rightarrow> (case map_of (by_name sp_name (sm_parameters m)) parameter of
                 None \<Rightarrow> []
               | Some sp \<Rightarrow> guarded (\<not> contract_compatible sp cp)
                   (sys_error ''SYS179'' path
                     (''System parameter type '' @ repr_str (type_value (sp_value_type sp)) @ '' is not '' @
                      ''accepted by child System parameter type '' @
                      repr_str (type_value (sp_value_type cp))))))))"

definition parameter_target_diagnostics ::
    "system_model \<Rightarrow> definition_catalog option \<Rightarrow> type_env \<Rightarrow> (string \<times> system_model) list \<Rightarrow> string \<Rightarrow> string \<Rightarrow>
     parameter_target \<Rightarrow> system_diagnostic list" where
  "parameter_target_diagnostics m catalog env children path parameter t =
     (case pt_kind t of
        PT_SYSTEM \<Rightarrow> system_target_diagnostics m children path parameter t
      | PT_APPLICATION \<Rightarrow> (case find (\<lambda>a. ai_name a = pt_instance t) (sm_applications m) of
          None \<Rightarrow> [sys_error ''SYS071'' path (''unknown ApplicationInstance '' @ repr_str (pt_instance t))]
        | Some a \<Rightarrow> guarded (pt_parameter t \<in> fst ` set (ai_parameters a)) (explicit_value_error path))
      | PT_RESOURCE \<Rightarrow> (case map_of (by_name ri_name (sm_resources m)) (pt_instance t) of
          None \<Rightarrow> [sys_error ''SYS072'' path (''unknown ResourceInstance '' @ repr_str (pt_instance t))]
        | Some r \<Rightarrow>
            guarded (pt_parameter t \<in> fst ` set (ri_parameters r)) (explicit_value_error path) @
            definition_target_diagnostics m env path parameter (pt_parameter t)
              (Option.bind catalog (\<lambda>c. map_option rf_parameters (map_of (dc_resources c) (ri_uses r)))))
      | PT_NODE \<Rightarrow>
          (case Option.bind (pt_scope t) (\<lambda>g. if g \<in> gp_name ` set (sm_graphs m) then Some g else None) of
             None \<Rightarrow> [sys_error ''SYS073'' path (''unknown Graph '' @ repr_opt (pt_scope t))]
           | Some g \<Rightarrow> (case Option.bind (map_of (graph_node_maps m) g) (\<lambda>ns. map_of ns (pt_instance t)) of
               None \<Rightarrow> [sys_error ''SYS074'' path
                   (''unknown NodeInstance '' @ repr_str (pt_instance t) @ '' '' @ ''in Graph '' @ repr_str g)]
             | Some n \<Rightarrow>
                 guarded (pt_parameter t \<in> fst ` set (ni_parameters n)) (explicit_value_error path) @
                 definition_target_diagnostics m env path parameter (pt_parameter t)
                   (Option.bind catalog (\<lambda>c. map_option nf_parameters (map_of (dc_nodes c) (ni_uses n)))))))"

definition binding_row_diagnostics ::
    "system_model \<Rightarrow> definition_catalog option \<Rightarrow> type_env \<Rightarrow> (string \<times> system_model) list \<Rightarrow>
     nat \<times> parameter_binding \<Rightarrow> system_diagnostic list list result" where
  "binding_row_diagnostics m catalog env children = (\<lambda>(i, b).
     emap (\<lambda>(j, raw).
       ebind (parse_system_parameter_target raw) (\<lambda>t.
         Inr (parameter_target_diagnostics m catalog env children
           (at_index ''bindings.parameters'' i @ at_index ''.targets'' j) (xb_parameter b) t)))
       (enumerate 0 (xb_targets b)))"

definition binding_target_diagnostics ::
    "system_model \<Rightarrow> definition_catalog option \<Rightarrow> type_env \<Rightarrow> (string \<times> system_model) list \<Rightarrow>
     system_diagnostic list result" where
  "binding_target_diagnostics m catalog env children =
     ebind (emap (binding_row_diagnostics m catalog env children) (enumerate 0 (bo_parameters (sm_bindings m))))
       (\<lambda>dss. Inr (concat (concat dss)))"

section \<open>System endpoints\<close>

datatype endpoint_direction = SOURCE | TARGET

text \<open>The result of \<open>resolve_system_endpoint\<close>; the kind "invalid" is \<open>None\<close>.\<close>

record resolved_endpoint =
  re_kind :: "system_endpoint_kind option"
  re_type :: "string option"
  re_diagnostics :: "system_diagnostic list"

definition invalid_endpoint :: "system_diagnostic \<Rightarrow> resolved_endpoint" where
  "invalid_endpoint d = \<lparr>re_kind = None, re_type = None, re_diagnostics = [d]\<rparr>"

definition direction_noun :: "endpoint_direction \<Rightarrow> string" where
  "direction_noun dir = (case dir of SOURCE \<Rightarrow> ''output'' | TARGET \<Rightarrow> ''input'')"

definition resolve_child_endpoint ::
    "system_model \<Rightarrow> (string \<times> system_model) list \<Rightarrow> string \<Rightarrow> endpoint_direction \<Rightarrow> string \<Rightarrow>
     system_endpoint \<Rightarrow> resolved_endpoint" where
  "resolve_child_endpoint m children path dir code e =
     (if ep_instance e \<notin> si_name ` set (sm_systems m)
      then invalid_endpoint (sys_error ''SYS044'' path (''unknown child SystemInstance '' @ repr_str (ep_instance e)))
      else case map_of children (ep_instance e) of
        None \<Rightarrow> \<lparr>re_kind = Some SYSTEM, re_type = None, re_diagnostics = []\<rparr>
      | Some c \<Rightarrow>
         (case find (\<lambda>p. prt_name p = ep_port e) (case dir of SOURCE \<Rightarrow> sm_outputs c | TARGET \<Rightarrow> sm_inputs c) of
            None \<Rightarrow> \<lparr>re_kind = Some SYSTEM, re_type = None, re_diagnostics =
                [sys_error code path (''child System Definition '' @ repr_str (sm_name c) @ '' has no '' @
                   direction_noun dir @ '' port '' @ repr_str (ep_port e))]\<rparr>
          | Some p \<Rightarrow> \<lparr>re_kind = Some SYSTEM, re_type = Some (prt_type_id p), re_diagnostics = []\<rparr>))"

definition resolve_graph_endpoint ::
    "system_model \<Rightarrow> definition_catalog option \<Rightarrow> string \<Rightarrow> endpoint_direction \<Rightarrow> string \<Rightarrow>
     string \<Rightarrow> system_endpoint \<Rightarrow> resolved_endpoint" where
  "resolve_graph_endpoint m catalog path dir code g e =
     (if g \<notin> gp_name ` set (sm_graphs m)
      then invalid_endpoint (sys_error ''SYS042'' path (''unknown Graph '' @ repr_str g))
      else case Option.bind (map_of (graph_node_maps m) g) (\<lambda>ns. map_of ns (ep_instance e)) of
        None \<Rightarrow> invalid_endpoint (sys_error ''SYS043'' path
            (''unknown NodeInstance '' @ repr_str (ep_instance e) @ '' in Graph '' @ repr_str g))
      | Some n \<Rightarrow> (case Option.bind catalog (\<lambda>c. map_of (dc_nodes c) (ni_uses n)) of
          None \<Rightarrow> \<lparr>re_kind = Some GRAPH, re_type = None, re_diagnostics = []\<rparr>
        | Some d \<Rightarrow> (case definition_port d (ep_port e) (dir = SOURCE) of
            None \<Rightarrow> \<lparr>re_kind = Some GRAPH, re_type = None, re_diagnostics =
                [sys_error code path (''NodeDefinition '' @ repr_str (ni_uses n) @ '' has no '' @
                   direction_noun dir @ '' port '' @ repr_str (ep_port e))]\<rparr>
          | Some p \<Rightarrow> \<lparr>re_kind = Some GRAPH, re_type = Some (pf_type_id p), re_diagnostics = []\<rparr>)))"

definition resolve_system_endpoint ::
    "system_model \<Rightarrow> definition_catalog option \<Rightarrow> (string \<times> system_model) list \<Rightarrow> string \<Rightarrow> string \<Rightarrow>
     endpoint_direction \<Rightarrow> string \<Rightarrow> resolved_endpoint result" where
  "resolve_system_endpoint m catalog children path raw dir code =
     ebind (parse_system_endpoint raw) (\<lambda>e.
       case ep_kind e of
         APPLICATION \<Rightarrow> Inr (
           if ep_instance e \<notin> ai_name ` set (sm_applications m)
           then invalid_endpoint (sys_error ''SYS041'' path (''unknown ApplicationInstance '' @ repr_str (ep_instance e)))
           else \<lparr>re_kind = Some APPLICATION, re_type = None, re_diagnostics = []\<rparr>)
       | SYSTEM \<Rightarrow> Inr (resolve_child_endpoint m children path dir code e)
       | GRAPH \<Rightarrow> (case ep_scope e of
           None \<Rightarrow> Inl (NamedErr ''AssertionError'' [])
         | Some g \<Rightarrow> Inr (resolve_graph_endpoint m catalog path dir code g e)))"

section \<open>Boundary bindings, links and artifacts\<close>

definition input_binding_diagnostics ::
    "system_model \<Rightarrow> definition_catalog option \<Rightarrow> (string \<times> system_model) list \<Rightarrow> nat \<times> port_binding \<Rightarrow>
     system_diagnostic list result" where
  "input_binding_diagnostics m catalog children = (\<lambda>(index, b).
     let path = at_index ''bindings.inputs'' index in
     ebind (resolve_system_endpoint m catalog children (path @ ''.endpoint'') (ib_endpoint b) TARGET ''SYS151'') (\<lambda>r.
     Inr (
       guarded (ib_port b \<in> set (map ib_port (take index (bo_inputs (sm_bindings m)))))
         (sys_error ''SYS051'' (path @ ''.port'') (''duplicate binding for System input '' @ repr_str (ib_port b))) @
       guarded (ib_port b \<notin> prt_name ` set (sm_inputs m))
         (sys_error ''SYS053'' (path @ ''.port'') (''unknown System input port '' @ repr_str (ib_port b))) @
       re_diagnostics r @
       (case map_of (by_name prt_name (sm_inputs m)) (ib_port b) of
          None \<Rightarrow> []
        | Some p \<Rightarrow>
            if re_type r \<noteq> None \<and> \<not> message_contracts_compatible catalog (prt_type_id p) (the (re_type r))
            then [sys_error ''SYS153'' path
                    (''System input contract is not accepted by the '' @ ''bound internal input: '' @
                     repr_str (prt_type_id p) @ '' -> '' @ repr_opt (re_type r))]
            else guarded (re_kind r = Some APPLICATION)
                   (sys_warning ''SYS155'' (path @ ''.endpoint'')
                     (''System input is bound to an ApplicationInstance '' @
                      ''whose input contract is not first-class yet; '' @
                      ''type compatibility cannot be verified''))))))"

definition output_binding_diagnostics ::
    "system_model \<Rightarrow> definition_catalog option \<Rightarrow> (string \<times> system_model) list \<Rightarrow> nat \<times> port_binding \<Rightarrow>
     system_diagnostic list result" where
  "output_binding_diagnostics m catalog children = (\<lambda>(index, b).
     let path = at_index ''bindings.outputs'' index in
     ebind (resolve_system_endpoint m catalog children (path @ ''.endpoint'') (ib_endpoint b) SOURCE ''SYS152'') (\<lambda>r.
     Inr (
       guarded (ib_port b \<in> set (map ib_port (take index (bo_outputs (sm_bindings m)))))
         (sys_error ''SYS052'' (path @ ''.port'') (''duplicate binding for System output '' @ repr_str (ib_port b))) @
       guarded (ib_port b \<notin> prt_name ` set (sm_outputs m))
         (sys_error ''SYS054'' (path @ ''.port'') (''unknown System output port '' @ repr_str (ib_port b))) @
       re_diagnostics r @
       (case map_of (by_name prt_name (sm_outputs m)) (ib_port b) of
          None \<Rightarrow> []
        | Some p \<Rightarrow>
            if re_type r \<noteq> None \<and> \<not> message_contracts_compatible catalog (the (re_type r)) (prt_type_id p)
            then [sys_error ''SYS154'' path
                    (''bound internal output is not compatible with the '' @ ''System output contract: '' @
                     repr_opt (re_type r) @ '' -> '' @ repr_str (prt_type_id p))]
            else guarded (re_kind r = Some APPLICATION)
                   (sys_warning ''SYS156'' (path @ ''.endpoint'')
                     (''System output is bound to an ApplicationInstance '' @
                      ''whose output contract is not first-class yet; '' @
                      ''type compatibility cannot be verified''))))))"

definition resource_binding_diagnostics :: "system_model \<Rightarrow> system_diagnostic list" where
  "resource_binding_diagnostics m =
     concat (map (\<lambda>(index, b).
       let path = at_index ''bindings.resources'' index;
           requirement = map_of (by_name rr_name (sm_resource_requirements m)) (yb_resource b);
           resource = map_of (by_name ri_name (sm_resources m)) (yb_instance b) in
       guarded (yb_resource b \<in> set (map yb_resource (take index (bo_resources (sm_bindings m)))))
         (sys_error ''SYS055'' (path @ ''.resource'')
            (''duplicate binding for System resource requirement '' @ repr_str (yb_resource b))) @
       guarded (requirement = None)
         (sys_error ''SYS056'' (path @ ''.resource'')
            (''unknown System resource requirement '' @ repr_str (yb_resource b))) @
       (case resource of
          None \<Rightarrow> [sys_error ''SYS057'' (path @ ''.instance'')
                      (''unknown internal ResourceInstance '' @ repr_str (yb_instance b))]
        | Some r \<Rightarrow> (case requirement of
            None \<Rightarrow> []
          | Some q \<Rightarrow> guarded (ri_uses r \<noteq> rr_uses q)
              (sys_error ''SYS157'' path
                 (''internal ResourceInstance has incompatible definition '' @ repr_str (ri_uses r) @
                  ''; expected '' @ repr_str (rr_uses q))))))
       (enumerate 0 (bo_resources (sm_bindings m))))"

definition link_type_diagnostics ::
    "definition_catalog option \<Rightarrow> string \<Rightarrow> system_link \<Rightarrow> resolved_endpoint \<Rightarrow> resolved_endpoint \<Rightarrow>
     system_diagnostic list" where
  "link_type_diagnostics catalog path l source target =
     guarded (re_type source \<noteq> None \<and> re_type target \<noteq> None \<and>
              \<not> message_contracts_compatible catalog (the (re_type source)) (the (re_type target)))
       (sys_error ''SYS143'' path (''system link message contract mismatch: '' @ repr_opt (re_type source) @
          '' -> '' @ repr_opt (re_type target))) @
     (case lk_type_id l of
        Some t \<Rightarrow>
          guarded (re_type source \<noteq> None \<and> re_type source \<noteq> Some t)
            (sys_error ''SYS144'' (path @ ''.type_id'')
               (''explicit SystemLink type does not match the source output: '' @ repr_str t @ '' != '' @
                repr_opt (re_type source))) @
          guarded (re_type target \<noteq> None \<and> \<not> message_contracts_compatible catalog t (the (re_type target)))
            (sys_error ''SYS146'' (path @ ''.type_id'')
               (''explicit SystemLink type is not accepted by the target input: '' @ repr_str t @ '' -> '' @
                repr_opt (re_type target)))
      | None \<Rightarrow>
          guarded (Some APPLICATION \<in> {re_kind source, re_kind target})
            (sys_warning ''SYS145'' path
               (''application boundary has no explicit type_id; graph-side ports '' @
                ''are validated, but the application contract cannot be checked '' @
                ''until application definitions become first-class'')))"

definition link_diagnostics ::
    "system_model \<Rightarrow> definition_catalog option \<Rightarrow> (string \<times> system_model) list \<Rightarrow> nat \<times> system_link \<Rightarrow>
     system_diagnostic list result" where
  "link_diagnostics m catalog children = (\<lambda>(index, l).
     let path = at_index ''links'' index in
     ebind (resolve_system_endpoint m catalog children (path @ ''.from'') (lk_source l) SOURCE ''SYS141'') (\<lambda>source.
     ebind (resolve_system_endpoint m catalog children (path @ ''.to'') (lk_target l) TARGET ''SYS142'') (\<lambda>target.
     Inr (re_diagnostics source @ re_diagnostics target @ link_type_diagnostics catalog path l source target))))"

definition artifact_diagnostics ::
    "system_model \<Rightarrow> definition_catalog option \<Rightarrow> (string \<times> system_model) list \<Rightarrow> nat \<times> artifact_instance \<Rightarrow>
     system_diagnostic list result" where
  "artifact_diagnostics m catalog children = (\<lambda>(index, a).
     case ar_producer a of
       None \<Rightarrow> Inr []
     | Some producer \<Rightarrow>
         let path = at_index ''artifacts'' index @ ''.producer'' in
         ebind (resolve_system_endpoint m catalog children path producer SOURCE ''SYS161'') (\<lambda>r.
         Inr (re_diagnostics r @
           guarded (re_kind r = Some APPLICATION)
             (sys_warning ''SYS162'' path
                (''artifact is produced by an ApplicationInstance whose output '' @
                 ''contract is not yet represented by a first-class definition'')))))"

section \<open>The validation\<close>

definition validate_system ::
    "type_env \<Rightarrow> definition_catalog option \<Rightarrow> resolver option \<Rightarrow> system_model \<Rightarrow> system_diagnostic list result" where
  "validate_system env catalog resolver m =
     ebind (parameter_targets m) (\<lambda>targets.
     ebind (emap (child_diagnostics m resolver targets) (enumerate 0 (sm_systems m))) (\<lambda>kids.
     ebind (emap parse_system_endpoint (map ib_endpoint (bo_inputs (sm_bindings m)))) (\<lambda>delegated.
     ebind (emap parse_system_endpoint (map lk_target (sm_links m))) (\<lambda>linked.
       let children = dict_update [] (concat (map snd kids)) in
     ebind (emap (graph_diagnostics m catalog env targets) (enumerate 0 (sm_graphs m))) (\<lambda>graphs.
     ebind (binding_target_diagnostics m catalog env children) (\<lambda>target_ds.
     ebind (emap (input_binding_diagnostics m catalog children) (enumerate 0 (bo_inputs (sm_bindings m)))) (\<lambda>inputs.
     ebind (emap (output_binding_diagnostics m catalog children) (enumerate 0 (bo_outputs (sm_bindings m)))) (\<lambda>outputs.
     ebind (emap (link_diagnostics m catalog children) (enumerate 0 (sm_links m))) (\<lambda>links.
     ebind (emap (artifact_diagnostics m catalog children) (enumerate 0 (sm_artifacts m))) (\<lambda>artifacts.
     Inr (
       name_diagnostics m @ parameter_binding_diagnostics m @ concat (map fst kids) @
       child_input_diagnostics m children (system_ports (delegated @ linked)) @
       dependency_diagnostics m @ resource_diagnostics m catalog targets @ application_diagnostics m @
       concat graphs @ target_ds @ concat inputs @ concat outputs @ resource_binding_diagnostics m @
       concat links @ concat artifacts)))))))))))"

end
