(* ===== verification/Validation_Sound.thy ===== *)
theory Validation_Sound
  imports Validation
begin

text \<open>
  What a System that validates guarantees. \<open>well_linked\<close> states the structure a System must
  have without any mention of diagnostics: names are unique, every reference resolves. A
  report without errors implies it, and when no catalog and no resolver is supplied the two
  are equivalent.
\<close>

section \<open>Sections without errors\<close>

definition no_error :: "system_diagnostic list \<Rightarrow> bool" where
  "no_error ds = list_all (\<lambda>d. \<not> dg_error d) ds"

named_theorems no_error_simps \<open>when a section has no error\<close>

lemma system_report_valid_no_error: "system_report_valid ds \<longleftrightarrow> no_error ds"
  by (auto simp: system_report_valid_def report_errors_of_def no_error_def filter_empty_conv list_all_iff)

lemma no_error_basic [simp]:
  "no_error []" "no_error (a @ b) \<longleftrightarrow> no_error a \<and> no_error b"
  "no_error (d # ds) \<longleftrightarrow> \<not> dg_error d \<and> no_error ds"
  by (simp_all add: no_error_def)

lemma no_error_concat [simp]: "no_error (concat dss) \<longleftrightarrow> list_all no_error dss"
  by (induction dss) simp_all

lemma dg_error_simps [simp]: "dg_error (sys_error c p m)" "\<not> dg_error (sys_warning c p m)"
  by (simp_all add: sys_error_def sys_warning_def)

lemma no_error_guarded [simp]:
  "no_error (guarded b (sys_error c p m)) \<longleftrightarrow> \<not> b" "no_error (guarded b (sys_warning c p m))"
  by (simp_all add: guarded_def)

lemma no_error_map_error [simp]: "no_error (map (\<lambda>x. sys_error (c x) (p x) (m x)) xs) \<longleftrightarrow> xs = []"
  by (cases xs) simp_all

lemma list_all_enumerate: "list_all P (enumerate 0 xs) \<longleftrightarrow> (\<forall>i < length xs. P (i, xs ! i))"
  by (auto simp: list_all_length nth_enumerate_eq)

lemma list_all_enumerate_snd: "list_all (\<lambda>(i, x). P x) (enumerate 0 xs) \<longleftrightarrow> list_all P xs"
  by (auto simp: list_all_length nth_enumerate_eq)

lemma sort_eq_Nil [simp]: "sort xs = [] \<longleftrightarrow> xs = []"
  by (metis length_0_conv length_sort)

lemma distinct_count_list: "distinct ns \<longleftrightarrow> (\<forall>n \<in> set ns. \<not> 1 < count_list ns n)"
proof (induction ns)
  case (Cons x ns)
  show ?case
  proof (cases "x \<in> set ns")
    case True
    then have "0 < count_list ns x" by (metis count_list_0_iff gr0I)
    with True show ?thesis by auto
  next
    case False
    then have "count_list ns x = 0" by (simp add: count_list_0_iff)
    with False Cons show ?thesis by auto
  qed
qed simp

lemma duplicate_names_Nil: "duplicate_names ns = [] \<longleftrightarrow> distinct ns"
  unfolding duplicate_names_def distinct_count_list by (auto simp: filter_empty_conv)

lemma unknown_keys_Nil: "unknown_keys vs known = [] \<longleftrightarrow> set vs \<subseteq> set known"
  by (auto simp: unknown_keys_def filter_empty_conv)

text \<open>\<open>x in seen\<close>, where \<open>seen\<close> holds the earlier elements.\<close>

lemma distinct_prefix: "(\<forall>i < length xs. xs ! i \<notin> set (take i xs)) \<longleftrightarrow> distinct xs"
proof (induction xs rule: rev_induct)
  case (snoc x xs)
  have "(\<forall>i < length (xs @ [x]). (xs @ [x]) ! i \<notin> set (take i (xs @ [x]))) \<longleftrightarrow>
      (\<forall>i < length xs. xs ! i \<notin> set (take i xs)) \<and> x \<notin> set xs"
    by (auto simp: nth_append less_Suc_eq)
  with snoc show ?case by auto
qed simp

lemma distinct_prefix_map:
  "(\<forall>i < length xs. f (xs ! i) \<notin> set (map f (take i xs))) \<longleftrightarrow> distinct (map f xs)"
  using distinct_prefix [of "map f xs"] by (simp add: take_map)

lemma distinct_prefix_concat:
  "(\<forall>i < length xs. \<forall>j < length (f (xs ! i)).
      f (xs ! i) ! j \<notin> set (concat (map f (take i xs))) \<and> f (xs ! i) ! j \<notin> set (take j (f (xs ! i))))
   \<longleftrightarrow> distinct (concat (map f xs))"
proof (induction xs rule: rev_induct)
  case (snoc x xs)
  let ?P = "\<lambda>xs i. \<forall>j < length (f (xs ! i)).
      f (xs ! i) ! j \<notin> set (concat (map f (take i xs))) \<and> f (xs ! i) ! j \<notin> set (take j (f (xs ! i)))"
  have "(\<forall>i < length (xs @ [x]). ?P (xs @ [x]) i) \<longleftrightarrow> (\<forall>i < length xs. ?P xs i) \<and> ?P (xs @ [x]) (length xs)"
    by (auto simp: nth_append less_Suc_eq)
  moreover have "?P (xs @ [x]) (length xs) \<longleftrightarrow> set (f x) \<inter> set (concat (map f xs)) = {} \<and> distinct (f x)"
    using distinct_prefix [of "f x"] by (auto simp: set_conv_nth [of "f x"])
  ultimately show ?case using snoc by auto
qed simp

lemma dict_update_dom: "fst ` set (dict_update a b) = fst ` set a \<union> fst ` set b"
proof (induction b arbitrary: a)
  case (Cons kv b)
  obtain k v where kv: "kv = (k, v)" by (cases kv)
  have "dict_update a (kv # b) = dict_update (AList.update k v a) b" by (simp add: dict_update_def kv)
  with Cons [of "AList.update k v a"] show ?case by (simp add: dom_update kv)
qed (simp add: dict_update_def)

lemma by_name_dom: "fst ` set (by_name f xs) = f ` set xs"
  by (force simp: by_name_def dict_update_dom)

lemma by_name_None: "map_of (by_name f xs) k = None \<longleftrightarrow> k \<notin> f ` set xs"
  by (simp add: map_of_eq_None_iff by_name_dom)

lemma dict_update_subset: "set (dict_update a b) \<subseteq> set a \<union> set b"
proof (induction b arbitrary: a)
  case (Cons kv b)
  obtain k v where kv: "kv = (k, v)" by (cases kv)
  have "set (AList.update k v a) \<subseteq> insert (k, v) (set a)"
    by (induction a) auto
  with Cons [of "AList.update k v a"] show ?case by (auto simp: dict_update_def kv)
qed (simp add: dict_update_def)

lemma by_name_Some: "map_of (by_name f xs) k = Some x \<Longrightarrow> x \<in> set xs \<and> f x = k"
  using dict_update_subset [of "[]" "map (\<lambda>x. (f x, x)) xs"]
  by (auto simp: by_name_def dest!: map_of_SomeD)

text \<open>With unique names the dictionary holds each item under its name.\<close>

lemma by_name_distinct:
  assumes "distinct (map f xs)"
  shows "map_of (by_name f xs) (f x) = Some x \<longleftrightarrow> x \<in> set xs"
proof -
  have "map_of (by_name f xs) = map_of (map (\<lambda>x. (f x, x)) xs)"
    using assms by (simp add: by_name_def map_of_dict_update comp_def)
  moreover have "map_of (map (\<lambda>x. (f x, x)) xs) (f x) = Some x \<longleftrightarrow> x \<in> set xs"
    using assms by (auto simp: map_of_eq_Some_iff comp_def dest: map_of_SomeD)
  ultimately show ?thesis by simp
qed

text \<open>Looking up a node by graph and name.\<close>

lemma graph_node_maps_Some:
  assumes "map_of (graph_node_maps m) g = Some ns"
  shows "\<exists>gr \<in> set (sm_graphs m). gp_name gr = g \<and> ns = graph_node_map gr"
  using dict_update_subset [of "[]" "map (\<lambda>g. (gp_name g, graph_node_map g)) (sm_graphs m)"] map_of_SomeD [OF assms]
  by (auto simp: graph_node_maps_def)

lemma graph_node_maps_distinct:
  assumes "distinct (map gp_name (sm_graphs m))" and "g \<in> set (sm_graphs m)"
  shows "map_of (graph_node_maps m) (gp_name g) = Some (graph_node_map g)"
proof -
  have "map_of (graph_node_maps m) = map_of (map (\<lambda>g. (gp_name g, graph_node_map g)) (sm_graphs m))"
    using assms(1) by (simp add: graph_node_maps_def map_of_dict_update comp_def)
  with assms show ?thesis by (auto simp: map_of_eq_Some_iff comp_def)
qed

definition node_named :: "system_model \<Rightarrow> string option \<Rightarrow> string \<Rightarrow> node_instance option" where
  "node_named m scope name = Option.bind (Option.bind scope (map_of (graph_node_maps m))) (\<lambda>ns. map_of ns name)"

lemma node_named_Some:
  "node_named m scope name = Some n \<Longrightarrow>
     \<exists>g \<in> set (sm_graphs m). scope = Some (gp_name g) \<and> n \<in> set (gp_nodes g) \<and> ni_name n = name"
  by (auto simp: node_named_def bind_eq_Some_conv graph_node_map_def
           dest!: graph_node_maps_Some by_name_Some)

lemma node_named_total:
  assumes "distinct (map gp_name (sm_graphs m))" and "g \<in> set (sm_graphs m)" and "name \<in> ni_name ` set (gp_nodes g)"
  shows "node_named m (Some (gp_name g)) name \<noteq> None"
  using assms by (simp add: node_named_def graph_node_maps_distinct graph_node_map_def by_name_None)

section \<open>Well-linked Systems\<close>

text \<open>An endpoint text denotes an Application, a child System or a node that the System declares.\<close>

definition endpoint_declared :: "system_model \<Rightarrow> system_endpoint \<Rightarrow> bool" where
  "endpoint_declared m e =
     (case ep_kind e of
        APPLICATION \<Rightarrow> ep_instance e \<in> ai_name ` set (sm_applications m)
      | SYSTEM \<Rightarrow> ep_instance e \<in> si_name ` set (sm_systems m)
      | GRAPH \<Rightarrow> list_ex (\<lambda>g. ep_scope e = Some (gp_name g) \<and> ep_instance e \<in> ni_name ` set (gp_nodes g)) (sm_graphs m))"

definition endpoint_ok :: "system_model \<Rightarrow> string \<Rightarrow> bool" where
  "endpoint_ok m raw = (case parse_system_endpoint raw of Inl _ \<Rightarrow> False | Inr e \<Rightarrow> endpoint_declared m e)"

definition connection_ok :: "system_graph \<Rightarrow> graph_connection \<Rightarrow> bool" where
  "connection_ok g c =
     (case (split_local_endpoint (co_source c), split_local_endpoint (co_target c)) of
        (Inr (a, _), Inr (b, _)) \<Rightarrow> a \<in> ni_name ` set (gp_nodes g) \<and> b \<in> ni_name ` set (gp_nodes g)
      | _ \<Rightarrow> False)"

definition target_ok :: "system_model \<Rightarrow> string option \<Rightarrow> bool" where
  "target_ok m t = (case t of None \<Rightarrow> True | Some n \<Rightarrow> n \<in> tt_name ` set (sm_targets m))"

definition resources_ok :: "system_model \<Rightarrow> strmap \<Rightarrow> bool" where
  "resources_ok m bs = (snd ` set bs \<subseteq> ri_name ` set (sm_resources m))"

definition parameter_target_ok :: "system_model \<Rightarrow> string \<Rightarrow> bool" where
  "parameter_target_ok m raw =
     (case parse_system_parameter_target raw of
        Inl _ \<Rightarrow> False
      | Inr t \<Rightarrow> (case pt_kind t of
          PT_SYSTEM \<Rightarrow> (case find (\<lambda>i. si_name i = pt_instance t) (sm_systems m) of
              None \<Rightarrow> False | Some i \<Rightarrow> pt_parameter t \<notin> fst ` set (si_parameters i))
        | PT_APPLICATION \<Rightarrow> (case find (\<lambda>a. ai_name a = pt_instance t) (sm_applications m) of
              None \<Rightarrow> False | Some a \<Rightarrow> pt_parameter t \<notin> fst ` set (ai_parameters a))
        | PT_RESOURCE \<Rightarrow> (case map_of (by_name ri_name (sm_resources m)) (pt_instance t) of
              None \<Rightarrow> False | Some r \<Rightarrow> pt_parameter t \<notin> fst ` set (ri_parameters r))
        | PT_NODE \<Rightarrow> (case node_named m (pt_scope t) (pt_instance t) of
              None \<Rightarrow> False | Some n \<Rightarrow> pt_parameter t \<notin> fst ` set (ni_parameters n))))"

definition names_ok :: "system_model \<Rightarrow> bool" where
  "names_ok m =
     (distinct (map prt_name (sm_inputs m)) \<and> distinct (map prt_name (sm_outputs m)) \<and>
      distinct (map sp_name (sm_parameters m)) \<and> distinct (map rr_name (sm_resource_requirements m)) \<and>
      distinct (map si_name (sm_systems m)) \<and> distinct (map ri_name (sm_resources m)) \<and>
      distinct (map ai_name (sm_applications m)) \<and> distinct (map gp_name (sm_graphs m)) \<and>
      distinct (map tt_name (sm_targets m)) \<and> distinct (map ar_name (sm_artifacts m)) \<and>
      list_all (\<lambda>g. distinct (map ni_name (gp_nodes g))) (sm_graphs m))"

definition resource_binding_ok :: "system_model \<Rightarrow> resource_binding \<Rightarrow> bool" where
  "resource_binding_ok m p =
     (case (map_of (by_name rr_name (sm_resource_requirements m)) (yb_resource p),
            map_of (by_name ri_name (sm_resources m)) (yb_instance p)) of
        (Some q, Some r) \<Rightarrow> ri_uses r = rr_uses q | _ \<Rightarrow> False)"

definition bindings_ok :: "system_model \<Rightarrow> bool" where
  "bindings_ok m = (let b = sm_bindings m in
      distinct (map ib_port (bo_inputs b)) \<and> distinct (map ib_port (bo_outputs b)) \<and>
      distinct (map xb_parameter (bo_parameters b)) \<and> distinct (map yb_resource (bo_resources b)) \<and>
      distinct (concat (map xb_targets (bo_parameters b))) \<and>
      list_all (\<lambda>p. ib_port p \<in> prt_name ` set (sm_inputs m) \<and> endpoint_ok m (ib_endpoint p)) (bo_inputs b) \<and>
      list_all (\<lambda>p. ib_port p \<in> prt_name ` set (sm_outputs m) \<and> endpoint_ok m (ib_endpoint p)) (bo_outputs b) \<and>
      list_all (\<lambda>p. xb_parameter p \<in> sp_name ` set (sm_parameters m) \<and> list_all (parameter_target_ok m) (xb_targets p))
        (bo_parameters b) \<and>
      list_all (resource_binding_ok m) (bo_resources b))"

definition dependencies_ok :: "system_model \<Rightarrow> bool" where
  "dependencies_ok m =
     (distinct (map dependency_edge (sm_dependencies m)) \<and>
      list_all (\<lambda>d. de_system d \<in> si_name ` set (sm_systems m) \<and> de_requires d \<in> si_name ` set (sm_systems m) \<and>
                    de_system d \<noteq> de_requires d) (sm_dependencies m))"

definition producer_ok :: "system_model \<Rightarrow> artifact_instance \<Rightarrow> bool" where
  "producer_ok m a = (case ar_producer a of None \<Rightarrow> True | Some p \<Rightarrow> endpoint_ok m p)"

definition well_linked :: "system_model \<Rightarrow> bool" where
  "well_linked m =
     (names_ok m \<and> bindings_ok m \<and> dependencies_ok m \<and>
      list_all (\<lambda>i. resources_ok m (si_resources i)) (sm_systems m) \<and>
      list_all (\<lambda>r. target_ok m (ri_target r) \<and> resources_ok m (ri_bindings r)) (sm_resources m) \<and>
      list_all (\<lambda>a. target_ok m (ai_target a) \<and> resources_ok m (ai_resources a)) (sm_applications m) \<and>
      list_all (\<lambda>g. list_all (\<lambda>n. target_ok m (ni_target n) \<and> resources_ok m (ni_resources n)) (gp_nodes g) \<and>
                    list_all (connection_ok g) (gp_connections g)) (sm_graphs m) \<and>
      list_all (\<lambda>l. endpoint_ok m (lk_source l) \<and> endpoint_ok m (lk_target l)) (sm_links m) \<and>
      list_all (producer_ok m) (sm_artifacts m))"

section \<open>Each section\<close>

lemma no_error_enum [simp]:
  "no_error (concat (map (\<lambda>(i, x). F i x) (enumerate 0 xs))) \<longleftrightarrow> (\<forall>i < length xs. no_error (F i (xs ! i)))"
  by (simp add: list_all_length nth_enumerate_eq)

lemma emap_enumerate:
  assumes "emap f (enumerate 0 xs) = Inr ys"
  shows "length ys = length xs" and "i < length xs \<Longrightarrow> f (i, xs ! i) = Inr (ys ! i)"
proof -
  have *: "list_all2 (\<lambda>p y. f p = Inr y) (enumerate 0 xs) ys" using assms by (simp add: emap_Inr_list_all2)
  from list_all2_lengthD [OF *] show len: "length ys = length xs" by simp
  show "i < length xs \<Longrightarrow> f (i, xs ! i) = Inr (ys ! i)"
    using list_all2_nthD [OF *, of i] by (simp add: nth_enumerate_eq)
qed

text \<open>A list of sections is free of errors when a condition holds of each element.\<close>

lemma emap_no_error:
  assumes "emap f (enumerate 0 xs) = Inr dss"
    and "\<And>i ds. i < length xs \<Longrightarrow> f (i, xs ! i) = Inr ds \<Longrightarrow> no_error ds \<Longrightarrow> P i (xs ! i)"
    and "no_error (concat dss)"
  shows "\<forall>i < length xs. P i (xs ! i)"
  using assms(2,3) emap_enumerate [OF assms(1)] by (simp add: list_all_length)

lemma emap_no_error_rev:
  assumes "emap f (enumerate 0 xs) = Inr dss"
    and "\<And>i ds. i < length xs \<Longrightarrow> f (i, xs ! i) = Inr ds \<Longrightarrow> P i (xs ! i) \<Longrightarrow> no_error ds"
    and "\<forall>i < length xs. P i (xs ! i)"
  shows "no_error (concat dss)"
  using assms(2,3) emap_enumerate [OF assms(1)] by (simp add: list_all_length)

lemma category_no_error: "no_error (category_diagnostics c ns) \<longleftrightarrow> distinct ns"
  by (simp add: category_diagnostics_def duplicate_names_Nil)

lemma names_no_error:
  "no_error (name_diagnostics m) \<and> list_all (\<lambda>g. distinct (map ni_name (gp_nodes g))) (sm_graphs m) \<longleftrightarrow> names_ok m"
  by (auto simp: name_diagnostics_def category_no_error names_ok_def)

lemma all_nth_set: "(\<forall>i < length xs. P (xs ! i)) \<longleftrightarrow> (\<forall>x \<in> set xs. P x)"
  by (metis in_set_conv_nth)

lemma parameter_binding_no_error:
  "no_error (parameter_binding_diagnostics m) \<longleftrightarrow>
     distinct (map xb_parameter (bo_parameters (sm_bindings m))) \<and>
     distinct (concat (map xb_targets (bo_parameters (sm_bindings m)))) \<and>
     list_all (\<lambda>p. xb_parameter p \<in> sp_name ` set (sm_parameters m)) (bo_parameters (sm_bindings m))"
proof -
  let ?bs = "bo_parameters (sm_bindings m)"
  have "no_error (parameter_binding_diagnostics m) \<longleftrightarrow>
     (\<forall>i < length ?bs. xb_parameter (?bs ! i) \<notin> set (map xb_parameter (take i ?bs))) \<and>
     (\<forall>i < length ?bs. xb_parameter (?bs ! i) \<in> sp_name ` set (sm_parameters m)) \<and>
     (\<forall>i < length ?bs. \<forall>j < length (xb_targets (?bs ! i)).
        xb_targets (?bs ! i) ! j \<notin> set (concat (map xb_targets (take i ?bs))) \<and>
        xb_targets (?bs ! i) ! j \<notin> set (take j (xb_targets (?bs ! i))))"
    unfolding parameter_binding_diagnostics_def Let_def no_error_enum no_error_basic no_error_guarded by blast
  then show ?thesis unfolding distinct_prefix_map distinct_prefix_concat list_all_length by blast
qed

lemma dependency_no_error: "no_error (dependency_diagnostics m) \<longleftrightarrow> dependencies_ok m"
proof -
  let ?ds = "sm_dependencies m"
  have "no_error (dependency_diagnostics m) \<longleftrightarrow>
     (\<forall>i < length ?ds. dependency_edge (?ds ! i) \<notin> set (map dependency_edge (take i ?ds))) \<and>
     (\<forall>i < length ?ds. de_system (?ds ! i) \<in> si_name ` set (sm_systems m) \<and>
        de_requires (?ds ! i) \<in> si_name ` set (sm_systems m) \<and> de_system (?ds ! i) \<noteq> de_requires (?ds ! i))"
    unfolding dependency_diagnostics_def Let_def no_error_enum no_error_basic no_error_guarded by blast
  then show ?thesis unfolding distinct_prefix_map by (simp add: dependencies_ok_def list_all_length)
qed

lemma target_no_error [simp]: "no_error (target_diagnostics m path t) \<longleftrightarrow> target_ok m t"
  by (simp add: target_diagnostics_def target_ok_def split: option.split)

lemma bound_resource_no_error [simp]: "no_error (bound_resource_diagnostics m c p f bs) \<longleftrightarrow> resources_ok m bs"
  by (auto simp: bound_resource_diagnostics_def resources_ok_def list_all_iff)

lemma resource_no_error:
  "no_error (resource_diagnostics m catalog ts) \<Longrightarrow>
     list_all (\<lambda>r. target_ok m (ri_target r) \<and> resources_ok m (ri_bindings r)) (sm_resources m)"
  "list_all (\<lambda>r. target_ok m (ri_target r) \<and> resources_ok m (ri_bindings r)) (sm_resources m) \<Longrightarrow>
     no_error (resource_diagnostics m None ts)"
  by (simp_all add: resource_diagnostics_def Let_def list_all_length nth_enumerate_eq)

lemma application_no_error:
  "no_error (application_diagnostics m) \<longleftrightarrow>
     list_all (\<lambda>a. target_ok m (ai_target a) \<and> resources_ok m (ai_resources a)) (sm_applications m)"
  by (simp add: application_diagnostics_def Let_def list_all_length nth_enumerate_eq)

lemma node_no_error:
  "no_error (node_diagnostics m catalog env ts g gp (i, n)) \<Longrightarrow> target_ok m (ni_target n) \<and> resources_ok m (ni_resources n)"
  "target_ok m (ni_target n) \<and> resources_ok m (ni_resources n) \<Longrightarrow> no_error (node_diagnostics m None env ts g gp (i, n))"
  by (simp_all add: node_diagnostics_def Let_def)

lemma connection_no_error:
  assumes "connection_diagnostics catalog gp (graph_node_map g) (i, c) = Inr ds"
  shows "no_error ds \<Longrightarrow> connection_ok g c" and "catalog = None \<Longrightarrow> connection_ok g c \<Longrightarrow> no_error ds"
proof -
  from assms obtain sn sp tn tp where
    s: "split_local_endpoint (co_source c) = Inr (sn, sp)" and t: "split_local_endpoint (co_target c) = Inr (tn, tp)"
    by (auto simp: connection_diagnostics_def Let_def result_elims)
  have ok: "connection_ok g c \<longleftrightarrow> map_of (graph_node_map g) sn \<noteq> None \<and> map_of (graph_node_map g) tn \<noteq> None"
    unfolding graph_node_map_def by (simp add: connection_ok_def s t by_name_None)
  from assms s t have ds: "no_error ds \<Longrightarrow> map_of (graph_node_map g) sn \<noteq> None \<and> map_of (graph_node_map g) tn \<noteq> None"
    by (auto simp: connection_diagnostics_def Let_def)
  from assms s t have "catalog = None \<Longrightarrow>
      map_of (graph_node_map g) sn \<noteq> None \<and> map_of (graph_node_map g) tn \<noteq> None \<Longrightarrow> no_error ds"
    by (auto simp: connection_diagnostics_def Let_def)
  with ds ok show "no_error ds \<Longrightarrow> connection_ok g c" and "catalog = None \<Longrightarrow> connection_ok g c \<Longrightarrow> no_error ds"
    by blast+
qed

definition graph_linked :: "system_model \<Rightarrow> system_graph \<Rightarrow> bool" where
  "graph_linked m g =
     (distinct (map ni_name (gp_nodes g)) \<and>
      list_all (\<lambda>n. target_ok m (ni_target n) \<and> resources_ok m (ni_resources n)) (gp_nodes g) \<and>
      list_all (connection_ok g) (gp_connections g))"

lemma graph_no_error:
  assumes "graph_diagnostics m catalog env ts (i, g) = Inr ds"
  shows "no_error ds \<Longrightarrow> graph_linked m g" and "catalog = None \<Longrightarrow> graph_linked m g \<Longrightarrow> no_error ds"
proof -
  let ?gp = "at_index ''graphs'' i"
  from assms obtain cs where
    cs: "emap (connection_diagnostics catalog ?gp (graph_node_map g)) (enumerate 0 (gp_connections g)) = Inr cs"
    and ds: "no_error ds \<longleftrightarrow> distinct (map ni_name (gp_nodes g)) \<and>
       no_error (concat (map (node_diagnostics m catalog env ts (gp_name g) ?gp) (enumerate 0 (gp_nodes g)))) \<and>
       no_error (concat cs)"
    by (auto simp: graph_diagnostics_def Let_def result_elims duplicate_names_Nil)
  have nodes: "no_error (concat (map (node_diagnostics m catalog env ts (gp_name g) ?gp) (enumerate 0 (gp_nodes g)))) \<longleftrightarrow>
      (\<forall>j < length (gp_nodes g). no_error (node_diagnostics m catalog env ts (gp_name g) ?gp (j, gp_nodes g ! j)))"
    by (simp add: list_all_length nth_enumerate_eq)
  show "graph_linked m g" if "no_error ds"
  proof -
    have "\<forall>j < length (gp_connections g). connection_ok g (gp_connections g ! j)"
      using that ds by (intro emap_no_error [OF cs, of "\<lambda>_. connection_ok g"]) (auto dest: connection_no_error(1))
    moreover have "\<forall>j < length (gp_nodes g). target_ok m (ni_target (gp_nodes g ! j)) \<and> resources_ok m (ni_resources (gp_nodes g ! j))"
      using that ds nodes node_no_error(1) by blast
    ultimately show ?thesis using that ds by (simp add: graph_linked_def list_all_length)
  qed
  show "no_error ds" if "catalog = None" and "graph_linked m g"
  proof -
    have "no_error (concat cs)"
      using that by (intro emap_no_error_rev [OF cs, of "\<lambda>_. connection_ok g"])
        (auto simp: graph_linked_def list_all_length dest: connection_no_error(2))
    with that nodes ds node_no_error(2) show ?thesis by (simp add: graph_linked_def list_all_length)
  qed
qed

lemma endpoint_declared_graph:
  assumes "ep_kind e = GRAPH"
  shows "node_named m (ep_scope e) (ep_instance e) \<noteq> None \<Longrightarrow> endpoint_declared m e"
    and "distinct (map gp_name (sm_graphs m)) \<Longrightarrow> endpoint_declared m e \<Longrightarrow>
         node_named m (ep_scope e) (ep_instance e) \<noteq> None"
proof -
  show "endpoint_declared m e" if "node_named m (ep_scope e) (ep_instance e) \<noteq> None"
  proof -
    from that obtain n where "node_named m (ep_scope e) (ep_instance e) = Some n" by blast
    from node_named_Some [OF this] obtain g where g: "g \<in> set (sm_graphs m)" "ep_scope e = Some (gp_name g)"
      "ep_instance e \<in> ni_name ` set (gp_nodes g)" by (metis image_eqI)
    then have "list_ex (\<lambda>g. ep_scope e = Some (gp_name g) \<and> ep_instance e \<in> ni_name ` set (gp_nodes g)) (sm_graphs m)"
      unfolding list_ex_iff by blast
    then show ?thesis using assms by (simp add: endpoint_declared_def)
  qed
  show "distinct (map gp_name (sm_graphs m)) \<Longrightarrow> endpoint_declared m e \<Longrightarrow>
         node_named m (ep_scope e) (ep_instance e) \<noteq> None"
    using assms node_named_total by (fastforce simp: endpoint_declared_def list_ex_iff)
qed

lemma resolve_graph_endpoint_no_error:
  assumes "ep_scope e = Some g"
  shows "no_error (re_diagnostics (resolve_graph_endpoint m catalog path dir code g e)) \<Longrightarrow>
      node_named m (Some g) (ep_instance e) \<noteq> None"
    and "node_named m (Some g) (ep_instance e) \<noteq> None \<Longrightarrow>
      no_error (re_diagnostics (resolve_graph_endpoint m None path dir code g e))"
    and "re_type (resolve_graph_endpoint m None path dir code g e) = None"
proof -
  have known: "g \<in> gp_name ` set (sm_graphs m)" if "node_named m (Some g) (ep_instance e) \<noteq> None"
    using that by (force dest!: node_named_Some)
  show "no_error (re_diagnostics (resolve_graph_endpoint m catalog path dir code g e)) \<Longrightarrow>
      node_named m (Some g) (ep_instance e) \<noteq> None"
    by (auto simp: resolve_graph_endpoint_def invalid_endpoint_def node_named_def split: if_splits option.splits)
  show "node_named m (Some g) (ep_instance e) \<noteq> None \<Longrightarrow>
      no_error (re_diagnostics (resolve_graph_endpoint m None path dir code g e))"
    using known by (auto simp: resolve_graph_endpoint_def node_named_def)
  show "re_type (resolve_graph_endpoint m None path dir code g e) = None"
    by (simp add: resolve_graph_endpoint_def invalid_endpoint_def split: option.split)
qed

lemma resolve_endpoint_no_error:
  assumes run: "resolve_system_endpoint m catalog children path raw dir code = Inr r"
  shows "no_error (re_diagnostics r) \<Longrightarrow> endpoint_ok m raw"
    and "catalog = None \<Longrightarrow> children = [] \<Longrightarrow> re_type r = None"
    and "catalog = None \<Longrightarrow> children = [] \<Longrightarrow> names_ok m \<Longrightarrow> endpoint_ok m raw \<Longrightarrow> no_error (re_diagnostics r)"
proof -
  from run obtain e where e: "parse_system_endpoint raw = Inr e"
    and r: "(case ep_kind e of
         APPLICATION \<Rightarrow> Inr (
           if ep_instance e \<notin> ai_name ` set (sm_applications m)
           then invalid_endpoint (sys_error ''SYS041'' path (''unknown ApplicationInstance '' @ repr_str (ep_instance e)))
           else \<lparr>re_kind = Some APPLICATION, re_type = None, re_diagnostics = []\<rparr>)
       | SYSTEM \<Rightarrow> Inr (resolve_child_endpoint m children path dir code e)
       | GRAPH \<Rightarrow> (case ep_scope e of
           None \<Rightarrow> Inl (NamedErr ''AssertionError'' [])
         | Some g \<Rightarrow> Inr (resolve_graph_endpoint m catalog path dir code g e))) = Inr r"
    by (auto simp: resolve_system_endpoint_def result_elims)
  have ok: "endpoint_ok m raw \<longleftrightarrow> endpoint_declared m e" by (simp add: endpoint_ok_def e)
  have all: "(no_error (re_diagnostics r) \<longrightarrow> endpoint_declared m e) \<and>
      (catalog = None \<and> children = [] \<longrightarrow> re_type r = None \<and>
        (names_ok m \<and> endpoint_declared m e \<longrightarrow> no_error (re_diagnostics r)))"
  proof (cases "ep_kind e")
    case APPLICATION
    with r show ?thesis by (auto simp: endpoint_declared_def invalid_endpoint_def split: if_splits)
  next
    case SYSTEM
    with r show ?thesis
      by (auto simp: endpoint_declared_def invalid_endpoint_def resolve_child_endpoint_def split: if_splits)
  next
    case GRAPH
    with r obtain g where g: "ep_scope e = Some g" and r: "r = resolve_graph_endpoint m catalog path dir code g e"
      by (auto split: option.splits)
    from resolve_graph_endpoint_no_error [OF g] endpoint_declared_graph [OF GRAPH] g r show ?thesis
      by (auto simp: names_ok_def)
  qed
  with ok show "no_error (re_diagnostics r) \<Longrightarrow> endpoint_ok m raw"
    and "catalog = None \<Longrightarrow> children = [] \<Longrightarrow> re_type r = None"
    and "catalog = None \<Longrightarrow> children = [] \<Longrightarrow> names_ok m \<Longrightarrow> endpoint_ok m raw \<Longrightarrow> no_error (re_diagnostics r)"
    by auto
qed

text \<open>The targets of parameter bindings.\<close>

lemma no_error_option:
  "no_error (case q of None \<Rightarrow> [sys_error c p t] | Some x \<Rightarrow> F x) \<longleftrightarrow> (\<exists>x. q = Some x \<and> no_error (F x))"
  by (cases q) simp_all

lemma explicit_value_guard [simp]: "no_error (guarded b (explicit_value_error p)) \<longleftrightarrow> \<not> b"
  by (simp add: explicit_value_error_def)

lemma parameter_target_no_error:
  assumes t: "parse_system_parameter_target raw = Inr t"
  shows "no_error (parameter_target_diagnostics m catalog env children path parameter t) \<Longrightarrow> parameter_target_ok m raw"
    and "parameter_target_ok m raw \<Longrightarrow> no_error (parameter_target_diagnostics m None env [] path parameter t)"
proof -
  show "parameter_target_ok m raw" if "no_error (parameter_target_diagnostics m catalog env children path parameter t)"
  proof (cases "pt_kind t")
    case PT_NODE
    with that show ?thesis unfolding parameter_target_ok_def
      by (auto simp: t node_named_def parameter_target_diagnostics_def bind_eq_Some_conv split: option.splits if_splits)
  qed (use that in \<open>auto simp: parameter_target_ok_def t parameter_target_diagnostics_def no_error_option
         system_target_diagnostics_def\<close>)
  show "no_error (parameter_target_diagnostics m None env [] path parameter t)" if "parameter_target_ok m raw"
  proof (cases "pt_kind t")
    case PT_NODE
    from that obtain n where n: "node_named m (pt_scope t) (pt_instance t) = Some n" "pt_parameter t \<notin> fst ` set (ni_parameters n)"
      unfolding parameter_target_ok_def by (auto simp: t PT_NODE split: option.splits)
    from node_named_Some [OF n(1)] obtain g where g: "pt_scope t = Some g" "g \<in> gp_name ` set (sm_graphs m)" by auto
    with n have "Option.bind (map_of (graph_node_maps m) g) (\<lambda>ns. map_of ns (pt_instance t)) = Some n"
      by (simp add: node_named_def)
    with g n show ?thesis
      by (simp add: parameter_target_diagnostics_def PT_NODE definition_target_diagnostics_def)
  qed (use that in \<open>auto simp: parameter_target_ok_def t parameter_target_diagnostics_def
         system_target_diagnostics_def definition_target_diagnostics_def split: option.splits\<close>)
qed

lemma binding_target_no_error:
  assumes run: "binding_target_diagnostics m catalog env children = Inr ds"
  shows "no_error ds \<Longrightarrow> list_all (\<lambda>b. list_all (parameter_target_ok m) (xb_targets b)) (bo_parameters (sm_bindings m))"
    and "catalog = None \<Longrightarrow> children = [] \<Longrightarrow>
         list_all (\<lambda>b. list_all (parameter_target_ok m) (xb_targets b)) (bo_parameters (sm_bindings m)) \<Longrightarrow> no_error ds"
proof -
  let ?bs = "bo_parameters (sm_bindings m)"
  let ?f = "\<lambda>i b (j, raw). ebind (parse_system_parameter_target raw) (\<lambda>t.
           Inr (parameter_target_diagnostics m catalog env children
             (at_index ''bindings.parameters'' i @ at_index ''.targets'' j) (xb_parameter b) t))"
  from run obtain dss where dss: "emap (binding_row_diagnostics m catalog env children) (enumerate 0 ?bs) = Inr dss"
    and ds: "ds = concat (concat dss)"
    by (auto simp: binding_target_diagnostics_def result_elims)
  have row: "emap (?f i (?bs ! i)) (enumerate 0 (xb_targets (?bs ! i))) = Inr (dss ! i)" if "i < length ?bs" for i
    using emap_enumerate(2) [OF dss that] by (simp add: binding_row_diagnostics_def)
  have cell: "\<exists>t. parse_system_parameter_target (xb_targets (?bs ! i) ! j) = Inr t \<and>
      dss ! i ! j = parameter_target_diagnostics m catalog env children
             (at_index ''bindings.parameters'' i @ at_index ''.targets'' j) (xb_parameter (?bs ! i)) t"
    if "i < length ?bs" "j < length (xb_targets (?bs ! i))" for i j
    using emap_enumerate(2) [OF row [OF that(1)] that(2)] by (auto simp: result_elims)
  have len: "length dss = length ?bs" "\<And>i. i < length ?bs \<Longrightarrow> length (dss ! i) = length (xb_targets (?bs ! i))"
    using emap_enumerate(1) [OF dss] emap_enumerate(1) [OF row] by blast+
  have ds': "no_error ds \<longleftrightarrow> (\<forall>i < length ?bs. \<forall>j < length (xb_targets (?bs ! i)). no_error (dss ! i ! j))"
  proof -
    have "no_error ds \<longleftrightarrow> (\<forall>row \<in> set dss. \<forall>d \<in> set row. no_error d)" by (auto simp: ds list_all_iff)
    then show ?thesis by (simp add: all_nth_set [symmetric] len)
  qed
  show "no_error ds \<Longrightarrow> list_all (\<lambda>b. list_all (parameter_target_ok m) (xb_targets b)) ?bs"
    unfolding ds' list_all_length using cell parameter_target_no_error(1) by metis
  show "catalog = None \<Longrightarrow> children = [] \<Longrightarrow> list_all (\<lambda>b. list_all (parameter_target_ok m) (xb_targets b)) ?bs \<Longrightarrow> no_error ds"
    unfolding ds' list_all_length using cell parameter_target_no_error(2) by metis
qed

section \<open>Bindings, links and artifacts\<close>

text \<open>Without types of the endpoints no contract is compared.\<close>

lemma input_binding_no_error:
  assumes run: "input_binding_diagnostics m catalog children (i, b) = Inr ds"
  shows "no_error ds \<Longrightarrow> ib_port b \<notin> set (map ib_port (take i (bo_inputs (sm_bindings m)))) \<and>
           ib_port b \<in> prt_name ` set (sm_inputs m) \<and> endpoint_ok m (ib_endpoint b)"
    and "catalog = None \<Longrightarrow> children = [] \<Longrightarrow> names_ok m \<Longrightarrow>
           ib_port b \<notin> set (map ib_port (take i (bo_inputs (sm_bindings m)))) \<and>
           ib_port b \<in> prt_name ` set (sm_inputs m) \<and> endpoint_ok m (ib_endpoint b) \<Longrightarrow> no_error ds"
proof -
  from run obtain r where r: "resolve_system_endpoint m catalog children (at_index ''bindings.inputs'' i @ ''.endpoint'')
      (ib_endpoint b) TARGET ''SYS151'' = Inr r"
    by (auto simp: input_binding_diagnostics_def Let_def result_elims)
  note res = resolve_endpoint_no_error [OF r]
  from run r show "no_error ds \<Longrightarrow> ib_port b \<notin> set (map ib_port (take i (bo_inputs (sm_bindings m)))) \<and>
           ib_port b \<in> prt_name ` set (sm_inputs m) \<and> endpoint_ok m (ib_endpoint b)"
    using res(1) by (auto simp: input_binding_diagnostics_def Let_def)
  show "no_error ds" if "catalog = None" "children = []" "names_ok m"
    "ib_port b \<notin> set (map ib_port (take i (bo_inputs (sm_bindings m)))) \<and>
           ib_port b \<in> prt_name ` set (sm_inputs m) \<and> endpoint_ok m (ib_endpoint b)"
    using run r res(2,3) that by (auto simp: input_binding_diagnostics_def Let_def split: option.split)
qed

lemma output_binding_no_error:
  assumes run: "output_binding_diagnostics m catalog children (i, b) = Inr ds"
  shows "no_error ds \<Longrightarrow> ib_port b \<notin> set (map ib_port (take i (bo_outputs (sm_bindings m)))) \<and>
           ib_port b \<in> prt_name ` set (sm_outputs m) \<and> endpoint_ok m (ib_endpoint b)"
    and "catalog = None \<Longrightarrow> children = [] \<Longrightarrow> names_ok m \<Longrightarrow>
           ib_port b \<notin> set (map ib_port (take i (bo_outputs (sm_bindings m)))) \<and>
           ib_port b \<in> prt_name ` set (sm_outputs m) \<and> endpoint_ok m (ib_endpoint b) \<Longrightarrow> no_error ds"
proof -
  from run obtain r where r: "resolve_system_endpoint m catalog children (at_index ''bindings.outputs'' i @ ''.endpoint'')
      (ib_endpoint b) SOURCE ''SYS152'' = Inr r"
    by (auto simp: output_binding_diagnostics_def Let_def result_elims)
  note res = resolve_endpoint_no_error [OF r]
  from run r show "no_error ds \<Longrightarrow> ib_port b \<notin> set (map ib_port (take i (bo_outputs (sm_bindings m)))) \<and>
           ib_port b \<in> prt_name ` set (sm_outputs m) \<and> endpoint_ok m (ib_endpoint b)"
    using res(1) by (auto simp: output_binding_diagnostics_def Let_def)
  show "no_error ds" if "catalog = None" "children = []" "names_ok m"
    "ib_port b \<notin> set (map ib_port (take i (bo_outputs (sm_bindings m)))) \<and>
           ib_port b \<in> prt_name ` set (sm_outputs m) \<and> endpoint_ok m (ib_endpoint b)"
    using run r res(2,3) that by (auto simp: output_binding_diagnostics_def Let_def split: option.split)
qed

lemma resource_binding_no_error:
  "no_error (resource_binding_diagnostics m) \<longleftrightarrow>
     distinct (map yb_resource (bo_resources (sm_bindings m))) \<and>
     list_all (resource_binding_ok m) (bo_resources (sm_bindings m))"
proof -
  let ?bs = "bo_resources (sm_bindings m)"
  have "no_error (resource_binding_diagnostics m) \<longleftrightarrow>
     (\<forall>i < length ?bs. yb_resource (?bs ! i) \<notin> set (map yb_resource (take i ?bs)) \<and> resource_binding_ok m (?bs ! i))"
    unfolding resource_binding_diagnostics_def Let_def no_error_enum no_error_basic no_error_guarded resource_binding_ok_def
    by (intro all_cong1 imp_cong refl) (simp split: option.split)
  then show ?thesis unfolding distinct_prefix_map [symmetric] list_all_length by blast
qed

lemma link_type_untyped:
  "re_type s = None \<Longrightarrow> re_type t = None \<Longrightarrow> no_error (link_type_diagnostics catalog path l s t)"
  by (simp add: link_type_diagnostics_def split: option.split)

lemma link_no_error:
  assumes run: "link_diagnostics m catalog children (i, l) = Inr ds"
  shows "no_error ds \<Longrightarrow> endpoint_ok m (lk_source l) \<and> endpoint_ok m (lk_target l)"
    and "catalog = None \<Longrightarrow> children = [] \<Longrightarrow> names_ok m \<Longrightarrow>
         endpoint_ok m (lk_source l) \<and> endpoint_ok m (lk_target l) \<Longrightarrow> no_error ds"
proof -
  from run obtain s t where s: "resolve_system_endpoint m catalog children (at_index ''links'' i @ ''.from'') (lk_source l) SOURCE ''SYS141'' = Inr s"
    and t: "resolve_system_endpoint m catalog children (at_index ''links'' i @ ''.to'') (lk_target l) TARGET ''SYS142'' = Inr t"
    and ds: "ds = re_diagnostics s @ re_diagnostics t @ link_type_diagnostics catalog (at_index ''links'' i) l s t"
    by (auto simp: link_diagnostics_def Let_def result_elims)
  note sr = resolve_endpoint_no_error [OF s] and tr = resolve_endpoint_no_error [OF t]
  show "no_error ds \<Longrightarrow> endpoint_ok m (lk_source l) \<and> endpoint_ok m (lk_target l)"
    using sr(1) tr(1) by (simp add: ds)
  show "catalog = None \<Longrightarrow> children = [] \<Longrightarrow> names_ok m \<Longrightarrow>
         endpoint_ok m (lk_source l) \<and> endpoint_ok m (lk_target l) \<Longrightarrow> no_error ds"
    using sr(2,3) tr(2,3) by (simp add: ds link_type_untyped)
qed

lemma artifact_no_error:
  assumes run: "artifact_diagnostics m catalog children (i, a) = Inr ds"
  shows "no_error ds \<Longrightarrow> producer_ok m a"
    and "catalog = None \<Longrightarrow> children = [] \<Longrightarrow> names_ok m \<Longrightarrow> producer_ok m a \<Longrightarrow> no_error ds"
  using run
  by (auto simp: artifact_diagnostics_def producer_ok_def Let_def result_elims dest: resolve_endpoint_no_error split: option.splits)

section \<open>Children\<close>

lemma no_error_slots [simp]: "no_error (instance_slot_diagnostics m path i) \<longleftrightarrow> resources_ok m (si_resources i)"
  by (auto simp: instance_slot_diagnostics_def resources_ok_def list_all_iff)

lemma child_diagnostics_cases:
  assumes "child_diagnostics m resolver ts (i, x) = Inr (ds, cs)"
  obtains (unresolved) "resolve_child resolver x = Inr None" "ds = instance_slot_diagnostics m (at_index ''systems'' i) x" "cs = []"
    | (resolved) c rest where "resolve_child resolver x = Inr (Some c)" "cs = [(si_name x, c)]"
        "ds = instance_slot_diagnostics m (at_index ''systems'' i) x @ rest"
proof -
  from assms obtain child where child: "resolve_child resolver x = Inr child"
    by (auto simp: child_diagnostics_def Let_def result_elims)
  show thesis
  proof (cases child)
    case None
    with assms child unresolved show thesis by (simp add: child_diagnostics_def Let_def)
  next
    case (Some c)
    with assms child resolved show thesis by (auto simp: child_diagnostics_def Let_def result_elims)
  qed
qed

lemma child_no_error:
  assumes run: "child_diagnostics m resolver ts (i, x) = Inr (ds, cs)"
  shows "no_error ds \<Longrightarrow> resources_ok m (si_resources x)"
    and "resolver = None \<Longrightarrow> cs = [] \<and> (resources_ok m (si_resources x) \<longrightarrow> no_error ds)"
proof -
  show "no_error ds \<Longrightarrow> resources_ok m (si_resources x)"
    using run by (cases rule: child_diagnostics_cases) auto
  show "resolver = None \<Longrightarrow> cs = [] \<and> (resources_ok m (si_resources x) \<longrightarrow> no_error ds)"
    using run by (cases rule: child_diagnostics_cases) (auto simp: resolve_child_def)
qed

section \<open>The whole validation\<close>

text \<open>The sections of a validation that did not raise.\<close>

definition validation_run where
  "validation_run env catalog resolver m targets kids delegated linked children graphs target_ds inputs outputs links artifacts =
     (parameter_targets m = Inr targets \<and>
      emap (child_diagnostics m resolver targets) (enumerate 0 (sm_systems m)) = Inr kids \<and>
      emap parse_system_endpoint (map ib_endpoint (bo_inputs (sm_bindings m))) = Inr delegated \<and>
      emap parse_system_endpoint (map lk_target (sm_links m)) = Inr linked \<and>
      children = dict_update [] (concat (map snd kids)) \<and>
      emap (graph_diagnostics m catalog env targets) (enumerate 0 (sm_graphs m)) = Inr graphs \<and>
      binding_target_diagnostics m catalog env children = Inr target_ds \<and>
      emap (input_binding_diagnostics m catalog children) (enumerate 0 (bo_inputs (sm_bindings m))) = Inr inputs \<and>
      emap (output_binding_diagnostics m catalog children) (enumerate 0 (bo_outputs (sm_bindings m))) = Inr outputs \<and>
      emap (link_diagnostics m catalog children) (enumerate 0 (sm_links m)) = Inr links \<and>
      emap (artifact_diagnostics m catalog children) (enumerate 0 (sm_artifacts m)) = Inr artifacts)"

lemma validate_system_run:
  assumes "validate_system env catalog resolver m = Inr ds"
  obtains targets kids delegated linked children graphs target_ds inputs outputs links artifacts where
    "validation_run env catalog resolver m targets kids delegated linked children graphs target_ds inputs outputs links artifacts"
    and "ds = name_diagnostics m @ parameter_binding_diagnostics m @ concat (map fst kids) @
       child_input_diagnostics m children (system_ports (delegated @ linked)) @
       dependency_diagnostics m @ resource_diagnostics m catalog targets @ application_diagnostics m @
       concat graphs @ target_ds @ concat inputs @ concat outputs @ resource_binding_diagnostics m @
       concat links @ concat artifacts"
  using assms unfolding validate_system_def Let_def validation_run_def by (auto simp: result_elims)

lemma kids_no_error:
  assumes "emap (child_diagnostics m resolver ts) (enumerate 0 (sm_systems m)) = Inr kids"
  shows "no_error (concat (map fst kids)) \<Longrightarrow> list_all (\<lambda>i. resources_ok m (si_resources i)) (sm_systems m)"
    and "resolver = None \<Longrightarrow> concat (map snd kids) = [] \<and>
      (list_all (\<lambda>i. resources_ok m (si_resources i)) (sm_systems m) \<longrightarrow> no_error (concat (map fst kids)))"
proof -
  note len = emap_enumerate(1) [OF assms] and kid = emap_enumerate(2) [OF assms]
  have step: "child_diagnostics m resolver ts (i, sm_systems m ! i) = Inr (fst (kids ! i), snd (kids ! i))"
    if "i < length (sm_systems m)" for i using kid [OF that] by simp
  show "no_error (concat (map fst kids)) \<Longrightarrow> list_all (\<lambda>i. resources_ok m (si_resources i)) (sm_systems m)"
    using child_no_error(1) [OF step] len by (simp add: list_all_length)
  show "concat (map snd kids) = [] \<and>
      (list_all (\<lambda>i. resources_ok m (si_resources i)) (sm_systems m) \<longrightarrow> no_error (concat (map fst kids)))"
    if "resolver = None"
  proof -
    have one: "snd (kids ! i) = [] \<and> (resources_ok m (si_resources (sm_systems m ! i)) \<longrightarrow> no_error (fst (kids ! i)))"
      if "i < length (sm_systems m)" for i
      using child_no_error(2) [OF step [OF that]] \<open>resolver = None\<close> by blast
    have "\<forall>k \<in> set kids. snd k = []" using one len by (metis in_set_conv_nth)
    then have "concat (map snd kids) = []" by simp
    with one len show ?thesis by (simp add: list_all_length)
  qed
qed

lemma list_all_nth_prefix:
  "(\<forall>i < length xs. f (xs ! i) \<notin> set (map f (take i xs)) \<and> P (xs ! i) \<and> Q (xs ! i)) \<longleftrightarrow>
     distinct (map f xs) \<and> list_all (\<lambda>x. P x \<and> Q x) xs"
  unfolding distinct_prefix_map [symmetric] list_all_length by blast

lemma validate_system_sound:
  assumes run: "validate_system env catalog resolver m = Inr ds" and valid: "no_error ds"
  shows "well_linked m"
proof -
  from run obtain targets kids delegated linked children graphs target_ds inputs outputs links artifacts where
    v: "validation_run env catalog resolver m targets kids delegated linked children graphs target_ds inputs outputs links artifacts"
    and ds: "ds = name_diagnostics m @ parameter_binding_diagnostics m @ concat (map fst kids) @
       child_input_diagnostics m children (system_ports (delegated @ linked)) @
       dependency_diagnostics m @ resource_diagnostics m catalog targets @ application_diagnostics m @
       concat graphs @ target_ds @ concat inputs @ concat outputs @ resource_binding_diagnostics m @
       concat links @ concat artifacts" by (rule validate_system_run)
  have parts: "no_error (name_diagnostics m)" "no_error (parameter_binding_diagnostics m)"
    "no_error (concat (map fst kids))" "no_error (dependency_diagnostics m)"
    "no_error (resource_diagnostics m catalog targets)" "no_error (application_diagnostics m)"
    "no_error (concat graphs)" "no_error target_ds" "no_error (concat inputs)" "no_error (concat outputs)"
    "no_error (resource_binding_diagnostics m)" "no_error (concat links)" "no_error (concat artifacts)"
    using valid by (simp_all add: ds del: no_error_concat)
  note v = v [unfolded validation_run_def]
  have graphs: "list_all (graph_linked m) (sm_graphs m)"
    unfolding list_all_length
    by (rule emap_no_error [of _ _ graphs "\<lambda>_. graph_linked m"]) (use v parts graph_no_error(1) in blast)+
  have "distinct (map ib_port (bo_inputs (sm_bindings m))) \<and> list_all (\<lambda>b. ib_port b \<in> prt_name ` set (sm_inputs m) \<and>
      endpoint_ok m (ib_endpoint b)) (bo_inputs (sm_bindings m))"
    unfolding list_all_nth_prefix [symmetric]
    by (rule emap_no_error [of _ _ inputs "\<lambda>i b. ib_port b \<notin> set (map ib_port (take i (bo_inputs (sm_bindings m)))) \<and>
           ib_port b \<in> prt_name ` set (sm_inputs m) \<and> endpoint_ok m (ib_endpoint b)"])
       (use v parts input_binding_no_error(1) in blast)+
  moreover have "distinct (map ib_port (bo_outputs (sm_bindings m))) \<and> list_all (\<lambda>b. ib_port b \<in> prt_name ` set (sm_outputs m) \<and>
      endpoint_ok m (ib_endpoint b)) (bo_outputs (sm_bindings m))"
    unfolding list_all_nth_prefix [symmetric]
    by (rule emap_no_error [of _ _ outputs "\<lambda>i b. ib_port b \<notin> set (map ib_port (take i (bo_outputs (sm_bindings m)))) \<and>
           ib_port b \<in> prt_name ` set (sm_outputs m) \<and> endpoint_ok m (ib_endpoint b)"])
       (use v parts output_binding_no_error(1) in blast)+
  moreover have "list_all (\<lambda>b. list_all (parameter_target_ok m) (xb_targets b)) (bo_parameters (sm_bindings m))"
    using v parts binding_target_no_error(1) by blast
  ultimately have bindings: "bindings_ok m"
    using parts(2,11) parameter_binding_no_error [of m] resource_binding_no_error [of m]
    unfolding bindings_ok_def Let_def by (simp add: list_all_iff)
  have "list_all (\<lambda>l. endpoint_ok m (lk_source l) \<and> endpoint_ok m (lk_target l)) (sm_links m)"
    unfolding list_all_length
    by (rule emap_no_error [of _ _ links "\<lambda>_ l. endpoint_ok m (lk_source l) \<and> endpoint_ok m (lk_target l)"])
       (use v parts link_no_error(1) in blast)+
  moreover have "list_all (producer_ok m) (sm_artifacts m)"
    unfolding list_all_length
    by (rule emap_no_error [of _ _ artifacts "\<lambda>_. producer_ok m"]) (use v parts artifact_no_error(1) in blast)+
  moreover have "list_all (\<lambda>i. resources_ok m (si_resources i)) (sm_systems m)"
    using kids_no_error(1) v parts(3) by blast
  moreover have "names_ok m" using parts(1) graphs names_no_error [of m] by (simp add: list_all_iff graph_linked_def)
  ultimately show ?thesis
    using bindings parts graphs dependency_no_error resource_no_error(1) application_no_error
    by (auto simp: well_linked_def graph_linked_def list_all_iff)
qed

lemma well_linked_graphs: "well_linked m \<longleftrightarrow> well_linked m \<and> list_all (graph_linked m) (sm_graphs m)"
  by (auto simp: well_linked_def names_ok_def graph_linked_def list_all_iff)

lemma validate_system_complete:
  assumes run: "validate_system env None None m = Inr ds" and linked: "well_linked m"
  shows "no_error ds"
proof -
  from run obtain targets kids delegated linked children graphs target_ds inputs outputs links artifacts where
    v: "validation_run env None None m targets kids delegated linked children graphs target_ds inputs outputs links artifacts"
    and ds: "ds = name_diagnostics m @ parameter_binding_diagnostics m @ concat (map fst kids) @
       child_input_diagnostics m children (system_ports (delegated @ linked)) @
       dependency_diagnostics m @ resource_diagnostics m None targets @ application_diagnostics m @
       concat graphs @ target_ds @ concat inputs @ concat outputs @ resource_binding_diagnostics m @
       concat links @ concat artifacts" by (rule validate_system_run)
  note v = v [unfolded validation_run_def]
  have kids: "concat (map snd kids) = []" "no_error (concat (map fst kids))"
    using kids_no_error(2) [of m None targets kids] v linked unfolding well_linked_def by blast+
  moreover have "children = dict_update [] (concat (map snd kids))" using v by blast
  ultimately have children: "children = []" by (simp only: dict_update_def fold_simps)
  have names: "names_ok m" and bindings: "bindings_ok m" using linked by (simp_all add: well_linked_def)
  have "\<forall>i < length (sm_graphs m). graph_linked m (sm_graphs m ! i)"
    using linked well_linked_graphs [of m] by (simp add: list_all_length)
  then have "no_error (concat graphs)"
    by (rule emap_no_error_rev [of _ _ graphs "\<lambda>_. graph_linked m", rotated 2])
       (use v graph_no_error(2) in blast)+
  moreover have "no_error target_ds"
    using v children bindings binding_target_no_error(2) [of m None env children target_ds]
    by (simp add: bindings_ok_def Let_def list_all_iff)
  moreover have "no_error (concat inputs)"
  proof (rule emap_no_error_rev [of _ _ inputs "\<lambda>i b. ib_port b \<notin> set (map ib_port (take i (bo_inputs (sm_bindings m)))) \<and>
           ib_port b \<in> prt_name ` set (sm_inputs m) \<and> endpoint_ok m (ib_endpoint b)"])
    show "\<forall>i < length (bo_inputs (sm_bindings m)).
      ib_port (bo_inputs (sm_bindings m) ! i) \<notin> set (map ib_port (take i (bo_inputs (sm_bindings m)))) \<and>
      ib_port (bo_inputs (sm_bindings m) ! i) \<in> prt_name ` set (sm_inputs m) \<and>
      endpoint_ok m (ib_endpoint (bo_inputs (sm_bindings m) ! i))"
      by (rule list_all_nth_prefix [THEN iffD2]) (use bindings in \<open>simp add: bindings_ok_def Let_def\<close>)
  qed (use v children names input_binding_no_error(2) in blast)+
  moreover have "no_error (concat outputs)"
  proof (rule emap_no_error_rev [of _ _ outputs "\<lambda>i b. ib_port b \<notin> set (map ib_port (take i (bo_outputs (sm_bindings m)))) \<and>
           ib_port b \<in> prt_name ` set (sm_outputs m) \<and> endpoint_ok m (ib_endpoint b)"])
    show "\<forall>i < length (bo_outputs (sm_bindings m)).
      ib_port (bo_outputs (sm_bindings m) ! i) \<notin> set (map ib_port (take i (bo_outputs (sm_bindings m)))) \<and>
      ib_port (bo_outputs (sm_bindings m) ! i) \<in> prt_name ` set (sm_outputs m) \<and>
      endpoint_ok m (ib_endpoint (bo_outputs (sm_bindings m) ! i))"
      by (rule list_all_nth_prefix [THEN iffD2]) (use bindings in \<open>simp add: bindings_ok_def Let_def\<close>)
  qed (use v children names output_binding_no_error(2) in blast)+
  moreover have "no_error (concat links)"
  proof (rule emap_no_error_rev [of _ _ links "\<lambda>_ l. endpoint_ok m (lk_source l) \<and> endpoint_ok m (lk_target l)"])
    show "\<forall>i < length (sm_links m). endpoint_ok m (lk_source (sm_links m ! i)) \<and> endpoint_ok m (lk_target (sm_links m ! i))"
      using linked by (simp add: well_linked_def list_all_length)
  qed (use v children names link_no_error(2) in blast)+
  moreover have "no_error (concat artifacts)"
  proof (rule emap_no_error_rev [of _ _ artifacts "\<lambda>_. producer_ok m"])
    show "\<forall>i < length (sm_artifacts m). producer_ok m (sm_artifacts m ! i)"
      using linked by (simp add: well_linked_def list_all_length)
  qed (use v children names artifact_no_error(2) in blast)+
  moreover have "no_error (name_diagnostics m)" "no_error (parameter_binding_diagnostics m)"
    "no_error (dependency_diagnostics m)" "no_error (resource_diagnostics m None targets)"
    "no_error (application_diagnostics m)" "no_error (resource_binding_diagnostics m)"
    using linked names bindings names_no_error [of m] parameter_binding_no_error [of m] resource_binding_no_error [of m]
      dependency_no_error resource_no_error(2) application_no_error
    by (simp_all add: well_linked_def bindings_ok_def Let_def list_all_iff)
  moreover have "no_error (child_input_diagnostics m children (system_ports (delegated @ linked)))"
    by (simp add: child_input_diagnostics_def children list_all_iff split: prod.split)
  ultimately show ?thesis using kids(2) by (simp add: ds del: no_error_concat)
qed

section \<open>Children conform to their definitions\<close>

definition child_conforms ::
    "system_model \<Rightarrow> parameter_target list \<Rightarrow> (string \<times> string) list \<Rightarrow> system_instance \<Rightarrow> system_model \<Rightarrow> bool" where
  "child_conforms m targets supplied i c =
     (fst ` set (si_parameters i) \<subseteq> sp_name ` set (sm_parameters c) \<and>
      fst ` set (si_resources i) \<subseteq> rr_name ` set (sm_resource_requirements c) \<and>
      list_all (\<lambda>(name, p).
        (sp_required p \<longrightarrow> name \<in> fst ` set (si_parameters i) \<or>
                          name \<in> set (bound_parameters targets PT_SYSTEM None (si_name i))) \<and>
        (case map_of (si_parameters i) name of None \<Rightarrow> True | Some v \<Rightarrow> accepts p v = Inr True))
        (by_name sp_name (sm_parameters c)) \<and>
      list_all (\<lambda>(name, r).
        (\<not> rr_optional r \<longrightarrow> name \<in> fst ` set (si_resources i)) \<and>
        (case map_of (by_name ri_name (sm_resources m)) (or_else (map_of (si_resources i) name) []) of
           None \<Rightarrow> True | Some parent \<Rightarrow> ri_uses parent = rr_uses r)) (by_name rr_name (sm_resource_requirements c)) \<and>
      list_all (\<lambda>port. prt_optional port \<or> (si_name i, prt_name port) \<in> set supplied) (sm_inputs c))"

text \<open>The child inputs that a delegated parent input or a link feeds.\<close>

definition supplied_inputs :: "system_model \<Rightarrow> (string \<times> string) list" where
  "supplied_inputs m = system_ports (concat (map (\<lambda>raw. case parse_system_endpoint raw of Inl _ \<Rightarrow> [] | Inr e \<Rightarrow> [e])
     (map ib_endpoint (bo_inputs (sm_bindings m)) @ map lk_target (sm_links m))))"

lemma emap_parse_concat:
  "emap f xs = Inr ys \<Longrightarrow> concat (map (\<lambda>x. case f x of Inl _ \<Rightarrow> [] | Inr y \<Rightarrow> [y]) xs) = ys"
  by (induction xs arbitrary: ys) (auto simp: result_elims)

lemma child_parameters_no_error:
  assumes "emap (child_parameter_diagnostics path i bound) ps = Inr dss" and "no_error (concat dss)"
  shows "list_all (\<lambda>(name, p).
        (sp_required p \<longrightarrow> name \<in> fst ` set (si_parameters i) \<or> name \<in> set bound) \<and>
        (case map_of (si_parameters i) name of None \<Rightarrow> True | Some v \<Rightarrow> accepts p v = Inr True)) ps"
  using assms
proof (induction ps arbitrary: dss)
  case (Cons np ps)
  obtain name p where np: "np = (name, p)" by (cases np)
  from Cons.prems(1) np obtain ds rest where d: "child_parameter_diagnostics path i bound (name, p) = Inr ds"
    and rest: "emap (child_parameter_diagnostics path i bound) ps = Inr rest" and dss: "dss = ds # rest"
    by (auto simp: result_elims)
  have "no_error ds" and IH: "no_error (concat rest)" using Cons.prems(2) by (simp_all add: dss)
  with d have "(sp_required p \<longrightarrow> name \<in> fst ` set (si_parameters i) \<or> name \<in> set bound) \<and>
        (case map_of (si_parameters i) name of None \<Rightarrow> True | Some v \<Rightarrow> accepts p v = Inr True)"
    by (auto simp: child_parameter_diagnostics_def Let_def result_elims split: option.splits)
  with Cons.IH [OF rest IH] show ?case by (simp add: np)
qed simp

lemma child_resource_no_error:
  "no_error (child_resource_diagnostics path i resources (name, r)) \<Longrightarrow>
     (\<not> rr_optional r \<longrightarrow> name \<in> fst ` set (si_resources i)) \<and>
     (case map_of resources (or_else (map_of (si_resources i) name) []) of
        None \<Rightarrow> True | Some parent \<Rightarrow> ri_uses parent = rr_uses r)"
  by (auto simp: child_resource_diagnostics_def split: if_splits option.splits)

lemma child_diagnostics_conform:
  assumes run: "child_diagnostics m resolver ts (k, i) = Inr (ds, cs)" and "no_error ds"
    and child: "resolve_child resolver i = Inr (Some c)"
    and inputs: "list_all (\<lambda>port. prt_optional port \<or> (si_name i, prt_name port) \<in> set supplied) (sm_inputs c)"
  shows "child_conforms m ts supplied i c"
proof -
  let ?path = "at_index ''systems'' k" and ?bound = "bound_parameters ts PT_SYSTEM None (si_name i)"
  let ?res = "by_name ri_name (sm_resources m)" and ?reqs = "by_name rr_name (sm_resource_requirements c)"
  from run child obtain contracts where
    contracts: "emap (child_parameter_diagnostics ?path i ?bound) (by_name sp_name (sm_parameters c)) = Inr contracts"
    and ds: "ds = instance_slot_diagnostics m ?path i @
        map (\<lambda>name. sys_error ''SYS171'' (?path @ ''.parameters.'' @ name)
                   ''parameter is not declared by the child System Definition'')
          (unknown_keys (map fst (si_parameters i)) (map fst (by_name sp_name (sm_parameters c)))) @
        concat contracts @
        map (\<lambda>name. sys_error ''SYS174'' (?path @ ''.resources.'' @ name)
                   ''resource slot is not declared by the child System Definition'')
          (unknown_keys (map fst (si_resources i)) (map fst ?reqs)) @
        concat (map (child_resource_diagnostics ?path i ?res) ?reqs)"
    by (auto simp: child_diagnostics_def Let_def result_elims)
  have parts: "set (map fst (si_parameters i)) \<subseteq> set (map fst (by_name sp_name (sm_parameters c)))"
    "no_error (concat contracts)" "set (map fst (si_resources i)) \<subseteq> set (map fst ?reqs)"
    "no_error (concat (map (child_resource_diagnostics ?path i ?res) ?reqs))"
    using assms(2) unfolding ds no_error_basic no_error_map_error unknown_keys_Nil by blast+
  have "list_all (\<lambda>(name, r). (\<not> rr_optional r \<longrightarrow> name \<in> fst ` set (si_resources i)) \<and>
        (case map_of ?res (or_else (map_of (si_resources i) name) []) of
           None \<Rightarrow> True | Some parent \<Rightarrow> ri_uses parent = rr_uses r)) ?reqs"
    using parts(4) child_resource_no_error [of ?path i ?res] by (auto simp: list_all_iff)
  with parts child_parameters_no_error [OF contracts parts(2)] inputs show ?thesis
    by (simp add: child_conforms_def by_name_dom)
qed

lemma child_inputs_no_error:
  assumes "no_error (child_input_diagnostics m children supplied)" and "i \<in> set (sm_systems m)"
    and "map_of children (si_name i) = Some c"
  shows "list_all (\<lambda>port. prt_optional port \<or> (si_name i, prt_name port) \<in> set supplied) (sm_inputs c)"
proof -
  from assms(2) obtain k where k: "k < length (sm_systems m)" "sm_systems m ! k = i" by (auto simp: in_set_conv_nth)
  with assms(1) have "no_error (case map_of children (si_name i) of
         None \<Rightarrow> []
       | Some c \<Rightarrow> concat (map (\<lambda>port.
           guarded (\<not> prt_optional port \<and> (si_name i, prt_name port) \<notin> set supplied)
             (sys_error ''SYS177'' (at_index ''systems'' k @ ''.inputs.'' @ prt_name port)
                (''required child System input is not '' @
                 ''satisfied by a parent link or delegated '' @ ''parent System input''))) (sm_inputs c)))"
    unfolding child_input_diagnostics_def no_error_enum by blast
  with assms(3) show ?thesis by (auto simp: list_all_iff)
qed

lemma map_of_concat_kids:
  assumes "length kids = length xs" and "\<And>k. k < length xs \<Longrightarrow> kids ! k = [] \<or> (\<exists>c. kids ! k = [(f (xs ! k), c)])"
    and "distinct (map f xs)" and "k < length xs" and "kids ! k = [(f (xs ! k), c)]"
  shows "map_of (dict_update [] (concat kids)) (f (xs ! k)) = Some c"
proof -
  have "distinct (map fst (concat kids))"
    using assms(1-3)
  proof (induction kids arbitrary: xs)
    case (Cons kid kids)
    then obtain x ys where xs: "xs = x # ys" by (cases xs) auto
    have rest: "\<And>k. k < length ys \<Longrightarrow> kids ! k = [] \<or> (\<exists>c. kids ! k = [(f (ys ! k), c)])"
      using Cons.prems(2) [of "Suc _"] by (auto simp: xs)
    have "fst ` set (concat kids) \<subseteq> f ` set ys"
    proof
      fix n assume "n \<in> fst ` set (concat kids)"
      then obtain kid where "kid \<in> set kids" "n \<in> fst ` set kid" by auto
      then obtain j where j: "j < length kids" "n \<in> fst ` set (kids ! j)" by (auto simp: in_set_conv_nth [of kid])
      then show "n \<in> f ` set ys" using rest [of j] Cons.prems(1) by (auto simp: xs)
    qed
    moreover have "f x \<notin> f ` set ys" using Cons.prems(3) by (simp add: xs)
    ultimately have "f x \<notin> set (map fst (concat kids))" unfolding set_map by blast
    moreover have "distinct (map fst (concat kids))" using Cons.IH [of ys] Cons.prems rest by (simp add: xs)
    moreover have "kid = [] \<or> (\<exists>c. kid = [(f x, c)])" using Cons.prems(2) [of 0] by (simp add: xs)
    ultimately show ?case by (auto simp del: set_map)
  qed simp
  moreover have "(f (xs ! k), c) \<in> set (concat kids)" using assms(1,4,5) by (force simp: in_set_conv_nth)
  ultimately show ?thesis by (simp add: map_of_dict_update)
qed

lemma validated_child_conforms:
  assumes run: "validate_system env catalog resolver m = Inr ds" and valid: "no_error ds"
    and i: "i \<in> set (sm_systems m)" and child: "resolve_child resolver i = Inr (Some c)"
  obtains targets where "parameter_targets m = Inr targets" and "child_conforms m targets (supplied_inputs m) i c"
proof -
  from run obtain targets kids delegated linked children graphs target_ds inputs outputs links artifacts where
    v: "validation_run env catalog resolver m targets kids delegated linked children graphs target_ds inputs outputs links artifacts"
    and ds: "ds = name_diagnostics m @ parameter_binding_diagnostics m @ concat (map fst kids) @
       child_input_diagnostics m children (system_ports (delegated @ linked)) @
       dependency_diagnostics m @ resource_diagnostics m catalog targets @ application_diagnostics m @
       concat graphs @ target_ds @ concat inputs @ concat outputs @ resource_binding_diagnostics m @
       concat links @ concat artifacts" by (rule validate_system_run)
  note v = v [unfolded validation_run_def]
  have emap: "emap (child_diagnostics m resolver targets) (enumerate 0 (sm_systems m)) = Inr kids" using v by blast
  note len = emap_enumerate(1) [OF emap] and kid = emap_enumerate(2) [OF emap]
  have step: "child_diagnostics m resolver targets (k, sm_systems m ! k) = Inr (fst (kids ! k), snd (kids ! k))"
    if "k < length (sm_systems m)" for k using kid [OF that] by simp
  from i obtain k where k: "k < length (sm_systems m)" "sm_systems m ! k = i" by (auto simp: in_set_conv_nth)
  have one: "no_error (fst (kids ! k))" "no_error (child_input_diagnostics m children (system_ports (delegated @ linked)))"
    using valid k len by (auto simp: ds list_all_length)
  have shape: "snd (kids ! j) = [] \<or> (\<exists>c. snd (kids ! j) = [(si_name (sm_systems m ! j), c)])"
    if "j < length (sm_systems m)" for j
    using step [OF that] by (cases rule: child_diagnostics_cases) auto
  have here: "snd (kids ! k) = [(si_name (sm_systems m ! k), c)]"
    using step [OF k(1)] child k(2) by (cases rule: child_diagnostics_cases) auto
  have "names_ok m" using validate_system_sound [OF run valid] by (simp add: well_linked_def)
  then have "distinct (map si_name (sm_systems m))" by (simp add: names_ok_def)
  from map_of_concat_kids [of "map snd kids" "sm_systems m" si_name k c] this shape here k(1) len
  have look: "map_of (dict_update [] (concat (map snd kids))) (si_name (sm_systems m ! k)) = Some c" by simp
  have "children = dict_update [] (concat (map snd kids))" using v by blast
  with look k(2) have lookup: "map_of children (si_name i) = Some c" by (simp only:)
  have supplied: "supplied_inputs m = system_ports (delegated @ linked)"
  proof -
    have "emap parse_system_endpoint (map ib_endpoint (bo_inputs (sm_bindings m))) = Inr delegated"
      "emap parse_system_endpoint (map lk_target (sm_links m)) = Inr linked" using v by blast+
    from emap_parse_concat [OF this(1)] emap_parse_concat [OF this(2)] show ?thesis
      unfolding supplied_inputs_def map_append concat_append by (simp only:)
  qed
  have "child_conforms m targets (supplied_inputs m) i c"
    unfolding supplied
    by (rule child_diagnostics_conform [OF step [OF k(1), unfolded k(2)] one(1) child child_inputs_no_error [OF one(2) i lookup]])
  moreover have "parameter_targets m = Inr targets" using v by blast
  ultimately show thesis using that by blast
qed

section \<open>When the validation raises\<close>

text \<open>
  On a model that pydantic built, and with a resolver that answers, the validation returns a
  report unless an artifact's producer does not parse (\<open>Artifact.producer\<close> has no validator) or
  the check of a number raises.
\<close>

definition producers_parse :: "system_model \<Rightarrow> bool" where
  "producers_parse m = list_all (\<lambda>a. case ar_producer a of None \<Rightarrow> True | Some p \<Rightarrow> \<not> isl (parse_system_endpoint p)) (sm_artifacts m)"

definition children_answer :: "resolver option \<Rightarrow> system_model \<Rightarrow> bool" where
  "children_answer resolver m = list_all (\<lambda>i. case resolve_child resolver i of
       Inl _ \<Rightarrow> False
     | Inr None \<Rightarrow> True
     | Inr (Some c) \<Rightarrow> list_all (\<lambda>(name, p). case map_of (si_parameters i) name of None \<Rightarrow> True | Some v \<Rightarrow> \<not> isl (accepts p v))
         (by_name sp_name (sm_parameters c))) (sm_systems m)"

lemma not_isl_iff: "\<not> isl r \<longleftrightarrow> (\<exists>x. r = Inr x)"
  by (cases r) simp_all

lemma ebind_total: "\<exists>x. m = Inr x \<Longrightarrow> (\<And>x. \<exists>y. f x = Inr y) \<Longrightarrow> \<exists>y. ebind m f = Inr y"
  by auto

lemma emap_total: "(\<And>x. x \<in> set xs \<Longrightarrow> \<exists>y. f x = Inr y) \<Longrightarrow> \<exists>ys. emap f xs = Inr ys"
  by (simp add: emap_succeeds)

lemma emap_enumerate_total:
  assumes "\<And>i x. x \<in> set xs \<Longrightarrow> \<exists>y. f (i, x) = Inr y"
  shows "\<exists>ys. emap f (enumerate 0 xs) = Inr ys"
proof (rule emap_total)
  fix p assume p: "p \<in> set (enumerate 0 xs)"
  obtain i x where "p = (i, x)" by fastforce
  with p have "x \<in> set xs" by (auto simp: enumerate_eq_zip dest: set_zip_rightD)
  with assms \<open>p = (i, x)\<close> show "\<exists>y. f p = Inr y" by simp
qed

lemma resolve_endpoint_total:
  assumes "parse_system_endpoint raw = Inr e"
  shows "\<exists>r. resolve_system_endpoint m catalog children path raw dir code = Inr r"
proof -
  have "ep_kind e = GRAPH \<Longrightarrow> ep_scope e \<noteq> None"
    using parse_system_endpoint_render_strip [OF assms] by (auto simp: wf_endpoint_def)
  then show ?thesis using assms
    by (cases "ep_kind e") (auto simp: resolve_system_endpoint_def)
qed

lemma accepted_endpoint: "accepted validate_endpoint raw \<Longrightarrow> \<exists>e. parse_system_endpoint raw = Inr e"
  by (auto simp: accepted_def validate_endpoint_def result_elims split: if_splits)

lemma boundary_parses:
  assumes "boundary_ok b"
  shows "p \<in> set (bo_inputs b) \<union> set (bo_outputs b) \<Longrightarrow> \<exists>e. parse_system_endpoint (ib_endpoint p) = Inr e"
    and "q \<in> set (bo_parameters b) \<Longrightarrow> t \<in> set (xb_targets q) \<Longrightarrow> \<exists>r. parse_system_parameter_target t = Inr r"
proof -
  show "p \<in> set (bo_inputs b) \<union> set (bo_outputs b) \<Longrightarrow> \<exists>e. parse_system_endpoint (ib_endpoint p) = Inr e"
    using assms accepted_endpoint by (auto simp: boundary_ok_def list_all_iff)
  assume q: "q \<in> set (bo_parameters b)" and t: "t \<in> set (xb_targets q)"
  from assms q have "validate_targets (xb_targets q) = Inr (xb_targets q)"
    by (auto simp: boundary_ok_def list_all_iff accepted_def)
  then have eq: "map strip (xb_targets q) = xb_targets q"
    and "\<exists>rs. emap parse_system_parameter_target (map strip (xb_targets q)) = Inr rs"
    unfolding validate_targets_def Let_def by (auto simp: result_elims)
  then obtain rs where "emap parse_system_parameter_target (xb_targets q) = Inr rs" unfolding eq by blast
  then have "list_all2 (\<lambda>x y. parse_system_parameter_target x = Inr y) (xb_targets q) rs"
    by (simp add: emap_Inr_list_all2)
  moreover from t obtain j where "j < length (xb_targets q)" "xb_targets q ! j = t" by (auto simp: in_set_conv_nth)
  ultimately show "\<exists>r. parse_system_parameter_target t = Inr r" by (auto dest: list_all2_nthD)
qed

lemma child_diagnostics_total:
  assumes "children_answer resolver m" and "i \<in> set (sm_systems m)"
  shows "\<exists>r. child_diagnostics m resolver ts (k, i) = Inr r"
proof -
  from assms have *: "case resolve_child resolver i of
       Inl _ \<Rightarrow> False
     | Inr None \<Rightarrow> True
     | Inr (Some c) \<Rightarrow> list_all (\<lambda>(name, p). case map_of (si_parameters i) name of None \<Rightarrow> True | Some v \<Rightarrow> \<not> isl (accepts p v))
         (by_name sp_name (sm_parameters c))" by (simp add: children_answer_def list_all_iff)
  then obtain child where child: "resolve_child resolver i = Inr child" by (auto split: sum.splits)
  show ?thesis
  proof (cases child)
    case None
    with child show ?thesis by (simp add: child_diagnostics_def Let_def)
  next
    case (Some c)
    let ?bound = "bound_parameters ts PT_SYSTEM None (si_name i)"
    have "\<exists>dss. emap (child_parameter_diagnostics (at_index ''systems'' k) i ?bound) (by_name sp_name (sm_parameters c)) = Inr dss"
    proof (rule emap_total)
      fix np assume np: "np \<in> set (by_name sp_name (sm_parameters c))"
      obtain name p where "np = (name, p)" by fastforce
      with np * child Some have "case map_of (si_parameters i) name of None \<Rightarrow> True | Some v \<Rightarrow> \<exists>b. accepts p v = Inr b"
        by (auto simp: list_all_iff not_isl_iff split: option.splits)
      then show "\<exists>y. child_parameter_diagnostics (at_index ''systems'' k) i ?bound np = Inr y"
        by (auto simp: \<open>np = (name, p)\<close> child_parameter_diagnostics_def Let_def split: option.splits)
    qed
    with child Some show ?thesis by (auto simp: child_diagnostics_def Let_def)
  qed
qed

lemma graph_diagnostics_total: "graph_ok g \<Longrightarrow> \<exists>ds. graph_diagnostics m catalog env ts (i, g) = Inr ds"
proof -
  assume g: "graph_ok g"
  have "\<exists>ds. connection_diagnostics catalog p ns (j, c) = Inr ds" if "c \<in> set (gp_connections g)" for p ns j c
    using g that
    by (auto simp: graph_ok_def list_all_iff accepted_def validate_connection_endpoints_def connection_diagnostics_def
             Let_def result_elims)
  then have "\<exists>cs. emap (connection_diagnostics catalog p ns) (enumerate 0 (gp_connections g)) = Inr cs" for p ns
    by (intro emap_enumerate_total) blast
  then show ?thesis by (auto simp: graph_diagnostics_def Let_def) (metis ebind_Inr)
qed

lemma parameter_targets_total:
  assumes "model_ok m"
  shows "\<exists>ts. parameter_targets m = Inr ts"
  unfolding parameter_targets_def using assms boundary_parses(2) by (intro emap_total) (auto simp: model_ok_def)

text \<open>Everything after the checks of the children.\<close>

lemma validate_system_after_children:
  assumes ok: "model_ok m" and producers: "producers_parse m"
    and kids: "\<And>ts. parameter_targets m = Inr ts \<Longrightarrow>
        \<exists>kids. emap (child_diagnostics m resolver ts) (enumerate 0 (sm_systems m)) = Inr kids"
  shows "\<exists>ds. validate_system env catalog resolver m = Inr ds"
proof -
  have boundary: "boundary_ok (sm_bindings m)" using ok by (simp add: model_ok_def)
  have endpoint: "\<exists>r. resolve_system_endpoint m catalog children path raw dir code = Inr r"
    if "\<exists>e. parse_system_endpoint raw = Inr e" for children path raw dir code
    using that resolve_endpoint_total by blast
  have link: "\<exists>e. parse_system_endpoint (lk_source l) = Inr e" "\<exists>e. parse_system_endpoint (lk_target l) = Inr e"
    if "l \<in> set (sm_links m)" for l
    using ok that by (auto simp: model_ok_def list_all_iff accepted_def validate_link_endpoints_def result_elims)
  obtain ts where t1: "parameter_targets m = Inr ts" using parameter_targets_total [OF ok] ..
  obtain ks where t2: "emap (child_diagnostics m resolver ts) (enumerate 0 (sm_systems m)) = Inr ks" using kids [OF t1] ..
  have t3: "\<exists>es. emap parse_system_endpoint (map ib_endpoint (bo_inputs (sm_bindings m))) = Inr es"
    by (rule emap_total) (use boundary_parses(1) [OF boundary] in auto)
  have t4: "\<exists>es. emap parse_system_endpoint (map lk_target (sm_links m)) = Inr es"
    by (rule emap_total) (use link in auto)
  have t5: "\<exists>gs. emap (graph_diagnostics m catalog env ts) (enumerate 0 (sm_graphs m)) = Inr gs" for ts
    by (rule emap_enumerate_total) (use ok graph_diagnostics_total in \<open>auto simp: model_ok_def list_all_iff\<close>)
  have t6: "\<exists>ds. binding_target_diagnostics m catalog env children = Inr ds" for children
  proof -
    have "\<exists>row. binding_row_diagnostics m catalog env children (i, b) = Inr row"
      if "b \<in> set (bo_parameters (sm_bindings m))" for i b
      unfolding binding_row_diagnostics_def prod.case
      by (rule emap_enumerate_total) (use boundary_parses(2) [OF boundary that] in fastforce)
    then have "\<exists>dss. emap (binding_row_diagnostics m catalog env children) (enumerate 0 (bo_parameters (sm_bindings m))) = Inr dss"
      by (rule emap_enumerate_total)
    then show ?thesis unfolding binding_target_diagnostics_def by auto
  qed
  have t7: "\<exists>ds. emap (input_binding_diagnostics m catalog children) (enumerate 0 (bo_inputs (sm_bindings m))) = Inr ds" for children
  proof (rule emap_enumerate_total)
    fix i b assume "b \<in> set (bo_inputs (sm_bindings m))"
    then have "\<exists>e. parse_system_endpoint (ib_endpoint b) = Inr e" by (intro boundary_parses(1) [OF boundary]) simp
    then show "\<exists>y. input_binding_diagnostics m catalog children (i, b) = Inr y"
      unfolding input_binding_diagnostics_def Let_def prod.case by (intro ebind_total endpoint) auto
  qed
  have t8: "\<exists>ds. emap (output_binding_diagnostics m catalog children) (enumerate 0 (bo_outputs (sm_bindings m))) = Inr ds" for children
  proof (rule emap_enumerate_total)
    fix i b assume "b \<in> set (bo_outputs (sm_bindings m))"
    then have "\<exists>e. parse_system_endpoint (ib_endpoint b) = Inr e" by (intro boundary_parses(1) [OF boundary]) simp
    then show "\<exists>y. output_binding_diagnostics m catalog children (i, b) = Inr y"
      unfolding output_binding_diagnostics_def Let_def prod.case by (intro ebind_total endpoint) auto
  qed
  have t9: "\<exists>ds. emap (link_diagnostics m catalog children) (enumerate 0 (sm_links m)) = Inr ds" for children
  proof (rule emap_enumerate_total)
    fix i l assume "l \<in> set (sm_links m)"
    then show "\<exists>y. link_diagnostics m catalog children (i, l) = Inr y"
      unfolding link_diagnostics_def Let_def prod.case by (intro ebind_total endpoint link) auto
  qed
  have t10: "\<exists>ds. emap (artifact_diagnostics m catalog children) (enumerate 0 (sm_artifacts m)) = Inr ds" for children
  proof (rule emap_enumerate_total)
    fix i a assume "a \<in> set (sm_artifacts m)"
    with producers have "case ar_producer a of None \<Rightarrow> True | Some p \<Rightarrow> \<exists>e. parse_system_endpoint p = Inr e"
      by (auto simp: producers_parse_def list_all_iff not_isl_iff split: option.splits)
    then show "\<exists>y. artifact_diagnostics m catalog children (i, a) = Inr y"
      unfolding artifact_diagnostics_def Let_def prod.case
      by (cases "ar_producer a") (auto intro!: ebind_total endpoint)
  qed
  show ?thesis unfolding validate_system_def Let_def t1 t2 ebind_Inr
    by (intro ebind_total) (rule t3 t4 t5 t6 t7 t8 t9 t10 exI refl)+
qed

lemma validate_system_total:
  assumes "model_ok m" and answer: "children_answer resolver m" and "producers_parse m"
  shows "\<exists>ds. validate_system env catalog resolver m = Inr ds"
  by (rule validate_system_after_children [OF assms(1,3)], rule emap_enumerate_total, rule child_diagnostics_total [OF answer])

text \<open>A report is only returned when the artifact producers parse.\<close>

lemma resolve_endpoint_parses:
  "resolve_system_endpoint m catalog children path raw dir code = Inr r \<Longrightarrow> \<not> isl (parse_system_endpoint raw)"
  by (auto simp: resolve_system_endpoint_def result_elims)

lemma validate_system_producers:
  assumes "validate_system env catalog resolver m = Inr ds"
  shows "producers_parse m"
proof -
  from assms obtain children ass where run: "emap (artifact_diagnostics m catalog children) (enumerate 0 (sm_artifacts m)) = Inr ass"
    by (auto simp: validate_system_def Let_def result_elims)
  have "case ar_producer a of None \<Rightarrow> True | Some p \<Rightarrow> \<not> isl (parse_system_endpoint p)" if "a \<in> set (sm_artifacts m)" for a
  proof -
    from that obtain i where "(i, a) \<in> set (enumerate 0 (sm_artifacts m))" by (auto simp: in_set_enumerate_eq in_set_conv_nth [of a])
    with run obtain d where "artifact_diagnostics m catalog children (i, a) = Inr d" by (meson emap_succeeds)
    then show ?thesis by (auto simp: artifact_diagnostics_def Let_def result_elims dest: resolve_endpoint_parses split: option.splits)
  qed
  then show ?thesis by (simp add: producers_parse_def list_all_iff)
qed

section \<open>Properties\<close>

text \<open>
  C13: Whatever the catalog and the resolver, a System whose validation report has no error is well
  linked (names are unique, every target, resource, node, port, parameter, dependency and endpoint it
  refers to is declared).  Without a catalog and without a resolver the validation is exact: the report
  has no error exactly when the System is well linked.  With them there are further errors, which this
  property does not speak of.
\<close>

theorem validation_exact:
  assumes "validate_system env catalog resolver m = Inr ds"
  shows "(system_report_valid ds \<longrightarrow> well_linked m) \<and>
    (catalog = None \<and> resolver = None \<longrightarrow> (system_report_valid ds \<longleftrightarrow> well_linked m))"
  using validate_system_sound [OF assms] validate_system_complete [of env m ds] assms
  by (auto simp: system_report_valid_no_error)

definition plain_types :: type_env where
  "plain_types = \<lparr>te_equal = (=), te_subclass = (\<lambda>a b. Some (a = b)), te_name = (\<lambda>_. ''type'')\<rparr>"

theorem validation_exact_witness: "well_linked sample_model"
proof -
  have "case validate_system plain_types None None sample_model of Inl _ \<Rightarrow> False | Inr ds \<Rightarrow> system_report_valid ds" by code_simp
  then obtain ds where "validate_system plain_types None None sample_model = Inr ds" "system_report_valid ds"
    using case_Inr by blast
  with validation_exact [of plain_types None None sample_model ds] show ?thesis by simp
qed

text \<open>
  Whatever the catalog and the resolver, a System whose report has no error is well linked,
  and every child Definition that the resolver found is respected: the instance sets only
  declared parameters, to values of their types, sets or binds every required one, fills
  every required resource with a resource of the same definition, and every required input
  is fed by a link or by a delegated parent input.
\<close>

theorem validated_system_is_linked:
  assumes "validate_system env catalog resolver m = Inr ds" and "system_report_valid ds"
    and "i \<in> set (sm_systems m)" and "resolve_child resolver i = Inr (Some c)"
  shows "well_linked m \<and> (\<exists>targets. parameter_targets m = Inr targets \<and> child_conforms m targets (supplied_inputs m) i c)"
proof -
  have valid: "no_error ds" using assms(2) by (simp add: system_report_valid_no_error)
  from validated_child_conforms [OF assms(1) valid assms(3,4)] validate_system_sound [OF assms(1) valid]
  show ?thesis by blast
qed

definition child_definition :: system_model where
  "child_definition = (blank_model ''child'')\<lparr>sm_parameters := [(sample_parameter T_INTEGER)\<lparr>sp_required := True\<rparr>]\<rparr>"

definition child_resolver :: resolver where
  "child_resolver = (\<lambda>_. Inr (Resolved child_definition))"

definition parent_model :: system_model where
  "parent_model = (blank_model ''parent'')\<lparr>sm_systems := [sample_child_instance ''kid'' [(''p'', PInt 5)]]\<rparr>"

theorem validated_system_is_linked_witness:
  "\<exists>targets. child_conforms parent_model targets (supplied_inputs parent_model)
     (sample_child_instance ''kid'' [(''p'', PInt 5)]) child_definition"
proof -
  have "case validate_system plain_types None (Some child_resolver) parent_model of Inl _ \<Rightarrow> False | Inr ds \<Rightarrow> system_report_valid ds"
    by code_simp
  then obtain ds where "validate_system plain_types None (Some child_resolver) parent_model = Inr ds" "system_report_valid ds"
    using case_Inr by blast
  moreover have "resolve_child (Some child_resolver) (sample_child_instance ''kid'' [(''p'', PInt 5)]) = Inr (Some child_definition)"
  proof -
    have "\<not> isl (instance_revision (sample_child_instance ''kid'' [(''p'', PInt 5)]))" by code_simp
    then show ?thesis by (auto simp: resolve_child_def child_resolver_def not_isl_iff)
  qed
  ultimately show ?thesis
    using validated_system_is_linked [of plain_types None "Some child_resolver" parent_model ds
        "sample_child_instance ''kid'' [(''p'', PInt 5)]" child_definition]
    by (auto simp: parent_model_def)
qed

text \<open>
  C14: When validation reports and when it raises.  For a model that pydantic accepted, with a resolver
  that does not raise, and whose children's number parameters get no value too big for a float, a report is
  returned exactly when the producer of every artifact is an endpoint text; with a malformed producer
  the call raises.
\<close>

theorem validation_returns_report:
  assumes "model_ok m" and "children_answer resolver m"
  shows "(\<exists>ds. validate_system env catalog resolver m = Inr ds) \<longleftrightarrow> producers_parse m"
  using validate_system_total [OF assms] validate_system_producers by blast

theorem validation_returns_report_witness:
  "\<exists>ds. validate_system plain_types None (Some child_resolver) parent_model = Inr ds"
proof -
  have "model_ok parent_model" "children_answer (Some child_resolver) parent_model" "producers_parse parent_model" by code_simp+
  with validation_returns_report show ?thesis by blast
qed

text \<open>
  The producer of an artifact is the one endpoint text no constructor checks: a malformed one
  makes the validation raise the parser's error instead of reporting a diagnostic.
\<close>

lemma malformed_producer_raises:
  "validate_system plain_types None None ((blank_model ''demo'')\<lparr>sm_artifacts :=
     [\<lparr>ar_name = ''log'', ar_kind = ''file'', ar_producer = Some ''nowhere'', ar_path = None, ar_media_type = None,
       ar_metadata = [], ar_extensions = []\<rparr>]\<rparr>) =
   Inl (ValueErr (''endpoint must use node.port syntax: '' @ repr_str ''nowhere''))"
  by code_simp

end
