(* ===== verification/Direct_Preparation.thy ===== *)
theory Direct_Preparation
  imports Runtime_Graph Scopes Validation_Sound
begin

text \<open>
  From a backend context to a wired runtime (system/runtime_mechanics.py, direct_materialization.py,
  direct_edge_materialization.py, direct_graph_preparation.py, direct_node_preparation.py and
  direct_preparation.py).

  Loading a node implementation and materialising a provider are arguments, as is the isolation
  that a node's execution policy names: the policy object is opaque in the plan.  Loaded nodes are
  shared objects; they are kept in one dictionary by node id, of which a graph sees its own nodes
  by name.

  The theorem here: the mechanics of an execution context are within their bounds.  Direct_System
  has the theorems on whole contexts and prepared runtimes.
\<close>

subsection \<open>Runtime mechanics\<close>

record pool_mechanics =
  pm_block_size :: int
  pm_capacity :: int
  pm_threshold :: int

record process_mechanics =
  rm_input_pool :: pool_mechanics
  rm_output_pool :: pool_mechanics

record runtime_mechanics =
  rm_sample_capacity :: "int option"
  rm_process :: "process_mechanics option"
  rm_graph_memory :: graph_memory

definition default_graph_memory :: graph_memory where
  "default_graph_memory = \<lparr>gm_default_domain = ''auto'', gm_forbid_implicit_copies = False\<rparr>"

definition default_mechanics :: runtime_mechanics where
  "default_mechanics = \<lparr>rm_sample_capacity = None, rm_process = None, rm_graph_memory = default_graph_memory\<rparr>"

definition mk_GraphMemory :: "pyval \<Rightarrow> pyval \<Rightarrow> graph_memory result" where
  "mk_GraphMemory domain forbid =
     (case domain of
        PStr d \<Rightarrow>
          if strip d = [] then Inl (ValueErr ''default_domain must be a non-empty string'')
          else (case forbid of
                  PBool b \<Rightarrow> Inr \<lparr>gm_default_domain = d, gm_forbid_implicit_copies = b\<rparr>
                | _ \<Rightarrow> Inl (ValueErr ''forbid_implicit_copies must be a boolean''))
      | _ \<Rightarrow> Inl (ValueErr ''default_domain must be a non-empty string''))"

definition mechanics_error :: "string \<Rightarrow> string \<Rightarrow> py_error" where
  "mechanics_error path msg = NamedErr ''RuntimeMechanicsResolutionError'' (path @ '': '' @ msg)"

definition mechanics_mapping :: "string \<Rightarrow> pyval \<Rightarrow> (pyval \<times> pyval) list result" where
  "mechanics_mapping path value = (case value of PDict d \<Rightarrow> Inr d | _ \<Rightarrow> Inl (mechanics_error path ''must be a mapping''))"

definition reject_mechanics :: "(pyval \<Rightarrow> string) \<Rightarrow> (pyval \<times> pyval) list \<Rightarrow> string list \<Rightarrow> string \<Rightarrow> unit result" where
  "reject_mechanics render value allowed path =
     (let unknown = sort (map render (filter (\<lambda>k. k \<notin> set (map PStr allowed)) (map fst value))) in
      if unknown \<noteq> [] then Inl (mechanics_error path (''unsupported fields: '' @ join_on '', '' unknown)) else Inr ())"

definition required_int :: "(pyval \<times> pyval) list \<Rightarrow> string \<Rightarrow> string \<Rightarrow> int \<Rightarrow> int result" where
  "required_int value key path minimum =
     (let field_path = path @ ''.'' @ key in
      case map_of value (PStr key) of
        None \<Rightarrow> Inl (mechanics_error field_path ''is required'')
      | Some (PInt n) \<Rightarrow>
          if n < minimum then Inl (mechanics_error field_path (''must be greater than or equal to '' @ int_str minimum))
          else Inr n
      | Some _ \<Rightarrow> Inl (mechanics_error field_path ''must be an integer''))"

definition resolve_pool :: "(pyval \<Rightarrow> string) \<Rightarrow> string \<Rightarrow> pyval \<Rightarrow> pool_mechanics result" where
  "resolve_pool render path value =
     ebind (mechanics_mapping path value) (\<lambda>d.
     ebind (reject_mechanics render d [''block_size'', ''capacity'', ''threshold''] path) (\<lambda>_.
     ebind (required_int d ''block_size'' path 4096) (\<lambda>b.
     ebind (required_int d ''capacity'' path 1) (\<lambda>c.
     ebind (required_int d ''threshold'' path 0) (\<lambda>t.
       Inr \<lparr>pm_block_size = b, pm_capacity = c, pm_threshold = t\<rparr>)))))"

definition get_or :: "(pyval \<times> pyval) list \<Rightarrow> string \<Rightarrow> pyval \<Rightarrow> pyval" where
  "get_or d k v = (case map_of d (PStr k) of None \<Rightarrow> v | Some x \<Rightarrow> x)"

text \<open>\<open>except ValueError as exc\<close>; the constructor raises nothing else.\<close>

definition as_mechanics_error :: "string \<Rightarrow> 'a result \<Rightarrow> 'a result" where
  "as_mechanics_error path r = (case r of Inl exc \<Rightarrow> Inl (mechanics_error path (exc_str exc)) | Inr x \<Rightarrow> Inr x)"

lemma as_mechanics_error_Inr [result_elims]: "as_mechanics_error path r = Inr x \<longleftrightarrow> r = Inr x"
  by (auto simp: as_mechanics_error_def split: sum.split)

definition resolve_graph_memory :: "(pyval \<Rightarrow> string) \<Rightarrow> pyval \<Rightarrow> graph_memory result" where
  "resolve_graph_memory render value =
     (let path = ''runtime.mechanics.graph_memory'' in
      ebind (mechanics_mapping path value) (\<lambda>d.
      ebind (reject_mechanics render d [''default_domain'', ''forbid_implicit_copies''] path) (\<lambda>_.
        as_mechanics_error path
          (mk_GraphMemory (get_or d ''default_domain'' (PStr ''auto'')) (get_or d ''forbid_implicit_copies'' (PBool False))))))"

definition resolve_telemetry :: "(pyval \<Rightarrow> string) \<Rightarrow> pyval \<Rightarrow> int option result" where
  "resolve_telemetry render value =
     (let path = ''runtime.mechanics.telemetry'' in
      ebind (mechanics_mapping path value) (\<lambda>d.
      ebind (reject_mechanics render d [''sample_capacity''] path) (\<lambda>_.
        if map_of d (PStr ''sample_capacity'') = None then Inr None
        else ebind (required_int d ''sample_capacity'' path 1) (\<lambda>n. Inr (Some n)))))"

definition required_key :: "(pyval \<times> pyval) list \<Rightarrow> string \<Rightarrow> string \<Rightarrow> pyval result" where
  "required_key d key path =
     (case map_of d (PStr key) of None \<Rightarrow> Inl (mechanics_error (path @ ''.'' @ key) ''is required'') | Some v \<Rightarrow> Inr v)"

definition resolve_process :: "(pyval \<Rightarrow> string) \<Rightarrow> pyval \<Rightarrow> process_mechanics result" where
  "resolve_process render value =
     (let path = ''runtime.mechanics.process'' in
      ebind (mechanics_mapping path value) (\<lambda>d.
      ebind (reject_mechanics render d [''input_pool'', ''output_pool''] path) (\<lambda>_.
      ebind (required_key d ''input_pool'' path) (\<lambda>i.
      ebind (required_key d ''output_pool'' path) (\<lambda>q.
      ebind (resolve_pool render (path @ ''.input_pool'') i) (\<lambda>ip.
      ebind (resolve_pool render (path @ ''.output_pool'') q) (\<lambda>op.
        Inr \<lparr>rm_input_pool = ip, rm_output_pool = op\<rparr>)))))))"

definition resolve_runtime_mechanics :: "(pyval \<Rightarrow> string) \<Rightarrow> execution_context option \<Rightarrow> runtime_mechanics result" where
  "resolve_runtime_mechanics render ctx =
     (case ctx of
        None \<Rightarrow> Inr default_mechanics
      | Some cx \<Rightarrow>
          (let raw = get_or (cx_runtime cx) ''mechanics'' PNone in
           if raw = PNone then Inr default_mechanics
           else
             ebind (mechanics_mapping ''runtime.mechanics'' raw) (\<lambda>d.
             ebind (reject_mechanics render d [''telemetry'', ''process'', ''graph_memory''] ''runtime.mechanics'') (\<lambda>_.
             ebind (case map_of d (PStr ''telemetry'') of None \<Rightarrow> Inr None | Some v \<Rightarrow> resolve_telemetry render v) (\<lambda>n.
             ebind (case map_of d (PStr ''graph_memory'') of
                      None \<Rightarrow> Inr default_graph_memory | Some v \<Rightarrow> resolve_graph_memory render v) (\<lambda>gm.
             ebind (case map_of d (PStr ''process'') of
                      None \<Rightarrow> Inr None | Some v \<Rightarrow> ebind (resolve_process render v) (\<lambda>p. Inr (Some p))) (\<lambda>p.
               Inr \<lparr>rm_sample_capacity = n, rm_process = p, rm_graph_memory = gm\<rparr>)))))))"

definition bounded_pool :: "pool_mechanics \<Rightarrow> bool" where
  "bounded_pool p \<longleftrightarrow> 4096 \<le> pm_block_size p \<and> 1 \<le> pm_capacity p \<and> 0 \<le> pm_threshold p"

lemma required_int_Inr: "required_int d k path least = Inr n \<Longrightarrow> map_of d (PStr k) = Some (PInt n) \<and> least \<le> n"
  by (auto simp: required_int_def Let_def split: option.splits pyval.splits if_splits)

lemma resolve_pool_bounded: "resolve_pool render path v = Inr p \<Longrightarrow> bounded_pool p"
  by (auto simp: resolve_pool_def bounded_pool_def result_elims dest: required_int_Inr)

lemma mk_GraphMemory_Inr: "mk_GraphMemory a b = Inr g \<Longrightarrow> strip (gm_default_domain g) \<noteq> []"
  by (auto simp: mk_GraphMemory_def split: pyval.splits if_splits)

definition bounded_mechanics :: "runtime_mechanics \<Rightarrow> bool" where
  "bounded_mechanics r \<longleftrightarrow> (\<forall>n. rm_sample_capacity r = Some n \<longrightarrow> 1 \<le> n) \<and> strip (gm_default_domain (rm_graph_memory r)) \<noteq> [] \<and>
     (\<forall>p. rm_process r = Some p \<longrightarrow> bounded_pool (rm_input_pool p) \<and> bounded_pool (rm_output_pool p))"

lemma default_mechanics_bounded: "bounded_mechanics default_mechanics"
  by (simp add: bounded_mechanics_def default_mechanics_def default_graph_memory_def)

lemma resolve_telemetry_bounded: "resolve_telemetry render v = Inr (Some n) \<Longrightarrow> 1 \<le> n"
  by (auto simp: resolve_telemetry_def Let_def result_elims dest: required_int_Inr split: if_splits)

lemma resolve_graph_memory_bounded: "resolve_graph_memory render v = Inr g \<Longrightarrow> strip (gm_default_domain g) \<noteq> []"
  by (auto simp: resolve_graph_memory_def Let_def result_elims dest: mk_GraphMemory_Inr)

lemma resolve_process_bounded:
  "resolve_process render v = Inr p \<Longrightarrow> bounded_pool (rm_input_pool p) \<and> bounded_pool (rm_output_pool p)"
  by (auto simp: resolve_process_def Let_def result_elims dest: resolve_pool_bounded)

text \<open>The proof is done once, for this theory's property and for Direct_System.\<close>

lemma resolve_mechanics_Inr:
  assumes "resolve_runtime_mechanics render ctx = Inr r"
  shows "bounded_mechanics r \<and>
    (ctx = None \<longrightarrow> r = default_mechanics) \<and>
    (\<forall>cx d k. ctx = Some cx \<and> map_of (cx_runtime cx) (PStr ''mechanics'') = Some (PDict d) \<and> k \<in> fst ` set d \<longrightarrow>
       k \<in> {PStr ''telemetry'', PStr ''process'', PStr ''graph_memory''})"
proof (cases ctx)
  case None
  with assms default_mechanics_bounded show ?thesis by (simp add: resolve_runtime_mechanics_def)
next
  case (Some cx)
  let ?raw = "get_or (cx_runtime cx) ''mechanics'' PNone"
  show ?thesis
  proof (cases "?raw = PNone")
    case True
    with assms Some default_mechanics_bounded show ?thesis
      by (auto simp: resolve_runtime_mechanics_def get_or_def)
  next
    case False
    with assms Some obtain d n gm p where d: "mechanics_mapping ''runtime.mechanics'' ?raw = Inr d"
      and known: "reject_mechanics render d [''telemetry'', ''process'', ''graph_memory''] ''runtime.mechanics'' = Inr ()"
      and n: "(case map_of d (PStr ''telemetry'') of None \<Rightarrow> Inr None | Some v \<Rightarrow> resolve_telemetry render v) = Inr n"
      and gm: "(case map_of d (PStr ''graph_memory'') of
           None \<Rightarrow> Inr default_graph_memory | Some v \<Rightarrow> resolve_graph_memory render v) = Inr gm"
      and p: "(case map_of d (PStr ''process'') of
           None \<Rightarrow> Inr None | Some v \<Rightarrow> ebind (resolve_process render v) (\<lambda>p. Inr (Some p))) = Inr p"
      and r: "r = \<lparr>rm_sample_capacity = n, rm_process = p, rm_graph_memory = gm\<rparr>"
      by (auto simp: resolve_runtime_mechanics_def Let_def result_elims)
    have "1 \<le> k" if "n = Some k" for k
      using n that resolve_telemetry_bounded by (auto split: option.splits)
    moreover have "strip (gm_default_domain gm) \<noteq> []"
      using gm resolve_graph_memory_bounded by (auto simp: default_graph_memory_def split: option.splits)
    moreover have "bounded_pool (rm_input_pool q) \<and> bounded_pool (rm_output_pool q)" if "p = Some q" for q
      using p that resolve_process_bounded by (auto simp: result_elims split: option.splits)
    moreover from d have "?raw = PDict d" by (auto simp: mechanics_mapping_def split: pyval.splits)
    moreover from known have "\<forall>k \<in> fst ` set d. k \<in> {PStr ''telemetry'', PStr ''process'', PStr ''graph_memory''}"
      by (auto simp: reject_mechanics_def Let_def filter_empty_conv split: if_splits)
    ultimately show ?thesis using Some by (auto simp: bounded_mechanics_def r get_or_def)
  qed
qed

lemmas resolve_mechanics_bounded = resolve_mechanics_Inr [THEN conjunct1]

text \<open>
  The runtime mechanics that an execution context resolves to are within their bounds: a positive
  sample capacity, blocks of at least a page, pools that hold at least one block, a non-negative
  threshold and a non-blank default domain; a context that says nothing about them gives the
  defaults, and a field the code does not know is refused.
\<close>

theorem runtime_mechanics_bounded:
  assumes "resolve_runtime_mechanics render ctx = Inr r"
  shows "bounded_mechanics r \<and>
    (ctx = None \<longrightarrow> r = default_mechanics) \<and>
    (\<forall>cx d k. ctx = Some cx \<and> map_of (cx_runtime cx) (PStr ''mechanics'') = Some (PDict d) \<and> k \<in> fst ` set d \<longrightarrow>
       k \<in> {PStr ''telemetry'', PStr ''process'', PStr ''graph_memory''})"
  using assms by (rule resolve_mechanics_Inr)

definition sample_mechanics_context :: execution_context where
  "sample_mechanics_context = empty_context\<lparr>cx_runtime := [(PStr ''mechanics'',
     PDict [(PStr ''telemetry'', PDict [(PStr ''sample_capacity'', PInt 8)]),
            (PStr ''graph_memory'', PDict [(PStr ''default_domain'', PStr ''cpu'')])])]\<rparr>"

theorem runtime_mechanics_bounded_witness:
  "\<exists>r. resolve_runtime_mechanics (\<lambda>_. []) (Some sample_mechanics_context) = Inr r \<and> bounded_mechanics r"
proof -
  have "case resolve_runtime_mechanics (\<lambda>_. []) (Some sample_mechanics_context) of Inl _ \<Rightarrow> False | Inr _ \<Rightarrow> True" by code_simp
  then obtain r where r: "resolve_runtime_mechanics (\<lambda>_. []) (Some sample_mechanics_context) = Inr r" by (auto split: sum.splits)
  from runtime_mechanics_bounded [OF this] r show ?thesis by blast
qed

subsection \<open>Indexes over a context\<close>

definition materialization_error :: "string \<Rightarrow> py_error" where
  "materialization_error msg = NamedErr ''DirectMaterializationError'' msg"

definition immutable_unique_index :: "('a \<Rightarrow> string) \<Rightarrow> string \<Rightarrow> 'a list \<Rightarrow> (string \<times> 'a) list result" where
  "immutable_unique_index key kind items =
     efold (\<lambda>index x.
       if key x = [] then Inl (materialization_error (kind @ '' identity must be a non-empty string''))
       else if key x \<in> fst ` set index
       then Inl (materialization_error (''duplicate '' @ kind @ '' identity: '' @ repr_str (key x)))
       else Inr (index @ [(key x, x)])) [] items"

definition immutable_graph_index :: "backend_context \<Rightarrow> (string \<Rightarrow> 'a list) \<Rightarrow> (string \<times> 'a list) list result" where
  "immutable_graph_index c selector =
     efold (\<lambda>graphs g.
       if g \<in> fst ` set graphs then Inl (materialization_error (''duplicate graph identity: '' @ repr_str g))
       else Inr (graphs @ [(g, selector g)])) [] (graph_names c)"

record direct_materialization =
  dm_context :: backend_context
  dm_targets_by_name :: "(string \<times> planned_target) list"
  dm_resources_by_name :: "(string \<times> planned_resource) list"
  dm_applications_by_name :: "(string \<times> planned_application) list"
  dm_nodes_by_id :: "(string \<times> planned_node) list"
  dm_nodes_by_graph :: "(string \<times> planned_node list) list"
  dm_connections_by_graph :: "(string \<times> planned_connection list) list"

definition materialize_direct_context :: "backend_context \<Rightarrow> direct_materialization result" where
  "materialize_direct_context c =
     ebind (immutable_unique_index tg_name ''target'' (bc_targets c)) (\<lambda>targets.
     ebind (immutable_unique_index rs_name ''resource'' (bc_resources c)) (\<lambda>resources.
     ebind (immutable_unique_index ap_name ''application'' (bc_applications c)) (\<lambda>applications.
     ebind (immutable_unique_index nd_id ''node'' (bc_nodes c)) (\<lambda>nodes.
     ebind (immutable_graph_index c (nodes_for_graph c)) (\<lambda>by_graph.
     ebind (immutable_graph_index c (connections_for_graph c)) (\<lambda>connections.
       Inr \<lparr>dm_context = c, dm_targets_by_name = targets, dm_resources_by_name = resources,
            dm_applications_by_name = applications, dm_nodes_by_id = nodes, dm_nodes_by_graph = by_graph,
            dm_connections_by_graph = connections\<rparr>))))))"

subsection \<open>Edges\<close>

definition runtime_edge_binding_from_planned :: "planned_connection \<Rightarrow> edge_binding result" where
  "runtime_edge_binding_from_planned c =
     ebind (mk_RuntimeQueueBinding (PStr (cn_source c)) (PStr (cn_target c))
              (PInt (cp_capacity (cn_execution c))) (PStr (cp_policy (cn_execution c)))) (\<lambda>q.
       mk_RuntimeEdgeBinding q (cp_domain (cn_execution c)) (cp_allow_copy (cn_execution c)))"

text \<open>The dictionary of a graph's loaded nodes by name, and the shared objects after wiring them.\<close>

definition graph_view :: "loaded_nodes \<Rightarrow> planned_node list \<Rightarrow> loaded_nodes" where
  "graph_view nodes pns =
     dict_update [] (concat (map (\<lambda>n. case map_of nodes (nd_id n) of None \<Rightarrow> [] | Some l \<Rightarrow> [(nd_name n, l)]) pns))"

definition write_back :: "planned_node list \<Rightarrow> loaded_nodes \<Rightarrow> loaded_nodes \<Rightarrow> loaded_nodes" where
  "write_back pns view nodes =
     map (\<lambda>(i, l). (i, case find (\<lambda>n. nd_id n = i) pns of None \<Rightarrow> l
       | Some n \<Rightarrow> (case map_of view (nd_name n) of None \<Rightarrow> l | Some l' \<Rightarrow> l'))) nodes"

definition wire_planned ::
    "graph_memory \<Rightarrow> loaded_nodes \<times> runtime_edge list \<Rightarrow> planned_connection \<Rightarrow> (loaded_nodes \<times> runtime_edge list) result" where
  "wire_planned gm st c = ebind (runtime_edge_binding_from_planned c) (wire_edge gm st)"

definition wire_graph ::
    "graph_memory \<Rightarrow> (string \<times> planned_node list) list \<Rightarrow> loaded_nodes \<times> runtime_edge list \<Rightarrow>
     string \<times> planned_connection list \<Rightarrow> (loaded_nodes \<times> runtime_edge list) result" where
  "wire_graph gm nodes_by_graph st gc =
     (let pns = (case map_of nodes_by_graph (fst gc) of None \<Rightarrow> [] | Some ns \<Rightarrow> ns) in
      ebind (efold (wire_planned gm) (graph_view (fst st) pns, []) (snd gc)) (\<lambda>(view, es).
        Inr (write_back pns view (fst st), snd st @ es)))"

definition materialize_direct_edges ::
    "direct_materialization \<Rightarrow> loaded_nodes \<Rightarrow> runtime_mechanics \<Rightarrow> (loaded_nodes \<times> runtime_edge list) result" where
  "materialize_direct_edges d nodes mechanics =
     efold (wire_graph (rm_graph_memory mechanics) (dm_nodes_by_graph d)) (nodes, []) (dm_connections_by_graph d)"

subsection \<open>Nodes and the prepared runtime\<close>

record direct_loaders =
  dl_isolation :: "planned_node \<Rightarrow> string"
  dl_load_node :: "planned_node \<Rightarrow> loaded_node result"  \<comment> \<open>validated and loaded, not yet isolated\<close>
  dl_isolate :: "planned_node \<Rightarrow> pool_mechanics \<times> pool_mechanics \<Rightarrow> loaded_node \<Rightarrow> loaded_node result"

definition node_preparation_error :: "string \<Rightarrow> string \<Rightarrow> py_error" where
  "node_preparation_error node_id msg = NamedErr ''DirectNodePreparationError'' (''Node '' @ repr_str node_id @ '': '' @ msg)"

definition process_isolation_settings :: "planned_node \<Rightarrow> runtime_mechanics \<Rightarrow> (pool_mechanics \<times> pool_mechanics) result" where
  "process_isolation_settings n mechanics =
     (case rm_process mechanics of
        None \<Rightarrow> Inl (node_preparation_error (nd_id n)
                  ''direct process isolation requires canonical process-memory settings at runtime.mechanics.process'')
      | Some p \<Rightarrow>
          if pm_threshold (rm_input_pool p) \<noteq> pm_threshold (rm_output_pool p)
          then Inl (node_preparation_error (nd_id n)
                 ''direct process isolation currently requires matching input_pool.threshold and output_pool.threshold'')
          else Inr (rm_input_pool p, rm_output_pool p))"

text \<open>A LoadedNode starts with empty dictionaries of inputs and outputs.\<close>

definition materialize_direct_node :: "direct_loaders \<Rightarrow> runtime_mechanics \<Rightarrow> planned_node \<Rightarrow> loaded_node result" where
  "materialize_direct_node L mechanics n =
     (let isolation = dl_isolation L n in
      ebind (if isolation = ''process'' then ebind (process_isolation_settings n mechanics) (\<lambda>s. Inr (Some s))
             else if isolation \<noteq> ''in_process''
             then Inl (node_preparation_error (nd_id n) (''unsupported direct node isolation: '' @ repr_str isolation))
             else Inr None) (\<lambda>settings.
      ebind (dl_load_node L n) (\<lambda>l.
      ebind (case settings of None \<Rightarrow> Inr l | Some s \<Rightarrow> dl_isolate L n s l) (\<lambda>l.
        Inr (l\<lparr>ld_isolation := isolation, ld_inputs := [], ld_outputs := []\<rparr>)))))"

record ('r, 'a) direct_prepared =
  dx_materialization :: direct_materialization
  dx_resources :: "(string \<times> 'r) list"
  dx_applications :: "(string \<times> 'a) list"
  dx_nodes :: loaded_nodes
  dx_mechanics :: runtime_mechanics
  dx_edges :: "runtime_edge list"

text \<open>\<open>d[key(x)] = f(x)\<close> for every item.\<close>

definition load_all :: "('x \<Rightarrow> string) \<Rightarrow> ('x \<Rightarrow> 'y result) \<Rightarrow> 'x list \<Rightarrow> (string \<times> 'y) list result" where
  "load_all key f xs = ebind (emap (\<lambda>x. ebind (f x) (\<lambda>y. Inr (key x, y))) xs) (\<lambda>ys. Inr (dict_update [] ys))"

definition prepare_direct_execution ::
    "direct_loaders option \<Rightarrow> (planned_resource \<Rightarrow> 'r result) \<Rightarrow> (planned_application \<Rightarrow> 'a result) \<Rightarrow> (pyval \<Rightarrow> string) \<Rightarrow>
     backend_context \<Rightarrow> ('r, 'a) direct_prepared result" where
  "prepare_direct_execution environment resource application render c =
     ebind (materialize_direct_context c) (\<lambda>d.
     ebind (resolve_runtime_mechanics render (bc_execution_context c)) (\<lambda>mechanics.
     ebind (case (environment, bc_nodes c) of
              (None, n # _) \<Rightarrow> Inl (node_preparation_error (nd_id n)
                 ''direct node preparation requires a backend-owned DirectExecutionEnvironment'')
            | _ \<Rightarrow> Inr ()) (\<lambda>_.
     ebind (load_all rs_name resource (bc_resources c)) (\<lambda>resources.
     ebind (load_all ap_name application (bc_applications c)) (\<lambda>applications.
     ebind (case environment of
              None \<Rightarrow> Inr [] | Some L \<Rightarrow> load_all nd_id (materialize_direct_node L mechanics) (bc_nodes c)) (\<lambda>nodes.
     ebind (materialize_direct_edges d nodes mechanics) (\<lambda>(nodes, es).
     ebind (validate_runtime_graph (\<lambda>names. render (PList (map PStr names))) nodes) (\<lambda>_.
       Inr \<lparr>dx_materialization = d, dx_resources = resources, dx_applications = applications,
            dx_nodes = nodes, dx_mechanics = mechanics, dx_edges = es\<rparr>))))))))"

subsection \<open>Index lemmas\<close>

lemma immutable_unique_index_Inr:
  "immutable_unique_index key kind xs = Inr r \<longleftrightarrow>
     r = map (\<lambda>x. (key x, x)) xs \<and> distinct (map key xs) \<and> [] \<notin> key ` set xs"
proof -
  let ?step = "\<lambda>index x.
       if key x = [] then Inl (materialization_error (kind @ '' identity must be a non-empty string''))
       else if key x \<in> fst ` set index
       then Inl (materialization_error (''duplicate '' @ kind @ '' identity: '' @ repr_str (key x)))
       else Inr (index @ [(key x, x)])"
  have "efold ?step (map (\<lambda>x. (key x, x)) ys) xs = Inr r \<longleftrightarrow>
      r = map (\<lambda>x. (key x, x)) (ys @ xs) \<and> distinct (map key (ys @ xs)) \<and> [] \<notin> key ` set xs"
    if "distinct (map key ys)" for ys
    using that
  proof (induction xs arbitrary: ys)
    case (Cons x xs)
    show ?case
    proof (cases "key x = [] \<or> key x \<in> key ` set ys")
      case True
      then show ?thesis by (auto simp: image_comp comp_def)
    next
      case False
      then have "?step (map (\<lambda>x. (key x, x)) ys) x = Inr (map (\<lambda>x. (key x, x)) (ys @ [x]))"
        by (simp add: image_comp comp_def)
      with Cons.IH [of "ys @ [x]"] False Cons.prems show ?thesis by auto
    qed
  qed auto
  from this [of "[]"] show ?thesis by (simp add: immutable_unique_index_def)
qed

lemma immutable_graph_index_Inr:
  "immutable_graph_index c selector = Inr r \<longleftrightarrow> r = map (\<lambda>g. (g, selector g)) (graph_names c) \<and> distinct (graph_names c)"
proof -
  let ?step = "\<lambda>graphs g.
       if g \<in> fst ` set graphs then Inl (materialization_error (''duplicate graph identity: '' @ repr_str g))
       else Inr (graphs @ [(g, selector g)])"
  have "efold ?step (map (\<lambda>g. (g, selector g)) hs) gs = Inr r \<longleftrightarrow>
      r = map (\<lambda>g. (g, selector g)) (hs @ gs) \<and> distinct (hs @ gs)" if "distinct hs" for hs gs
    using that
  proof (induction gs arbitrary: hs)
    case (Cons g gs)
    show ?case
    proof (cases "g \<in> set hs")
      case True
      then show ?thesis by (auto simp: image_comp comp_def)
    next
      case False
      then have "?step (map (\<lambda>g. (g, selector g)) hs) g = Inr (map (\<lambda>g. (g, selector g)) (hs @ [g]))"
        by (simp add: image_comp comp_def)
      with Cons.IH [of "hs @ [g]"] False Cons.prems show ?thesis by auto
    qed
  qed auto
  from this [of "[]" "graph_names c"] show ?thesis by (simp add: immutable_graph_index_def)
qed

lemma materialize_direct_context_Inr:
  "materialize_direct_context c = Inr d \<longleftrightarrow>
     distinct (map tg_name (bc_targets c)) \<and> [] \<notin> tg_name ` set (bc_targets c) \<and>
     distinct (map rs_name (bc_resources c)) \<and> [] \<notin> rs_name ` set (bc_resources c) \<and>
     distinct (map ap_name (bc_applications c)) \<and> [] \<notin> ap_name ` set (bc_applications c) \<and>
     distinct (map nd_id (bc_nodes c)) \<and> [] \<notin> nd_id ` set (bc_nodes c) \<and> distinct (graph_names c) \<and>
     d = \<lparr>dm_context = c, dm_targets_by_name = map (\<lambda>x. (tg_name x, x)) (bc_targets c),
          dm_resources_by_name = map (\<lambda>x. (rs_name x, x)) (bc_resources c),
          dm_applications_by_name = map (\<lambda>x. (ap_name x, x)) (bc_applications c),
          dm_nodes_by_id = map (\<lambda>x. (nd_id x, x)) (bc_nodes c),
          dm_nodes_by_graph = map (\<lambda>g. (g, nodes_for_graph c g)) (graph_names c),
          dm_connections_by_graph = map (\<lambda>g. (g, connections_for_graph c g)) (graph_names c)\<rparr>"
  by (auto simp: materialize_direct_context_def result_elims immutable_unique_index_Inr immutable_graph_index_Inr)

end
