(* ===== verification/Topology.thy ===== *)
theory Topology
  imports Prelude "HOL-Library.Multiset"
begin

text \<open>
  The ordering algorithm of \<open>src/nodrix/system/planning.py\<close> (\<open>_topological_order\<close>), used for
  Graph nodes and for the startup order of sibling Systems: Kahn's algorithm with a queue,
  in declaration order, that appends the unresolved members at the end and reports whether
  the graph is acyclic. Self edges are ignored; an edge into an undeclared node raises
  \<open>KeyError\<close>.
\<close>

section \<open>The algorithm\<close>

definition proper_edges :: "('k \<times> 'k) list \<Rightarrow> ('k \<times> 'k) list" where
  "proper_edges edges = filter (\<lambda>(s, t). s \<noteq> t) edges"

text \<open>\<open>outgoing[name]\<close>, in edge order.\<close>

definition outgoing :: "('k \<times> 'k) list \<Rightarrow> 'k \<Rightarrow> 'k list" where
  "outgoing E n = map snd (filter (\<lambda>e. fst e = n) E)"

text \<open>\<open>indegree[target] += 1\<close> for each edge, starting from 0.\<close>

definition indegree :: "('k \<times> 'k) list \<Rightarrow> 'k \<Rightarrow> int" where
  "indegree E n = int (length (filter (\<lambda>e. snd e = n) E))"

text \<open>The inner loop over \<open>outgoing[name]\<close>.\<close>

fun relax :: "'k list \<Rightarrow> ('k \<Rightarrow> int) \<Rightarrow> 'k list \<Rightarrow> ('k \<Rightarrow> int) \<times> 'k list" where
  "relax [] deg ready = (deg, ready)"
| "relax (t # ts) deg ready =
     (let deg' = deg(t := deg t - 1)
      in relax ts deg' (if deg' t = 0 then ready @ [t] else ready))"

definition waiting :: "('k \<times> 'k) list \<Rightarrow> ('k \<Rightarrow> int) \<Rightarrow> 'k set" where
  "waiting E deg = {t \<in> snd ` set E. 0 < deg t}"

lemma card_waiting_step:
  assumes "t \<in> snd ` set E" and "d' = d(t := d t - 1)"
  shows "card (waiting E d') + (if d' t = 0 then 1 else 0) \<le> card (waiting E d)"
proof (cases "d' t = 0")
  case True
  then have "waiting E d = insert t (waiting E d')" "t \<notin> waiting E d'"
    using assms by (auto simp: waiting_def)
  then show ?thesis by (simp add: waiting_def True)
next
  case False
  have "waiting E d' \<subseteq> waiting E d" using assms by (auto simp: waiting_def split: if_splits)
  then show ?thesis using False by (simp add: card_mono waiting_def)
qed

lemma relax_measure:
  assumes "set ts \<subseteq> snd ` set E" and "relax ts deg ready = (deg', ready')"
  shows "length ready' + card (waiting E deg') \<le> length ready + card (waiting E deg)"
  using assms
proof (induction ts arbitrary: deg ready)
  case (Cons t ts)
  let ?d = "deg(t := deg t - 1)"
  have "length ready' + card (waiting E deg')
        \<le> length (if ?d t = 0 then ready @ [t] else ready) + card (waiting E ?d)"
    using Cons.prems by (intro Cons.IH) (simp_all add: Let_def del: fun_upd_apply)
  moreover have "card (waiting E ?d) + (if ?d t = 0 then 1 else 0) \<le> card (waiting E deg)"
    using Cons.prems by (intro card_waiting_step) auto
  ultimately show ?case by (auto split: if_splits)
qed simp

text \<open>The loop \<open>while ready\<close>. It stops because every name enters the queue when its
  positive indegree reaches zero.\<close>

function kahn :: "('k \<times> 'k) list \<Rightarrow> ('k \<Rightarrow> int) \<Rightarrow> 'k list \<Rightarrow> 'k list \<Rightarrow> 'k list" where
  "kahn E deg [] ordered = ordered"
| "kahn E deg (n # ready) ordered =
     kahn E (fst (relax (outgoing E n) deg ready)) (snd (relax (outgoing E n) deg ready)) (ordered @ [n])"
  by pat_completeness auto
termination
proof (relation "measure (\<lambda>(E, deg, ready, ordered). length ready + card (waiting E deg))", goal_cases)
  case (2 E deg n ready ordered)
  have "set (outgoing E n) \<subseteq> snd ` set E" by (auto simp: outgoing_def)
  from relax_measure [OF this, of deg ready] show ?case
    by (cases "relax (outgoing E n) deg ready") fastforce
qed simp

definition topological_order :: "string list \<Rightarrow> (string \<times> string) list \<Rightarrow> (string list \<times> bool) result" where
  "topological_order names edges =
     (let E = proper_edges edges in
      case find (\<lambda>e. snd e \<notin> set names) E of
        Some e \<Rightarrow> Inl (KeyErr (snd e))
      | None \<Rightarrow>
          let deg = indegree E;
              ordered = kahn E deg (filter (\<lambda>n. deg n = 0) names) [];
              acyclic_flag = (length ordered = length names)
          in Inr (ordered @ filter (\<lambda>n. n \<notin> set ordered) names, acyclic_flag))"

section \<open>Correctness of the inner loop\<close>

lemma relax_deg: "fst (relax ts deg ready) t = deg t - int (count_list ts t)"
  by (induction ts arbitrary: deg ready) (auto simp: Let_def)

lemma relax_ready:
  assumes "\<And>t. t \<in> set ts \<Longrightarrow> int (count_list ts t) \<le> deg t"
  shows "\<exists>new. snd (relax ts deg ready) = ready @ new \<and> distinct new \<and>
               set new = {t \<in> set ts. deg t = int (count_list ts t)}"
  using assms
proof (induction ts arbitrary: deg ready)
  case (Cons t ts)
  let ?d = "deg(t := deg t - 1)"
  have "int (count_list ts u) \<le> ?d u" if "u \<in> set ts" for u
    using Cons.prems [of u] that by (auto split: if_splits)
  from Cons.IH [OF this, where ready = "if ?d t = 0 then ready @ [t] else ready"]
  obtain new where new: "snd (relax ts ?d (if ?d t = 0 then ready @ [t] else ready)) =
      (if ?d t = 0 then ready @ [t] else ready) @ new" "distinct new"
      "set new = {u \<in> set ts. ?d u = int (count_list ts u)}"
    by blast
  have le: "1 + int (count_list ts t) \<le> deg t" using Cons.prems [of t] by simp
  have mem: "u \<in> set new \<longleftrightarrow> u \<in> set ts \<and> ?d u = int (count_list ts u)" for u
    by (simp add: new(3))
  show ?case
  proof (cases "deg t = 1")
    case True
    with le have t: "t \<notin> set ts" by (simp add: count_list_0_iff)
    then have "t \<notin> set new" by (simp add: mem)
    moreover have "set (t # new) = {u \<in> set (t # ts). deg u = int (count_list (t # ts) u)}"
    proof (rule set_eqI)
      fix u
      show "u \<in> set (t # new) \<longleftrightarrow> u \<in> {u \<in> set (t # ts). deg u = int (count_list (t # ts) u)}"
        using t True count_notin [OF t] by (cases "u = t") (auto simp: mem)
    qed
    ultimately show ?thesis
      using True new(1,2) by (intro exI [of _ "t # new"]) (simp add: Let_def)
  next
    case False
    have "set new = {u \<in> set (t # ts). deg u = int (count_list (t # ts) u)}"
    proof (rule set_eqI)
      fix u
      show "u \<in> set new \<longleftrightarrow> u \<in> {u \<in> set (t # ts). deg u = int (count_list (t # ts) u)}"
        using False count_notin [of t ts] by (cases "u = t"; cases "t \<in> set ts") (auto simp: mem)
    qed
    then show ?thesis
      using False new(1,2) by (intro exI [of _ new]) (simp add: Let_def)
  qed
qed simp

section \<open>The loop invariant\<close>

definition pending_in :: "('k \<times> 'k) list \<Rightarrow> 'k list \<Rightarrow> 'k \<Rightarrow> nat" where
  "pending_in E done t = length (filter (\<lambda>e. snd e = t \<and> fst e \<notin> set done) E)"

definition respects_edges :: "('k \<times> 'k) list \<Rightarrow> 'k list \<Rightarrow> bool" where
  "respects_edges E xs = (\<forall>ys z zs. xs = ys @ z # zs \<longrightarrow> (\<forall>s. (s, z) \<in> set E \<longrightarrow> s \<in> set ys))"

definition kahn_inv :: "('k \<times> 'k) list \<Rightarrow> 'k list \<Rightarrow> ('k \<Rightarrow> int) \<Rightarrow> 'k list \<Rightarrow> 'k list \<Rightarrow> bool" where
  "kahn_inv E names deg ready ordered =
     ((\<forall>t. deg t = int (pending_in E ordered t)) \<and>
      distinct (ordered @ ready) \<and>
      set (ordered @ ready) = {t \<in> set names. deg t = 0} \<and>
      respects_edges E ordered)"

lemma pending_in_snoc:
  assumes "n \<notin> set done"
  shows "pending_in E done t = pending_in E (done @ [n]) t + count_list (outgoing E n) t"
  using assms unfolding pending_in_def outgoing_def
  by (induction E) auto

lemma pending_zero: "pending_in E done t = 0 \<longleftrightarrow> (\<forall>s. (s, t) \<in> set E \<longrightarrow> s \<in> set done)"
  by (auto simp: pending_in_def filter_empty_conv)

lemma respects_snoc:
  assumes "respects_edges E xs" and "\<forall>s. (s, n) \<in> set E \<longrightarrow> s \<in> set xs"
  shows "respects_edges E (xs @ [n])"
  unfolding respects_edges_def
proof (intro allI impI)
  fix ys z zs s assume split: "xs @ [n] = ys @ z # zs" and e: "(s, z) \<in> set E"
  show "s \<in> set ys"
  proof (cases zs rule: rev_cases)
    case Nil
    with split e assms(2) show ?thesis by simp
  next
    case (snoc us u)
    with split have "xs = ys @ z # us" by simp
    with assms(1) e show ?thesis unfolding respects_edges_def by blast
  qed
qed

lemma kahn_inv_step:
  assumes inv: "kahn_inv E names deg (n # ready) ordered" and sub: "snd ` set E \<subseteq> set names"
  shows "kahn_inv E names (fst (relax (outgoing E n) deg ready))
           (snd (relax (outgoing E n) deg ready)) (ordered @ [n])"
proof -
  let ?out = "outgoing E n"
  let ?deg = "fst (relax ?out deg ready)"
  have n: "n \<notin> set ordered" "deg n = 0" using inv by (auto simp: kahn_inv_def)
  have deg: "deg t = int (pending_in E ordered t)" for t using inv by (simp add: kahn_inv_def)
  have deg': "?deg t = int (pending_in E (ordered @ [n]) t)" for t
    using pending_in_snoc [OF n(1), of E t] by (simp add: relax_deg deg)
  have le: "int (count_list ?out t) \<le> deg t" for t
    using pending_in_snoc [OF n(1), of E t] by (simp add: deg)
  obtain new where new: "snd (relax ?out deg ready) = ready @ new" "distinct new"
      "set new = {t \<in> set ?out. deg t = int (count_list ?out t)}"
    using relax_ready [of ?out deg ready] le by blast
  have old: "set (ordered @ n # ready) = {t \<in> set names. deg t = 0}" "distinct (ordered @ n # ready)"
    using inv by (auto simp: kahn_inv_def)
  have out_names: "set ?out \<subseteq> set names" using sub by (auto simp: outgoing_def)
  have new_pos: "0 < deg t" if "t \<in> set new" for t
  proof -
    from that new(3) have "t \<in> set ?out" "deg t = int (count_list ?out t)" by auto
    then show ?thesis by (metis count_list_0_iff of_nat_0_less_iff neq0_conv)
  qed
  have sets: "set (ordered @ [n]) \<union> set (ready @ new) = {t \<in> set names. ?deg t = 0}"
  proof -
    have *: "?deg t = 0 \<longleftrightarrow> deg t = 0 \<or> t \<in> set new" for t
    proof -
      have "t \<in> set new \<longleftrightarrow> t \<in> set ?out \<and> deg t = int (count_list ?out t)" by (simp add: new(3))
      then show ?thesis
        using le [of t] count_notin [of t ?out] unfolding relax_deg by linarith
    qed
    have "t \<in> set new \<Longrightarrow> t \<in> set names" for t using new(3) out_names by auto
    then show ?thesis unfolding * using old(1) by auto
  qed
  have "distinct ((ordered @ [n]) @ (ready @ new))"
  proof -
    have "set new \<inter> set (ordered @ n # ready) = {}" using old(1) new_pos by fastforce
    then show ?thesis using old(2) new(2) by auto
  qed
  moreover have "respects_edges E (ordered @ [n])"
  proof (rule respects_snoc)
    show "respects_edges E ordered" using inv by (simp add: kahn_inv_def)
    show "\<forall>s. (s, n) \<in> set E \<longrightarrow> s \<in> set ordered"
      using n(2) by (simp add: deg flip: pending_zero)
  qed
  ultimately show ?thesis
    using sets deg' new(1) by (auto simp: kahn_inv_def)
qed

lemma kahn_inv_final:
  assumes "kahn_inv E names deg ready ordered" and "snd ` set E \<subseteq> set names"
  shows "\<exists>deg'. kahn_inv E names deg' [] (kahn E deg ready ordered)"
  using assms
  by (induction E deg ready ordered rule: kahn.induct) (auto intro: kahn_inv_step)

lemma kahn_inv_init: "distinct names \<Longrightarrow> kahn_inv E names (indegree E) (filter (\<lambda>n. indegree E n = 0) names) []"
  by (auto simp: kahn_inv_def indegree_def pending_in_def respects_edges_def)

section \<open>Correctness of the order\<close>

definition edges_within :: "string list \<Rightarrow> (string \<times> string) list \<Rightarrow> bool" where
  "edges_within names edges = (\<forall>(s, t) \<in> set edges. s \<in> set names \<and> t \<in> set names)"

lemma topological_order_total:
  assumes "distinct names" and "\<forall>e \<in> set (proper_edges edges). snd e \<in> set names"
  obtains deg ordered where "kahn_inv (proper_edges edges) names deg [] ordered"
    and "topological_order names edges =
           Inr (ordered @ filter (\<lambda>n. n \<notin> set ordered) names, length ordered = length names)"
proof -
  let ?E = "proper_edges edges"
  let ?o = "kahn ?E (indegree ?E) (filter (\<lambda>n. indegree ?E n = 0) names) []"
  obtain deg where "kahn_inv ?E names deg [] ?o"
    using kahn_inv_final [OF kahn_inv_init [OF assms(1)]] assms(2) by blast
  moreover have "find (\<lambda>e. snd e \<notin> set names) ?E = None"
    using assms(2) by (auto simp: find_None_iff)
  ultimately show thesis
    by (intro that [of deg ?o]) (auto simp: topological_order_def Let_def)
qed

lemma topological_order_Inr:
  assumes "topological_order names edges = Inr (order, flag)" and "distinct names"
  obtains deg ordered where "kahn_inv (proper_edges edges) names deg [] ordered"
    and "order = ordered @ filter (\<lambda>n. n \<notin> set ordered) names" and "flag = (length ordered = length names)"
proof -
  have "\<forall>e \<in> set (proper_edges edges). snd e \<in> set names"
    using assms(1) by (auto simp: topological_order_def Let_def find_None_iff split: option.splits)
  from topological_order_total [OF assms(2) this] obtain deg ordered
    where inv: "kahn_inv (proper_edges edges) names deg [] ordered"
      and eq: "topological_order names edges =
           Inr (ordered @ filter (\<lambda>n. n \<notin> set ordered) names, length ordered = length names)"
    by blast
  from eq assms(1) show thesis by (intro that [OF inv]) simp_all
qed

lemma topological_order_mset:
  assumes "topological_order names edges = Inr (order, flag)" and "distinct names"
  shows "mset order = mset names \<and> distinct order"
proof -
  obtain deg ordered where inv: "kahn_inv (proper_edges edges) names deg [] ordered"
    and order: "order = ordered @ filter (\<lambda>n. n \<notin> set ordered) names"
    using assms by (rule topological_order_Inr)
  from inv have "distinct ordered" "set ordered \<subseteq> set names" by (auto simp: kahn_inv_def)
  then have "distinct order" "set order = set names" unfolding order using assms(2) by auto
  then show ?thesis using assms(2) set_eq_iff_mset_eq_distinct by blast
qed

lemma topological_order_respects:
  assumes "topological_order names edges = Inr (order, True)" and "distinct names"
    and "(s, t) \<in> set edges" and "s \<noteq> t" and "order = ys @ t # zs"
  shows "s \<in> set ys"
proof -
  obtain deg ordered where inv: "kahn_inv (proper_edges edges) names deg [] ordered"
    and order: "order = ordered @ filter (\<lambda>n. n \<notin> set ordered) names"
    and len: "length ordered = length names"
    using topological_order_Inr [OF assms(1,2)] by metis
  have sub: "set ordered \<subseteq> set names" "distinct ordered" using inv by (auto simp: kahn_inv_def)
  have "set ordered = set names"
    using sub len assms(2) by (intro card_subset_eq) (simp_all add: distinct_card)
  then have "order = ordered" using order by simp
  moreover have "respects_edges (proper_edges edges) ordered" using inv by (simp add: kahn_inv_def)
  moreover have "(s, t) \<in> set (proper_edges edges)" using assms(3,4) by (simp add: proper_edges_def)
  ultimately show ?thesis using assms(5) unfolding respects_edges_def by blast
qed

lemma respects_acyclic:
  assumes "respects_edges E xs" and "distinct xs" and "set (map fst E @ map snd E) \<subseteq> set xs"
  shows "acyclic (set E)"
proof -
  define pos where "pos x = length (takeWhile (\<lambda>y. y \<noteq> x) xs)" for x
  have "pos s < pos t" if e: "(s, t) \<in> set E" for s t
  proof -
    from e assms(3) have "t \<in> set xs" by force
    then obtain ys zs where xs: "xs = ys @ t # zs" "t \<notin> set ys" by (meson split_list_first)
    with assms(1) e have "s \<in> set ys" unfolding respects_edges_def by blast
    then obtain us vs where "ys = us @ s # vs" "s \<notin> set us" by (meson split_list_first)
    then have "pos s = length us" "pos t = length ys"
      using xs by (auto simp: pos_def takeWhile_append)
    then show ?thesis using \<open>ys = us @ s # vs\<close> by simp
  qed
  then have "set E \<subseteq> measure pos" by auto
  then show ?thesis by (meson wf_measure wf_acyclic wf_subset)
qed

lemma topological_order_flag:
  assumes "topological_order names edges = Inr (order, flag)" and "distinct names"
    and "edges_within names edges"
  shows "flag \<longleftrightarrow> acyclic (set (proper_edges edges))"
proof -
  let ?E = "proper_edges edges"
  obtain deg ordered where inv: "kahn_inv ?E names deg [] ordered"
    and flag: "flag = (length ordered = length names)"
    using topological_order_Inr [OF assms(1,2)] by metis
  have within: "set (map fst ?E @ map snd ?E) \<subseteq> set names"
    using assms(3) by (auto simp: edges_within_def proper_edges_def)
  have sub: "set ordered \<subseteq> set names" "distinct ordered" "respects_edges ?E ordered"
    using inv by (auto simp: kahn_inv_def)
  have full: "flag \<longleftrightarrow> set ordered = set names"
    using flag sub assms(2) by (metis card_subset_eq distinct_card finite_set)
  show ?thesis
  proof
    assume flag
    then have "set ordered = set names" using full by simp
    then show "acyclic (set ?E)" using sub(2,3) within by (intro respects_acyclic [of _ ordered]) simp_all
  next
    assume "acyclic (set ?E)"
    then have wf: "wf (set ?E)" by (simp add: finite_acyclic_wf)
    show flag
    proof (rule ccontr)
      assume "\<not> flag"
      with full sub(1) obtain x where x: "x \<in> set names - set ordered" by auto
      from wfE_min [OF wf x] obtain z where z: "z \<in> set names - set ordered"
        and min: "\<And>y. (y, z) \<in> set ?E \<Longrightarrow> y \<notin> set names - set ordered" by metis
      have "y \<in> set ordered" if "(y, z) \<in> set ?E" for y
      proof -
        have "y \<in> fst ` set ?E" using that by (rule image_eqI [rotated]) simp
        with within have "y \<in> set names" by auto
        with min [OF that] show ?thesis by simp
      qed
      then have "pending_in ?E ordered z = 0" by (simp add: pending_zero)
      moreover have "deg z = int (pending_in ?E ordered z)"
        and "set (ordered @ []) = {t \<in> set names. deg t = 0}"
        using inv unfolding kahn_inv_def by blast+
      ultimately show False using z by simp
    qed
  qed
qed

section \<open>Properties\<close>

text \<open>
  For distinct names, the order \<open>_topological_order\<close> returns is a permutation of the names,
  its flag says whether the edges between different names are acyclic, and when it does, the
  source of every edge comes before its target.
\<close>

theorem topological_order_correct:
  assumes "distinct names" and "edges_within names edges" and "topological_order names edges = Inr (order, flag)"
  shows "mset order = mset names \<and> (flag \<longleftrightarrow> acyclic (set (proper_edges edges))) \<and>
    (flag \<longrightarrow> (\<forall>s t ys zs. (s, t) \<in> set edges \<longrightarrow> s \<noteq> t \<longrightarrow> order = ys @ t # zs \<longrightarrow> s \<in> set ys))"
proof (intro conjI impI allI)
  show "mset order = mset names" using topological_order_mset [OF assms(3,1)] by blast
  show "flag = acyclic (set (proper_edges edges))" using assms(3,1,2) by (rule topological_order_flag)
  fix s t ys zs assume flag and edge: "(s, t) \<in> set edges" "s \<noteq> t" "order = ys @ t # zs"
  then have "topological_order names edges = Inr (order, True)" using assms(3) by simp
  then show "s \<in> set ys" using assms(1) edge by (rule topological_order_respects)
qed

theorem topological_order_correct_witness:
  "mset [''b'', ''c'', ''a''] = mset [''a'', ''b'', ''c''] \<and>
   acyclic (set (proper_edges [(''b'', ''a''), (''c'', ''a'')]))"
  using topological_order_correct [of "[''a'', ''b'', ''c'']" "[(''b'', ''a''), (''c'', ''a'')]"
      "[''b'', ''c'', ''a'']" True]
  by (simp add: edges_within_def topological_order_def proper_edges_def indegree_def outgoing_def Let_def)

end
