(* ===== verification/Planner.thy ===== *)
theory Planner
  imports Validation Topology
begin

text \<open>
  \<open>plan_system\<close> of \<open>src/nodrix/system/planning.py\<close>: a validated System is resolved into an
  execution plan. Each stage of the code is a definition, in the order of the code, and a
  raised exception is the \<open>Inl\<close> of the stage. What is not under \<open>src/\<close> or does not matter
  here is a field of \<open>plan_env\<close>: the digests (\<open>json\<close> and \<open>hashlib\<close>), the type relations, the
  catalog and the resolver the caller passes, the node policy pydantic builds and \<open>str\<close> of a
  mapping key. The recursion into child Systems consumes one unit of the interpreter's
  recursion depth; when none is left the call raises \<open>RecursionError\<close>.
\<close>

record plan_env =
  pn_types :: type_env
  pn_catalog :: "definition_catalog option"
  pn_resolver :: "resolver option"
  pn_nodes :: node_env
  pn_show :: "pyval \<Rightarrow> string"
  pn_digest :: "system_model \<Rightarrow> string"
  pn_context_digest :: "execution_context \<Rightarrow> string"

definition plan_error :: "string \<Rightarrow> string \<Rightarrow> string \<Rightarrow> py_error" where
  "plan_error code path msg = CodedErr ''SystemPlanningError'' code path msg"

text \<open>\<open>x or y\<close> on optional strings.\<close>

definition or_opt :: "string option \<Rightarrow> string option \<Rightarrow> string option" where
  "or_opt x y = (case x of None \<Rightarrow> y | Some s \<Rightarrow> if s = [] then y else x)"

text \<open>\<open>d[key]\<close>.\<close>

definition dict_item :: "(string \<times> 'a) list \<Rightarrow> string \<Rightarrow> 'a result" where
  "dict_item d k = (case map_of d k of None \<Rightarrow> Inl (KeyErr k) | Some v \<Rightarrow> Inr v)"

section \<open>Validation before planning\<close>

definition raise_validation_errors :: "system_diagnostic list \<Rightarrow> unit result" where
  "raise_validation_errors ds =
     (if report_errors_of ds = [] then Inr ()
      else Inl (plan_error ''PLAN100'' ''system''
             (''System validation failed before planning: '' @ diagnostics_summary (report_errors_of ds))))"

definition validation_diagnostics :: "system_diagnostic list \<Rightarrow> planning_diagnostic list" where
  "validation_diagnostics ds =
     map (\<lambda>d. \<lparr>pd_code = dg_code d, pd_path = dg_path d, pd_message = dg_message d,
               pd_source = SYSTEM_VALIDATION\<rparr>) (report_warnings_of ds)"

section \<open>Parameters and boundary contracts\<close>

definition check_parameter :: "mapping \<Rightarrow> string \<times> system_parameter \<Rightarrow> unit result" where
  "check_parameter values = (\<lambda>(name, contract).
     if sp_required contract \<and> name \<notin> fst ` set values
     then Inl (plan_error ''PLAN408'' (''parameters.'' @ name) ''required System parameter is not configured'')
     else case map_of values name of
            None \<Rightarrow> Inr ()
          | Some v \<Rightarrow> ebind (accepts contract v) (\<lambda>ok.
              if \<not> ok
              then Inl (plan_error ''PLAN409'' (''parameters.'' @ name)
                     (''System parameter does not match declared type '' @
                      repr_str (type_value (sp_value_type contract))))
              else Inr ()))"

definition check_parameters :: "system_model \<Rightarrow> mapping \<Rightarrow> unit result" where
  "check_parameters m values =
     (let contracts = by_name sp_name (sm_parameters m) in
      case unknown_keys (map fst values) (map fst contracts) of
        name # _ \<Rightarrow> Inl (plan_error ''PLAN407'' (''parameters.'' @ name)
                         ''parameter is not declared by the System Definition'')
      | [] \<Rightarrow> ebind (emap (check_parameter values) contracts) (\<lambda>_. Inr ()))"

definition planned_ports :: "system_port list \<Rightarrow> planned_port list" where
  "planned_ports ports =
     map (\<lambda>(index, p). \<lparr>po_ordinal = index, po_name = prt_name p, po_type_id = prt_type_id p,
            po_optional = prt_optional p, po_description = prt_description p, po_metadata = prt_metadata p,
            po_extensions = prt_extensions p\<rparr>) (enumerate 0 ports)"

text \<open>The field \<open>default\<close>, \<open>None\<close> when it was not set.\<close>

definition default_value :: "system_parameter \<Rightarrow> pyval" where
  "default_value c = (case sp_default c of None \<Rightarrow> PNone | Some v \<Rightarrow> v)"

definition planned_parameters :: "system_model \<Rightarrow> mapping \<Rightarrow> planned_parameter list" where
  "planned_parameters m values =
     map (\<lambda>(index, c).
       \<lparr>pp_ordinal = index, pp_name = sp_name c, pp_type = type_value (sp_value_type c),
        pp_required = sp_required c, pp_nullable = sp_nullable c, pp_default = default_value c,
        pp_has_default = has_default c,
        pp_value = (case map_of values (sp_name c) of Some v \<Rightarrow> v | None \<Rightarrow> default_value c),
        pp_configured = (sp_name c \<in> fst ` set values), pp_description = sp_description c,
        pp_metadata = sp_metadata c, pp_extensions = sp_extensions c\<rparr>) (enumerate 0 (sm_parameters m))"

definition planned_requirements :: "system_model \<Rightarrow> planned_requirement list" where
  "planned_requirements m =
     map (\<lambda>(index, r). \<lparr>rq_ordinal = index, rq_name = rr_name r, rq_uses = rr_uses r,
            rq_optional = rr_optional r, rq_description = rr_description r, rq_metadata = rr_metadata r,
            rq_extensions = rr_extensions r\<rparr>) (enumerate 0 (sm_resource_requirements m))"

definition effective_parameter_values :: "planned_parameter list \<Rightarrow> mapping" where
  "effective_parameter_values ps =
     dict_update [] (map (\<lambda>p. (pp_name p, pp_value p)) (filter (\<lambda>p. pp_configured p \<or> pp_has_default p) ps))"

text \<open>
  \<open>parameter_overrides\<close>, a dictionary of dictionaries, is the list of its assignments in order;
  \<open>overrides_at\<close> is the inner dictionary of one key, empty when the key is absent.
\<close>

type_synonym overrides = "(parameter_target \<times> pyval) list"

definition binding_overrides :: "mapping \<Rightarrow> parameter_binding \<Rightarrow> overrides result" where
  "binding_overrides values b =
     (case map_of values (xb_parameter b) of
        None \<Rightarrow> Inr []
      | Some v \<Rightarrow> emap (\<lambda>raw. ebind (parse_system_parameter_target raw) (\<lambda>t. Inr (t, v))) (xb_targets b))"

definition parameter_overrides :: "system_model \<Rightarrow> mapping \<Rightarrow> overrides result" where
  "parameter_overrides m values =
     ebind (emap (binding_overrides values) (bo_parameters (sm_bindings m))) (\<lambda>os. Inr (concat os))"

definition overrides_at :: "overrides \<Rightarrow> parameter_target_kind \<Rightarrow> string option \<Rightarrow> string \<Rightarrow> mapping" where
  "overrides_at os kind scope inst =
     dict_update [] (map (\<lambda>(t, v). (pt_parameter t, v))
       (filter (\<lambda>(t, v). pt_kind t = kind \<and> pt_scope t = scope \<and> pt_instance t = inst) os))"

definition resolved_parameters ::
    "overrides \<Rightarrow> parameter_target_kind \<Rightarrow> string option \<Rightarrow> string \<Rightarrow> mapping \<Rightarrow> mapping" where
  "resolved_parameters os kind scope name values = dict_update values (overrides_at os kind scope name)"

section \<open>The startup order of the child Systems\<close>

definition plan_startup :: "system_model \<Rightarrow> planned_startup option result" where
  "plan_startup m =
     (if sm_dependencies m = [] then Inr None
      else ebind (topological_order (map si_name (sm_systems m))
                    (map (\<lambda>d. (de_requires d, de_system d)) (sm_dependencies m))) (\<lambda>(order, acyclic_systems).
        if \<not> acyclic_systems
        then Inl (plan_error ''PLAN406'' ''dependencies'' ''System dependency graph contains a cycle'')
        else Inr (Some \<lparr>
          st_dependencies = map (\<lambda>(index, d). \<lparr>dp_ordinal = index, dp_system = de_system d,
              dp_requires = de_requires d, dp_condition = de_condition d,
              dp_timeout_seconds = de_timeout_seconds d\<rparr>) (enumerate 0 (sm_dependencies m)),
          st_order = order,
          st_roots = filter (\<lambda>n. n \<notin> de_system ` set (sm_dependencies m)) (map si_name (sm_systems m))\<rparr>)))"

section \<open>Child Systems\<close>

text \<open>The exact pinned definition of a child.\<close>

definition resolve_definition :: "plan_env \<Rightarrow> string \<Rightarrow> system_instance \<Rightarrow> system_model result" where
  "resolve_definition E path i =
     (case pn_resolver E of
        None \<Rightarrow> Inl (plan_error ''PLAN404'' (path @ ''.uses'')
            (''child System Definition is required for hierarchical '' @
             ''planning, but no SystemDefinitionResolver was provided''))
      | Some resolver \<Rightarrow>
          ebind (instance_revision i) (\<lambda>revision. ebind (resolver revision) (\<lambda>resolved.
          case resolved of
            NotResolved \<Rightarrow> Inl (plan_error ''PLAN404'' (path @ ''.uses'')
                (''cannot resolve exact child System Definition '' @ repr_str (RevisionRef_canonical revision)))
          | NotASystem \<Rightarrow> Inl (plan_error ''PLAN405'' (path @ ''.uses'')
                (''SystemDefinitionResolver returned a value that is not '' @ ''a SystemModel''))
          | Resolved child \<Rightarrow>
              ebind (RevisionRef_from_sha256 (rv_entity revision) (PStr (pn_digest E child))) (\<lambda>actual.
              if sm_name child \<noteq> er_name (rv_entity revision) \<or>
                 RevisionRef_canonical actual \<noteq> RevisionRef_canonical revision
              then Inl (plan_error ''PLAN405'' (path @ ''.uses'')
                     (''resolved child System Definition does not match the '' @ ''exact pinned RevisionRef''))
              else Inr child))))"

text \<open>\<open>except SystemPlanningError as exc\<close>: the path of a child error is prefixed.\<close>

definition nest_error :: "string \<Rightarrow> string \<Rightarrow> 'a result \<Rightarrow> 'a result" where
  "nest_error path name r =
     (case r of
        Inl (CodedErr cls code p msg) \<Rightarrow>
          if cls = ''SystemPlanningError''
          then Inl (plan_error code (if p = [] then path else path @ ''.'' @ p)
                     (''child System '' @ repr_str name @ '': '' @ msg))
          else r
      | _ \<Rightarrow> r)"

definition child_parameters :: "overrides \<Rightarrow> system_instance \<Rightarrow> mapping" where
  "child_parameters os i = dict_update (si_parameters i) (overrides_at os PT_SYSTEM None (si_name i))"

definition plan_child_system ::
    "(system_model \<Rightarrow> execution_context option \<Rightarrow> mapping \<Rightarrow> system_plan result) \<Rightarrow> plan_env \<Rightarrow>
     execution_context option \<Rightarrow> overrides \<Rightarrow> nat \<times> system_instance \<Rightarrow> planned_instance result" where
  "plan_child_system planner E ctx os = (\<lambda>(index, i).
     let path = at_index ''systems'' index in
     ebind (resolve_definition E path i) (\<lambda>child.
     ebind (nest_error path (si_name i)
        (ebind (child_context ctx (si_name i)) (\<lambda>cc. planner child cc (child_parameters os i)))) (\<lambda>plan.
     ebind (instance_revision i) (\<lambda>revision.
     Inr (PlannedSystemInstance index (si_name i) (RevisionRef_canonical revision) (child_parameters os i)
            (si_resources i) [] plan)))))"

section \<open>Targets\<close>

definition target_backend :: "mapping \<Rightarrow> string \<Rightarrow> string result" where
  "target_backend properties path =
     (case (case map_of properties ''backend'' of None \<Rightarrow> PStr ''local'' | Some v \<Rightarrow> v) of
        PStr raw \<Rightarrow> if strip raw = [] then Inl (plan_error ''PLAN202'' path
                        (''Target property '' @ repr_str ''backend'' @ '' must be a non-empty string''))
                    else Inr (strip raw)
      | _ \<Rightarrow> Inl (plan_error ''PLAN202'' path
               (''Target property '' @ repr_str ''backend'' @ '' must be a non-empty string'')))"

definition plan_targets :: "system_model \<Rightarrow> planned_target list result" where
  "plan_targets m =
     (if sm_targets m = []
      then Inr [\<lparr>tg_name = ''local'', tg_kind = ''local'', tg_backend = ''local'', tg_properties = [],
                 tg_metadata = [], tg_implicit = True\<rparr>]
      else emap (\<lambda>(index, t).
        ebind (target_backend (tt_properties t) (at_index ''targets'' index @ ''.properties.backend'')) (\<lambda>backend.
        Inr \<lparr>tg_name = tt_name t, tg_kind = tt_kind t, tg_backend = backend, tg_properties = tt_properties t,
             tg_metadata = tt_metadata t, tg_implicit = False\<rparr>)) (enumerate 0 (sm_targets m)))"

definition resolve_target :: "planned_target list \<Rightarrow> string option \<Rightarrow> string \<Rightarrow> planned_target result" where
  "resolve_target targets name path =
     (case name of
        Some n \<Rightarrow> dict_item (by_name tg_name targets) n
      | None \<Rightarrow> (case targets of
          [t] \<Rightarrow> Inr t
        | _ \<Rightarrow> Inl (plan_error ''PLAN201'' path
                 (''instance has no target but the System declares multiple targets; '' @
                  ''placement must be explicit''))))"

section \<open>Resources\<close>

definition plan_resource :: "overrides \<Rightarrow> planned_target list \<Rightarrow> nat \<times> resource_instance \<Rightarrow> planned_resource result" where
  "plan_resource os targets = (\<lambda>(index, r).
     ebind (resolve_target targets (ri_target r) (at_index ''resources'' index @ ''.target'')) (\<lambda>t.
     Inr \<lparr>rs_ordinal = index, rs_name = ri_name r, rs_uses = ri_uses r, rs_target = tg_name t,
          rs_backend = tg_backend t,
          rs_parameters = resolved_parameters os PT_RESOURCE None (ri_name r) (ri_parameters r),
          rs_bindings = ri_bindings r, rs_metadata = ri_metadata r, rs_extensions = ri_extensions r\<rparr>))"

definition resource_edges :: "planned_resource \<Rightarrow> (string \<times> string) list result" where
  "resource_edges r =
     emap (\<lambda>(slot, bound).
       if bound = rs_name r
       then Inl (plan_error ''PLAN303'' (at_index ''resources'' (rs_ordinal r) @ ''.bindings'')
                  ''Resource dependency cycle contains a self-binding'')
       else Inr (bound, rs_name r)) (rs_bindings r)"

definition plan_resource_order :: "planned_resource list \<Rightarrow> string list result" where
  "plan_resource_order rs =
     ebind (emap resource_edges rs) (\<lambda>edges.
     ebind (topological_order (map rs_name rs) (concat edges)) (\<lambda>(order, acyclic_resources).
       if \<not> acyclic_resources
       then Inl (plan_error ''PLAN303'' ''resources'' ''Resource dependency graph contains a cycle'')
       else Inr order))"

definition ensure_resource_locality ::
    "planned_resource list \<Rightarrow> string \<Rightarrow> string \<Rightarrow> string \<Rightarrow> string \<Rightarrow> strmap \<Rightarrow> unit result" where
  "ensure_resource_locality resources owner field target backend bindings =
     ebind (emap (\<lambda>(slot, resource_name).
       ebind (dict_item (by_name rs_name resources) resource_name) (\<lambda>r.
       if rs_target r \<noteq> target
       then Inl (plan_error ''PLAN301'' (owner @ ''.'' @ field @ ''.'' @ slot)
              (''direct Resource binding crosses execution targets: '' @
               repr_str target @ '' -> '' @ repr_str (rs_target r) @ ''; use an explicit '' @
               ''application/link boundary for remote services''))
       else if rs_backend r \<noteq> backend
       then Inl (plan_error ''PLAN302'' (owner @ ''.'' @ field @ ''.'' @ slot)
              (''direct Resource binding crosses execution backends: '' @
               repr_str backend @ '' -> '' @ repr_str (rs_backend r)))
       else Inr ())) bindings) (\<lambda>_. Inr ())"

definition plan_resources ::
    "system_model \<Rightarrow> overrides \<Rightarrow> planned_target list \<Rightarrow> (planned_resource list \<times> string list) result" where
  "plan_resources m os targets =
     ebind (emap (plan_resource os targets) (enumerate 0 (sm_resources m))) (\<lambda>rs.
     ebind (plan_resource_order rs) (\<lambda>order.
     ebind (emap (\<lambda>(index, r). ensure_resource_locality rs (at_index ''resources'' index) ''bindings''
              (rs_target r) (rs_backend r) (rs_bindings r)) (enumerate 0 rs)) (\<lambda>_.
     Inr (rs, order))))"

text \<open>The resources a parent gives its children.\<close>

definition bind_child_resource ::
    "planned_resource list \<Rightarrow> planned_instance \<Rightarrow> nat \<times> (string \<times> string) \<Rightarrow> planned_child_binding result" where
  "bind_child_resource resources child = (\<lambda>(ordinal, (requirement_name, parent_name)).
     ebind (dict_item (by_name rs_name resources) parent_name) (\<lambda>parent.
     ebind (plan_resource_requirement (in_plan child) requirement_name) (\<lambda>requirement.
     ebind (case boundary_resource (pl_bindings (plan_body (in_plan child))) requirement_name of
              Inl (KeyErr k) \<Rightarrow> Inl (plan_error ''PLAN413''
                (at_index ''systems'' (in_ordinal child) @ ''.resources.'' @ requirement_name)
                (''child System resource requirement has no concrete '' @ ''internal boundary binding''))
            | r \<Rightarrow> r) (\<lambda>inner.
     if rs_target parent \<noteq> rb_target inner \<or> rs_backend parent \<noteq> rb_backend inner
     then Inl (plan_error ''PLAN412'' (at_index ''systems'' (in_ordinal child) @ ''.resources.'' @ requirement_name)
            (''direct child System resource binding crosses '' @ ''target/backend placement''))
     else Inr \<lparr>cb_ordinal = ordinal, cb_requirement = requirement_name, cb_parent_resource = rs_name parent,
            cb_child_resource = rb_instance inner, cb_uses = rq_uses requirement, cb_target = rs_target parent,
            cb_backend = rs_backend parent, cb_parameters = rs_parameters parent, cb_bindings = rs_bindings parent,
            cb_metadata = rs_metadata parent, cb_extensions = rs_extensions parent\<rparr>))))"

definition bind_child :: "planned_resource list \<Rightarrow> planned_instance \<Rightarrow> planned_instance result" where
  "bind_child resources child =
     ebind (emap (bind_child_resource resources child) (enumerate 0 (in_resources child))) (\<lambda>bs.
     Inr (PlannedSystemInstance (in_ordinal child) (in_name child) (in_revision child) (in_parameters child)
            (in_resources child) bs (in_plan child)))"

section \<open>Applications\<close>

definition plan_application ::
    "overrides \<Rightarrow> planned_target list \<Rightarrow> planned_resource list \<Rightarrow> nat \<times> application_instance \<Rightarrow>
     planned_application result" where
  "plan_application os targets resources = (\<lambda>(index, a).
     ebind (resolve_target targets (ai_target a) (at_index ''applications'' index @ ''.target'')) (\<lambda>t.
     ebind (ensure_resource_locality resources (at_index ''applications'' index) ''resources''
              (tg_name t) (tg_backend t) (ai_resources a)) (\<lambda>_.
     Inr \<lparr>ap_ordinal = index, ap_name = ai_name a, ap_uses = ai_uses a, ap_target = tg_name t,
          ap_backend = tg_backend t,
          ap_parameters = resolved_parameters os PT_APPLICATION None (ai_name a) (ai_parameters a),
          ap_resources = ai_resources a, ap_metadata = ai_metadata a, ap_extensions = ai_extensions a\<rparr>)))"

section \<open>Graphs\<close>

definition definition_contracts :: "definition_catalog option \<Rightarrow> string \<Rightarrow> strmap \<times> strmap \<times> string list" where
  "definition_contracts catalog uses =
     (case Option.bind catalog (\<lambda>c. map_of (dc_nodes c) uses) of
        None \<Rightarrow> ([], [], [])
      | Some d \<Rightarrow> (dict_update [] (map (\<lambda>p. (pf_name p, pf_type_id p)) (nf_inputs d)),
                   dict_update [] (map (\<lambda>p. (pf_name p, pf_type_id p)) (nf_outputs d)),
                   map pf_name (filter pf_optional (nf_inputs d))))"

definition node_backend :: "nat \<Rightarrow> nat \<Rightarrow> string option \<Rightarrow> string \<Rightarrow> string result" where
  "node_backend g n backend target_backend_name =
     (let b = or_else backend target_backend_name in
      if strip b = []
      then Inl (plan_error ''PLAN203'' (at_index ''graphs'' g @ ''.'' @ at_index ''nodes'' n @ ''.backend'')
             ''Node backend must be a non-empty string'')
      else Inr (strip b))"

definition node_execution_defaults ::
    "plan_env \<Rightarrow> execution_context option \<Rightarrow> string \<Rightarrow> (pydict \<times> pyval) result" where
  "node_execution_defaults E ctx uses =
     (case resolve_node_execution_defaults (pn_nodes E)
             (Option.bind ctx (\<lambda>c. map_of (cx_node_defaults c) (PStr uses))) of
        Inl (CodedErr cls code p msg) \<Rightarrow>
          if cls = ''NodeExecutionResolutionError''
          then Inl (plan_error ''PLAN414''
                 (let default_path = ''execution_context.node_defaults['' @ repr_str uses @ '']'' in
                  if p = [] then default_path else default_path @ ''.'' @ p) msg)
          else Inl (CodedErr cls code p msg)
      | r \<Rightarrow> r)"

text \<open>\<open>Mapping[str, Any]\<close> of the planned node: pydantic refuses a key that is not a string.\<close>

definition string_keys :: "pydict \<Rightarrow> mapping result" where
  "string_keys d =
     emap (\<lambda>(k, v). case k of PStr s \<Rightarrow> Inr (s, v)
             | _ \<Rightarrow> Inl (NamedErr ''ValidationError'' ''Input should be a valid string'')) d"

definition plan_node ::
    "plan_env \<Rightarrow> execution_context option \<Rightarrow> overrides \<Rightarrow> planned_target list \<Rightarrow> planned_resource list \<Rightarrow>
     nat \<Rightarrow> string \<Rightarrow> nat \<times> node_instance \<Rightarrow> planned_node result" where
  "plan_node E ctx os targets resources g graph = (\<lambda>(index, n).
     let path = at_index ''graphs'' g @ ''.'' @ at_index ''nodes'' index in
     ebind (resolve_target targets (ni_target n) (path @ ''.target'')) (\<lambda>t.
     ebind (node_backend g index (ni_backend n) (tg_backend t)) (\<lambda>backend.
     ebind (node_execution_defaults E ctx (ni_uses n)) (\<lambda>(defaults, policy).
     ebind (string_keys (dict_update
              (merge_node_parameters defaults (map (\<lambda>(k, v). (PStr k, v)) (ni_parameters n)))
              (map (\<lambda>(k, v). (PStr k, v)) (overrides_at os PT_NODE (Some graph) (ni_name n))))) (\<lambda>parameters.
     ebind (ensure_resource_locality resources path ''resources'' (tg_name t) backend (ni_resources n)) (\<lambda>_.
     let (inputs, outputs, optional_inputs) = definition_contracts (pn_catalog E) (ni_uses n) in
     Inr \<lparr>nd_ordinal = index, nd_id = graph @ ''/'' @ ni_name n, nd_graph = graph, nd_name = ni_name n,
          nd_uses = ni_uses n, nd_target = tg_name t, nd_backend = backend, nd_parameters = parameters,
          nd_resources = ni_resources n, nd_inputs = inputs, nd_outputs = outputs,
          nd_optional_inputs = optional_inputs, nd_execution = policy, nd_metadata = ni_metadata n,
          nd_extensions = ni_extensions n\<rparr>))))))"

definition connection_execution :: "plan_env \<Rightarrow> execution_context option \<Rightarrow> connection_policy result" where
  "connection_execution E ctx =
     (case resolve_connection_execution_defaults (pn_show E) (map_option cx_edge_defaults ctx) of
        Inl (CodedErr cls code p msg) \<Rightarrow>
          if cls = ''ConnectionExecutionResolutionError''
          then Inl (plan_error ''PLAN415'' ''execution_context.edge_defaults''
                 (''invalid canonical Connection '' @ ''execution defaults: '' @ exc_str (CodedErr cls code p msg)))
          else Inl (CodedErr cls code p msg)
      | r \<Rightarrow> r)"

definition plan_connection ::
    "nat \<Rightarrow> string \<Rightarrow> planned_node list \<Rightarrow> connection_policy \<Rightarrow> nat \<times> graph_connection \<Rightarrow>
     (planned_connection \<times> string \<times> string) result" where
  "plan_connection g graph nodes policy = (\<lambda>(index, c).
     ebind (split_local_endpoint (co_source c)) (\<lambda>(source_name, source_port).
     ebind (split_local_endpoint (co_target c)) (\<lambda>(target_name, target_port).
     ebind (dict_item (by_name nd_name nodes) source_name) (\<lambda>source.
     ebind (dict_item (by_name nd_name nodes) target_name) (\<lambda>target.
     if nd_target source \<noteq> nd_target target \<or> nd_backend source \<noteq> nd_backend target
     then Inl (plan_error ''PLAN401'' (at_index ''graphs'' g @ ''.'' @ at_index ''connections'' index)
            (''Graph Connection crosses target/backend placement. '' @
             ''Split the boundary into Graphs and connect them with an '' @
             ''explicit SystemLink so transport semantics are visible.''))
     else Inr (\<lparr>cn_ordinal = index, cn_graph = graph, cn_source = co_source c, cn_target = co_target c,
            cn_type_id = or_opt (co_type_id c)
              (or_opt (map_of (nd_outputs source) source_port) (map_of (nd_inputs target) target_port)),
            cn_placement_target = nd_target source, cn_backend = nd_backend source, cn_execution = policy,
            cn_metadata = co_metadata c, cn_extensions = co_extensions c\<rparr>,
          (source_name, target_name)))))))"

definition plan_graph_instance ::
    "plan_env \<Rightarrow> execution_context option \<Rightarrow> overrides \<Rightarrow> planned_target list \<Rightarrow> planned_resource list \<Rightarrow>
     nat \<times> system_graph \<Rightarrow> (planned_graph \<times> planning_diagnostic list) result" where
  "plan_graph_instance E ctx os targets resources = (\<lambda>(g, graph).
     ebind (emap (plan_node E ctx os targets resources g (gp_name graph)) (enumerate 0 (gp_nodes graph))) (\<lambda>nodes.
     ebind (connection_execution E ctx) (\<lambda>policy.
     ebind (emap (plan_connection g (gp_name graph) nodes policy) (enumerate 0 (gp_connections graph))) (\<lambda>conns.
     ebind (topological_order (map nd_name nodes) (map snd conns)) (\<lambda>(order, acyclic_graph).
     Inr (\<lparr>gr_name = gp_name graph, gr_nodes = nodes, gr_connections = map fst conns,
           gr_topological_order = order, gr_acyclic = acyclic_graph,
           gr_targets = ordered_unique (map nd_target nodes), gr_backends = ordered_unique (map nd_backend nodes),
           gr_metadata = gp_metadata graph, gr_extensions = gp_extensions graph\<rparr>,
          if acyclic_graph then []
          else [\<lparr>pd_code = ''PLAN101'', pd_path = at_index ''graphs'' g,
                 pd_message = ''Graph '' @ repr_str (gp_name graph) @
                   '' contains a cycle; declared order is '' @ ''preserved for unresolved feedback members'',
                 pd_source = PLANNER\<rparr>]))))))"

section \<open>System endpoints\<close>

record endpoint_resolution =
  er_endpoint_kind :: system_endpoint_kind
  er_target :: string
  er_backend :: string
  er_type_id :: "string option"

record placed =
  pc_children :: "planned_instance list"
  pc_resources :: "planned_resource list"
  pc_applications :: "planned_application list"
  pc_graphs :: "planned_graph list"

definition child_endpoint :: "planned_instance \<Rightarrow> endpoint_direction \<Rightarrow> string \<Rightarrow> string \<Rightarrow> endpoint_resolution result" where
  "child_endpoint child dir port_name raw =
     (let b = pl_bindings (plan_body (in_plan child));
          found = (case dir of
             SOURCE \<Rightarrow> ebind (plan_output (in_plan child) port_name) (\<lambda>p.
                         ebind (boundary_output b port_name) (\<lambda>pb. Inr (p, pb)))
           | TARGET \<Rightarrow> ebind (plan_input (in_plan child) port_name) (\<lambda>p.
                         ebind (boundary_input b port_name) (\<lambda>pb. Inr (p, pb))))
      in case found of
           Inl (KeyErr k) \<Rightarrow> Inl (plan_error ''PLAN410'' ''links''
               (''child System endpoint '' @ repr_str raw @ '' has no concrete '' @ ''internal boundary binding''))
         | Inl e \<Rightarrow> Inl e
         | Inr (port, binding) \<Rightarrow> Inr \<lparr>er_endpoint_kind = SYSTEM, er_target = pb_target binding,
               er_backend = pb_backend binding, er_type_id = Some (po_type_id port)\<rparr>)"

text \<open>\<open>node_global_map[(graph, name)]\<close>: of two nodes with one key the later stays.\<close>

definition global_node :: "planned_graph list \<Rightarrow> string \<Rightarrow> string \<Rightarrow> planned_node result" where
  "global_node graphs g name =
     (case map_of (dict_update [] (concat (map (\<lambda>gr. map (\<lambda>n. ((gr_name gr, nd_name n), n)) (gr_nodes gr)) graphs)))
             (g, name) of
        None \<Rightarrow> Inl (KeyErr (g @ ''/'' @ name))
      | Some n \<Rightarrow> Inr n)"

definition resolve_endpoint :: "placed \<Rightarrow> endpoint_direction \<Rightarrow> string \<Rightarrow> endpoint_resolution result" where
  "resolve_endpoint P dir raw =
     ebind (parse_system_endpoint raw) (\<lambda>e.
       case ep_kind e of
         APPLICATION \<Rightarrow> ebind (dict_item (by_name ap_name (pc_applications P)) (ep_instance e)) (\<lambda>a.
           Inr \<lparr>er_endpoint_kind = APPLICATION, er_target = ap_target a, er_backend = ap_backend a,
                er_type_id = None\<rparr>)
       | SYSTEM \<Rightarrow> ebind (dict_item (by_name in_name (pc_children P)) (ep_instance e)) (\<lambda>child.
           child_endpoint child dir (ep_port e) raw)
       | GRAPH \<Rightarrow> (case ep_scope e of
           None \<Rightarrow> Inl (NamedErr ''AssertionError'' [])
         | Some g \<Rightarrow> ebind (global_node (pc_graphs P) g (ep_instance e)) (\<lambda>n.
             Inr \<lparr>er_endpoint_kind = GRAPH, er_target = nd_target n, er_backend = nd_backend n,
                  er_type_id = map_of (case dir of SOURCE \<Rightarrow> nd_outputs n | TARGET \<Rightarrow> nd_inputs n) (ep_port e)\<rparr>)))"

section \<open>Boundary bindings\<close>

definition plan_port_binding ::
    "placed \<Rightarrow> endpoint_direction \<Rightarrow> system_port list \<Rightarrow> nat \<times> port_binding \<Rightarrow> planned_port_binding result" where
  "plan_port_binding P dir ports = (\<lambda>(index, b).
     ebind (resolve_endpoint P dir (ib_endpoint b)) (\<lambda>r.
     ebind (get_named prt_name ports (ib_port b)) (\<lambda>port.
     Inr \<lparr>pb_ordinal = index, pb_port = ib_port b, pb_endpoint = ib_endpoint b, pb_type_id = prt_type_id port,
          pb_endpoint_kind = er_endpoint_kind r, pb_target = er_target r, pb_backend = er_backend r,
          pb_metadata = ib_metadata b, pb_extensions = ib_extensions b\<rparr>)))"

definition plan_resource_binding ::
    "system_model \<Rightarrow> planned_resource list \<Rightarrow> nat \<times> resource_binding \<Rightarrow> planned_resource_binding result" where
  "plan_resource_binding m resources = (\<lambda>(index, b).
     ebind (dict_item (by_name rs_name resources) (yb_instance b)) (\<lambda>r.
     ebind (model_resource_requirement m (yb_resource b)) (\<lambda>requirement.
     Inr \<lparr>rb_ordinal = index, rb_resource = yb_resource b, rb_instance = yb_instance b, rb_uses = rr_uses requirement,
          rb_target = rs_target r, rb_backend = rs_backend r, rb_metadata = yb_metadata b,
          rb_extensions = yb_extensions b\<rparr>)))"

definition plan_parameter_binding ::
    "planned_parameter list \<Rightarrow> nat \<times> parameter_binding \<Rightarrow> planned_parameter_binding result" where
  "plan_parameter_binding parameters = (\<lambda>(index, b).
     case find (\<lambda>p. pp_name p = xb_parameter b) parameters of
       None \<Rightarrow> Inl (RuntimeErr ''generator raised StopIteration'')
     | Some p \<Rightarrow> Inr \<lparr>mb_ordinal = index, mb_parameter = xb_parameter b, mb_targets = xb_targets b,
          mb_value = pp_value p, mb_configured = pp_configured p, mb_metadata = xb_metadata b,
          mb_extensions = xb_extensions b\<rparr>)"

definition plan_bindings ::
    "system_model \<Rightarrow> placed \<Rightarrow> planned_parameter list \<Rightarrow> planned_boundary result" where
  "plan_bindings m P parameters =
     ebind (emap (plan_port_binding P TARGET (sm_inputs m)) (enumerate 0 (bo_inputs (sm_bindings m)))) (\<lambda>inputs.
     ebind (emap (plan_port_binding P SOURCE (sm_outputs m)) (enumerate 0 (bo_outputs (sm_bindings m)))) (\<lambda>outputs.
     ebind (emap (plan_resource_binding m (pc_resources P)) (enumerate 0 (bo_resources (sm_bindings m)))) (\<lambda>resources.
     ebind (emap (plan_parameter_binding parameters) (enumerate 0 (bo_parameters (sm_bindings m)))) (\<lambda>parameter_bindings.
     Inr \<lparr>bb_inputs = inputs, bb_outputs = outputs, bb_parameters = parameter_bindings, bb_resources = resources\<rparr>))))"

section \<open>Links and artifacts\<close>

definition link_boundary_of :: "endpoint_resolution \<Rightarrow> endpoint_resolution \<Rightarrow> link_boundary" where
  "link_boundary_of s t =
     (if SYSTEM \<in> {er_endpoint_kind s, er_endpoint_kind t} then B_SYSTEM
      else if APPLICATION \<in> {er_endpoint_kind s, er_endpoint_kind t} then B_APPLICATION
      else if er_target s \<noteq> er_target t then CROSS_TARGET
      else if er_backend s \<noteq> er_backend t then CROSS_BACKEND
      else CROSS_GRAPH)"

text \<open>The body of the loop over \<open>system.links\<close> once both endpoints are resolved.\<close>

definition link_step :: "nat \<Rightarrow> system_link \<Rightarrow> endpoint_resolution \<Rightarrow> endpoint_resolution \<Rightarrow> planned_link result" where
  "link_step index l s t =
     (let has_application = APPLICATION \<in> {er_endpoint_kind s, er_endpoint_kind t};
         has_system = SYSTEM \<in> {er_endpoint_kind s, er_endpoint_kind t};
         cross = er_target s \<noteq> er_target t \<or> er_backend s \<noteq> er_backend t;
         path = at_index ''links'' index @ ''.uses''
     in if has_application \<and> lk_uses l = None
        then Inl (plan_error ''PLAN402'' path (''Application boundaries require an explicit transport/integration '' @ repr_str ''uses''))
        else if has_system \<and> cross \<and> lk_uses l = None
        then Inl (plan_error ''PLAN411'' path
               (''Cross-target/backend child System link requires an explicit '' @ ''transport '' @ repr_str ''uses''))
        else if cross \<and> lk_uses l = None
        then Inl (plan_error ''PLAN403'' path
               (''Cross-target/backend SystemLink requires an explicit transport '' @ repr_str ''uses''))
        else Inr \<lparr>ln_ordinal = index, ln_source = lk_source l, ln_target = lk_target l,
               ln_type_id = or_opt (lk_type_id l) (or_opt (er_type_id s) (er_type_id t)),
               ln_source_target = er_target s, ln_target_target = er_target t,
               ln_source_backend = er_backend s, ln_target_backend = er_backend t,
               ln_boundary = link_boundary_of s t,
               ln_transport_required = (has_application \<or> (has_system \<and> lk_uses l \<noteq> None) \<or> cross \<or> lk_uses l \<noteq> None),
               ln_transport_uses = lk_uses l, ln_parameters = lk_parameters l, ln_metadata = lk_metadata l,
               ln_extensions = lk_extensions l\<rparr>)"

definition plan_link :: "placed \<Rightarrow> nat \<times> system_link \<Rightarrow> planned_link result" where
  "plan_link P = (\<lambda>(index, l).
     ebind (resolve_endpoint P SOURCE (lk_source l)) (\<lambda>s.
     ebind (resolve_endpoint P TARGET (lk_target l)) (\<lambda>t. link_step index l s t)))"

definition plan_artifact :: "placed \<Rightarrow> artifact_instance \<Rightarrow> planned_artifact result" where
  "plan_artifact P a =
     ebind (case ar_producer a of
              None \<Rightarrow> Inr None
            | Some raw \<Rightarrow> ebind (resolve_endpoint P SOURCE raw) (\<lambda>r. Inr (Some r))) (\<lambda>producer.
     Inr \<lparr>af_name = ar_name a, af_kind = ar_kind a, af_producer = ar_producer a,
          af_target = map_option er_target producer, af_backend = map_option er_backend producer,
          af_path = ar_path a, af_media_type = ar_media_type a, af_metadata = ar_metadata a,
          af_extensions = ar_extensions a\<rparr>)"

section \<open>The plan\<close>

definition counted :: "string \<Rightarrow> nat \<Rightarrow> (string \<times> nat) list" where
  "counted name n = (if n = 0 then [] else [(name, n)])"

definition plan_summary :: "plan_body \<Rightarrow> planned_instance list \<Rightarrow> (string \<times> nat) list" where
  "plan_summary b children =
     [(''systems'', length children), (''targets'', length (pl_targets b)), (''resources'', length (pl_resources b)),
      (''applications'', length (pl_applications b)), (''graphs'', length (pl_graphs b)),
      (''nodes'', sum_list (map (length \<circ> gr_nodes) (pl_graphs b))),
      (''connections'', sum_list (map (length \<circ> gr_connections) (pl_graphs b))),
      (''links'', length (pl_links b)), (''artifacts'', length (pl_artifacts b))] @
     counted ''inputs'' (length (pl_inputs b)) @ counted ''outputs'' (length (pl_outputs b)) @
     counted ''parameters'' (length (pl_parameters b)) @
     counted ''resource_requirements'' (length (pl_resource_requirements b)) @
     (case pl_system_startup b of None \<Rightarrow> [] | Some s \<Rightarrow> [(''dependencies'', length (st_dependencies s))])"

text \<open>What precedes the child Systems: the validation, the parameters and the startup order.\<close>

record plan_front =
  ft_diagnostics :: "planning_diagnostic list"
  ft_parameters :: "planned_parameter list"
  ft_overrides :: overrides
  ft_startup :: "planned_startup option"

definition plan_front_of :: "plan_env \<Rightarrow> system_model \<Rightarrow> mapping \<Rightarrow> plan_front result" where
  "plan_front_of E m values =
     ebind (validate_system (pn_types E) (pn_catalog E) (pn_resolver E) m) (\<lambda>report.
     ebind (raise_validation_errors report) (\<lambda>_.
     ebind (check_parameters m values) (\<lambda>_.
     let parameters = planned_parameters m values in
     ebind (parameter_overrides m (effective_parameter_values parameters)) (\<lambda>os.
     ebind (plan_startup m) (\<lambda>startup.
     Inr \<lparr>ft_diagnostics = validation_diagnostics report, ft_parameters = parameters,
          ft_overrides = os, ft_startup = startup\<rparr>)))))"

text \<open>What follows them.\<close>

definition plan_placed ::
    "plan_env \<Rightarrow> system_model \<Rightarrow> execution_context option \<Rightarrow> overrides \<Rightarrow> planned_instance list \<Rightarrow>
     (planned_target list \<times> string list \<times> placed \<times> planning_diagnostic list) result" where
  "plan_placed E m ctx os planned =
     ebind (plan_targets m) (\<lambda>targets.
     ebind (plan_resources m os targets) (\<lambda>(resources, order).
     ebind (emap (bind_child resources) planned) (\<lambda>children.
     ebind (emap (plan_application os targets resources) (enumerate 0 (sm_applications m))) (\<lambda>applications.
     ebind (emap (plan_graph_instance E ctx os targets resources) (enumerate 0 (sm_graphs m))) (\<lambda>graphs.
     Inr (targets, order, \<lparr>pc_children = children, pc_resources = resources, pc_applications = applications,
            pc_graphs = map fst graphs\<rparr>, concat (map snd graphs)))))))"

definition plan_rest ::
    "plan_env \<Rightarrow> system_model \<Rightarrow> execution_context option \<Rightarrow> plan_front \<Rightarrow> planned_instance list \<Rightarrow> system_plan result" where
  "plan_rest E m ctx front planned =
     ebind (plan_placed E m ctx (ft_overrides front) planned) (\<lambda>(targets, order, P, cycles).
     ebind (plan_bindings m P (ft_parameters front)) (\<lambda>bindings.
     ebind (emap (plan_link P) (enumerate 0 (sm_links m))) (\<lambda>links.
     ebind (emap (plan_artifact P) (sm_artifacts m)) (\<lambda>artifacts.
     let b = \<lparr>pl_system = sm_name m, pl_system_sha256 = pn_digest E m,
          pl_execution_context_sha256 = map_option (pn_context_digest E) ctx,
          pl_inputs = planned_ports (sm_inputs m), pl_outputs = planned_ports (sm_outputs m),
          pl_parameters = ft_parameters front, pl_resource_requirements = planned_requirements m,
          pl_bindings = bindings, pl_system_startup = ft_startup front, pl_targets = targets,
          pl_resources = pc_resources P, pl_resource_order = order, pl_applications = pc_applications P,
          pl_graphs = pc_graphs P, pl_links = links, pl_artifacts = artifacts,
          pl_diagnostics = ft_diagnostics front @ cycles, pl_policies = sm_policies m,
          pl_metadata = sm_metadata m, pl_extensions = sm_extensions m, pl_summary = []\<rparr>
     in Inr (SystemExecutionPlan (b\<lparr>pl_summary := plan_summary b (pc_children P)\<rparr>) (pc_children P))))))"

fun plan_system ::
    "plan_env \<Rightarrow> nat \<Rightarrow> system_model \<Rightarrow> execution_context option \<Rightarrow> mapping \<Rightarrow> system_plan result" where
  "plan_system E 0 m ctx values = Inl (NamedErr ''RecursionError'' ''maximum recursion depth exceeded'')"
| "plan_system E (Suc depth) m ctx values =
     ebind (plan_front_of E m values) (\<lambda>front.
     ebind (emap (plan_child_system (plan_system E depth) E ctx (ft_overrides front)) (enumerate 0 (sm_systems m))) (\<lambda>planned.
     plan_rest E m ctx front planned))"

end
