(* ===== verification/Planner_Sound.thy ===== *)
theory Planner_Sound
  imports Planner Validation_Sound
begin

text \<open>
  What a plan that \<open>plan_system\<close> returns guarantees, at every level of the hierarchy of child
  Systems: placement and locality, the orders, the classified links and the pinned child
  definitions. Each predicate speaks of one level; \<open>all_levels\<close> carries it to the descendants.
\<close>

section \<open>Every level of a plan\<close>

fun all_levels :: "(system_plan \<Rightarrow> bool) \<Rightarrow> system_plan \<Rightarrow> bool" where
  "all_levels Q p = (Q p \<and> list_all (\<lambda>i. all_levels Q (in_plan i)) (plan_systems p))"

declare all_levels.simps [simp del]

lemma all_levels_here: "all_levels Q p \<Longrightarrow> Q p"
  by (simp add: all_levels.simps [of Q p])

lemma all_levels_child: "all_levels Q p \<Longrightarrow> i \<in> set (plan_systems p) \<Longrightarrow> all_levels Q (in_plan i)"
  by (simp add: all_levels.simps [of Q p] list_all_iff)

section \<open>The stages of a successful run\<close>

definition plan_run ::
    "plan_env \<Rightarrow> nat \<Rightarrow> system_model \<Rightarrow> execution_context option \<Rightarrow> mapping \<Rightarrow> system_plan \<Rightarrow>
     system_diagnostic list \<Rightarrow> plan_front \<Rightarrow> planned_instance list \<Rightarrow> planned_target list \<Rightarrow> string list \<Rightarrow> placed \<Rightarrow>
     planning_diagnostic list \<Rightarrow> bool" where
  "plan_run E depth m ctx values p report front planned targets order P cycles =
     (validate_system (pn_types E) (pn_catalog E) (pn_resolver E) m = Inr report \<and> no_error report \<and>
      check_parameters m values = Inr () \<and>
      ft_diagnostics front = validation_diagnostics report \<and>
      ft_parameters front = planned_parameters m values \<and>
      parameter_overrides m (effective_parameter_values (ft_parameters front)) = Inr (ft_overrides front) \<and>
      plan_startup m = Inr (ft_startup front) \<and>
      emap (plan_child_system (plan_system E depth) E ctx (ft_overrides front)) (enumerate 0 (sm_systems m)) = Inr planned \<and>
      plan_placed E m ctx (ft_overrides front) planned = Inr (targets, order, P, cycles) \<and>
      plan_bindings m P (ft_parameters front) = Inr (pl_bindings (plan_body p)) \<and>
      emap (plan_link P) (enumerate 0 (sm_links m)) = Inr (pl_links (plan_body p)) \<and>
      emap (plan_artifact P) (sm_artifacts m) = Inr (pl_artifacts (plan_body p)) \<and>
      pl_system (plan_body p) = sm_name m \<and> pl_system_sha256 (plan_body p) = pn_digest E m \<and>
      pl_execution_context_sha256 (plan_body p) = map_option (pn_context_digest E) ctx \<and>
      pl_parameters (plan_body p) = ft_parameters front \<and>
      pl_system_startup (plan_body p) = ft_startup front \<and> pl_targets (plan_body p) = targets \<and>
      pl_resources (plan_body p) = pc_resources P \<and> pl_resource_order (plan_body p) = order \<and>
      pl_applications (plan_body p) = pc_applications P \<and> pl_graphs (plan_body p) = pc_graphs P \<and>
      pl_diagnostics (plan_body p) = ft_diagnostics front @ cycles \<and> plan_systems p = pc_children P)"

lemma raise_validation_errors_Inr [result_elims]: "raise_validation_errors ds = Inr u \<longleftrightarrow> no_error ds"
  by (auto simp: raise_validation_errors_def report_errors_of_def no_error_def list_all_iff filter_empty_conv)

lemma plan_front_Inr:
  assumes "plan_front_of E m values = Inr front"
  obtains report where "validate_system (pn_types E) (pn_catalog E) (pn_resolver E) m = Inr report"
    "no_error report" "check_parameters m values = Inr ()" "ft_diagnostics front = validation_diagnostics report"
    "ft_parameters front = planned_parameters m values"
    "parameter_overrides m (effective_parameter_values (ft_parameters front)) = Inr (ft_overrides front)"
    "plan_startup m = Inr (ft_startup front)"
  using assms by (auto simp: plan_front_of_def Let_def result_elims)

lemma plan_system_run:
  assumes "plan_system E d m ctx values = Inr p"
  obtains depth report front planned targets order P cycles where "d = Suc depth"
    "plan_run E depth m ctx values p report front planned targets order P cycles"
proof -
  obtain depth where d: "d = Suc depth" using assms by (cases d) auto
  with assms obtain front planned where front: "plan_front_of E m values = Inr front"
    and planned: "emap (plan_child_system (plan_system E depth) E ctx (ft_overrides front)) (enumerate 0 (sm_systems m)) = Inr planned"
    and rest: "plan_rest E m ctx front planned = Inr p"
    by (auto simp: result_elims)
  obtain report where report: "validate_system (pn_types E) (pn_catalog E) (pn_resolver E) m = Inr report"
    "no_error report" "check_parameters m values = Inr ()" "ft_diagnostics front = validation_diagnostics report"
    "ft_parameters front = planned_parameters m values"
    "parameter_overrides m (effective_parameter_values (ft_parameters front)) = Inr (ft_overrides front)"
    "plan_startup m = Inr (ft_startup front)"
    using front by (rule plan_front_Inr)
  from rest obtain targets order P cycles bindings links artifacts where
    placed: "plan_placed E m ctx (ft_overrides front) planned = Inr (targets, order, P, cycles)"
    and tail: "plan_bindings m P (ft_parameters front) = Inr bindings"
      "emap (plan_link P) (enumerate 0 (sm_links m)) = Inr links" "emap (plan_artifact P) (sm_artifacts m) = Inr artifacts"
    and p: "p = (let b = \<lparr>pl_system = sm_name m, pl_system_sha256 = pn_digest E m,
          pl_execution_context_sha256 = map_option (pn_context_digest E) ctx,
          pl_inputs = planned_ports (sm_inputs m), pl_outputs = planned_ports (sm_outputs m),
          pl_parameters = ft_parameters front, pl_resource_requirements = planned_requirements m,
          pl_bindings = bindings, pl_system_startup = ft_startup front, pl_targets = targets,
          pl_resources = pc_resources P, pl_resource_order = order, pl_applications = pc_applications P,
          pl_graphs = pc_graphs P, pl_links = links, pl_artifacts = artifacts,
          pl_diagnostics = ft_diagnostics front @ cycles, pl_policies = sm_policies m,
          pl_metadata = sm_metadata m, pl_extensions = sm_extensions m, pl_summary = []\<rparr>
        in SystemExecutionPlan (b\<lparr>pl_summary := plan_summary b (pc_children P)\<rparr>) (pc_children P))"
    by (auto simp: plan_rest_def result_elims Let_def)
  have "plan_run E depth m ctx values p report front planned targets order P cycles"
    unfolding plan_run_def using report planned placed tail by (simp add: p Let_def)
  with d show thesis by (rule that)
qed

section \<open>Planned children\<close>

lemma nest_error_Inr [result_elims]: "nest_error path name r = Inr x \<longleftrightarrow> r = Inr x"
  by (auto simp: nest_error_def split: sum.splits py_error.splits)

lemma plan_child_system_Inr:
  assumes "plan_child_system planner E ctx os (index, i) = Inr x"
  obtains child cc plan revision where "resolve_definition E (at_index ''systems'' index) i = Inr child"
    "child_context ctx (si_name i) = Inr cc" "planner child cc (child_parameters os i) = Inr plan"
    "instance_revision i = Inr revision"
    "x = PlannedSystemInstance index (si_name i) (RevisionRef_canonical revision) (child_parameters os i)
            (si_resources i) [] plan"
  using assms by (auto simp: plan_child_system_def Let_def result_elims)

lemma bind_child_Inr:
  assumes "bind_child resources c = Inr c'"
  shows "in_ordinal c' = in_ordinal c" "in_name c' = in_name c" "in_revision c' = in_revision c"
    "in_parameters c' = in_parameters c" "in_resources c' = in_resources c" "in_plan c' = in_plan c"
    "emap (bind_child_resource resources c) (enumerate 0 (in_resources c)) = Inr (in_resource_bindings c')"
  using assms by (auto simp: bind_child_def result_elims)

lemma plan_placed_Inr:
  assumes "plan_placed E m ctx os planned = Inr (targets, order, P, cycles)"
  obtains graphs where "plan_targets m = Inr targets" "plan_resources m os targets = Inr (pc_resources P, order)"
    "emap (bind_child (pc_resources P)) planned = Inr (pc_children P)"
    "emap (plan_application os targets (pc_resources P)) (enumerate 0 (sm_applications m)) = Inr (pc_applications P)"
    "emap (plan_graph_instance E ctx os targets (pc_resources P)) (enumerate 0 (sm_graphs m)) = Inr graphs"
    "pc_graphs P = map fst graphs" "cycles = concat (map snd graphs)"
  using assms by (auto simp: plan_placed_def result_elims)

lemma plan_system_children:
  assumes "plan_system E d m ctx values = Inr p" and "x \<in> set (plan_systems p)"
  shows "\<exists>depth child cc v. d = Suc depth \<and> plan_system E depth child cc v = Inr (in_plan x)"
proof -
  obtain depth report front planned targets order P cycles where d: "d = Suc depth" and
    run: "plan_run E depth m ctx values p report front planned targets order P cycles"
    using assms(1) by (rule plan_system_run)
  then have planned: "emap (plan_child_system (plan_system E depth) E ctx (ft_overrides front)) (enumerate 0 (sm_systems m)) = Inr planned"
    and placed: "plan_placed E m ctx (ft_overrides front) planned = Inr (targets, order, P, cycles)"
    and x: "x \<in> set (pc_children P)" using assms(2) by (simp_all add: plan_run_def)
  obtain y where y: "y \<in> set planned" "in_plan y = in_plan x"
    using placed by (rule plan_placed_Inr) (metis bind_child_Inr(6) emap_Inr_set x)
  from emap_Inr_set [OF planned y(1)] obtain index i where
    "plan_child_system (plan_system E depth) E ctx (ft_overrides front) (index, i) = Inr y" by auto
  then obtain child cc v where "plan_system E depth child cc v = Inr (in_plan y)"
    by (rule plan_child_system_Inr) auto
  with d y(2) show ?thesis by auto
qed

lemma plan_all_levels:
  assumes "\<And>d m ctx values p. plan_system E d m ctx values = Inr p \<Longrightarrow> Q p"
  shows "plan_system E d m ctx vs = Inr p \<Longrightarrow> all_levels Q p"
proof (induction p arbitrary: d m ctx vs rule: measure_induct_rule [where f = size])
  case (less p)
  have "all_levels Q (in_plan x)" if "x \<in> set (plan_systems p)" for x
    using plan_system_children [OF less.prems that] less.IH [OF size_in_plan [OF that]] by blast
  with assms [OF less.prems] show ?case by (simp add: all_levels.simps [of Q p] list_all_iff)
qed

section \<open>Placement\<close>

definition declared_place :: "planned_target list \<Rightarrow> string \<Rightarrow> string \<Rightarrow> bool" where
  "declared_place targets target backend = (\<exists>t \<in> set targets. tg_name t = target \<and> tg_backend t = backend)"

definition co_located :: "planned_resource list \<Rightarrow> string \<Rightarrow> string \<Rightarrow> strmap \<Rightarrow> bool" where
  "co_located resources target backend bindings =
     list_all (\<lambda>(slot, name). \<exists>r \<in> set resources. rs_name r = name \<and> rs_target r = target \<and> rs_backend r = backend) bindings"

definition connection_placed :: "planned_graph \<Rightarrow> planned_connection \<Rightarrow> bool" where
  "connection_placed g c =
     (\<exists>s \<in> set (gr_nodes g). \<exists>t \<in> set (gr_nodes g). \<exists>sp tp.
        split_local_endpoint (cn_source c) = Inr (nd_name s, sp) \<and> split_local_endpoint (cn_target c) = Inr (nd_name t, tp) \<and>
        (nd_target s, nd_backend s) = (cn_placement_target c, cn_backend c) \<and>
        (nd_target t, nd_backend t) = (cn_placement_target c, cn_backend c))"

definition child_binding_placed :: "planned_resource list \<Rightarrow> planned_instance \<Rightarrow> planned_child_binding \<Rightarrow> bool" where
  "child_binding_placed resources i cb =
     ((\<exists>r \<in> set resources. rs_name r = cb_parent_resource cb \<and> rs_target r = cb_target cb \<and> rs_backend r = cb_backend cb) \<and>
      (\<exists>b \<in> set (bb_resources (pl_bindings (plan_body (in_plan i)))). rb_resource b = cb_requirement cb \<and>
         rb_instance b = cb_child_resource cb \<and> rb_target b = cb_target cb \<and> rb_backend b = cb_backend cb))"

definition graph_placed :: "planned_target list \<Rightarrow> planned_resource list \<Rightarrow> planned_graph \<Rightarrow> bool" where
  "graph_placed targets resources g =
     (list_all (\<lambda>n. nd_target n \<in> tg_name ` set targets \<and>
                    co_located resources (nd_target n) (nd_backend n) (nd_resources n)) (gr_nodes g) \<and>
      list_all (connection_placed g) (gr_connections g))"

definition well_placed :: "system_plan \<Rightarrow> bool" where
  "well_placed p = (let b = plan_body p; ts = pl_targets b; rs = pl_resources b in
     list_all (\<lambda>r. declared_place ts (rs_target r) (rs_backend r) \<and> co_located rs (rs_target r) (rs_backend r) (rs_bindings r)) rs \<and>
     list_all (\<lambda>a. declared_place ts (ap_target a) (ap_backend a) \<and> co_located rs (ap_target a) (ap_backend a) (ap_resources a))
       (pl_applications b) \<and>
     list_all (graph_placed ts rs) (pl_graphs b) \<and>
     list_all (\<lambda>i. map cb_requirement (in_resource_bindings i) = map fst (in_resources i) \<and>
                   map cb_parent_resource (in_resource_bindings i) = map snd (in_resources i) \<and>
                   list_all (child_binding_placed rs i) (in_resource_bindings i)) (plan_systems p))"

lemma dict_item_Inr [result_elims]: "dict_item d k = Inr v \<longleftrightarrow> map_of d k = Some v"
  by (auto simp: dict_item_def split: option.splits)

lemma resolve_target_Inr:
  "resolve_target targets name path = Inr t \<Longrightarrow> t \<in> set targets \<and> (case name of None \<Rightarrow> targets = [t] | Some n \<Rightarrow> tg_name t = n)"
  by (auto simp: resolve_target_def result_elims split: option.splits list.splits dest!: by_name_Some)

lemma resolve_target_declared:
  "resolve_target targets name path = Inr t \<Longrightarrow> declared_place targets (tg_name t) (tg_backend t)"
  using resolve_target_Inr by (auto simp: declared_place_def)

text \<open>An indexed comprehension gives each element the result of its index.\<close>

lemma emap_enumerate_ex:
  assumes "emap f (enumerate 0 xs) = Inr ys" and "y \<in> set ys"
  obtains i where "i < length xs" "f (i, xs ! i) = Inr y"
  using assms emap_enumerate [OF assms(1)] by (metis in_set_conv_nth)

lemma emap_enumerate_all:
  assumes "emap f (enumerate 0 xs) = Inr ys" and "\<And>i x y. f (i, x) = Inr y \<Longrightarrow> Q y"
  shows "list_all Q ys"
  unfolding list_all_iff by (metis assms emap_enumerate_ex)

lemma emap_enumerate_map:
  assumes "emap f (enumerate 0 xs) = Inr ys" and "\<And>i x y. f (i, x) = Inr y \<Longrightarrow> g y = h x"
  shows "map g ys = map h xs"
  by (rule nth_equalityI) (use emap_enumerate [OF assms(1)] assms(2) in auto)

lemma emap_enumerate_ordinals:
  assumes "emap f (enumerate 0 xs) = Inr ys" and "\<And>i x y. f (i, x) = Inr y \<Longrightarrow> g y = i"
  shows "map g ys = [0..<length xs]"
  by (rule nth_equalityI) (use emap_enumerate [OF assms(1)] assms(2) in auto)

lemma ensure_locality_Inr:
  "ensure_resource_locality rs owner field target backend bindings = Inr u \<Longrightarrow> co_located rs target backend bindings"
  by (induction bindings)
     (auto simp: ensure_resource_locality_def co_located_def result_elims dest!: by_name_Some)

lemma plan_resource_Inr:
  assumes "plan_resource os targets (i, r) = Inr x"
  shows "rs_ordinal x = i" "rs_name x = ri_name r" "rs_bindings x = ri_bindings r"
    "declared_place targets (rs_target x) (rs_backend x)"
  using assms resolve_target_declared by (auto simp: plan_resource_def result_elims)

lemma plan_resources_Inr:
  assumes "plan_resources m os targets = Inr (rs, order)"
  shows "map rs_ordinal rs = [0..<length (sm_resources m)]" "map rs_name rs = map ri_name (sm_resources m)"
    "map rs_bindings rs = map ri_bindings (sm_resources m)" "plan_resource_order rs = Inr order"
    "list_all (\<lambda>r. declared_place targets (rs_target r) (rs_backend r)) rs"
    "list_all (\<lambda>r. co_located rs (rs_target r) (rs_backend r) (rs_bindings r)) rs"
proof -
  from assms obtain us where rs: "emap (plan_resource os targets) (enumerate 0 (sm_resources m)) = Inr rs"
    and order: "plan_resource_order rs = Inr order"
    and local: "emap (\<lambda>(index, r). ensure_resource_locality rs (at_index ''resources'' index) ''bindings''
              (rs_target r) (rs_backend r) (rs_bindings r)) (enumerate 0 rs) = Inr us"
    by (auto simp: plan_resources_def result_elims)
  note x = plan_resource_Inr
  show "map rs_ordinal rs = [0..<length (sm_resources m)]" using rs x(1) by (rule emap_enumerate_ordinals)
  show "map rs_name rs = map ri_name (sm_resources m)" using rs x(2) by (rule emap_enumerate_map)
  show "map rs_bindings rs = map ri_bindings (sm_resources m)" using rs x(3) by (rule emap_enumerate_map)
  show "list_all (\<lambda>r. declared_place targets (rs_target r) (rs_backend r)) rs" using rs x(4) by (rule emap_enumerate_all)
  show "plan_resource_order rs = Inr order" by (rule order)
  show "list_all (\<lambda>r. co_located rs (rs_target r) (rs_backend r) (rs_bindings r)) rs"
    unfolding list_all_length using emap_enumerate(2) [OF local] ensure_locality_Inr by fastforce
qed

lemma plan_application_Inr:
  assumes "plan_application os targets rs (i, a) = Inr x"
  shows "ap_ordinal x = i" "ap_name x = ai_name a"
    "declared_place targets (ap_target x) (ap_backend x) \<and> co_located rs (ap_target x) (ap_backend x) (ap_resources x)"
  using assms resolve_target_declared ensure_locality_Inr by (auto simp: plan_application_def result_elims)

lemma plan_node_Inr:
  assumes "plan_node E ctx os targets rs g graph (i, n) = Inr x"
  shows "nd_ordinal x = i" "nd_name x = ni_name n" "nd_graph x = graph" "nd_uses x = ni_uses n"
    "nd_target x \<in> tg_name ` set targets \<and> co_located rs (nd_target x) (nd_backend x) (nd_resources x)"
    "strip (nd_backend x) = nd_backend x \<and> nd_backend x \<noteq> []"
proof -
  obtain ins outs opts where "definition_contracts (pn_catalog E) (ni_uses n) = (ins, outs, opts)"
    by (rule prod_cases3)
  with assms obtain t policy backend parameters where
    t: "resolve_target targets (ni_target n) (at_index ''graphs'' g @ ''.'' @ at_index ''nodes'' i @ ''.target'') = Inr t"
    and b: "node_backend g i (ni_backend n) (tg_backend t) = Inr backend"
    and l: "ensure_resource_locality rs (at_index ''graphs'' g @ ''.'' @ at_index ''nodes'' i) ''resources'' (tg_name t) backend
              (ni_resources n) = Inr ()"
    and x: "x = \<lparr>nd_ordinal = i, nd_id = graph @ ''/'' @ ni_name n, nd_graph = graph, nd_name = ni_name n,
          nd_uses = ni_uses n, nd_target = tg_name t, nd_backend = backend, nd_parameters = parameters,
          nd_resources = ni_resources n, nd_inputs = ins, nd_outputs = outs, nd_optional_inputs = opts,
          nd_execution = policy, nd_metadata = ni_metadata n, nd_extensions = ni_extensions n\<rparr>"
    by (auto simp: plan_node_def Let_def result_elims)
  from b have "strip backend = backend \<and> backend \<noteq> []"
    by (auto simp: node_backend_def Let_def result_elims)
  with resolve_target_Inr [OF t] ensure_locality_Inr [OF l]
  show "nd_ordinal x = i" "nd_name x = ni_name n" "nd_graph x = graph" "nd_uses x = ni_uses n"
    "nd_target x \<in> tg_name ` set targets \<and> co_located rs (nd_target x) (nd_backend x) (nd_resources x)"
    "strip (nd_backend x) = nd_backend x \<and> nd_backend x \<noteq> []"
    by (simp_all add: x)
qed

lemma plan_connection_Inr:
  assumes "plan_connection g graph nodes policy (i, c) = Inr (x, e)"
  obtains s t sp tp where "split_local_endpoint (co_source c) = Inr (nd_name s, sp)"
    "split_local_endpoint (co_target c) = Inr (nd_name t, tp)" "s \<in> set nodes" "t \<in> set nodes"
    "map_of (by_name nd_name nodes) (nd_name s) = Some s" "map_of (by_name nd_name nodes) (nd_name t) = Some t"
    "nd_target s = cn_placement_target x" "nd_backend s = cn_backend x"
    "nd_target t = cn_placement_target x" "nd_backend t = cn_backend x"
    "cn_ordinal x = i" "cn_source x = co_source c" "cn_target x = co_target c" "e = (nd_name s, nd_name t)"
proof -
  from assms obtain sn sp tn tp s t where "split_local_endpoint (co_source c) = Inr (sn, sp)"
    "split_local_endpoint (co_target c) = Inr (tn, tp)" "map_of (by_name nd_name nodes) sn = Some s"
    "map_of (by_name nd_name nodes) tn = Some t" "\<not> (nd_target s \<noteq> nd_target t \<or> nd_backend s \<noteq> nd_backend t)"
    "e = (sn, tn)" "x = \<lparr>cn_ordinal = i, cn_graph = graph, cn_source = co_source c, cn_target = co_target c,
            cn_type_id = or_opt (co_type_id c) (or_opt (map_of (nd_outputs s) sp) (map_of (nd_inputs t) tp)),
            cn_placement_target = nd_target s, cn_backend = nd_backend s, cn_execution = policy,
            cn_metadata = co_metadata c, cn_extensions = co_extensions c\<rparr>"
    by (auto simp: plan_connection_def result_elims)
  moreover from this have "s \<in> set nodes" "nd_name s = sn" "t \<in> set nodes" "nd_name t = tn"
    using by_name_Some [of nd_name nodes sn s] by_name_Some [of nd_name nodes tn t] by simp_all
  ultimately show thesis by (intro that [of s sp t tp]) simp_all
qed

lemma plan_connection_ordinal: "plan_connection g graph nodes policy (i, c) = Inr y \<Longrightarrow> cn_ordinal (fst y) = i"
  by (cases y) (auto elim!: plan_connection_Inr)

lemma plan_graph_Inr:
  assumes "plan_graph_instance E ctx os targets rs (g, graph) = Inr (x, ds)"
  obtains conns policy where
    "emap (plan_node E ctx os targets rs g (gp_name graph)) (enumerate 0 (gp_nodes graph)) = Inr (gr_nodes x)"
    "connection_execution E ctx = Inr policy"
    "emap (plan_connection g (gp_name graph) (gr_nodes x) policy) (enumerate 0 (gp_connections graph)) = Inr conns"
    "topological_order (map nd_name (gr_nodes x)) (map snd conns) = Inr (gr_topological_order x, gr_acyclic x)"
    "gr_connections x = map fst conns" "gr_name x = gp_name graph"
    "gr_targets x = ordered_unique (map nd_target (gr_nodes x))"
    "gr_backends x = ordered_unique (map nd_backend (gr_nodes x))" "gr_acyclic x \<longleftrightarrow> ds = []"
  using assms by (auto simp: plan_graph_instance_def result_elims split: prod.splits)

lemma plan_graph_placed:
  assumes "plan_graph_instance E ctx os targets rs (g, graph) = Inr (x, ds)"
  shows "graph_placed targets rs x"
  using assms
proof (rule plan_graph_Inr)
  fix conns policy
  assume nodes: "emap (plan_node E ctx os targets rs g (gp_name graph)) (enumerate 0 (gp_nodes graph)) = Inr (gr_nodes x)"
    and conns: "emap (plan_connection g (gp_name graph) (gr_nodes x) policy) (enumerate 0 (gp_connections graph)) = Inr conns"
    and x: "gr_connections x = map fst conns"
  have "list_all (connection_placed x \<circ> fst) conns"
    using conns
  proof (rule emap_enumerate_all)
    fix i c y assume "plan_connection g (gp_name graph) (gr_nodes x) policy (i, c) = Inr y"
    then show "(connection_placed x \<circ> fst) y"
      by (cases y) (auto elim!: plan_connection_Inr simp: connection_placed_def, metis)
  qed
  moreover have "list_all (\<lambda>n. nd_target n \<in> tg_name ` set targets \<and>
      co_located rs (nd_target n) (nd_backend n) (nd_resources n)) (gr_nodes x)"
    using nodes plan_node_Inr(5) by (rule emap_enumerate_all)
  ultimately show ?thesis by (simp add: graph_placed_def x list_all_iff)
qed

lemma bind_child_resource_Inr:
  assumes "bind_child_resource rs c (k, (req, parent)) = Inr cb"
  shows "cb_requirement cb = req" "cb_parent_resource cb = parent" "child_binding_placed rs c cb" "cb_ordinal cb = k"
  using assms
  by (auto simp: bind_child_resource_def result_elims child_binding_placed_def boundary_resource_def
           split: sum.splits py_error.splits dest!: by_name_Some get_named_Inr)

lemma bind_child_placed:
  assumes "bind_child rs c = Inr c'"
  shows "map cb_requirement (in_resource_bindings c') = map fst (in_resources c')"
    "map cb_parent_resource (in_resource_bindings c') = map snd (in_resources c')"
    "list_all (child_binding_placed rs c') (in_resource_bindings c')"
proof -
  note run = bind_child_Inr(7) [OF assms] and same = bind_child_Inr(5,6) [OF assms]
  show "map cb_requirement (in_resource_bindings c') = map fst (in_resources c')"
    using emap_enumerate_map [OF run, of cb_requirement fst] bind_child_resource_Inr(1) by (fastforce simp: same)
  show "map cb_parent_resource (in_resource_bindings c') = map snd (in_resources c')"
    using emap_enumerate_map [OF run, of cb_parent_resource snd] bind_child_resource_Inr(2) by (fastforce simp: same)
  have "list_all (child_binding_placed rs c) (in_resource_bindings c')"
    using emap_enumerate_all [OF run] bind_child_resource_Inr(3) by (metis surj_pair)
  then show "list_all (child_binding_placed rs c') (in_resource_bindings c')"
    by (simp add: child_binding_placed_def same(2) list_all_iff)
qed

lemma plan_well_placed_here:
  assumes "plan_system E d m ctx vs = Inr p"
  shows "well_placed p"
proof -
  obtain depth report front planned targets order P cycles where
    run: "plan_run E depth m ctx vs p report front planned targets order P cycles"
    using assms by (rule plan_system_run)
  then have placed: "plan_placed E m ctx (ft_overrides front) planned = Inr (targets, order, P, cycles)"
    and p: "pl_targets (plan_body p) = targets" "pl_resources (plan_body p) = pc_resources P"
      "pl_applications (plan_body p) = pc_applications P" "pl_graphs (plan_body p) = pc_graphs P"
      "plan_systems p = pc_children P" by (simp_all add: plan_run_def)
  from placed obtain graphs where resources: "plan_resources m (ft_overrides front) targets = Inr (pc_resources P, order)"
    and kids: "emap (bind_child (pc_resources P)) planned = Inr (pc_children P)"
    and apps: "emap (plan_application (ft_overrides front) targets (pc_resources P)) (enumerate 0 (sm_applications m)) = Inr (pc_applications P)"
    and graphs: "emap (plan_graph_instance E ctx (ft_overrides front) targets (pc_resources P)) (enumerate 0 (sm_graphs m)) = Inr graphs"
      "pc_graphs P = map fst graphs" by (rule plan_placed_Inr)
  have "list_all (graph_placed targets (pc_resources P) \<circ> fst) graphs"
    using graphs(1) by (rule emap_enumerate_all) (metis comp_apply plan_graph_placed prod.collapse)
  moreover have "list_all (\<lambda>a. declared_place targets (ap_target a) (ap_backend a) \<and>
      co_located (pc_resources P) (ap_target a) (ap_backend a) (ap_resources a)) (pc_applications P)"
    using apps plan_application_Inr(3) by (rule emap_enumerate_all)
  moreover have "\<forall>c \<in> set (pc_children P). \<exists>y. bind_child (pc_resources P) y = Inr c"
    using emap_Inr_set [OF kids] by blast
  ultimately show ?thesis
    using plan_resources_Inr(5,6) [OF resources] bind_child_placed
    by (fastforce simp: well_placed_def Let_def p graphs(2) list_all_iff)
qed

section \<open>Names and orders\<close>

definition precedes :: "'a list \<Rightarrow> 'a \<Rightarrow> 'a \<Rightarrow> bool" where
  "precedes xs a b = (\<exists>ys zs. xs = ys @ b # zs \<and> a \<in> set ys)"

definition numbered_by :: "('a \<Rightarrow> nat) \<Rightarrow> 'a list \<Rightarrow> bool" where
  "numbered_by f xs = (map f xs = [0..<length xs])"

definition startup_ordered :: "string list \<Rightarrow> planned_startup \<Rightarrow> bool" where
  "startup_ordered names st =
     (mset (st_order st) = mset names \<and> numbered_by dp_ordinal (st_dependencies st) \<and>
      list_all (\<lambda>d. dp_system d \<noteq> dp_requires d \<and> precedes (st_order st) (dp_requires d) (dp_system d)) (st_dependencies st) \<and>
      st_roots st = filter (\<lambda>n. n \<notin> dp_system ` set (st_dependencies st)) names)"

definition graph_ordered :: "planned_graph \<Rightarrow> bool" where
  "graph_ordered g =
     (numbered_by nd_ordinal (gr_nodes g) \<and> numbered_by cn_ordinal (gr_connections g) \<and>
      distinct (map nd_name (gr_nodes g)) \<and> mset (gr_topological_order g) = mset (map nd_name (gr_nodes g)) \<and>
      (gr_acyclic g \<longrightarrow> list_all (\<lambda>c. \<forall>s sp t tp.
         split_local_endpoint (cn_source c) = Inr (s, sp) \<longrightarrow> split_local_endpoint (cn_target c) = Inr (t, tp) \<longrightarrow> s \<noteq> t \<longrightarrow>
         precedes (gr_topological_order g) s t) (gr_connections g)))"

definition well_ordered :: "system_plan \<Rightarrow> bool" where
  "well_ordered p = (let b = plan_body p in
     distinct (map in_name (plan_systems p)) \<and> distinct (map rs_name (pl_resources b)) \<and>
     distinct (map ap_name (pl_applications b)) \<and> distinct (map gr_name (pl_graphs b)) \<and>
     distinct (map tg_name (pl_targets b)) \<and>
     numbered_by in_ordinal (plan_systems p) \<and> numbered_by rs_ordinal (pl_resources b) \<and>
     numbered_by ap_ordinal (pl_applications b) \<and> numbered_by ln_ordinal (pl_links b) \<and>
     mset (pl_resource_order b) = mset (map rs_name (pl_resources b)) \<and>
     list_all (\<lambda>r. list_all (\<lambda>(slot, bound). precedes (pl_resource_order b) bound (rs_name r)) (rs_bindings r)) (pl_resources b) \<and>
     list_all graph_ordered (pl_graphs b) \<and>
     (case pl_system_startup b of None \<Rightarrow> True | Some st \<Rightarrow> startup_ordered (map in_name (plan_systems p)) st))"

lemma topological_precedes:
  assumes "topological_order names edges = Inr (order, True)" and "distinct names"
    and "(s, t) \<in> set edges" and "s \<noteq> t"
  shows "precedes order s t"
proof -
  have "t \<in> set names"
    using assms(1,3,4) by (auto simp: topological_order_def Let_def find_None_iff proper_edges_def split: option.splits)
  then have "t \<in> set order" using topological_order_mset [OF assms(1,2)] by (metis set_mset_mset)
  then obtain ys zs where "order = ys @ t # zs" by (meson split_list)
  with topological_order_respects [OF assms(1,2,3,4)] show ?thesis by (auto simp: precedes_def)
qed

lemma plan_run_linked:
  assumes "plan_run E depth m ctx vs p report front planned targets order P cycles"
  shows "well_linked m"
  using assms validate_system_sound by (auto simp: plan_run_def)

lemma plan_targets_names:
  assumes "plan_targets m = Inr ts"
  shows "map tg_name ts = (if sm_targets m = [] then [''local''] else map tt_name (sm_targets m))"
proof (cases "sm_targets m = []")
  case True
  with assms show ?thesis by (auto simp: plan_targets_def)
next
  case False
  with assms have "emap (\<lambda>(index, t).
        ebind (target_backend (tt_properties t) (at_index ''targets'' index @ ''.properties.backend'')) (\<lambda>backend.
        Inr \<lparr>tg_name = tt_name t, tg_kind = tt_kind t, tg_backend = backend, tg_properties = tt_properties t,
             tg_metadata = tt_metadata t, tg_implicit = False\<rparr>)) (enumerate 0 (sm_targets m)) = Inr ts"
    by (simp add: plan_targets_def)
  then have "map tg_name ts = map tt_name (sm_targets m)" by (rule emap_enumerate_map) (auto simp: result_elims)
  with False show ?thesis by simp
qed

lemma plan_startup_ordered:
  assumes "plan_startup m = Inr (Some st)" and "dependencies_ok m" and "distinct (map si_name (sm_systems m))"
  shows "startup_ordered (map si_name (sm_systems m)) st"
proof -
  let ?edges = "map (\<lambda>d. (de_requires d, de_system d)) (sm_dependencies m)"
  from assms(1) obtain order where order: "topological_order (map si_name (sm_systems m)) ?edges = Inr (order, True)"
    and st: "st = \<lparr>st_dependencies = map (\<lambda>(index, d). \<lparr>dp_ordinal = index, dp_system = de_system d,
              dp_requires = de_requires d, dp_condition = de_condition d,
              dp_timeout_seconds = de_timeout_seconds d\<rparr>) (enumerate 0 (sm_dependencies m)),
          st_order = order,
          st_roots = filter (\<lambda>n. n \<notin> de_system ` set (sm_dependencies m)) (map si_name (sm_systems m))\<rparr>"
    by (auto simp: plan_startup_def result_elims split: if_splits prod.splits)
  have "map dp_system (st_dependencies st) = map de_system (sm_dependencies m)"
    by (auto simp: st intro!: nth_equalityI simp: nth_enumerate_eq)
  then have "de_system ` set (sm_dependencies m) = dp_system ` set (st_dependencies st)" by (metis set_map)
  moreover have "map dp_ordinal (st_dependencies st) = [0..<length (sm_dependencies m)]"
    by (auto simp: st intro!: nth_equalityI simp: nth_enumerate_eq)
  moreover have "precedes order (de_requires d) (de_system d) \<and> de_system d \<noteq> de_requires d" if "d \<in> set (sm_dependencies m)" for d
    using that assms(2) topological_precedes [OF order assms(3), of "de_requires d" "de_system d"]
    by (force simp: dependencies_ok_def list_all_iff)
  then have "list_all (\<lambda>d. dp_system d \<noteq> dp_requires d \<and> precedes (st_order st) (dp_requires d) (dp_system d)) (st_dependencies st)"
    by (auto simp: st list_all_iff dest!: in_set_enumerate_eq [THEN iffD1])
  ultimately show ?thesis
    using topological_order_mset [OF order assms(3)] by (simp add: startup_ordered_def numbered_by_def st)
qed

lemma plan_resource_order_Inr:
  assumes "plan_resource_order rs = Inr order" and "distinct (map rs_name rs)"
  shows "mset order = mset (map rs_name rs)"
    "list_all (\<lambda>r. list_all (\<lambda>(slot, bound). precedes order bound (rs_name r)) (rs_bindings r)) rs"
proof -
  from assms(1) obtain edges where edges: "emap resource_edges rs = Inr edges"
    and order: "topological_order (map rs_name rs) (concat edges) = Inr (order, True)"
    by (auto simp: plan_resource_order_def result_elims split: prod.splits if_splits)
  show "mset order = mset (map rs_name rs)" using topological_order_mset [OF order assms(2)] by simp
  have "precedes order bound (rs_name r)" if r: "r \<in> set rs" "(slot, bound) \<in> set (rs_bindings r)" for r slot bound
  proof -
    from r(1) obtain i where i: "i < length rs" "rs ! i = r" by (auto simp: in_set_conv_nth)
    with edges have "i < length edges" "resource_edges r = Inr (edges ! i)"
      by (auto simp: emap_Inr_list_all2 list_all2_conv_all_nth)
    then obtain es where es: "es \<in> set edges" "resource_edges r = Inr es" using nth_mem by blast
    from es(2) have "list_all2 (\<lambda>(slot, bound) e. bound \<noteq> rs_name r \<and> e = (bound, rs_name r)) (rs_bindings r) es"
      by (auto simp: resource_edges_def emap_Inr_list_all2 elim!: list_all2_mono split: if_splits)
    with r(2) have "bound \<noteq> rs_name r" "(bound, rs_name r) \<in> set es"
      by (force simp: list_all2_conv_all_nth in_set_conv_nth)+
    with es(1) topological_precedes [OF order assms(2)] show ?thesis by auto
  qed
  then show "list_all (\<lambda>r. list_all (\<lambda>(slot, bound). precedes order bound (rs_name r)) (rs_bindings r)) rs"
    by (auto simp: list_all_iff)
qed

lemma plan_graph_ordered:
  assumes "plan_graph_instance E ctx os targets rs (g, graph) = Inr (x, ds)"
    and "distinct (map ni_name (gp_nodes graph))"
  shows "graph_ordered x"
  using assms(1)
proof (rule plan_graph_Inr)
  fix conns policy
  assume nodes: "emap (plan_node E ctx os targets rs g (gp_name graph)) (enumerate 0 (gp_nodes graph)) = Inr (gr_nodes x)"
    and conns: "emap (plan_connection g (gp_name graph) (gr_nodes x) policy) (enumerate 0 (gp_connections graph)) = Inr conns"
    and order: "topological_order (map nd_name (gr_nodes x)) (map snd conns) = Inr (gr_topological_order x, gr_acyclic x)"
    and x: "gr_connections x = map fst conns"
  have distinct: "distinct (map nd_name (gr_nodes x))"
    using emap_enumerate_map [OF nodes plan_node_Inr(2)] assms(2) by simp
  have "numbered_by nd_ordinal (gr_nodes x)"
    using emap_enumerate_ordinals [OF nodes plan_node_Inr(1)] emap_enumerate(1) [OF nodes] by (simp add: numbered_by_def)
  moreover have "map (cn_ordinal \<circ> fst) conns = [0..<length (gp_connections graph)]"
    using conns by (rule emap_enumerate_ordinals) (simp add: plan_connection_ordinal)
  then have "numbered_by cn_ordinal (gr_connections x)"
    using emap_enumerate(1) [OF conns] by (simp add: numbered_by_def x)
  moreover have "precedes (gr_topological_order x) s t"
    if "gr_acyclic x" "c \<in> set (gr_connections x)" "split_local_endpoint (cn_source c) = Inr (s, sp)"
      "split_local_endpoint (cn_target c) = Inr (t, tp)" "s \<noteq> t" for c s sp t tp
  proof -
    from that(2) obtain e where ce: "(c, e) \<in> set conns" by (auto simp: x)
    obtain i where "plan_connection g (gp_name graph) (gr_nodes x) policy (i, gp_connections graph ! i) = Inr (c, e)"
      using conns ce by (rule emap_enumerate_ex)
    then have "e = (s, t)" using that(3,4) by (auto elim!: plan_connection_Inr)
    with ce have "(s, t) \<in> set (map snd conns)" by force
    from order that(1) have "topological_order (map nd_name (gr_nodes x)) (map snd conns) = Inr (gr_topological_order x, True)"
      by simp
    from topological_precedes [OF this distinct \<open>(s, t) \<in> set (map snd conns)\<close> that(5)] show ?thesis .
  qed
  ultimately show ?thesis
    using topological_order_mset [OF order distinct] distinct by (auto simp: graph_ordered_def list_all_iff)
qed

lemma plan_children_Inr:
  assumes "emap (plan_child_system planner E ctx os) (enumerate 0 (sm_systems m)) = Inr planned"
    and "emap (bind_child rs) planned = Inr children"
  shows "map in_ordinal children = [0..<length (sm_systems m)]" "map in_name children = map si_name (sm_systems m)"
    "map in_resources children = map si_resources (sm_systems m)" "length children = length (sm_systems m)"
    "i < length (sm_systems m) \<Longrightarrow> bind_child rs (planned ! i) = Inr (children ! i)"
proof -
  have same: "list_all2 (\<lambda>x y. bind_child rs x = Inr y) planned children" using assms(2) by (simp add: emap_Inr_list_all2)
  then have eq: "map in_ordinal children = map in_ordinal planned" "map in_name children = map in_name planned"
      "map in_resources children = map in_resources planned"
    by (auto simp: list_all2_conv_all_nth bind_child_Inr intro!: nth_equalityI)
  show "map in_ordinal children = [0..<length (sm_systems m)]"
    unfolding eq using assms(1) by (rule emap_enumerate_ordinals) (auto elim!: plan_child_system_Inr)
  show "map in_name children = map si_name (sm_systems m)"
    unfolding eq using assms(1) by (rule emap_enumerate_map) (auto elim!: plan_child_system_Inr)
  show "map in_resources children = map si_resources (sm_systems m)"
    unfolding eq using assms(1) by (rule emap_enumerate_map) (auto elim!: plan_child_system_Inr)
  show len: "length children = length (sm_systems m)"
    using same emap_enumerate(1) [OF assms(1)] by (simp add: list_all2_lengthD)
  show "i < length (sm_systems m) \<Longrightarrow> bind_child rs (planned ! i) = Inr (children ! i)"
    using same len by (simp add: list_all2_conv_all_nth)
qed

lemma plan_link_ordinal: "plan_link P (i, l) = Inr x \<Longrightarrow> ln_ordinal x = i"
  by (auto simp: plan_link_def link_step_def Let_def result_elims)

lemma numbered_length: "map f xs = [0..<n] \<Longrightarrow> numbered_by f xs"
  by (metis length_map length_upt minus_nat.diff_0 numbered_by_def)

lemma plan_well_ordered_here:
  assumes "plan_system E d m ctx vs = Inr p"
  shows "well_ordered p"
proof -
  obtain depth report front planned targets order P cycles where
    run: "plan_run E depth m ctx vs p report front planned targets order P cycles"
    using assms by (rule plan_system_run)
  have linked: "names_ok m" "dependencies_ok m" using plan_run_linked [OF run] by (simp_all add: well_linked_def)
  note names = linked(1) [unfolded names_ok_def list_all_iff]
  from run have planned: "emap (plan_child_system (plan_system E depth) E ctx (ft_overrides front)) (enumerate 0 (sm_systems m)) = Inr planned"
    and placed: "plan_placed E m ctx (ft_overrides front) planned = Inr (targets, order, P, cycles)"
    and startup: "plan_startup m = Inr (pl_system_startup (plan_body p))"
    and links: "emap (plan_link P) (enumerate 0 (sm_links m)) = Inr (pl_links (plan_body p))"
    and p: "pl_targets (plan_body p) = targets" "pl_resources (plan_body p) = pc_resources P" "pl_resource_order (plan_body p) = order"
      "pl_applications (plan_body p) = pc_applications P" "pl_graphs (plan_body p) = pc_graphs P"
      "plan_systems p = pc_children P" by (simp_all add: plan_run_def)
  from placed obtain graphs where targets: "plan_targets m = Inr targets"
    and resources: "plan_resources m (ft_overrides front) targets = Inr (pc_resources P, order)"
    and kids: "emap (bind_child (pc_resources P)) planned = Inr (pc_children P)"
    and apps: "emap (plan_application (ft_overrides front) targets (pc_resources P)) (enumerate 0 (sm_applications m)) = Inr (pc_applications P)"
    and graphs: "emap (plan_graph_instance E ctx (ft_overrides front) targets (pc_resources P)) (enumerate 0 (sm_graphs m)) = Inr graphs"
      "pc_graphs P = map fst graphs" by (rule plan_placed_Inr)
  note kid = plan_children_Inr [OF planned kids]
  note res = plan_resources_Inr [OF resources]
  have rs: "distinct (map rs_name (pc_resources P))" using names by (simp add: res(2))
  have "list_all graph_ordered (map fst graphs)"
    unfolding list_all_length
  proof (intro allI impI)
    fix i assume "i < length (map fst graphs)"
    then have i: "i < length (sm_graphs m)" "i < length graphs" using emap_enumerate(1) [OF graphs(1)] by simp_all
    have "plan_graph_instance E ctx (ft_overrides front) targets (pc_resources P) (i, sm_graphs m ! i) = Inr (graphs ! i)"
      using graphs(1) i(1) by (rule emap_enumerate(2))
    then show "graph_ordered (map fst graphs ! i)"
      using plan_graph_ordered [of E ctx "ft_overrides front" targets "pc_resources P" i "sm_graphs m ! i" "fst (graphs ! i)" "snd (graphs ! i)"]
        names i by simp
  qed
  moreover have "map gr_name (map fst graphs) = map gp_name (sm_graphs m)"
    unfolding map_map using graphs(1) by (rule emap_enumerate_map) (auto elim!: plan_graph_Inr)
  moreover have "map ap_name (pc_applications P) = map ai_name (sm_applications m)"
    using apps plan_application_Inr(2) by (rule emap_enumerate_map)
  moreover have "numbered_by ap_ordinal (pc_applications P)"
    by (rule numbered_length [OF emap_enumerate_ordinals [OF apps plan_application_Inr(1)]])
  moreover have "numbered_by ln_ordinal (pl_links (plan_body p))"
    by (rule numbered_length [OF emap_enumerate_ordinals [OF links plan_link_ordinal]])
  moreover have "startup_ordered (map in_name (pc_children P)) st" if "pl_system_startup (plan_body p) = Some st" for st
    unfolding kid(2) using startup linked names that by (intro plan_startup_ordered) simp_all
  moreover have "distinct (map tg_name targets)" using names by (simp add: plan_targets_names [OF targets])
  ultimately show ?thesis
    using names rs kid(2) plan_resource_order_Inr [OF res(4) rs] numbered_length [OF kid(1)] numbered_length [OF res(1)]
    by (simp add: well_ordered_def Let_def p graphs(2) split: option.split)
qed

section \<open>Endpoints, links and boundary bindings\<close>

text \<open>Where the plan puts the object an endpoint denotes; for a child, where its boundary binding leads.\<close>

definition endpoint_at ::
    "system_plan \<Rightarrow> endpoint_direction \<Rightarrow> string \<Rightarrow> system_endpoint_kind \<Rightarrow> string \<Rightarrow> string \<Rightarrow> bool" where
  "endpoint_at p dir raw kind target backend =
     (case parse_system_endpoint raw of
        Inl _ \<Rightarrow> False
      | Inr e \<Rightarrow> ep_kind e = kind \<and> (case ep_kind e of
          APPLICATION \<Rightarrow> \<exists>a \<in> set (pl_applications (plan_body p)). ap_name a = ep_instance e \<and>
              ap_target a = target \<and> ap_backend a = backend
        | GRAPH \<Rightarrow> \<exists>g \<in> set (pl_graphs (plan_body p)). ep_scope e = Some (gr_name g) \<and>
              (\<exists>n \<in> set (gr_nodes g). nd_name n = ep_instance e \<and> nd_target n = target \<and> nd_backend n = backend)
        | SYSTEM \<Rightarrow> \<exists>i \<in> set (plan_systems p). in_name i = ep_instance e \<and>
              (\<exists>b \<in> set (case dir of SOURCE \<Rightarrow> bb_outputs (pl_bindings (plan_body (in_plan i)))
                         | TARGET \<Rightarrow> bb_inputs (pl_bindings (plan_body (in_plan i)))).
                 pb_port b = ep_port e \<and> pb_target b = target \<and> pb_backend b = backend)))"

definition link_sound :: "system_plan \<Rightarrow> planned_link \<Rightarrow> bool" where
  "link_sound p l =
     (let same = (ln_source_target l = ln_target_target l \<and> ln_source_backend l = ln_target_backend l) in
      \<exists>ks kt. endpoint_at p SOURCE (ln_source l) ks (ln_source_target l) (ln_source_backend l) \<and>
        endpoint_at p TARGET (ln_target l) kt (ln_target_target l) (ln_target_backend l) \<and>
        (ln_transport_uses l = None \<longrightarrow> same \<and> APPLICATION \<notin> {ks, kt} \<and> \<not> ln_transport_required l) \<and>
        (ln_transport_uses l \<noteq> None \<longrightarrow> ln_transport_required l) \<and>
        (ln_boundary l = B_SYSTEM \<longleftrightarrow> SYSTEM \<in> {ks, kt}) \<and>
        (ln_boundary l = B_APPLICATION \<longleftrightarrow> SYSTEM \<notin> {ks, kt} \<and> APPLICATION \<in> {ks, kt}) \<and>
        (ln_boundary l = CROSS_GRAPH \<longleftrightarrow> ks = GRAPH \<and> kt = GRAPH \<and> same))"

definition well_linked_plan :: "system_plan \<Rightarrow> bool" where
  "well_linked_plan p = (let b = plan_body p in
     list_all (link_sound p) (pl_links b) \<and>
     list_all (\<lambda>x. endpoint_at p TARGET (pb_endpoint x) (pb_endpoint_kind x) (pb_target x) (pb_backend x)) (bb_inputs (pl_bindings b)) \<and>
     list_all (\<lambda>x. endpoint_at p SOURCE (pb_endpoint x) (pb_endpoint_kind x) (pb_target x) (pb_backend x)) (bb_outputs (pl_bindings b)) \<and>
     list_all (\<lambda>x. \<exists>r \<in> set (pl_resources b). rs_name r = rb_instance x \<and> rs_target r = rb_target x \<and> rs_backend r = rb_backend x)
       (bb_resources (pl_bindings b)) \<and>
     list_all (\<lambda>a. case af_producer a of
         None \<Rightarrow> af_target a = None \<and> af_backend a = None
       | Some raw \<Rightarrow> \<exists>k t bk. af_target a = Some t \<and> af_backend a = Some bk \<and> endpoint_at p SOURCE raw k t bk) (pl_artifacts b))"

lemma global_node_Inr:
  assumes "global_node graphs g name = Inr n"
  shows "\<exists>gr \<in> set graphs. gr_name gr = g \<and> n \<in> set (gr_nodes gr) \<and> nd_name n = name"
  using assms dict_update_subset [of "[]" "concat (map (\<lambda>gr. map (\<lambda>n. ((gr_name gr, nd_name n), n)) (gr_nodes gr)) graphs)"]
  by (auto simp: global_node_def split: option.splits dest!: map_of_SomeD)

lemma child_endpoint_Inr:
  assumes "child_endpoint child dir port raw = Inr r"
  shows "er_endpoint_kind r = SYSTEM \<and>
    (\<exists>b \<in> set (case dir of SOURCE \<Rightarrow> bb_outputs (pl_bindings (plan_body (in_plan child)))
                | TARGET \<Rightarrow> bb_inputs (pl_bindings (plan_body (in_plan child)))).
       pb_port b = port \<and> pb_target b = er_target r \<and> pb_backend b = er_backend r)"
  using assms
  by (cases dir)
     (auto simp: child_endpoint_def Let_def boundary_output_def boundary_input_def ebind_def
        split: sum.splits py_error.splits dest!: get_named_Inr)

lemma resolve_endpoint_Inr:
  assumes "resolve_endpoint P dir raw = Inr r" and "pl_applications (plan_body p) = pc_applications P"
    and "pl_graphs (plan_body p) = pc_graphs P" and "plan_systems p = pc_children P"
  shows "endpoint_at p dir raw (er_endpoint_kind r) (er_target r) (er_backend r)"
proof -
  from assms(1) obtain e where e: "parse_system_endpoint raw = Inr e" by (auto simp: resolve_endpoint_def result_elims)
  show ?thesis
  proof (cases "ep_kind e")
    case APPLICATION
    with assms e show ?thesis
      by (auto simp: resolve_endpoint_def endpoint_at_def result_elims dest!: by_name_Some)
  next
    case GRAPH
    with assms e obtain g n where "ep_scope e = Some g" "global_node (pc_graphs P) g (ep_instance e) = Inr n"
      "er_endpoint_kind r = GRAPH" "er_target r = nd_target n" "er_backend r = nd_backend n"
      by (auto simp: resolve_endpoint_def result_elims split: option.splits)
    with GRAPH assms e show ?thesis by (auto simp: endpoint_at_def dest!: global_node_Inr)
  next
    case SYSTEM
    with assms e obtain c where "map_of (by_name in_name (pc_children P)) (ep_instance e) = Some c"
      "child_endpoint c dir (ep_port e) raw = Inr r"
      by (auto simp: resolve_endpoint_def result_elims)
    with SYSTEM assms e child_endpoint_Inr [of c dir "ep_port e" raw r] by_name_Some [of in_name "pc_children P" "ep_instance e" c]
    show ?thesis by (simp add: endpoint_at_def) blast
  qed
qed

lemma plan_link_Inr:
  assumes "plan_link P (i, l) = Inr x"
  obtains s t where "resolve_endpoint P SOURCE (ln_source x) = Inr s" "resolve_endpoint P TARGET (ln_target x) = Inr t"
    "ln_source_target x = er_target s" "ln_source_backend x = er_backend s"
    "ln_target_target x = er_target t" "ln_target_backend x = er_backend t" "ln_boundary x = link_boundary_of s t"
    "ln_transport_required x \<longleftrightarrow> ln_transport_uses x \<noteq> None"
    "ln_transport_uses x = None \<Longrightarrow> APPLICATION \<notin> {er_endpoint_kind s, er_endpoint_kind t} \<and>
       er_target s = er_target t \<and> er_backend s = er_backend t"
proof -
  have steps: "plan_link P (i, l) = ebind (resolve_endpoint P SOURCE (lk_source l)) (\<lambda>s.
      ebind (resolve_endpoint P TARGET (lk_target l)) (\<lambda>t. link_step i l s t))"
    by (simp add: plan_link_def)
  with assms obtain s t where r: "resolve_endpoint P SOURCE (lk_source l) = Inr s"
      "resolve_endpoint P TARGET (lk_target l) = Inr t" and x: "link_step i l s t = Inr x"
    unfolding steps ebind_eq_Inr by blast
  have eq: "ln_source x = lk_source l" "ln_target x = lk_target l" "ln_source_target x = er_target s"
      "ln_source_backend x = er_backend s" "ln_target_target x = er_target t" "ln_target_backend x = er_backend t"
      "ln_boundary x = link_boundary_of s t" "ln_transport_uses x = lk_uses l"
    using x by (auto simp: link_step_def Let_def result_elims)
  have "ln_transport_required x \<longleftrightarrow> ln_transport_uses x \<noteq> None"
    and "ln_transport_uses x = None \<Longrightarrow> APPLICATION \<notin> {er_endpoint_kind s, er_endpoint_kind t} \<and>
       er_target s = er_target t \<and> er_backend s = er_backend t"
    using x by (auto simp: link_step_def Let_def result_elims)
  with r eq show thesis by (intro that [of s t]) simp_all
qed

lemma plan_link_sound:
  assumes "plan_link P (i, l) = Inr x" and "pl_applications (plan_body p) = pc_applications P"
    and "pl_graphs (plan_body p) = pc_graphs P" and "plan_systems p = pc_children P"
  shows "link_sound p x"
  using assms(1)
proof (rule plan_link_Inr)
  fix s t
  assume r: "resolve_endpoint P SOURCE (ln_source x) = Inr s" "resolve_endpoint P TARGET (ln_target x) = Inr t"
    and x: "ln_source_target x = er_target s" "ln_source_backend x = er_backend s"
    "ln_target_target x = er_target t" "ln_target_backend x = er_backend t" "ln_boundary x = link_boundary_of s t"
    "ln_transport_required x \<longleftrightarrow> ln_transport_uses x \<noteq> None"
    and c: "ln_transport_uses x = None \<Longrightarrow> APPLICATION \<notin> {er_endpoint_kind s, er_endpoint_kind t} \<and>
       er_target s = er_target t \<and> er_backend s = er_backend t"
  have "ln_boundary x = CROSS_GRAPH \<longleftrightarrow> er_endpoint_kind s = GRAPH \<and> er_endpoint_kind t = GRAPH \<and>
      er_target s = er_target t \<and> er_backend s = er_backend t"
    "ln_boundary x = B_SYSTEM \<longleftrightarrow> SYSTEM \<in> {er_endpoint_kind s, er_endpoint_kind t}"
    "ln_boundary x = B_APPLICATION \<longleftrightarrow> SYSTEM \<notin> {er_endpoint_kind s, er_endpoint_kind t} \<and>
      APPLICATION \<in> {er_endpoint_kind s, er_endpoint_kind t}"
    by (cases "er_endpoint_kind s"; cases "er_endpoint_kind t"; simp add: x(5) link_boundary_of_def)+
  with c show ?thesis
    unfolding link_sound_def Let_def x
    by (intro exI [of _ "er_endpoint_kind s"] exI [of _ "er_endpoint_kind t"])
       (use resolve_endpoint_Inr [OF r(1) assms(2-)] resolve_endpoint_Inr [OF r(2) assms(2-)] x(6) in blast)
qed

lemma plan_bindings_Inr:
  assumes "plan_bindings m P parameters = Inr b"
  shows "emap (plan_port_binding P TARGET (sm_inputs m)) (enumerate 0 (bo_inputs (sm_bindings m))) = Inr (bb_inputs b)"
    "emap (plan_port_binding P SOURCE (sm_outputs m)) (enumerate 0 (bo_outputs (sm_bindings m))) = Inr (bb_outputs b)"
    "emap (plan_resource_binding m (pc_resources P)) (enumerate 0 (bo_resources (sm_bindings m))) = Inr (bb_resources b)"
  using assms by (auto simp: plan_bindings_def result_elims)

lemma plan_well_linked_here:
  assumes "plan_system E d m ctx vs = Inr p"
  shows "well_linked_plan p"
proof -
  obtain depth report front planned targets order P cycles where
    run: "plan_run E depth m ctx vs p report front planned targets order P cycles"
    using assms by (rule plan_system_run)
  then have bindings: "plan_bindings m P (ft_parameters front) = Inr (pl_bindings (plan_body p))"
    and links: "emap (plan_link P) (enumerate 0 (sm_links m)) = Inr (pl_links (plan_body p))"
    and artifacts: "emap (plan_artifact P) (sm_artifacts m) = Inr (pl_artifacts (plan_body p))"
    and p: "pl_applications (plan_body p) = pc_applications P" "pl_graphs (plan_body p) = pc_graphs P"
      "plan_systems p = pc_children P" "pl_resources (plan_body p) = pc_resources P" unfolding plan_run_def by blast+
  note resolved = resolve_endpoint_Inr [OF _ p(1-3)]
  define b where "b = pl_bindings (plan_body p)"
  note b = plan_bindings_Inr [OF bindings [folded b_def]]
  have port: "endpoint_at p dir (pb_endpoint x) (pb_endpoint_kind x) (pb_target x) (pb_backend x)"
    if "plan_port_binding P dir ports (i, pb) = Inr x" for dir ports i pb x
    using that by (auto simp: plan_port_binding_def result_elims intro: resolved)
  have "list_all (link_sound p) (pl_links (plan_body p))"
    using links plan_link_sound [OF _ p(1-3)] by (rule emap_enumerate_all)
  moreover have "list_all (\<lambda>x. endpoint_at p TARGET (pb_endpoint x) (pb_endpoint_kind x) (pb_target x) (pb_backend x)) (bb_inputs b)"
    using b(1) port by (rule emap_enumerate_all)
  moreover have "list_all (\<lambda>x. endpoint_at p SOURCE (pb_endpoint x) (pb_endpoint_kind x) (pb_target x) (pb_backend x)) (bb_outputs b)"
    using b(2) port by (rule emap_enumerate_all)
  moreover have "list_all (\<lambda>x. \<exists>r \<in> set (pc_resources P). rs_name r = rb_instance x \<and> rs_target r = rb_target x \<and>
      rs_backend r = rb_backend x) (bb_resources b)"
    using b(3) by (rule emap_enumerate_all) (auto simp: plan_resource_binding_def result_elims dest!: by_name_Some)
  moreover have "case af_producer a of
         None \<Rightarrow> af_target a = None \<and> af_backend a = None
       | Some raw \<Rightarrow> \<exists>k t bk. af_target a = Some t \<and> af_backend a = Some bk \<and> endpoint_at p SOURCE raw k t bk"
    if "a \<in> set (pl_artifacts (plan_body p))" for a
    using emap_Inr_set [OF artifacts that] resolved
    by (fastforce simp: plan_artifact_def result_elims split: option.splits)
  ultimately show ?thesis by (simp add: well_linked_plan_def Let_def b_def [symmetric] p(4) list_all_iff)
qed

section \<open>Pinned child definitions\<close>

definition pinned_child :: "planned_instance \<Rightarrow> bool" where
  "pinned_child i =
     (let b = plan_body (in_plan i) in
      \<exists>e r. RevisionRef_from_sha256 e (PStr (pl_system_sha256 b)) = Inr r \<and> in_revision i = RevisionRef_canonical r \<and>
        pl_system b = er_name e)"

definition well_pinned :: "system_plan \<Rightarrow> bool" where
  "well_pinned p = list_all pinned_child (plan_systems p)"

lemma resolve_definition_Inr:
  assumes "resolve_definition E path i = Inr child"
  obtains resolver revision actual where "pn_resolver E = Some resolver" "instance_revision i = Inr revision"
    "resolver revision = Inr (Resolved child)"
    "RevisionRef_from_sha256 (rv_entity revision) (PStr (pn_digest E child)) = Inr actual"
    "sm_name child = er_name (rv_entity revision)" "RevisionRef_canonical actual = RevisionRef_canonical revision"
proof -
  from assms obtain resolver where r: "pn_resolver E = Some resolver"
    by (auto simp: resolve_definition_def split: option.splits)
  with assms obtain revision v where v: "instance_revision i = Inr revision" "resolver revision = Inr v"
    by (auto simp: resolve_definition_def result_elims)
  have "v = Resolved child"
    using assms r v by (cases v) (auto simp: resolve_definition_def result_elims)
  with assms r v that show thesis by (auto simp: resolve_definition_def result_elims)
qed

lemma plan_system_header:
  assumes "plan_system E d m ctx vs = Inr p"
  shows "pl_system (plan_body p) = sm_name m" "pl_system_sha256 (plan_body p) = pn_digest E m"
    "pl_execution_context_sha256 (plan_body p) = map_option (pn_context_digest E) ctx"
  using assms by (auto elim!: plan_system_run simp: plan_run_def)

lemma plan_well_pinned_here:
  assumes "plan_system E d m ctx vs = Inr p"
  shows "well_pinned p"
proof -
  obtain depth report front planned targets order P cycles where
    run: "plan_run E depth m ctx vs p report front planned targets order P cycles"
    using assms by (rule plan_system_run)
  then have planned: "emap (plan_child_system (plan_system E depth) E ctx (ft_overrides front)) (enumerate 0 (sm_systems m)) = Inr planned"
    and placed: "plan_placed E m ctx (ft_overrides front) planned = Inr (targets, order, P, cycles)"
    and p: "plan_systems p = pc_children P" by (simp_all add: plan_run_def)
  have "pinned_child y" if y: "y \<in> set planned" for y
  proof -
    obtain i where "plan_child_system (plan_system E depth) E ctx (ft_overrides front) (i, sm_systems m ! i) = Inr y"
      using planned y by (rule emap_enumerate_ex)
    then show ?thesis
      by (rule plan_child_system_Inr)
         (auto elim!: resolve_definition_Inr simp: pinned_child_def Let_def plan_system_header, metis)
  qed
  moreover have "\<exists>y \<in> set planned. in_plan y = in_plan x \<and> in_revision y = in_revision x" if "x \<in> set (pc_children P)" for x
    using placed by (rule plan_placed_Inr) (metis bind_child_Inr(3,6) emap_Inr_set that)
  ultimately show ?thesis by (fastforce simp: well_pinned_def p list_all_iff pinned_child_def Let_def)
qed

end
