(* ===== verification/Planner_Total.thy ===== *)
theory Planner_Total
  imports Planner_Sound
begin

text \<open>
  When planning ends and how it fails. A call that \<open>model_ok\<close> Systems reach either returns a
  plan or raises one of four exceptions: none of the dictionary lookups, of the
  \<open>assert\<close> and of the \<open>next\<close> of \<open>plan_system\<close> can fail, because the validation that comes
  first established what they rely on. The recursion ends when the pinned definitions form a
  hierarchy without cycles, and a deeper interpreter stack does not change the result.
\<close>

section \<open>Failures of planning\<close>

definition planning_failure :: "py_error \<Rightarrow> bool" where
  "planning_failure e =
     (exc_type e \<in> {''SystemPlanningError'', ''TypeError'', ''OverflowError'', ''ValidationError''})"

definition fails_cleanly :: "'a result \<Rightarrow> bool" where
  "fails_cleanly r = (case r of Inl e \<Rightarrow> planning_failure e | Inr _ \<Rightarrow> True)"

named_theorems clean_intros \<open>results that fail only as planning does\<close>

lemma clean_Inr [clean_intros, simp]: "fails_cleanly (Inr x)"
  by (simp add: fails_cleanly_def)

lemma clean_plan_error [clean_intros, simp]: "fails_cleanly (Inl (plan_error c p m))"
  by (simp add: fails_cleanly_def planning_failure_def plan_error_def)

lemma clean_ebind [clean_intros]: "fails_cleanly m \<Longrightarrow> (\<And>x. m = Inr x \<Longrightarrow> fails_cleanly (f x)) \<Longrightarrow> fails_cleanly (ebind m f)"
  by (cases m) (auto simp: fails_cleanly_def)

lemma clean_total: "\<exists>x. r = Inr x \<Longrightarrow> fails_cleanly r"
  by auto

lemma clean_emap: "(\<And>x. x \<in> set xs \<Longrightarrow> fails_cleanly (f x)) \<Longrightarrow> fails_cleanly (emap f xs)"
  by (induction xs) (auto intro!: clean_ebind)

lemma clean_emap_enumerate:
  assumes "\<And>i x. x \<in> set xs \<Longrightarrow> fails_cleanly (f (i, x))"
  shows "fails_cleanly (emap f (enumerate 0 xs))"
proof (rule clean_emap)
  fix p assume p: "p \<in> set (enumerate 0 xs)"
  obtain i x where "p = (i, x)" by fastforce
  with p have "x \<in> set xs" by (auto simp: enumerate_eq_zip dest: set_zip_rightD)
  with assms \<open>p = (i, x)\<close> show "fails_cleanly (f p)" by simp
qed

lemma dict_item_total:
  assumes "k \<in> f ` set xs"
  shows "\<exists>x. dict_item (by_name f xs) k = Inr x"
proof -
  from assms have "map_of (by_name f xs) k \<noteq> None" by (simp add: by_name_None)
  then obtain x where "map_of (by_name f xs) k = Some x" by blast
  then show ?thesis unfolding dict_item_def by simp
qed

lemma dict_item_clean [clean_intros]: "k \<in> f ` set xs \<Longrightarrow> fails_cleanly (dict_item (by_name f xs) k)"
  by (rule clean_total) (rule dict_item_total)

lemma get_named_clean [clean_intros]: "k \<in> f ` set xs \<Longrightarrow> fails_cleanly (get_named f xs k)"
  by (rule clean_total) (auto dest!: get_named_total [of k f xs])

lemma topological_order_clean [clean_intros]:
  assumes "snd ` set edges \<subseteq> set names"
  shows "fails_cleanly (topological_order names edges)"
proof -
  have "find (\<lambda>e. snd e \<notin> set names) (proper_edges edges) = None"
    using assms by (auto simp: find_None_iff proper_edges_def)
  then show ?thesis by (simp add: topological_order_def Let_def)
qed

section \<open>The environment\<close>

text \<open>
  What planning needs of the code it calls: digests are SHA-256 digests, rounding to a float
  does not give a NaN, and building a node policy fails only by the error that planning
  converts or by one that it lets through.
\<close>

definition environment_ok :: "plan_env \<Rightarrow> bool" where
  "environment_ok E =
     ((\<forall>m. sha256_match (lower_str (strip (pn_digest E m)))) \<and>
      (\<forall>q. ne_round (pn_nodes E) q \<noteq> NaN) \<and>
      (\<forall>p. fails_cleanly (ne_build (pn_nodes E) p) \<or> (\<exists>a b. ne_build (pn_nodes E) p = Inl (node_error a b))))"

text \<open>
  The resolver answers every reference, with Systems pydantic built, and following the pinned
  children of a System goes down in \<open>rank\<close>: a definition is pinned by the digest of its
  content, so that it cannot contain itself.
\<close>

definition resolver_ok :: "plan_env \<Rightarrow> (system_model \<Rightarrow> nat) \<Rightarrow> bool" where
  "resolver_ok E rank = (case pn_resolver E of None \<Rightarrow> True
     | Some resolver \<Rightarrow> \<forall>m i rev. case resolver rev of
         Inl _ \<Rightarrow> False
       | Inr (Resolved c) \<Rightarrow> model_ok c \<and> producers_parse c \<and>
           (i \<in> set (sm_systems m) \<and> instance_revision i = Inr rev \<longrightarrow> rank c < rank m)
       | Inr _ \<Rightarrow> True)"

section \<open>The stages\<close>

lemma accepts_clean [clean_intros]: "fails_cleanly (accepts p v)"
  by (auto simp: accepts_def fails_cleanly_def planning_failure_def split: pyval.splits parameter_type.splits pyfloat.splits)

lemma check_parameters_clean: "fails_cleanly (check_parameters m vs)"
proof -
  have "fails_cleanly (check_parameter vs np)" for np
    by (cases np) (auto simp: check_parameter_def split: option.splits intro!: clean_intros)
  then show ?thesis
    by (auto simp: check_parameters_def Let_def split: list.splits intro!: clean_intros clean_emap)
qed

lemma accepted_uses:
  assumes "accepted validate_system_uses (si_uses i)"
  shows "\<exists>r. instance_revision i = Inr r"
proof -
  from assms obtain r where r: "RevisionRef_parse (PStr (strip (si_uses i))) = Inr r" "RevisionRef_canonical r = si_uses i"
    by (auto simp: accepted_def validate_system_uses_def split: if_splits sum.splits)
  from RevisionRef_parse_canonical [OF RevisionRef_parse_printable [OF r(1)]] r(2)
  show ?thesis by (auto simp: instance_revision_def)
qed

lemma accepted_name: "accepted validate_name n \<Longrightarrow> strip n \<noteq> []"
  by (auto simp: accepted_def validate_name_def nonempty_field_def result_elims split: if_splits)

lemma child_context_total: "strip n \<noteq> [] \<Longrightarrow> \<exists>cc. child_context ctx n = Inr cc"
  by (auto simp: child_context_def Let_def split: option.splits)

lemma from_sha256_total:
  assumes "sha256_match (lower_str (strip d))"
  shows "\<exists>r. RevisionRef_from_sha256 e (PStr d) = Inr r"
proof -
  have "strip ''sha256'' = ''sha256''" "lower_str ''sha256'' = ''sha256''" "seg_match ''sha256''" by code_simp+
  moreover have "lower_str (strip d) \<noteq> []" using assms by (cases "strip d") (simp_all add: sha256_match_def lower_str_def)
  ultimately show ?thesis using assms by (simp add: RevisionRef_from_sha256_def mk_RevisionRef_def)
qed

lemma parameter_overrides_total:
  assumes "boundary_ok (sm_bindings m)"
  shows "\<exists>os. parameter_overrides m vs = Inr os"
proof -
  have "\<exists>os. binding_overrides vs b = Inr os" if "b \<in> set (bo_parameters (sm_bindings m))" for b
  proof -
    have "\<exists>ys. emap (\<lambda>raw. ebind (parse_system_parameter_target raw) (\<lambda>t. Inr (t, v))) (xb_targets b) = Inr ys" for v
      by (rule emap_total) (metis boundary_parses(2) [OF assms that] ebind_Inr)
    then show ?thesis by (auto simp: binding_overrides_def split: option.split)
  qed
  then have "\<exists>oss. emap (binding_overrides vs) (bo_parameters (sm_bindings m)) = Inr oss" by (rule emap_total)
  then show ?thesis by (auto simp: parameter_overrides_def)
qed

lemma plan_startup_clean:
  assumes "dependencies_ok m"
  shows "fails_cleanly (plan_startup m)"
  using assms by (auto simp: plan_startup_def dependencies_ok_def list_all_iff intro!: clean_intros)

lemma plan_targets_clean: "fails_cleanly (plan_targets m)"
proof -
  have "fails_cleanly (target_backend d path)" for d path
    by (auto simp: target_backend_def split: option.splits pyval.splits)
  then show ?thesis
    by (auto simp: plan_targets_def intro!: clean_emap clean_ebind)
qed

lemma resolve_target_clean:
  assumes "plan_targets m = Inr ts" and "target_ok m t"
  shows "fails_cleanly (resolve_target ts t path)"
proof (cases t)
  case None
  then show ?thesis by (auto simp: resolve_target_def split: list.split)
next
  case (Some n)
  with assms(2) have "n \<in> tt_name ` set (sm_targets m)" by (simp add: target_ok_def)
  moreover from this have "set (map tg_name ts) = tt_name ` set (sm_targets m)"
    using plan_targets_names [OF assms(1)] by (auto split: if_splits)
  ultimately show ?thesis using Some by (simp add: resolve_target_def dict_item_clean)
qed

lemma ensure_locality_clean:
  assumes "snd ` set bs \<subseteq> rs_name ` set rs"
  shows "fails_cleanly (ensure_resource_locality rs owner field target backend bs)"
proof -
  have "fails_cleanly (case b of (slot, name) \<Rightarrow> ebind (dict_item (by_name rs_name rs) name) (F slot))"
    if "b \<in> set bs" "\<And>slot r. fails_cleanly (F slot r)" for b and F :: "string \<Rightarrow> planned_resource \<Rightarrow> unit result"
  proof -
    obtain slot name where b: "b = (slot, name)" by fastforce
    with that(1) assms have "name \<in> rs_name ` set rs" by force
    with that(2) show ?thesis by (simp add: b clean_ebind dict_item_clean)
  qed
  then show ?thesis
    unfolding ensure_resource_locality_def by (intro clean_ebind clean_emap) auto
qed

lemma plan_resources_names:
  assumes "plan_resources m os ts = Inr (rs, order)"
  shows "rs_name ` set rs = ri_name ` set (sm_resources m)"
  using plan_resources_Inr(2) [OF assms] by (metis set_map)

lemma plan_resources_clean:
  assumes linked: "well_linked m" and ts: "plan_targets m = Inr ts"
  shows "fails_cleanly (plan_resources m os ts)"
proof -
  have ok: "target_ok m (ri_target r)" "resources_ok m (ri_bindings r)" if "r \<in> set (sm_resources m)" for r
    using linked that by (auto simp: well_linked_def list_all_iff)
  have one: "fails_cleanly (plan_resource os ts (i, r))" if "r \<in> set (sm_resources m)" for i r
    using resolve_target_clean [OF ts ok(1) [OF that]] by (auto simp: plan_resource_def intro!: clean_ebind)
  show ?thesis unfolding plan_resources_def
  proof (intro clean_ebind clean_emap_enumerate one)
    fix rs assume rs: "emap (plan_resource os ts) (enumerate 0 (sm_resources m)) = Inr rs"
    have names: "map rs_name rs = map ri_name (sm_resources m)"
      using rs plan_resource_Inr(2) by (rule emap_enumerate_map)
    have "map rs_bindings rs = map ri_bindings (sm_resources m)"
      using rs plan_resource_Inr(3) by (rule emap_enumerate_map)
    then have "rs_bindings ` set rs = ri_bindings ` set (sm_resources m)" by (metis set_map)
    then have bound: "snd ` set (rs_bindings r) \<subseteq> set (map rs_name rs)" if "r \<in> set rs" for r
    proof -
      from that \<open>rs_bindings ` set rs = _\<close> have "rs_bindings r \<in> ri_bindings ` set (sm_resources m)" by blast
      then obtain q where "q \<in> set (sm_resources m)" "rs_bindings r = ri_bindings q" by blast
      with ok(2) [of q] show ?thesis unfolding names resources_ok_def by simp
    qed
    have "fails_cleanly (resource_edges r)" for r
      by (auto simp: resource_edges_def intro!: clean_emap)
    moreover have "snd ` set (concat edges) \<subseteq> set (map rs_name rs)" if "emap resource_edges rs = Inr edges" for edges
    proof
      fix n assume "n \<in> snd ` set (concat edges)"
      then obtain es e where es: "es \<in> set edges" "e \<in> set es" "n = snd e" by auto
      from emap_Inr_set [OF that es(1)] obtain r where r: "r \<in> set rs" "resource_edges r = Inr es" by blast
      from emap_Inr_set [OF r(2) [unfolded resource_edges_def] es(2)] es(3) have "n = rs_name r" by (auto split: if_splits)
      with r(1) show "n \<in> set (map rs_name rs)" by simp
    qed
    ultimately show "fails_cleanly (plan_resource_order rs)"
      unfolding plan_resource_order_def
      by (intro clean_ebind clean_emap topological_order_clean) (simp_all split: prod.split)
    show "fails_cleanly ((\<lambda>(i, r). ensure_resource_locality rs (at_index ''resources'' i) ''bindings'' (rs_target r) (rs_backend r)
            (rs_bindings r)) (i, r))" if "r \<in> set rs" for i r
      using ensure_locality_clean bound [OF that] by simp
  qed simp_all
qed

section \<open>Child Systems\<close>

lemma plan_system_requirements:
  assumes "plan_system E d m ctx vs = Inr p"
  shows "map rq_name (pl_resource_requirements (plan_body p)) = map rr_name (sm_resource_requirements m)"
proof -
  have "map rq_name (planned_requirements m) = map rr_name (sm_resource_requirements m)"
    by (auto simp: planned_requirements_def nth_enumerate_eq intro!: nth_equalityI)
  moreover obtain front planned where "plan_rest E m ctx front planned = Inr p"
    using assms by (cases d) (auto simp: result_elims)
  then have "pl_resource_requirements (plan_body p) = planned_requirements m"
    by (auto simp: plan_rest_def result_elims Let_def)
  ultimately show ?thesis by simp
qed

lemma resolver_answers:
  assumes "accepted validate_system_uses (si_uses i)" and "resolver_ok E rank"
  shows "\<exists>c. resolve_child (pn_resolver E) i = Inr c"
proof (cases "pn_resolver E")
  case None
  then show ?thesis by (simp add: resolve_child_def)
next
  case (Some resolver)
  obtain rev where rev: "instance_revision i = Inr rev" using accepted_uses [OF assms(1)] by blast
  from assms(2) Some have "case resolver rev of Inl _ \<Rightarrow> False | Inr _ \<Rightarrow> True"
    by (auto simp: resolver_ok_def split: sum.splits resolved_definition.splits)
  then obtain v where "resolver rev = Inr v" by (cases "resolver rev") auto
  with Some rev show ?thesis by (simp add: resolve_child_def)
qed

lemma resolve_definition_clean:
  assumes "environment_ok E" and "resolver_ok E rank" and "accepted validate_system_uses (si_uses i)"
  shows "fails_cleanly (resolve_definition E path i)"
proof (cases "pn_resolver E")
  case None
  then show ?thesis by (simp add: resolve_definition_def)
next
  case (Some resolver)
  obtain rev where rev: "instance_revision i = Inr rev" using accepted_uses [OF assms(3)] by blast
  from resolver_answers [OF assms(3,2)] Some rev obtain v where v: "resolver rev = Inr v"
    by (cases "resolver rev") (auto simp: resolve_child_def)
  have "fails_cleanly (RevisionRef_from_sha256 (rv_entity rev) (PStr (pn_digest E c)))" for c
    using assms(1) by (intro clean_total from_sha256_total) (simp add: environment_ok_def)
  then have "fails_cleanly (ebind (RevisionRef_from_sha256 (rv_entity rev) (PStr (pn_digest E c))) F)"
    if "\<And>r. fails_cleanly (F r)" for c and F :: "revision_ref \<Rightarrow> system_model result"
    using that by (intro clean_ebind) blast+
  with Some rev v show ?thesis
    by (cases v) (simp_all add: resolve_definition_def)
qed

lemma nest_error_clean: "fails_cleanly r \<Longrightarrow> fails_cleanly (nest_error path name r)"
  by (auto simp: nest_error_def split: sum.splits py_error.splits)

lemma resolved_child:
  assumes "resolver_ok E rank" and "i \<in> set (sm_systems m)" and "resolve_definition E path i = Inr c"
  shows "model_ok c \<and> producers_parse c \<and> rank c < rank m \<and> resolve_child (pn_resolver E) i = Inr (Some c)"
  using assms(3)
proof (rule resolve_definition_Inr)
  fix resolver rev actual
  assume r: "pn_resolver E = Some resolver" "instance_revision i = Inr rev" "resolver rev = Inr (Resolved c)"
  have "case resolver rev of Inl _ \<Rightarrow> False
       | Inr (Resolved c) \<Rightarrow> model_ok c \<and> producers_parse c \<and>
           (i \<in> set (sm_systems m) \<and> instance_revision i = Inr rev \<longrightarrow> rank c < rank m)
       | Inr _ \<Rightarrow> True"
    using assms(1) unfolding resolver_ok_def r(1) option.case by blast
  with r assms(2) show ?thesis by (simp add: resolve_child_def)
qed

lemma plan_child_clean:
  assumes env: "environment_ok E" "resolver_ok E rank" and "model_ok m" and i: "i \<in> set (sm_systems m)"
    and planner: "\<And>c cc v. model_ok c \<Longrightarrow> producers_parse c \<Longrightarrow> rank c < rank m \<Longrightarrow> fails_cleanly (planner c cc v)"
  shows "fails_cleanly (plan_child_system planner E ctx os (k, i))"
proof -
  have ok: "accepted validate_name (si_name i)" "accepted validate_system_uses (si_uses i)"
    using assms(3) i by (auto simp: model_ok_def list_all_iff)
  obtain cc where cc: "child_context ctx (si_name i) = Inr cc" using child_context_total accepted_name [OF ok(1)] by blast
  obtain rev where rev: "instance_revision i = Inr rev" using accepted_uses [OF ok(2)] by blast
  show ?thesis
    unfolding plan_child_system_def prod.case Let_def cc rev ebind_Inr
    by (intro clean_ebind resolve_definition_clean [OF env ok(2)] nest_error_clean planner clean_Inr)
       (use resolved_child [OF env(2) i] in blast)+
qed

text \<open>What binding the parent's resources needs of a planned child.\<close>

definition child_slots_known :: "system_model \<Rightarrow> planned_instance \<Rightarrow> bool" where
  "child_slots_known m x =
     (snd ` set (in_resources x) \<subseteq> ri_name ` set (sm_resources m) \<and>
      fst ` set (in_resources x) \<subseteq> set (map rq_name (pl_resource_requirements (plan_body (in_plan x)))))"

lemma planned_child_slots:
  assumes report: "validate_system (pn_types E) (pn_catalog E) (pn_resolver E) m = Inr report" "no_error report"
    and "resolver_ok E rank" and i: "i \<in> set (sm_systems m)"
    and x: "plan_child_system (plan_system E depth) E ctx os (k, i) = Inr x"
  shows "child_slots_known m x \<and> in_name x = si_name i"
  using x
proof (rule plan_child_system_Inr)
  fix child cc plan rev
  assume c: "resolve_definition E (at_index ''systems'' k) i = Inr child"
    and plan: "plan_system E depth child cc (child_parameters os i) = Inr plan"
    and x: "x = PlannedSystemInstance k (si_name i) (RevisionRef_canonical rev) (child_parameters os i) (si_resources i) [] plan"
  from resolved_child [OF assms(3) i c] have "resolve_child (pn_resolver E) i = Inr (Some child)" by blast
  from validated_child_conforms [OF report i this]
  have "fst ` set (si_resources i) \<subseteq> rr_name ` set (sm_resource_requirements child)" by (auto simp: child_conforms_def)
  moreover have "resources_ok m (si_resources i)"
    using validate_system_sound [OF report] i by (auto simp: well_linked_def list_all_iff)
  ultimately show ?thesis
    by (simp add: child_slots_known_def x plan_system_requirements [OF plan] resources_ok_def)
qed

lemma bind_child_clean:
  assumes "child_slots_known m x" and names: "rs_name ` set rs = ri_name ` set (sm_resources m)"
  shows "fails_cleanly (bind_child rs x)"
proof -
  have boundary: "fails_cleanly (case boundary_resource b n of Inl (KeyErr k) \<Rightarrow> Inl (plan_error c p msg) | r \<Rightarrow> r)" for b n c p msg
    by (auto simp: boundary_resource_def get_named_def split: option.split)
  have "fails_cleanly (bind_child_resource rs x (k, slot))" if "slot \<in> set (in_resources x)" for k slot
  proof -
    obtain requirement parent where slot: "slot = (requirement, parent)" by fastforce
    with that assms(1) have "parent \<in> ri_name ` set (sm_resources m)"
      and r: "requirement \<in> set (map rq_name (pl_resource_requirements (plan_body (in_plan x))))"
      unfolding child_slots_known_def by force+
    then have p: "parent \<in> rs_name ` set rs" by (simp add: names)
    from r have "requirement \<in> rq_name ` set (pl_resource_requirements (plan_body (in_plan x)))" by simp
    then have "fails_cleanly (plan_resource_requirement (in_plan x) requirement)"
      unfolding plan_resource_requirement_def by (rule get_named_clean)
    then show ?thesis
      unfolding bind_child_resource_def slot prod.case
      by (intro clean_ebind dict_item_clean [OF p] boundary) (simp_all split: if_split)
  qed
  then show ?thesis unfolding bind_child_def by (intro clean_ebind clean_emap_enumerate) simp_all
qed

section \<open>Applications and graphs\<close>

text \<open>Either as planning fails, or by the error of the policy \<open>err\<close> that planning converts.\<close>

definition converted :: "(py_error \<Rightarrow> bool) \<Rightarrow> 'a result \<Rightarrow> bool" where
  "converted P r = (case r of Inl e \<Rightarrow> planning_failure e \<or> P e | Inr _ \<Rightarrow> True)"

lemma converted_ebind: "converted P m \<Longrightarrow> (\<And>x. m = Inr x \<Longrightarrow> converted P (f x)) \<Longrightarrow> converted P (ebind m f)"
  by (cases m) (auto simp: converted_def)

lemma converted_basic [simp]:
  "converted P (Inr x)" "converted P (Inl (TypeErr msg))" "converted P (Inl (NamedErr ''OverflowError'' msg))"
  "P e \<Longrightarrow> converted P (Inl e)"
  by (simp_all add: converted_def planning_failure_def)

definition node_failure :: "py_error \<Rightarrow> bool" where
  "node_failure e = (case e of CodedErr cls _ _ _ \<Rightarrow> cls = ''NodeExecutionResolutionError'' | _ \<Rightarrow> False)"

lemma node_failure_error [simp]: "node_failure (node_error p msg)"
  by (simp add: node_failure_def node_error_def)

lemma node_sections_converted:
  "converted node_failure (node_mapping p v)" "converted node_failure (reject_fields p d ks)"
  "converted node_failure (node_section d name ks)"
proof -
  show m: "converted node_failure (node_mapping p v)" for p v
    by (simp add: node_mapping_def split: pyval.split)
  show r: "converted node_failure (reject_fields p d ks)" for p d ks
    by (simp add: reject_fields_def Let_def)
  show "converted node_failure (node_section d name ks)"
    unfolding node_section_def by (intro converted_ebind m r) simp
qed

lemma node_fields_converted:
  assumes "\<And>q. rnd q \<noteq> NaN"
  shows "converted node_failure (milliseconds_to_ns rnd p v)" "converted node_failure (policy_alias v)"
proof -
  have "converted node_failure (scaled_ns rnd p f)" for f
    using assms by (auto simp: scaled_ns_def split: pyfloat.split)
  then show "converted node_failure (milliseconds_to_ns rnd p v)"
    by (simp add: milliseconds_to_ns_def split: pyval.split)
  show "converted node_failure (policy_alias v)" by (simp add: policy_alias_def)
qed

lemma move_field_converted:
  "(\<And>v. converted node_failure (f v)) \<Longrightarrow> converted node_failure (move_field old new f d)"
  by (auto simp: move_field_def split: option.split intro!: converted_ebind)

lemma node_execution_defaults_clean:
  assumes "environment_ok E"
  shows "fails_cleanly (node_execution_defaults E ctx uses)"
proof -
  have rnd: "\<And>q. ne_round (pn_nodes E) q \<noteq> NaN" using assms by (simp add: environment_ok_def)
  note fields = node_fields_converted [of "ne_round (pn_nodes E)", OF rnd]
  have build: "converted node_failure (ne_build (pn_nodes E) p)" for p
  proof -
    from assms have "fails_cleanly (ne_build (pn_nodes E) p) \<or> (\<exists>a b. ne_build (pn_nodes E) p = Inl (node_error a b))"
      unfolding environment_ok_def by blast
    then show ?thesis by (cases "ne_build (pn_nodes E) p") (auto simp: converted_def fails_cleanly_def)
  qed
  have "converted node_failure (resolve_node_execution_defaults (pn_nodes E) raw)" for raw
    unfolding resolve_node_execution_defaults_def
    by (cases raw; simp)
      (intro conjI impI converted_ebind move_field_converted node_sections_converted fields build
         converted_basic(1))
  from this [of "Option.bind ctx (\<lambda>c. map_of (cx_node_defaults c) (PStr uses))"] show ?thesis
    unfolding node_execution_defaults_def converted_def fails_cleanly_def
    by (auto simp: node_failure_def planning_failure_def plan_error_def split: sum.splits py_error.splits)
qed

definition connection_failure :: "py_error \<Rightarrow> bool" where
  "connection_failure e = (case e of CodedErr cls _ _ _ \<Rightarrow> cls = ''ConnectionExecutionResolutionError'' | _ \<Rightarrow> False)"

lemma connection_execution_clean: "fails_cleanly (connection_execution E ctx)"
proof -
  have err [simp]: "connection_failure (connection_error p msg)" for p msg
    by (simp add: connection_failure_def connection_error_def)
  have m: "converted connection_failure (policy_mapping p v)" for p v
    by (simp add: policy_mapping_def split: pyval.split)
  have r: "converted connection_failure (reject_unknown s d ks p)" for s d ks p
    by (simp add: reject_unknown_def Let_def)
  have w: "converted connection_failure (wrap_value_error p (mk_queue_policy c q))"
    "converted connection_failure (wrap_value_error p (mk_memory_policy c q))" for p c q
    by (auto simp: wrap_value_error_def mk_queue_policy_def mk_memory_policy_def split: pyval.split)
  have q: "converted connection_failure (resolve_queue s v)" "converted connection_failure (resolve_memory s v)" for s v
    unfolding resolve_queue_def resolve_memory_def Let_def by (intro converted_ebind m r w)+
  have "converted connection_failure (resolve_connection_execution_defaults s d)" for s d
    unfolding resolve_connection_execution_defaults_def Let_def
    by (intro converted_ebind r) (simp_all add: q split: option.split)
  from this [of "pn_show E" "map_option cx_edge_defaults ctx"] show ?thesis
    unfolding connection_execution_def converted_def fails_cleanly_def
    by (auto simp: connection_failure_def planning_failure_def plan_error_def split: sum.splits py_error.splits)
qed

lemma string_keys_clean: "fails_cleanly (string_keys d)"
proof -
  have "fails_cleanly (Inl (NamedErr ''ValidationError'' m))" for m
    by (simp add: fails_cleanly_def planning_failure_def)
  then show ?thesis unfolding string_keys_def by (intro clean_emap) (auto split: pyval.split)
qed

lemma plan_application_clean:
  assumes "plan_targets m = Inr ts" and "target_ok m (ai_target a)" and "resources_ok m (ai_resources a)"
    and "rs_name ` set rs = ri_name ` set (sm_resources m)"
  shows "fails_cleanly (plan_application os ts rs (k, a))"
  unfolding plan_application_def prod.case
  using assms(3,4) by (intro clean_ebind resolve_target_clean [OF assms(1,2)] ensure_locality_clean clean_Inr)
    (simp_all add: resources_ok_def)

lemma plan_node_clean:
  assumes "environment_ok E" and "plan_targets m = Inr ts" and "target_ok m (ni_target n)"
    and "resources_ok m (ni_resources n)" and "rs_name ` set rs = ri_name ` set (sm_resources m)"
  shows "fails_cleanly (plan_node E ctx os ts rs g graph (k, n))"
proof -
  obtain a b c where contracts: "definition_contracts (pn_catalog E) (ni_uses n) = (a, b, c)" by (rule prod_cases3)
  have backend: "fails_cleanly (node_backend g k x y)" for x y by (simp add: node_backend_def Let_def)
  have local: "fails_cleanly (ensure_resource_locality rs p f t b (ni_resources n))" for p f t b
    using assms(4,5) by (intro ensure_locality_clean) (simp add: resources_ok_def)
  show ?thesis
    unfolding plan_node_def prod.case Let_def contracts
    by (intro clean_ebind resolve_target_clean [OF assms(2,3)] backend)
       (auto intro!: clean_ebind node_execution_defaults_clean [OF assms(1)] string_keys_clean local)
qed

lemma plan_connection_clean:
  assumes "connection_ok g c" and "nd_name ` set nodes = ni_name ` set (gp_nodes g)"
  shows "fails_cleanly (plan_connection k graph nodes policy (i, c))"
proof -
  from assms(1) obtain a ap b bp where "split_local_endpoint (co_source c) = Inr (a, ap)"
    "split_local_endpoint (co_target c) = Inr (b, bp)" "a \<in> nd_name ` set nodes" "b \<in> nd_name ` set nodes"
    by (auto simp: connection_ok_def assms(2) split: sum.splits prod.splits)
  then show ?thesis
    by (auto simp: plan_connection_def intro!: clean_ebind dict_item_clean)
qed

lemma plan_graph_clean:
  assumes "environment_ok E" and "plan_targets m = Inr ts" and "well_linked m" and g: "g \<in> set (sm_graphs m)"
    and "rs_name ` set rs = ri_name ` set (sm_resources m)"
  shows "fails_cleanly (plan_graph_instance E ctx os ts rs (k, g))"
proof -
  have ok: "\<And>n. n \<in> set (gp_nodes g) \<Longrightarrow> target_ok m (ni_target n) \<and> resources_ok m (ni_resources n)"
    "\<And>c. c \<in> set (gp_connections g) \<Longrightarrow> connection_ok g c"
    using assms(3) g by (auto simp: well_linked_def list_all_iff)
  show ?thesis
    unfolding plan_graph_instance_def prod.case
  proof (intro clean_ebind clean_emap_enumerate connection_execution_clean)
    show "fails_cleanly (plan_node E ctx os ts rs k (gp_name g) (i, n))" if "n \<in> set (gp_nodes g)" for i n
      using ok(1) [OF that] assms(5) by (intro plan_node_clean [OF assms(1,2)]) simp_all
    fix nodes policy
    assume nodes: "emap (plan_node E ctx os ts rs k (gp_name g)) (enumerate 0 (gp_nodes g)) = Inr nodes"
    have "map nd_name nodes = map ni_name (gp_nodes g)" using nodes plan_node_Inr(2) by (rule emap_enumerate_map)
    then have names: "nd_name ` set nodes = ni_name ` set (gp_nodes g)" by (metis set_map)
    show "fails_cleanly (plan_connection k (gp_name g) nodes policy (i, c))" if "c \<in> set (gp_connections g)" for i c
      using ok(2) [OF that] names by (rule plan_connection_clean)
    fix conns
    assume conns: "emap (plan_connection k (gp_name g) nodes policy) (enumerate 0 (gp_connections g)) = Inr conns"
    have "list_all (\<lambda>c. snd (snd c) \<in> nd_name ` set nodes) conns"
      using conns
    proof (rule emap_enumerate_all)
      fix i c y assume "plan_connection k (gp_name g) nodes policy (i, c) = Inr y"
      then show "snd (snd y) \<in> nd_name ` set nodes" by (cases y) (auto elim!: plan_connection_Inr)
    qed
    then show "fails_cleanly (topological_order (map nd_name nodes) (map snd conns))"
      by (intro topological_order_clean) (auto simp: list_all_iff)
  qed (simp split: prod.split)
qed

section \<open>Endpoints, bindings, links and artifacts\<close>

text \<open>The placed objects are those the System declares.\<close>

definition placed_all :: "system_model \<Rightarrow> placed \<Rightarrow> bool" where
  "placed_all m P =
     (rs_name ` set (pc_resources P) = ri_name ` set (sm_resources m) \<and>
      ap_name ` set (pc_applications P) = ai_name ` set (sm_applications m) \<and>
      in_name ` set (pc_children P) = si_name ` set (sm_systems m) \<and>
      (\<forall>g \<in> set (sm_graphs m). \<exists>x \<in> set (pc_graphs P). gr_name x = gp_name g \<and>
          nd_name ` set (gr_nodes x) = ni_name ` set (gp_nodes g)))"

lemma placed_all_graph:
  "placed_all m P \<Longrightarrow> g \<in> set (sm_graphs m) \<Longrightarrow>
     \<exists>x \<in> set (pc_graphs P). gr_name x = gp_name g \<and> nd_name ` set (gr_nodes x) = ni_name ` set (gp_nodes g)"
  by (simp add: placed_all_def)

lemma dict_update_key:
  assumes "k \<in> fst ` set d"
  shows "\<exists>v. map_of (dict_update [] d) k = Some v"
proof -
  have "map_of (dict_update [] d) k \<noteq> None"
    unfolding map_of_eq_None_iff using assms by (simp add: dict_update_dom)
  then show ?thesis by blast
qed

lemma global_node_total:
  assumes "x \<in> set graphs" and "gr_name x = g" and "name \<in> nd_name ` set (gr_nodes x)"
  shows "\<exists>n. global_node graphs g name = Inr n"
proof -
  have "(g, name) \<in> fst ` set (concat (map (\<lambda>gr. map (\<lambda>n. ((gr_name gr, nd_name n), n)) (gr_nodes gr)) graphs))"
    using assms by force
  from dict_update_key [OF this] show ?thesis by (auto simp: global_node_def)
qed

lemma child_endpoint_clean: "fails_cleanly (child_endpoint child dir port raw)"
  by (cases dir)
     (auto simp: child_endpoint_def Let_def plan_output_def plan_input_def boundary_output_def boundary_input_def
        get_named_def ebind_def split: option.split)

lemma resolve_endpoint_clean:
  assumes "endpoint_ok m raw" and "placed_all m P"
  shows "fails_cleanly (resolve_endpoint P dir raw)"
proof -
  from assms(1) obtain e where e: "parse_system_endpoint raw = Inr e" and decl: "endpoint_declared m e"
    by (auto simp: endpoint_ok_def split: sum.splits)
  show ?thesis
  proof (cases "ep_kind e")
    case APPLICATION
    with decl assms(2) have "ep_instance e \<in> ap_name ` set (pc_applications P)"
      by (simp add: endpoint_declared_def placed_all_def)
    with APPLICATION e show ?thesis by (auto simp: resolve_endpoint_def intro!: clean_ebind dict_item_clean)
  next
    case SYSTEM
    with decl assms(2) have "ep_instance e \<in> in_name ` set (pc_children P)"
      by (simp add: endpoint_declared_def placed_all_def)
    with SYSTEM e show ?thesis
      by (auto simp: resolve_endpoint_def intro!: clean_ebind dict_item_clean child_endpoint_clean)
  next
    case GRAPH
    with decl obtain g where g: "g \<in> set (sm_graphs m)" "ep_scope e = Some (gp_name g)"
      "ep_instance e \<in> ni_name ` set (gp_nodes g)" by (auto simp: endpoint_declared_def list_ex_iff)
    obtain x where "x \<in> set (pc_graphs P)" "gr_name x = gp_name g" "nd_name ` set (gr_nodes x) = ni_name ` set (gp_nodes g)"
      using placed_all_graph [OF assms(2) g(1)] by (elim bexE conjE)
    with g(3) have x: "x \<in> set (pc_graphs P)" "gr_name x = gp_name g" "ep_instance e \<in> nd_name ` set (gr_nodes x)"
      by simp_all
    from global_node_total [OF x] obtain n where "global_node (pc_graphs P) (gp_name g) (ep_instance e) = Inr n" ..
    with GRAPH e g(2) show ?thesis by (simp add: resolve_endpoint_def)
  qed
qed

lemma plan_port_binding_clean:
  assumes "placed_all m P" and "endpoint_ok m (ib_endpoint b)" and "ib_port b \<in> prt_name ` set ports"
  shows "fails_cleanly (plan_port_binding P dir ports (k, b))"
  unfolding plan_port_binding_def prod.case
  by (intro clean_ebind resolve_endpoint_clean [OF assms(2,1)] get_named_clean assms(3) clean_Inr)

lemma plan_resource_binding_clean:
  assumes "placed_all m P" and "resource_binding_ok m b"
  shows "fails_cleanly (plan_resource_binding m (pc_resources P) (k, b))"
proof -
  from assms(2) obtain q r where "map_of (by_name rr_name (sm_resource_requirements m)) (yb_resource b) = Some q"
    "map_of (by_name ri_name (sm_resources m)) (yb_instance b) = Some r"
    by (auto simp: resource_binding_ok_def split: option.splits)
  from by_name_Some [OF this(1)] by_name_Some [OF this(2)] assms(1)
  have "yb_resource b \<in> rr_name ` set (sm_resource_requirements m)" "yb_instance b \<in> rs_name ` set (pc_resources P)"
    unfolding placed_all_def by (metis imageI)+
  then show ?thesis
    unfolding plan_resource_binding_def prod.case model_resource_requirement_def
    by (intro clean_ebind dict_item_clean get_named_clean clean_Inr)
qed

lemma planned_parameters_names: "pp_name ` set (planned_parameters m vs) = sp_name ` set (sm_parameters m)"
proof -
  have "map pp_name (planned_parameters m vs) = map sp_name (sm_parameters m)"
    by (auto simp: planned_parameters_def nth_enumerate_eq intro!: nth_equalityI)
  then show ?thesis by (metis set_map)
qed

lemma plan_parameter_binding_clean:
  assumes "xb_parameter b \<in> sp_name ` set (sm_parameters m)"
  shows "fails_cleanly (plan_parameter_binding (planned_parameters m vs) (k, b))"
proof -
  have "find (\<lambda>p. pp_name p = xb_parameter b) (planned_parameters m vs) \<noteq> None"
    using assms planned_parameters_names [of m vs] unfolding find_None_iff by (metis imageE)
  then show ?thesis by (auto simp: plan_parameter_binding_def)
qed

lemma plan_bindings_clean:
  assumes "placed_all m P" and "bindings_ok m"
  shows "fails_cleanly (plan_bindings m P (planned_parameters m vs))"
  unfolding plan_bindings_def
  using assms(2)
  by (intro clean_ebind clean_emap_enumerate plan_port_binding_clean [OF assms(1)] plan_resource_binding_clean [OF assms(1)]
        plan_parameter_binding_clean clean_Inr)
     (auto simp: bindings_ok_def Let_def list_all_iff)

lemma plan_link_clean:
  assumes "placed_all m P" and "endpoint_ok m (lk_source l)" and "endpoint_ok m (lk_target l)"
  shows "fails_cleanly (plan_link P (k, l))"
proof -
  have "fails_cleanly (link_step k l s t)" for s t by (simp add: link_step_def Let_def)
  then show ?thesis
    unfolding plan_link_def prod.case
    by (intro clean_ebind resolve_endpoint_clean [OF assms(2,1)] resolve_endpoint_clean [OF assms(3,1)])
qed

lemma plan_artifact_clean:
  assumes "placed_all m P" and "producer_ok m a"
  shows "fails_cleanly (plan_artifact P a)"
  using assms unfolding plan_artifact_def producer_ok_def
  by (intro clean_ebind clean_Inr) (auto split: option.splits intro!: clean_ebind resolve_endpoint_clean)

section \<open>The whole\<close>

lemma plan_placed_all:
  assumes planned: "emap (plan_child_system planner E ctx os) (enumerate 0 (sm_systems m)) = Inr planned"
    and run: "plan_placed E m ctx os planned = Inr (targets, order, P, cycles)"
  shows "placed_all m P"
  using run
proof (rule plan_placed_Inr)
  fix graphs
  assume res: "plan_resources m os targets = Inr (pc_resources P, order)"
    and kids: "emap (bind_child (pc_resources P)) planned = Inr (pc_children P)"
    and apps: "emap (plan_application os targets (pc_resources P)) (enumerate 0 (sm_applications m)) = Inr (pc_applications P)"
    and graphs: "emap (plan_graph_instance E ctx os targets (pc_resources P)) (enumerate 0 (sm_graphs m)) = Inr graphs"
    and P: "pc_graphs P = map fst graphs"
  have "map ap_name (pc_applications P) = map ai_name (sm_applications m)"
    using apps plan_application_Inr(2) by (rule emap_enumerate_map)
  then have a: "ap_name ` set (pc_applications P) = ai_name ` set (sm_applications m)" by (metis set_map)
  have c: "in_name ` set (pc_children P) = si_name ` set (sm_systems m)"
    using plan_children_Inr(2) [OF planned kids] by (metis set_map)
  have "\<exists>x \<in> set (pc_graphs P). gr_name x = gp_name g \<and> nd_name ` set (gr_nodes x) = ni_name ` set (gp_nodes g)"
    if g: "g \<in> set (sm_graphs m)" for g
  proof -
    from g obtain k where k: "k < length (sm_graphs m)" "sm_graphs m ! k = g" by (auto simp: in_set_conv_nth)
    obtain x ds where x: "graphs ! k = (x, ds)" by fastforce
    with emap_enumerate [OF graphs] k
    have run: "plan_graph_instance E ctx os targets (pc_resources P) (k, g) = Inr (x, ds)" and "k < length graphs" by auto
    then have "graphs ! k \<in> set graphs" by simp
    then have mem: "x \<in> set (pc_graphs P)" unfolding P x by force
    have nodes: "emap (plan_node E ctx os targets (pc_resources P) k (gp_name g)) (enumerate 0 (gp_nodes g)) = Inr (gr_nodes x)"
      and name: "gr_name x = gp_name g" using run by (auto elim!: plan_graph_Inr)
    have "map nd_name (gr_nodes x) = map ni_name (gp_nodes g)" using nodes plan_node_Inr(2) by (rule emap_enumerate_map)
    then have "nd_name ` set (gr_nodes x) = ni_name ` set (gp_nodes g)" by (metis set_map)
    with mem name show ?thesis by blast
  qed
  then show ?thesis unfolding placed_all_def by (intro conjI ballI a c plan_resources_names [OF res])
qed

lemma plan_placed_clean:
  assumes env: "environment_ok E" and linked: "well_linked m" and slots: "list_all (child_slots_known m) planned"
  shows "fails_cleanly (plan_placed E m ctx os planned)"
proof -
  have app: "target_ok m (ai_target a)" "resources_ok m (ai_resources a)" if "a \<in> set (sm_applications m)" for a
    using linked that by (auto simp: well_linked_def list_all_iff)
  show ?thesis unfolding plan_placed_def
  proof (rule clean_ebind [OF plan_targets_clean])
    fix ts assume ts: "plan_targets m = Inr ts"
    show "fails_cleanly (ebind (plan_resources m os ts) (\<lambda>(resources, order).
        ebind (emap (bind_child resources) planned) (\<lambda>children.
        ebind (emap (plan_application os ts resources) (enumerate 0 (sm_applications m))) (\<lambda>applications.
        ebind (emap (plan_graph_instance E ctx os ts resources) (enumerate 0 (sm_graphs m))) (\<lambda>graphs.
        Inr (ts, order, \<lparr>pc_children = children, pc_resources = resources, pc_applications = applications,
            pc_graphs = map fst graphs\<rparr>, concat (map snd graphs)))))))"
    proof (rule clean_ebind [OF plan_resources_clean [OF linked ts]])
      fix r assume r: "plan_resources m os ts = Inr r"
      obtain rs order where eq: "r = (rs, order)" by fastforce
      note names = plan_resources_names [OF r [unfolded eq]]
      have kids: "fails_cleanly (emap (bind_child rs) planned)"
        using slots by (intro clean_emap bind_child_clean [OF _ names]) (auto simp: list_all_iff)
      show "fails_cleanly (case r of (resources, order) \<Rightarrow> ebind (emap (bind_child resources) planned) (\<lambda>children.
          ebind (emap (plan_application os ts resources) (enumerate 0 (sm_applications m))) (\<lambda>applications.
          ebind (emap (plan_graph_instance E ctx os ts resources) (enumerate 0 (sm_graphs m))) (\<lambda>graphs.
          Inr (ts, order, \<lparr>pc_children = children, pc_resources = resources, pc_applications = applications,
              pc_graphs = map fst graphs\<rparr>, concat (map snd graphs))))))"
        unfolding eq prod.case
        by (intro clean_ebind kids clean_emap_enumerate plan_application_clean [OF ts] app names
              plan_graph_clean [OF env ts linked] clean_Inr)
    qed
  qed
qed

lemma plan_rest_clean:
  assumes env: "environment_ok E" and linked: "well_linked m" and slots: "list_all (child_slots_known m) planned"
    and planned: "emap (plan_child_system planner E ctx (ft_overrides front)) (enumerate 0 (sm_systems m)) = Inr planned"
    and front: "ft_parameters front = planned_parameters m vs"
  shows "fails_cleanly (plan_rest E m ctx front planned)"
  unfolding plan_rest_def
proof (rule clean_ebind [OF plan_placed_clean [OF env linked slots]])
  fix r assume r: "plan_placed E m ctx (ft_overrides front) planned = Inr r"
  obtain targets order P cycles where eq: "r = (targets, order, P, cycles)" by (cases r) auto
  have P: "placed_all m P" using planned r unfolding eq by (rule plan_placed_all)
  have ok: "bindings_ok m" "\<And>l. l \<in> set (sm_links m) \<Longrightarrow> endpoint_ok m (lk_source l) \<and> endpoint_ok m (lk_target l)"
    "\<And>a. a \<in> set (sm_artifacts m) \<Longrightarrow> producer_ok m a"
    using linked by (auto simp: well_linked_def list_all_iff)
  have links: "fails_cleanly (emap (plan_link P) (enumerate 0 (sm_links m)))"
    using ok(2) by (intro clean_emap_enumerate plan_link_clean [OF P]) blast+
  have artifacts: "fails_cleanly (emap (plan_artifact P) (sm_artifacts m))"
    using ok(3) by (intro clean_emap plan_artifact_clean [OF P])
  show "fails_cleanly (case r of (targets, order, P, cycles) \<Rightarrow>
     ebind (plan_bindings m P (ft_parameters front)) (\<lambda>bindings.
     ebind (emap (plan_link P) (enumerate 0 (sm_links m))) (\<lambda>links.
     ebind (emap (plan_artifact P) (sm_artifacts m)) (\<lambda>artifacts.
     let b = \<lparr>pl_system = sm_name m, pl_system_sha256 = pn_digest E m,
          pl_execution_context_sha256 = map_option (pn_context_digest E) ctx,
          pl_inputs = planned_ports (sm_inputs m), pl_outputs = planned_ports (sm_outputs m),
          pl_parameters = ft_parameters front, pl_resource_requirements = planned_requirements m,
          pl_bindings = bindings, pl_system_startup = ft_startup front, pl_targets = targets,
          pl_resources = pc_resources P, pl_resource_order = order, pl_applications = pc_applications P,
          pl_graphs = pc_graphs P, pl_links = links, pl_artifacts = artifacts,
          pl_diagnostics = ft_diagnostics front @ cycles, pl_policies = sm_policies m,
          pl_metadata = sm_metadata m, pl_extensions = sm_extensions m, pl_summary = []\<rparr>
     in Inr (SystemExecutionPlan (b\<lparr>pl_summary := plan_summary b (pc_children P)\<rparr>) (pc_children P))))))"
    unfolding eq prod.case front Let_def
    by (intro clean_ebind plan_bindings_clean [OF P ok(1)] links artifacts clean_Inr)
qed

section \<open>The whole planner\<close>

text \<open>The validation that starts a planning run fails only by the check of a number.\<close>

lemma validate_system_clean:
  assumes ok: "model_ok m" and producers: "producers_parse m" and resolver: "resolver_ok E rank"
  shows "fails_cleanly (validate_system env catalog (pn_resolver E) m)"
proof -
  obtain ts where ts: "parameter_targets m = Inr ts" using parameter_targets_total [OF ok] ..
  have "fails_cleanly (child_diagnostics m (pn_resolver E) ts (k, i))" if "i \<in> set (sm_systems m)" for k i
  proof -
    have "accepted validate_system_uses (si_uses i)" using ok that by (auto simp: model_ok_def list_all_iff)
    then have child: "\<exists>c. resolve_child (pn_resolver E) i = Inr c" using resolver by (rule resolver_answers)
    have "fails_cleanly (child_parameter_diagnostics p i b np)" for p b np
      by (cases np) (auto simp: child_parameter_diagnostics_def Let_def split: option.split intro!: clean_intros)
    with child show ?thesis
      by (auto simp: child_diagnostics_def Let_def split: option.split intro!: clean_ebind clean_emap)
  qed
  then have kids: "fails_cleanly (emap (child_diagnostics m (pn_resolver E) ts) (enumerate 0 (sm_systems m)))"
    by (rule clean_emap_enumerate)
  show ?thesis
  proof (cases "emap (child_diagnostics m (pn_resolver E) ts) (enumerate 0 (sm_systems m))")
    case (Inl e)
    then have "validate_system env catalog (pn_resolver E) m = Inl e"
      unfolding validate_system_def Let_def ts ebind_Inr by simp
    with kids Inl show ?thesis by (simp add: fails_cleanly_def)
  next
    case (Inr ks)
    with ts show ?thesis by (intro clean_total validate_system_after_children [OF ok producers]) simp
  qed
qed

lemma plan_front_clean:
  assumes "model_ok m" and "producers_parse m" and "resolver_ok E rank"
  shows "fails_cleanly (plan_front_of E m vs)"
  unfolding plan_front_of_def Let_def
proof (intro clean_ebind validate_system_clean [OF assms] check_parameters_clean clean_total [OF parameter_overrides_total])
  show "fails_cleanly (raise_validation_errors report)" for report by (simp add: raise_validation_errors_def)
  show "boundary_ok (sm_bindings m)" using assms(1) by (simp add: model_ok_def)
  fix report u
  assume "validate_system (pn_types E) (pn_catalog E) (pn_resolver E) m = Inr report" "raise_validation_errors report = Inr u"
  then have "well_linked m" using validate_system_sound by (auto simp: raise_validation_errors_Inr)
  then show "fails_cleanly (plan_startup m)" by (intro plan_startup_clean) (simp add: well_linked_def)
qed simp

lemma plan_system_clean:
  assumes env: "environment_ok E" "resolver_ok E rank"
  shows "model_ok m \<Longrightarrow> producers_parse m \<Longrightarrow> rank m < depth \<Longrightarrow> fails_cleanly (plan_system E depth m ctx vs)"
proof (induction depth arbitrary: m ctx vs)
  case (Suc depth)
  have kid: "fails_cleanly (plan_system E depth c cc v)" if "model_ok c" "producers_parse c" "rank c < rank m" for c cc v
    using that Suc.prems(3) by (intro Suc.IH) simp_all
  show ?case
    unfolding plan_system.simps
  proof (rule clean_ebind [OF plan_front_clean [OF Suc.prems(1,2) env(2)]])
    fix front assume front: "plan_front_of E m vs = Inr front"
    then obtain report where report: "validate_system (pn_types E) (pn_catalog E) (pn_resolver E) m = Inr report" "no_error report"
      and parameters: "ft_parameters front = planned_parameters m vs" by (rule plan_front_Inr)
    have linked: "well_linked m" using report by (rule validate_system_sound)
    show "fails_cleanly (ebind (emap (plan_child_system (plan_system E depth) E ctx (ft_overrides front)) (enumerate 0 (sm_systems m)))
        (\<lambda>planned. plan_rest E m ctx front planned))"
    proof (intro clean_ebind clean_emap_enumerate plan_child_clean [OF env Suc.prems(1)] kid)
      fix planned
      assume planned: "emap (plan_child_system (plan_system E depth) E ctx (ft_overrides front)) (enumerate 0 (sm_systems m)) = Inr planned"
      have "list_all (child_slots_known m) planned"
        unfolding list_all_iff
      proof
        fix x assume "x \<in> set planned"
        then obtain k where "k < length (sm_systems m)"
          "plan_child_system (plan_system E depth) E ctx (ft_overrides front) (k, sm_systems m ! k) = Inr x"
          using emap_enumerate_ex [OF planned] by blast
        with planned_child_slots [OF report env(2)] show "child_slots_known m x" by (meson nth_mem)
      qed
      from plan_rest_clean [OF env(1) linked this planned parameters] show "fails_cleanly (plan_rest E m ctx front planned)" .
    qed
  qed
qed simp

text \<open>More depth does not change the result.\<close>

lemma plan_depth_irrelevant:
  assumes "resolver_ok E rank"
  shows "rank m < depth \<Longrightarrow> plan_system E depth m ctx vs = plan_system E (Suc (rank m)) m ctx vs"
proof (induction "rank m" arbitrary: m depth ctx vs rule: less_induct)
  case less
  have same: "plan_child_system (plan_system E a) E ctx os (k, i) = plan_child_system (plan_system E b) E ctx os (k, i)"
    if i: "i \<in> set (sm_systems m)" and ab: "rank m \<le> a" "rank m \<le> b" for a b os k i
  proof -
    have "plan_system E a c cc v = plan_system E b c cc v" if "rank c < rank m" for c cc v
      using less.hyps [OF that, of a cc v] less.hyps [OF that, of b cc v] that ab by simp
    then show ?thesis
      unfolding plan_child_system_def prod.case Let_def
      by (intro ebind_cong refl arg_cong [where f = "nest_error _ _"]) (use resolved_child [OF assms i] in blast)+
  qed
  obtain d where d: "depth = Suc d" "rank m \<le> d" using less.prems by (cases depth) auto
  have "emap (plan_child_system (plan_system E d) E ctx os) (enumerate 0 (sm_systems m)) =
      emap (plan_child_system (plan_system E (rank m)) E ctx os) (enumerate 0 (sm_systems m))" for os
  proof (rule emap_cong [OF refl])
    fix p assume p: "p \<in> set (enumerate 0 (sm_systems m))"
    obtain k i where eq: "p = (k, i)" by fastforce
    with p have "i \<in> set (sm_systems m)" by (auto simp: enumerate_eq_zip dest: set_zip_rightD)
    then show "plan_child_system (plan_system E d) E ctx os p = plan_child_system (plan_system E (rank m)) E ctx os p"
      unfolding eq using d(2) by (rule same) simp
  qed
  then show ?case unfolding d(1) plan_system.simps by simp
qed

end
