(* ===== verification/Planned_System.thy ===== *)
theory Planned_System
  imports Planner_Total Orchestrator_Schedule
begin

text \<open>
  The properties of planned Systems, with a hierarchical sample System, and the composition of
  the planner with the orchestrator: a System that was planned, prepared and started.
\<close>

section \<open>A hierarchical System\<close>

text \<open>
  The child has one node and one resource, both reachable from outside; the parent starts the
  child \<open>left\<close> after \<open>right\<close>, links the output of \<open>right\<close> to the input of \<open>left\<close> and gives both
  its resource \<open>shared\<close>.
\<close>

definition sample_port :: "string \<Rightarrow> system_port" where
  "sample_port name = \<lparr>prt_name = name, prt_type_id = ''image/v1'', prt_optional = True,
     prt_description = None, prt_metadata = [], prt_extensions = []\<rparr>"

definition sample_port_binding :: "string \<Rightarrow> string \<Rightarrow> port_binding" where
  "sample_port_binding port endpoint = \<lparr>ib_port = port, ib_endpoint = endpoint, ib_metadata = [], ib_extensions = []\<rparr>"

definition filter_model :: system_model where
  "filter_model = (blank_model ''child'')
     \<lparr>sm_inputs := [sample_port ''in''], sm_outputs := [sample_port ''out''],
      sm_resource_requirements := [\<lparr>rr_name = ''store'', rr_uses = ''pkg.store'', rr_optional = False,
         rr_description = None, rr_metadata = [], rr_extensions = []\<rparr>],
      sm_bindings := \<lparr>bo_inputs = [sample_port_binding ''in'' ''g/work.in''],
         bo_outputs = [sample_port_binding ''out'' ''g/work.out''], bo_parameters = [],
         bo_resources = [\<lparr>yb_resource = ''store'', yb_instance = ''disk'', yb_metadata = [], yb_extensions = []\<rparr>]\<rparr>,
      sm_resources := [sample_resource_instance ''disk'' []],
      sm_graphs := [\<lparr>gp_name = ''g'', gp_nodes = [sample_node_instance ''work'' [(''store'', ''disk'')]],
         gp_connections = [], gp_metadata = [], gp_extensions = []\<rparr>]\<rparr>"

definition pair_model :: system_model where
  "pair_model = (blank_model ''pair'')
     \<lparr>sm_systems := [(sample_child_instance ''left'' [])\<lparr>si_resources := [(''store'', ''shared'')]\<rparr>,
                    (sample_child_instance ''right'' [])\<lparr>si_resources := [(''store'', ''shared'')]\<rparr>],
      sm_dependencies := [\<lparr>de_system = ''left'', de_requires = ''right'', de_condition = READY,
         de_timeout_seconds = 5, de_metadata = [], de_extensions = []\<rparr>],
      sm_resources := [sample_resource_instance ''shared'' []],
      sm_links := [\<lparr>lk_source = ''system:right.out'', lk_target = ''system:left.in'', lk_uses = None,
         lk_parameters = [], lk_type_id = None, lk_metadata = [], lk_extensions = []\<rparr>]\<rparr>"

definition sample_env :: plan_env where
  "sample_env = \<lparr>pn_types = plain_types, pn_catalog = None,
     pn_resolver = Some (\<lambda>_. Inr (Resolved filter_model)),
     pn_nodes = \<lparr>ne_default = PNone, ne_build = (\<lambda>_. Inr PNone), ne_round = (\<lambda>q. Finite q)\<rparr>,
     pn_show = (\<lambda>_. []), pn_digest = (\<lambda>_. replicate 64 (CHR ''a'')), pn_context_digest = (\<lambda>_. ''ctx'')\<rparr>"

lemma pair_plan_ex: "\<exists>p. plan_system sample_env 2 pair_model None [] = Inr p \<and>
    map in_name (plan_systems p) = [''left'', ''right''] \<and> length (pl_links (plan_body p)) = 1"
proof -
  have "case plan_system sample_env (Suc (Suc 0)) pair_model None [] of Inl _ \<Rightarrow> False
      | Inr p \<Rightarrow> map in_name (plan_systems p) = [''left'', ''right''] \<and> length (pl_links (plan_body p)) = 1" by code_simp
  from case_Inr [OF this] show ?thesis by (simp add: numeral_2_eq_2)
qed

section \<open>Properties\<close>

text \<open>
  C18: At every level of a plan, every resource and application runs at a declared target with
  that target's backend and every node at a declared target; every resource they bind, and
  every resource a parent gives a child, is at the same target and backend as its user; and
  both ends of every connection of a graph are nodes of that graph at one placement.
\<close>

theorem plan_well_placed:
  assumes "plan_system E depth m ctx parameters = Inr p"
  shows "all_levels well_placed p"
  using plan_well_placed_here assms by (rule plan_all_levels)

theorem plan_well_placed_witness:
  "\<exists>p. all_levels well_placed p \<and> map in_name (plan_systems p) = [''left'', ''right'']"
proof -
  obtain p where p: "plan_system sample_env 2 pair_model None [] = Inr p" "map in_name (plan_systems p) = [''left'', ''right'']"
    "length (pl_links (plan_body p)) = 1" using pair_plan_ex by (elim exE conjE)
  from plan_well_placed [OF p(1)] p(2,3) show ?thesis by (intro exI conjI)
qed

text \<open>
  C19: At every level of a plan, names are unique and ordinals count from zero; the resource
  order is a permutation of the resources in which a resource follows those it binds; the
  order of an acyclic graph follows its connections; and the startup order is a permutation of
  the children in which a child follows its prerequisites.
\<close>

theorem plan_well_ordered:
  assumes "plan_system E depth m ctx parameters = Inr p"
  shows "all_levels well_ordered p"
  using plan_well_ordered_here assms by (rule plan_all_levels)

theorem plan_well_ordered_witness:
  "\<exists>p. all_levels well_ordered p \<and> map in_name (plan_systems p) = [''left'', ''right'']"
proof -
  obtain p where p: "plan_system sample_env 2 pair_model None [] = Inr p" "map in_name (plan_systems p) = [''left'', ''right'']"
    "length (pl_links (plan_body p)) = 1" using pair_plan_ex by (elim exE conjE)
  from plan_well_ordered [OF p(1)] p(2,3) show ?thesis by (intro exI conjI)
qed

text \<open>
  C20: At every level of a plan, the two ends of a link, the endpoint of a boundary binding and
  the producer of an artifact are recorded with the placement of the object they denote; a
  link without a transport joins endpoints of one placement and no application, and the
  boundary of a link is classified by the kinds and placements of its ends.
\<close>

theorem plan_links_sound:
  assumes "plan_system E depth m ctx parameters = Inr p"
  shows "all_levels well_linked_plan p"
  using plan_well_linked_here assms by (rule plan_all_levels)

theorem plan_links_sound_witness:
  "\<exists>p. all_levels well_linked_plan p \<and> length (pl_links (plan_body p)) = 1"
proof -
  obtain p where p: "plan_system sample_env 2 pair_model None [] = Inr p" "map in_name (plan_systems p) = [''left'', ''right'']"
    "length (pl_links (plan_body p)) = 1" using pair_plan_ex by (elim exE conjE)
  from plan_links_sound [OF p(1)] p(2,3) show ?thesis by (intro exI conjI)
qed

text \<open>
  At every level of a plan, the plan of a child was made from exactly the definition its
  instance pins: the recorded revision is the one built from the digest and the name of the
  definition the child's plan was made from.
\<close>

theorem plan_children_pinned:
  assumes "plan_system E depth m ctx parameters = Inr p"
  shows "all_levels well_pinned p"
  using plan_well_pinned_here assms by (rule plan_all_levels)

theorem plan_children_pinned_witness:
  "\<exists>p. all_levels well_pinned p \<and> map in_name (plan_systems p) = [''left'', ''right'']"
proof -
  obtain p where p: "plan_system sample_env 2 pair_model None [] = Inr p" "map in_name (plan_systems p) = [''left'', ''right'']"
    "length (pl_links (plan_body p)) = 1" using pair_plan_ex by (elim exE conjE)
  from plan_children_pinned [OF p(1)] p(2,3) show ?thesis by (intro exI conjI)
qed

text \<open>
  C21: Planning ends, and when the producer of every artifact is an endpoint text it fails only in four
  ways.  The conditions are these.  The System and those the resolver answers with are ones pydantic
  accepted, with producers that parse (a malformed producer, which the constructor lets pass, makes the
  planner raise a plain \<open>ValueError\<close>); the resolver does not raise, and the hierarchy of definitions has no
  cycle; the digest it is given has the form of a SHA-256 digest, and the construction of a node raises
  only its own errors.  Then a plan is returned or one of \<open>SystemPlanningError\<close>, \<open>TypeError\<close>,
  \<open>OverflowError\<close> and pydantic's \<open>ValidationError\<close> is raised: no lookup in the planner fails, no \<open>assert\<close> and no
  \<open>next\<close>. The depth of the hierarchy bounds the recursion, and any larger recursion limit gives the same
  result.
\<close>

theorem planning_terminates:
  assumes "environment_ok E" and "resolver_ok E rank" and "model_ok m" and "producers_parse m" and "rank m < depth"
  shows "plan_system E depth m ctx parameters = plan_system E (Suc (rank m)) m ctx parameters \<and>
    (case plan_system E depth m ctx parameters of
       Inr p \<Rightarrow> True
     | Inl e \<Rightarrow> exc_type e \<in> {''SystemPlanningError'', ''TypeError'', ''OverflowError'', ''ValidationError''})"
proof (intro conjI)
  show "plan_system E depth m ctx parameters = plan_system E (Suc (rank m)) m ctx parameters"
    using assms(2,5) by (rule plan_depth_irrelevant)
  show "case plan_system E depth m ctx parameters of Inr p \<Rightarrow> True
      | Inl e \<Rightarrow> exc_type e \<in> {''SystemPlanningError'', ''TypeError'', ''OverflowError'', ''ValidationError''}"
    using plan_system_clean [OF assms, of ctx parameters] unfolding fails_cleanly_def planning_failure_def .
qed

definition sample_rank :: "system_model \<Rightarrow> nat" where
  "sample_rank m = (if sm_systems m = [] then 0 else 1)"

theorem planning_terminates_witness:
  "plan_system sample_env 9 pair_model None [] = plan_system sample_env 2 pair_model None []"
proof -
  have "environment_ok sample_env"
  proof -
    have "sha256_match (lower_str (strip (replicate 64 (CHR ''a''))))" by code_simp
    then show ?thesis by (simp add: environment_ok_def sample_env_def)
  qed
  moreover have "resolver_ok sample_env sample_rank"
  proof -
    have "model_ok filter_model" "producers_parse filter_model" "sm_systems filter_model = []" by code_simp+
    then show ?thesis by (auto simp: resolver_ok_def sample_env_def sample_rank_def)
  qed
  moreover have "model_ok pair_model" "producers_parse pair_model" "sample_rank pair_model = 1" by code_simp+
  ultimately show ?thesis
    using planning_terminates [of sample_env sample_rank pair_model 9 None "[]"]
    by (simp add: numeral_2_eq_2 del: plan_system.simps)
qed

section \<open>A planned System runs\<close>

lemma precedes_members: "precedes xs a b \<Longrightarrow> a \<in> set xs \<and> b \<in> set xs"
  by (auto simp: precedes_def)

lemma planned_startup_checked:
  assumes "well_ordered p"
  shows "check_startup (pl_system_startup (plan_body p)) (map in_name (plan_systems p)) = Inr ()"
proof (cases "pl_system_startup (plan_body p)")
  case None
  then show ?thesis by (simp add: check_startup_def)
next
  case (Some st)
  let ?names = "map in_name (plan_systems p)"
  from assms Some have names: "distinct ?names" and st: "startup_ordered ?names st"
    by (simp_all add: well_ordered_def Let_def)
  from st have order: "mset (st_order st) = mset ?names" by (simp add: startup_ordered_def)
  then have "set (st_order st) = set ?names" "length (st_order st) = length ?names" "distinct (st_order st)"
    using names by (metis set_mset_mset) (metis order size_mset, metis mset_eq_imp_distinct_iff names order)
  moreover from st this(1) have "find (\<lambda>d. dp_system d \<notin> set ?names \<or> dp_requires d \<notin> set ?names \<or>
      dp_system d = dp_requires d) (st_dependencies st) = None"
    by (fastforce simp: startup_ordered_def list_all_iff find_None_iff dest: precedes_members)
  moreover have "card (set ?names) = length ?names" using names by (rule distinct_card)
  ultimately show ?thesis unfolding check_startup_def Some by simp
qed

lemma planned_numbered:
  assumes "prepared_ok x" and "all_levels well_ordered (ps_plan x)"
  shows "numbered x"
  using assms
proof (induction x rule: measure_induct_rule [where f = size])
  case (less x)
  have "numbered (pc_execution c)" if c: "c \<in> set (ps_systems x)" for c
  proof -
    from less.prems(1) c have "prepared_ok (pc_execution c)" "ps_plan (pc_execution c) = in_plan (pc_instance c)"
      "pc_instance c \<in> set (plan_systems (ps_plan x))"
      by (auto simp: prepared_ok.simps [of x] list_all_iff) (metis image_eqI set_map)
    with less.IH [OF size_pc_execution [OF c]] all_levels_child [OF less.prems(2)] show ?thesis by simp
  qed
  moreover have "distinct (map dp_ordinal (st_dependencies st))"
    if "pl_system_startup (plan_body (ps_plan x)) = Some st" for st
    using all_levels_here [OF less.prems(2)] that
    by (simp add: well_ordered_def Let_def startup_ordered_def numbered_by_def)
  ultimately show ?case by (auto simp: numbered.simps [of x] list_all_iff split: option.split)
qed

text \<open>
  C17: From plan to stop. The startup order of a planned System is one the orchestrator accepts
  for its children, at every level. When the planned System is prepared and its start
  succeeds, the handle has the shape of the prepared System, and \<open>stop\<close> with a valid timeout
  asks exactly the executions that were begun to stop, each once and in reverse, and returns
  a status that mirrors the handle at every level.
\<close>

theorem planned_system_lifecycle:
  assumes "plan_system E depth m cx parameters = Inr p"
    and "prepare_plan orch p ctx inh routes path w = (Inr x, w')"
    and "start_system orch tm sink x mc = Some (Inr h, t)" and "\<not> timeout_negative q"
  shows "all_levels (\<lambda>p. check_startup (pl_system_startup (plan_body p)) (map in_name (plan_systems p)) = Inr ()) p \<and>
    handle_fits x h \<and>
    (\<exists>st u. stop_system h q t = (Inr st, u) \<and> mirrors h st \<and> ps_plan (sh_prepared h) = p \<and>
      (\<exists>C. starts (mc_trace u) = starts (mc_trace mc) @ C \<and> stops (mc_trace u) = stops (mc_trace mc) @ rev C))"
proof -
  have ordered: "all_levels well_ordered p" using plan_well_ordered_here assms(1) by (rule plan_all_levels)
  have "ps_plan x = p \<and> prepared_ok x" by (rule prepare_plan_ok [OF assms(2)])
  with ordered have num: "numbered x" by (simp add: planned_numbered)
  have "check_startup (pl_system_startup (plan_body p)) (map in_name (plan_systems p)) = Inr ()"
    if "plan_system E d m cx vs = Inr p" for d m cx vs p
    by (rule planned_startup_checked [OF plan_well_ordered_here [OF that]])
  then have "all_levels (\<lambda>p. check_startup (pl_system_startup (plan_body p)) (map in_name (plan_systems p)) = Inr ()) p"
    using assms(1) by (rule plan_all_levels)
  then show ?thesis
    using start_system_fits [OF num assms(3)] life_cycle [OF assms(2) num assms(3,4)] by (intro conjI)
qed

definition local_bindings :: "(execution_scope \<times> (nat, unit) backend) list" where
  "local_bindings = [(\<lparr>sc_target = ''local'', sc_backend = ''local''\<rparr>, sample_backend ''local'' True)]"

definition local_run :: "(system_plan \<times> (nat, unit) prepared_system \<times> nat \<times> (nat, unit) system_handle \<times> (nat, unit) machine) option" where
  "local_run = (case plan_system sample_env (Suc 0) filter_model None [] of
     Inl _ \<Rightarrow> None
   | Inr p \<Rightarrow> (case prepare_plan (sample_orchestrator local_bindings) p None [] [] [] 0 of
       (Inr x, u) \<Rightarrow> (case start_system (sample_orchestrator local_bindings) None None x fresh_machine of
          Some (Inr h, t) \<Rightarrow> Some (p, x, u, h, t) | _ \<Rightarrow> None)
     | _ \<Rightarrow> None))"

theorem planned_system_lifecycle_witness:
  "\<exists>(h :: (nat, unit) system_handle) t st u. stop_system h None t = (Inr st, u) \<and> mirrors h st"
proof -
  have "local_run \<noteq> None" by code_simp
  then obtain p x u h t where "plan_system sample_env (Suc 0) filter_model None [] = Inr p"
    and "prepare_plan (sample_orchestrator local_bindings) p None [] [] [] 0 = (Inr x, u)"
    and "start_system (sample_orchestrator local_bindings) None None x fresh_machine = Some (Inr h, t)"
    by (auto simp: local_run_def split: option.splits sum.splits prod.splits)
  from planned_system_lifecycle [OF this, of None] show ?thesis by (auto simp: timeout_negative_def)
qed

end
