(* ===== verification/Direct_System.thy ===== *)
theory Direct_System
  imports Direct_Preparation Planned_System
begin

text \<open>
  The composition of the planner, the execution scopes and the direct preparation: for a scope of
  a planned System the direct indexes are built and every connection finds its two nodes in them;
  and a prepared runtime has exactly one edge per connection of its context, with every required
  input of every node fed by one of them.
\<close>

subsection \<open>What a planned System gives its scopes\<close>

text \<open>Names of a plan: nodes and connections carry their graph's name, and ids are built from it.\<close>

definition identified :: "planned_graph \<Rightarrow> bool" where
  "identified g \<longleftrightarrow> (\<forall>n \<in> set (gr_nodes g). nd_graph n = gr_name g \<and> nd_id n = gr_name g @ CHR ''/'' # nd_name n \<and>
      CHR ''.'' \<notin> set (nd_name n) \<and> CHR ''/'' \<notin> set (nd_name n)) \<and>
     (\<forall>c \<in> set (gr_connections g). cn_graph c = gr_name g) \<and> CHR ''/'' \<notin> set (gr_name g)"

lemma accepted_plain_name: "accepted validate_name n \<Longrightarrow> CHR ''.'' \<notin> set n \<and> CHR ''/'' \<notin> set n \<and> n \<noteq> []"
  by (auto simp: accepted_def validate_name_def Let_def split: if_splits)

lemma plan_node_id:
  "plan_node E ctx os targets rs g graph (i, n) = Inr x \<Longrightarrow> nd_id x = graph @ CHR ''/'' # ni_name n"
proof -
  assume x: "plan_node E ctx os targets rs g graph (i, n) = Inr x"
  obtain ins outs opts where "definition_contracts (pn_catalog E) (ni_uses n) = (ins, outs, opts)"
    by (rule prod_cases3)
  with x show "nd_id x = graph @ CHR ''/'' # ni_name n" by (auto simp: plan_node_def Let_def result_elims)
qed

lemma in_enumerate: "(i, x) \<in> set (enumerate k xs) \<Longrightarrow> x \<in> set xs"
  using imageI [of "(i, x)" "set (enumerate k xs)" snd] map_snd_enumerate [of k xs] by (metis list.set_map snd_conv)

lemma plan_connection_graph: "plan_connection g graph nodes policy (i, c) = Inr y \<Longrightarrow> cn_graph (fst y) = graph"
  by (auto simp: plan_connection_def result_elims split: prod.splits)

lemma plan_graph_identified:
  assumes plan: "plan_graph_instance E ctx os targets rs (g, graph) = Inr (x, ds)" and ok: "graph_ok graph"
  shows "identified x"
proof -
  obtain conns policy where
    nodes: "emap (plan_node E ctx os targets rs g (gp_name graph)) (enumerate 0 (gp_nodes graph)) = Inr (gr_nodes x)"
    and conns: "emap (plan_connection g (gp_name graph) (gr_nodes x) policy) (enumerate 0 (gp_connections graph)) = Inr conns"
    and x: "gr_connections x = map fst conns" "gr_name x = gp_name graph"
    by (rule plan_graph_Inr [OF plan])
  have "nd_graph y = gp_name graph \<and> nd_id y = gp_name graph @ CHR ''/'' # nd_name y \<and>
      CHR ''.'' \<notin> set (nd_name y) \<and> CHR ''/'' \<notin> set (nd_name y)" if y: "y \<in> set (gr_nodes x)" for y
  proof -
    from emap_Inr_set [OF nodes y] obtain i n where n: "(i, n) \<in> set (enumerate 0 (gp_nodes graph))"
      and p: "plan_node E ctx os targets rs g (gp_name graph) (i, n) = Inr y" by auto
    from n have "n \<in> set (gp_nodes graph)" by (rule in_enumerate)
    with ok have "accepted validate_name (ni_name n)" by (simp add: graph_ok_def list_all_iff)
    with accepted_plain_name plan_node_Inr(2,3) [OF p] plan_node_id [OF p] show ?thesis by simp
  qed
  moreover have "cn_graph c = gp_name graph" if c: "c \<in> set (gr_connections x)" for c
  proof -
    from c obtain y where y: "y \<in> set conns" "fst y = c" by (auto simp: x)
    from emap_Inr_set [OF conns y(1)] obtain q
      where q: "plan_connection g (gp_name graph) (gr_nodes x) policy q = Inr y" by auto
    show ?thesis using plan_connection_graph [of g "gp_name graph" "gr_nodes x" policy "fst q" "snd q" y] q y(2)
      by simp
  qed
  moreover have "CHR ''/'' \<notin> set (gp_name graph)"
    using ok accepted_plain_name by (simp add: graph_ok_def)
  ultimately show ?thesis by (simp add: identified_def x)
qed

lemma plan_identified:
  assumes plan: "plan_system E d m ctx vs = Inr p" and ok: "model_ok m" and g: "g \<in> set (pl_graphs (plan_body p))"
  shows "identified g"
proof -
  obtain depth report front planned targets order P cycles where
    run: "plan_run E depth m ctx vs p report front planned targets order P cycles"
    using plan by (rule plan_system_run)
  then have placed: "plan_placed E m ctx (ft_overrides front) planned = Inr (targets, order, P, cycles)"
    and p: "pl_graphs (plan_body p) = pc_graphs P" by (simp_all add: plan_run_def)
  from placed obtain graphs where
    graphs: "emap (plan_graph_instance E ctx (ft_overrides front) targets (pc_resources P)) (enumerate 0 (sm_graphs m)) = Inr graphs"
      "pc_graphs P = map fst graphs" by (rule plan_placed_Inr)
  from g obtain y where y: "y \<in> set graphs" "fst y = g" by (auto simp: p graphs(2))
  from emap_Inr_set [OF graphs(1) y(1)] obtain i graph where i: "(i, graph) \<in> set (enumerate 0 (sm_graphs m))"
    and q: "plan_graph_instance E ctx (ft_overrides front) targets (pc_resources P) (i, graph) = Inr y" by auto
  from i have "graph \<in> set (sm_graphs m)" by (rule in_enumerate)
  with ok have "graph_ok graph" by (simp add: model_ok_def list_all_iff)
  with q y(2) show ?thesis by (cases y) (auto intro: plan_graph_identified)
qed

definition named_plan :: "system_plan \<Rightarrow> bool" where
  "named_plan p \<longleftrightarrow> (let b = plan_body p in
     [] \<notin> tg_name ` set (pl_targets b) \<and> [] \<notin> rs_name ` set (pl_resources b) \<and> [] \<notin> ap_name ` set (pl_applications b) \<and>
     (\<forall>g \<in> set (pl_graphs b). identified g))"

lemma plan_named:
  assumes plan: "plan_system E d m ctx vs = Inr p" and ok: "model_ok m"
  shows "named_plan p"
proof -
  obtain depth report front planned targets order P cycles where
    run: "plan_run E depth m ctx vs p report front planned targets order P cycles"
    using plan by (rule plan_system_run)
  then have placed: "plan_placed E m ctx (ft_overrides front) planned = Inr (targets, order, P, cycles)"
    and p: "pl_targets (plan_body p) = targets" "pl_resources (plan_body p) = pc_resources P"
      "pl_applications (plan_body p) = pc_applications P" by (simp_all add: plan_run_def)
  from placed obtain graphs where targets: "plan_targets m = Inr targets"
    and resources: "plan_resources m (ft_overrides front) targets = Inr (pc_resources P, order)"
    and apps: "emap (plan_application (ft_overrides front) targets (pc_resources P)) (enumerate 0 (sm_applications m)) = Inr (pc_applications P)"
    by (rule plan_placed_Inr)
  have plain: "\<not> accepted validate_name []" using accepted_plain_name [of "[]"] by auto
  have "[] \<notin> set (map tg_name targets)"
    using ok plain by (auto simp: plan_targets_names [OF targets] model_ok_def list_all_iff)
  moreover have "[] \<notin> set (map rs_name (pc_resources P))"
    using ok plain by (auto simp: plan_resources_Inr(2) [OF resources] model_ok_def list_all_iff)
  moreover have "map ap_name (pc_applications P) = map ai_name (sm_applications m)"
    using apps plan_application_Inr(2) by (rule emap_enumerate_map)
  then have "[] \<notin> set (map ap_name (pc_applications P))"
    using ok plain by (auto simp: model_ok_def list_all_iff)
  ultimately show ?thesis using plan_identified [OF plan ok] by (simp add: named_plan_def Let_def p)
qed

lemma identified_node:
  "identified g \<Longrightarrow> n \<in> set (gr_nodes g) \<Longrightarrow> nd_id n = gr_name g @ CHR ''/'' # nd_name n \<and>
     CHR ''/'' \<notin> set (gr_name g) \<and> CHR ''/'' \<notin> set (nd_name n) \<and> CHR ''.'' \<notin> set (nd_name n) \<and> nd_graph n = gr_name g"
  unfolding identified_def by blast

lemma identified_same_id:
  assumes "identified g" "identified h" "n \<in> set (gr_nodes g)" "k \<in> set (gr_nodes h)" "nd_id n = nd_id k"
  shows "gr_name g = gr_name h \<and> nd_name n = nd_name k"
  using identified_node [OF assms(1,3)] identified_node [OF assms(2,4)] assms(5)
    append_Cons_eq_iff [of "CHR ''/''" "gr_name g" "nd_name n" "gr_name h" "nd_name k"] by simp

lemma distinct_ids:
  assumes "\<forall>g \<in> set gs. identified g \<and> distinct (map nd_name (gr_nodes g))" and "distinct (map gr_name gs)"
  shows "distinct (map nd_id (concat (map gr_nodes gs)))"
  using assms
proof (induction gs)
  case (Cons g gs)
  have "inj_on nd_id (set (gr_nodes g))"
    using Cons.prems(1) identified_same_id [of g g] by (intro inj_onI) (auto simp: distinct_map dest: inj_onD)
  then have "distinct (map nd_id (gr_nodes g))" using Cons.prems(1) by (simp add: distinct_map)
  moreover have "nd_id ` set (gr_nodes g) \<inter> nd_id ` set (concat (map gr_nodes gs)) = {}"
  proof (rule ccontr)
    assume "nd_id ` set (gr_nodes g) \<inter> nd_id ` set (concat (map gr_nodes gs)) \<noteq> {}"
    then obtain h n k where h: "h \<in> set gs" and n: "n \<in> set (gr_nodes g)" and k: "k \<in> set (gr_nodes h)" and "nd_id n = nd_id k" by auto
    with Cons.prems(1) identified_same_id [of g h n k] have "gr_name g = gr_name h" by simp
    with Cons.prems(2) h show False by auto
  qed
  ultimately show ?case using Cons by simp
qed simp

text \<open>The nodes and connections of a scope, graph by graph.\<close>

definition placed_in_graph :: "direct_materialization \<Rightarrow> string \<Rightarrow> planned_connection \<Rightarrow> bool" where
  "placed_in_graph d g k \<longleftrightarrow> (\<exists>ns. map_of (dm_nodes_by_graph d) g = Some ns \<and>
     (\<exists>a \<in> set ns. \<exists>b \<in> set ns. \<exists>sp tp. split_local_endpoint (cn_source k) = Inr (nd_name a, sp) \<and>
        split_local_endpoint (cn_target k) = Inr (nd_name b, tp)))"

lemma context_targets:
  "backend_context_for_scope digest p s cx inh inb outb = Inr c \<Longrightarrow> set (bc_targets c) \<subseteq> set (pl_targets (plan_body p))"
  by (auto simp: backend_context_for_scope_def Let_def result_elims plan_target_def split: sum.splits dest: get_named_Inr)

lemma scope_connection_nodes:
  assumes named: "named_plan p" and placed: "well_placed p" and c: "backend_context_for_scope digest p s cx inh inb outb = Inr c"
    and k: "k \<in> set (bc_connections c)"
  obtains a b sp tp where "a \<in> set (nodes_for_graph c (cn_graph k))" "b \<in> set (nodes_for_graph c (cn_graph k))"
    "split_local_endpoint (cn_source k) = Inr (nd_name a, sp)" "split_local_endpoint (cn_target k) = Inr (nd_name b, tp)"
proof -
  note x = context_for_scope_Inr [OF c]
  from k x obtain g where g: "g \<in> set (pl_graphs (plan_body p))" and kg: "k \<in> set (gr_connections g)"
    and at: "cn_placement_target k = sc_target s" "cn_backend k = sc_backend s"
    by (auto simp: plan_connections_def placed_at_def)
  from named g have id: "identified g" by (simp add: named_plan_def Let_def)
  from placed g kg have "connection_placed g k" by (simp add: well_placed_def Let_def list_all_iff graph_placed_def)
  then obtain a b sp tp where a: "a \<in> set (gr_nodes g)" and b: "b \<in> set (gr_nodes g)"
    and e: "split_local_endpoint (cn_source k) = Inr (nd_name a, sp)" "split_local_endpoint (cn_target k) = Inr (nd_name b, tp)"
    and pl: "nd_target a = sc_target s" "nd_backend a = sc_backend s" "nd_target b = sc_target s" "nd_backend b = sc_backend s"
    unfolding connection_placed_def at by auto
  have kn: "cn_graph k = gr_name g" using id kg unfolding identified_def by blast
  have "y \<in> set (nodes_for_graph c (cn_graph k))" if "y \<in> set (gr_nodes g)" "nd_target y = sc_target s" "nd_backend y = sc_backend s" for y
    using that x g identified_node [OF id that(1)] by (auto simp: nodes_for_graph_def kn plan_nodes_def placed_at_def)
  with that [of a b sp tp] a b e pl show thesis by simp
qed

text \<open>The sample: the scope of the sample System's two nodes, whose loader gives each one port.\<close>

definition sample_loaders :: direct_loaders where
  "sample_loaders = \<lparr>dl_isolation = (\<lambda>_. ''in_process''),
     dl_load_node = (\<lambda>n. Inr (if nd_name n = ''sink'' then sample_port_node [] [(''in'', ''image/v1'')]
        else sample_port_node [(''out'', ''image/v1'')] [])),
     dl_isolate = (\<lambda>_ _ l. Inr l)\<rparr>"

definition sample_scope :: execution_scope where
  "sample_scope = \<lparr>sc_target = ''local'', sc_backend = ''local''\<rparr>"

definition sample_direct :: "(system_plan \<times> backend_context \<times> (unit, unit) direct_prepared) option" where
  "sample_direct = (case plan_system sample_env (Suc 0) sample_model None [] of
     Inl _ \<Rightarrow> None
   | Inr p \<Rightarrow> (case backend_context_for_scope (\<lambda>_. ''ctx'') p sample_scope None [] [] [] of
       Inl _ \<Rightarrow> None
     | Inr c \<Rightarrow> (case prepare_direct_execution (Some sample_loaders) (\<lambda>_. Inr ()) (\<lambda>_. Inr ()) (\<lambda>_. []) c of
         Inl _ \<Rightarrow> None | Inr x \<Rightarrow> Some (p, c, x))))"

lemma sample_direct_ex:
  obtains p c x where "plan_system sample_env (Suc 0) sample_model None [] = Inr p"
    "backend_context_for_scope (\<lambda>_. ''ctx'') p sample_scope None [] [] [] = Inr c"
    "prepare_direct_execution (Some sample_loaders) (\<lambda>_. Inr ()) (\<lambda>_. Inr ()) (\<lambda>_. []) c = Inr (x :: (unit, unit) direct_prepared)"
    "length (bc_connections c) = 1" "model_ok sample_model"
proof -
  have "case sample_direct of None \<Rightarrow> False | Some (p, c, x) \<Rightarrow> length (bc_connections c) = 1" by code_simp
  moreover have "model_ok sample_model" by code_simp
  ultimately show thesis using that by (auto simp: sample_direct_def split: option.splits sum.splits)
qed

text \<open>
  C31: For a well formed model that plans, every execution scope whose backend context is built has
  its direct indexes built too: the uniqueness checks over targets, resources, applications, node
  ids and graphs never fire on a planned System, and each connection of a graph finds both of its
  nodes in the index of that graph, inside the same scope.
\<close>

theorem planned_scope_materializes:
  assumes plan: "plan_system E depth m ctx vs = Inr p" and ok: "model_ok m"
    and c: "backend_context_for_scope digest p s cx inh inb outb = Inr c"
  shows "\<exists>d. materialize_direct_context c = Inr d \<and>
    (\<forall>(g, ks) \<in> set (dm_connections_by_graph d). \<forall>k \<in> set ks. placed_in_graph d g k)"
proof -
  note x = context_for_scope_Inr [OF c]
  have named: "named_plan p" using plan ok by (rule plan_named)
  have placed: "well_placed p" using plan by (rule plan_well_placed_here)
  have ordered: "well_ordered p" using plan by (rule plan_well_ordered_here)
  note o' = ordered [unfolded well_ordered_def Let_def]
  have "distinct (map nd_id (plan_nodes p))"
    unfolding plan_nodes_def using named o'
    by (intro distinct_ids) (auto simp: named_plan_def Let_def list_all_iff graph_ordered_def)
  then have "distinct (map nd_id (bc_nodes c))" using x by (simp add: distinct_map_filter)
  moreover have "[] \<notin> nd_id ` set (bc_nodes c)"
  proof
    assume "[] \<in> nd_id ` set (bc_nodes c)"
    with x obtain g n where "g \<in> set (pl_graphs (plan_body p))" "n \<in> set (gr_nodes g)" "nd_id n = []"
      by (auto simp: plan_nodes_def)
    with named identified_node [of g n] show False by (simp add: named_plan_def Let_def)
  qed
  moreover have "distinct (map tg_name (bc_targets c))" using x by simp
  moreover have "[] \<notin> tg_name ` set (bc_targets c)"
    using context_targets [OF c] named by (auto simp: named_plan_def Let_def)
  moreover have "distinct (map rs_name (bc_resources c))" "distinct (map ap_name (bc_applications c))"
    using x o' by (simp_all add: distinct_map_filter)
  moreover have "[] \<notin> rs_name ` set (bc_resources c)" "[] \<notin> ap_name ` set (bc_applications c)"
    using x named by (auto simp: named_plan_def Let_def)
  moreover have "distinct (graph_names c)" using x o' by (simp add: graph_names_def)
  ultimately obtain d where d: "materialize_direct_context c = Inr d"
    and by_graph: "dm_nodes_by_graph d = map (\<lambda>g. (g, nodes_for_graph c g)) (graph_names c)"
      "dm_connections_by_graph d = map (\<lambda>g. (g, connections_for_graph c g)) (graph_names c)"
    by (auto simp: materialize_direct_context_Inr)
  have "placed_in_graph d g k" if g: "g \<in> set (graph_names c)" and k: "k \<in> set (connections_for_graph c g)" for g k
  proof -
    have "map_of (dm_nodes_by_graph d) g = Some (nodes_for_graph c g)"
      using g by (simp add: by_graph map_of_map_restrict)
    moreover from k have "k \<in> set (bc_connections c)" "cn_graph k = g" by (auto simp: connections_for_graph_def)
    ultimately show ?thesis
      using scope_connection_nodes [OF named placed c, of k] unfolding placed_in_graph_def by metis
  qed
  with d by_graph show ?thesis by auto
qed

theorem planned_scope_materializes_witness:
  "\<exists>p c d. plan_system sample_env (Suc 0) sample_model None [] = Inr p \<and>
    backend_context_for_scope (\<lambda>_. ''ctx'') p sample_scope None [] [] [] = Inr c \<and> materialize_direct_context c = Inr d"
proof (rule sample_direct_ex)
  fix p c
  assume p: "plan_system sample_env (Suc 0) sample_model None [] = Inr p" and m: "model_ok sample_model"
    and c: "backend_context_for_scope (\<lambda>_. ''ctx'') p sample_scope None [] [] [] = Inr c"
  from planned_scope_materializes [OF p m c] p c show ?thesis by blast
qed

subsection \<open>The edges of a prepared runtime\<close>

abbreviation edge_ends :: "runtime_edge \<Rightarrow> string \<times> string" where
  "edge_ends e \<equiv> (edge_source e, edge_target e)"

abbreviation planned_ends :: "planned_connection \<Rightarrow> string \<times> string" where
  "planned_ends k \<equiv> (cn_source k, cn_target k)"

lemma planned_binding_ends:
  "runtime_edge_binding_from_planned k = Inr b \<Longrightarrow> (qb_source (eb_queue b), qb_target (eb_queue b)) = planned_ends k"
  by (auto simp: runtime_edge_binding_from_planned_def mk_RuntimeEdgeBinding_def mk_RuntimeQueueBinding_def nonempty_text_def
           result_elims split: if_splits pyval.splits)

text \<open>Every input that a node holds is an edge of \<open>E\<close> that ends at that input, by node name and by id.\<close>

definition fed :: "runtime_edge set \<Rightarrow> loaded_nodes \<Rightarrow> bool" where
  "fed E nodes \<longleftrightarrow> (\<forall>(k, x) \<in> set nodes. \<forall>port e. map_of (ld_inputs x) port = Some e \<longrightarrow> e \<in> E \<and> edge_target e = endpoint k port)"

definition fed_ids :: "runtime_edge set \<Rightarrow> planned_node list \<Rightarrow> loaded_nodes \<Rightarrow> bool" where
  "fed_ids E ns nodes \<longleftrightarrow> (\<forall>n \<in> set ns. \<forall>l port e. map_of nodes (nd_id n) = Some l \<longrightarrow> map_of (ld_inputs l) port = Some e \<longrightarrow>
     e \<in> E \<and> edge_target e = endpoint (nd_name n) port)"

lemma fedD: "fed E nodes \<Longrightarrow> (k, x) \<in> set nodes \<Longrightarrow> map_of (ld_inputs x) port = Some e \<Longrightarrow> e \<in> E \<and> edge_target e = endpoint k port"
  unfolding fed_def by blast

lemma fed_idsD: "fed_ids E ns nodes \<Longrightarrow> n \<in> set ns \<Longrightarrow> map_of nodes (nd_id n) = Some l \<Longrightarrow> map_of (ld_inputs l) port = Some e \<Longrightarrow>
    e \<in> E \<and> edge_target e = endpoint (nd_name n) port"
  unfolding fed_ids_def by blast

lemma wire_planned_step:
  assumes step: "wire_planned gm (v, es) k = Inr (v', es')" and v: "fed (A \<union> set es) v"
  shows "map edge_ends es' = map edge_ends es @ [planned_ends k] \<and> fed (A \<union> set es') v'"
proof -
  from step obtain b e where b: "runtime_edge_binding_from_planned k = Inr b"
    and m: "materialize_runtime_edge v b gm = Inr (v', e)" and es': "es' = es @ [e]"
    by (auto simp: wire_planned_def wire_edge_def result_elims)
  from m obtain s sp t tp where e: "edge_target e = endpoint t tp" "rg_binding e = eb_queue b"
    and v': "v' = update_node t (set_input tp e) (update_node s (add_output sp e) v)"
    by (rule materialize_runtime_edge_Inr)
  have "x \<in> A \<union> set es' \<and> edge_target x = endpoint k' port"
    if mem: "(k', l) \<in> set v'" and x: "map_of (ld_inputs l) port = Some x" for k' l port x
  proof -
    from mem obtain y where y: "(k', y) \<in> set v"
      and l: "l = (if k' = t then set_input tp e else id) ((if k' = s then add_output sp e else id) y)"
      by (auto simp: v' in_update_node)
    from x have "(k' = t \<and> port = tp \<and> x = e) \<or> map_of (ld_inputs y) port = Some x" by (auto simp: l split: if_splits)
    with fedD [OF v y] e(1) show ?thesis by (auto simp: es')
  qed
  then have "fed (A \<union> set es') v'" unfolding fed_def by blast
  with planned_binding_ends [OF b] e(2) show ?thesis by (simp add: es')
qed

lemma wire_planned_steps:
  "efold (wire_planned gm) (v, es) ks = Inr (v', es') \<Longrightarrow> fed (A \<union> set es) v \<Longrightarrow>
     map edge_ends es' = map edge_ends es @ map planned_ends ks \<and> fed (A \<union> set es') v'"
proof (induction ks arbitrary: v es)
  case (Cons k ks)
  then obtain u fs where u: "wire_planned gm (v, es) k = Inr (u, fs)" and rest: "efold (wire_planned gm) (u, fs) ks = Inr (v', es')"
    by (auto simp: result_elims)
  note s = wire_planned_step [OF u Cons.prems(2)]
  from Cons.IH [OF rest] s show ?case by simp
qed simp

lemma graph_view_member:
  assumes "(k, l) \<in> set (graph_view nodes ns)"
  obtains n where "n \<in> set ns" "k = nd_name n" "map_of nodes (nd_id n) = Some l"
proof -
  let ?xs = "concat (map (\<lambda>n. case map_of nodes (nd_id n) of None \<Rightarrow> [] | Some l \<Rightarrow> [(nd_name n, l)]) ns)"
  from assms have "(k, l) \<in> set (dict_update [] ?xs)" by (simp add: graph_view_def)
  with dict_update_subset [of "[]" ?xs] have "(k, l) \<in> set ?xs" by (auto simp only: list.set Un_empty_left)
  with that show thesis by (auto split: option.splits)
qed

lemma fst_write_back: "map fst (write_back ns local_nodes nodes) = map fst nodes"
  by (induction nodes) (auto simp: write_back_def)

lemma map_of_write_back:
  "map_of (write_back ns local_nodes nodes) i = map_option (\<lambda>l. case find (\<lambda>n. nd_id n = i) ns of None \<Rightarrow> l
       | Some n \<Rightarrow> (case map_of local_nodes (nd_name n) of None \<Rightarrow> l | Some l' \<Rightarrow> l')) (map_of nodes i)"
proof (induction nodes)
  case (Cons a nodes)
  then show ?case by (cases a) (simp add: write_back_def)
qed (simp add: write_back_def)

lemma wire_graph_step:
  assumes step: "wire_graph gm nbg (nodes, es) (g, ks) = Inr (nodes', es')" and old: "fed_ids (set es) ns nodes"
    and own: "\<forall>g qs. map_of nbg g = Some qs \<longrightarrow> set qs \<subseteq> set ns" and ids: "distinct (map nd_id ns)"
  shows "map edge_ends es' = map edge_ends es @ map planned_ends ks \<and> fed_ids (set es') ns nodes' \<and> map fst nodes' = map fst nodes"
proof -
  define qs where "qs = (case map_of nbg g of None \<Rightarrow> [] | Some qs \<Rightarrow> qs)"
  have qs: "set qs \<subseteq> set ns" 
  proof (cases "map_of nbg g")
    case (Some xs)
    with own show ?thesis by (simp add: qs_def)
  qed (simp add: qs_def)
  from step obtain local_nodes fs where run: "efold (wire_planned gm) (graph_view nodes qs, []) ks = Inr (local_nodes, fs)"
    and out: "nodes' = write_back qs local_nodes nodes" "es' = es @ fs"
    by (auto simp: wire_graph_def Let_def qs_def [symmetric] result_elims)
  have "fed (set es \<union> set []) (graph_view nodes qs)"
    unfolding fed_def using fed_idsD [OF old] qs by (auto elim!: graph_view_member)
  note w = wire_planned_steps [OF run this]
  have "e \<in> set es' \<and> edge_target e = endpoint (nd_name n) port"
    if n: "n \<in> set ns" and l: "map_of nodes' (nd_id n) = Some l" and e: "map_of (ld_inputs l) port = Some e" for n l port e
  proof -
    from l obtain l0 where l0: "map_of nodes (nd_id n) = Some l0"
      and l1: "l = (case find (\<lambda>m. nd_id m = nd_id n) qs of None \<Rightarrow> l0
       | Some m \<Rightarrow> (case map_of local_nodes (nd_name m) of None \<Rightarrow> l0 | Some l' \<Rightarrow> l'))" by (auto simp: out map_of_write_back)
    show ?thesis
    proof (cases "l = l0")
      case True
      with fed_idsD [OF old n l0] e show ?thesis by (simp add: out)
    next
      case False
      with l1 obtain m where m: "find (\<lambda>m. nd_id m = nd_id n) qs = Some m" "map_of local_nodes (nd_name m) = Some l"
        by (auto split: option.splits)
      then have "m \<in> set qs" "nd_id m = nd_id n" by (auto simp: find_Some_iff)
      with qs n ids have "m = n" by (auto simp: distinct_map dest: inj_onD)
      with fedD [OF w [THEN conjunct2] map_of_SomeD [OF m(2)] e] show ?thesis by (auto simp: out)
    qed
  qed
  then have "fed_ids (set es') ns nodes'" unfolding fed_ids_def by blast
  with w show ?thesis by (simp add: out fst_write_back)
qed

lemma wire_graph_steps:
  assumes "efold (wire_graph gm nbg) (nodes, es) gks = Inr (nodes', es')" and "fed_ids (set es) ns nodes"
    and "\<forall>g qs. map_of nbg g = Some qs \<longrightarrow> set qs \<subseteq> set ns" and "distinct (map nd_id ns)"
  shows "map edge_ends es' = map edge_ends es @ map planned_ends (concat (map snd gks)) \<and> fed_ids (set es') ns nodes' \<and>
    map fst nodes' = map fst nodes"
  using assms(1,2)
proof (induction gks arbitrary: nodes es)
  case (Cons gk gks)
  obtain g ks where gk: "gk = (g, ks)" by (cases gk)
  with Cons.prems(1) obtain u fs where u: "wire_graph gm nbg (nodes, es) (g, ks) = Inr (u, fs)"
    and rest: "efold (wire_graph gm nbg) (u, fs) gks = Inr (nodes', es')" by (auto simp: result_elims)
  note s = wire_graph_step [OF u Cons.prems(2) assms(3,4)]
  from Cons.IH [OF rest] s show ?case by (simp add: gk)
qed simp

lemma load_all_Inr:
  assumes "load_all key f xs = Inr ys"
  shows "x \<in> set xs \<Longrightarrow> key x \<in> fst ` set ys" and "(k, y) \<in> set ys \<Longrightarrow> \<exists>x \<in> set xs. k = key x \<and> f x = Inr y"
proof -
  from assms obtain zs where zs: "emap (\<lambda>x. ebind (f x) (\<lambda>y. Inr (key x, y))) xs = Inr zs" and ys: "ys = dict_update [] zs"
    by (auto simp: load_all_def result_elims)
  have "map fst zs = map key xs" using zs by (induction xs arbitrary: zs) (auto simp: result_elims)
  then have "fst ` set zs = key ` set xs" by (metis list.set_map)
  then show "x \<in> set xs \<Longrightarrow> key x \<in> fst ` set ys" by (simp add: ys dict_update_dom)
  assume "(k, y) \<in> set ys"
  then have "(k, y) \<in> set zs" using dict_update_subset [of "[]" zs] by (auto simp: ys)
  from emap_Inr_set [OF zs this] show "\<exists>x \<in> set xs. k = key x \<and> f x = Inr y" by (auto simp: result_elims)
qed

lemma materialize_direct_node_Inr: "materialize_direct_node L mechanics n = Inr l \<Longrightarrow> ld_inputs l = []"
  by (auto simp: materialize_direct_node_def Let_def result_elims)

lemma prepare_direct_Inr:
  assumes "prepare_direct_execution environment resource application render c = Inr x"
  obtains d nodes where "materialize_direct_context c = Inr d" "\<And>n. n \<in> set (bc_nodes c) \<Longrightarrow> nd_id n \<in> fst ` set nodes"
    "\<And>k l. (k, l) \<in> set nodes \<Longrightarrow> ld_inputs l = []"
    "efold (wire_graph (rm_graph_memory (dx_mechanics x)) (dm_nodes_by_graph d)) (nodes, []) (dm_connections_by_graph d) =
       Inr (dx_nodes x, dx_edges x)"
    "validate_runtime_graph (\<lambda>names. render (PList (map PStr names))) (dx_nodes x) = Inr ()"
    "bounded_mechanics (dx_mechanics x)"
proof -
  from assms obtain d mechanics u nodes where d: "materialize_direct_context c = Inr d"
    and mech: "resolve_runtime_mechanics render (bc_execution_context c) = Inr mechanics"
    and env: "(case (environment, bc_nodes c) of
              (None, n # _) \<Rightarrow> Inl (node_preparation_error (nd_id n)
                 ''direct node preparation requires a backend-owned DirectExecutionEnvironment'')
            | _ \<Rightarrow> Inr ()) = Inr u"
    and nodes: "(case environment of
              None \<Rightarrow> Inr [] | Some L \<Rightarrow> load_all nd_id (materialize_direct_node L mechanics) (bc_nodes c)) = Inr nodes"
    and rest: "materialize_direct_edges d nodes mechanics = Inr (dx_nodes x, dx_edges x)"
      "validate_runtime_graph (\<lambda>names. render (PList (map PStr names))) (dx_nodes x) = Inr ()" "dx_mechanics x = mechanics"
    by (auto simp: prepare_direct_execution_def result_elims)
  have "nd_id n \<in> fst ` set nodes" if "n \<in> set (bc_nodes c)" for n
  proof (cases environment)
    case None
    with env that show ?thesis by (cases "bc_nodes c") simp_all
  next
    case (Some L)
    with nodes have "load_all nd_id (materialize_direct_node L mechanics) (bc_nodes c) = Inr nodes" by simp
    from load_all_Inr(1) [OF this that] show ?thesis .
  qed
  moreover have "ld_inputs l = []" if "(k, l) \<in> set nodes" for k l
  proof (cases environment)
    case None
    with nodes that show ?thesis by simp
  next
    case (Some L)
    with nodes have "load_all nd_id (materialize_direct_node L mechanics) (bc_nodes c) = Inr nodes" by simp
    from load_all_Inr(2) [OF this that] materialize_direct_node_Inr show ?thesis by blast
  qed
  moreover have "efold (wire_graph (rm_graph_memory (dx_mechanics x)) (dm_nodes_by_graph d)) (nodes, []) (dm_connections_by_graph d) =
       Inr (dx_nodes x, dx_edges x)" "bounded_mechanics (dx_mechanics x)"
    using rest resolve_mechanics_bounded [OF mech] by (simp_all add: materialize_direct_edges_def)
  ultimately show thesis by (rule that [OF d _ _ _ rest(2)])
qed

lemma planned_graph_connections:
  assumes named: "named_plan p" and ordered: "well_ordered p" and c: "backend_context_for_scope digest p s cx inh inb outb = Inr c"
  shows "mset (concat (map (connections_for_graph c) (graph_names c))) = mset (bc_connections c)"
proof -
  note x = context_for_scope_Inr [OF c]
  have gs: "distinct (graph_names c)" using x ordered by (simp add: well_ordered_def Let_def graph_names_def)
  have own: "cn_graph k \<in> set (graph_names c)" if k: "k \<in> set (bc_connections c)" for k
  proof -
    from k x obtain g where g: "g \<in> set (pl_graphs (plan_body p))" "k \<in> set (gr_connections g)" by (auto simp: plan_connections_def)
    with named have kn: "cn_graph k = gr_name g" by (auto simp: named_plan_def Let_def identified_def)
    have "cn_graph k \<in> cn_graph ` set (bc_connections c)" using k by simp
    moreover have "cn_graph k \<in> gr_name ` set (pl_graphs (plan_body (bc_plan c)))" using kn g(1) x by simp
    ultimately show ?thesis unfolding graph_names_def Let_def by auto
  qed
  have "mset (concat (map (connections_for_graph c) (graph_names c))) =
      filter_mset (\<lambda>k. \<exists>g \<in> set (graph_names c). cn_graph k = g) (mset (bc_connections c))"
    unfolding connections_for_graph_def using gs by (rule mset_partition) simp
  also have "\<dots> = filter_mset (\<lambda>_. True) (mset (bc_connections c))" by (rule filter_mset_cong) (auto simp: own)
  finally show ?thesis by simp
qed

definition inputs_connected :: "runtime_edge list \<Rightarrow> planned_node \<Rightarrow> loaded_node \<Rightarrow> bool" where
  "inputs_connected es n l \<longleftrightarrow> (\<forall>port. port \<in> fst ` set (ld_input_types l) \<and> port \<notin> set (ld_optional_inputs l) \<longrightarrow>
     (\<exists>e \<in> set es. map_of (ld_inputs l) port = Some e \<and> edge_target e = endpoint (nd_name n) port))"

text \<open>
  C32: When a scope of a planned System is prepared for direct execution, its runtime has exactly
  one edge per planned connection of the scope; every planned node of the scope has its loaded
  node; each required input of it is fed by an edge of the runtime that ends at that input; and the
  mechanics are within their bounds.
\<close>

theorem prepared_runtime_connected:
  assumes plan: "plan_system E depth m ctx vs = Inr p" and ok: "model_ok m"
    and c: "backend_context_for_scope digest p s cx inh inb outb = Inr c"
    and prepared: "prepare_direct_execution environment resource application render c = Inr x"
  shows "mset (map edge_ends (dx_edges x)) = mset (map planned_ends (bc_connections c)) \<and>
    (\<forall>n \<in> set (bc_nodes c). \<exists>l. map_of (dx_nodes x) (nd_id n) = Some l \<and> inputs_connected (dx_edges x) n l) \<and>
    bounded_mechanics (dx_mechanics x)"
proof -
  have named: "named_plan p" using plan ok by (rule plan_named)
  have ordered: "well_ordered p" using plan by (rule plan_well_ordered_here)
  show ?thesis
  proof (rule prepare_direct_Inr [OF prepared])
    fix d nodes
    assume d: "materialize_direct_context c = Inr d"
      and loaded: "\<And>n. n \<in> set (bc_nodes c) \<Longrightarrow> nd_id n \<in> fst ` set nodes" "\<And>k l. (k, l) \<in> set nodes \<Longrightarrow> ld_inputs l = []"
      and run: "efold (wire_graph (rm_graph_memory (dx_mechanics x)) (dm_nodes_by_graph d)) (nodes, []) (dm_connections_by_graph d) =
         Inr (dx_nodes x, dx_edges x)"
      and valid: "validate_runtime_graph (\<lambda>names. render (PList (map PStr names))) (dx_nodes x) = Inr ()"
      and mech: "bounded_mechanics (dx_mechanics x)"
    from d have ids: "distinct (map nd_id (bc_nodes c))"
      and by_graph: "dm_nodes_by_graph d = map (\<lambda>g. (g, nodes_for_graph c g)) (graph_names c)"
        "dm_connections_by_graph d = map (\<lambda>g. (g, connections_for_graph c g)) (graph_names c)"
      by (simp_all add: materialize_direct_context_Inr)
    have own: "\<forall>g qs. map_of (dm_nodes_by_graph d) g = Some qs \<longrightarrow> set qs \<subseteq> set (bc_nodes c)"
      by (auto simp: by_graph nodes_for_graph_def dest!: map_of_SomeD)
    have "fed_ids (set []) (bc_nodes c) nodes"
      unfolding fed_ids_def using loaded(2) map_of_SomeD by fastforce
    note w = wire_graph_steps [OF run this own ids]
    have "\<exists>l. map_of (dx_nodes x) (nd_id n) = Some l \<and> inputs_connected (dx_edges x) n l" if n: "n \<in> set (bc_nodes c)" for n
    proof -
      have "nd_id n \<in> fst ` set (dx_nodes x)"
        using arg_cong [OF w [THEN conjunct2, THEN conjunct2], where f = set] loaded(1) [OF n] by simp
      then obtain l where l: "map_of (dx_nodes x) (nd_id n) = Some l" by (metis map_of_eq_None_iff option.exhaust)
      have "\<exists>e \<in> set (dx_edges x). map_of (ld_inputs l) port = Some e \<and> edge_target e = endpoint (nd_name n) port"
        if free: "port \<in> fst ` set (ld_input_types l)" "port \<notin> set (ld_optional_inputs l)" for port
      proof -
        obtain e where e: "map_of (ld_inputs l) port = Some e"
          using validated_graph_connected [OF valid map_of_SomeD [OF l] free] by blast
        from fed_idsD [OF w [THEN conjunct2, THEN conjunct1] n l e] e show ?thesis by blast
      qed
      then have "inputs_connected (dx_edges x) n l" unfolding inputs_connected_def by blast
      with l show ?thesis by blast
    qed
    then have nodes_fed: "\<forall>n \<in> set (bc_nodes c). \<exists>l. map_of (dx_nodes x) (nd_id n) = Some l \<and> inputs_connected (dx_edges x) n l" ..
    have ends: "map edge_ends (dx_edges x) = map planned_ends (concat (map (connections_for_graph c) (graph_names c)))"
      using w by (simp add: by_graph comp_def)
    have "mset (map edge_ends (dx_edges x)) = mset (map planned_ends (bc_connections c))"
      by (simp only: ends mset_map planned_graph_connections [OF named ordered c])
    with nodes_fed mech show ?thesis by blast
  qed
qed

theorem prepared_runtime_connected_witness:
  "\<exists>p c x. plan_system sample_env (Suc 0) sample_model None [] = Inr p \<and>
    prepare_direct_execution (Some sample_loaders) (\<lambda>_. Inr ()) (\<lambda>_. Inr ()) (\<lambda>_. []) c = Inr (x :: (unit, unit) direct_prepared) \<and>
    length (dx_edges x) = 1"
proof (rule sample_direct_ex)
  fix p c and x :: "(unit, unit) direct_prepared"
  assume p: "plan_system sample_env (Suc 0) sample_model None [] = Inr p" and m: "model_ok sample_model"
    and c: "backend_context_for_scope (\<lambda>_. ''ctx'') p sample_scope None [] [] [] = Inr c"
    and x: "prepare_direct_execution (Some sample_loaders) (\<lambda>_. Inr ()) (\<lambda>_. Inr ()) (\<lambda>_. []) c = Inr x"
    and n: "length (bc_connections c) = 1"
  from prepared_runtime_connected [OF p m c x] have "mset (map edge_ends (dx_edges x)) = mset (map planned_ends (bc_connections c))" ..
  then have "length (dx_edges x) = 1" using n mset_eq_length by fastforce
  with p x show ?thesis by blast
qed

end
