(* ===== verification/Synchronization.thy ===== *)
theory Synchronization
  imports Edge_Queue "HOL-Library.AList"
begin

text \<open>
  Input synchronisation of a processor node (runtime_workers.py: _blocking_received,
  _receive_synchronized, _receive_latest and _receive_matching).

  An input edge is seen from its consumer: the list of what the queue hands out, in order, where
  an empty entry is a moment at which a call to try_get finds the queue empty.  A blocking get
  passes over such moments, so what the blocking policies do depends on the content of the edges
  alone.  The end of the list is a queue that was closed and has been read to its end.

  The stop event is a function of the number of times the loop has read it.

  The theorems: over edges with strictly increasing sequence numbers exact matching delivers
  precisely the sequence numbers that every edge carries, each once, in order, and it always
  returns; approximate matching delivers groups within its tolerance and drops only messages that
  cannot be matched with anything still to come.
\<close>

subsection \<open>Input edges\<close>

type_synonym 'p inbox = "'p received option list"
type_synonym 'p arrival = "'p message \<times> int"
type_synonym 'p arrivals = "(string \<times> 'p arrival) list"

fun blocking_received :: "'p inbox \<Rightarrow> 'p arrival option \<times> 'p inbox" where
  "blocking_received [] = (None, [])"
| "blocking_received (None # xs) = blocking_received xs"
| "blocking_received (Some ReceivedEOS # xs) = (None, xs)"
| "blocking_received (Some (Received m w) # xs) = (Some (m, w), xs)"

fun try_received :: "'p inbox \<Rightarrow> 'p received option \<times> 'p inbox" where
  "try_received [] = (None, [])"
| "try_received (x # xs) = (x, xs)"

text \<open>What a node's worker keeps between two calls: its edges, the arrivals that latest_available
  remembers, and the drop counter of its statistics.\<close>

record 'p sync_state =
  sn_inputs :: "string \<Rightarrow> 'p inbox"
  sn_latest :: "'p arrivals"
  sn_drops :: int

record sync_policy =
  sn_policy :: string
  sn_tolerance_ns :: int
  sn_trigger_port :: "string option"

definition receive_port :: "string \<Rightarrow> 'p sync_state \<Rightarrow> 'p arrival option \<times> 'p sync_state" where
  "receive_port p s = (case blocking_received (sn_inputs s p) of (x, xs) \<Rightarrow> (x, s\<lparr>sn_inputs := (sn_inputs s)(p := xs)\<rparr>))"

definition count_drop :: "'p sync_state \<Rightarrow> 'p sync_state" where
  "count_drop s = s\<lparr>sn_drops := sn_drops s + 1\<rparr>"

subsection \<open>zip\<close>

fun receive_zip :: "string list \<Rightarrow> 'p sync_state \<Rightarrow> 'p arrivals option \<times> 'p sync_state" where
  "receive_zip [] s = (Some [], s)"
| "receive_zip (p # ps) s =
     (case receive_port p s of
        (None, s) \<Rightarrow> (None, s)
      | (Some x, s) \<Rightarrow>
          (case receive_zip ps s of (None, s) \<Rightarrow> (None, s) | (Some r, s) \<Rightarrow> (Some ((p, x) # r), s)))"

subsection \<open>exact and approximate matching\<close>

fun fill_ports :: "string list \<Rightarrow> 'p arrivals \<Rightarrow> 'p sync_state \<Rightarrow> 'p arrivals option \<times> 'p sync_state" where
  "fill_ports [] current s = (Some current, s)"
| "fill_ports (p # ps) current s =
     (if p \<in> fst ` set current then fill_ports ps current s
      else case receive_port p s of
        (None, s) \<Rightarrow> (None, s)
      | (Some x, s) \<Rightarrow> fill_ports ps (current @ [(p, x)]) s)"

definition match_key :: "bool \<Rightarrow> 'p arrival \<Rightarrow> int" where
  "match_key approximate x = (if approximate then msg_timestamp_ns (fst x) else msg_sequence (fst x))"

definition group_complete :: "bool \<Rightarrow> int \<Rightarrow> 'p arrivals \<Rightarrow> bool" where
  "group_complete approximate tolerance current =
     (let keys = map (match_key approximate \<circ> snd) current in
      if approximate then Max (set keys) - Min (set keys) \<le> tolerance else length (remdups keys) = 1)"

definition oldest_port :: "bool \<Rightarrow> 'p arrivals \<Rightarrow> string" where
  "oldest_port approximate current = fst (arg_min_list (match_key approximate \<circ> snd) current)"

definition pop_port :: "string \<Rightarrow> 'p arrivals \<Rightarrow> 'p arrivals" where
  "pop_port p current = filter (\<lambda>(q, x). q \<noteq> p) current"

definition inbox_size :: "string list \<Rightarrow> 'p sync_state \<Rightarrow> nat" where
  "inbox_size ports s = (\<Sum>p \<in> set ports. length (sn_inputs s p))"

lemma blocking_received_length:
  "length (snd (blocking_received xs)) \<le> length xs"
  "fst (blocking_received xs) = Some x \<Longrightarrow> length (snd (blocking_received xs)) < length xs"
  by (induction xs rule: blocking_received.induct) auto

lemma receive_port_inbox_size:
  assumes "receive_port p s = (x, s')" and "p \<in> set ports"
  shows "inbox_size ports s' + (if x = None then 0 else 1) \<le> inbox_size ports s"
proof -
  have "inbox_size ports t = length (sn_inputs t p) + (\<Sum>q \<in> set ports - {p}. length (sn_inputs t q))" for t :: "'a sync_state"
    unfolding inbox_size_def by (rule sum.remove) (simp_all add: assms(2))
  moreover have "length (sn_inputs s' p) + (if x = None then 0 else 1) \<le> length (sn_inputs s p)"
    using assms(1) blocking_received_length [of "sn_inputs s p"]
    by (cases x) (auto simp: receive_port_def split: prod.splits)
  moreover have "sn_inputs s' q = sn_inputs s q" if "q \<noteq> p" for q
    using assms(1) that by (auto simp: receive_port_def split: prod.splits)
  ultimately show ?thesis by simp
qed

lemma fill_ports_inbox_size:
  "fill_ports ps current s = (Some c, s') \<Longrightarrow> set ps \<subseteq> set ports \<Longrightarrow>
     inbox_size ports s' + length c \<le> inbox_size ports s + length current"
proof (induction ps current s rule: fill_ports.induct)
  case (2 p ps current s)
  show ?case
  proof (cases "p \<in> fst ` set current")
    case False
    with "2.prems" obtain x s1 where x: "receive_port p s = (Some x, s1)"
      and f: "fill_ports ps (current @ [(p, x)]) s1 = (Some c, s')"
      by (auto split: prod.splits option.splits)
    from "2.IH"(2) [OF False x [symmetric] refl f] "2.prems"(2) receive_port_inbox_size [OF x, of ports] show ?thesis
      by simp
  qed (use "2" in simp)
qed simp

lemma pop_port_length: "current \<noteq> [] \<Longrightarrow> length (pop_port (oldest_port a current) current) < length current"
  unfolding pop_port_def oldest_port_def
  using arg_min_list_in [of current "match_key a \<circ> snd"]
  by (auto intro: length_filter_less)

text \<open>\<open>while not self._stop.is_set()\<close>: \<open>stop n\<close> is the n-th reading of the event.\<close>

function receive_matching ::
    "(nat \<Rightarrow> bool) \<Rightarrow> nat \<Rightarrow> bool \<Rightarrow> int \<Rightarrow> string list \<Rightarrow> 'p arrivals \<Rightarrow> 'p sync_state \<Rightarrow> 'p arrivals option result \<times> 'p sync_state" where
  "receive_matching stop n approximate tolerance ports current s =
     (if stop n then (Inr None, s)
      else case fill_ports ports current s of
        (None, s) \<Rightarrow> (Inr None, s)
      | (Some current, s) \<Rightarrow>
          (if current = [] then (Inl (ValueErr ''min() arg is an empty sequence''), s)
           else if group_complete approximate tolerance current then (Inr (Some current), s)
           else receive_matching stop (Suc n) approximate tolerance ports
                  (pop_port (oldest_port approximate current) current) (count_drop s)))"
  by pat_completeness auto

termination
proof (relation "measure (\<lambda>(stop, n, a, tol, ports, current, s). inbox_size ports s + length current)", goal_cases)
  case (2 stop n a tol ports current s x y x2)
  then have "fill_ports ports current s = (Some x2, y)" by (cases "fill_ports ports current s") simp
  with fill_ports_inbox_size [OF this, of ports] pop_port_length [of x2 a] 2 show ?case
    by (simp add: inbox_size_def count_drop_def)
qed simp

declare receive_matching.simps [simp del]

subsection \<open>latest_available\<close>

text \<open>The loop over try_get: every message found replaces the one remembered.\<close>

fun drain_port :: "string \<Rightarrow> 'p inbox \<Rightarrow> 'p sync_state \<Rightarrow> 'p sync_state" where
  "drain_port p (Some (Received m w) # xs) s =
     drain_port p xs
       ((if p \<in> fst ` set (sn_latest s) then count_drop s else s)\<lparr>sn_latest := AList.update p (m, w) (sn_latest s)\<rparr>)"
| "drain_port p xs s = s\<lparr>sn_inputs := (sn_inputs s)(p := snd (try_received xs))\<rparr>"

fun refresh_ports :: "string list \<Rightarrow> string list \<Rightarrow> string \<Rightarrow> 'p sync_state \<Rightarrow> bool \<times> 'p sync_state" where
  "refresh_ports optionals [] trigger s = (True, s)"
| "refresh_ports optionals (p # ps) trigger s =
     (if p = trigger then refresh_ports optionals ps trigger s
      else if p \<notin> fst ` set (sn_latest s) \<and> p \<notin> set optionals then
        (case receive_port p s of
           (None, s) \<Rightarrow> (False, s)
         | (Some x, s) \<Rightarrow>
             let s = s\<lparr>sn_latest := AList.update p x (sn_latest s)\<rparr>
             in refresh_ports optionals ps trigger (drain_port p (sn_inputs s p) s))
      else refresh_ports optionals ps trigger (drain_port p (sn_inputs s p) s))"

definition remembered :: "string list \<Rightarrow> 'p sync_state \<Rightarrow> 'p arrivals" where
  "remembered ports s = concat (map (\<lambda>p. case map_of (sn_latest s) p of None \<Rightarrow> [] | Some x \<Rightarrow> [(p, x)]) ports)"

text \<open>\<open>trigger_port or input_ports[0]\<close>, then the lookup of its edge.\<close>

definition trigger_port :: "sync_policy \<Rightarrow> string list \<Rightarrow> string result" where
  "trigger_port pol ports =
     ebind (case (or_else (sn_trigger_port pol) [], ports) of
              ([], []) \<Rightarrow> Inl (NamedErr ''IndexError'' ''tuple index out of range'')
            | ([], p # ps) \<Rightarrow> Inr p
            | (t, ps) \<Rightarrow> Inr t) (\<lambda>t.
     if t \<in> set ports then Inr t else Inl (KeyErr t))"

definition receive_latest ::
    "sync_policy \<Rightarrow> string list \<Rightarrow> string list \<Rightarrow> 'p sync_state \<Rightarrow> 'p arrivals option result \<times> 'p sync_state" where
  "receive_latest pol optionals ports s =
     (case trigger_port pol ports of
        Inl e \<Rightarrow> (Inl e, s)
      | Inr trigger \<Rightarrow>
          (case receive_port trigger s of
             (None, s) \<Rightarrow> (Inr None, s)
           | (Some x, s) \<Rightarrow>
               (case refresh_ports optionals ports trigger (s\<lparr>sn_latest := AList.update trigger x (sn_latest s)\<rparr>) of
                  (False, s) \<Rightarrow> (Inr None, s)
                | (True, s) \<Rightarrow> (Inr (Some (remembered ports s)), s))))"

subsection \<open>The dispatch\<close>

definition receive_synchronized ::
    "(nat \<Rightarrow> bool) \<Rightarrow> sync_policy \<Rightarrow> string list \<Rightarrow> string list \<Rightarrow> 'p sync_state \<Rightarrow> 'p arrivals option result \<times> 'p sync_state" where
  "receive_synchronized stop pol optionals ports s =
     (if length ports = 1
      then (case receive_port (hd ports) s of (x, s) \<Rightarrow> (Inr (map_option (\<lambda>x. [(hd ports, x)]) x), s))
      else if sn_policy pol = ''zip'' then (case receive_zip ports s of (r, s) \<Rightarrow> (Inr r, s))
      else if sn_policy pol = ''latest_available'' then receive_latest pol optionals ports s
      else receive_matching stop 0 (sn_policy pol = ''approximate_timestamp'') (sn_tolerance_ns pol) ports [] s)"

subsection \<open>Progress\<close>

text \<open>A call that delivers a group has consumed something from the node's own edges.\<close>

lemma receive_zip_size:
  "receive_zip ps s = (Some c, s') \<Longrightarrow> set ps \<subseteq> set ports \<Longrightarrow> inbox_size ports s' + length c \<le> inbox_size ports s \<and> length c = length ps"
proof (induction ps arbitrary: s c)
  case (Cons p ps)
  from Cons.prems(1) obtain x s1 r where x: "receive_port p s = (Some x, s1)"
    and r: "receive_zip ps s1 = (Some r, s')" "c = (p, x) # r"
    by (auto split: prod.splits option.splits)
  from Cons.IH [OF r(1)] Cons.prems(2) receive_port_inbox_size [OF x, of ports] r(2) show ?case by simp
qed simp

lemma drain_port_size: "sn_inputs s p = xs @ ys \<Longrightarrow> p \<in> set ports \<Longrightarrow> inbox_size ports (drain_port p ys s) \<le> inbox_size ports s"
proof (induction p ys s arbitrary: xs rule: drain_port.induct)
  case (1 p m w ys s)
  let ?s = "(if p \<in> fst ` set (sn_latest s) then count_drop s else s)\<lparr>sn_latest := AList.update p (m, w) (sn_latest s)\<rparr>"
  have "sn_inputs ?s = sn_inputs s" by (simp add: count_drop_def)
  with "1.IH" [of "xs @ [Some (Received m w)]"] "1.prems" show ?case by (simp add: inbox_size_def)
qed (auto simp: inbox_size_def intro!: sum_mono)

lemma refresh_ports_size:
  "refresh_ports opts ps trigger s = (b, s') \<Longrightarrow> set ps \<subseteq> set ports \<Longrightarrow> inbox_size ports s' \<le> inbox_size ports s"
proof (induction opts ps trigger s rule: refresh_ports.induct)
  case (2 opts p ps trigger s)
  have drain: "inbox_size ports (drain_port p (sn_inputs t p) t) \<le> inbox_size ports t" for t :: "'a sync_state"
    using drain_port_size [of t p "[]"] "2.prems"(2) by simp
  consider "p = trigger" | "p \<noteq> trigger" "p \<notin> fst ` set (sn_latest s) \<and> p \<notin> set opts"
    | "p \<noteq> trigger" "\<not> (p \<notin> fst ` set (sn_latest s) \<and> p \<notin> set opts)" by blast
  then show ?case
  proof cases
    case 1
    with 2 show ?thesis by simp
  next
    case 3
    with "2.IH"(3) "2.prems" drain [of s] show ?thesis by (auto dest: order_trans)
  next
    case b: 2
    obtain r s1 where r: "receive_port p s = (r, s1)" by (cases "receive_port p s")
    from receive_port_inbox_size [OF r, of ports] "2.prems"(2) have le: "inbox_size ports s1 \<le> inbox_size ports s" by simp
    show ?thesis
    proof (cases r)
      case None
      with b r le "2.prems"(1) show ?thesis by simp
    next
      case (Some x)
      let ?t = "s1\<lparr>sn_latest := AList.update p x (sn_latest s1)\<rparr>"
      have "inbox_size ports ?t = inbox_size ports s1" by (simp add: inbox_size_def)
      with drain [of ?t] le have "inbox_size ports (drain_port p (sn_inputs ?t p) ?t) \<le> inbox_size ports s" by simp
      moreover have "inbox_size ports s' \<le> inbox_size ports (drain_port p (sn_inputs ?t p) ?t)"
        using "2.IH"(2) [OF b r [symmetric] _ refl] "2.prems" b r Some by simp
      ultimately show ?thesis by simp
    qed
  qed
qed simp

lemma receive_matching_size:
  "receive_matching stop n a tol ports current s = (Inr (Some c), s') \<Longrightarrow>
     inbox_size ports s' + length c \<le> inbox_size ports s + length current \<and> c \<noteq> []"
proof (induction stop n a tol ports current s rule: receive_matching.induct)
  case (1 stop n a tol ports current s)
  then obtain d t where f: "fill_ports ports current s = (Some d, t)" "\<not> stop n" "d \<noteq> []"
    and r: "(if group_complete a tol d then (Inr (Some d), t)
       else receive_matching stop (Suc n) a tol ports (pop_port (oldest_port a d) d) (count_drop t)) = (Inr (Some c), s')"
    by (subst (asm) receive_matching.simps) (auto split: if_splits prod.splits option.splits)
  note size = fill_ports_inbox_size [OF f(1), of ports]
  show ?case
  proof (cases "group_complete a tol d")
    case True
    with r size f(3) show ?thesis by auto
  next
    case False
    with "1.IH" [OF f(2) f(1) [symmetric] refl f(3) False] r size pop_port_length [OF f(3), of a] show ?thesis
      by (simp add: inbox_size_def count_drop_def)
  qed
qed

lemma receive_progress:
  assumes r: "receive_synchronized stop pol opts ports s = (Inr (Some c), s')" and ne: "ports \<noteq> []"
  shows "inbox_size ports s' < inbox_size ports s"
proof -
  consider "length ports = 1" | "length ports \<noteq> 1" "sn_policy pol = ''zip''"
    | "length ports \<noteq> 1" "sn_policy pol = ''latest_available''"
    | "length ports \<noteq> 1" "sn_policy pol \<notin> {''zip'', ''latest_available''}" by blast
  then show ?thesis
  proof cases
    case 1
    then have "hd ports \<in> set ports" by (cases ports) auto
    with 1 r receive_port_inbox_size [of "hd ports" s _ s' ports] show ?thesis
      by (auto simp: receive_synchronized_def split: prod.splits)
  next
    case 2
    with r receive_zip_size [of ports s c s' ports] ne show ?thesis
      by (cases c) (auto simp: receive_synchronized_def split: prod.splits)
  next
    case 3
    with r obtain t x s1 where t: "trigger_port pol ports = Inr t" and x: "receive_port t s = (Some x, s1)"
      and f: "refresh_ports opts ports t (s1\<lparr>sn_latest := AList.update t x (sn_latest s1)\<rparr>) = (True, s')"
      by (auto simp: receive_synchronized_def receive_latest_def split: prod.splits sum.splits option.splits bool.splits)
    from t have "t \<in> set ports" by (auto simp: trigger_port_def result_elims)
    with receive_port_inbox_size [OF x, of ports] refresh_ports_size [OF f, of ports] show ?thesis
      by (simp add: inbox_size_def)
  next
    case 4
    with r receive_matching_size [of stop 0 "sn_policy pol = ''approximate_timestamp''" "sn_tolerance_ns pol" ports "[]" s c s'] show ?thesis
      by (cases c) (auto simp: receive_synchronized_def)
  qed
qed

subsection \<open>What an edge still carries\<close>

text \<open>The messages of an edge up to its end-of-stream marker.\<close>

fun content :: "'p inbox \<Rightarrow> 'p message list" where
  "content [] = []"
| "content (None # xs) = content xs"
| "content (Some ReceivedEOS # xs) = []"
| "content (Some (Received m w) # xs) = m # content xs"

lemma blocking_received_content:
  "blocking_received xs = (r, ys) \<Longrightarrow>
     (case r of None \<Rightarrow> content xs = [] | Some x \<Rightarrow> content xs = fst x # content ys)"
  by (induction xs rule: content.induct) (auto split: option.split)

definition upcoming :: "string \<Rightarrow> 'p arrivals \<Rightarrow> 'p sync_state \<Rightarrow> 'p message list" where
  "upcoming p current s =
     (case map_of current p of None \<Rightarrow> content (sn_inputs s p) | Some x \<Rightarrow> fst x # content (sn_inputs s p))"

lemma receive_port_content:
  assumes "receive_port p s = (r, s')"
  shows "case r of None \<Rightarrow> content (sn_inputs s p) = [] | Some x \<Rightarrow> content (sn_inputs s p) = fst x # content (sn_inputs s' p)"
    and "q \<noteq> p \<Longrightarrow> sn_inputs s' q = sn_inputs s q"
    and "sn_drops s' = sn_drops s" and "sn_latest s' = sn_latest s"
  using assms blocking_received_content [of "sn_inputs s p"]
  by (auto simp: receive_port_def split: prod.splits option.splits)

lemma upcoming_received:
  assumes "receive_port p s = (r, s')" and "p \<notin> fst ` set current"
  shows "case r of None \<Rightarrow> upcoming p current s = []
    | Some x \<Rightarrow> upcoming q (current @ [(p, x)]) s' = upcoming q current s"
proof -
  from assms(2) have "map_of current p = None" by (simp add: map_of_eq_None_iff)
  with receive_port_content(1) [OF assms(1)] receive_port_content(2) [OF assms(1), of q] show ?thesis
    by (cases r; cases "q = p") (simp_all add: upcoming_def map_add_def split: option.split)
qed

lemma fill_ports_Some:
  "fill_ports ps current s = (Some c, s') \<Longrightarrow> distinct (map fst current) \<Longrightarrow>
     (\<forall>p. upcoming p c s' = upcoming p current s) \<and> fst ` set c = fst ` set current \<union> set ps \<and>
     distinct (map fst c) \<and> sn_drops s' = sn_drops s \<and> sn_latest s' = sn_latest s"
proof (induction ps current s rule: fill_ports.induct)
  case (2 p ps current s)
  show ?case
  proof (cases "p \<in> fst ` set current")
    case True
    with 2 show ?thesis by auto
  next
    case False
    with "2.prems" obtain x s1 where x: "receive_port p s = (Some x, s1)"
      and f: "fill_ports ps (current @ [(p, x)]) s1 = (Some c, s')"
      by (auto split: prod.splits option.splits)
    from False "2.prems" have "distinct (map fst (current @ [(p, x)]))" by auto
    note ih = "2.IH"(2) [OF False x [symmetric] refl f this]
    have "upcoming q (current @ [(p, x)]) s1 = upcoming q current s" for q
      using upcoming_received [OF x False] by simp
    with ih receive_port_content(3,4) [OF x] show ?thesis by auto
  qed
qed simp

lemma fill_ports_None:
  "fill_ports ps current s = (None, s') \<Longrightarrow> distinct (map fst current) \<Longrightarrow> \<exists>p \<in> set ps. upcoming p current s = []"
proof (induction ps current s rule: fill_ports.induct)
  case (2 p ps current s)
  show ?case
  proof (cases "p \<in> fst ` set current")
    case True
    with 2 show ?thesis by auto
  next
    case False
    show ?thesis
    proof (cases "fst (receive_port p s)")
      case None
      with upcoming_received [OF prod.collapse [symmetric] False, of s] have "upcoming p current s = []" by simp
      then show ?thesis by simp
    next
      case (Some x)
      with False "2.prems" obtain s1 where x: "receive_port p s = (Some x, s1)"
        and f: "fill_ports ps (current @ [(p, x)]) s1 = (None, s')"
        by (auto split: prod.splits option.splits)
      from False "2.prems" have "distinct (map fst (current @ [(p, x)]))" by auto
      from "2.IH"(2) [OF False x [symmetric] refl f this] obtain q where
        q: "q \<in> set ps" "upcoming q (current @ [(p, x)]) s1 = []" by blast
      have "upcoming q (current @ [(p, x)]) s1 = upcoming q current s"
        using upcoming_received [OF x False] by simp
      with q show ?thesis by auto
    qed
  qed
qed simp

lemma upcoming_in:
  "distinct (map fst c) \<Longrightarrow> (p, x) \<in> set c \<Longrightarrow> upcoming p c s = fst x # content (sn_inputs s p)"
  by (simp add: upcoming_def)

lemma map_of_pop: "map_of (pop_port q c) p = (if p = q then None else map_of c p)"
  by (induction c) (auto simp: pop_port_def)

lemma pop_port_upcoming:
  assumes "distinct (map fst c)" and "(q, x) \<in> set c"
  shows "upcoming p (pop_port q c) s = (if p = q then tl (upcoming p c s) else upcoming p c s)"
  using upcoming_in [OF assms, of s] by (auto simp: upcoming_def map_of_pop)

lemma in_tl: "x \<in> set (tl xs) \<Longrightarrow> x \<in> set xs"
  by (cases xs) auto

lemma pop_port_distinct: "distinct (map fst c) \<Longrightarrow> distinct (map fst (pop_port q c))"
  by (simp add: pop_port_def distinct_map_filter)

lemma pop_port_fst: "fst ` set (pop_port q c) = fst ` set c - {q}"
  by (auto simp: pop_port_def image_iff)

lemma oldest_port_in:
  assumes "c \<noteq> []"
  obtains x where "(oldest_port a c, x) \<in> set c" "\<And>y. y \<in> set c \<Longrightarrow> match_key a x \<le> match_key a (snd y)"
proof -
  let ?f = "match_key a \<circ> snd"
  have m: "arg_min_list ?f c \<in> set c" "?f (arg_min_list ?f c) = Min (?f ` set c)"
    by (rule arg_min_list_in [OF assms], rule f_arg_min_list_f [OF assms])
  show thesis
  proof
    show "(oldest_port a c, snd (arg_min_list ?f c)) \<in> set c" using m(1) by (simp add: oldest_port_def)
    show "match_key a (snd (arg_min_list ?f c)) \<le> match_key a (snd y)" if "y \<in> set c" for y
      using m(2) that Min_le [of "?f ` set c" "?f y"] by simp
  qed
qed

lemma count_drop_simps [simp]: "sn_inputs (count_drop s) = sn_inputs s" "sn_drops (count_drop s) = sn_drops s + 1"
  by (simp_all add: count_drop_def)

lemma count_drop_upcoming [simp]: "upcoming p d (count_drop s) = upcoming p d s"
  by (simp add: upcoming_def split: option.split)

subsection \<open>Exact matching\<close>

definition sequences :: "string \<Rightarrow> 'p arrivals \<Rightarrow> 'p sync_state \<Rightarrow> int list" where
  "sequences p current s = map msg_sequence (upcoming p current s)"

definition common :: "string list \<Rightarrow> 'p arrivals \<Rightarrow> 'p sync_state \<Rightarrow> int set" where
  "common ports current s = (\<Inter>p \<in> set ports. set (sequences p current s))"

definition increasing :: "string list \<Rightarrow> 'p arrivals \<Rightarrow> 'p sync_state \<Rightarrow> bool" where
  "increasing ports current s = (\<forall>p \<in> set ports. sorted_wrt (<) (sequences p current s))"

lemma sequences_in:
  "distinct (map fst c) \<Longrightarrow> (p, x) \<in> set c \<Longrightarrow>
     sequences p c s = msg_sequence (fst x) # sequences p [] s"
  by (simp add: sequences_def upcoming_in) (simp add: upcoming_def)

lemma sequences_pop:
  "distinct (map fst c) \<Longrightarrow> (q, x) \<in> set c \<Longrightarrow>
     sequences p (pop_port q c) s = (if p = q then tl (sequences p c s) else sequences p c s)"
  by (simp add: sequences_def pop_port_upcoming map_tl)

lemma matched_exact:
  "group_complete False tol c \<longleftrightarrow> (\<exists>k. c \<noteq> [] \<and> (\<forall>y \<in> set c. msg_sequence (fst (snd y)) = k))"
proof -
  let ?ks = "map (match_key False \<circ> snd) c"
  have "group_complete False tol c \<longleftrightarrow> card (set ?ks) = 1" by (simp add: group_complete_def length_remdups_card_conv)
  also have "\<dots> \<longleftrightarrow> (\<exists>k. set ?ks = {k})" by (simp add: card_1_singleton_iff)
  also have "\<dots> \<longleftrightarrow> (\<exists>k. c \<noteq> [] \<and> (\<forall>y \<in> set c. msg_sequence (fst (snd y)) = k))"
    by (cases c) (auto simp: match_key_def)
  finally show ?thesis .
qed

text \<open>The heart of the algorithm: when the heads differ, the smallest cannot be common to all.\<close>

lemma drop_smallest_head:
  assumes c: "distinct (map fst c)" "fst ` set c = set ports" "c \<noteq> []" and m: "\<not> group_complete False tol c"
    and inc: "increasing ports c s"
  shows "common ports (pop_port (oldest_port False c) c) s = common ports c s"
    and "increasing ports (pop_port (oldest_port False c) c) s"
proof -
  obtain x where x: "(oldest_port False c, x) \<in> set c"
    and least: "\<And>y. y \<in> set c \<Longrightarrow> match_key False x \<le> match_key False (snd y)"
    by (rule oldest_port_in [OF c(3), of False]) blast
  let ?o = "oldest_port False c" and ?k = "msg_sequence (fst x)"
  from m c(3) x obtain q y where q: "(q, y) \<in> set c" "msg_sequence (fst y) \<noteq> ?k"
    unfolding matched_exact by fastforce
  with least [OF q(1)] have k: "?k < msg_sequence (fst y)" by (simp add: match_key_def)
  from q(1) c(2) have qp: "q \<in> set ports" by force
  have "q \<noteq> ?o" using q x c(1) by (auto dest: eq_key_imp_eq_value)
  have "sorted_wrt (<) (sequences q c s)" using inc qp by (simp add: increasing_def)
  with k have "?k \<notin> set (sequences q c s)" unfolding sequences_in [OF c(1) q(1)] by auto
  with qp have out: "?k \<notin> common ports c s" by (auto simp: common_def)
  have o: "sequences ?o c s = ?k # sequences ?o [] s" by (rule sequences_in [OF c(1) x])
  note pop = sequences_pop [OF c(1) x, of _ s]
  show "increasing ports (pop_port ?o c) s"
    using inc by (auto simp: increasing_def pop o)
  have "set (sequences p (pop_port ?o c) s) \<union> {?k} = set (sequences p c s) \<union> {?k}" for p
    by (cases "p = ?o") (simp_all add: pop o)
  moreover have "?k \<notin> set (sequences q (pop_port ?o c) s)"
    using \<open>?k \<notin> set (sequences q c s)\<close> \<open>q \<noteq> ?o\<close> by (simp add: pop)
  ultimately show "common ports (pop_port ?o c) s = common ports c s"
    using out qp unfolding common_def by blast
qed

definition group_at :: "int \<Rightarrow> string list \<Rightarrow> 'p arrivals \<Rightarrow> bool" where
  "group_at k ports c \<longleftrightarrow>
     distinct (map fst c) \<and> fst ` set c = set ports \<and> (\<forall>(p, x) \<in> set c. msg_sequence (fst x) = k)"

definition exact_outcome :: "string list \<Rightarrow> 'p arrivals \<Rightarrow> 'p sync_state \<Rightarrow> 'p arrivals option result \<times> 'p sync_state \<Rightarrow> bool" where
  "exact_outcome ports current s out =
     (case out of
        (Inl e, s') \<Rightarrow> False
      | (Inr None, s') \<Rightarrow> common ports current s = {}
      | (Inr (Some c), s') \<Rightarrow>
          \<exists>k. group_at k ports c \<and> k \<in> common ports current s \<and> (\<forall>j \<in> common ports current s. k \<le> j) \<and>
            common ports [] s' = common ports current s - {k} \<and> increasing ports [] s' \<and>
            (\<forall>(p, x) \<in> set c. fst x \<in> set (upcoming p current s)) \<and>
            (\<forall>p. set (upcoming p [] s') \<subseteq> set (upcoming p current s)))"

lemma group_outcome:
  assumes c: "distinct (map fst c)" "fst ` set c = set ports" "ports \<noteq> []" and m: "group_complete False tol c"
    and inc: "increasing ports c s"
  shows "exact_outcome ports c s (Inr (Some c), s)"
proof -
  from m obtain k where k: "\<And>y. y \<in> set c \<Longrightarrow> msg_sequence (fst (snd y)) = k" by (auto simp: matched_exact)
  have seq: "sequences p c s = k # sequences p [] s" if "p \<in> set ports" for p
  proof -
    from that c(2) obtain x where "(p, x) \<in> set c" by force
    from sequences_in [OF c(1) this] k [OF this] show ?thesis by simp
  qed
  have inc': "sorted_wrt (<) (k # sequences p [] s)" if "p \<in> set ports" for p
    using inc that seq by (auto simp: increasing_def)
  have "group_at k ports c" using c(1,2) k by (auto simp: group_at_def)
  moreover have "k \<in> common ports c s" by (auto simp: common_def seq)
  moreover have "k \<le> j" if "j \<in> common ports c s" for j
  proof -
    from c(3) obtain p where p: "p \<in> set ports" by (cases ports) auto
    with that have "j \<in> set (sequences p c s)" by (simp add: common_def)
    with seq [OF p] inc' [OF p] show ?thesis by auto
  qed
  moreover have "common ports [] s = common ports c s - {k}"
  proof -
    from c(3) obtain p where p: "p \<in> set ports" by (cases ports) auto
    from inc' [OF this] have "k \<notin> set (sequences p [] s)" by auto
    with p seq show ?thesis by (auto simp: common_def)
  qed
  moreover have "increasing ports [] s" using inc' by (auto simp: increasing_def)
  moreover have "fst x \<in> set (upcoming p c s)" if "(p, x) \<in> set c" for p x
    using upcoming_in [OF c(1) that, of s] by simp
  moreover have "set (upcoming p [] s) \<subseteq> set (upcoming p c s)" for p
    by (auto simp: upcoming_def split: option.split)
  ultimately show ?thesis by (auto simp: exact_outcome_def)
qed

lemma exact_outcome_weaken:
  assumes "exact_outcome ports d t out" and "common ports d t = common ports c s"
    and "\<And>p. set (upcoming p d t) \<subseteq> set (upcoming p c s)"
  shows "exact_outcome ports c s out"
  using assms unfolding exact_outcome_def
  by (auto split: prod.splits sum.splits option.splits) blast

lemma receive_matching_exact:
  assumes "\<And>n. \<not> stop n" and "ports \<noteq> []" and "distinct (map fst current)" and "fst ` set current \<subseteq> set ports"
    and "increasing ports current s"
  shows "exact_outcome ports current s (receive_matching stop n False tol ports current s)"
  using assms
proof (induction stop n False tol ports current s rule: receive_matching.induct)
  case (1 stop n tol ports current s)
  note prems = "1.prems"
  have stop: "\<not> stop n" by (rule prems(1))
  show ?case
  proof (cases "fill_ports ports current s")
    case (Pair r t)
    show ?thesis
    proof (cases r)
      case None
      from fill_ports_None [OF Pair [unfolded None] prems(3)] have "common ports current s = {}"
        by (auto simp: common_def sequences_def)
      with Pair None stop show ?thesis by (simp add: receive_matching.simps exact_outcome_def)
    next
      case (Some c)
      from fill_ports_Some [OF Pair [unfolded Some] prems(3)] prems(4)
      have up: "\<And>p. upcoming p c t = upcoming p current s" and c: "fst ` set c = set ports" "distinct (map fst c)"
        by auto
      have same: "common ports c t = common ports current s" "increasing ports c t"
        using prems(5) by (simp_all add: common_def increasing_def sequences_def up)
      from c(1) prems(2) have ne: "c \<noteq> []" by auto
      show ?thesis
      proof (cases "group_complete False tol c")
        case True
        then have "receive_matching stop n False tol ports current s = (Inr (Some c), t)"
          using Pair Some stop ne by (simp add: receive_matching.simps)
        with exact_outcome_weaken [OF group_outcome [OF c(2,1) prems(2) True same(2)] same(1)] show ?thesis
          by (simp add: up)
      next
        case False
        let ?d = "pop_port (oldest_port False c) c"
        obtain x where x: "(oldest_port False c, x) \<in> set c" by (rule oldest_port_in [OF ne]) blast
        note drop = drop_smallest_head [OF c(2,1) ne False same(2)]
        have count: "common ports d (count_drop t) = common ports d t" "increasing ports d (count_drop t) = increasing ports d t"
          "upcoming p d (count_drop t) = upcoming p d t" for d p
          by (simp_all add: common_def increasing_def sequences_def)
        have "exact_outcome ports ?d (count_drop t) (receive_matching stop (Suc n) False tol ports ?d (count_drop t))"
          using "1.hyps" [OF stop Pair [symmetric] Some ne False] prems c drop
          by (simp add: count pop_port_distinct pop_port_fst)
        then have "exact_outcome ports c t (receive_matching stop (Suc n) False tol ports ?d (count_drop t))"
          by (rule exact_outcome_weaken)
             (auto simp: count drop pop_port_upcoming [OF c(2) x] dest: in_tl split: if_splits)
        then have "exact_outcome ports current s (receive_matching stop (Suc n) False tol ports ?d (count_drop t))"
          by (rule exact_outcome_weaken) (simp_all add: same up)
        moreover have "receive_matching stop n False tol ports current s =
            receive_matching stop (Suc n) False tol ports ?d (count_drop t)"
          using Pair Some stop ne False by (subst receive_matching.simps) simp
        ultimately show ?thesis by simp
      qed
    qed
  qed
qed

text \<open>The groups that successive calls deliver, until one returns None or raises.\<close>

fun delivered_groups :: "nat \<Rightarrow> (nat \<Rightarrow> bool) \<Rightarrow> sync_policy \<Rightarrow> string list \<Rightarrow> string list \<Rightarrow> 'p sync_state \<Rightarrow> 'p arrivals list" where
  "delivered_groups 0 stop pol optionals ports s = []"
| "delivered_groups (Suc n) stop pol optionals ports s =
     (case receive_synchronized stop pol optionals ports s of
        (Inr (Some c), s') \<Rightarrow> c # delivered_groups n stop pol optionals ports s'
      | _ \<Rightarrow> [])"

lemma receive_exact_dispatch:
  "sn_policy pol \<notin> {''zip'', ''latest_available'', ''approximate_timestamp''} \<Longrightarrow> length ports \<noteq> 1 \<Longrightarrow>
     receive_synchronized stop pol optionals ports s = receive_matching stop 0 False (sn_tolerance_ns pol) ports [] s"
  by (simp add: receive_synchronized_def)

lemma common_finite: "ports \<noteq> [] \<Longrightarrow> finite (common ports c s)"
  by (cases ports) (auto simp: common_def)

lemma sorted_list_of_set_Min:
  assumes "finite A" and "k \<in> A" and "\<And>j. j \<in> A \<Longrightarrow> k \<le> j"
  shows "sorted_list_of_set A = k # sorted_list_of_set (A - {k :: int})"
proof -
  have "Min A = k" using assms by (intro Min_eqI) auto
  with assms sorted_list_of_set_nonempty [of A] show ?thesis by auto
qed

text \<open>
  C25: Exact synchronisation is complete and sound: over two or more edges whose messages carry
  strictly increasing sequence numbers, successive calls deliver one group for each sequence number
  that every edge carries, in increasing order and nothing else; each group holds exactly one
  message per input port, which came from that port's edge - whatever the timing of the edges.
\<close>

theorem exact_synchronization:
  assumes pol: "sn_policy pol \<notin> {''zip'', ''latest_available'', ''approximate_timestamp''}"
    and ports: "1 < length ports" and stop: "\<And>n. \<not> stop n"
    and inc: "\<And>p. p \<in> set ports \<Longrightarrow> sorted_wrt (<) (map msg_sequence (content (sn_inputs s p)))"
  shows "list_all2 (\<lambda>k c. group_at k ports c \<and> (\<forall>(p, x) \<in> set c. fst x \<in> set (content (sn_inputs s p))))
     (take n (sorted_list_of_set (\<Inter>p \<in> set ports. msg_sequence ` set (content (sn_inputs s p)))))
     (delivered_groups n stop pol optionals ports s)"
proof -
  have ne: "ports \<noteq> []" "length ports \<noteq> 1" using ports by auto
  have "list_all2 (\<lambda>k c. group_at k ports c \<and> (\<forall>(p, x) \<in> set c. fst x \<in> set (upcoming p [] s)))
     (take n (sorted_list_of_set (common ports [] s))) (delivered_groups n stop pol optionals ports s)"
    if "increasing ports [] s" for s :: "'a sync_state"
    using that
  proof (induction n arbitrary: s)
    case (Suc n)
    let ?out = "receive_matching stop 0 False (sn_tolerance_ns pol) ports [] s"
    have out: "exact_outcome ports [] s ?out"
      using receive_matching_exact [of stop ports "[]" s] stop ne(1) Suc.prems by simp
    note step = receive_exact_dispatch [OF pol ne(2), of stop optionals s]
    show ?case
    proof (cases "fst ?out")
      case (Inl e)
      with out show ?thesis by (cases ?out) (simp add: exact_outcome_def)
    next
      case (Inr r)
      show ?thesis
      proof (cases r)
        case None
        with out Inr step show ?thesis by (cases ?out) (simp add: exact_outcome_def)
      next
        case (Some c)
        with Inr obtain t where o: "?out = (Inr (Some c), t)" by (cases ?out) simp
        from out [unfolded o] obtain k where k: "group_at k ports c" "k \<in> common ports [] s"
          "\<forall>j \<in> common ports [] s. k \<le> j" "common ports [] t = common ports [] s - {k}"
          "increasing ports [] t" "\<forall>(p, x) \<in> set c. fst x \<in> set (upcoming p [] s)"
          "\<forall>p. set (upcoming p [] t) \<subseteq> set (upcoming p [] s)"
          by (auto simp: exact_outcome_def)
        have "list_all2 (\<lambda>k c. group_at k ports c \<and> (\<forall>(p, x) \<in> set c. fst x \<in> set (upcoming p [] s)))
          (take n (sorted_list_of_set (common ports [] t))) (delivered_groups n stop pol optionals ports t)"
          by (rule list_all2_mono [OF Suc.IH [OF k(5)]]) (use k(7) in blast)
        with k o step sorted_list_of_set_Min [OF common_finite [OF ne(1)] k(2)] show ?thesis
          by simp
      qed
    qed
  qed simp
  moreover have "increasing ports [] s" using inc by (simp add: increasing_def sequences_def upcoming_def)
  ultimately show ?thesis by (simp add: common_def sequences_def upcoming_def)
qed

text \<open>Two edges, one of which has nothing to read at first.\<close>

definition frames :: "int list \<Rightarrow> nat inbox" where
  "frames ns = map (\<lambda>n. Some (Received (frame_message n) 0)) ns @ [Some ReceivedEOS]"

definition two_edges :: "nat sync_state" where
  "two_edges = \<lparr>sn_inputs = (\<lambda>p. if p = ''a'' then frames [1, 2, 4] else None # frames [2, 3, 4]),
     sn_latest = [], sn_drops = 0\<rparr>"

definition sync_by :: "string \<Rightarrow> int \<Rightarrow> sync_policy" where
  "sync_by policy tolerance = \<lparr>sn_policy = policy, sn_tolerance_ns = tolerance, sn_trigger_port = None\<rparr>"

lemma two_edges_content:
  "content (sn_inputs two_edges ''a'') = map frame_message [1, 2, 4]"
  "content (sn_inputs two_edges ''b'') = map frame_message [2, 3, 4]"
  by (simp_all add: two_edges_def frames_def)

lemma exact_synchronization_witness:
  "\<exists>c d. delivered_groups 5 (\<lambda>_. False) (sync_by ''exact_sequence'' 0) [] [''a'', ''b''] two_edges = [c, d] \<and>
     group_at 2 [''a'', ''b''] c \<and> group_at 4 [''a'', ''b''] d"
proof -
  let ?ports = "[''a'', ''b'']" and ?pol = "sync_by ''exact_sequence'' 0"
  have "(\<Inter>p \<in> set ?ports. msg_sequence ` set (content (sn_inputs two_edges p))) = {2, 4}"
    by (auto simp: two_edges_content frame_message_def)
  moreover have "sorted_wrt (<) (map msg_sequence (content (sn_inputs two_edges p)))" if "p \<in> set ?ports" for p
    using that by (auto simp: two_edges_content frame_message_def)
  moreover have "sn_policy ?pol \<notin> {''zip'', ''latest_available'', ''approximate_timestamp''}"
    by (simp add: sync_by_def)
  ultimately show ?thesis
    using exact_synchronization [of ?pol ?ports "\<lambda>_. False" two_edges 5 "[]"]
    by (auto simp: list_all2_Cons1 sync_by_def)
qed

subsection \<open>Approximate matching\<close>

definition timestamps :: "string \<Rightarrow> 'p arrivals \<Rightarrow> 'p sync_state \<Rightarrow> int list" where
  "timestamps p current s = map msg_timestamp_ns (upcoming p current s)"

definition chronological :: "string list \<Rightarrow> 'p arrivals \<Rightarrow> 'p sync_state \<Rightarrow> bool" where
  "chronological ports current s = (\<forall>p \<in> set ports. sorted (timestamps p current s))"

definition close_by :: "int \<Rightarrow> 'p arrivals \<Rightarrow> bool" where
  "close_by tol c = (\<forall>(p, x) \<in> set c. \<forall>(q, y) \<in> set c. msg_timestamp_ns (fst y) - msg_timestamp_ns (fst x) \<le> tol)"

lemma spread_iff:
  assumes "c \<noteq> []"
  shows "Max (f ` set c) - Min (f ` set c) \<le> tol \<longleftrightarrow> (\<forall>x \<in> set c. \<forall>y \<in> set c. f y - f x \<le> (tol :: int))"
proof
  assume spread: "Max (f ` set c) - Min (f ` set c) \<le> tol"
  show "\<forall>x \<in> set c. \<forall>y \<in> set c. f y - f x \<le> tol"
  proof (intro ballI)
    fix x y assume "x \<in> set c" "y \<in> set c"
    then have "f y \<le> Max (f ` set c)" "Min (f ` set c) \<le> f x" by simp_all
    with spread show "f y - f x \<le> tol" by linarith
  qed
next
  assume all: "\<forall>x \<in> set c. \<forall>y \<in> set c. f y - f x \<le> tol"
  have "Max (f ` set c) \<in> f ` set c" "Min (f ` set c) \<in> f ` set c" using assms by simp_all
  with all show "Max (f ` set c) - Min (f ` set c) \<le> tol" by auto
qed

lemma matched_approximate: "c \<noteq> [] \<Longrightarrow> group_complete True tol c \<longleftrightarrow> close_by tol c"
  unfolding group_complete_def Let_def set_map by (simp add: spread_iff close_by_def match_key_def split_beta)

text \<open>What was lost on the way to a group: on each edge the messages before the chosen one, and for
  each of them a member of the group that is too far ahead of it.\<close>

definition approximate_outcome ::
    "int \<Rightarrow> string list \<Rightarrow> 'p arrivals \<Rightarrow> 'p sync_state \<Rightarrow> (string \<Rightarrow> 'p message list) \<Rightarrow> 'p arrivals \<Rightarrow> 'p sync_state \<Rightarrow> bool" where
  "approximate_outcome tol ports current s lost c s' \<longleftrightarrow>
     distinct (map fst c) \<and> fst ` set c = set ports \<and> close_by tol c \<and>
     (\<forall>(p, x) \<in> set c. upcoming p current s = lost p @ fst x # content (sn_inputs s' p)) \<and>
     sn_drops s' = sn_drops s + (\<Sum>p \<in> set ports. int (length (lost p))) \<and>
     (\<forall>p \<in> set ports. \<forall>d \<in> set (lost p). \<exists>(q, y) \<in> set c. tol < msg_timestamp_ns (fst y) - msg_timestamp_ns d)"

lemma not_matched_far:
  assumes "\<not> group_complete True tol c" and "(p, x) \<in> set c" and "c \<noteq> []"
    and "\<And>y. y \<in> set c \<Longrightarrow> match_key True x \<le> match_key True (snd y)"
  obtains q z where "(q, z) \<in> set c" "tol < msg_timestamp_ns (fst z) - msg_timestamp_ns (fst x)"
proof -
  from assms(1,3) have "\<exists>v \<in> set c. \<exists>w \<in> set c. tol < msg_timestamp_ns (fst (snd w)) - msg_timestamp_ns (fst (snd v))"
    by (simp add: matched_approximate close_by_def split_beta not_le)
  then obtain u w q z where z: "(q, z) \<in> set c" and w: "(u, w) \<in> set c"
    and far: "tol < msg_timestamp_ns (fst z) - msg_timestamp_ns (fst w)"
    by auto
  from assms(4) [OF w] far have "tol < msg_timestamp_ns (fst z) - msg_timestamp_ns (fst x)"
    by (simp add: match_key_def)
  with z that show thesis by blast
qed

lemma approximate_step:
  assumes c: "distinct (map fst c)" "fst ` set c = set ports" "c \<noteq> []" and m: "\<not> group_complete True tol c"
    and chr: "chronological ports c t" and x: "(oldest_port True c, x) \<in> set c"
    and least: "\<And>y. y \<in> set c \<Longrightarrow> match_key True x \<le> match_key True (snd y)"
    and out: "approximate_outcome tol ports (pop_port (oldest_port True c) c) (count_drop t) lost g s'"
  shows "approximate_outcome tol ports c t (lost(oldest_port True c := fst x # lost (oldest_port True c))) g s'"
proof -
  let ?o = "oldest_port True c"
  let ?lost = "lost(?o := fst x # lost ?o)"
  have g: "distinct (map fst g)" "fst ` set g = set ports" "close_by tol g"
    "\<And>p y. (p, y) \<in> set g \<Longrightarrow> upcoming p (pop_port ?o c) t = lost p @ fst y # content (sn_inputs s' p)"
    "sn_drops s' = sn_drops t + 1 + (\<Sum>p \<in> set ports. int (length (lost p)))"
    "\<And>p d. p \<in> set ports \<Longrightarrow> d \<in> set (lost p) \<Longrightarrow> \<exists>(q, y) \<in> set g. tol < msg_timestamp_ns (fst y) - msg_timestamp_ns d"
    using out by (auto simp: approximate_outcome_def)
  from x c(2) have o: "?o \<in> set ports" by force
  have up: "upcoming p c t = ?lost p @ fst y # content (sn_inputs s' p)" if "(p, y) \<in> set g" for p y
    using g(4) [OF that] upcoming_in [OF c(1) x, of t] by (simp add: pop_port_upcoming [OF c(1) x] split: if_splits)
  from m x c(3) least obtain q z where z: "(q, z) \<in> set c" "tol < msg_timestamp_ns (fst z) - msg_timestamp_ns (fst x)"
    by (rule not_matched_far)
  from imageI [OF z(1), of fst] c(2) g(2) have "q \<in> fst ` set g" by simp
  then obtain y where y: "(q, y) \<in> set g" by (auto simp: image_iff)
  from imageI [OF z(1), of fst] c(2) have "q \<in> set ports" by simp
  with chr have "sorted (timestamps q c t)" by (simp add: chronological_def)
  moreover have "fst y \<in> set (upcoming q c t)" using up [OF y] by simp
  ultimately have "msg_timestamp_ns (fst z) \<le> msg_timestamp_ns (fst y)"
    using upcoming_in [OF c(1) z(1), of t] by (auto simp: timestamps_def)
  with z(2) have "tol < msg_timestamp_ns (fst y) - msg_timestamp_ns (fst x)" by linarith
  with y have far: "\<exists>(q, y) \<in> set g. tol < msg_timestamp_ns (fst y) - msg_timestamp_ns (fst x)"
    by (intro bexI [of _ "(q, y)"]) simp_all
  have "(\<Sum>p \<in> set ports. int (length (?lost p))) = 1 + (\<Sum>p \<in> set ports. int (length (lost p)))"
    using o by (simp add: sum.remove [of "set ports" ?o])
  with g far up show ?thesis by (auto simp: approximate_outcome_def)
qed

lemma receive_matching_approximate:
  assumes "receive_matching stop n True tol ports current s = (Inr (Some c), s')"
    and "distinct (map fst current)" and "fst ` set current \<subseteq> set ports" and "chronological ports current s"
  shows "\<exists>lost. approximate_outcome tol ports current s lost c s'"
  using assms
proof (induction stop n True tol ports current s arbitrary: c s' rule: receive_matching.induct)
  case (1 stop n tol ports current s)
  note prems = "1.prems"
  then obtain d t where f: "fill_ports ports current s = (Some d, t)" "\<not> stop n"
    and r: "(if d = [] then (Inl (ValueErr ''min() arg is an empty sequence''), t)
           else if group_complete True tol d then (Inr (Some d), t)
           else receive_matching stop (Suc n) True tol ports (pop_port (oldest_port True d) d) (count_drop t)) = (Inr (Some c), s')"
    by (subst (asm) receive_matching.simps) (auto split: if_splits prod.splits option.splits)
  from fill_ports_Some [OF f(1) prems(2)] prems(3)
  have up: "\<And>p. upcoming p d t = upcoming p current s" and d: "fst ` set d = set ports" "distinct (map fst d)"
    and drops: "sn_drops t = sn_drops s" by auto
  have chr: "chronological ports d t" using prems(4) by (simp add: chronological_def timestamps_def up)
  from r have ne: "d \<noteq> []" by (auto split: if_splits)
  have same: "approximate_outcome tol ports d t lost c s' = approximate_outcome tol ports current s lost c s'" for lost
    by (simp add: approximate_outcome_def up drops)
  show ?case
  proof (cases "group_complete True tol d")
    case True
    with r ne have "c = d" "s' = t" by simp_all
    with True d ne have "approximate_outcome tol ports d t (\<lambda>_. []) c s'"
      by (auto simp: approximate_outcome_def matched_approximate upcoming_in)
    then show ?thesis using same by blast
  next
    case False
    let ?p = "pop_port (oldest_port True d) d"
    obtain x where x: "(oldest_port True d, x) \<in> set d" "\<And>y. y \<in> set d \<Longrightarrow> match_key True x \<le> match_key True (snd y)"
      by (rule oldest_port_in [OF ne, of True]) blast
    have "timestamps p ?p t = (if p = oldest_port True d then tl (timestamps p d t) else timestamps p d t)" for p
      by (simp add: timestamps_def pop_port_upcoming [OF d(2) x(1)] map_tl)
    then have "chronological ports ?p (count_drop t)"
      using chr by (simp add: chronological_def timestamps_def sorted_tl)
    moreover from r ne False have "receive_matching stop (Suc n) True tol ports ?p (count_drop t) = (Inr (Some c), s')"
      by simp
    ultimately obtain lost where "approximate_outcome tol ports ?p (count_drop t) lost c s'"
      using "1.hyps" [OF f(2) f(1) [symmetric] refl ne False] d by (auto simp: pop_port_distinct pop_port_fst)
    from approximate_step [OF d(2,1) ne False chr x this] show ?thesis using same by blast
  qed
qed

text \<open>
  Approximate synchronisation over edges with non-decreasing timestamps: a delivered group has
  one message per input port, no two of them further apart than the tolerance; on every edge it
  drops exactly the messages before the one it chose, counts each of them once, and each is more
  than the tolerance older than a member of the group - so it could not have been matched with
  what that member's edge still had to offer.
\<close>

theorem approximate_synchronization:
  assumes pol: "sn_policy pol = ''approximate_timestamp''" and ports: "1 < length ports"
    and chr: "\<And>p. p \<in> set ports \<Longrightarrow> sorted (map msg_timestamp_ns (content (sn_inputs s p)))"
    and r: "receive_synchronized stop pol optionals ports s = (Inr (Some c), s')"
  shows "distinct (map fst c) \<and> fst ` set c = set ports \<and> close_by (sn_tolerance_ns pol) c \<and>
    (\<exists>lost. (\<forall>(p, x) \<in> set c. content (sn_inputs s p) = lost p @ fst x # content (sn_inputs s' p)) \<and>
       sn_drops s' = sn_drops s + (\<Sum>p \<in> set ports. int (length (lost p))) \<and>
       (\<forall>p \<in> set ports. \<forall>d \<in> set (lost p).
          \<exists>(q, y) \<in> set c. sn_tolerance_ns pol < msg_timestamp_ns (fst y) - msg_timestamp_ns d))"
proof -
  have "receive_matching stop 0 True (sn_tolerance_ns pol) ports [] s = (Inr (Some c), s')"
    using r ports by (simp add: receive_synchronized_def pol)
  from receive_matching_approximate [OF this] chr show ?thesis
    by (auto simp: chronological_def timestamps_def upcoming_def approximate_outcome_def)
qed

lemma approximate_synchronization_witness:
  "\<exists>c s. receive_synchronized (\<lambda>_. False) (sync_by ''approximate_timestamp'' 0) [] [''a'', ''b''] two_edges = (Inr (Some c), s) \<and>
     close_by 0 c \<and> sn_drops s = 1"
proof -
  let ?ports = "[''a'', ''b'']" and ?pol = "sync_by ''approximate_timestamp'' 0"
  have "case receive_synchronized (\<lambda>_. False) ?pol [] ?ports two_edges of
      (Inr (Some c), s) \<Rightarrow> sn_drops s = 1 | _ \<Rightarrow> False"
    by code_simp
  then obtain c s where r: "receive_synchronized (\<lambda>_. False) ?pol [] ?ports two_edges = (Inr (Some c), s)"
    and d: "sn_drops s = 1"
    by (auto split: prod.splits sum.splits option.splits)
  have "sorted (map msg_timestamp_ns (content (sn_inputs two_edges p)))" if "p \<in> set ?ports" for p
    using that by (auto simp: two_edges_content frame_message_def)
  with approximate_synchronization [OF _ _ _ r] r d show ?thesis by (auto simp: sync_by_def)
qed

end
