(* ===== verification/Lifecycle.thy ===== *)
theory Lifecycle
  imports Prelude
begin

text \<open>
  The lifecycle and health state of a node (lifecycle.py: LifecycleState, HealthStatus,
  HealthSnapshot and LifecycleTracker), which every executor drives and the watchdog reads.
  monotonic_ns is an argument; the queue pressure is an exact rational.

  The theorem: the flags alive and ready never contradict the state, in any order of the calls
  that the executors and the watchdog make concurrently (each holds the tracker's lock).
\<close>

datatype lifecycle_state =
    CREATED | CONFIGURING | READY | CONFIGURED | STARTING | RUNNING | DEGRADED | DRAINING
  | STOPPING | STOPPED | FAILED | RESTARTING

datatype health_status = UNKNOWN | HEALTHY | UNWELL | UNHEALTHY

text \<open>\<open>UNWELL\<close> is HealthStatus.DEGRADED.\<close>

record tracker =
  lt_state :: lifecycle_state
  lt_status :: health_status
  lt_alive :: bool
  lt_ready :: bool
  lt_last_message_ns :: "int option"
  lt_last_completion_ns :: "int option"
  lt_last_error :: "string option"
  lt_restart_count :: int
  lt_deadline_misses :: int
  lt_queue_pressure :: rat
  lt_state_reason :: "string option"
  lt_state_timestamp_ns :: int

definition new_tracker :: "int \<Rightarrow> tracker" where
  "new_tracker now =
     \<lparr>lt_state = CREATED, lt_status = UNKNOWN, lt_alive = False, lt_ready = False,
      lt_last_message_ns = None, lt_last_completion_ns = None, lt_last_error = None,
      lt_restart_count = 0, lt_deadline_misses = 0, lt_queue_pressure = 0, lt_state_reason = None,
      lt_state_timestamp_ns = now\<rparr>"

definition transition :: "int \<Rightarrow> lifecycle_state \<Rightarrow> health_status option \<Rightarrow> string option \<Rightarrow> tracker \<Rightarrow> tracker" where
  "transition now state status reason t =
     (let t = t\<lparr>lt_state := state, lt_state_reason := reason, lt_state_timestamp_ns := now\<rparr>;
          t = (case status of None \<Rightarrow> t | Some s \<Rightarrow> t\<lparr>lt_status := s\<rparr>);
          t = (if state \<in> {STARTING, RUNNING, DEGRADED, DRAINING} then t\<lparr>lt_alive := True\<rparr> else t);
          t = (if state \<in> {READY, RUNNING} then t\<lparr>lt_ready := True\<rparr> else t);
          t = (if state = RUNNING \<and> lt_status t = UNKNOWN then t\<lparr>lt_status := HEALTHY\<rparr> else t);
          t = (if state \<in> {STOPPING, STOPPED, FAILED} then t\<lparr>lt_ready := False\<rparr> else t)
      in if state \<in> {STOPPED, FAILED} then t\<lparr>lt_alive := False\<rparr> else t)"

definition message_started :: "int \<Rightarrow> tracker \<Rightarrow> tracker" where
  "message_started now t = t\<lparr>lt_last_message_ns := Some now\<rparr>"

definition message_completed :: "int \<Rightarrow> tracker \<Rightarrow> tracker" where
  "message_completed now t =
     (let t = t\<lparr>lt_last_completion_ns := Some now\<rparr>
      in if lt_status t \<noteq> UNHEALTHY \<and> lt_state t \<notin> {DEGRADED, RESTARTING} then t\<lparr>lt_status := HEALTHY\<rparr> else t)"

definition tracker_error :: "string \<Rightarrow> tracker \<Rightarrow> tracker" where
  "tracker_error exc t = t\<lparr>lt_last_error := Some exc, lt_status := UNHEALTHY, lt_state_reason := Some exc\<rparr>"

definition mark_restart :: "int \<Rightarrow> tracker \<Rightarrow> tracker" where
  "mark_restart now t =
     t\<lparr>lt_restart_count := lt_restart_count t + 1, lt_state := RESTARTING, lt_status := UNWELL,
       lt_ready := False, lt_state_reason := Some ''restart requested'', lt_state_timestamp_ns := now\<rparr>"

definition set_queue_pressure :: "rat \<Rightarrow> tracker \<Rightarrow> tracker" where
  "set_queue_pressure v t =
     (let t = t\<lparr>lt_queue_pressure := max 0 (min v 1)\<rparr>
      in if lt_queue_pressure t \<ge> 9 / 10 \<and> lt_status t = HEALTHY then t\<lparr>lt_status := UNWELL\<rparr> else t)"

text \<open>The calls, as one step of whichever thread gets the lock.\<close>

datatype tracker_call =
    Transition int lifecycle_state "health_status option" "string option"
  | Message_started int
  | Message_completed int
  | Error string
  | Mark_restart int
  | Queue_pressure rat

fun tracker_step :: "tracker \<Rightarrow> tracker_call \<Rightarrow> tracker" where
  "tracker_step t (Transition now state status reason) = transition now state status reason t"
| "tracker_step t (Message_started now) = message_started now t"
| "tracker_step t (Message_completed now) = message_completed now t"
| "tracker_step t (Error exc) = tracker_error exc t"
| "tracker_step t (Mark_restart now) = mark_restart now t"
| "tracker_step t (Queue_pressure v) = set_queue_pressure v t"

definition consistent :: "tracker \<Rightarrow> bool" where
  "consistent t \<longleftrightarrow>
     (lt_state t \<in> {STOPPED, FAILED} \<longrightarrow> \<not> lt_alive t) \<and>
     (lt_state t \<in> {STOPPING, STOPPED, FAILED} \<longrightarrow> \<not> lt_ready t) \<and>
     (lt_state t \<in> {STARTING, RUNNING, DEGRADED, DRAINING} \<longrightarrow> lt_alive t) \<and>
     (lt_state t \<in> {READY, RUNNING} \<longrightarrow> lt_ready t) \<and>
     (lt_state t = RUNNING \<longrightarrow> lt_status t \<noteq> UNKNOWN) \<and>
     0 \<le> lt_queue_pressure t \<and> lt_queue_pressure t \<le> 1 \<and> 0 \<le> lt_restart_count t"

lemma transition_consistent: "consistent t \<Longrightarrow> consistent (transition now state status reason t)"
  by (cases state) (auto simp: consistent_def transition_def Let_def split: option.split)

lemma tracker_step_consistent: "consistent t \<Longrightarrow> consistent (tracker_step t c)"
  by (cases c)
     (auto simp: transition_consistent, auto simp: consistent_def message_started_def message_completed_def
       tracker_error_def mark_restart_def set_queue_pressure_def Let_def)

text \<open>
  Whatever calls executors and watchdog make on a node's tracker, and in whatever order, its
  flags agree with its state: a stopped or failed node is neither alive nor ready, one that is
  stopping is not ready, a starting, running, degraded or draining node is alive, a ready or
  running one is ready, a running one has a known health, and the queue pressure stays in [0, 1].
\<close>

theorem lifecycle_consistent: "consistent (foldl tracker_step (new_tracker now) calls)"
proof -
  have "consistent t \<Longrightarrow> consistent (foldl tracker_step t calls)" for t
    by (induction calls arbitrary: t) (simp_all add: tracker_step_consistent)
  moreover have "consistent (new_tracker now)" by (simp add: consistent_def new_tracker_def)
  ultimately show ?thesis by blast
qed

end
