(* ===== verification/Runtime_Worker.thy ===== *)
theory Runtime_Worker
  imports Synchronization Lifecycle
begin

text \<open>
  The worker of a processor node (runtime_workers.py: _run_processor, _activate_fallback, _publish,
  _validate_payload, _publish_eos; hybrid_runtime.py: _node_worker).

  A node implementation is a state of type 'n with the operations the worker calls on it, which
  may raise; they, payload normalisation, type validation and the sizes of payloads and metadata
  are arguments, and so is what the recording writer and the stream publisher answer.  A source is an
  iterator, which need not end.  Everything the worker emits is a list of effects in order: messages and
  end-of-stream markers put on edges, recordings, publications and events.  A put on an edge is an
  effect here; when it may wait is the subject of Bounded_Queue.

  The theorems: a publication puts on every edge of a port one message that its target accepts;
  a worker that returns has released everything downstream of it, recorded its error or found the graph
  stopped, and it returns when its source ends or the graph is stopped, a processor always.
\<close>

subsection \<open>Nodes and workers\<close>

type_synonym 'p outputs = "(string \<times> 'p message) list"

record out_edge =
  oe_source :: string
  oe_target :: string

datatype 'p effect =
    Put out_edge "'p message"
  | Put_EOS out_edge
  | Recorded "'p message"
  | Streamed string "'p message"
  | Event string "string option"

record worker_binding =
  wb_uses :: string
  wb_sync :: sync_policy
  wb_failure_policy :: string
  wb_fallback_uses :: "string option"
  wb_max_message_bytes :: int

record ('n, 'p) worker =
  wk_name :: string
  wk_binding :: worker_binding
  wk_node :: 'n
  wk_lifecycle :: tracker
  wk_inputs :: "string list"
  wk_sync :: "'p sync_state"
  wk_outputs :: "(string \<times> out_edge list) list"
  wk_messages :: int
  wk_errors :: int
  wk_type_validations :: int
  wk_validated :: "(string \<times> string) list"
  wk_fallback_active :: bool
  wk_watchdog_triggered :: bool
  wk_ticks :: nat  \<comment> \<open>how often the monotonic clock was read\<close>
  wk_effects :: "'p effect list"

text \<open>The operations of a node implementation.\<close>

record ('n, 'p) node_ops =
  no_output_types :: "'n \<Rightarrow> (string \<times> string) list"
  no_optional_inputs :: "'n \<Rightarrow> string list"
  no_has_context :: "'n \<Rightarrow> bool"
  no_process :: "'n \<Rightarrow> (string \<times> 'p message) list \<Rightarrow> 'p outputs result \<times> 'n"
  no_drain :: "'n \<Rightarrow> 'p outputs result \<times> 'n"
  no_stop :: "'n \<Rightarrow> unit result \<times> 'n"
  no_configure :: "'n \<Rightarrow> unit result \<times> 'n"
  no_start :: "'n \<Rightarrow> unit result \<times> 'n"
  no_load_fallback :: "string \<Rightarrow> 'n \<Rightarrow> 'n result"
  no_produce :: "('n \<Rightarrow> nat \<Rightarrow> 'p outputs result option) option"
    \<comment> \<open>Some for a source node: what the k-th step of its iterator yields or raises, None when it has ended\<close>
  no_async_source :: bool

text \<open>What the worker takes from its host runtime.\<close>

record 'p host =
  ho_type_validation :: string
  ho_scope_id :: string
  ho_run_id :: string
  ho_recording :: "string list option"  \<comment> \<open>the streams to record, None without a writer\<close>
  ho_write_record :: "'p effect list \<Rightarrow> 'p message \<Rightarrow> unit result"
    \<comment> \<open>what the recording writer answers, after what the worker has done so far\<close>
  ho_streaming :: bool
  ho_write_stream :: "'p effect list \<Rightarrow> string \<Rightarrow> 'p message \<Rightarrow> unit result"
  ho_input_type :: "string \<Rightarrow> string"   \<comment> \<open>the declared type of a target endpoint\<close>
  ho_normalize :: "string \<Rightarrow> 'p payload \<Rightarrow> 'p payload result"
  ho_validate :: "string \<Rightarrow> 'p payload \<Rightarrow> unit result"
  ho_payload_bytes :: "'p message \<Rightarrow> int"
  ho_metadata_bytes :: "mapping \<Rightarrow> int"
  ho_fork :: "'p message \<Rightarrow> 'p message"
  ho_clock :: "nat \<Rightarrow> int"

definition graph_error :: "string \<Rightarrow> py_error" where
  "graph_error msg = NamedErr ''RuntimeGraphError'' msg"

definition emit :: "'p effect \<Rightarrow> ('n, 'p) worker \<Rightarrow> ('n, 'p) worker" where
  "emit e w = w\<lparr>wk_effects := wk_effects w @ [e]\<rparr>"

text \<open>A call on the node's tracker that reads the clock, and one that does not.\<close>

definition track :: "'p host \<Rightarrow> (int \<Rightarrow> tracker \<Rightarrow> tracker) \<Rightarrow> ('n, 'p) worker \<Rightarrow> ('n, 'p) worker" where
  "track h f w = w\<lparr>wk_lifecycle := f (ho_clock h (wk_ticks w)) (wk_lifecycle w), wk_ticks := wk_ticks w + 1\<rparr>"

definition lifecycle_error :: "string \<Rightarrow> ('n, 'p) worker \<Rightarrow> ('n, 'p) worker" where
  "lifecycle_error exc w = w\<lparr>wk_lifecycle := tracker_error exc (wk_lifecycle w)\<rparr>"

definition count_error :: "('n, 'p) worker \<Rightarrow> ('n, 'p) worker" where
  "count_error w = w\<lparr>wk_errors := wk_errors w + 1\<rparr>"

subsection \<open>Publishing\<close>

definition validate_payload :: "'p host \<Rightarrow> string \<Rightarrow> 'p message \<Rightarrow> ('n, 'p) worker \<Rightarrow> unit result \<times> ('n, 'p) worker" where
  "validate_payload h port m w =
     (let key = (wk_name w, port) in
      if ho_type_validation h = ''off'' then (Inr (), w)
      else if ho_type_validation h = ''first'' \<and> key \<in> set (wk_validated w) then (Inr (), w)
      else case ho_validate h (msg_type m) (msg_payload m) of
        Inl e \<Rightarrow> (Inl e, w)
      | Inr _ \<Rightarrow> (Inr (), w\<lparr>wk_validated := List.insert key (wk_validated w), wk_type_validations := wk_type_validations w + 1\<rparr>))"

text \<open>\<open>message.source_id or source_name\<close> and its like.\<close>

definition stamp :: "'p host \<Rightarrow> string \<Rightarrow> 'p message \<Rightarrow> 'p message" where
  "stamp h source m =
     m\<lparr>msg_stream_id := source,
       msg_source_id := (if msg_source_id m = [] then source else msg_source_id m),
       msg_pipeline_id := (if msg_pipeline_id m = [] then ho_scope_id h else msg_pipeline_id m),
       msg_run_id := (if msg_run_id m = [] then ho_run_id h else msg_run_id m)\<rparr>"

fun put_edges :: "'p host \<Rightarrow> string \<Rightarrow> 'p message \<Rightarrow> out_edge list \<Rightarrow> ('n, 'p) worker \<Rightarrow> unit result \<times> ('n, 'p) worker" where
  "put_edges h source m [] w = (Inr (), w)"
| "put_edges h source m (e # es) w =
     (let expected = ho_input_type h (oe_target e) in
      if expected \<noteq> ''core.any'' \<and> msg_type m \<noteq> expected
      then (Inl (graph_error (''Message '' @ repr_str (msg_type m) @ '' from '' @ repr_str source @
              '' cannot enter '' @ repr_str (oe_target e) @ ''; expected '' @ repr_str expected)), w)
      else put_edges h source m es (emit (Put e (ho_fork h m)) w))"

definition edges_of :: "string \<Rightarrow> ('n, 'p) worker \<Rightarrow> out_edge list" where
  "edges_of port w = (case map_of (wk_outputs w) port of None \<Rightarrow> [] | Some es \<Rightarrow> es)"

text \<open>The checks of one output, up to the message that will travel.\<close>

definition check_output ::
    "('n, 'p) node_ops \<Rightarrow> 'p host \<Rightarrow> string \<Rightarrow> 'p message \<Rightarrow> ('n, 'p) worker \<Rightarrow> 'p message result" where
  "check_output ops h port m w =
     (case map_of (no_output_types ops (wk_node w)) port of
        None \<Rightarrow> Inl (graph_error (''Node '' @ repr_str (wk_name w) @ '' emitted unknown port '' @ repr_str port))
      | Some expected \<Rightarrow>
          if expected \<noteq> ''core.any'' \<and> msg_type m \<noteq> expected
          then Inl (graph_error (''Node '' @ repr_str (wk_name w) @ '' emitted '' @ repr_str (msg_type m) @ '' on '' @
                 repr_str port @ ''; expected '' @ repr_str expected))
          else ebind (ho_normalize h (msg_type m) (msg_payload m)) (\<lambda>payload.
            let m = m\<lparr>msg_payload := payload\<rparr>; size = ho_payload_bytes h m in
            if size > wb_max_message_bytes (wk_binding w)
            then Inl (graph_error (''Node '' @ repr_str (wk_name w) @ '' emitted '' @ int_str size @
                   '' bytes, exceeding resources.max_message_bytes='' @ int_str (wb_max_message_bytes (wk_binding w))))
            else if ho_metadata_bytes h (msg_metadata m) > 1024 * 1024
            then Inl (graph_error (''Node '' @ repr_str (wk_name w) @ '' emitted metadata larger than 1 MiB''))
            else Inr m))"

text \<open>The recording writer and the stream publisher may raise, and then the publication ends there.\<close>

definition record_outgoing ::
    "'p host \<Rightarrow> string \<Rightarrow> 'p message \<Rightarrow> ('n, 'p) worker \<Rightarrow> unit result \<times> ('n, 'p) worker" where
  "record_outgoing h source m w =
     (case ho_recording h of
        Some streams \<Rightarrow>
          if streams = [] \<or> source \<in> set streams
          then (case ho_write_record h (wk_effects w) m of
                  Inl e \<Rightarrow> (Inl e, w)
                | Inr _ \<Rightarrow> (Inr (), emit (Recorded m) w))
          else (Inr (), w)
      | None \<Rightarrow> (Inr (), w))"

definition stream_outgoing ::
    "'p host \<Rightarrow> string \<Rightarrow> 'p message \<Rightarrow> ('n, 'p) worker \<Rightarrow> unit result \<times> ('n, 'p) worker" where
  "stream_outgoing h source m w =
     (if ho_streaming h
      then (case ho_write_stream h (wk_effects w) source m of
              Inl e \<Rightarrow> (Inl e, w)
            | Inr _ \<Rightarrow> (Inr (), emit (Streamed source m) w))
      else (Inr (), w))"

definition publish_one ::
    "('n, 'p) node_ops \<Rightarrow> 'p host \<Rightarrow> string \<Rightarrow> 'p message \<Rightarrow> ('n, 'p) worker \<Rightarrow> unit result \<times> ('n, 'p) worker" where
  "publish_one ops h port m w =
     (case check_output ops h port m w of
        Inl e \<Rightarrow> (Inl e, w)
      | Inr m \<Rightarrow>
          (case validate_payload h port m w of
             (Inl e, w) \<Rightarrow> (Inl e, w)
           | (Inr _, w) \<Rightarrow>
               let source = wk_name w @ ''.'' @ port; outgoing = stamp h source m
               in case record_outgoing h source outgoing w of
                    (Inl e, w) \<Rightarrow> (Inl e, w)
                  | (Inr _, w) \<Rightarrow>
                      (case put_edges h source outgoing (edges_of port w) w of
                         (Inl e, w) \<Rightarrow> (Inl e, w)
                       | (Inr _, w) \<Rightarrow> stream_outgoing h source outgoing w)))"

fun publish ::
    "('n, 'p) node_ops \<Rightarrow> 'p host \<Rightarrow> 'p outputs \<Rightarrow> ('n, 'p) worker \<Rightarrow> unit result \<times> ('n, 'p) worker" where
  "publish ops h [] w = (Inr (), w)"
| "publish ops h ((port, m) # outs) w =
     (case publish_one ops h port m w of (Inl e, w) \<Rightarrow> (Inl e, w) | (Inr _, w) \<Rightarrow> publish ops h outs w)"

definition publish_eos :: "('n, 'p) worker \<Rightarrow> ('n, 'p) worker" where
  "publish_eos w = fold (\<lambda>e. emit (Put_EOS e)) (concat (map snd (wk_outputs w))) w"

subsection \<open>The processor loop\<close>

text \<open>\<open>_activate_fallback\<close>: the fallback node has a tracker of its own and takes over only when
  every step succeeded.\<close>

definition activate_fallback ::
    "('n, 'p) node_ops \<Rightarrow> 'p host \<Rightarrow> py_error \<Rightarrow> ('n, 'p) worker \<Rightarrow> unit result \<times> ('n, 'p) worker" where
  "activate_fallback ops h exc w =
     (let uses = or_else (wb_fallback_uses (wk_binding w)) [] in
      if uses = [] then (Inl (graph_error (''Node '' @ repr_str (wk_name w) @ '' has no configured fallback'')), w)
      else if \<not> no_has_context ops (wk_node w)
      then (Inl (graph_error (''Node '' @ repr_str (wk_name w) @ '' failed before a fallback could be configured'')), w)
      else case no_stop ops (wk_node w) of
        (Inl e, old) \<Rightarrow> (Inl e, w\<lparr>wk_node := old\<rparr>)
      | (Inr _, old) \<Rightarrow>
          let w = w\<lparr>wk_node := old\<rparr>; now = ho_clock h; k = wk_ticks w in
          (case no_load_fallback ops uses old of
             Inl e \<Rightarrow> (Inl e, w)
           | Inr fresh \<Rightarrow>
               (case no_configure ops fresh of
                  (Inl e, _) \<Rightarrow> (Inl e, w)
                | (Inr _, fresh) \<Rightarrow>
                    let t = transition (now (k + 2)) STARTING None None
                              (transition (now (k + 1)) READY None None (new_tracker (now k)))
                    in (case no_start ops fresh of
                          (Inl e, _) \<Rightarrow> (Inl e, w)
                        | (Inr _, fresh) \<Rightarrow>
                            let t = transition (now (k + 3)) DEGRADED (Some UNWELL)
                                      (Some (''fallback after '' @ exc_type exc @ '': '' @ exc_str exc)) t
                            in (Inr (),
                                emit (Event ''node_fallback'' (Some (exc_type exc @ '': '' @ exc_str exc)))
                                  (w\<lparr>wk_node := fresh, wk_lifecycle := t, wk_ticks := k + 4, wk_fallback_active := True\<rparr>))))))"

text \<open>How one pass of the loop ends: go on, return, or raise.\<close>

datatype 'w flow = Proceed 'w | Leave 'w | Fail py_error 'w

definition call_process ::
    "('n, 'p) node_ops \<Rightarrow> (string \<times> 'p message) list \<Rightarrow> ('n, 'p) worker \<Rightarrow> 'p outputs result \<times> ('n, 'p) worker" where
  "call_process ops inputs w = (case no_process ops (wk_node w) inputs of (r, n) \<Rightarrow> (r, w\<lparr>wk_node := n\<rparr>))"

text \<open>After a successful call: the statistics, the lifecycle, and the publication of a non-empty
  result.\<close>

definition complete_group ::
    "('n, 'p) node_ops \<Rightarrow> 'p host \<Rightarrow> 'p outputs \<Rightarrow> ('n, 'p) worker \<Rightarrow> ('n, 'p) worker flow" where
  "complete_group ops h outs w =
     (let w = track h message_completed (w\<lparr>wk_messages := wk_messages w + 1\<rparr>) in
      if outs = [] then Proceed w
      else case publish ops h outs w of (Inl e, w) \<Rightarrow> Fail e w | (Inr _, w) \<Rightarrow> Proceed w)"

definition handle_failure ::
    "('n, 'p) node_ops \<Rightarrow> 'p host \<Rightarrow> (string \<times> 'p message) list \<Rightarrow> py_error \<Rightarrow> ('n, 'p) worker \<Rightarrow> ('n, 'p) worker flow" where
  "handle_failure ops h inputs exc w =
     (let policy = wb_failure_policy (wk_binding w) in
      if policy = ''fallback_node'' \<and> \<not> wk_fallback_active w then
        (case activate_fallback ops h exc w of
           (Inl e, w) \<Rightarrow> Fail e w
         | (Inr _, w) \<Rightarrow>
             (case call_process ops inputs w of
                (Inl e, w) \<Rightarrow> Fail e w
              | (Inr outs, w) \<Rightarrow> complete_group ops h outs (count_error w)))
      else if policy = ''skip_message'' then
        Proceed (track h (\<lambda>now. transition now RUNNING (Some UNWELL) None) (lifecycle_error (exc_str exc) (count_error w)))
      else if policy \<in> {''disable_branch'', ''isolate_branch''} then
        Leave (publish_eos (track h (\<lambda>now. transition now FAILED (Some UNHEALTHY) None)
                 (lifecycle_error (exc_str exc) (count_error w))))
      else Fail exc w)"

definition process_group ::
    "('n, 'p) node_ops \<Rightarrow> 'p host \<Rightarrow> 'p arrivals \<Rightarrow> ('n, 'p) worker \<Rightarrow> ('n, 'p) worker flow" where
  "process_group ops h received w =
     (let inputs = map (\<lambda>(p, m, wait). (p, m)) received;
          w = track h message_started (w\<lparr>wk_watchdog_triggered := False\<rparr>)
      in case call_process ops inputs w of
           (Inl exc, w) \<Rightarrow> handle_failure ops h inputs exc w
         | (Inr outs, w) \<Rightarrow> complete_group ops h outs w)"

text \<open>After the loop: flush what the node still holds and close the outputs.\<close>

definition finish_processor ::
    "('n, 'p) node_ops \<Rightarrow> 'p host \<Rightarrow> ('n, 'p) worker \<Rightarrow> unit result \<times> ('n, 'p) worker" where
  "finish_processor ops h w =
     (case no_drain ops (wk_node w) of
        (Inl e, n) \<Rightarrow> (Inl e, w\<lparr>wk_node := n\<rparr>)
      | (Inr outs, n) \<Rightarrow>
          (case publish ops h outs (w\<lparr>wk_node := n\<rparr>) of
             (Inl e, w) \<Rightarrow> (Inl e, w)
           | (Inr _, w) \<Rightarrow> (Inr (), publish_eos w)))"

definition receive_group ::
    "('n, 'p) node_ops \<Rightarrow> (nat \<Rightarrow> bool) \<Rightarrow> ('n, 'p) worker \<Rightarrow> 'p arrivals option result \<times> ('n, 'p) worker" where
  "receive_group ops stop w =
     (case receive_synchronized stop (wb_sync (wk_binding w)) (no_optional_inputs ops (wk_node w)) (wk_inputs w) (wk_sync w) of
        (r, s) \<Rightarrow> (r, w\<lparr>wk_sync := s\<rparr>))"

text \<open>\<open>stop k 0\<close> is what the loop reads at its k-th pass, \<open>stop k (j + 1)\<close> what the j-th reading
  inside that pass sees.\<close>

partial_function (option) run_processor ::
    "('n, 'p) node_ops \<Rightarrow> 'p host \<Rightarrow> (nat \<Rightarrow> nat \<Rightarrow> bool) \<Rightarrow> nat \<Rightarrow> ('n, 'p) worker \<Rightarrow> (unit result \<times> ('n, 'p) worker) option" where
  "run_processor ops h stop k w =
     (if stop k 0 then Some (finish_processor ops h w)
      else case receive_group ops (\<lambda>j. stop k (Suc j)) w of
        (Inl e, w) \<Rightarrow> Some (Inl e, w)
      | (Inr None, w) \<Rightarrow> Some (finish_processor ops h w)
      | (Inr (Some received), w) \<Rightarrow>
          (case process_group ops h received w of
             Proceed w \<Rightarrow> run_processor ops h stop (Suc k) w
           | Leave w \<Rightarrow> Some (Inr (), w)
           | Fail e w \<Rightarrow> Some (Inl e, w)))"

declare run_processor.simps [code]

text \<open>An asynchronous source looks at the stop flag before it asks for the next output, a synchronous
  one after it has it.  An iterator that never ends and a graph that is never stopped give None.\<close>

partial_function (option) run_source ::
    "('n, 'p) node_ops \<Rightarrow> 'p host \<Rightarrow> (nat \<Rightarrow> bool) \<Rightarrow> (nat \<Rightarrow> 'p outputs result option) \<Rightarrow> nat \<Rightarrow> ('n, 'p) worker \<Rightarrow>
     (unit result \<times> ('n, 'p) worker) option" where
  "run_source ops h stop produced k w =
     (if no_async_source ops \<and> stop k then Some (Inr (), publish_eos w)
      else case produced k of
        None \<Rightarrow> Some (Inr (), publish_eos w)
      | Some (Inl e) \<Rightarrow> Some (Inl e, w)
      | Some (Inr outs) \<Rightarrow>
          if stop k then Some (Inr (), publish_eos w)
          else (case publish ops h outs (track h message_started w) of
                  (Inl e, w) \<Rightarrow> Some (Inl e, w)
                | (Inr _, w) \<Rightarrow>
                    run_source ops h stop produced (Suc k)
                      (track h message_completed (w\<lparr>wk_messages := wk_messages w + 1\<rparr>))))"

declare run_source.simps [code]

subsection \<open>The thread of a node\<close>

text \<open>\<open>_node_worker\<close>: configure, start, wait for the graph, run, and what to do with an exception.
  The result is the worker and the error it recorded, which stops the graph and closes every edge.\<close>

definition fail_worker ::
    "'p host \<Rightarrow> py_error \<Rightarrow> ('n, 'p) worker \<Rightarrow> ('n, 'p) worker \<times> py_error option" where
  "fail_worker h exc w =
     (let w = emit (Event ''node_failed'' (Some (exc_type exc @ '': '' @ exc_str exc))) w;
          w = track h (\<lambda>now. transition now FAILED (Some UNHEALTHY) None) (lifecycle_error (exc_str exc) (count_error w))
      in if wb_failure_policy (wk_binding w) \<in> {''disable_branch'', ''isolate_branch''} then (publish_eos w, None) else (w, Some exc))"

definition start_node ::
    "('n, 'p) node_ops \<Rightarrow> 'p host \<Rightarrow> ('n, 'p) worker \<Rightarrow> unit result \<times> ('n, 'p) worker" where
  "start_node ops h w =
     (case no_configure ops (wk_node w) of
        (Inl e, n) \<Rightarrow> (Inl e, w\<lparr>wk_node := n\<rparr>)
      | (Inr _, n) \<Rightarrow>
          let w = track h (\<lambda>now. transition now STARTING None None)
                    (track h (\<lambda>now. transition now READY None None) (w\<lparr>wk_node := n\<rparr>))
          in (case no_start ops (wk_node w) of
                (Inl e, n) \<Rightarrow> (Inl e, w\<lparr>wk_node := n\<rparr>)
              | (Inr _, n) \<Rightarrow> (Inr (), emit (Event ''node_ready'' None) (w\<lparr>wk_node := n\<rparr>))))"

definition run_node ::
    "('n, 'p) node_ops \<Rightarrow> 'p host \<Rightarrow> (nat \<Rightarrow> nat \<Rightarrow> bool) \<Rightarrow> ('n, 'p) worker \<Rightarrow> (unit result \<times> ('n, 'p) worker) option" where
  "run_node ops h stop w =
     (case no_produce ops of
        Some produce \<Rightarrow> run_source ops h (\<lambda>k. stop k 0) (produce (wk_node w)) 0 w
      | None \<Rightarrow> run_processor ops h stop 0 w)"

definition node_worker ::
    "('n, 'p) node_ops \<Rightarrow> 'p host \<Rightarrow> bool \<Rightarrow> (nat \<Rightarrow> nat \<Rightarrow> bool) \<Rightarrow> ('n, 'p) worker \<Rightarrow> (('n, 'p) worker \<times> py_error option) option" where
  "node_worker ops h stopped stop w =
     (case start_node ops h w of
        (Inl e, w) \<Rightarrow> Some (fail_worker h e w)
      | (Inr _, w) \<Rightarrow>
          if stopped then Some (w, None)
          else (case run_node ops h stop w of
                  None \<Rightarrow> None
                | Some (Inl e, w) \<Rightarrow> Some (fail_worker h e w)
                | Some (Inr _, w) \<Rightarrow> Some (w, None)))"

subsection \<open>What every step leaves alone\<close>

text \<open>A step extends the effects without an end-of-stream marker and keeps the worker's wiring.\<close>

definition eos_free :: "'p effect list \<Rightarrow> bool" where
  "eos_free es = (\<forall>e. Put_EOS e \<notin> set es)"

definition extends :: "('n, 'p) worker \<Rightarrow> ('n, 'p) worker \<Rightarrow> bool" where
  "extends w w' \<longleftrightarrow>
     (\<exists>es. wk_effects w' = wk_effects w @ es \<and> eos_free es) \<and> wk_outputs w' = wk_outputs w \<and>
     wk_binding w' = wk_binding w \<and> wk_inputs w' = wk_inputs w \<and> wk_name w' = wk_name w \<and> wk_sync w' = wk_sync w"

text \<open>The same for a step that may also read from the input edges.\<close>

definition advances :: "('n, 'p) worker \<Rightarrow> ('n, 'p) worker \<Rightarrow> bool" where
  "advances w w' = extends (w\<lparr>wk_sync := wk_sync w'\<rparr>) w'"

definition all_edges :: "('n, 'p) worker \<Rightarrow> out_edge list" where
  "all_edges w = concat (map snd (wk_outputs w))"

text \<open>All edges have received their end-of-stream marker, once and last.\<close>

definition released :: "('n, 'p) worker \<Rightarrow> ('n, 'p) worker \<Rightarrow> bool" where
  "released w w' \<longleftrightarrow> (\<exists>es. wk_effects w' = wk_effects w @ es @ map Put_EOS (all_edges w) \<and> eos_free es)"

lemma eos_free_simps [simp]:
  "eos_free []" "eos_free (es @ fs) \<longleftrightarrow> eos_free es \<and> eos_free fs"
  "eos_free (e # es) \<longleftrightarrow> (\<forall>x. e \<noteq> Put_EOS x) \<and> eos_free es"
  by (auto simp: eos_free_def)

named_theorems extends_intros \<open>steps that extend a worker\<close>

lemma extends_refl [simp, intro]: "extends w w"
  by (auto simp: extends_def intro: exI [of _ "[]"])

lemma extends_trans [trans]: "extends w v \<Longrightarrow> extends v u \<Longrightarrow> extends w u"
  unfolding extends_def by auto

lemma extends_released: "extends w v \<Longrightarrow> released v u \<Longrightarrow> released w u"
  unfolding extends_def released_def by (auto simp: all_edges_def)

lemma extends_fields [extends_intros]:
  "extends w v \<Longrightarrow> extends w (v\<lparr>wk_node := n\<rparr>)"
  "extends w v \<Longrightarrow> extends w (v\<lparr>wk_messages := i\<rparr>)"
  "extends w v \<Longrightarrow> extends w (v\<lparr>wk_watchdog_triggered := b\<rparr>)"
  "extends w v \<Longrightarrow> extends w (v\<lparr>wk_validated := vs, wk_type_validations := i\<rparr>)"
  "extends w v \<Longrightarrow> extends w (v\<lparr>wk_node := n, wk_lifecycle := t, wk_ticks := k, wk_fallback_active := b\<rparr>)"
  by (simp_all add: extends_def)

lemma extends_updates [extends_intros]:
  "extends w v \<Longrightarrow> extends w (track h f v)"
  "extends w v \<Longrightarrow> extends w (lifecycle_error e v)"
  "extends w v \<Longrightarrow> extends w (count_error v)"
  "extends w v \<Longrightarrow> (\<And>x. e' \<noteq> Put_EOS x) \<Longrightarrow> extends w (emit e' v)"
  by (auto simp: extends_def track_def lifecycle_error_def count_error_def emit_def)

lemma publish_eos_effects:
  "wk_effects (publish_eos w) = wk_effects w @ map Put_EOS (all_edges w)"
proof -
  have "wk_effects (fold (\<lambda>e. emit (Put_EOS e)) es w) = wk_effects w @ map Put_EOS es" for es
    by (induction es arbitrary: w) (simp_all add: emit_def)
  then show ?thesis by (simp add: publish_eos_def all_edges_def)
qed

lemma publish_eos_released [intro]: "extends w v \<Longrightarrow> released w (publish_eos v)"
  by (rule extends_released) (auto simp: released_def publish_eos_effects intro: exI [of _ "[]"])

lemma put_edges_extends: "put_edges h source m es w = (r, w') \<Longrightarrow> extends w w'"
proof (induction h source m es w rule: put_edges.induct)
  case (2 h source m e es w)
  have "extends w (emit (Put e (ho_fork h m)) w)" by (intro extends_intros extends_refl) simp
  with 2 show ?case by (auto simp: Let_def split: if_splits intro: extends_trans)
qed simp

lemma validate_payload_extends: "validate_payload h port m w = (r, w') \<Longrightarrow> extends w w'"
  by (auto simp: validate_payload_def Let_def intro!: extends_intros split: if_splits sum.splits)

lemma record_outgoing_extends: "record_outgoing h source m w = (r, w') \<Longrightarrow> extends w w'"
  by (auto simp: record_outgoing_def intro!: extends_intros split: option.splits sum.splits if_splits)

lemma stream_outgoing_extends: "stream_outgoing h source m w = (r, w') \<Longrightarrow> extends w w'"
  by (auto simp: stream_outgoing_def intro!: extends_intros split: sum.splits if_splits)

lemma publish_one_extends:
  assumes "publish_one ops h port m w = (r, w')"
  shows "extends w w'"
  using assms
  by (auto simp: publish_one_def Let_def split: sum.splits prod.splits
      dest!: validate_payload_extends record_outgoing_extends put_edges_extends stream_outgoing_extends
      intro: extends_trans)

lemma publish_extends: "publish ops h outs w = (r, w') \<Longrightarrow> extends w w'"
  by (induction ops h outs w rule: publish.induct)
     (auto split: prod.splits sum.splits dest: publish_one_extends intro: extends_trans)

lemma extends_advances: "extends w v \<Longrightarrow> advances w v"
  by (auto simp: extends_def advances_def)

lemma advances_refl [simp, intro]: "advances w w"
  by (rule extends_advances) simp

lemma advances_trans: "advances w v \<Longrightarrow> advances v u \<Longrightarrow> advances w u"
  by (auto simp: extends_def advances_def)

lemma advances_released: "advances w v \<Longrightarrow> released v u \<Longrightarrow> released w u"
  by (auto simp: extends_def advances_def released_def all_edges_def)

lemma receive_group_advances: "receive_group ops stop w = (r, w') \<Longrightarrow> advances w w'"
  by (auto simp: receive_group_def advances_def extends_def split: prod.splits intro!: exI [of _ "[]"])

subsection \<open>The passes of the loop\<close>

abbreviation isolating :: "('n, 'p) worker \<Rightarrow> bool" where
  "isolating w \<equiv> wb_failure_policy (wk_binding w) \<in> {''disable_branch'', ''isolate_branch''}"

fun flow_ok :: "('n, 'p) worker \<Rightarrow> ('n, 'p) worker flow \<Rightarrow> bool" where
  "flow_ok w (Proceed w') = extends w w'"
| "flow_ok w (Leave w') = (isolating w \<and> released w w')"
| "flow_ok w (Fail e w') = extends w w'"

lemma extends_binding: "extends w v \<Longrightarrow> wk_binding v = wk_binding w"
  by (simp add: extends_def)

lemma flow_ok_extends: "flow_ok v f \<Longrightarrow> extends w v \<Longrightarrow> flow_ok w f"
  by (cases f) (auto intro: extends_trans extends_released dest: extends_binding)

lemma call_process_extends: "call_process ops inputs w = (r, w') \<Longrightarrow> extends w w'"
  by (auto simp: call_process_def intro: extends_intros split: prod.splits)

lemma complete_group_ok: "flow_ok w (complete_group ops h outs w)"
proof -
  have "extends w (track h message_completed (w\<lparr>wk_messages := wk_messages w + 1\<rparr>))"
    by (intro extends_intros extends_refl)
  then show ?thesis
    by (auto simp: complete_group_def Let_def split: prod.split sum.split dest!: publish_extends intro: extends_trans)
qed

lemma activate_fallback_extends: "activate_fallback ops h exc w = (r, w') \<Longrightarrow> extends w w'"
  by (auto simp: activate_fallback_def Let_def split: if_splits prod.splits sum.splits intro!: extends_intros)

lemma handle_failure_ok: "flow_ok w (handle_failure ops h inputs exc w)"
proof -
  let ?failed = "lifecycle_error (exc_str exc) (count_error w)"
  have failed: "extends w (track h f ?failed)" for f by (intro extends_intros extends_refl)
  have retry: "flow_ok w (case call_process ops inputs v of
      (Inl e, u) \<Rightarrow> Fail e u | (Inr outs, u) \<Rightarrow> complete_group ops h outs (count_error u))"
    if "extends w v" for v
  proof (cases "call_process ops inputs v")
    case (Pair r u)
    with that have u: "extends w u" by (blast intro: extends_trans call_process_extends)
    then have "extends w (count_error u)" by (intro extends_intros)
    with u flow_ok_extends [OF complete_group_ok this] Pair show ?thesis by (cases r) simp_all
  qed
  show ?thesis
  proof (cases "wb_failure_policy (wk_binding w) = ''fallback_node'' \<and> \<not> wk_fallback_active w")
    case True
    obtain r v where a: "activate_fallback ops h exc w = (r, v)" by (cases "activate_fallback ops h exc w")
    with True activate_fallback_extends [OF a] retry [of v] show ?thesis
      by (cases r) (simp_all add: handle_failure_def)
  next
    case False
    with failed show ?thesis by (auto simp: handle_failure_def Let_def)
  qed
qed

lemma process_group_ok: "flow_ok w (process_group ops h received w)"
proof -
  let ?inputs = "map (\<lambda>(p, m, wait). (p, m)) received"
  let ?v = "track h message_started (w\<lparr>wk_watchdog_triggered := False\<rparr>)"
  have v: "extends w ?v" by (intro extends_intros extends_refl)
  show ?thesis
  proof (cases "call_process ops ?inputs ?v")
    case (Pair r u)
    with v have "extends w u" by (blast intro: extends_trans call_process_extends)
    with Pair flow_ok_extends [OF handle_failure_ok] flow_ok_extends [OF complete_group_ok] show ?thesis
      by (cases r) (simp_all add: process_group_def)
  qed
qed

definition outcome_ok :: "('n, 'p) worker \<Rightarrow> unit result \<times> ('n, 'p) worker \<Rightarrow> bool" where
  "outcome_ok w out = (case out of (Inl e, w') \<Rightarrow> advances w w' | (Inr _, w') \<Rightarrow> released w w')"

lemma outcome_ok_advances: "outcome_ok v out \<Longrightarrow> advances w v \<Longrightarrow> outcome_ok w out"
  by (auto simp: outcome_ok_def split: prod.splits sum.splits intro: advances_trans advances_released)

lemma finish_processor_ok: "outcome_ok w (finish_processor ops h w)"
proof (cases "no_drain ops (wk_node w)")
  case (Pair r n)
  have n: "extends w (w\<lparr>wk_node := n\<rparr>)" by (intro extends_intros extends_refl)
  with Pair show ?thesis
    by (auto simp: finish_processor_def outcome_ok_def split: sum.splits prod.splits
        intro: extends_advances extends_trans dest!: publish_extends)
qed

lemma run_processor_ok:
  assumes "run_processor ops h stop k w = Some out"
  shows "outcome_ok w out"
proof (rule run_processor.raw_induct [where P = "\<lambda>ops h stop k w out. outcome_ok w out", OF _ assms])
  fix run :: "('a, 'b) node_ops \<Rightarrow> 'b host \<Rightarrow> (nat \<Rightarrow> nat \<Rightarrow> bool) \<Rightarrow> nat \<Rightarrow> ('a, 'b) worker \<Rightarrow> (unit result \<times> ('a, 'b) worker) option"
    and ops h stop k w out
  assume ih: "\<And>ops h stop k w out. run ops h stop k w = Some out \<Longrightarrow> outcome_ok w out"
    and r: "(if stop k 0 then Some (finish_processor ops h w)
      else case receive_group ops (\<lambda>j. stop k (Suc j)) w of
        (Inl e, w) \<Rightarrow> Some (Inl e, w)
      | (Inr None, w) \<Rightarrow> Some (finish_processor ops h w)
      | (Inr (Some received), w) \<Rightarrow>
          (case process_group ops h received w of
             Proceed w \<Rightarrow> run ops h stop (Suc k) w
           | Leave w \<Rightarrow> Some (Inr (), w)
           | Fail e w \<Rightarrow> Some (Inl e, w))) = Some out"
  show "outcome_ok w out"
  proof (cases "stop k 0")
    case True
    with r finish_processor_ok show ?thesis by auto
  next
    case False
    obtain g v where g: "receive_group ops (\<lambda>j. stop k (Suc j)) w = (g, v)"
      by (cases "receive_group ops (\<lambda>j. stop k (Suc j)) w")
    note v = receive_group_advances [OF g]
    have "outcome_ok v out"
    proof (cases g)
      case (Inl e)
      with r False g show ?thesis by (auto simp: outcome_ok_def intro: extends_advances)
    next
      case (Inr o')
      show ?thesis
      proof (cases o')
        case None
        with r False g Inr finish_processor_ok show ?thesis by auto
      next
        case (Some received)
        from process_group_ok [of v ops h received] r False g Inr Some show ?thesis
          by (cases "process_group ops h received v")
             (auto simp: outcome_ok_def [of v "(_, _)"] intro: extends_advances
               dest: outcome_ok_advances [OF ih extends_advances])
      qed
    qed
    then show ?thesis by (rule outcome_ok_advances [OF _ v])
  qed
qed

lemma run_source_ok:
  assumes "run_source ops h stop produced k w = Some out"
  shows "outcome_ok w out"
proof (rule run_source.raw_induct [where P = "\<lambda>ops h stop produced k w out. outcome_ok w out", OF _ assms])
  fix run :: "('a, 'b) node_ops \<Rightarrow> 'b host \<Rightarrow> (nat \<Rightarrow> bool) \<Rightarrow> (nat \<Rightarrow> 'b outputs result option) \<Rightarrow> nat \<Rightarrow> ('a, 'b) worker \<Rightarrow>
      (unit result \<times> ('a, 'b) worker) option"
    and ops h stop produced k w out
  assume ih: "\<And>ops h stop produced k w out. run ops h stop produced k w = Some out \<Longrightarrow> outcome_ok w out"
    and r: "(if no_async_source ops \<and> stop k then Some (Inr (), publish_eos w)
      else case produced k of
        None \<Rightarrow> Some (Inr (), publish_eos w)
      | Some (Inl e) \<Rightarrow> Some (Inl e, w)
      | Some (Inr outs) \<Rightarrow>
          if stop k then Some (Inr (), publish_eos w)
          else (case publish ops h outs (track h message_started w) of
                  (Inl e, w) \<Rightarrow> Some (Inl e, w)
                | (Inr _, w) \<Rightarrow>
                    run ops h stop produced (Suc k)
                      (track h message_completed (w\<lparr>wk_messages := wk_messages w + 1\<rparr>)))) = Some out"
  have eos: "outcome_ok w (Inr (), publish_eos w)" by (auto simp: outcome_ok_def)
  show "outcome_ok w out"
  proof (cases "stop k \<or> (\<forall>outs. produced k \<noteq> Some (Inr outs))")
    case True
    with r eos show ?thesis
      by (auto simp: outcome_ok_def [of w "(Inl _, _)"] extends_advances split: if_splits option.splits sum.splits)
  next
    case False
    then obtain outs where outs: "\<not> stop k" "produced k = Some (Inr outs)" by blast
    obtain c v where p: "publish ops h outs (track h message_started w) = (c, v)"
      by (cases "publish ops h outs (track h message_started w)")
    have "extends w (track h message_started w)" by (intro extends_intros extends_refl)
    with publish_extends [OF p] have v: "extends w v" by (blast intro: extends_trans)
    then have u: "advances w (track h message_completed (v\<lparr>wk_messages := wk_messages v + 1\<rparr>))"
      by (intro extends_advances extends_intros)
    from r outs p v show ?thesis
      by (cases c) (auto simp: outcome_ok_def [of w "(Inl _, _)"] extends_advances intro: outcome_ok_advances [OF ih u])
  qed
qed

lemma run_node_ok: "run_node ops h stop w = Some out \<Longrightarrow> outcome_ok w out"
proof (cases "no_produce ops")
  case (Some produce)
  assume "run_node ops h stop w = Some out"
  with Some show ?thesis by (intro run_source_ok) (simp add: run_node_def)
qed (simp add: run_node_def run_processor_ok)

lemma start_node_extends: "start_node ops h w = (r, w') \<Longrightarrow> extends w w'"
  by (auto simp: start_node_def Let_def split: prod.splits sum.splits intro!: extends_intros)

lemma fail_worker_ok:
  assumes "advances w v" and "fail_worker h exc v = (w', e)"
  shows "if isolating w then e = None \<and> released w w' else e = Some exc \<and> advances w w'"
proof -
  let ?u = "track h (\<lambda>now. transition now FAILED (Some UNHEALTHY) None) (lifecycle_error (exc_str exc) (count_error
    (emit (Event ''node_failed'' (Some (exc_type exc @ '': '' @ exc_str exc))) v)))"
  have u: "extends v ?u" by (intro extends_intros extends_refl) simp
  with assms(1) have "isolating ?u = isolating w" by (auto simp: extends_def advances_def)
  moreover have "advances w ?u" by (rule advances_trans [OF assms(1) extends_advances [OF u]])
  moreover have "released w (publish_eos ?u)"
    using advances_released [OF assms(1) publish_eos_released [OF u]] .
  ultimately show ?thesis using assms(2) by (auto simp: fail_worker_def Let_def split: if_splits)
qed

text \<open>
  C26: How a node's thread that ends leaves its consumers.  It has put the end-of-stream marker on every
  one of its edges, exactly once and after everything else it sent; or it recorded the error that stops
  the graph and closes every edge; or it found the graph already stopped when its node had started, and
  then it read no input, sent no marker and recorded no error, the edges being left to whoever stopped
  the graph.  Under disable_branch and isolate_branch it never records an error.
\<close>

theorem worker_releases_consumers:
  assumes "node_worker ops h stopped stop w = Some (w', recorded)"
  shows "(recorded = None \<longrightarrow> released w w' \<or> stopped \<and> extends w w') \<and>
    (isolating w \<longrightarrow> recorded = None) \<and> (\<not> released w w' \<longrightarrow> advances w w')"
proof -
  obtain r v where s: "start_node ops h w = (r, v)" by (cases "start_node ops h w")
  then have v0: "extends w v" by (rule start_node_extends)
  then have v: "advances w v" by (rule extends_advances)
  have failed: "?thesis" if "advances w u" "fail_worker h e u = (w', recorded)" for e u
    using fail_worker_ok [OF that] by (simp split: if_splits)
  show ?thesis
  proof (cases r)
    case (Inl e)
    with assms s show ?thesis by (intro failed [OF v]) (simp add: node_worker_def)
  next
    case (Inr x)
    show ?thesis
    proof (cases stopped)
      case True
      with assms s Inr v v0 show ?thesis by (simp add: node_worker_def)
    next
      case False
      with assms s Inr obtain r' u where run: "run_node ops h stop v = Some (r', u)"
        by (auto simp: node_worker_def split: option.splits)
      then have "outcome_ok v (r', u)" by (rule run_node_ok)
      with v have out: "outcome_ok w (r', u)" by (blast intro: outcome_ok_advances)
      show ?thesis
      proof (cases r')
        case (Inl e)
        with assms s Inr False run out show ?thesis
          by (intro failed [of u e]) (simp_all add: node_worker_def outcome_ok_def)
      next
        case r': (Inr y)
        with assms s Inr False run out show ?thesis by (simp add: node_worker_def outcome_ok_def)
      qed
    qed
  qed
qed

subsection \<open>Publication reaches every edge\<close>

text \<open>The messages that a list of effects puts on edges.\<close>

definition puts :: "'p effect list \<Rightarrow> (out_edge \<times> 'p message) list" where
  "puts es = concat (map (\<lambda>e. case e of Put d m \<Rightarrow> [(d, m)] | _ \<Rightarrow> []) es)"

lemma puts_simps [simp]:
  "puts [] = []" "puts (es @ fs) = puts es @ puts fs" "puts (Put d m # es) = (d, m) # puts es"
  "puts (Recorded m # es) = puts es" "puts (Streamed s m # es) = puts es" "puts (Event k x # es) = puts es"
  by (simp_all add: puts_def)

definition target_accepts :: "'p host \<Rightarrow> out_edge \<Rightarrow> string \<Rightarrow> bool" where
  "target_accepts h d t \<longleftrightarrow> ho_input_type h (oe_target d) \<in> {''core.any'', t}"

lemma put_edges_puts:
  "put_edges h source m es w = (Inr u, w') \<Longrightarrow>
     puts (wk_effects w') = puts (wk_effects w) @ map (\<lambda>d. (d, ho_fork h m)) es \<and>
     (\<forall>d \<in> set es. target_accepts h d (msg_type m))"
  by (induction h source m es w rule: put_edges.induct)
     (auto simp: Let_def emit_def target_accepts_def split: if_splits)

lemma check_output_Inr:
  "check_output ops h port m w = Inr m' \<Longrightarrow>
     (\<exists>expected. map_of (no_output_types ops (wk_node w)) port = Some expected \<and> expected \<in> {''core.any'', msg_type m}) \<and>
     (\<exists>payload. ho_normalize h (msg_type m) (msg_payload m) = Inr payload \<and> m' = m\<lparr>msg_payload := payload\<rparr>) \<and>
     ho_payload_bytes h m' \<le> wb_max_message_bytes (wk_binding w) \<and> ho_metadata_bytes h (msg_metadata m) \<le> 1024 * 1024"
  by (auto simp: check_output_def Let_def result_elims split: option.splits if_splits)

lemma validate_payload_keeps:
  "validate_payload h port m w = (r, w') \<Longrightarrow>
     wk_effects w' = wk_effects w \<and> wk_outputs w' = wk_outputs w \<and> wk_name w' = wk_name w \<and> wk_node w' = wk_node w"
  by (auto simp: validate_payload_def Let_def split: if_splits sum.splits)

text \<open>What one output turns into: the normalised message, stamped with its stream and run, on
  every edge of its port.\<close>

definition delivery :: "('n, 'p) node_ops \<Rightarrow> 'p host \<Rightarrow> ('n, 'p) worker \<Rightarrow> string \<times> 'p message \<Rightarrow> (out_edge \<times> 'p message) list \<Rightarrow> bool" where
  "delivery ops h w = (\<lambda>(port, m) ds.
     \<exists>payload. ho_normalize h (msg_type m) (msg_payload m) = Inr payload \<and>
       (let m' = m\<lparr>msg_payload := payload\<rparr>; out = stamp h (wk_name w @ ''.'' @ port) m' in
        ds = map (\<lambda>d. (d, ho_fork h out)) (edges_of port w) \<and>
        (\<forall>d \<in> set (edges_of port w). target_accepts h d (msg_type m)) \<and>
        ho_payload_bytes h m' \<le> wb_max_message_bytes (wk_binding w) \<and>
        (\<exists>expected. (port, expected) \<in> set (no_output_types ops (wk_node w)) \<and> expected \<in> {''core.any'', msg_type m})))"

definition same_node :: "('n, 'p) worker \<Rightarrow> ('n, 'p) worker \<Rightarrow> bool" where
  "same_node w w' \<longleftrightarrow> wk_name w' = wk_name w \<and> wk_outputs w' = wk_outputs w \<and> wk_node w' = wk_node w \<and> wk_binding w' = wk_binding w"

lemma delivery_same_node: "same_node w w' \<Longrightarrow> delivery ops h w' = delivery ops h w"
  by (simp add: same_node_def delivery_def edges_of_def)

lemma put_edges_same_node: "put_edges h source m es w = (r, w') \<Longrightarrow> same_node w w'"
  by (induction h source m es w rule: put_edges.induct) (auto simp: Let_def same_node_def emit_def split: if_splits)

lemma publish_one_delivery:
  assumes "publish_one ops h port m w = (Inr u, w')"
  shows "(\<exists>ds. puts (wk_effects w') = puts (wk_effects w) @ ds \<and> delivery ops h w (port, m) ds) \<and> same_node w w'"
proof -
  from assms obtain m' where m': "check_output ops h port m w = Inr m'" by (auto simp: publish_one_def split: sum.splits)
  from assms m' obtain v where v: "validate_payload h port m' w = (Inr (), v)"
    by (auto simp: publish_one_def split: prod.splits sum.splits)
  note keep = validate_payload_keeps [OF v]
  let ?source = "wk_name w @ ''.'' @ port"
  let ?out = "stamp h ?source m'"
  from assms m' v keep obtain u where rec: "record_outgoing h ?source ?out v = (Inr (), u)"
    by (auto simp: publish_one_def Let_def split: prod.splits sum.splits)
  from assms m' v keep rec obtain t where t: "put_edges h ?source ?out (edges_of port u) u = (Inr (), t)"
    and w': "stream_outgoing h ?source ?out t = (Inr (), w')"
    by (auto simp: publish_one_def Let_def split: prod.splits sum.splits)
  have binding: "wk_binding v = wk_binding w" using validate_payload_extends [OF v] by (simp add: extends_def)
  have u: "same_node w u" "puts (wk_effects u) = puts (wk_effects w)"
    using keep binding rec
    by (auto simp: same_node_def record_outgoing_def emit_def split: option.splits sum.splits if_splits)
  have edges: "edges_of port u = edges_of port w" using u(1) by (simp add: same_node_def edges_of_def)
  have out: "same_node t w'" "puts (wk_effects w') = puts (wk_effects t)"
    using w' by (auto simp: same_node_def stream_outgoing_def emit_def split: sum.splits if_splits)
  have "same_node w w'" using u(1) put_edges_same_node [OF t] out(1) by (simp add: same_node_def)
  moreover have "puts (wk_effects w') = puts (wk_effects w) @ map (\<lambda>d. (d, ho_fork h ?out)) (edges_of port w)"
    using conjunct1 [OF put_edges_puts [OF t]] u(2) unfolding out(2) edges by simp
  moreover have "delivery ops h w (port, m) (map (\<lambda>d. (d, ho_fork h ?out)) (edges_of port w))"
  proof -
    from check_output_Inr [OF m'] obtain payload expected where
      p: "ho_normalize h (msg_type m) (msg_payload m) = Inr payload" "m' = m\<lparr>msg_payload := payload\<rparr>"
      and e: "map_of (no_output_types ops (wk_node w)) port = Some expected" "expected \<in> {''core.any'', msg_type m}"
      and b: "ho_payload_bytes h m' \<le> wb_max_message_bytes (wk_binding w)" by blast
    have "msg_type ?out = msg_type m" by (simp add: stamp_def p(2))
    with conjunct2 [OF put_edges_puts [OF t]] have "\<forall>d \<in> set (edges_of port w). target_accepts h d (msg_type m)"
      by (simp add: edges)
    with p b map_of_SomeD [OF e(1)] e(2) show ?thesis
      unfolding delivery_def Let_def prod.case by blast
  qed
  ultimately show ?thesis by blast
qed

lemma publish_delivery:
  "publish ops h outs w = (Inr u, w') \<Longrightarrow>
     \<exists>dss. puts (wk_effects w') = puts (wk_effects w) @ concat dss \<and> list_all2 (delivery ops h w) outs dss"
proof (induction ops h outs w rule: publish.induct)
  case (2 ops h port m outs w)
  then obtain v where v: "publish_one ops h port m w = (Inr (), v)" and p: "publish ops h outs v = (Inr u, w')"
    by (auto split: prod.splits sum.splits)
  from publish_one_delivery [OF v] obtain ds where ds: "puts (wk_effects v) = puts (wk_effects w) @ ds"
    "delivery ops h w (port, m) ds" "same_node w v" by blast
  from "2.IH" [OF v [symmetric] refl p] obtain dss where
    "puts (wk_effects w') = puts (wk_effects v) @ concat dss" "list_all2 (delivery ops h v) outs dss" by blast
  with ds show ?case
    by (intro exI [of _ "ds # dss"]) (simp add: delivery_same_node [OF ds(3)])
qed simp

text \<open>
  C28: A publication that succeeds puts each output on every edge of its port, once and in order:
  the normalised message, stamped with the node's stream and the run; its port is declared and
  declared for its type, every target accepts that type, and its payload is within the limit.
\<close>

theorem publish_reaches_every_edge:
  assumes "publish ops h outs w = (Inr u, w')"
  shows "\<exists>dss. puts (wk_effects w') = puts (wk_effects w) @ concat dss \<and>
    list_all2 (\<lambda>(port, m) ds. map fst ds = edges_of port w \<and>
      (\<exists>payload. ho_normalize h (msg_type m) (msg_payload m) = Inr payload \<and>
        ho_payload_bytes h (m\<lparr>msg_payload := payload\<rparr>) \<le> wb_max_message_bytes (wk_binding w) \<and>
        (\<forall>(d, sent) \<in> set ds. sent = ho_fork h (stamp h (wk_name w @ ''.'' @ port) (m\<lparr>msg_payload := payload\<rparr>)) \<and>
           ho_input_type h (oe_target d) \<in> {''core.any'', msg_type m})) \<and>
      (\<exists>expected. (port, expected) \<in> set (no_output_types ops (wk_node w)) \<and> expected \<in> {''core.any'', msg_type m})) outs dss"
proof -
  from publish_delivery [OF assms] obtain dss where dss: "puts (wk_effects w') = puts (wk_effects w) @ concat dss"
    "list_all2 (delivery ops h w) outs dss" by blast
  show ?thesis
    by (rule exI [of _ dss])
       (use dss in \<open>auto simp: delivery_def Let_def target_accepts_def comp_def elim!: list_all2_mono\<close>)
qed

subsection \<open>The worker always returns\<close>

lemma run_processor_returns:
  assumes "wk_inputs w \<noteq> []"
  shows "\<exists>out. run_processor ops h stop k w = Some out"
  using assms
proof (induction "inbox_size (wk_inputs w) (wk_sync w)" arbitrary: w k rule: less_induct)
  case less
  note unfold = run_processor.simps [of ops h stop k w]
  show ?case
  proof (cases "stop k 0")
    case False
    obtain g v where g: "receive_group ops (\<lambda>j. stop k (Suc j)) w = (g, v)"
      by (cases "receive_group ops (\<lambda>j. stop k (Suc j)) w")
    show ?thesis
    proof (cases "\<exists>received. g = Inr (Some received)")
      case True
      then obtain received where received: "g = Inr (Some received)" by blast
      from g received have "inbox_size (wk_inputs w) (wk_sync v) < inbox_size (wk_inputs w) (wk_sync w)"
        and inputs: "wk_inputs v = wk_inputs w"
        by (auto simp: receive_group_def less.prems split: prod.splits dest: receive_progress)
      moreover have "wk_inputs u = wk_inputs v \<and> wk_sync u = wk_sync v" if "process_group ops h received v = Proceed u" for u
        using process_group_ok [of v ops h received] that by (simp add: extends_def)
      ultimately have "\<exists>out. run_processor ops h stop (Suc k) u = Some out" if "process_group ops h received v = Proceed u" for u
        using less.hyps [of u "Suc k"] less.prems that by simp
      with unfold False g received show ?thesis
        by (cases "process_group ops h received v") simp_all
    next
      case none: False
      with unfold False g show ?thesis
        by (cases g) (auto split: option.splits)
    qed
  qed (simp add: unfold)
qed

text \<open>The iterator of a source ends or raises, or the graph is stopped at one of its passes.\<close>

definition source_ends :: "(nat \<Rightarrow> nat \<Rightarrow> bool) \<Rightarrow> (nat \<Rightarrow> 'p outputs result option) \<Rightarrow> bool" where
  "source_ends stop produced \<longleftrightarrow> (\<exists>k. stop k 0 \<or> (\<forall>outs. produced k \<noteq> Some (Inr outs)))"

lemma run_source_returns:
  assumes "stop k \<or> (\<forall>outs. produced k \<noteq> Some (Inr outs))"
  shows "j \<le> k \<Longrightarrow> \<exists>out. run_source ops h stop produced j w = Some out"
proof (induction "k - j" arbitrary: j w)
  case 0
  then have "j = k" by simp
  with assms show ?case by (subst run_source.simps) (auto split: option.splits sum.splits)
next
  case (Suc n)
  then have "n = k - Suc j" "Suc j \<le> k" by simp_all
  note ih = Suc(1) [OF this]
  show ?case by (subst run_source.simps) (auto split: option.splits sum.splits prod.splits simp del: split_paired_Ex intro: ih)
qed

text \<open>
  C27: The thread of a node ends: a source when what it produces ends or raises, or when the graph is
  stopped, a processor with at least one connected input after as many messages as its edges deliver -
  under every synchronisation and failure policy, whatever its calls return or raise, and whenever the
  graph is stopped.
\<close>

theorem worker_returns:
  assumes "case no_produce ops of None \<Rightarrow> wk_inputs w \<noteq> [] | Some produce \<Rightarrow> \<forall>n. source_ends stop (produce n)"
  shows "\<exists>w' recorded. node_worker ops h stopped stop w = Some (w', recorded)"
proof -
  obtain r v where s: "start_node ops h w = (r, v)" by (cases "start_node ops h w")
  have inputs: "wk_inputs v = wk_inputs w" using start_node_extends [OF s] by (simp add: extends_def)
  have "\<exists>out. run_node ops h stop v = Some out"
  proof (cases "no_produce ops")
    case None
    with assms inputs run_processor_returns [of v ops h stop 0] show ?thesis by (simp add: run_node_def)
  next
    case (Some produce)
    with assms obtain k where "stop k 0 \<or> (\<forall>outs. produce (wk_node v) k \<noteq> Some (Inr outs))"
      by (auto simp: source_ends_def)
    with run_source_returns [of "\<lambda>k. stop k 0" k "produce (wk_node v)" 0] Some show ?thesis by (simp add: run_node_def)
  qed
  with s show ?thesis
    by (auto simp: node_worker_def split: sum.split option.split prod.split)
qed

subsection \<open>An example: an isolated branch\<close>

text \<open>A node that raises on its first message, and one that forwards what it receives.\<close>

definition sample_ops :: "bool \<Rightarrow> (nat, nat) node_ops" where
  "sample_ops broken =
     \<lparr>no_output_types = (\<lambda>_. [(''out'', ''core.any'')]), no_optional_inputs = (\<lambda>_. []), no_has_context = (\<lambda>_. True),
      no_process = (\<lambda>n inputs. (if broken then Inl (RuntimeErr ''broken'') else Inr (map (\<lambda>(p, m). (''out'', m)) inputs), n + 1)),
      no_drain = (\<lambda>n. (Inr [], n)), no_stop = (\<lambda>n. (Inr (), n)), no_configure = (\<lambda>n. (Inr (), n)),
      no_start = (\<lambda>n. (Inr (), n)), no_load_fallback = (\<lambda>_ n. Inr 0), no_produce = None, no_async_source = False\<rparr>"

definition sample_host :: "nat host" where
  "sample_host =
     \<lparr>ho_type_validation = ''off'', ho_scope_id = ''scope'', ho_run_id = ''run'', ho_recording = None,
      ho_write_record = (\<lambda>_ _. Inr ()), ho_streaming = False, ho_write_stream = (\<lambda>_ _ _. Inr ()), ho_input_type = (\<lambda>_. ''core.any''), ho_normalize = (\<lambda>_ p. Inr p),
      ho_validate = (\<lambda>_ _. Inr ()), ho_payload_bytes = (\<lambda>_. 1), ho_metadata_bytes = (\<lambda>_. 2),
      ho_fork = (\<lambda>m. m), ho_clock = int\<rparr>"

definition sample_worker :: "string \<Rightarrow> (nat, nat) worker" where
  "sample_worker policy =
     \<lparr>wk_name = ''b'',
      wk_binding = \<lparr>wb_uses = ''x'', wb_sync = sync_by ''exact_sequence'' 0, wb_failure_policy = policy,
                    wb_fallback_uses = None, wb_max_message_bytes = 100\<rparr>,
      wk_node = 0, wk_lifecycle = new_tracker 0, wk_inputs = [''in''],
      wk_sync = \<lparr>sn_inputs = (\<lambda>_. frames [1, 2, 3]), sn_latest = [], sn_drops = 0\<rparr>,
      wk_outputs = [(''out'', [\<lparr>oe_source = ''b.out'', oe_target = ''c.in''\<rparr>])],
      wk_messages = 0, wk_errors = 0, wk_type_validations = 0, wk_validated = [], wk_fallback_active = False,
      wk_watchdog_triggered = False, wk_ticks = 0, wk_effects = []\<rparr>"

lemma isolated_run:
  "case node_worker (sample_ops True) sample_host False (\<lambda>_ _. False) (sample_worker ''isolate_branch'') of
     Some (w, None) \<Rightarrow> wk_effects w = [Event ''node_ready'' None, Put_EOS \<lparr>oe_source = ''b.out'', oe_target = ''c.in''\<rparr>] \<and>
       content (sn_inputs (wk_sync w) ''in'') = map frame_message [2, 3]
   | _ \<Rightarrow> False"
  by code_simp

text \<open>The isolated branch has closed its output but neither closed nor emptied its input: nothing
  will read the edge that feeds it, so (unread_queue_blocks) with the policy block its producer
  stops for good, and with it every other branch of that producer.\<close>

lemma isolated_branch_leaves_input:
  "\<exists>w. node_worker (sample_ops True) sample_host False (\<lambda>_ _. False) (sample_worker ''isolate_branch'') = Some (w, None) \<and>
     content (sn_inputs (wk_sync w) ''in'') \<noteq> []"
  using isolated_run by (auto split: option.splits prod.splits)

lemma worker_releases_consumers_witness:
  "\<exists>w. node_worker (sample_ops True) sample_host False (\<lambda>_ _. False) (sample_worker ''isolate_branch'') = Some (w, None) \<and>
     released (sample_worker ''isolate_branch'') w"
proof -
  obtain w where w: "node_worker (sample_ops True) sample_host False (\<lambda>_ _. False) (sample_worker ''isolate_branch'') = Some (w, None)"
    using isolated_run by (auto split: option.splits prod.splits)
  with worker_releases_consumers [OF w] show ?thesis by blast
qed

lemma publish_reaches_every_edge_witness:
  "\<exists>w dss. publish (sample_ops False) sample_host [(''out'', frame_message 7)] (sample_worker ''skip_message'') = (Inr (), w) \<and>
     puts (wk_effects w) = concat dss \<and> map (map fst) dss = [[\<lparr>oe_source = ''b.out'', oe_target = ''c.in''\<rparr>]]"
proof -
  have "case publish (sample_ops False) sample_host [(''out'', frame_message 7)] (sample_worker ''skip_message'') of
      (Inl e, w) \<Rightarrow> False | (Inr u, w) \<Rightarrow> True" by code_simp
  then obtain w where w: "publish (sample_ops False) sample_host [(''out'', frame_message 7)] (sample_worker ''skip_message'') = (Inr (), w)"
    by (auto split: prod.splits sum.splits)
  have "wk_effects (sample_worker ''skip_message'') = []"
    and "edges_of ''out'' (sample_worker ''skip_message'') = [\<lparr>oe_source = ''b.out'', oe_target = ''c.in''\<rparr>]"
    by (simp_all add: sample_worker_def edges_of_def)
  with publish_reaches_every_edge [OF w] w show ?thesis
    by (force simp: list_all2_Cons1)
qed

text \<open>A processor, and a source that never ends, stopped at its fourth pass.\<close>

lemma worker_returns_witness:
  "(\<exists>w r. node_worker (sample_ops True) sample_host False (\<lambda>_ _. False) (sample_worker ''skip_message'') = Some (w, r)) \<and>
   (\<exists>w r. node_worker ((sample_ops False)\<lparr>no_produce := Some (\<lambda>_ _. Some (Inr []))\<rparr>) sample_host False (\<lambda>k _. 3 \<le> k)
      (sample_worker ''skip_message'') = Some (w, r))"
proof -
  let ?source = "(sample_ops False)\<lparr>no_produce := Some (\<lambda>_ _. Some (Inr []))\<rparr>"
  have "case no_produce (sample_ops True) of None \<Rightarrow> wk_inputs (sample_worker ''skip_message'') \<noteq> []
    | Some produce \<Rightarrow> \<forall>n. source_ends (\<lambda>_ _. False) (produce n)" by (simp add: sample_ops_def sample_worker_def)
  note processor = worker_returns [OF this]
  have "case no_produce ?source of None \<Rightarrow> wk_inputs (sample_worker ''skip_message'') \<noteq> []
    | Some produce \<Rightarrow> \<forall>n. source_ends (\<lambda>k _. 3 \<le> k) (produce n)" by (auto simp: source_ends_def)
  note source = worker_returns [OF this]
  from processor source show ?thesis by blast
qed

end
