(* ===== verification/Watchdog.thy ===== *)
theory Watchdog
  imports Runtime_Worker Node_Policy
begin

text \<open>
  The health watchdog of the runtime (runtime_workers.py: RuntimeWorkerMixin._watchdog_loop): one
  pass over the nodes, reading each tracker once.  A pass ends at the first node whose timeout
  stops the graph.

  A pass that does not stop the graph visits every node and leaves none overdue.  The two spellings
  it acts on are the legacy ones, which the planner never produces: that is the property.
\<close>

record watch =
  wd_timeout_ns :: int
  wd_on_timeout :: string
  wd_isolated :: bool  \<comment> \<open>the node is a ProcessNodeProxy\<close>
  wd_triggered :: bool
  wd_tracker :: tracker

datatype watch_action = Nothing | Stop_Graph | Interrupt

text \<open>\<open>a or b\<close> on optional integers.\<close>

definition int_or :: "int option \<Rightarrow> int option \<Rightarrow> int option" where
  "int_or a b = (case a of Some n \<Rightarrow> if n = 0 then b else a | None \<Rightarrow> b)"

definition overdue :: "int \<Rightarrow> watch \<Rightarrow> bool" where
  "overdue now n =
     (let t = wd_tracker n in
      wd_timeout_ns n > 0 \<and> lt_ready t \<and>
      (case int_or (lt_last_message_ns t) (lt_last_completion_ns t) of
         None \<Rightarrow> False
       | Some seen \<Rightarrow> now - seen > wd_timeout_ns n \<and> \<not> wd_triggered n))"

definition watch_node :: "int \<Rightarrow> watch \<Rightarrow> watch_action \<times> watch" where
  "watch_node now n =
     (if \<not> overdue now n then (Nothing, n)
      else
        let t = tracker_error (''health timeout after '' @ int_str (wd_timeout_ns n div 1000000) @ '' ms'') (wd_tracker n);
            n = n\<lparr>wd_triggered := True, wd_tracker := t\<rparr>
        in if wd_on_timeout n = ''stop_pipeline'' then (Stop_Graph, n)
           else if wd_on_timeout n = ''restart'' \<and> wd_isolated n
           then (Interrupt, n\<lparr>wd_tracker := transition now RESTARTING (Some UNWELL) None (mark_restart now t)\<rparr>)
           else (Nothing, n))"

fun watchdog_pass :: "int \<Rightarrow> watch list \<Rightarrow> bool \<times> watch list" where
  "watchdog_pass now [] = (False, [])"
| "watchdog_pass now (n # ns) =
     (case watch_node now n of
        (Stop_Graph, n) \<Rightarrow> (True, n # ns)
      | (_, n) \<Rightarrow> (case watchdog_pass now ns of (stopped, ns) \<Rightarrow> (stopped, n # ns)))"

text \<open>A pass that does not stop the graph has visited every node, and leaves no node overdue.\<close>

lemma watch_node_not_overdue: "\<not> overdue now (snd (watch_node now n))"
proof (cases "overdue now n")
  case True
  then have "wd_triggered (snd (watch_node now n))" by (simp add: watch_node_def Let_def)
  then show ?thesis by (simp add: overdue_def Let_def split: option.split)
qed (simp add: watch_node_def)

lemma watchdog_pass_complete:
  "watchdog_pass now ns = (False, ns') \<Longrightarrow> ns' = map (\<lambda>n. snd (watch_node now n)) ns \<and> (\<forall>n \<in> set ns'. \<not> overdue now n)"
proof (induction now ns arbitrary: ns' rule: watchdog_pass.induct)
  case (2 now n ns)
  obtain a m where n: "watch_node now n = (a, m)" by (cases "watch_node now n")
  have "\<not> overdue now m" using watch_node_not_overdue [of now n] by (simp add: n)
  with 2 show ?case by (cases a) (auto simp: n split: prod.splits)
qed simp

lemma watchdog_pass_length: "length (snd (watchdog_pass now ns)) = length ns"
  by (induction now ns rule: watchdog_pass.induct) (auto split: prod.splits watch_action.splits)

text \<open>
  The watchdog acts on nothing that a planned node policy can say: whatever value the node
  defaults give for on_timeout, the canonical spelling that planning makes of it is one on which a
  pass only reports - an overdue node is marked unhealthy, but its graph is not stopped and it is
  not restarted.
\<close>

theorem watchdog_ignores_canonical_policy:
  assumes "policy_alias v = Inr (PStr s)" and "overdue now n"
  shows "watch_node now (n\<lparr>wd_on_timeout := s\<rparr>) =
    (Nothing, n\<lparr>wd_on_timeout := s, wd_triggered := True,
       wd_tracker := tracker_error (''health timeout after '' @ int_str (wd_timeout_ns n div 1000000) @ '' ms'') (wd_tracker n)\<rparr>)"
proof -
  from policy_alias_canonical [OF assms(1)] have "s \<noteq> ''stop_pipeline''" "s \<noteq> ''restart''" by simp_all
  moreover have "overdue now (n\<lparr>wd_on_timeout := s\<rparr>)" using assms(2) by (simp add: overdue_def Let_def split: option.splits)
  ultimately show ?thesis by (simp add: watch_node_def Let_def)
qed

lemma watchdog_ignores_canonical_policy_witness:
  "policy_alias (PStr ''stop_pipeline'') = Inr (PStr ''stop_execution'') \<and>
   (\<exists>n. overdue 100 n \<and> wd_timeout_ns n = 10 \<and> fst (watch_node 100 (n\<lparr>wd_on_timeout := ''stop_execution''\<rparr>)) = Nothing)"
proof -
  let ?n = "\<lparr>wd_timeout_ns = 10, wd_on_timeout = [], wd_isolated = False, wd_triggered = False,
    wd_tracker = message_started 5 (transition 1 RUNNING None None (new_tracker 0))\<rparr>"
  have al: "policy_alias (PStr ''stop_pipeline'') = Inr (PStr ''stop_execution'')" by code_simp
  moreover have "overdue 100 ?n" by code_simp
  ultimately show ?thesis
    using watchdog_ignores_canonical_policy [OF al, of 100 ?n] by (intro conjI exI [of _ ?n]) simp_all
qed

end
