(* ===== verification/Json_Values.thy ===== *)
theory Json_Values
  imports Prelude
begin

text \<open>
  JSON documents as the persistent run records use them: what \<open>json.dumps(..., allow_nan=False)\<close>
  accepts, the strict normalisation of details (\<open>_json_value\<close> of run_status.py and run_record.py),
  Python's equality of such values, and the validation of time stamps.

  Enum, datetime and Path values, which the normalisation converts, do not occur among the modelled
  values.  A document that was written and read again is the document itself: JSON text is not
  modelled, and neither is the order of the keys in it.
\<close>

section \<open>Recursion over values\<close>

lemma size_pdict_value [termination_simp]: "(k, v) \<in> set d \<Longrightarrow> size v < Suc (size_list (\<lambda>x. Suc (size (fst x) + size (snd x))) d)"
  by (induction d) auto

lemma size_pdict_value' [termination_simp]: "(k, v) \<in> set d \<Longrightarrow> size v < Suc (size_list (size_prod size size) d)"
  by (induction d) auto

lemma size_plist_item [termination_simp]: "v \<in> set xs \<Longrightarrow> size v < Suc (size_list size xs)"
  by (induction xs) auto

lemma size_zip_left [termination_simp]: "(v, w) \<in> set (zip xs ys) \<Longrightarrow> size v < Suc (size_list size xs)"
  using size_plist_item set_zip_leftD by metis

lemma size_zip_right [termination_simp]: "(v, w) \<in> set (zip xs ys) \<Longrightarrow> size w < Suc (size_list size ys)"
  using size_plist_item set_zip_rightD by metis

section \<open>What can be written\<close>

definition finite_float :: "pyfloat \<Rightarrow> bool" where
  "finite_float f = (case f of Finite q \<Rightarrow> True | _ \<Rightarrow> False)"

definition json_key :: "pyval \<Rightarrow> bool" where
  "json_key k = (case k of PStr s \<Rightarrow> True | PInt n \<Rightarrow> True | PBool b \<Rightarrow> True | PNone \<Rightarrow> True
     | PFloat f \<Rightarrow> finite_float f | _ \<Rightarrow> False)"

text \<open>\<open>sort_keys=True\<close> compares the keys: texts with texts, numbers with numbers.\<close>

definition sortable_keys :: "pyval list \<Rightarrow> bool" where
  "sortable_keys ks =
     (length ks \<le> 1 \<or> list_all is_pstr ks \<or>
      list_all (\<lambda>k. case k of PInt n \<Rightarrow> True | PBool b \<Rightarrow> True | PFloat f \<Rightarrow> True | _ \<Rightarrow> False) ks)"

fun json_writable :: "pyval \<Rightarrow> bool" where
  "json_writable (PFloat f) = finite_float f"
| "json_writable (PList xs) = (\<forall>x \<in> set xs. json_writable x)"
| "json_writable (PTuple xs) = (\<forall>x \<in> set xs. json_writable x)"
| "json_writable (PDict d) =
     (sortable_keys (map fst d) \<and> (\<forall>(k, v) \<in> set d. json_key k \<and> json_writable v))"
| "json_writable (POther t) = False"
| "json_writable _ = True"

section \<open>Strict normalisation\<close>

text \<open>The three messages of a module's \<open>_json_value\<close>.\<close>

record json_messages =
  jm_nonfinite :: string
  jm_keys :: string
  jm_unsupported :: string

fun strict_json :: "json_messages \<Rightarrow> pyval \<Rightarrow> pyval result" where
  "strict_json m (PFloat f) = (if finite_float f then Inr (PFloat f) else Inl (ValueErr (jm_nonfinite m)))"
| "strict_json m (PList xs) = ebind (emap (strict_json m) xs) (\<lambda>ys. Inr (PList ys))"
| "strict_json m (PTuple xs) = ebind (emap (strict_json m) xs) (\<lambda>ys. Inr (PList ys))"
| "strict_json m (PDict d) =
     ebind (emap (\<lambda>(k, v). case k of
         PStr s \<Rightarrow> ebind (strict_json m v) (\<lambda>w. Inr (k, w))
       | _ \<Rightarrow> Inl (TypeErr (jm_keys m))) d) (\<lambda>e. Inr (PDict e))"
| "strict_json m (POther t) = Inl (TypeErr (jm_unsupported m @ '' value '' @ t))"
| "strict_json m v = Inr v"

text \<open>The values it returns.\<close>

fun json_doc :: "pyval \<Rightarrow> bool" where
  "json_doc (PFloat f) = finite_float f"
| "json_doc (PList xs) = (\<forall>x \<in> set xs. json_doc x)"
| "json_doc (PTuple xs) = False"
| "json_doc (PDict d) = (\<forall>(k, v) \<in> set d. is_pstr k \<and> json_doc v)"
| "json_doc (POther t) = False"
| "json_doc _ = True"

lemma is_pstr_iff: "is_pstr k \<longleftrightarrow> (\<exists>s. k = PStr s)"
  by (cases k) auto

lemma json_doc_writable: "json_doc v \<Longrightarrow> json_writable v"
proof (induction v rule: json_doc.induct)
  case (4 d)
  then have "sortable_keys (map fst d)" by (auto simp: sortable_keys_def list_all_iff)
  moreover have "json_key k \<and> json_writable w" if "(k, w) \<in> set d" for k w
    using 4 that by (force simp: is_pstr_iff json_key_def)
  ultimately show ?case by auto
qed auto

lemma strict_json_doc: "strict_json m v = Inr w \<Longrightarrow> json_doc w"
proof (induction v arbitrary: w rule: strict_json.induct)
  case (2 m xs)
  then obtain ys where "emap (strict_json m) xs = Inr ys" "w = PList ys" by (auto simp: result_elims)
  with 2(1) show ?case by (auto dest!: emap_Inr_set)
next
  case (3 m xs)
  then obtain ys where "emap (strict_json m) xs = Inr ys" "w = PList ys" by (auto simp: result_elims)
  with 3(1) show ?case by (auto dest!: emap_Inr_set)
next
  case (4 m d)
  then obtain e where e: "emap (\<lambda>(k, v). case k of
         PStr s \<Rightarrow> ebind (strict_json m v) (\<lambda>w. Inr (k, w))
       | _ \<Rightarrow> Inl (TypeErr (jm_keys m))) d = Inr e" and w: "w = PDict e" by (auto simp: result_elims)
  have "is_pstr k \<and> json_doc x" if "(k, x) \<in> set e" for k x
  proof -
    from emap_Inr_set [OF e that] obtain k0 v0 where kv: "(k0, v0) \<in> set d"
      and r: "(case k0 of PStr s \<Rightarrow> ebind (strict_json m v0) (\<lambda>w. Inr (k0, w))
         | _ \<Rightarrow> Inl (TypeErr (jm_keys m))) = Inr (k, x)" by auto
    from r obtain s where "k0 = PStr s" by (cases k0) auto
    with r 4(1) [OF kv refl] show ?thesis by (auto simp: result_elims)
  qed
  with w show ?case by auto
qed (auto split: if_splits)

text \<open>A normalised value is left alone, so that normalising twice is normalising once.\<close>

lemma emap_id: "(\<And>x. x \<in> set xs \<Longrightarrow> f x = Inr x) \<Longrightarrow> emap f xs = Inr xs"
  using emap_Inr_map [of xs f "\<lambda>x. x"] by simp

lemma strict_json_id: "json_doc v \<Longrightarrow> strict_json m v = Inr v"
proof (induction v rule: json_doc.induct)
  case (2 xs)
  then show ?case by (simp add: emap_id)
next
  case (4 d)
  have "emap (\<lambda>(k, v). case k of
         PStr s \<Rightarrow> ebind (strict_json m v) (\<lambda>w. Inr (k, w))
       | _ \<Rightarrow> Inl (TypeErr (jm_keys m))) d = Inr d"
  proof (rule emap_id)
    fix x assume x: "x \<in> set d"
    obtain k v where kv: "x = (k, v)" by (cases x)
    with 4(2) x obtain s where "k = PStr s" "json_doc v" by (auto simp: is_pstr_iff)
    with 4(1) x kv show "(\<lambda>(k, v). case k of
         PStr s \<Rightarrow> ebind (strict_json m v) (\<lambda>w. Inr (k, w))
       | _ \<Rightarrow> Inl (TypeErr (jm_keys m))) x = Inr x" by auto
  qed
  then show ?case by simp
qed auto

section \<open>Equality of Python values\<close>

text \<open>Booleans, integers and floats are equal when they denote the same number.\<close>

fun number_of_val :: "pyval \<Rightarrow> pyfloat option" where
  "number_of_val (PBool b) = Some (Finite (if b then 1 else 0))"
| "number_of_val (PInt n) = Some (Finite (of_int n))"
| "number_of_val (PFloat f) = Some f"
| "number_of_val _ = None"

text \<open>\<open>a == b\<close> for documents: dictionaries have text keys and are compared as maps.\<close>

fun py_eq :: "pyval \<Rightarrow> pyval \<Rightarrow> bool" where
  "py_eq (PList xs) b = (case b of PList ys \<Rightarrow> length xs = length ys \<and> (\<forall>(x, y) \<in> set (zip xs ys). py_eq x y) | _ \<Rightarrow> False)"
| "py_eq (PTuple xs) b = (case b of PTuple ys \<Rightarrow> length xs = length ys \<and> (\<forall>(x, y) \<in> set (zip xs ys). py_eq x y) | _ \<Rightarrow> False)"
| "py_eq (PDict d) b = (case b of PDict e \<Rightarrow> length d = length e \<and>
     (\<forall>(k, v) \<in> set d. case map_of e k of None \<Rightarrow> False | Some w \<Rightarrow> py_eq v w) | _ \<Rightarrow> False)"
| "py_eq a b = (case (number_of_val a, number_of_val b) of
     (Some x, Some y) \<Rightarrow> x = y \<and> x \<noteq> NaN
   | (None, None) \<Rightarrow> a = b
   | _ \<Rightarrow> False)"

text \<open>A document is equal to itself when its dictionaries have distinct keys.\<close>

fun proper_dicts :: "pyval \<Rightarrow> bool" where
  "proper_dicts (PList xs) = (\<forall>x \<in> set xs. proper_dicts x)"
| "proper_dicts (PTuple xs) = (\<forall>x \<in> set xs. proper_dicts x)"
| "proper_dicts (PDict d) = (distinct (map fst d) \<and> (\<forall>(k, v) \<in> set d. proper_dicts v))"
| "proper_dicts _ = True"

lemma py_eq_refl: "json_doc v \<Longrightarrow> proper_dicts v \<Longrightarrow> py_eq v v"
proof (induction v rule: json_doc.induct)
  case (2 xs)
  then have "py_eq x x" if "x \<in> set xs" for x using that by auto
  then show ?case by (auto simp: set_zip)
next
  case (4 d)
  have "py_eq v v" if kv: "(k, v) \<in> set d" for k v
  proof -
    from 4(2,3) kv have "json_doc v" "proper_dicts v" by auto
    with 4(1) [OF kv refl] show ?thesis .
  qed
  moreover have "map_of d k = Some v" if "(k, v) \<in> set d" for k v using 4(3) that by simp
  ultimately show ?case by auto
qed (auto simp: finite_float_def split: pyfloat.splits)

section \<open>Time stamps\<close>

text \<open>
  What an argument that should be a datetime is: an aware one (microseconds since the epoch), a
  naive one, or no datetime.
\<close>

datatype moment = Aware int | Naive | Not_Datetime

definition aware :: "string \<Rightarrow> moment \<Rightarrow> int result" where
  "aware field m =
     (case m of Aware t \<Rightarrow> Inr t
      | Naive \<Rightarrow> Inl (ValueErr (field @ '' must be timezone-aware''))
      | Not_Datetime \<Rightarrow> Inl (TypeErr (field @ '' must be a datetime'')))"

lemma aware_Inr [result_elims]: "aware field m = Inr t \<longleftrightarrow> m = Aware t"
  by (cases m) (auto simp: aware_def)

text \<open>\<open>_required_text\<close> and \<open>_optional_text\<close>.\<close>

definition required_text :: "string \<Rightarrow> pyval \<Rightarrow> string result" where
  "required_text field v =
     (case v of PStr s \<Rightarrow> if strip s = [] then Inl (ValueErr (field @ '' must be non-empty'')) else Inr (strip s)
      | _ \<Rightarrow> Inl (TypeErr (field @ '' must be a string'')))"

definition optional_text :: "string \<Rightarrow> pyval \<Rightarrow> string option result" where
  "optional_text field v = (if v = PNone then Inr None else ebind (required_text field v) (\<lambda>s. Inr (Some s)))"

end
