(* ===== verification/Canonical_Records.thy ===== *)
theory Canonical_Records
  imports Identity Json_Values "HOL-Library.Char_ord" "HOL-Library.List_Lexorder"
begin

text \<open>
  The canonical records of planning and execution (model/operations.py, model/plans.py,
  model/executions.py, model/runs.py): what is asked for, the plan that resolves it, one execution
  of the plan, and the durable record of a finished execution.

  SHA-256 and the text of a JSON document are parameters of the plan identity.  The properties: a
  RunRecord is complete, and two plans have one identity exactly when their documents agree, up to the
  order of the keys, in everything a plan names.
\<close>

section \<open>Operations and plans\<close>

text \<open>\<open>^[a-z][a-z0-9._-]*$\<close>.\<close>

definition kind_chars :: "string \<Rightarrow> bool" where
  "kind_chars s = (case s of [] \<Rightarrow> False
     | c # cs \<Rightarrow> ascii_lower c \<and> list_all (\<lambda>c. ascii_lower c \<or> ascii_digit c \<or> c \<in> {CHR ''.'', CHR ''_'', CHR ''-''}) cs)"

definition kind_value :: "string \<Rightarrow> pyval \<Rightarrow> string result" where
  "kind_value what v =
     (case v of
        PStr s \<Rightarrow>
          let normalized = lower_str (strip s) in
          if normalized = [] then Inl (ValueErr (what @ '' kind must be non-empty''))
          else if \<not> kind_chars normalized
          then Inl (ValueErr (what @ '' kind must start with a letter and contain only lowercase letters, digits, '' @
                            repr_str ''.'' @ '', '' @ repr_str ''_'' @ '' or '' @ repr_str ''-''))
          else Inr normalized
      | _ \<Rightarrow> Inl (TypeErr (what @ '' kind must be a string'')))"

definition mk_OperationKind :: "pyval \<Rightarrow> string result" where
  "mk_OperationKind v = kind_value ''operation'' v"

definition mk_PlanKind :: "pyval \<Rightarrow> string result" where
  "mk_PlanKind v = kind_value ''plan'' v"

definition system_execution :: string where
  "system_execution = ''system-execution''"

record operation =
  op_kind :: string
  op_subject :: entity_ref
  op_subject_revision :: "revision_ref option"
  op_parameters :: mapping

definition mk_Operation :: "pyval \<Rightarrow> entity_ref \<Rightarrow> revision_ref option \<Rightarrow> mapping \<Rightarrow> operation result" where
  "mk_Operation kind subject revision parameters =
     ebind (mk_OperationKind kind) (\<lambda>k.
     case revision of
       Some r \<Rightarrow> if rv_entity r \<noteq> subject then Inl (ValueErr ''subject_revision must reference the operation subject'')
                 else Inr \<lparr>op_kind = k, op_subject = subject, op_subject_revision = revision, op_parameters = parameters\<rparr>
     | None \<Rightarrow> Inr \<lparr>op_kind = k, op_subject = subject, op_subject_revision = None, op_parameters = parameters\<rparr>)"

text \<open>The revision that an operation pins, if any, is the resolved one.\<close>

definition pins :: "operation \<Rightarrow> revision_ref \<Rightarrow> bool" where
  "pins op r = (case op_subject_revision op of None \<Rightarrow> True | Some p \<Rightarrow> p = r)"

record 'a plan_record =
  pr_plan_id :: string
  pr_kind :: string
  pr_operation :: operation
  pr_subject_revision :: revision_ref
  pr_payload :: 'a
  pr_metadata :: mapping

definition mk_PlanRecord :: "pyval \<Rightarrow> pyval \<Rightarrow> operation \<Rightarrow> revision_ref \<Rightarrow> 'a \<Rightarrow> mapping \<Rightarrow> 'a plan_record result" where
  "mk_PlanRecord plan_id kind op revision payload metadata =
     ebind (required_text ''plan_id'' plan_id) (\<lambda>i.
     ebind (mk_PlanKind kind) (\<lambda>k.
     if rv_entity revision \<noteq> op_subject op
     then Inl (ValueErr ''subject_revision must reference the operation subject'')
     else if \<not> pins op revision
     then Inl (ValueErr ''plan subject revision must match the revision pinned by the operation'')
     else Inr \<lparr>pr_plan_id = i, pr_kind = k, pr_operation = op, pr_subject_revision = revision,
               pr_payload = payload, pr_metadata = metadata\<rparr>))"

section \<open>The identity of a plan\<close>

text \<open>\<open>_identity_value\<close>: references, which it prints, do not occur among the values.\<close>

fun identity_value :: "string \<Rightarrow> pyval \<Rightarrow> pyval result" where
  "identity_value path (PList xs) =
     ebind (emap (\<lambda>(i, x). identity_value (path @ ''['' @ nat_digits i @ '']'') x) (zip [0..<length xs] xs)) (\<lambda>ys. Inr (PList ys))"
| "identity_value path (PTuple xs) =
     ebind (emap (\<lambda>(i, x). identity_value (path @ ''['' @ nat_digits i @ '']'') x) (zip [0..<length xs] xs)) (\<lambda>ys. Inr (PList ys))"
| "identity_value path (PDict d) =
     ebind (emap (\<lambda>(k, v). case k of
         PStr s \<Rightarrow> ebind (identity_value (path @ ''.'' @ s) v) (\<lambda>w. Inr (k, w))
       | _ \<Rightarrow> Inl (TypeErr (path @ '' keys must be strings''))) d) (\<lambda>e. Inr (PDict e))"
| "identity_value path (POther t) = Inl (TypeErr (path @ '' contains unsupported canonical identity value '' @ t))"
| "identity_value path v = Inr v"

definition sha_text :: "string \<Rightarrow> bool" where
  "sha_text s = (length s = 64 \<and> list_all hex_char s)"

definition identity_document :: "string \<Rightarrow> operation \<Rightarrow> revision_ref \<Rightarrow> pyval \<Rightarrow> string \<Rightarrow> pyval" where
  "identity_document kind op revision parameters digest =
     PDict [(PStr ''schema'', PStr ''nodrix.plan-identity/v1''), (PStr ''kind'', PStr kind),
       (PStr ''operation'', PDict [(PStr ''kind'', PStr (op_kind op)),
          (PStr ''subject'', PStr (EntityRef_canonical (op_subject op))),
          (PStr ''subject_revision'', (case op_subject_revision op of None \<Rightarrow> PNone | Some r \<Rightarrow> PStr (RevisionRef_canonical r))),
          (PStr ''parameters'', parameters)]),
       (PStr ''subject_revision'', PStr (RevisionRef_canonical revision)), (PStr ''payload_sha256'', PStr digest)]"

definition operation_parameters :: "operation \<Rightarrow> pyval result" where
  "operation_parameters op = identity_value ''operation.parameters'' (PDict (map (\<lambda>(k, v). (PStr k, v)) (op_parameters op)))"

definition plan_document :: "pyval \<Rightarrow> operation \<Rightarrow> revision_ref \<Rightarrow> pyval \<Rightarrow> pyval result" where
  "plan_document kind op revision payload =
     ebind (mk_PlanKind kind) (\<lambda>k.
     if rv_entity revision \<noteq> op_subject op
     then Inl (ValueErr ''subject_revision must reference the operation subject'')
     else if \<not> pins op revision
     then Inl (ValueErr ''subject_revision must match the revision pinned by the operation'')
     else case payload of
       PStr raw \<Rightarrow>
         let digest = lower_str (strip raw) in
         if \<not> sha_text digest then Inl (ValueErr ''payload_sha256 must contain exactly 64 hexadecimal characters'')
         else ebind (operation_parameters op) (\<lambda>params.
           let document = identity_document k op revision params digest in
           if json_writable document then Inr document
           else Inl (ValueErr ''Out of range float values are not JSON compliant''))
     | _ \<Rightarrow> Inl (TypeErr ''payload_sha256 must be a string''))"

text \<open>\<open>sort_keys=True\<close>: the keys of every mapping in the order of their texts.  The keys of an identity
  document are texts; \<open>sorting_key\<close> of another key does not matter.\<close>

definition sorting_key :: "pyval \<Rightarrow> string" where
  "sorting_key k = (case k of PStr s \<Rightarrow> s | _ \<Rightarrow> [])"

fun sort_keys :: "pyval \<Rightarrow> pyval" where
  "sort_keys (PList xs) = PList (map sort_keys xs)"
| "sort_keys (PTuple xs) = PTuple (map sort_keys xs)"
| "sort_keys (PDict d) = PDict (sort_key (\<lambda>(k, v). sorting_key k) (map (\<lambda>(k, v). (k, sort_keys v)) d))"
| "sort_keys v = v"

text \<open>\<open>json_text\<close> is the text \<open>json.dumps\<close> gives a document whose keys are in order.\<close>

definition canonical_plan_id ::
    "(string \<Rightarrow> string) \<Rightarrow> (pyval \<Rightarrow> string) \<Rightarrow> pyval \<Rightarrow> operation \<Rightarrow> revision_ref \<Rightarrow> pyval \<Rightarrow> string result" where
  "canonical_plan_id sha256 json_text kind op revision payload =
     ebind (plan_document kind op revision payload) (\<lambda>document. Inr (''plan-'' @ sha256 (json_text (sort_keys document))))"

section \<open>Executions\<close>

datatype record_state =
    RS_CREATED | RS_PREPARED | RS_RUNNING | RS_STOPPING | RS_STOPPED | RS_COMPLETED | RS_FAILED | RS_CANCELLED

definition record_state_value :: "record_state \<Rightarrow> string" where
  "record_state_value s = (case s of RS_CREATED \<Rightarrow> ''created'' | RS_PREPARED \<Rightarrow> ''prepared'' | RS_RUNNING \<Rightarrow> ''running''
     | RS_STOPPING \<Rightarrow> ''stopping'' | RS_STOPPED \<Rightarrow> ''stopped'' | RS_COMPLETED \<Rightarrow> ''completed''
     | RS_FAILED \<Rightarrow> ''failed'' | RS_CANCELLED \<Rightarrow> ''cancelled'')"

definition record_states :: "record_state list" where
  "record_states = [RS_CREATED, RS_PREPARED, RS_RUNNING, RS_STOPPING, RS_STOPPED, RS_COMPLETED, RS_FAILED, RS_CANCELLED]"

definition parse_state :: "pyval \<Rightarrow> record_state result" where
  "parse_state v =
     (case v of
        PStr s \<Rightarrow>
          let normalized = lower_str (strip s) in
          if normalized = [] then Inl (ValueErr ''execution state must be non-empty'')
          else (case find (\<lambda>x. record_state_value x = normalized) record_states of
                  Some x \<Rightarrow> Inr x
                | None \<Rightarrow> Inl (ValueErr (''unsupported execution state '' @ repr_str s @ ''; expected one of: '' @
                            join_on '', '' (map record_state_value record_states))))
      | _ \<Rightarrow> Inl (TypeErr ''execution state must be a string''))"

definition record_terminal :: "record_state \<Rightarrow> bool" where
  "record_terminal s = (s \<in> {RS_STOPPED, RS_COMPLETED, RS_FAILED, RS_CANCELLED})"

definition record_successful :: "record_state \<Rightarrow> bool" where
  "record_successful s = (s \<in> {RS_STOPPED, RS_COMPLETED})"

lemma parse_state_value [simp]: "parse_state (PStr (record_state_value s)) = Inr s"
  by (cases s) (simp_all add: parse_state_def record_state_value_def record_states_def Let_def strip_def strip_by_def
      is_space_def lower_str_def lower_char_def is_upper_def)

record 'a execution_record =
  xr_execution_id :: string
  xr_plan :: "'a plan_record"
  xr_executor :: string
  xr_state :: record_state
  xr_started_at :: "int option"
  xr_finished_at :: "int option"
  xr_details :: mapping

definition optional_aware :: "string \<Rightarrow> moment option \<Rightarrow> int option result" where
  "optional_aware field m = (case m of None \<Rightarrow> Inr None | Some t \<Rightarrow> ebind (aware field t) (\<lambda>t. Inr (Some t)))"

definition check_times :: "int option \<Rightarrow> int option \<Rightarrow> unit result" where
  "check_times started finished =
     (case finished of
        None \<Rightarrow> Inr ()
      | Some u \<Rightarrow> (case started of
          None \<Rightarrow> Inl (ValueErr ''finished_at requires started_at'')
        | Some t \<Rightarrow> if u < t then Inl (ValueErr ''finished_at cannot be earlier than started_at'') else Inr ()))"

definition mk_ExecutionRecord ::
    "pyval \<Rightarrow> 'a plan_record \<Rightarrow> pyval \<Rightarrow> pyval \<Rightarrow> moment option \<Rightarrow> moment option \<Rightarrow> mapping \<Rightarrow> 'a execution_record result" where
  "mk_ExecutionRecord execution_id plan executor state started finished details =
     ebind (required_text ''execution_id'' execution_id) (\<lambda>i.
     ebind (required_text ''executor'' executor) (\<lambda>x.
     ebind (parse_state state) (\<lambda>s.
     ebind (optional_aware ''started_at'' started) (\<lambda>a.
     ebind (optional_aware ''finished_at'' finished) (\<lambda>b.
     ebind (check_times a b) (\<lambda>_.
       Inr \<lparr>xr_execution_id = i, xr_plan = plan, xr_executor = x, xr_state = s, xr_started_at = a,
            xr_finished_at = b, xr_details = details\<rparr>))))))"

section \<open>Runs\<close>

record 'a run_record =
  rr_run_id :: string
  rr_execution :: "'a execution_record"
  rr_summary :: mapping
  rr_run_metadata :: mapping

definition mk_RunRecord :: "pyval \<Rightarrow> 'a execution_record \<Rightarrow> mapping \<Rightarrow> mapping \<Rightarrow> 'a run_record result" where
  "mk_RunRecord run_id execution summary metadata =
     ebind (required_text ''run_id'' run_id) (\<lambda>i.
     if \<not> record_terminal (xr_state execution) then Inl (ValueErr ''RunRecord requires a terminal ExecutionRecord'')
     else if xr_started_at execution = None then Inl (ValueErr ''RunRecord requires execution.started_at'')
     else if xr_finished_at execution = None then Inl (ValueErr ''RunRecord requires execution.finished_at'')
     else Inr \<lparr>rr_run_id = i, rr_execution = execution, rr_summary = summary, rr_run_metadata = metadata\<rparr>)"

definition record_run :: "'a execution_record \<Rightarrow> pyval \<Rightarrow> mapping option \<Rightarrow> mapping option \<Rightarrow> 'a run_record result" where
  "record_run execution run_id summary metadata =
     mk_RunRecord run_id execution (case summary of None \<Rightarrow> [] | Some m \<Rightarrow> m) (case metadata of None \<Rightarrow> [] | Some m \<Rightarrow> m)"

section \<open>Lemmas\<close>

lemma required_text_Inr [result_elims]:
  "required_text field v = Inr s \<longleftrightarrow> (\<exists>t. v = PStr t \<and> strip t \<noteq> [] \<and> s = strip t)"
  by (auto simp: required_text_def split: pyval.splits)

lemma optional_aware_Inr [result_elims]: "optional_aware field m = Inr t \<longleftrightarrow> m = map_option Aware t"
  by (cases m; cases t) (auto simp: optional_aware_def result_elims)

lemma check_times_Inr: "check_times a b = Inr u \<longleftrightarrow> (\<forall>y. b = Some y \<longrightarrow> (\<exists>x. a = Some x \<and> x \<le> y))"
  by (auto simp: check_times_def split: option.split)

lemma mk_ExecutionRecord_Inr:
  "mk_ExecutionRecord i plan x s a b details = Inr r \<Longrightarrow>
     parse_state s = Inr (xr_state r) \<and> a = map_option Aware (xr_started_at r) \<and> b = map_option Aware (xr_finished_at r) \<and>
     xr_plan r = plan \<and> xr_details r = details \<and>
     (\<forall>u. xr_finished_at r = Some u \<longrightarrow> (\<exists>t. xr_started_at r = Some t \<and> t \<le> u))"
  by (auto simp: mk_ExecutionRecord_def result_elims check_times_Inr)

lemma mk_RunRecord_Inr:
  "mk_RunRecord i e summary metadata = Inr r \<Longrightarrow>
     rr_execution r = e \<and> record_terminal (xr_state e) \<and> xr_started_at e \<noteq> None \<and> xr_finished_at e \<noteq> None"
  by (auto simp: mk_RunRecord_def result_elims split: if_splits)

text \<open>Sorting the keys of a mapping keeps what is under each key.\<close>

definition entry :: "string \<Rightarrow> pyval \<Rightarrow> pyval option" where
  "entry k v = (case v of PDict d \<Rightarrow> map_of d (PStr k) | _ \<Rightarrow> None)"

lemma entry_PDict: "entry k (PDict d) = map_of d (PStr k)"
  by (simp add: entry_def)

lemma map_of_sort_key: "distinct (map fst d) \<Longrightarrow> map_of (sort_key f d) = map_of d"
  by (rule map_of_inject_set [THEN iffD2]) (simp_all add: distinct_map)

lemma entry_sort_keys:
  assumes "distinct (map fst d)"
  shows "entry k (sort_keys (PDict d)) = map_option sort_keys (entry k (PDict d))"
proof -
  let ?e = "map (\<lambda>(k, v). (k, sort_keys v)) d"
  have "map fst ?e = map fst d" by (induction d) auto
  with assms have "distinct (map fst ?e)" by argo
  then have "map_of (sort_key (\<lambda>(k, v). sorting_key k) ?e) (PStr k) = map_of ?e (PStr k)" by (simp only: map_of_sort_key)
  then show ?thesis by (simp add: entry_def map_of_map)
qed

text \<open>The entries of an identity document, and of the operation in it.\<close>

lemma identity_entries:
  assumes x: "x = sort_keys (identity_document k op r ps d)"
  shows "entry ''kind'' x = Some (PStr k)"
    and "entry ''subject_revision'' x = Some (PStr (RevisionRef_canonical r))"
    and "entry ''payload_sha256'' x = Some (PStr d)"
    and "map_option (entry ''kind'') (entry ''operation'' x) = Some (Some (PStr (op_kind op)))"
    and "map_option (entry ''subject_revision'') (entry ''operation'' x) =
      Some (Some (case op_subject_revision op of None \<Rightarrow> PNone | Some r \<Rightarrow> PStr (RevisionRef_canonical r)))"
    and "map_option (entry ''parameters'') (entry ''operation'' x) = Some (Some (sort_keys ps))"
  unfolding x identity_document_def
  by (simp_all add: entry_sort_keys entry_PDict del: sort_keys.simps(3) split: option.split)

text \<open>The document determines the kind, the operation, the resolved revision and the payload.\<close>

lemma identity_document_inject:
  assumes doc: "sort_keys (identity_document k op r ps d) = sort_keys (identity_document k' op' r' ps' d')"
    and pr: "printable_revision r" "printable_revision r'"
    and rev: "rv_entity r = op_subject op" "rv_entity r' = op_subject op'"
    and pin: "pins op r" "pins op' r'"
  shows "k = k' \<and> op_kind op = op_kind op' \<and> op_subject op = op_subject op' \<and>
    op_subject_revision op = op_subject_revision op' \<and> r = r' \<and> sort_keys ps = sort_keys ps' \<and> d = d'"
proof -
  let ?pin = "\<lambda>op. case op_subject_revision op of None \<Rightarrow> PNone | Some r \<Rightarrow> PStr (RevisionRef_canonical r)"
  have eqs: "k = k'" "op_kind op = op_kind op'" "?pin op = ?pin op'" "sort_keys ps = sort_keys ps'" "d = d'"
    and text_eq: "PStr (RevisionRef_canonical r) = PStr (RevisionRef_canonical r')"
    using identity_entries [OF refl, of k op r ps d] identity_entries [OF doc] by simp_all
  have some: "op_subject_revision op = None \<longleftrightarrow> op_subject_revision op' = None"
    using eqs(3) by (cases "op_subject_revision op"; cases "op_subject_revision op'") simp_all
  note rest = eqs(1,2,4,5)
  have "RevisionRef_parse (PStr (RevisionRef_canonical r)) = RevisionRef_parse (PStr (RevisionRef_canonical r'))"
    using arg_cong [OF text_eq] .
  then have "r = r'" unfolding RevisionRef_parse_canonical [OF pr(1)] RevisionRef_parse_canonical [OF pr(2)] by (rule sum.inject(2) [THEN iffD1])
  with rest some rev pin show ?thesis by (auto simp: pins_def split: option.splits)
qed

lemma plan_document_Inr:
  assumes "plan_document kind op r payload = Inr x"
  shows "\<exists>k ps raw. mk_PlanKind kind = Inr k \<and> payload = PStr raw \<and> rv_entity r = op_subject op \<and>
       pins op r \<and> operation_parameters op = Inr ps \<and>
       x = identity_document k op r ps (lower_str (strip raw))"
proof -
  from assms obtain k where k: "mk_PlanKind kind = Inr k" by (auto simp: plan_document_def result_elims)
  from assms k have r: "rv_entity r = op_subject op" "pins op r"
    by (auto simp: plan_document_def split: if_splits)
  from assms k r obtain raw where raw: "payload = PStr raw" by (cases payload) (simp_all add: plan_document_def)
  from assms k r raw obtain ps where "operation_parameters op = Inr ps"
    "x = identity_document k op r ps (lower_str (strip raw))"
    by (auto simp: plan_document_def Let_def result_elims simp del: json_writable.simps split: if_splits)
  with k r raw show ?thesis by blast
qed

text \<open>
  C40: The identity of a plan names what it plans.  Two plans have one identity exactly when they have
  the same kind, operation kind, subject, pinned and resolved revision and payload digest, and their
  parameters normalise to the same document up to the order of the keys - provided that SHA-256 does
  not collide on the two encoded documents and that JSON text determines a document with sorted keys,
  and for revisions whose text is read back as that revision.
\<close>

theorem plan_identity_determines:
  assumes a: "plan_document kind op r payload = Inr x" and b: "plan_document kind' op' r' payload' = Inr y"
    and pr: "printable_revision r" "printable_revision r'"
    and free: "sha256 (json_text (sort_keys x)) = sha256 (json_text (sort_keys y)) \<Longrightarrow>
      json_text (sort_keys x) = json_text (sort_keys y)"
    and reads: "json_text (sort_keys x) = json_text (sort_keys y) \<Longrightarrow> sort_keys x = sort_keys y"
  shows "canonical_plan_id sha256 json_text kind op r payload = canonical_plan_id sha256 json_text kind' op' r' payload' \<longleftrightarrow>
    mk_PlanKind kind = mk_PlanKind kind' \<and> op_kind op = op_kind op' \<and> op_subject op = op_subject op' \<and>
    op_subject_revision op = op_subject_revision op' \<and> r = r' \<and>
    (\<exists>raw raw'. payload = PStr raw \<and> payload' = PStr raw' \<and> lower_str (strip raw) = lower_str (strip raw')) \<and>
    (\<exists>ps ps'. operation_parameters op = Inr ps \<and> operation_parameters op' = Inr ps' \<and> sort_keys ps = sort_keys ps')"
    (is "?same \<longleftrightarrow> ?agree")
proof -
  from plan_document_Inr [OF a] obtain k ps raw where
    x: "mk_PlanKind kind = Inr k" "payload = PStr raw" "rv_entity r = op_subject op" "pins op r"
      "operation_parameters op = Inr ps" "x = identity_document k op r ps (lower_str (strip raw))" by blast
  from plan_document_Inr [OF b] obtain k' ps' raw' where
    y: "mk_PlanKind kind' = Inr k'" "payload' = PStr raw'" "rv_entity r' = op_subject op'" "pins op' r'"
      "operation_parameters op' = Inr ps'" "y = identity_document k' op' r' ps' (lower_str (strip raw'))" by blast
  have "?same \<longleftrightarrow> sha256 (json_text (sort_keys x)) = sha256 (json_text (sort_keys y))"
    by (simp add: canonical_plan_id_def a b del: sort_keys.simps)
  then have same: "?same \<longleftrightarrow> sort_keys x = sort_keys y" using free reads by argo
  have "?agree" if "sort_keys x = sort_keys y"
    using identity_document_inject [OF that [unfolded x(6) y(6)] pr x(3) y(3) x(4) y(4)] x(1,2,5) y(1,2,5) by simp
  moreover have "sort_keys x = sort_keys y" if "?agree"
    using that x y by (simp add: identity_document_def)
  ultimately show ?thesis using same by blast
qed

definition sample_operation :: operation where
  "sample_operation = \<lparr>op_kind = ''system.execute'', op_subject = \<lparr>er_kind = ''system'', er_namespace = ''local'', er_name = ''demo''\<rparr>,
     op_subject_revision = None, op_parameters = [(''rate'', PInt 5), (''mode'', PStr ''fast'')]\<rparr>"

definition sample_revision :: revision_ref where
  "sample_revision = \<lparr>rv_entity = op_subject sample_operation, rv_algorithm = ''v'', rv_digest = ''1a''\<rparr>"

definition sample_digest :: pyval where
  "sample_digest = PStr (concat (replicate 32 ''0F''))"

text \<open>The same plan with its parameters in another order, its digest in capitals and a kind with
  blanks; and a plan with another payload.  The sample encoding is the digest of the payload.\<close>

definition sample_encoding :: "pyval \<Rightarrow> string" where
  "sample_encoding x = (case entry ''payload_sha256'' x of Some (PStr d) \<Rightarrow> d | _ \<Rightarrow> [])"

theorem plan_identity_determines_witness:
  "(let same = canonical_plan_id id sample_encoding (PStr system_execution) sample_operation sample_revision sample_digest;
        op = sample_operation\<lparr>op_parameters := rev (op_parameters sample_operation)\<rparr>
    in canonical_plan_id id sample_encoding (PStr ''System-Execution '') op sample_revision (PStr (concat (replicate 32 ''0f''))) = same \<and>
       canonical_plan_id id sample_encoding (PStr system_execution) sample_operation sample_revision
         (PStr (concat (replicate 32 ''0e''))) \<noteq> same)"
proof -
  let ?op = "sample_operation\<lparr>op_parameters := rev (op_parameters sample_operation)\<rparr>"
  let ?p = "plan_document (PStr system_execution) sample_operation sample_revision sample_digest"
  let ?q = "plan_document (PStr ''System-Execution '') ?op sample_revision (PStr (concat (replicate 32 ''0f'')))"
  let ?n = "plan_document (PStr system_execution) sample_operation sample_revision (PStr (concat (replicate 32 ''0e'')))"
  have "case ?p of Inl _ \<Rightarrow> False | Inr x \<Rightarrow> (case ?q of Inl _ \<Rightarrow> False | Inr y \<Rightarrow>
      (case ?n of Inl _ \<Rightarrow> False | Inr z \<Rightarrow> sort_keys y = sort_keys x \<and>
         sample_encoding (sort_keys z) \<noteq> sample_encoding (sort_keys x)))" by code_simp
  then obtain x y z where docs: "?p = Inr x" "?q = Inr y" "?n = Inr z" and sorted: "sort_keys y = sort_keys x"
    and other: "sample_encoding (sort_keys z) \<noteq> sample_encoding (sort_keys x)" by (auto split: sum.splits)
  have pr: "printable_revision sample_revision" by code_simp
  have params: "case operation_parameters ?op of Inl _ \<Rightarrow> False | Inr ps \<Rightarrow>
      (case operation_parameters sample_operation of Inl _ \<Rightarrow> False | Inr ps' \<Rightarrow> sort_keys ps = sort_keys ps')" by code_simp
  have kind: "mk_PlanKind (PStr ''System-Execution '') = mk_PlanKind (PStr system_execution)" by code_simp
  have digest: "lower_str (strip (concat (replicate 32 ''0f''))) = lower_str (strip (concat (replicate 32 ''0F'')))"
    and differ: "lower_str (strip (concat (replicate 32 ''0e''))) \<noteq> lower_str (strip (concat (replicate 32 ''0F'')))" by code_simp+
  have "canonical_plan_id id sample_encoding (PStr ''System-Execution '') ?op sample_revision (PStr (concat (replicate 32 ''0f''))) =
      canonical_plan_id id sample_encoding (PStr system_execution) sample_operation sample_revision sample_digest"
    by (rule plan_identity_determines [OF docs(2,1) pr pr, THEN iffD2])
       (use sorted kind params digest in \<open>auto simp: sample_digest_def split: sum.splits\<close>)
  moreover have "canonical_plan_id id sample_encoding (PStr system_execution) sample_operation sample_revision
         (PStr (concat (replicate 32 ''0e''))) \<noteq>
      canonical_plan_id id sample_encoding (PStr system_execution) sample_operation sample_revision sample_digest"
    by (subst plan_identity_determines [OF docs(3,1) pr pr]) (use other differ in \<open>auto simp: sample_digest_def\<close>)
  ultimately show ?thesis unfolding Let_def by blast
qed

end
