(* ===== verification/Durable_Store.thy ===== *)
theory Durable_Store
  imports Json_Values "HOL-Library.Sublist"
begin

text \<open>
  What the files of a persistent Run have in common: what one JSON file holds, the time stamps in
  it, and histories of calls in which the process may end at any point and a new one opens the
  file again.

  The interfaces: a durable store has an invariant that every call keeps and in which opening the
  file again finds the writer's state; an append-only store moreover never changes what it holds;
  a write-once store is an append-only store of at most one entry.
\<close>

section \<open>Files and time stamps\<close>

datatype json_file = Absent | Not_A_Document_File | Invalid_Json | Json pyval

text \<open>
  How a datetime prints, what \<open>datetime.fromisoformat\<close> makes of a text (whose final Z has been
  replaced), and the compact form in run identifiers.
\<close>

record time_text =
  tt_print :: "int \<Rightarrow> string"
  tt_parse :: "string \<Rightarrow> moment option"
  tt_compact :: "int \<Rightarrow> string"

text \<open>A text that \<open>_required_text\<close> accepts as it is.\<close>

definition plain_text :: "string \<Rightarrow> bool" where
  "plain_text s = (s \<noteq> [] \<and> strip s = s)"

lemma required_text_plain [simp]: "plain_text s \<Longrightarrow> required_text field (PStr s) = Inr s"
  by (simp add: plain_text_def required_text_def)

lemma required_text_is_plain: "required_text field v = Inr s \<Longrightarrow> plain_text s"
  by (auto simp: required_text_def plain_text_def split: pyval.splits if_splits)

lemma plain_text_chars: "s \<noteq> [] \<Longrightarrow> (\<And>c. c \<in> set s \<Longrightarrow> \<not> is_space c) \<Longrightarrow> plain_text s"
  by (simp add: plain_text_def strip_id)

lemma plain_text_append:
  assumes x: "x \<noteq> []" "\<And>c. c \<in> set x \<Longrightarrow> \<not> is_space c" and y: "plain_text y"
  shows "plain_text (x @ y)"
proof -
  from x have "dropWhile is_space (x @ y) = x @ y" by (cases x) auto
  moreover have "\<not> is_space (last y)" using strip_by_ends [of is_space y] y by (auto simp: plain_text_def strip_def)
  then have "dropWhile is_space (rev (x @ y)) = rev (x @ y)"
    using y by (cases y rule: rev_cases) (auto simp: plain_text_def)
  ultimately show ?thesis using x by (simp add: plain_text_def strip_def strip_by_def)
qed

definition honest_times :: "time_text \<Rightarrow> bool" where
  "honest_times tt \<longleftrightarrow> (\<forall>t. tt_parse tt (tt_print tt t) = Some (Aware t) \<and> plain_text (tt_print tt t) \<and>
     tt_compact tt t \<noteq> [] \<and> list_all ascii_alnum (tt_compact tt t) \<and> length (tt_compact tt t) \<le> 100)"

definition persisted_timestamp :: "(string \<Rightarrow> py_error) \<Rightarrow> time_text \<Rightarrow> string \<Rightarrow> pyval \<Rightarrow> int result" where
  "persisted_timestamp corrupt tt field v =
     (case v of
        PStr s \<Rightarrow> (case tt_parse tt s of
            Some (Aware t) \<Rightarrow> Inr t
          | Some Naive \<Rightarrow> Inl (corrupt (field @ '' must be timezone-aware''))
          | _ \<Rightarrow> Inl (corrupt (field @ '' is invalid'')))
      | _ \<Rightarrow> Inl (corrupt (field @ '' must be a string'')))"

lemma persisted_timestamp_print [simp]:
  "honest_times tt \<Longrightarrow> persisted_timestamp corrupt tt field (PStr (tt_print tt t)) = Inr t"
  by (simp add: persisted_timestamp_def honest_times_def)

lemma honest_print [simp]: "honest_times tt \<Longrightarrow> plain_text (tt_print tt t)"
  by (simp add: honest_times_def)

lemma honest_parse [simp]: "honest_times tt \<Longrightarrow> tt_parse tt (tt_print tt t) = Some (Aware t)"
  by (simp add: honest_times_def)

text \<open>A notation of times that reads back: the number in unary after its sign.\<close>

definition unary_times :: time_text where
  "unary_times =
     \<lparr>tt_print = (\<lambda>t. (if t < 0 then CHR ''m'' else CHR ''p'') # replicate (nat (abs t)) (CHR ''1'')),
      tt_parse = (\<lambda>s. case s of [] \<Rightarrow> None | c # cs \<Rightarrow>
        Some (Aware (if c = CHR ''m'' then - int (length cs) else int (length cs)))),
      tt_compact = (\<lambda>t. CHR ''T'' # replicate (nat (min 20 (abs t))) (CHR ''1''))\<rparr>"

lemma unary_times_honest: "honest_times unary_times"
proof -
  have "plain_text ((if t < 0 then CHR ''m'' else CHR ''p'') # replicate (nat (abs t)) (CHR ''1''))" for t :: int
    by (rule plain_text_chars) (auto simp: is_space_def split: if_splits)
  moreover have "nat (min 20 (abs t)) \<le> 99" for t :: int by simp
  ultimately show ?thesis
    by (simp add: honest_times_def unary_times_def list_all_iff ascii_alnum_def ascii_digit_def ascii_lower_def)
qed

section \<open>Histories\<close>

text \<open>A history is a list of calls; \<open>None\<close> is a crash after which a new process opens the store.\<close>

fun store_history :: "('c \<Rightarrow> 's \<Rightarrow> 's) \<Rightarrow> ('s \<Rightarrow> 's result) \<Rightarrow> 'c option list \<Rightarrow> 's \<Rightarrow> 's result" where
  "store_history perform reopen [] s = Inr s"
| "store_history perform reopen (Some c # cs) s = store_history perform reopen cs (perform c s)"
| "store_history perform reopen (None # cs) s = ebind (reopen s) (store_history perform reopen cs)"

definition calls_fine :: "('c \<Rightarrow> bool) \<Rightarrow> 'c option list \<Rightarrow> bool" where
  "calls_fine fine cs = list_all (\<lambda>c. case c of None \<Rightarrow> True | Some c \<Rightarrow> fine c) cs"

lemma calls_fine_simps [simp]:
  "calls_fine fine []"
  "calls_fine fine (None # cs) = calls_fine fine cs"
  "calls_fine fine (Some c # cs) = (fine c \<and> calls_fine fine cs)"
  by (simp_all add: calls_fine_def)

section \<open>Interfaces\<close>

locale durable_store =
  fixes perform :: "'c \<Rightarrow> 's \<Rightarrow> 's"
    and reopen :: "'s \<Rightarrow> 's result"
    and ok :: "'s \<Rightarrow> bool"
    and fine :: "'c \<Rightarrow> bool"
  assumes perform_ok: "ok s \<Longrightarrow> fine c \<Longrightarrow> ok (perform c s)"
    and reopen_ok: "ok s \<Longrightarrow> reopen s = Inr s"
begin

lemma history_ok:
  "ok s \<Longrightarrow> calls_fine fine cs \<Longrightarrow> \<exists>t. store_history perform reopen cs s = Inr t \<and> ok t"
proof (induction cs arbitrary: s)
  case (Cons c cs)
  then show ?case by (cases c) (simp_all add: perform_ok reopen_ok)
qed simp

text \<open>Crashes leave no trace.\<close>

lemma crashes_unobservable:
  "ok s \<Longrightarrow> calls_fine fine cs \<Longrightarrow>
     store_history perform reopen cs s = store_history perform reopen (filter (\<lambda>c. c \<noteq> None) cs) s"
proof (induction cs arbitrary: s)
  case (Cons c cs)
  then show ?case by (cases c) (simp_all add: perform_ok reopen_ok)
qed simp

lemma history_preserves:
  assumes "ok s" and "calls_fine fine cs" and "store_history perform reopen cs s = Inr t" and "P s"
    and "\<And>s c. ok s \<Longrightarrow> fine c \<Longrightarrow> P s \<Longrightarrow> P (perform c s)"
  shows "P t"
  using assms(1-4)
proof (induction cs arbitrary: s)
  case (Cons c cs)
  show ?case
  proof (cases c)
    case None
    with Cons show ?thesis by (simp add: reopen_ok)
  next
    case (Some a)
    with Cons.prems have "ok (perform a s)" "P (perform a s)" by (simp_all add: perform_ok assms(5))
    with Cons Some show ?thesis by simp
  qed
qed simp

end

locale append_only = durable_store perform reopen ok fine
  for perform :: "'c \<Rightarrow> 's \<Rightarrow> 's" and reopen ok fine +
  fixes entries :: "'s \<Rightarrow> 'e list"
  assumes grows: "ok s \<Longrightarrow> fine c \<Longrightarrow> prefix (entries s) (entries (perform c s))"
begin

lemma history_grows:
  assumes "ok s" and "calls_fine fine cs" and "store_history perform reopen cs s = Inr t"
  shows "prefix (entries s) (entries t)"
  using history_preserves [OF assms, of "\<lambda>u. prefix (entries s) (entries u)"] grows prefix_order.trans by blast

end

locale write_once = durable_store perform reopen ok fine
  for perform :: "'c \<Rightarrow> 's \<Rightarrow> 's" and reopen ok fine +
  fixes published :: "'s \<Rightarrow> 'e option"
  assumes kept: "ok s \<Longrightarrow> fine c \<Longrightarrow> published s = Some v \<Longrightarrow> published (perform c s) = Some v"

sublocale write_once \<subseteq> once: append_only perform reopen ok fine
  "\<lambda>s. case published s of None \<Rightarrow> [] | Some v \<Rightarrow> [v]"
  by unfold_locales (auto simp: kept split: option.split)

context write_once
begin

lemma history_keeps:
  assumes "ok s" and "calls_fine fine cs" and "store_history perform reopen cs s = Inr t" and "published s = Some v"
  shows "published t = Some v"
  using once.history_grows [OF assms(1-3)] assms(4) by (auto split: option.splits)

end

end
