(* ===== verification/Run_Sessions.thy ===== *)
theory Run_Sessions
  imports Canonical_Records Durable_Store Effects
begin

text \<open>
  The identity and the directory of a persistent Run (run_session.py: RunSession, its document,
  RunStore.create and RunStore.open).

  The root directory of a store is there or not, and is a map from names to run directories, of which
  this module knows the session header, the README and the logs directory.  What the operating system
  refuses, what it leaves of a directory it was told to remove, and what a path resolves to are
  arguments.  The text of the README is not modelled.

  The theorem: creating a Run never touches another one, leaves behind at most the root and what the
  clean-up did not remove when it fails, and what it creates is opened again as the same session in the
  resolved directory.
\<close>

section \<open>Identifiers\<close>

definition id_char :: "char \<Rightarrow> bool" where
  "id_char c = (ascii_alnum c \<or> c \<in> {CHR ''.'', CHR ''_'', CHR ''-''})"

text \<open>\<open>^run_[A-Za-z0-9][A-Za-z0-9._-]{0,127}$\<close>.\<close>

definition run_id_match :: "string \<Rightarrow> bool" where
  "run_id_match s =
     (take 4 s = ''run_'' \<and>
      (case drop 4 s of [] \<Rightarrow> False | c # cs \<Rightarrow> ascii_alnum c \<and> length cs \<le> 127 \<and> list_all id_char cs))"

definition validate_run_id :: "pyval \<Rightarrow> string result" where
  "validate_run_id v =
     (case v of
        PStr s \<Rightarrow>
          if run_id_match (strip s) then Inr (strip s)
          else Inl (ValueErr (''run_id must start with '' @ repr_str ''run_'' @ '' and contain only letters, digits, '' @
                 repr_str ''.'' @ '', '' @ repr_str ''_'' @ '' or '' @ repr_str ''-''))
      | _ \<Rightarrow> Inl (TypeErr ''run_id must be a string''))"

definition validate_token :: "pyval \<Rightarrow> string result" where
  "validate_token v =
     (case v of
        PStr s \<Rightarrow>
          let normalized = lower_str (strip s) in
          if length normalized = 12 \<and> list_all (\<lambda>c. ascii_digit c \<or> c \<in> set ''abcdef'') normalized
          then Inr normalized
          else Inl (ValueErr ''Run ID token must contain exactly 12 hexadecimal characters'')
      | _ \<Rightarrow> Inl (TypeErr ''Run ID token must be a string''))"

definition generate_run_id :: "time_text \<Rightarrow> int \<Rightarrow> pyval \<Rightarrow> string result" where
  "generate_run_id tt created_at token =
     ebind (validate_token token) (\<lambda>t. Inr (''run_'' @ tt_compact tt created_at @ ''_'' @ t))"

section \<open>Sessions\<close>

definition run_layout_v1 :: string where
  "run_layout_v1 = ''nodrix.run-layout/v1''"

definition run_layout :: string where
  "run_layout = ''nodrix.run-layout/v2''"

definition session_schema :: string where
  "session_schema = ''nodrix.run-session/v1''"

record run_session =
  ru_run_id :: string
  ru_created_at :: int
  ru_plan_id :: string
  ru_plan_kind :: string
  ru_operation_kind :: string
  ru_subject :: string
  ru_subject_revision :: string
  ru_directory :: string
  ru_layout :: string

definition mk_RunSession ::
    "pyval \<Rightarrow> moment \<Rightarrow> string \<Rightarrow> string \<Rightarrow> string \<Rightarrow> string \<Rightarrow> string \<Rightarrow> string \<Rightarrow> pyval \<Rightarrow> run_session result" where
  "mk_RunSession run_id created_at plan_id plan_kind operation_kind subject subject_revision directory layout =
     ebind (validate_run_id run_id) (\<lambda>i.
     ebind (aware ''created_at'' created_at) (\<lambda>t.
     ebind (required_text ''layout'' layout) (\<lambda>l.
     if l \<noteq> run_layout_v1 \<and> l \<noteq> run_layout then Inl (ValueErr ''layout is unsupported'')
     else Inr \<lparr>ru_run_id = i, ru_created_at = t, ru_plan_id = plan_id, ru_plan_kind = plan_kind,
               ru_operation_kind = operation_kind, ru_subject = subject, ru_subject_revision = subject_revision,
               ru_directory = directory, ru_layout = l\<rparr>)))"

definition session_document :: "time_text \<Rightarrow> run_session \<Rightarrow> pyval" where
  "session_document tt s =
     PDict [(PStr ''schema'', PStr session_schema), (PStr ''layout'', PStr (ru_layout s)),
       (PStr ''run_id'', PStr (ru_run_id s)), (PStr ''created_at'', PStr (tt_print tt (ru_created_at s))),
       (PStr ''plan'', PDict [(PStr ''id'', PStr (ru_plan_id s)), (PStr ''kind'', PStr (ru_plan_kind s))]),
       (PStr ''operation'', PDict [(PStr ''kind'', PStr (ru_operation_kind s)), (PStr ''subject'', PStr (ru_subject s)),
          (PStr ''subject_revision'', PStr (ru_subject_revision s))]),
       (PStr ''documentation'', PStr ''README.md'')]"

text \<open>\<open>set(mapping) != {...}\<close>.\<close>

definition exact_keys :: "(pyval \<times> pyval) list \<Rightarrow> string list \<Rightarrow> bool" where
  "exact_keys d ks = (set (map fst d) = set (map PStr ks))"

definition session_timestamp :: "time_text \<Rightarrow> string \<Rightarrow> pyval \<Rightarrow> int result" where
  "session_timestamp tt field v =
     ebind (required_text field v) (\<lambda>s.
     case tt_parse tt s of
       Some (Aware t) \<Rightarrow> Inr t
     | Some Naive \<Rightarrow> Inl (ValueErr (field @ '' must be timezone-aware''))
     | _ \<Rightarrow> Inl (ValueErr (field @ '' must be an ISO-8601 timestamp'')))"

definition session_corruption :: "string \<Rightarrow> py_error" where
  "session_corruption msg = NamedErr ''RunSessionCorruptionError'' msg"

text \<open>The body of the \<open>try\<close>: its TypeErrors and ValueErrors become corruption errors.\<close>

definition session_fields :: "time_text \<Rightarrow> string \<Rightarrow> (pyval \<times> pyval) list \<Rightarrow> run_session result" where
  "session_fields tt directory d =
     (if dict_get d ''schema'' \<noteq> PStr session_schema then Inl (ValueErr ''session.schema is unsupported'')
      else ebind (required_text ''session.layout'' (dict_get d ''layout'')) (\<lambda>layout.
        if layout \<noteq> run_layout_v1 \<and> layout \<noteq> run_layout then Inl (ValueErr ''session.layout is unsupported'')
        else ebind (required_text ''session.run_id'' (dict_get d ''run_id'')) (\<lambda>raw_id.
        ebind (validate_run_id (PStr raw_id)) (\<lambda>run_id.
        ebind (session_timestamp tt ''session.created_at'' (dict_get d ''created_at'')) (\<lambda>created_at.
        case dict_get d ''plan'' of
          PDict plan \<Rightarrow>
            if \<not> exact_keys plan [''id'', ''kind''] then Inl (ValueErr ''session.plan has invalid fields'')
            else ebind (required_text ''session.plan.id'' (dict_get plan ''id'')) (\<lambda>plan_id.
              ebind (required_text ''session.plan.kind'' (dict_get plan ''kind'')) (\<lambda>plan_kind.
              case dict_get d ''operation'' of
                PDict op \<Rightarrow>
                  if \<not> exact_keys op [''kind'', ''subject'', ''subject_revision'']
                  then Inl (ValueErr ''session.operation has invalid fields'')
                  else ebind (required_text ''session.operation.kind'' (dict_get op ''kind'')) (\<lambda>operation_kind.
                    ebind (required_text ''session.operation.subject'' (dict_get op ''subject'')) (\<lambda>subject.
                    ebind (required_text ''session.operation.subject_revision'' (dict_get op ''subject_revision'')) (\<lambda>revision.
                    ebind (required_text ''session.documentation'' (dict_get d ''documentation'')) (\<lambda>documentation.
                    if documentation \<noteq> ''README.md''
                    then Inl (ValueErr (''session.documentation must be '' @ repr_str ''README.md''))
                    else Inr \<lparr>ru_run_id = run_id, ru_created_at = created_at, ru_plan_id = plan_id,
                              ru_plan_kind = plan_kind, ru_operation_kind = operation_kind, ru_subject = subject,
                              ru_subject_revision = revision, ru_directory = directory, ru_layout = layout\<rparr>))))
              | _ \<Rightarrow> Inl (TypeErr ''session.operation must be an object'')))
        | _ \<Rightarrow> Inl (TypeErr ''session.plan must be an object''))))))"

text \<open>\<open>resolve\<close> is what \<open>Path.expanduser().resolve()\<close> makes of a path.\<close>

definition session_from_document :: "time_text \<Rightarrow> (string \<Rightarrow> string) \<Rightarrow> string \<Rightarrow> pyval \<Rightarrow> run_session result" where
  "session_from_document tt resolve directory v =
     (case v of
        PDict d \<Rightarrow>
          if \<not> exact_keys d [''schema'', ''layout'', ''run_id'', ''created_at'', ''plan'', ''operation'', ''documentation'']
          then Inl (session_corruption ''session.json has invalid fields'')
          else (case session_fields tt (resolve directory) d of
              Inl e \<Rightarrow> Inl (session_corruption (exc_str e))
            | Inr s \<Rightarrow>
                mk_RunSession (PStr (ru_run_id s)) (Aware (ru_created_at s)) (ru_plan_id s) (ru_plan_kind s)
                  (ru_operation_kind s) (ru_subject s) (ru_subject_revision s) (ru_directory s) (PStr (ru_layout s)))
      | _ \<Rightarrow> Inl (session_corruption ''session.json must contain a JSON object''))"

section \<open>The store\<close>

record run_directory =
  rd_session :: json_file
  rd_readme :: bool
  rd_logs :: bool

record run_store =
  rt_root :: string
  rt_root_exists :: bool
  rt_runs :: "string \<Rightarrow> run_directory option"
  rt_resolve :: "string \<Rightarrow> string"

text \<open>The path of an entry of a directory, \<open>root / name\<close>, and the last part of a path.\<close>

definition path_join :: "string \<Rightarrow> string \<Rightarrow> string" where
  "path_join parent name =
     (if parent = ''.'' then name else if parent = ''/'' then parent @ name else parent @ ''/'' @ name)"

definition path_name :: "string \<Rightarrow> string" where
  "path_name p = rev (takeWhile (\<lambda>c. c \<noteq> CHR ''/'') (rev p))"

text \<open>
  What the operating system does: an error for each directory and file it refuses (with the header
  file it then leaves behind), and what it leaves of a directory that it was told to remove, None when
  all of it is gone.
\<close>

record create_io =
  ci_root :: "string option"
  ci_mkdir :: "string option"
  ci_logs :: "string option"
  ci_session :: "(string \<times> json_file) option"
  ci_readme :: "string option"
  ci_left :: "run_directory option"

definition empty_directory :: run_directory where
  "empty_directory = \<lparr>rd_session = Absent, rd_readme = False, rd_logs = False\<rparr>"

definition file_exists_error :: "run_store \<Rightarrow> string \<Rightarrow> py_error" where
  "file_exists_error st name =
     NamedErr ''FileExistsError'' (''[Errno 17] File exists: '' @ repr_str (path_join (rt_root st) name))"

text \<open>\<open>directory.mkdir(exist_ok=False)\<close>.\<close>

definition make_directory :: "create_io \<Rightarrow> string \<Rightarrow> (run_store, unit) act" where
  "make_directory io name = (\<lambda>st.
     case rt_runs st name of
       Some _ \<Rightarrow> (Inl (file_exists_error st name), st)
     | None \<Rightarrow> (case ci_mkdir io of
         Some e \<Rightarrow> (Inl (OSErr e), st)
       | None \<Rightarrow> (Inr (), st\<lparr>rt_runs := (rt_runs st)(name \<mapsto> empty_directory)\<rparr>)))"

definition is_file_exists :: "py_error \<Rightarrow> bool" where
  "is_file_exists e = (exc_type e = ''FileExistsError'')"

fun allocate_generated :: "time_text \<Rightarrow> create_io \<Rightarrow> int \<Rightarrow> pyval list \<Rightarrow> (run_store, string) act" where
  "allocate_generated tt io created_at [] =
     act_raise (NamedErr ''FileExistsError'' ''cannot allocate a unique Run directory after 8 attempts'')"
| "allocate_generated tt io created_at (token # tokens) =
     act_bind (act_lift (generate_run_id tt created_at token)) (\<lambda>candidate. \<lambda>st.
       case make_directory io candidate st of
         (Inr _, u) \<Rightarrow> (Inr candidate, u)
       | (Inl e, u) \<Rightarrow> if is_file_exists e then allocate_generated tt io created_at tokens u else (Inl e, u))"

text \<open>\<open>self.root.mkdir(parents=True, exist_ok=True)\<close>: a root that is there is left alone.\<close>

definition make_root :: "create_io \<Rightarrow> (run_store, unit) act" where
  "make_root io = (\<lambda>st.
     if rt_root_exists st then (Inr (), st)
     else case ci_root io of
       Some e \<Rightarrow> (Inl (OSErr e), st)
     | None \<Rightarrow> (Inr (), st\<lparr>rt_root_exists := True\<rparr>))"

definition allocate_directory ::
    "time_text \<Rightarrow> create_io \<Rightarrow> (nat \<Rightarrow> pyval) \<Rightarrow> int \<Rightarrow> pyval option \<Rightarrow> (run_store, string) act" where
  "allocate_directory tt io token created_at run_id =
     act_bind (make_root io) (\<lambda>_.
     case run_id of
       Some v \<Rightarrow>
         act_bind (act_lift (validate_run_id v)) (\<lambda>candidate.
         act_bind (make_directory io candidate) (\<lambda>_. act_return candidate))
     | None \<Rightarrow> allocate_generated tt io created_at (map token [0..<8]))"

definition change_directory :: "string \<Rightarrow> (run_directory \<Rightarrow> run_directory) \<Rightarrow> (run_store, unit) act" where
  "change_directory name f = act_modify (\<lambda>st. st\<lparr>rt_runs := (rt_runs st)(name := map_option f (rt_runs st name))\<rparr>)"

text \<open>The body of the \<open>try\<close> of \<open>create\<close>: the files of a fresh directory.\<close>

definition write_session_files :: "time_text \<Rightarrow> create_io \<Rightarrow> string \<Rightarrow> run_session \<Rightarrow> (run_store, unit) act" where
  "write_session_files tt io name s =
     act_bind (case ci_logs io of Some e \<Rightarrow> act_raise (OSErr e) | None \<Rightarrow> change_directory name (\<lambda>d. d\<lparr>rd_logs := True\<rparr>)) (\<lambda>_.
     act_bind (case ci_session io of
         Some (e, left) \<Rightarrow> act_bind (change_directory name (\<lambda>d. d\<lparr>rd_session := left\<rparr>)) (\<lambda>_. act_raise (OSErr e))
       | None \<Rightarrow> change_directory name (\<lambda>d. d\<lparr>rd_session := Json (session_document tt s)\<rparr>)) (\<lambda>_.
     case ci_readme io of
       Some e \<Rightarrow> act_raise (OSErr e)
     | None \<Rightarrow> change_directory name (\<lambda>d. d\<lparr>rd_readme := True\<rparr>)))"

definition remove_directory :: "create_io \<Rightarrow> string \<Rightarrow> (run_store, unit) act" where
  "remove_directory io name =
     act_modify (\<lambda>st. st\<lparr>rt_runs := (rt_runs st)(name := ci_left io)\<rparr>)"

definition run_store_create ::
    "time_text \<Rightarrow> create_io \<Rightarrow> moment \<Rightarrow> (nat \<Rightarrow> pyval) \<Rightarrow> 'a plan_record \<Rightarrow> pyval option \<Rightarrow> (run_store, run_session) act" where
  "run_store_create tt io clock token plan run_id =
     act_bind (act_lift (aware ''clock result'' clock)) (\<lambda>created_at.
     act_bind (allocate_directory tt io token created_at run_id) (\<lambda>name.
     act_bind (\<lambda>st. (mk_RunSession (PStr name) (Aware created_at) (pr_plan_id plan) (pr_kind plan)
         (op_kind (pr_operation plan)) (EntityRef_canonical (op_subject (pr_operation plan)))
         (RevisionRef_canonical (pr_subject_revision plan)) (path_join (rt_root st) name) (PStr run_layout), st)) (\<lambda>s.
     act_bind (act_try (write_session_files tt io name s) (\<lambda>exc.
         act_bind (remove_directory io name) (\<lambda>_. act_raise exc))) (\<lambda>_.
     act_return s))))"

text \<open>The directory is the entry \<open>name\<close> of the root; the session it gives has the resolved path.\<close>

definition load_run_session :: "time_text \<Rightarrow> run_store \<Rightarrow> string \<Rightarrow> run_session result" where
  "load_run_session tt st name =
     (let path = rt_resolve st (path_join (rt_root st) name) in
      case rt_runs st name of
        None \<Rightarrow> Inl (NamedErr ''FileNotFoundError'' (''Run directory does not exist: '' @ path))
      | Some d \<Rightarrow> (case rd_session d of
          Absent \<Rightarrow> Inl (NamedErr ''FileNotFoundError'' (''session.json does not exist: '' @ path_join path ''session.json''))
        | Not_A_Document_File \<Rightarrow> Inl (session_corruption ''session.json exists but is not a file'')
        | Invalid_Json \<Rightarrow> Inl (session_corruption ''session.json contains invalid JSON'')
        | Json v \<Rightarrow>
            ebind (session_from_document tt (rt_resolve st) path v) (\<lambda>s.
              if path_name path \<noteq> ru_run_id s
              then Inl (session_corruption ''Run directory name does not match session.run_id'')
              else Inr s)))"

definition run_store_open :: "time_text \<Rightarrow> run_store \<Rightarrow> pyval \<Rightarrow> run_session result" where
  "run_store_open tt st run_id = ebind (validate_run_id run_id) (load_run_session tt st)"

section \<open>Lemmas\<close>

definition wf_session :: "run_session \<Rightarrow> bool" where
  "wf_session s =
     (run_id_match (ru_run_id s) \<and> list_all plain_text [ru_plan_id s, ru_plan_kind s, ru_operation_kind s, ru_subject s,
        ru_subject_revision s] \<and> ru_layout s \<in> {run_layout_v1, run_layout})"

lemma id_char_not_space: "id_char c \<Longrightarrow> \<not> is_space c"
  by (auto simp: id_char_def ascii_alnum_not_space) (auto simp: is_space_def Let_def)

lemma run_id_match_plain: "run_id_match s \<Longrightarrow> plain_text s"
proof -
  assume m: "run_id_match s"
  then obtain c cs where d: "drop 4 s = c # cs" "ascii_alnum c" "list_all id_char cs" and t: "take 4 s = ''run_''"
    by (auto simp: run_id_match_def split: list.splits)
  then have s: "s = ''run_'' @ c # cs" by (metis append_take_drop_id)
  have "list_all (\<lambda>x. \<not> is_space x) ''run_''" by code_simp
  then have "\<not> is_space x" if "x \<in> set s" for x
    using d(2,3) that unfolding s by (auto simp: list_all_iff ascii_alnum_not_space id_char_not_space)
  then show ?thesis by (intro plain_text_chars) (simp_all add: s)
qed

lemma validate_run_id_match [simp]: "run_id_match s \<Longrightarrow> validate_run_id (PStr s) = Inr s"
  using run_id_match_plain [of s] by (simp add: validate_run_id_def plain_text_def)

lemma validate_run_id_Inr: "validate_run_id v = Inr s \<Longrightarrow> run_id_match s"
  by (auto simp: validate_run_id_def split: pyval.splits if_splits)

lemma layouts_plain: "plain_text run_layout_v1" "plain_text run_layout"
  by code_simp+

lemma mk_RunSession_id:
  "wf_session s \<Longrightarrow> mk_RunSession (PStr (ru_run_id s)) (Aware (ru_created_at s)) (ru_plan_id s) (ru_plan_kind s)
     (ru_operation_kind s) (ru_subject s) (ru_subject_revision s) (ru_directory s) (PStr (ru_layout s)) = Inr s"
  using layouts_plain by (auto simp: mk_RunSession_def wf_session_def aware_def)

text \<open>The document of a session reads back as the session.\<close>

lemma session_roundtrip:
  assumes "wf_session s" and "honest_times tt"
  shows "session_from_document tt resolve directory (session_document tt s) = Inr (s\<lparr>ru_directory := resolve directory\<rparr>)"
proof -
  have readme: "plain_text ''README.md''" by code_simp
  have plain: "plain_text (ru_layout s)" "plain_text (ru_run_id s)"
    using assms(1) layouts_plain run_id_match_plain by (auto simp: wf_session_def)
  define d where "d = [(PStr ''schema'', PStr session_schema), (PStr ''layout'', PStr (ru_layout s)),
       (PStr ''run_id'', PStr (ru_run_id s)), (PStr ''created_at'', PStr (tt_print tt (ru_created_at s))),
       (PStr ''plan'', PDict [(PStr ''id'', PStr (ru_plan_id s)), (PStr ''kind'', PStr (ru_plan_kind s))]),
       (PStr ''operation'', PDict [(PStr ''kind'', PStr (ru_operation_kind s)), (PStr ''subject'', PStr (ru_subject s)),
          (PStr ''subject_revision'', PStr (ru_subject_revision s))]),
       (PStr ''documentation'', PStr ''README.md'')]"
  have get: "dict_get d ''schema'' = PStr session_schema" "dict_get d ''layout'' = PStr (ru_layout s)"
    "dict_get d ''run_id'' = PStr (ru_run_id s)" "dict_get d ''created_at'' = PStr (tt_print tt (ru_created_at s))"
    "dict_get d ''plan'' = PDict [(PStr ''id'', PStr (ru_plan_id s)), (PStr ''kind'', PStr (ru_plan_kind s))]"
    "dict_get d ''operation'' = PDict [(PStr ''kind'', PStr (ru_operation_kind s)), (PStr ''subject'', PStr (ru_subject s)),
          (PStr ''subject_revision'', PStr (ru_subject_revision s))]"
    "dict_get d ''documentation'' = PStr ''README.md''"
    by (simp_all add: d_def dict_get_def)
  have sub: "dict_get [(PStr ''id'', a), (PStr ''kind'', b)] ''id'' = a" "dict_get [(PStr ''id'', a), (PStr ''kind'', b)] ''kind'' = b"
    "dict_get [(PStr ''kind'', a), (PStr ''subject'', b), (PStr ''subject_revision'', c)] ''kind'' = a"
    "dict_get [(PStr ''kind'', a), (PStr ''subject'', b), (PStr ''subject_revision'', c)] ''subject'' = b"
    "dict_get [(PStr ''kind'', a), (PStr ''subject'', b), (PStr ''subject_revision'', c)] ''subject_revision'' = c"
    "exact_keys [(PStr ''id'', a), (PStr ''kind'', b)] [''id'', ''kind'']"
    "exact_keys [(PStr ''kind'', a), (PStr ''subject'', b), (PStr ''subject_revision'', c)] [''kind'', ''subject'', ''subject_revision'']"
    for a b c
    by (simp_all add: dict_get_def exact_keys_def)
  have layout: "\<not> (ru_layout s \<noteq> run_layout_v1 \<and> ru_layout s \<noteq> run_layout)" using assms(1) by (auto simp: wf_session_def)
  have parts: "run_id_match (ru_run_id s)" "plain_text (ru_plan_id s)" "plain_text (ru_plan_kind s)"
    "plain_text (ru_operation_kind s)" "plain_text (ru_subject s)" "plain_text (ru_subject_revision s)"
    using assms(1) by (simp_all add: wf_session_def)
  let ?s = "s\<lparr>ru_directory := resolve directory\<rparr>"
  have "session_fields tt (resolve directory) d = Inr ?s"
    by (simp add: session_fields_def get sub layout parts plain readme session_timestamp_def assms(2) del: de_Morgan_conj)
  moreover have "exact_keys d [''schema'', ''layout'', ''run_id'', ''created_at'', ''plan'', ''operation'', ''documentation'']"
    by (simp add: d_def exact_keys_def)
  moreover have "wf_session ?s" using assms(1) by (simp add: wf_session_def)
  note mk_RunSession_id [OF this]
  ultimately show ?thesis
    by (simp add: session_from_document_def session_document_def flip: d_def)
qed

lemma id_char_alnum: "ascii_alnum c \<Longrightarrow> id_char c"
  by (simp add: id_char_def)

lemma token_char_id:
  assumes "ascii_digit c \<or> c \<in> set ''abcdef''"
  shows "id_char c"
proof (rule id_char_alnum)
  have "list_all ascii_alnum ''abcdef''" by code_simp
  then have "c \<in> set ''abcdef'' \<longrightarrow> ascii_alnum c" unfolding list_all_iff by blast
  with assms show "ascii_alnum c" unfolding ascii_alnum_def by blast
qed

lemma validate_token_Inr:
  assumes "validate_token v = Inr t"
  shows "length t = 12 \<and> list_all id_char t"
proof -
  from assms have t: "length t = 12" "list_all (\<lambda>c. ascii_digit c \<or> c \<in> set ''abcdef'') t"
    unfolding validate_token_def Let_def by (simp_all split: pyval.splits if_splits)
  from t(2) have "list_all id_char t" by (rule list.pred_mono_strong) (rule token_char_id)
  with t(1) show ?thesis ..
qed

lemma generate_run_id_match:
  assumes "honest_times tt" and "generate_run_id tt t token = Inr i"
  shows "run_id_match i"
proof -
  from assms(2) obtain x where x: "validate_token token = Inr x" and i: "i = ''run_'' @ tt_compact tt t @ ''_'' @ x"
    by (auto simp: generate_run_id_def result_elims)
  have "tt_compact tt t \<noteq> [] \<and> list_all ascii_alnum (tt_compact tt t) \<and> length (tt_compact tt t) \<le> 100"
    using assms(1) unfolding honest_times_def by blast
  then obtain c cs where c: "tt_compact tt t = c # cs" "ascii_alnum c" "list_all ascii_alnum cs" "length cs < 100"
    by (cases "tt_compact tt t") auto
  have "id_char (CHR ''_'')" by code_simp
  moreover have "list_all id_char cs" using c(3) by (rule list.pred_mono_strong) (rule id_char_alnum)
  moreover note validate_token_Inr [OF x]
  ultimately have "list_all id_char (cs @ ''_'' @ x)" "length (cs @ ''_'' @ x) \<le> 127" using c(4) by simp_all
  moreover have "take 4 i = ''run_''" "drop 4 i = c # cs @ ''_'' @ x" by (simp_all add: i c(1))
  ultimately show ?thesis using c(2) by (simp add: run_id_match_def)
qed

text \<open>What the allocation does to the store: the root may be new, and it adds one empty directory.\<close>

definition rooted :: "run_store \<Rightarrow> run_store" where
  "rooted st = st\<lparr>rt_root_exists := True\<rparr>"

definition allocated :: "run_store \<Rightarrow> string result \<Rightarrow> run_store \<Rightarrow> bool" where
  "allocated st r u =
     (case r of
        Inl e \<Rightarrow> u = st \<or> u = rooted st
      | Inr name \<Rightarrow> rt_runs st name = None \<and> run_id_match name \<and>
          u = (rooted st)\<lparr>rt_runs := (rt_runs st)(name \<mapsto> empty_directory)\<rparr>)"

lemma rooted_simps [simp]:
  "rt_runs (rooted st) = rt_runs st" "rt_root (rooted st) = rt_root st" "rt_resolve (rooted st) = rt_resolve st"
  "rt_root_exists (rooted st)"
  by (simp_all add: rooted_def)

lemma make_root_effect: "make_root io st = (r, u) \<Longrightarrow> (case r of Inl e \<Rightarrow> u = st | Inr _ \<Rightarrow> u = rooted st)"
  by (cases st) (auto simp: make_root_def rooted_def split: if_splits option.splits)

lemma make_directory_effect:
  "make_directory io name st = (r, u) \<Longrightarrow>
     (case r of Inl e \<Rightarrow> u = st
      | Inr _ \<Rightarrow> rt_runs st name = None \<and> u = st\<lparr>rt_runs := (rt_runs st)(name \<mapsto> empty_directory)\<rparr>)"
  by (auto simp: make_directory_def split: option.splits)

lemma allocate_generated_effect:
  assumes "honest_times tt"
  shows "allocate_generated tt io t tokens (rooted st) = (r, u) \<Longrightarrow> allocated st r u"
proof (induction tokens)
  case Nil
  then show ?case by (auto simp: allocated_def act_simps)
next
  case (Cons token tokens)
  show ?case
  proof (cases "generate_run_id tt t token")
    case (Inl e)
    with Cons.prems have "r = Inl e" "u = rooted st" by (auto simp: act_simps)
    then show ?thesis by (simp add: allocated_def)
  next
    case (Inr name)
    obtain q v where m: "make_directory io name (rooted st) = (q, v)" by (cases "make_directory io name (rooted st)")
    show ?thesis
    proof (cases q)
      case (Inr _)
      with Cons.prems m \<open>generate_run_id tt t token = Inr name\<close> have "r = Inr name" "u = v" by (auto simp: act_simps)
      with Inr make_directory_effect [OF m] generate_run_id_match [OF assms \<open>generate_run_id tt t token = Inr name\<close>]
      show ?thesis by (simp add: allocated_def)
    next
      case err: (Inl e)
      with make_directory_effect [OF m] have "v = rooted st" by simp
      with Cons.prems m Inr err Cons.IH show ?thesis by (auto simp: act_simps allocated_def split: if_splits)
    qed
  qed
qed

lemma allocate_directory_effect:
  assumes "honest_times tt" and "allocate_directory tt io token t run_id st = (r, u)"
  shows "allocated st r u"
proof -
  obtain p w where root: "make_root io st = (p, w)" by (cases "make_root io st")
  note made = make_root_effect [OF root]
  show ?thesis
  proof (cases p)
    case (Inl e)
    with assms(2) root made show ?thesis by (auto simp: allocate_directory_def allocated_def act_simps)
  next
    case (Inr x)
    with made have w: "make_root io st = (Inr x, rooted st)" using root by simp
    show ?thesis
    proof (cases run_id)
      case None
      with assms(2) w have "allocate_generated tt io t (map token [0..<8]) (rooted st) = (r, u)"
        by (simp add: allocate_directory_def act_simps)
      from allocate_generated_effect [OF assms(1) this] show ?thesis .
    next
      case (Some v)
      show ?thesis
      proof (cases "validate_run_id v")
        case (Inl e)
        with assms(2) w Some have "r = Inl e" "u = rooted st" by (auto simp: allocate_directory_def act_simps)
        then show ?thesis by (simp add: allocated_def)
      next
        case (Inr name)
        obtain q z where m: "make_directory io name (rooted st) = (q, z)" by (cases "make_directory io name (rooted st)")
        have "r = (case q of Inl e \<Rightarrow> Inl e | Inr _ \<Rightarrow> Inr name)" "u = z"
          using assms(2) w Some Inr m by (cases q; auto simp: allocate_directory_def act_simps)+
        with make_directory_effect [OF m] validate_run_id_Inr [OF Inr] show ?thesis
          by (cases q) (simp_all add: allocated_def)
      qed
    qed
  qed
qed

definition finished_directory :: "time_text \<Rightarrow> run_session \<Rightarrow> run_directory" where
  "finished_directory tt s = \<lparr>rd_session = Json (session_document tt s), rd_readme = True, rd_logs = True\<rparr>"

lemma write_session_files_effect:
  assumes "write_session_files tt io name s st = (r, u)" and "rt_runs st name = Some empty_directory"
  shows "case r of
      Inl e \<Rightarrow> u = st\<lparr>rt_runs := (rt_runs st)(name := rt_runs u name)\<rparr>
    | Inr _ \<Rightarrow> u = st\<lparr>rt_runs := (rt_runs st)(name \<mapsto> finished_directory tt s)\<rparr>"
  using assms
  by (cases "ci_logs io"; cases "ci_session io"; cases "ci_readme io"; cases st)
     (auto simp: write_session_files_def change_directory_def act_simps finished_directory_def empty_directory_def intro!: ext)

section \<open>Property\<close>

text \<open>A plan record as its constructor makes it, of a well-formed operation.\<close>

definition sound_plan :: "'a plan_record \<Rightarrow> bool" where
  "sound_plan p = (plain_text (pr_plan_id p) \<and> kind_chars (pr_kind p) \<and> kind_chars (op_kind (pr_operation p)) \<and>
     wf_entity (op_subject (pr_operation p)) \<and> wf_revision (pr_subject_revision p))"

lemma kind_value_chars: "kind_value what v = Inr k \<Longrightarrow> kind_chars k"
  by (auto simp: kind_value_def Let_def split: pyval.splits if_splits)

lemma mk_Operation_Inr: "mk_Operation kind subject pinned ps = Inr op \<Longrightarrow> kind_chars (op_kind op) \<and> op_subject op = subject"
  unfolding mk_Operation_def mk_OperationKind_def ebind_eq_Inr
  by (elim exE conjE, drule kind_value_chars) (cases pinned; simp split: if_splits; fastforce)

lemma mk_PlanRecord_sound:
  assumes "mk_PlanRecord i k op r payload md = Inr p" and "mk_Operation kind subject pinned ps = Inr op"
    and "wf_entity subject" and "wf_revision r"
  shows "sound_plan p"
proof -
  from assms(1) obtain i' k' where "required_text ''plan_id'' i = Inr i'" "kind_value ''plan'' k = Inr k'"
    and p: "p = \<lparr>pr_plan_id = i', pr_kind = k', pr_operation = op, pr_subject_revision = r, pr_payload = payload, pr_metadata = md\<rparr>"
    by (auto simp: mk_PlanRecord_def mk_PlanKind_def ebind_eq_Inr split: if_splits)
  moreover note mk_Operation_Inr [OF assms(2)]
  ultimately show ?thesis
    using assms(3,4) required_text_is_plain kind_value_chars by (auto simp: sound_plan_def)
qed

lemma kind_char_not_space: "ascii_lower c \<or> ascii_digit c \<or> c \<in> {CHR ''.'', CHR ''_'', CHR ''-''} \<Longrightarrow> \<not> is_space c"
  by (rule id_char_not_space) (auto simp: id_char_def ascii_alnum_def)

lemma kind_chars_plain: "kind_chars k \<Longrightarrow> plain_text k"
proof -
  assume k: "kind_chars k"
  then have "list_all (\<lambda>c. ascii_lower c \<or> ascii_digit c \<or> c \<in> {CHR ''.'', CHR ''_'', CHR ''-''}) k"
    unfolding kind_chars_def by (cases k) simp_all
  then have "\<not> is_space c" if "c \<in> set k" for c
    using that kind_char_not_space unfolding list_all_iff by blast
  with k show ?thesis by (intro plain_text_chars) (auto simp: kind_chars_def)
qed

lemma entity_not_space: "wf_entity e \<Longrightarrow> c \<in> set (EntityRef_canonical e) \<Longrightarrow> \<not> is_space c"
  by (drule (1) wf_entity_chars) (auto simp: seg_char_not_space, simp_all add: is_space_def)

lemma EntityRef_canonical_plain: "wf_entity e \<Longrightarrow> plain_text (EntityRef_canonical e)"
  by (rule plain_text_chars) (auto simp: EntityRef_canonical_def dest: entity_not_space [unfolded EntityRef_canonical_def])

lemma RevisionRef_canonical_plain:
  assumes "wf_revision r"
  shows "plain_text (RevisionRef_canonical r)"
proof -
  let ?x = "EntityRef_canonical (rv_entity r) @ ''@'' @ rv_algorithm r @ '':''"
  have "\<not> is_space (CHR ''@'')" "\<not> is_space (CHR '':'')" by code_simp+
  moreover have "\<not> is_space c" if "c \<in> set (rv_algorithm r)" for c
    using assms that by (auto simp: wf_revision_def dest: seg_match_chars seg_char_not_space)
  ultimately have "\<not> is_space c" if "c \<in> set ?x" for c
    using assms that entity_not_space by (auto simp: wf_revision_def)
  then have "plain_text (?x @ rv_digest r)"
    using assms by (intro plain_text_append) (auto simp: wf_revision_def plain_text_def)
  then show ?thesis by (simp add: RevisionRef_canonical_def)
qed

text \<open>
  What \<open>Path.resolve\<close> does: a resolved path resolves to itself, and a directory of the root, when it is
  not a symbolic link, to the entry of the resolved root.
\<close>

definition honest_paths :: "run_store \<Rightarrow> bool" where
  "honest_paths st \<longleftrightarrow>
     (\<forall>p. rt_resolve st (rt_resolve st p) = rt_resolve st p) \<and>
     (\<forall>name. run_id_match name \<longrightarrow> rt_resolve st (path_join (rt_root st) name) = path_join (rt_resolve st (rt_root st)) name)"

lemma path_name_join: "CHR ''/'' \<notin> set name \<Longrightarrow> path_name (path_join parent name) = name"
proof -
  assume "CHR ''/'' \<notin> set name"
  then have "x \<noteq> CHR ''/''" if "x \<in> set (rev name)" for x using that by auto
  then have tail: "takeWhile (\<lambda>c. c \<noteq> CHR ''/'') (rev name @ ys) = rev name @ takeWhile (\<lambda>c. c \<noteq> CHR ''/'') ys" for ys
    by (rule takeWhile_append2)
  from tail [of "[]"] have whole: "takeWhile (\<lambda>c. c \<noteq> CHR ''/'') (rev name) = rev name" by (simp only: takeWhile.simps append_Nil2)
  show ?thesis
    by (simp add: path_name_def path_join_def whole tail [of "''/''"] tail [of "CHR ''/'' # rev parent"] del: takeWhile_eq_all_conv)
qed

lemma run_id_no_slash: "run_id_match name \<Longrightarrow> CHR ''/'' \<notin> set name"
proof -
  assume m: "run_id_match name"
  then obtain c cs where d: "drop 4 name = c # cs" "ascii_alnum c" "list_all id_char cs" and t: "take 4 name = ''run_''"
    by (auto simp: run_id_match_def split: list.splits)
  then have s: "name = ''run_'' @ c # cs" by (metis append_take_drop_id)
  have "\<not> ascii_alnum (CHR ''/'')" "\<not> id_char (CHR ''/'')" "CHR ''/'' \<notin> set ''run_''" by code_simp+
  with d(2,3) show ?thesis unfolding s by (auto simp: list_all_iff)
qed

text \<open>
  C36: Creating a Run is safe, whatever the operating system refuses.  When it fails, no other Run has
  changed; the root may be new, and nothing else when the clean-up removes the incomplete directory -
  otherwise one new entry is what the clean-up left of it.  When it succeeds the name was free, the root
  is there, no other Run has changed, the header names the plan, the session's directory is the entry of
  the root as the store was given it, and opening the Run by its identifier gives the same session with
  the resolved directory - so the same session if the root was given resolved, and not otherwise.
\<close>

theorem run_store_create_sound:
  assumes tt: "honest_times tt" and paths: "honest_paths st" and plan: "sound_plan plan"
    and run: "run_store_create tt io clock token plan run_id st = (r, u)"
  shows "case r of
      Inl e \<Rightarrow> u = st \<or> u = st\<lparr>rt_root_exists := True\<rparr> \<or>
        (\<exists>name d. ci_left io = Some d \<and> rt_runs st name = None \<and>
           u = st\<lparr>rt_root_exists := True, rt_runs := (rt_runs st)(name \<mapsto> d)\<rparr>)
    | Inr s \<Rightarrow> rt_runs st (ru_run_id s) = None \<and>
        u = st\<lparr>rt_root_exists := True, rt_runs := (rt_runs st)(ru_run_id s \<mapsto> finished_directory tt s)\<rparr> \<and>
        ru_plan_id s = pr_plan_id plan \<and> ru_directory s = path_join (rt_root st) (ru_run_id s) \<and>
        run_store_open tt u (PStr (ru_run_id s)) =
          Inr (s\<lparr>ru_directory := path_join (rt_resolve st (rt_root st)) (ru_run_id s)\<rparr>)"
proof -
  let ?op = "pr_operation plan"
  let ?s = "\<lambda>name t. \<lparr>ru_run_id = name, ru_created_at = t, ru_plan_id = pr_plan_id plan, ru_plan_kind = pr_kind plan,
     ru_operation_kind = op_kind ?op, ru_subject = EntityRef_canonical (op_subject ?op),
     ru_subject_revision = RevisionRef_canonical (pr_subject_revision plan),
     ru_directory = path_join (rt_root st) name, ru_layout = run_layout\<rparr>"
  have wf: "wf_session (?s name t)" if "run_id_match name" for name t
    using plan that kind_chars_plain EntityRef_canonical_plain RevisionRef_canonical_plain
    by (simp add: sound_plan_def wf_session_def)
  show ?thesis
  proof (cases clock)
    case (Aware t)
    obtain a v where alloc: "allocate_directory tt io token t run_id st = (a, v)" by (cases "allocate_directory tt io token t run_id st")
    note effect = allocate_directory_effect [OF tt alloc]
    show ?thesis
    proof (cases a)
      case (Inl e)
      with run Aware alloc effect have "r = Inl e" "u = st \<or> u = rooted st"
        by (auto simp: run_store_create_def aware_def act_simps allocated_def)
      then show ?thesis by (auto simp: rooted_def)
    next
      case (Inr name)
      with effect have name: "rt_runs st name = None" "run_id_match name"
        and v: "v = (rooted st)\<lparr>rt_runs := (rt_runs st)(name \<mapsto> empty_directory)\<rparr>" by (simp_all add: allocated_def)
      note mk = mk_RunSession_id [OF wf [OF name(2), of t], simplified]
      obtain q w where files: "write_session_files tt io name (?s name t) v = (q, w)"
        by (cases "write_session_files tt io name (?s name t) v")
      have root: "rt_root v = rt_root st" by (simp add: v)
      have done_r: "r = (case q of Inl e \<Rightarrow> Inl e | Inr _ \<Rightarrow> Inr (?s name t))"
        and done_u: "u = (case q of Inl e \<Rightarrow> w\<lparr>rt_runs := (rt_runs w)(name := ci_left io)\<rparr> | Inr _ \<Rightarrow> w)"
        using run Aware alloc Inr files
        by (cases q; auto simp: run_store_create_def aware_def act_simps root mk remove_directory_def)+
      have "rt_runs v name = Some empty_directory" by (simp add: v)
      note written = write_session_files_effect [OF files this]
      show ?thesis
      proof (cases q)
        case (Inl e)
        with written obtain d where "w = v\<lparr>rt_runs := (rt_runs v)(name := d)\<rparr>" by auto
        with Inl done_u have u: "u = (rooted st)\<lparr>rt_runs := (rt_runs st)(name := ci_left io)\<rparr>" by (simp add: v)
        show ?thesis
        proof (cases "ci_left io")
          case None
          with name(1) have "(rt_runs st)(name := ci_left io) = rt_runs st" by (simp add: fun_upd_idem)
          with u done_r Inl show ?thesis by (simp add: rooted_def)
        qed (use u done_r Inl name(1) in \<open>auto simp: rooted_def\<close>)
      next
        case (Inr _)
        with written done_u have u: "u = (rooted st)\<lparr>rt_runs := (rt_runs st)(name \<mapsto> finished_directory tt (?s name t))\<rparr>" by (simp add: v)
        let ?path = "path_join (rt_resolve st (rt_root st)) name"
        have path: "rt_resolve st (path_join (rt_root st) name) = ?path" "rt_resolve st ?path = ?path"
          using paths name(2) by (auto simp: honest_paths_def) (metis)
        have "run_store_open tt u (PStr name) = Inr ((?s name t)\<lparr>ru_directory := ?path\<rparr>)"
          by (simp add: u run_store_open_def name(2) load_run_session_def finished_directory_def path
              session_roundtrip [OF wf [OF name(2)] tt] path_name_join run_id_no_slash)
        with Inr done_r u name show ?thesis by (simp add: rooted_def)
      qed
    qed
  qed (use run in \<open>auto simp: run_store_create_def aware_def act_simps\<close>)
qed

definition good_io :: create_io where
  "good_io = \<lparr>ci_root = None, ci_mkdir = None, ci_logs = None, ci_session = None, ci_readme = None, ci_left = None\<rparr>"

definition sample_plan_record :: "unit plan_record" where
  "sample_plan_record = \<lparr>pr_plan_id = ''plan-1'', pr_kind = system_execution, pr_operation = sample_operation,
     pr_subject_revision = sample_revision, pr_payload = (), pr_metadata = []\<rparr>"

definition sample_resolve :: "string \<Rightarrow> string" where
  "sample_resolve p = (if take 1 p = ''/'' then p else ''/home/'' @ p)"

definition sample_store :: run_store where
  "sample_store = \<lparr>rt_root = ''runs'', rt_root_exists = False, rt_runs = (\<lambda>_. None), rt_resolve = sample_resolve\<rparr>"

lemma sample_store_paths: "honest_paths sample_store"
  by (simp add: honest_paths_def sample_store_def sample_resolve_def path_join_def)

definition sample_create :: "create_io \<Rightarrow> run_session result \<times> run_store" where
  "sample_create io = run_store_create unary_times io (Aware 5) (\<lambda>_. PStr ''0123456789aB'') sample_plan_record None sample_store"

text \<open>A creation that succeeds, in a root given as a relative path, and one whose header cannot be
  written and whose directory cannot be removed.\<close>

definition stuck_io :: create_io where
  "stuck_io = good_io\<lparr>ci_session := Some (''disk full'', Invalid_Json), ci_left := Some empty_directory\<rparr>"

theorem run_store_create_sound_witness:
  "(\<exists>s u. sample_create good_io = (Inr s, u) \<and> rt_runs sample_store (ru_run_id s) = None \<and>
      run_store_open unary_times u (PStr (ru_run_id s)) = Inr (s\<lparr>ru_directory := path_join ''/home/runs'' (ru_run_id s)\<rparr>)) \<and>
   (\<exists>e u name. sample_create stuck_io = (Inl e, u) \<and>
      u = sample_store\<lparr>rt_root_exists := True, rt_runs := (rt_runs sample_store)(name \<mapsto> empty_directory)\<rparr>)"
proof -
  have plan: "sound_plan sample_plan_record" by code_simp
  note sound = run_store_create_sound [OF unary_times_honest sample_store_paths plan,
      of _ "Aware 5" "\<lambda>_. PStr ''0123456789aB''" None, folded sample_create_def]
  obtain r u where good: "sample_create good_io = (r, u)" by (cases "sample_create good_io")
  have "case fst (sample_create good_io) of Inl _ \<Rightarrow> False | Inr s \<Rightarrow> True" by code_simp
  with good obtain s where r: "r = Inr s" by (auto split: sum.splits)
  have root: "rt_resolve sample_store (rt_root sample_store) = ''/home/runs''" by code_simp
  obtain q v where stuck: "sample_create stuck_io = (q, v)" by (cases "sample_create stuck_io")
  have "case sample_create stuck_io of (Inl e, v) \<Rightarrow> rt_runs v ''run_T11111_0123456789ab'' \<noteq> None | _ \<Rightarrow> False" by code_simp
  with stuck obtain e where q: "q = Inl e" and left: "rt_runs v ''run_T11111_0123456789ab'' \<noteq> None" by (auto split: sum.splits)
  have "rt_runs sample_store ''run_T11111_0123456789ab'' = None" by (simp add: sample_store_def)
  with sound [OF stuck] left have "\<exists>name. v = sample_store\<lparr>rt_root_exists := True, rt_runs := (rt_runs sample_store)(name \<mapsto> empty_directory)\<rparr>"
    unfolding q sum.case by (auto simp: stuck_io_def)
  with sound [OF good] good stuck show ?thesis unfolding r q sum.case root by blast
qed

text \<open>With a root given as a relative path the reopened session is another one: its directory is resolved.\<close>

lemma relative_root_reopens_elsewhere:
  "case sample_create good_io of
     (Inl e, u) \<Rightarrow> False
   | (Inr s, u) \<Rightarrow> (case run_store_open unary_times u (PStr (ru_run_id s)) of
       Inl e \<Rightarrow> False
     | Inr s' \<Rightarrow> ru_directory s' \<noteq> ru_directory s \<and> s'\<lparr>ru_directory := ru_directory s\<rparr> = s)"
  by code_simp

end
