(* ===== verification/Run_Status.thy ===== *)
theory Run_Status
  imports Run_Sessions
begin

text \<open>
  The live status file of a Run (run_status.py: RunStatusStore).

  The file is replaced atomically: a call either raises and leaves it as it was, or replaces it by
  a complete document.  Which of the two happens to a write is an argument (an error, or none).

  The theorem: in every history of calls and restarts a reader finds no file or a complete valid
  status of this Run whose flags agree with its state, and the writer goes on with the next
  generation.
\<close>

section \<open>Documents\<close>

definition run_status_version :: string where
  "run_status_version = ''nodrix.run-status/v1''"

definition run_status_kind :: string where
  "run_status_kind = ''RunStatus''"

definition status_corruption :: "string \<Rightarrow> py_error" where
  "status_corruption msg = NamedErr ''RunStatusCorruptionError'' msg"

definition status_messages :: json_messages where
  "status_messages =
     \<lparr>jm_nonfinite = ''status details cannot contain non-finite floats'', jm_keys = ''status detail keys must be strings'',
      jm_unsupported = ''status details contain unsupported''\<rparr>"

text \<open>A non-empty string or null.\<close>

definition null_or_text :: "pyval \<Rightarrow> bool" where
  "null_or_text v = (case v of PNone \<Rightarrow> True | PStr s \<Rightarrow> strip s \<noteq> [] | _ \<Rightarrow> False)"

definition nonempty_text_val :: "pyval \<Rightarrow> bool" where
  "nonempty_text_val v = (case v of PStr s \<Rightarrow> strip s \<noteq> [] | _ \<Rightarrow> False)"

definition positive_generation :: "pyval \<Rightarrow> int option" where
  "positive_generation v = (case v of PInt n \<Rightarrow> if n < 1 then None else Some n | _ \<Rightarrow> None)"

definition is_object :: "pyval \<Rightarrow> bool" where
  "is_object v = (case v of PDict d \<Rightarrow> True | _ \<Rightarrow> False)"

definition validate_status_document :: "run_session \<Rightarrow> pyval \<Rightarrow> int result" where
  "validate_status_document s v =
     (case v of
        PDict d \<Rightarrow>
          if dict_get d ''apiVersion'' \<noteq> PStr run_status_version then Inl (status_corruption ''unsupported status.json apiVersion'')
          else if dict_get d ''kind'' \<noteq> PStr run_status_kind then Inl (status_corruption ''invalid status.json kind'')
          else if dict_get d ''runId'' \<noteq> PStr (ru_run_id s) then Inl (status_corruption ''status.json belongs to a different Run'')
          else if dict_get d ''planId'' \<noteq> PStr (ru_plan_id s) then Inl (status_corruption ''status.json belongs to a different Plan'')
          else (case positive_generation (dict_get d ''generation'') of
              None \<Rightarrow> Inl (status_corruption ''status.json generation must be a positive integer'')
            | Some generation \<Rightarrow> (case parse_state (dict_get d ''state'') of
                Inl _ \<Rightarrow> Inl (status_corruption ''status.json contains an invalid state'')
              | Inr state \<Rightarrow>
                  if dict_get d ''terminal'' \<noteq> PBool (record_terminal state)
                  then Inl (status_corruption ''status.json terminal flag does not match state'')
                  else if dict_get d ''successful'' \<noteq> PBool (record_successful state)
                  then Inl (status_corruption ''status.json successful flag does not match state'')
                  else if \<not> null_or_text (dict_get d ''executionId'')
                  then Inl (status_corruption ''status.json executionId must be a non-empty string or null'')
                  else if \<not> nonempty_text_val (dict_get d ''updatedAt'')
                  then Inl (status_corruption ''status.json updatedAt must be a non-empty string'')
                  else if \<not> null_or_text (dict_get d ''message'')
                  then Inl (status_corruption ''status.json message must be a non-empty string or null'')
                  else if \<not> is_object (dict_get d ''details'')
                  then Inl (status_corruption ''status.json details must be an object'')
                  else Inr generation))
      | _ \<Rightarrow> Inl (status_corruption ''status.json must contain a JSON object''))"

definition status_field :: "pyval \<Rightarrow> string \<Rightarrow> pyval" where
  "status_field v k = (case v of PDict d \<Rightarrow> dict_get d k | _ \<Rightarrow> PNone)"

definition read_status_document :: "time_text \<Rightarrow> run_session \<Rightarrow> json_file \<Rightarrow> pyval option result" where
  "read_status_document tt s f =
     (case f of
        Absent \<Rightarrow> Inr None
      | Not_A_Document_File \<Rightarrow> Inl (status_corruption ''status.json exists but is not a file'')
      | Invalid_Json \<Rightarrow> Inl (status_corruption ''status.json contains invalid JSON'')
      | Json v \<Rightarrow>
          ebind (validate_status_document s v) (\<lambda>_.
          ebind (persisted_timestamp status_corruption tt ''status.json updatedAt'' (status_field v ''updatedAt'')) (\<lambda>_.
          Inr (Some v))))"

section \<open>The store\<close>

record status_store =
  sto_session :: run_session
  sto_file :: json_file
  sto_last :: "pyval option"
  sto_next :: int

definition open_status_store :: "time_text \<Rightarrow> run_session \<Rightarrow> json_file \<Rightarrow> status_store result" where
  "open_status_store tt s f =
     ebind (read_status_document tt s f) (\<lambda>last_document.
     case last_document of
       None \<Rightarrow> Inr \<lparr>sto_session = s, sto_file = f, sto_last = None, sto_next = 1\<rparr>
     | Some v \<Rightarrow> ebind (validate_status_document s v) (\<lambda>n.
         Inr \<lparr>sto_session = s, sto_file = f, sto_last = Some v, sto_next = n + 1\<rparr>))"

definition read_status :: "time_text \<Rightarrow> status_store \<Rightarrow> pyval option result" where
  "read_status tt st = read_status_document tt (sto_session st) (sto_file st)"

text \<open>The arguments of a write, in the order in which they are checked.\<close>

record status_change =
  sc_state :: record_state
  sc_execution_id :: "string option"
  sc_message :: "string option"
  sc_details :: "pyval"

definition canonical_details :: "pyval \<Rightarrow> pyval result" where
  "canonical_details details =
     (case details of
        PNone \<Rightarrow> Inr (PDict [])
      | PDict d \<Rightarrow> strict_json status_messages (PDict d)
      | _ \<Rightarrow> Inl (TypeErr ''details must be a mapping or None''))"

definition status_arguments :: "pyval \<Rightarrow> pyval \<Rightarrow> pyval \<Rightarrow> pyval \<Rightarrow> status_change result" where
  "status_arguments state execution_id message details =
     ebind (parse_state state) (\<lambda>s.
     ebind (optional_text ''execution_id'' execution_id) (\<lambda>x.
     ebind (optional_text ''message'' message) (\<lambda>m.
     ebind (canonical_details details) (\<lambda>d.
     Inr \<lparr>sc_state = s, sc_execution_id = x, sc_message = m, sc_details = d\<rparr>))))"

definition opt_str :: "string option \<Rightarrow> pyval" where
  "opt_str x = (case x of None \<Rightarrow> PNone | Some s \<Rightarrow> PStr s)"

definition status_document :: "time_text \<Rightarrow> run_session \<Rightarrow> int \<Rightarrow> int \<Rightarrow> status_change \<Rightarrow> pyval" where
  "status_document tt s generation t c =
     PDict [(PStr ''apiVersion'', PStr run_status_version), (PStr ''kind'', PStr run_status_kind),
       (PStr ''runId'', PStr (ru_run_id s)), (PStr ''planId'', PStr (ru_plan_id s)), (PStr ''generation'', PInt generation),
       (PStr ''updatedAt'', PStr (tt_print tt t)), (PStr ''executionId'', opt_str (sc_execution_id c)),
       (PStr ''state'', PStr (record_state_value (sc_state c))), (PStr ''terminal'', PBool (record_terminal (sc_state c))),
       (PStr ''successful'', PBool (record_successful (sc_state c))), (PStr ''message'', opt_str (sc_message c)),
       (PStr ''details'', sc_details c)]"

text \<open>\<open>write\<close>; \<open>now\<close> is what the module's own clock says when no time is given.\<close>

definition write_status ::
    "time_text \<Rightarrow> int \<Rightarrow> pyval \<Rightarrow> pyval \<Rightarrow> pyval \<Rightarrow> pyval \<Rightarrow> moment option \<Rightarrow> string option \<Rightarrow> (status_store, pyval) act" where
  "write_status tt now state execution_id message details updated_at io = (\<lambda>st.
     case ebind (status_arguments state execution_id message details) (\<lambda>c.
            ebind (case updated_at of None \<Rightarrow> Inr now | Some m \<Rightarrow> aware ''updated_at'' m) (\<lambda>t. Inr (c, t))) of
       Inl e \<Rightarrow> (Inl e, st)
     | Inr (c, t) \<Rightarrow>
         let document = status_document tt (sto_session st) (sto_next st) t c in
         (case io of
            Some e \<Rightarrow> (Inl (OSErr e), st)
          | None \<Rightarrow> (Inr document, st\<lparr>sto_file := Json document, sto_next := sto_next st + 1, sto_last := Some document\<rparr>)))"

definition same_status :: "pyval \<Rightarrow> status_change \<Rightarrow> bool" where
  "same_status current c =
     (py_eq (status_field current ''executionId'') (opt_str (sc_execution_id c)) \<and>
      py_eq (status_field current ''state'') (PStr (record_state_value (sc_state c))) \<and>
      py_eq (status_field current ''message'') (opt_str (sc_message c)) \<and>
      py_eq (status_field current ''details'') (sc_details c))"

definition write_status_if_changed ::
    "time_text \<Rightarrow> int \<Rightarrow> pyval \<Rightarrow> pyval \<Rightarrow> pyval \<Rightarrow> pyval \<Rightarrow> moment option \<Rightarrow> string option \<Rightarrow> (status_store, pyval) act" where
  "write_status_if_changed tt now state execution_id message details updated_at io = (\<lambda>st.
     case status_arguments state execution_id message details of
       Inl e \<Rightarrow> (Inl e, st)
     | Inr c \<Rightarrow>
         (case sto_last st of
            Some current \<Rightarrow>
              if same_status current c then (Inr current, st)
              else write_status tt now (PStr (record_state_value (sc_state c))) (opt_str (sc_execution_id c))
                     (opt_str (sc_message c)) (sc_details c) updated_at io st
          | None \<Rightarrow> write_status tt now (PStr (record_state_value (sc_state c))) (opt_str (sc_execution_id c))
                     (opt_str (sc_message c)) (sc_details c) updated_at io st))"

section \<open>Histories of one status file\<close>

text \<open>One call with all its arguments; the flag tells \<open>write_if_changed\<close> from \<open>write\<close>.\<close>

record status_call =
  ca_if_changed :: bool
  ca_state :: pyval
  ca_execution_id :: pyval
  ca_message :: pyval
  ca_details :: pyval
  ca_updated_at :: "moment option"
  ca_io :: "string option"

definition status_perform :: "time_text \<Rightarrow> int \<Rightarrow> status_call \<Rightarrow> status_store \<Rightarrow> status_store" where
  "status_perform tt now c st =
     snd ((if ca_if_changed c then write_status_if_changed else write_status) tt now (ca_state c) (ca_execution_id c)
            (ca_message c) (ca_details c) (ca_updated_at c) (ca_io c) st)"

definition status_reopen :: "time_text \<Rightarrow> status_store \<Rightarrow> status_store result" where
  "status_reopen tt st = open_status_store tt (sto_session st) (sto_file st)"

text \<open>The invariant: memory and file agree, and the file is a valid status with the generation before the next.\<close>

definition status_ok :: "time_text \<Rightarrow> status_store \<Rightarrow> bool" where
  "status_ok tt st =
     (case sto_file st of
        Absent \<Rightarrow> sto_last st = None \<and> sto_next st = 1
      | Json v \<Rightarrow> sto_last st = Some v \<and> validate_status_document (sto_session st) v = Inr (sto_next st - 1) \<and>
          read_status tt st = Inr (Some v)
      | _ \<Rightarrow> False)"

lemma positive_generation_Some: "positive_generation v = Some n \<Longrightarrow> v = PInt n \<and> 1 \<le> n"
  by (auto simp: positive_generation_def split: pyval.splits if_splits)

text \<open>What a validated document says.\<close>

lemma validate_status_document_Inr:
  assumes "validate_status_document s v = Inr n"
  obtains d state where "v = PDict d" "1 \<le> n" "dict_get d ''generation'' = PInt n" "dict_get d ''runId'' = PStr (ru_run_id s)"
    "dict_get d ''planId'' = PStr (ru_plan_id s)" "parse_state (dict_get d ''state'') = Inr state"
    "dict_get d ''terminal'' = PBool (record_terminal state)" "dict_get d ''successful'' = PBool (record_successful state)"
proof -
  from assms obtain d where v: "v = PDict d" by (cases v) (simp_all add: validate_status_document_def)
  from assms show thesis
    unfolding v validate_status_document_def
    by (auto split: if_splits option.splits sum.splits dest!: positive_generation_Some intro!: that [OF v])
qed

lemma opt_str_ok: "optional_text field v = Inr x \<Longrightarrow> null_or_text (opt_str x)"
  by (auto simp: optional_text_def null_or_text_def opt_str_def required_text_Inr ebind_eq_Inr split: if_splits)

lemma strict_json_dict: "strict_json m (PDict d) = Inr w \<Longrightarrow> is_object w \<and> json_doc w"
  using strict_json_doc [of m "PDict d" w] by (auto simp: ebind_eq_Inr is_object_def simp del: json_doc.simps)

lemma canonical_details_dict: "canonical_details v = Inr d \<Longrightarrow> is_object d \<and> json_doc d"
  by (cases v) (auto simp: canonical_details_def is_object_def simp del: strict_json.simps dest!: strict_json_dict)

definition wf_change :: "status_change \<Rightarrow> bool" where
  "wf_change c = (null_or_text (opt_str (sc_execution_id c)) \<and> null_or_text (opt_str (sc_message c)) \<and> is_object (sc_details c))"

lemma status_arguments_wf: "status_arguments state x m d = Inr c \<Longrightarrow> wf_change c"
  by (auto simp: status_arguments_def ebind_eq_Inr wf_change_def dest: opt_str_ok canonical_details_dict)

lemma status_document_get [simp]:
  "dict_get [(PStr ''apiVersion'', a), (PStr ''kind'', b), (PStr ''runId'', c), (PStr ''planId'', d), (PStr ''generation'', e),
     (PStr ''updatedAt'', f), (PStr ''executionId'', g), (PStr ''state'', h), (PStr ''terminal'', i), (PStr ''successful'', j),
     (PStr ''message'', k), (PStr ''details'', l)] = (\<lambda>x.
       if x = ''apiVersion'' then a else if x = ''kind'' then b else if x = ''runId'' then c else if x = ''planId'' then d
       else if x = ''generation'' then e else if x = ''updatedAt'' then f else if x = ''executionId'' then g
       else if x = ''state'' then h else if x = ''terminal'' then i else if x = ''successful'' then j
       else if x = ''message'' then k else if x = ''details'' then l else PNone)"
  by (rule ext) (simp add: dict_get_def)

lemma status_document_valid:
  assumes "wf_change c" and "1 \<le> n" and "honest_times tt"
  shows "validate_status_document s (status_document tt s n t c) = Inr n"
proof -
  have "nonempty_text_val (PStr (tt_print tt t))"
    using honest_print [OF assms(3), of t] by (simp add: nonempty_text_val_def plain_text_def)
  with assms(1,2) show ?thesis
    by (simp add: validate_status_document_def status_document_def positive_generation_def wf_change_def)
qed

lemma write_status_effect:
  assumes "write_status tt now state x m d up io st = (r, u)" and ok: "status_ok tt st" and tt: "honest_times tt"
  shows "status_ok tt u \<and> sto_session u = sto_session st \<and>
    (case r of Inl e \<Rightarrow> u = st
     | Inr v \<Rightarrow> sto_file u = Json v \<and> sto_next u = sto_next st + 1 \<and>
         (\<exists>c t. status_arguments state x m d = Inr c \<and> v = status_document tt (sto_session st) (sto_next st) t c))"
proof (cases r)
  case (Inl e)
  with assms(1) have "u = st" by (auto simp: write_status_def Let_def split: sum.splits option.splits)
  with Inl ok show ?thesis by simp
next
  case (Inr v)
  with assms(1) obtain c t where c: "status_arguments state x m d = Inr c"
    and v: "v = status_document tt (sto_session st) (sto_next st) t c"
    and u: "u = st\<lparr>sto_file := Json v, sto_next := sto_next st + 1, sto_last := Some v\<rparr>"
    by (auto simp: write_status_def Let_def ebind_eq_Inr split: sum.splits option.splits)
  have n: "1 \<le> sto_next st"
    using ok by (auto simp: status_ok_def split: json_file.splits elim!: validate_status_document_Inr)
  note valid = status_document_valid [OF status_arguments_wf [OF c] n tt, of "sto_session st" t, folded v]
  have "status_field v ''updatedAt'' = PStr (tt_print tt t)" by (simp add: v status_document_def status_field_def)
  with valid tt have "read_status tt u = Inr (Some v)" by (simp add: read_status_def read_status_document_def u)
  with valid c v Inr show ?thesis by (auto simp: status_ok_def u)
qed

lemma write_if_changed_effect:
  assumes "write_status_if_changed tt now state x m d up io st = (r, u)" and ok: "status_ok tt st" and tt: "honest_times tt"
  shows "status_ok tt u \<and> sto_session u = sto_session st \<and>
    (case r of Inl e \<Rightarrow> u = st
     | Inr v \<Rightarrow> sto_file u = Json v \<and>
         (u = st \<or> sto_next u = sto_next st + 1 \<and> status_field v ''generation'' = PInt (sto_next st)))"
proof (cases "status_arguments state x m d")
  case (Inl e)
  with assms show ?thesis by (auto simp: write_status_if_changed_def)
next
  case (Inr c)
  let ?w = "write_status tt now (PStr (record_state_value (sc_state c))) (opt_str (sc_execution_id c))
                     (opt_str (sc_message c)) (sc_details c) up io st"
  show ?thesis
  proof (cases "\<exists>current. sto_last st = Some current \<and> same_status current c")
    case True
    then obtain current where cur: "sto_last st = Some current" "same_status current c" by blast
    with assms(1) Inr have "r = Inr current" "u = st" by (simp_all add: write_status_if_changed_def)
    moreover have "sto_file st = Json current"
      using ok cur(1) by (auto simp: status_ok_def split: json_file.splits)
    ultimately show ?thesis using ok by simp
  next
    case False
    with assms(1) Inr have w: "?w = (r, u)"
      by (auto simp: write_status_if_changed_def split: option.splits)
    from write_status_effect [OF w ok tt] show ?thesis
      by (auto simp: status_document_def status_field_def split: sum.splits)
  qed
qed

lemma status_perform_ok:
  assumes "status_ok tt st" and "honest_times tt"
  shows "status_ok tt (status_perform tt now c st)" and "sto_session (status_perform tt now c st) = sto_session st"
  using write_status_effect [OF prod.collapse [symmetric] assms, of now "ca_state c" "ca_execution_id c" "ca_message c" "ca_details c" "ca_updated_at c" "ca_io c"]
    write_if_changed_effect [OF prod.collapse [symmetric] assms, of now "ca_state c" "ca_execution_id c" "ca_message c" "ca_details c" "ca_updated_at c" "ca_io c"]
  by (simp_all add: status_perform_def)

interpretation status_file: durable_store "status_perform tt now" "status_reopen tt"
  "\<lambda>st. honest_times tt \<and> status_ok tt st" "\<lambda>_. True"
proof
  fix st :: status_store
  assume ok: "honest_times tt \<and> status_ok tt st"
  then show "honest_times tt \<and> status_ok tt (status_perform tt now c st)" for c by (simp add: status_perform_ok)
  from ok show "status_reopen tt st = Inr st"
    by (cases st; cases "sto_file st")
       (auto simp: status_reopen_def status_ok_def open_status_store_def read_status_def read_status_document_def)
qed

section \<open>Property\<close>

text \<open>
  C34: In every history of writes and restarts, whatever the writes are asked to store and whichever
  of them fail, reading the status of a Run never reports corruption: there is no status yet, or it
  is a complete document of this Run whose flags are those of its state, and the generation after
  it is the next one the writer, or a new writer, uses.
\<close>

theorem status_always_valid:
  assumes "honest_times tt"
  shows "\<exists>st. store_history (status_perform tt now) (status_reopen tt) calls
      \<lparr>sto_session = s, sto_file = Absent, sto_last = None, sto_next = 1\<rparr> = Inr st \<and>
    status_reopen tt st = Inr st \<and>
    (case read_status tt st of
       Inl e \<Rightarrow> False
     | Inr None \<Rightarrow> sto_next st = 1
     | Inr (Some v) \<Rightarrow> status_field v ''runId'' = PStr (ru_run_id s) \<and> status_field v ''generation'' = PInt (sto_next st - 1) \<and>
         (\<exists>state. parse_state (status_field v ''state'') = Inr state \<and>
            status_field v ''terminal'' = PBool (record_terminal state) \<and>
            status_field v ''successful'' = PBool (record_successful state)))"
proof -
  let ?s = "\<lparr>sto_session = s, sto_file = Absent, sto_last = None, sto_next = 1\<rparr>"
  have init: "honest_times tt \<and> status_ok tt ?s" using assms by (simp add: status_ok_def)
  have fine: "calls_fine (\<lambda>_. True) calls" by (simp add: calls_fine_def list_all_iff split: option.split)
  from status_file.history_ok [OF init fine, of now] obtain st where
    run: "store_history (status_perform tt now) (status_reopen tt) calls ?s = Inr st" and ok: "status_ok tt st" by blast
  have session: "sto_session st = s"
    using status_file.history_preserves [OF init fine run, of "\<lambda>u. sto_session u = s"] by (simp add: status_perform_ok)
  have reopen: "status_reopen tt st = Inr st" using status_file.reopen_ok assms ok by blast
  show ?thesis
  proof (cases "sto_file st")
    case Absent
    with ok run reopen show ?thesis by (auto simp: status_ok_def read_status_def read_status_document_def)
  next
    case (Json v)
    with ok have v: "validate_status_document s v = Inr (sto_next st - 1)" "read_status tt st = Inr (Some v)"
      by (simp_all add: status_ok_def session)
    from v(1) show ?thesis
      by (rule validate_status_document_Inr) (use run reopen v(2) in \<open>auto simp: status_field_def\<close>)
  qed (use ok in \<open>simp_all add: status_ok_def\<close>)
qed

definition sample_session :: run_session where
  "sample_session = \<lparr>ru_run_id = ''run_1'', ru_created_at = 5, ru_plan_id = ''plan-1'', ru_plan_kind = system_execution,
     ru_operation_kind = ''run'', ru_subject = ''nodrix://system/local/demo'', ru_subject_revision = ''nodrix://system/local/demo@v:1a'',
     ru_directory = ''runs/run_1'', ru_layout = run_layout\<rparr>"

definition sample_status_call :: "string \<Rightarrow> string option \<Rightarrow> status_call" where
  "sample_status_call state io = \<lparr>ca_if_changed = True, ca_state = PStr state, ca_execution_id = PNone, ca_message = PNone,
     ca_details = PNone, ca_updated_at = Some (Aware 7), ca_io = io\<rparr>"

theorem status_always_valid_witness:
  "\<exists>st. store_history (status_perform unary_times 0) (status_reopen unary_times)
      [Some (sample_status_call ''created'' None), Some (sample_status_call ''running'' (Some ''disk full'')), None,
       Some (sample_status_call ''running'' None)]
      \<lparr>sto_session = sample_session, sto_file = Absent, sto_last = None, sto_next = 1\<rparr> = Inr st \<and>
    status_reopen unary_times st = Inr st"
  using status_always_valid [OF unary_times_honest, of 0 "[Some (sample_status_call ''created'' None),
     Some (sample_status_call ''running'' (Some ''disk full'')), None, Some (sample_status_call ''running'' None)]" sample_session]
  by blast

end
