(* ===== verification/Run_Records.thy ===== *)
theory Run_Records
  imports Run_Status
begin

text \<open>
  The immutable final record of a Run (run_record.py: run_record_document, RunRecordStore).

  The complete document is written to a temporary file, which is then linked into place: the link
  fails when the file is already there.  Any other failure of the operating system is an argument.

  The theorem: whoever publishes the record of a Run is the only one who does; the record is valid
  and what every later reader reads, whatever else is attempted.
\<close>

section \<open>Documents\<close>

definition run_record_version :: string where
  "run_record_version = ''nodrix.run-record/v1''"

definition run_record_kind :: string where
  "run_record_kind = ''RunRecord''"

definition record_corruption :: "string \<Rightarrow> py_error" where
  "record_corruption msg = NamedErr ''RunRecordCorruptionError'' msg"

definition record_messages :: json_messages where
  "record_messages =
     \<lparr>jm_nonfinite = ''final Run record cannot contain non-finite floats'',
      jm_keys = ''final Run record mapping keys must be strings'',
      jm_unsupported = ''final Run record contains unsupported''\<rparr>"

definition dict_of_mapping :: "mapping \<Rightarrow> pyval" where
  "dict_of_mapping m = PDict (map (\<lambda>(k, v). (PStr k, v)) m)"

definition opt_time :: "time_text \<Rightarrow> int option \<Rightarrow> pyval result" where
  "opt_time tt t = (case t of None \<Rightarrow> Inl (TypeErr ''timestamp must be a datetime'') | Some t \<Rightarrow> Inr (PStr (tt_print tt t)))"

text \<open>The two nested objects, given the normalised parts.\<close>

definition plan_object :: "'a plan_record \<Rightarrow> pyval \<Rightarrow> pyval" where
  "plan_object plan parameters =
     PDict [(PStr ''planId'', PStr (pr_plan_id plan)), (PStr ''kind'', PStr (pr_kind plan)),
       (PStr ''operation'', PDict [(PStr ''kind'', PStr (op_kind (pr_operation plan))),
         (PStr ''subject'', PStr (EntityRef_canonical (op_subject (pr_operation plan)))),
         (PStr ''subjectRevision'', opt_str (map_option RevisionRef_canonical (op_subject_revision (pr_operation plan)))),
         (PStr ''parameters'', parameters)]),
       (PStr ''subjectRevision'', PStr (RevisionRef_canonical (pr_subject_revision plan)))]"

definition execution_object :: "'a execution_record \<Rightarrow> pyval \<Rightarrow> pyval \<Rightarrow> pyval \<Rightarrow> pyval \<Rightarrow> pyval" where
  "execution_object x started finished details parameters =
     PDict [(PStr ''executionId'', PStr (xr_execution_id x)), (PStr ''executor'', PStr (xr_executor x)),
       (PStr ''state'', PStr (record_state_value (xr_state x))), (PStr ''terminal'', PBool (record_terminal (xr_state x))),
       (PStr ''successful'', PBool (record_successful (xr_state x))), (PStr ''startedAt'', started),
       (PStr ''finishedAt'', finished), (PStr ''details'', details), (PStr ''plan'', plan_object (xr_plan x) parameters)]"

definition run_record_document :: "time_text \<Rightarrow> 'a run_record \<Rightarrow> pyval result" where
  "run_record_document tt run =
     (let x = rr_execution run; json = (\<lambda>m. strict_json record_messages (dict_of_mapping m)) in
      ebind (opt_time tt (xr_started_at x)) (\<lambda>started.
      ebind (opt_time tt (xr_finished_at x)) (\<lambda>finished.
      ebind (json (xr_details x)) (\<lambda>details.
      ebind (json (op_parameters (pr_operation (xr_plan x)))) (\<lambda>parameters.
      ebind (json (rr_summary run)) (\<lambda>summary.
      ebind (json (rr_run_metadata run)) (\<lambda>metadata.
      Inr (PDict [(PStr ''apiVersion'', PStr run_record_version), (PStr ''kind'', PStr run_record_kind),
        (PStr ''runId'', PStr (rr_run_id run)), (PStr ''execution'', execution_object x started finished details parameters),
        (PStr ''summary'', summary), (PStr ''metadata'', metadata)]))))))))"

definition terminal_states :: "string list" where
  "terminal_states = [''stopped'', ''completed'', ''failed'', ''cancelled'']"

text \<open>\<open>value not in {...}\<close>: a list or a dictionary cannot be looked up in a set.\<close>

definition in_text_set :: "pyval \<Rightarrow> string list \<Rightarrow> bool result" where
  "in_text_set v xs =
     (case v of
        PStr s \<Rightarrow> Inr (s \<in> set xs)
      | PList ys \<Rightarrow> Inl (TypeErr (''unhashable type: '' @ repr_str ''list''))
      | PDict d \<Rightarrow> Inl (TypeErr (''unhashable type: '' @ repr_str ''dict''))
      | _ \<Rightarrow> Inr False)"

definition required_execution_fields :: "string list" where
  "required_execution_fields = [''executionId'', ''executor'', ''startedAt'', ''finishedAt'']"

definition validate_record_document :: "time_text \<Rightarrow> run_session \<Rightarrow> pyval \<Rightarrow> unit result" where
  "validate_record_document tt s v =
     (case v of
        PDict d \<Rightarrow>
          if dict_get d ''apiVersion'' \<noteq> PStr run_record_version then Inl (record_corruption ''unsupported run.json apiVersion'')
          else if dict_get d ''kind'' \<noteq> PStr run_record_kind then Inl (record_corruption ''invalid run.json kind'')
          else if dict_get d ''runId'' \<noteq> PStr (ru_run_id s) then Inl (record_corruption ''run.json belongs to a different Run'')
          else (case dict_get d ''execution'' of
            PDict x \<Rightarrow>
              if dict_get x ''terminal'' \<noteq> PBool True then Inl (record_corruption ''run.json must contain a terminal execution'')
              else ebind (in_text_set (dict_get x ''state'') terminal_states) (\<lambda>known.
                if \<not> known then Inl (record_corruption ''run.json contains an invalid terminal state'')
                else if dict_get x ''successful'' \<noteq> PBool (dict_get x ''state'' \<in> {PStr ''stopped'', PStr ''completed''})
                then Inl (record_corruption ''run.json successful flag does not match execution state'')
                else (case dict_get x ''plan'' of
                  PDict p \<Rightarrow>
                    if dict_get p ''planId'' \<noteq> PStr (ru_plan_id s) then Inl (record_corruption ''run.json belongs to a different Plan'')
                    else (case find (\<lambda>f. \<not> nonempty_text_val (dict_get x f)) required_execution_fields of
                      Some f \<Rightarrow> Inl (record_corruption (''run.json execution.'' @ f @ '' must be non-empty''))
                    | None \<Rightarrow>
                        if \<not> is_object (dict_get d ''summary'') then Inl (record_corruption ''run.json summary must be an object'')
                        else if \<not> is_object (dict_get d ''metadata'') then Inl (record_corruption ''run.json metadata must be an object'')
                        else ebind (persisted_timestamp record_corruption tt ''run.json execution.startedAt'' (dict_get x ''startedAt'')) (\<lambda>a.
                          ebind (persisted_timestamp record_corruption tt ''run.json execution.finishedAt'' (dict_get x ''finishedAt'')) (\<lambda>b.
                          if b < a then Inl (record_corruption ''run.json execution.finishedAt must not precede startedAt'')
                          else Inr ())))
                | _ \<Rightarrow> Inl (record_corruption ''run.json execution.plan must be an object'')))
          | _ \<Rightarrow> Inl (record_corruption ''run.json execution must be an object''))
      | _ \<Rightarrow> Inl (record_corruption ''run.json must contain a JSON object''))"

section \<open>The store\<close>

record record_store =
  rcs_session :: run_session
  rcs_file :: json_file

definition read_record :: "time_text \<Rightarrow> record_store \<Rightarrow> pyval option result" where
  "read_record tt st =
     (case rcs_file st of
        Absent \<Rightarrow> Inr None
      | Not_A_Document_File \<Rightarrow> Inl (record_corruption ''run.json exists but is not a file'')
      | Invalid_Json \<Rightarrow> Inl (record_corruption ''run.json contains invalid JSON'')
      | Json v \<Rightarrow> ebind (validate_record_document tt (rcs_session st) v) (\<lambda>_. Inr (Some v)))"

definition create_record ::
    "time_text \<Rightarrow> 'a execution_record \<Rightarrow> mapping option \<Rightarrow> mapping option \<Rightarrow> string option \<Rightarrow> (record_store, 'a run_record) act" where
  "create_record tt execution summary metadata io = (\<lambda>st.
     case ebind (record_run execution (PStr (ru_run_id (rcs_session st))) summary metadata) (\<lambda>run.
            if pr_plan_id (xr_plan (rr_execution run)) \<noteq> ru_plan_id (rcs_session st)
            then Inl (ValueErr ''ExecutionRecord belongs to a different RunSession PlanRecord'')
            else ebind (run_record_document tt run) (\<lambda>document. Inr (run, document))) of
       Inl e \<Rightarrow> (Inl e, st)
     | Inr (run, document) \<Rightarrow>
         (case io of
            Some e \<Rightarrow> (Inl (OSErr e), st)
          | None \<Rightarrow>
              if rcs_file st \<noteq> Absent then (Inl (NamedErr ''FileExistsError'' ''File exists: run.json''), st)
              else (Inr run, st\<lparr>rcs_file := Json document\<rparr>)))"

section \<open>Histories of one final record\<close>

record 'a record_call =
  rk_execution :: "'a execution_record"
  rk_summary :: "mapping option"
  rk_metadata :: "mapping option"
  rk_io :: "string option"

definition record_perform :: "time_text \<Rightarrow> 'a record_call \<Rightarrow> record_store \<Rightarrow> record_store" where
  "record_perform tt c st = snd (create_record tt (rk_execution c) (rk_summary c) (rk_metadata c) (rk_io c) st)"

definition record_reopen :: "time_text \<Rightarrow> record_store \<Rightarrow> record_store result" where
  "record_reopen tt st = ebind (read_record tt st) (\<lambda>_. Inr st)"

text \<open>An execution record as its constructor makes it.\<close>

definition wf_execution :: "'a execution_record \<Rightarrow> bool" where
  "wf_execution x =
     (plain_text (xr_execution_id x) \<and> plain_text (xr_executor x) \<and>
      (case (xr_started_at x, xr_finished_at x) of (Some a, Some b) \<Rightarrow> a \<le> b | (None, Some b) \<Rightarrow> False | _ \<Rightarrow> True))"

lemma mk_ExecutionRecord_wf:
  assumes "mk_ExecutionRecord i plan x s a b details = Inr r"
  shows "wf_execution r"
proof -
  from assms have "plain_text (xr_execution_id r)" "plain_text (xr_executor r)"
    by (auto simp: mk_ExecutionRecord_def ebind_eq_Inr dest: required_text_is_plain)
  with mk_ExecutionRecord_Inr [OF assms] show ?thesis by (auto simp: wf_execution_def split: option.split)
qed

definition published_record :: "record_store \<Rightarrow> pyval option" where
  "published_record st = (case rcs_file st of Json v \<Rightarrow> Some v | _ \<Rightarrow> None)"

definition record_ok :: "time_text \<Rightarrow> record_store \<Rightarrow> bool" where
  "record_ok tt st =
     (plain_text (ru_run_id (rcs_session st)) \<and>
      (case rcs_file st of Absent \<Rightarrow> True | Json v \<Rightarrow> validate_record_document tt (rcs_session st) v = Inr () | _ \<Rightarrow> False))"

lemma strict_json_mapping: "strict_json m (dict_of_mapping d) = Inr w \<Longrightarrow> is_object w"
  unfolding dict_of_mapping_def by (drule strict_json_dict) simp

text \<open>The document of a run is one that the reader accepts.\<close>

lemma execution_document_get [simp]:
  "dict_get [(PStr ''executionId'', a), (PStr ''executor'', b), (PStr ''state'', c), (PStr ''terminal'', d), (PStr ''successful'', e),
     (PStr ''startedAt'', f), (PStr ''finishedAt'', g), (PStr ''details'', h), (PStr ''plan'', i)] = (\<lambda>x.
       if x = ''executionId'' then a else if x = ''executor'' then b else if x = ''state'' then c else if x = ''terminal'' then d
       else if x = ''successful'' then e else if x = ''startedAt'' then f else if x = ''finishedAt'' then g
       else if x = ''details'' then h else if x = ''plan'' then i else PNone)"
  by (rule ext) (simp add: dict_get_def)

lemma record_document_get [simp]:
  "dict_get [(PStr ''apiVersion'', a), (PStr ''kind'', b), (PStr ''runId'', c), (PStr ''execution'', d), (PStr ''summary'', e),
     (PStr ''metadata'', f)] = (\<lambda>x.
       if x = ''apiVersion'' then a else if x = ''kind'' then b else if x = ''runId'' then c else if x = ''execution'' then d
       else if x = ''summary'' then e else if x = ''metadata'' then f else PNone)"
  by (rule ext) (simp add: dict_get_def)

lemma plan_document_get:
  "dict_get ((PStr ''planId'', a) # d) ''planId'' = a"
  by (simp add: dict_get_def)

lemma nonempty_plain: "plain_text s \<Longrightarrow> nonempty_text_val (PStr s)"
  by (simp add: plain_text_def nonempty_text_val_def)

lemma terminal_state_texts:
  "record_terminal s \<Longrightarrow> in_text_set (PStr (record_state_value s)) terminal_states = Inr True"
  "(PStr (record_state_value s) \<in> {PStr ''stopped'', PStr ''completed''}) = record_successful s"
  by (cases s; simp add: record_terminal_def record_successful_def in_text_set_def terminal_states_def record_state_value_def)+

lemma run_record_document_Inr:
  assumes "run_record_document tt run = Inr v"
  obtains started finished details parameters summary metadata where
    "opt_time tt (xr_started_at (rr_execution run)) = Inr started"
    "opt_time tt (xr_finished_at (rr_execution run)) = Inr finished" "is_object summary" "is_object metadata"
    "v = PDict [(PStr ''apiVersion'', PStr run_record_version), (PStr ''kind'', PStr run_record_kind),
        (PStr ''runId'', PStr (rr_run_id run)),
        (PStr ''execution'', execution_object (rr_execution run) started finished details parameters),
        (PStr ''summary'', summary), (PStr ''metadata'', metadata)]"
  using assms strict_json_mapping unfolding run_record_document_def Let_def ebind_eq_Inr by blast

lemma record_document_valid:
  assumes doc: "run_record_document tt run = Inr v" and tt: "honest_times tt"
    and wf: "wf_execution (rr_execution run)" and fin: "record_terminal (xr_state (rr_execution run))"
    and run_id: "rr_run_id run = ru_run_id s" and plan: "pr_plan_id (xr_plan (rr_execution run)) = ru_plan_id s"
  shows "validate_record_document tt s v = Inr ()"
proof -
  let ?x = "rr_execution run"
  from doc obtain started finished details parameters summary metadata where
    times: "opt_time tt (xr_started_at ?x) = Inr started" "opt_time tt (xr_finished_at ?x) = Inr finished"
    and dicts: "is_object summary" "is_object metadata"
    and v: "v = PDict [(PStr ''apiVersion'', PStr run_record_version), (PStr ''kind'', PStr run_record_kind),
        (PStr ''runId'', PStr (rr_run_id run)), (PStr ''execution'', execution_object ?x started finished details parameters),
        (PStr ''summary'', summary), (PStr ''metadata'', metadata)]"
    by (rule run_record_document_Inr)
  from times obtain a b where ab: "xr_started_at ?x = Some a" "started = PStr (tt_print tt a)"
    "xr_finished_at ?x = Some b" "finished = PStr (tt_print tt b)"
    by (auto simp: opt_time_def split: option.splits)
  obtain ps where ps: "plan_object (xr_plan ?x) parameters = PDict ps" "dict_get ps ''planId'' = PStr (ru_plan_id s)"
    by (simp add: plan_object_def plan_document_get plan)
  obtain xs where xs: "execution_object ?x started finished details parameters = PDict xs"
    and get: "dict_get xs ''executionId'' = PStr (xr_execution_id ?x)" "dict_get xs ''executor'' = PStr (xr_executor ?x)"
    "dict_get xs ''state'' = PStr (record_state_value (xr_state ?x))" "dict_get xs ''terminal'' = PBool (record_terminal (xr_state ?x))"
    "dict_get xs ''successful'' = PBool (record_successful (xr_state ?x))"
    "dict_get xs ''startedAt'' = started" "dict_get xs ''finishedAt'' = finished" "dict_get xs ''plan'' = PDict ps"
    by (simp add: execution_object_def ps(1))
  have "\<not> b < a" using wf ab by (simp add: wf_execution_def)
  moreover have "find (\<lambda>f. \<not> nonempty_text_val (dict_get xs f)) required_execution_fields = None"
    using wf ab nonempty_plain honest_print [OF tt] by (simp add: required_execution_fields_def wf_execution_def get)
  ultimately show ?thesis
    using fin dicts ab tt
    by (simp add: validate_record_document_def v run_id ps(2) terminal_state_texts xs [unfolded ab] get [unfolded ab] del: insert_iff)
qed

lemma create_record_effect:
  assumes run: "create_record tt x summary metadata io st = (r, u)" and ok: "record_ok tt st"
    and tt: "honest_times tt" and wf: "wf_execution x"
  shows "record_ok tt u \<and> rcs_session u = rcs_session st \<and>
    (case r of Inl e \<Rightarrow> u = st
     | Inr run \<Rightarrow> rcs_file st = Absent \<and> rr_execution run = x \<and> (\<exists>v. run_record_document tt run = Inr v \<and> rcs_file u = Json v))"
proof (cases r)
  case (Inl e)
  with run have "u = st" by (auto simp: create_record_def split: sum.splits option.splits if_splits)
  with Inl ok show ?thesis by simp
next
  case (Inr rec)
  with run obtain v where made: "record_run x (PStr (ru_run_id (rcs_session st))) summary metadata = Inr rec"
    and plan: "pr_plan_id (xr_plan (rr_execution rec)) = ru_plan_id (rcs_session st)"
    and v: "run_record_document tt rec = Inr v" and absent: "rcs_file st = Absent" and u: "u = st\<lparr>rcs_file := Json v\<rparr>"
    by (auto simp: create_record_def ebind_eq_Inr split: sum.splits option.splits if_splits)
  from made have "rr_execution rec = x" "record_terminal (xr_state x)"
    by (auto simp: record_run_def dest: mk_RunRecord_Inr)
  moreover have "rr_run_id rec = ru_run_id (rcs_session st)"
    using made ok by (auto simp: record_run_def mk_RunRecord_def record_ok_def split: if_splits)
  ultimately have "validate_record_document tt (rcs_session st) v = Inr ()"
    using record_document_valid [OF v tt] wf plan by simp
  with Inr absent v u \<open>rr_execution rec = x\<close> ok show ?thesis by (simp add: record_ok_def)
qed

interpretation run_record_file: write_once "record_perform tt" "record_reopen tt"
  "\<lambda>st. honest_times tt \<and> record_ok tt st" "\<lambda>c. wf_execution (rk_execution c)" published_record
proof
  fix st :: record_store and c :: "'a record_call"
  assume ok: "honest_times tt \<and> record_ok tt st"
  then show "record_reopen tt st = Inr st"
    by (auto simp: record_reopen_def record_ok_def read_record_def split: json_file.splits)
  assume wf: "wf_execution (rk_execution c)"
  obtain r u where run: "create_record tt (rk_execution c) (rk_summary c) (rk_metadata c) (rk_io c) st = (r, u)"
    by (cases "create_record tt (rk_execution c) (rk_summary c) (rk_metadata c) (rk_io c) st")
  note effect = create_record_effect [OF run _ _ wf]
  with ok run show "honest_times tt \<and> record_ok tt (record_perform tt c st)" by (simp add: record_perform_def)
  show "published_record (record_perform tt c st) = Some v" if "published_record st = Some v" for v
    using effect ok run that by (cases r) (auto simp: record_perform_def published_record_def)
qed

section \<open>Property\<close>

lemma create_record_occupied:
  assumes "rcs_file st \<noteq> Absent"
  shows "\<exists>e. create_record tt x summary metadata io st = (Inl e, st)"
  using assms by (auto simp: create_record_def split: sum.split option.split)

text \<open>
  C35: The final record of a Run is published at most once and then never changes: whatever creates
  came before, a create that returns found no file; from then on, after any further creates and
  restarts, the file is read, without a corruption error, as the document of the record that create
  returned, and every create raises and changes nothing.
\<close>

theorem run_record_published_once:
  assumes tt: "honest_times tt" and id: "plain_text (ru_run_id s)"
    and before: "calls_fine (\<lambda>c. wf_execution (rk_execution c)) calls"
      "store_history (record_perform tt) (record_reopen tt) calls \<lparr>rcs_session = s, rcs_file = Absent\<rparr> = Inr st"
    and create: "wf_execution x" "create_record tt x summary metadata io st = (Inr run, st1)"
    and later: "calls_fine (\<lambda>c. wf_execution (rk_execution c)) further"
  shows "rcs_file st = Absent \<and> rr_execution run = x \<and>
    (\<exists>v st2. run_record_document tt run = Inr v \<and>
       store_history (record_perform tt) (record_reopen tt) further st1 = Inr st2 \<and> read_record tt st2 = Inr (Some v) \<and>
       (\<forall>y sm md io'. \<exists>e. create_record tt y sm md io' st2 = (Inl e, st2)))"
proof -
  let ?ok = "\<lambda>st. honest_times tt \<and> record_ok tt st"
  have "?ok \<lparr>rcs_session = s, rcs_file = Absent\<rparr>" using tt id by (simp add: record_ok_def)
  from run_record_file.history_ok [OF this before(1)] before(2) have ok: "record_ok tt st" by auto
  from create_record_effect [OF create(2) ok tt create(1)] obtain v where
    st1: "record_ok tt st1" "rcs_file st1 = Json v" and v: "run_record_document tt run = Inr v"
    and absent: "rcs_file st = Absent" "rr_execution run = x" by auto
  have ok1: "?ok st1" using tt st1(1) by blast
  from run_record_file.history_ok [OF ok1 later] obtain st2 where
    run2: "store_history (record_perform tt) (record_reopen tt) further st1 = Inr st2" and ok2: "record_ok tt st2" by blast
  have "published_record st1 = Some v" by (simp add: published_record_def st1(2))
  from run_record_file.history_keeps [OF ok1 later run2 this] have "rcs_file st2 = Json v"
    by (simp add: published_record_def split: json_file.splits)
  then have read: "read_record tt st2 = Inr (Some v)" and "rcs_file st2 \<noteq> Absent"
    using ok2 by (simp_all add: read_record_def record_ok_def)
  have "\<forall>y sm md io'. \<exists>e. create_record tt y sm md io' st2 = (Inl e, st2)"
    by (intro allI create_record_occupied) fact
  with absent v run2 read show ?thesis by blast
qed

definition sample_execution :: "unit execution_record" where
  "sample_execution = \<lparr>xr_execution_id = ''system-1'', xr_plan = sample_plan_record, xr_executor = ''nodrix.system.orchestrator'',
     xr_state = RS_STOPPED, xr_started_at = Some 5, xr_finished_at = Some 9, xr_details = [(''scope_count'', PInt 1)]\<rparr>"

definition sample_record_call :: "unit record_call" where
  "sample_record_call = \<lparr>rk_execution = sample_execution, rk_summary = None, rk_metadata = None, rk_io = Some ''disk full''\<rparr>"

theorem run_record_published_once_witness:
  "\<exists>run st1 v st2. create_record unary_times sample_execution None None None \<lparr>rcs_session = sample_session, rcs_file = Absent\<rparr> = (Inr run, st1) \<and>
     store_history (record_perform unary_times) (record_reopen unary_times) [None, Some sample_record_call] st1 = Inr st2 \<and>
     read_record unary_times st2 = Inr (Some v)"
proof -
  let ?st = "\<lparr>rcs_session = sample_session, rcs_file = Absent\<rparr>"
  have "case fst (create_record unary_times sample_execution None None None ?st) of Inl _ \<Rightarrow> False | Inr _ \<Rightarrow> True" by code_simp
  then obtain run st1 where create: "create_record unary_times sample_execution None None None ?st = (Inr run, st1)"
    by (cases "create_record unary_times sample_execution None None None ?st") (auto split: sum.splits)
  have wf: "wf_execution sample_execution" and id: "plain_text (ru_run_id sample_session)" by code_simp+
  have first: "store_history (record_perform unary_times) (record_reopen unary_times) [Some sample_record_call] ?st = Inr ?st"
    by (simp add: record_perform_def create_record_def sample_record_call_def split: sum.split)
  have fine: "calls_fine (\<lambda>c. wf_execution (rk_execution c)) [None, Some sample_record_call]"
    "calls_fine (\<lambda>c. wf_execution (rk_execution c)) [Some sample_record_call]"
    using wf by (simp_all add: sample_record_call_def)
  from run_record_published_once [OF unary_times_honest id fine(2) first wf create fine(1)] create show ?thesis by blast
qed

text \<open>
  A state that is a list is not reported as a corruption of the file: the membership test raises.
\<close>

lemma unhashable_state_escapes:
  assumes "dict_get d ''apiVersion'' = PStr run_record_version" and "dict_get d ''kind'' = PStr run_record_kind"
    and "dict_get d ''runId'' = PStr (ru_run_id s)" and "dict_get d ''execution'' = PDict x"
    and "dict_get x ''terminal'' = PBool True" and "dict_get x ''state'' = PList ys"
  shows "validate_record_document tt s (PDict d) = Inl (TypeErr (''unhashable type: '' @ repr_str ''list''))"
  using assms by (simp add: validate_record_document_def in_text_set_def)

text \<open>Details the strict normalisation refuses keep the final record from being published.\<close>

lemma unsupported_detail_blocks_record:
  assumes "xr_details x = [(k, POther t)]"
  shows "\<exists>e. create_record tt x summary metadata io st = (Inl e, st)"
proof -
  have doc: "\<exists>e. run_record_document tt run = Inl e" if "rr_execution run = x" for run
    using assms that
    by (cases "opt_time tt (xr_started_at x)"; cases "opt_time tt (xr_finished_at x)")
       (auto simp: run_record_document_def Let_def dict_of_mapping_def)
  show ?thesis
  proof (cases "record_run x (PStr (ru_run_id (rcs_session st))) summary metadata")
    case (Inr run)
    then have "rr_execution run = x" by (auto simp: record_run_def dest: mk_RunRecord_Inr)
    with doc obtain e where "run_record_document tt run = Inl e" by blast
    with Inr show ?thesis by (simp add: create_record_def)
  qed (simp add: create_record_def)
qed

end
