(* ===== verification/Run_Journal.thy ===== *)
theory Run_Journal
  imports Durable_Store
begin

text \<open>
  The append-only event journal of a Run (run_events.py: RunEventJournal).

  The file is its lines: an entry is the document of a line, \<open>Torn\<close> a line that is not one JSON
  document, and a flag tells whether the last line is unfinished.  What the operating system does
  with a write is an argument: it may refuse, it may write a part of the line and say so only by
  the number of bytes it returns (the file is unbuffered and the code does not look at it), and
  \<open>fsync\<close> may fail after the line was written.  The text of a time stamp is a parameter.  A line
  that was written reads back as the document itself, which holds of JSON documents in the strict
  sense (\<open>json_doc\<close>: text keys, lists, finite numbers); the theorem asks for such events.

  The theorems: as long as a write is all or nothing, the journal is always recoverable, its
  sequence numbers are contiguous and its events are exactly the acknowledged ones, whenever it is
  reopened; a failed \<open>fsync\<close> breaks this with the next append.
\<close>

section \<open>Entries\<close>

definition event_record_version :: string where
  "event_record_version = ''nodrix.run-event-record/v1''"

definition event_record_kind :: string where
  "event_record_kind = ''RunEventRecord''"

definition corruption :: "string \<Rightarrow> py_error" where
  "corruption msg = NamedErr ''RunEventJournalCorruptionError'' msg"

definition nonempty_val :: "pyval \<Rightarrow> bool" where
  "nonempty_val v = (case v of PStr s \<Rightarrow> strip s \<noteq> [] | _ \<Rightarrow> False)"

definition versioned_event :: "pyval \<Rightarrow> (pyval \<times> pyval) list result" where
  "versioned_event value =
     (case value of
        PDict d \<Rightarrow>
          if \<not> nonempty_val (dict_get d ''apiVersion'') then Inl (ValueErr ''event.apiVersion must be a non-empty string'')
          else if \<not> nonempty_val (dict_get d ''kind'') then Inl (ValueErr ''event.kind must be a non-empty string'')
          else if \<not> json_writable (PDict d) then Inl (ValueErr ''event must contain only finite JSON-compatible values'')
          else Inr d
      | _ \<Rightarrow> Inl (TypeErr ''event must be a mapping''))"

text \<open>The record of one line.\<close>

definition event_record :: "(int \<Rightarrow> string) \<Rightarrow> string \<Rightarrow> int \<Rightarrow> int \<Rightarrow> (pyval \<times> pyval) list \<Rightarrow> (pyval \<times> pyval) list" where
  "event_record stamp_text run_id sequence recorded_at event =
     [(PStr ''apiVersion'', PStr event_record_version), (PStr ''kind'', PStr event_record_kind),
      (PStr ''runId'', PStr run_id), (PStr ''sequence'', PInt sequence),
      (PStr ''recordedAt'', PStr (stamp_text recorded_at)), (PStr ''event'', PDict event)]"

section \<open>The file\<close>

datatype journal_line = Entry pyval | Torn

datatype journal_file = No_File | Not_A_File | Lines "journal_line list" bool

text \<open>How much of a line reached the file.\<close>

datatype written = Whole | Part | Nothing

datatype io_outcome = Not_Opened string | Wrote written "string option"

definition write_line :: "journal_line \<Rightarrow> written \<Rightarrow> journal_file \<Rightarrow> journal_file" where
  "write_line l w f =
     (case f of
        Not_A_File \<Rightarrow> Not_A_File
      | No_File \<Rightarrow> (case w of Whole \<Rightarrow> Lines [l] False | Part \<Rightarrow> Lines [] True | Nothing \<Rightarrow> Lines [] False)
      | Lines ls unfinished \<Rightarrow>
          (case w of
             Nothing \<Rightarrow> Lines ls unfinished
           | Part \<Rightarrow> Lines ls True
           | Whole \<Rightarrow> Lines (ls @ [if unfinished then Torn else l]) False))"

section \<open>Recovery\<close>

definition check_entry :: "string \<Rightarrow> int \<Rightarrow> journal_line \<Rightarrow> unit result" where
  "check_entry run_id expected l =
     (case l of
        Torn \<Rightarrow> Inl (corruption ''events.jsonl contains an invalid JSON record'')
      | Entry (PDict d) \<Rightarrow>
          if dict_get d ''apiVersion'' \<noteq> PStr event_record_version then Inl (corruption ''unsupported Run event record apiVersion'')
          else if dict_get d ''kind'' \<noteq> PStr event_record_kind then Inl (corruption ''invalid Run event record kind'')
          else if dict_get d ''runId'' \<noteq> PStr run_id then Inl (corruption ''Run event record belongs to a different Run'')
          else if \<not> py_eq (dict_get d ''sequence'') (PInt expected) then Inl (corruption ''Run event sequence is not contiguous'')
          else (case dict_get d ''event'' of
                  PDict e \<Rightarrow>
                    (case versioned_event (PDict e) of
                       Inl _ \<Rightarrow> Inl (corruption ''Run event record contains an invalid versioned domain event'')
                     | Inr _ \<Rightarrow> Inr ())
                | _ \<Rightarrow> Inl (corruption ''Run event record has no event object''))
      | Entry _ \<Rightarrow> Inl (corruption ''Run event record must be a JSON object''))"

fun recover_lines :: "string \<Rightarrow> int \<Rightarrow> journal_line list \<Rightarrow> bool \<Rightarrow> int result" where
  "recover_lines run_id expected [] unfinished =
     (if unfinished then Inl (corruption ''events.jsonl contains an incomplete final record'') else Inr expected)"
| "recover_lines run_id expected (l # ls) unfinished =
     ebind (check_entry run_id expected l) (\<lambda>_. recover_lines run_id (expected + 1) ls unfinished)"

definition recover_next_sequence :: "string \<Rightarrow> journal_file \<Rightarrow> int result" where
  "recover_next_sequence run_id f =
     (case f of
        No_File \<Rightarrow> Inr 1
      | Not_A_File \<Rightarrow> Inl (corruption ''events.jsonl exists but is not a file'')
      | Lines ls unfinished \<Rightarrow> recover_lines run_id 1 ls unfinished)"

section \<open>The journal\<close>

record journal =
  jn_run_id :: string
  jn_file :: journal_file
  jn_next :: int

definition open_journal :: "string \<Rightarrow> journal_file \<Rightarrow> journal result" where
  "open_journal run_id f = ebind (recover_next_sequence run_id f) (\<lambda>n. Inr \<lparr>jn_run_id = run_id, jn_file = f, jn_next = n\<rparr>)"

text \<open>\<open>append\<close>; \<open>now\<close> is what the module's own clock says when no time is given.\<close>

definition journal_append ::
    "(int \<Rightarrow> string) \<Rightarrow> int \<Rightarrow> pyval \<Rightarrow> moment option \<Rightarrow> io_outcome \<Rightarrow> journal \<Rightarrow> (pyval \<times> pyval) list result \<times> journal" where
  "journal_append stamp_text now event recorded_at io j =
     (case ebind (versioned_event event) (\<lambda>e.
             ebind (case recorded_at of None \<Rightarrow> Inr now | Some m \<Rightarrow> aware ''recorded_at'' m) (\<lambda>t.
               Inr (event_record stamp_text (jn_run_id j) (jn_next j) t e))) of
        Inl e \<Rightarrow> (Inl e, j)
      | Inr entry \<Rightarrow>
          (case io of
             Not_Opened err \<Rightarrow> (Inl (OSErr err), j)
           | Wrote w err \<Rightarrow>
               if jn_file j = Not_A_File then (Inl (OSErr ''Is a directory''), j)
               else
                 let j = j\<lparr>jn_file := write_line (Entry (PDict entry)) w (jn_file j)\<rparr> in
                 (case err of
                    Some e \<Rightarrow> (Inl (OSErr e), j)
                  | None \<Rightarrow> (Inr entry, j\<lparr>jn_next := jn_next j + 1\<rparr>))))"

text \<open>\<open>read_all\<close> checks the file again before it returns the documents.\<close>

definition read_all :: "journal \<Rightarrow> pyval list result" where
  "read_all j =
     (case jn_file j of
        Lines ls unfinished \<Rightarrow>
          ebind (recover_next_sequence (jn_run_id j) (jn_file j)) (\<lambda>_.
            Inr (List.map_filter (\<lambda>l. case l of Entry d \<Rightarrow> Some d | Torn \<Rightarrow> None) ls))
      | No_File \<Rightarrow> Inr []
      | Not_A_File \<Rightarrow> ebind (recover_next_sequence (jn_run_id j) (jn_file j)) (\<lambda>_. Inr []))"

section \<open>Histories of one journal\<close>

datatype journal_call = Append pyval "moment option" io_outcome

text \<open>The journal and, in order, the records it acknowledged.\<close>

type_synonym journal_state = "journal \<times> (pyval \<times> pyval) list list"

fun journal_perform :: "(int \<Rightarrow> string) \<Rightarrow> int \<Rightarrow> journal_call \<Rightarrow> journal_state \<Rightarrow> journal_state" where
  "journal_perform stamp_text now (Append event m io) (j, acked) =
     (case journal_append stamp_text now event m io j of
        (Inl _, j) \<Rightarrow> (j, acked)
      | (Inr entry, j) \<Rightarrow> (j, acked @ [entry]))"

definition journal_reopen :: "journal_state \<Rightarrow> journal_state result" where
  "journal_reopen st = ebind (open_journal (jn_run_id (fst st)) (jn_file (fst st))) (\<lambda>j. Inr (j, snd st))"

text \<open>A write is all or nothing, and reports what it did; the events are documents.\<close>

definition atomic_io :: "io_outcome \<Rightarrow> bool" where
  "atomic_io io = (case io of Not_Opened e \<Rightarrow> True | Wrote w err \<Rightarrow> (w = Whole \<and> err = None) \<or> (w = Nothing \<and> err \<noteq> None))"

fun atomic_call :: "journal_call \<Rightarrow> bool" where
  "atomic_call (Append event m io) = (json_doc event \<and> atomic_io io)"

text \<open>The invariant: the file holds the acknowledged records, numbered from one.\<close>

definition numbered_record :: "string \<Rightarrow> int \<Rightarrow> (pyval \<times> pyval) list \<Rightarrow> bool" where
  "numbered_record run_id n r \<longleftrightarrow> dict_get r ''sequence'' = PInt n \<and> check_entry run_id n (Entry (PDict r)) = Inr ()"

definition journal_ok :: "journal \<times> (pyval \<times> pyval) list list \<Rightarrow> bool" where
  "journal_ok st \<longleftrightarrow> (case st of (j, acked) \<Rightarrow>
     (case jn_file j of
        No_File \<Rightarrow> acked = []
      | Not_A_File \<Rightarrow> False
      | Lines ls unfinished \<Rightarrow> ls = map (\<lambda>r. Entry (PDict r)) acked \<and> \<not> unfinished) \<and>
     jn_next j = int (length acked) + 1 \<and>
     (\<forall>i < length acked. numbered_record (jn_run_id j) (int i + 1) (acked ! i)))"

lemma versioned_event_Inr: "versioned_event v = Inr e \<Longrightarrow> v = PDict e \<and> versioned_event (PDict e) = Inr e"
  by (auto simp: versioned_event_def split: pyval.splits if_splits)

lemma event_record_get [simp]:
  "dict_get (event_record stamp_text r n t e) ''apiVersion'' = PStr event_record_version"
  "dict_get (event_record stamp_text r n t e) ''kind'' = PStr event_record_kind"
  "dict_get (event_record stamp_text r n t e) ''runId'' = PStr r"
  "dict_get (event_record stamp_text r n t e) ''sequence'' = PInt n"
  "dict_get (event_record stamp_text r n t e) ''event'' = PDict e"
  by (simp_all add: dict_get_def event_record_def)

lemma event_record_numbered: "versioned_event (PDict e) = Inr e \<Longrightarrow> numbered_record r n (event_record stamp_text r n t e)"
  by (simp add: numbered_record_def check_entry_def)

lemma recover_records:
  assumes "\<forall>i < length rs. numbered_record run_id (n + int i) (rs ! i)"
  shows "recover_lines run_id n (map (\<lambda>r. Entry (PDict r)) rs) False = Inr (n + int (length rs))"
  using assms
proof (induction rs arbitrary: n)
  case (Cons r rs)
  have "numbered_record run_id n r" using Cons.prems by force
  moreover have "\<forall>i < length rs. numbered_record run_id (n + 1 + int i) (rs ! i)"
  proof (intro allI impI)
    fix i assume "i < length rs"
    with Cons.prems [rule_format, of "Suc i"] have "numbered_record run_id (n + int (Suc i)) (rs ! i)" by (simp del: of_nat_Suc)
    then show "numbered_record run_id (n + 1 + int i) (rs ! i)" by (simp add: algebra_simps)
  qed
  ultimately show ?case using Cons.IH [of "n + 1"] by (simp add: numbered_record_def algebra_simps)
qed simp

lemma recover_lines_append:
  "recover_lines r n (ls @ ls') b = ebind (recover_lines r n ls False) (\<lambda>k. recover_lines r k ls' b)"
  by (induction ls arbitrary: n) (simp_all add: ebind_assoc)

lemma journal_ok_recovers: "journal_ok (j, acked) \<Longrightarrow> recover_next_sequence (jn_run_id j) (jn_file j) = Inr (jn_next j)"
  using recover_records [of acked "jn_run_id j" 1]
  by (auto simp: journal_ok_def recover_next_sequence_def add.commute split: journal_file.splits)

lemma journal_append_ok:
  assumes ok: "journal_ok (j, acked)" and io: "atomic_io io" and a: "journal_append stamp_text now event m io j = (r, j')"
  shows "journal_ok (j', case r of Inl _ \<Rightarrow> acked | Inr entry \<Rightarrow> acked @ [entry]) \<and> jn_run_id j' = jn_run_id j"
proof (cases r)
  case (Inl e)
  with a ok io show ?thesis
    by (auto simp: journal_append_def journal_ok_def atomic_io_def write_line_def Let_def
             split: sum.splits io_outcome.splits if_splits option.splits journal_file.splits written.splits)
next
  case (Inr entry)
  from a Inr obtain e t where e: "versioned_event event = Inr e" and entry: "entry = event_record stamp_text (jn_run_id j) (jn_next j) t e"
    by (auto simp: journal_append_def Let_def result_elims split: sum.splits io_outcome.splits if_splits option.splits)
  from a Inr io have j': "j' = j\<lparr>jn_file := write_line (Entry (PDict entry)) Whole (jn_file j), jn_next := jn_next j + 1\<rparr>"
    by (auto simp: journal_append_def atomic_io_def Let_def split: sum.splits io_outcome.splits if_splits option.splits)
  have num: "numbered_record (jn_run_id j) (int (length acked) + 1) entry"
    using event_record_numbered versioned_event_Inr [OF e] ok by (simp add: entry journal_ok_def)
  have "\<forall>i < length (acked @ [entry]). numbered_record (jn_run_id j) (int i + 1) ((acked @ [entry]) ! i)"
    using ok num by (auto simp: journal_ok_def nth_append less_Suc_eq)
  with ok Inr show ?thesis by (auto simp: j' journal_ok_def write_line_def split: journal_file.splits)
qed

lemma journal_perform_ok:
  assumes "journal_ok st" and "atomic_call c"
  shows "journal_ok (journal_perform stamp_text now c st) \<and>
    jn_run_id (fst (journal_perform stamp_text now c st)) = jn_run_id (fst st) \<and>
    prefix (snd st) (snd (journal_perform stamp_text now c st))"
proof (cases c)
  case (Append event m io)
  obtain j acked where st: "st = (j, acked)" by (cases st)
  obtain r j' where a: "journal_append stamp_text now event m io j = (r, j')" by (cases "journal_append stamp_text now event m io j")
  from journal_append_ok [OF _ _ a, of acked] assms Append st a show ?thesis by (cases r) auto
qed

interpretation journal_store: append_only "journal_perform stamp_text now" journal_reopen journal_ok atomic_call snd
proof
  fix st :: journal_state and c
  assume ok: "journal_ok st"
  show "journal_reopen st = Inr st"
    using ok journal_ok_recovers [of "fst st" "snd st"] by (cases st) (simp add: journal_reopen_def open_journal_def)
  assume "atomic_call c"
  with ok show "journal_ok (journal_perform stamp_text now c st)"
    and "prefix (snd st) (snd (journal_perform stamp_text now c st))"
    by (simp_all add: journal_perform_ok)
qed

lemma journal_history_run_id:
  assumes "journal_ok st" and "calls_fine atomic_call calls"
    and "store_history (journal_perform stamp_text now) journal_reopen calls st = Inr t"
  shows "jn_run_id (fst t) = jn_run_id (fst st)"
  by (rule journal_store.history_preserves [OF assms]) (simp_all add: journal_perform_ok)

section \<open>Properties\<close>

text \<open>
  C33: The journal of a Run is durable evidence: after any sequence of appends and reopenings in
  which a write of a document is all or nothing, the file can be recovered and read, it holds exactly the records
  that were acknowledged, in the order of their acknowledgement and numbered from one without a
  gap, and a writer that opens it goes on with the next number.
\<close>

theorem journal_is_recoverable:
  assumes "calls_fine atomic_call calls"
  shows "\<exists>j acked. store_history (journal_perform stamp_text now) journal_reopen calls
      (\<lparr>jn_run_id = run_id, jn_file = No_File, jn_next = 1\<rparr>, []) = Inr (j, acked) \<and>
    read_all j = Inr (map PDict acked) \<and> open_journal run_id (jn_file j) = Inr j \<and>
    (\<forall>i < length acked. dict_get (acked ! i) ''sequence'' = PInt (int i + 1))"
proof -
  let ?st = "(\<lparr>jn_run_id = run_id, jn_file = No_File, jn_next = 1\<rparr>, [])"
  have init: "journal_ok ?st" by (simp add: journal_ok_def)
  from journal_store.history_ok [OF init assms, of stamp_text now] obtain j acked where
    run: "store_history (journal_perform stamp_text now) journal_reopen calls ?st = Inr (j, acked)" and ok: "journal_ok (j, acked)"
    by auto
  have id: "jn_run_id j = run_id" using journal_history_run_id [OF init assms run] by simp
  note rec = journal_ok_recovers [OF ok]
  have "List.map_filter (\<lambda>l. case l of Entry d \<Rightarrow> Some d | Torn \<Rightarrow> None) (map (\<lambda>r. Entry (PDict r)) acked) = map PDict acked"
    by (simp add: List.map_filter_def comp_def)
  with ok rec have "read_all j = Inr (map PDict acked)"
    by (auto simp: read_all_def journal_ok_def split: journal_file.splits)
  moreover have "open_journal run_id (jn_file j) = Inr j" using rec id by (simp add: open_journal_def)
  moreover have "\<forall>i < length acked. dict_get (acked ! i) ''sequence'' = PInt (int i + 1)"
    using ok by (auto simp: journal_ok_def numbered_record_def)
  ultimately show ?thesis using run by blast
qed

definition sample_event :: pyval where
  "sample_event = PDict [(PStr ''apiVersion'', PStr ''nodrix.execution.event/v1''), (PStr ''kind'', PStr ''ExecutionEvent'')]"

definition sample_calls :: "journal_call option list" where
  "sample_calls = [Some (Append sample_event None (Wrote Whole None)), Some (Append sample_event None (Not_Opened ''full'')),
     None, Some (Append sample_event None (Wrote Whole None))]"

theorem journal_is_recoverable_witness:
  "\<exists>j acked. store_history (journal_perform int_str 0) journal_reopen sample_calls
       (\<lparr>jn_run_id = ''run_1'', jn_file = No_File, jn_next = 1\<rparr>, []) = Inr (j, acked) \<and>
     read_all j = Inr (map PDict acked)"
proof -
  have "calls_fine atomic_call sample_calls" by (simp add: sample_calls_def atomic_io_def sample_event_def)
  from journal_is_recoverable [OF this, of int_str 0 "''run_1''"] show ?thesis by blast
qed

lemma append_written:
  assumes "journal_append stamp_text now event m (Wrote Whole err) j = (r, j')" and "jn_file j \<noteq> Not_A_File"
    and "\<And>e. r = Inl e \<Longrightarrow> err \<noteq> None \<and> e = OSErr (the err)"
  obtains e t where "versioned_event (PDict e) = Inr e"
    "j' = j\<lparr>jn_file := write_line (Entry (PDict (event_record stamp_text (jn_run_id j) (jn_next j) t e))) Whole (jn_file j),
            jn_next := jn_next j + (if err = None then 1 else 0)\<rparr>"
proof (cases "ebind (versioned_event event) (\<lambda>e.
             ebind (case m of None \<Rightarrow> Inr now | Some m \<Rightarrow> aware ''recorded_at'' m) (\<lambda>t.
               Inr (event_record stamp_text (jn_run_id j) (jn_next j) t e)))")
  case (Inl e)
  then have "e \<noteq> OSErr (the err)"
    by (auto simp: versioned_event_def aware_def ebind_def split: sum.splits pyval.splits if_splits option.splits moment.splits)
  with assms Inl show thesis by (simp add: journal_append_def)
next
  case (Inr entry)
  then obtain e t where e: "versioned_event event = Inr e" "entry = event_record stamp_text (jn_run_id j) (jn_next j) t e"
    by (auto simp: result_elims)
  with versioned_event_Inr [OF e(1)] assms(1,2) Inr show thesis
    by (intro that [of e t]) (auto simp: journal_append_def Let_def split: option.splits)
qed

text \<open>
  C39: An \<open>fsync\<close> that fails after the line was written breaks the journal for good: the writer
  keeps its sequence number, the next append that succeeds repeats it, and from then on opening or
  reading the journal raises a corruption error.
\<close>

theorem failed_fsync_breaks_journal:
  assumes ok: "journal_ok (j, acked)"
    and first: "journal_append stamp_text now event m (Wrote Whole (Some e)) j = (Inl (OSErr e), j1)"
    and second: "journal_append stamp_text now event' m' (Wrote Whole None) j1 = (Inr entry, j2)"
  shows "open_journal (jn_run_id j) (jn_file j2) = Inl (corruption ''Run event sequence is not contiguous'') \<and>
    read_all j2 = Inl (corruption ''Run event sequence is not contiguous'')"
proof -
  let ?rec = "\<lambda>t v. event_record stamp_text (jn_run_id j) (jn_next j) t v"
  have is_file: "jn_file j \<noteq> Not_A_File" using ok by (auto simp: journal_ok_def)
  from append_written [OF first is_file] obtain v t where v: "versioned_event (PDict v) = Inr v"
    and j1: "j1 = j\<lparr>jn_file := write_line (Entry (PDict (?rec t v))) Whole (jn_file j)\<rparr>" by auto
  have "jn_file j1 \<noteq> Not_A_File" using is_file by (auto simp: j1 write_line_def split: journal_file.splits)
  from append_written [OF second this] obtain w u where w: "versioned_event (PDict w) = Inr w"
    and j2: "j2 = j1\<lparr>jn_file := write_line (Entry (PDict (?rec u w))) Whole (jn_file j1), jn_next := jn_next j + 1\<rparr>"
    by (auto simp: j1)
  have two: "jn_file j2 = Lines (map (\<lambda>r. Entry (PDict r)) (acked @ [?rec t v]) @ [Entry (PDict (?rec u w))]) False"
    using ok by (auto simp: j1 j2 write_line_def journal_ok_def split: journal_file.splits)
  let ?ls = "map (\<lambda>r. Entry (PDict r)) (acked @ [?rec t v])" and ?x = "Entry (PDict (?rec u w))"
  have good: "recover_lines (jn_run_id j) 1 ?ls False = Inr (1 + int (length (acked @ [?rec t v])))"
    using ok event_record_numbered [OF v, of "jn_run_id j" "jn_next j" stamp_text t]
    by (intro recover_records) (auto simp: journal_ok_def nth_append less_Suc_eq add.commute)
  have bad: "check_entry (jn_run_id j) (1 + int (length (acked @ [?rec t v]))) ?x =
      Inl (corruption ''Run event sequence is not contiguous'')"
    using ok by (simp add: check_entry_def journal_ok_def)
  have "recover_next_sequence (jn_run_id j) (jn_file j2) =
      ebind (recover_lines (jn_run_id j) 1 ?ls False) (\<lambda>k. recover_lines (jn_run_id j) k [?x] False)"
    by (simp only: recover_next_sequence_def two journal_file.case recover_lines_append)
  also have "\<dots> = Inl (corruption ''Run event sequence is not contiguous'')"
    by (simp only: good bad ebind_Inr recover_lines.simps ebind_Inl)
  finally have "recover_next_sequence (jn_run_id j) (jn_file j2) = Inl (corruption ''Run event sequence is not contiguous'')" .
  moreover have "jn_run_id j2 = jn_run_id j" by (simp add: j1 j2)
  ultimately show ?thesis using two by (simp add: open_journal_def read_all_def)
qed

theorem failed_fsync_breaks_journal_witness:
  "\<exists>j1 j2 entry. journal_append int_str 0 sample_event None (Wrote Whole (Some ''EIO'')) \<lparr>jn_run_id = ''run_1'', jn_file = No_File, jn_next = 1\<rparr> =
       (Inl (OSErr ''EIO''), j1) \<and> journal_append int_str 0 sample_event None (Wrote Whole None) j1 = (Inr entry, j2) \<and>
     open_journal ''run_1'' (jn_file j2) = Inl (corruption ''Run event sequence is not contiguous'')"
proof -
  let ?j = "\<lparr>jn_run_id = ''run_1'', jn_file = No_File, jn_next = 1\<rparr>"
  have ok: "journal_ok (?j, [])" by (simp add: journal_ok_def)
  obtain j1 where a: "journal_append int_str 0 sample_event None (Wrote Whole (Some ''EIO'')) ?j = (Inl (OSErr ''EIO''), j1)"
    by (simp add: journal_append_def versioned_event_def sample_event_def dict_get_def nonempty_val_def sortable_keys_def json_key_def
        strip_def strip_by_def is_space_def)
  obtain entry j2 where b: "journal_append int_str 0 sample_event None (Wrote Whole None) j1 = (Inr entry, j2)"
  proof -
    have "case journal_append int_str 0 sample_event None (Wrote Whole None)
       (snd (journal_append int_str 0 sample_event None (Wrote Whole (Some ''EIO'')) ?j)) of (Inl _, _) \<Rightarrow> False | _ \<Rightarrow> True" by code_simp
    with a that show thesis by (auto split: prod.splits sum.splits)
  qed
  from failed_fsync_breaks_journal [OF ok a b] a b show ?thesis by auto
qed

text \<open>A short write is acknowledged although the record is not there.\<close>

lemma short_write_acknowledged:
  assumes "journal_ok (j, acked)" and "journal_append stamp_text now event m (Wrote Part None) j = (Inr entry, j')"
  shows "open_journal (jn_run_id j) (jn_file j') = Inl (corruption ''events.jsonl contains an incomplete final record'')"
proof -
  from assms have f: "jn_file j' = Lines (map (\<lambda>r. Entry (PDict r)) acked) True"
    by (auto simp: journal_append_def Let_def journal_ok_def write_line_def split: sum.splits if_splits journal_file.splits)
  have "recover_lines r n ls True = Inl (corruption ''events.jsonl contains an incomplete final record'')"
    if "recover_lines r n ls False = Inr k" for r n ls k
    using that by (induction ls arbitrary: n) (auto simp: result_elims)
  with recover_records [of acked "jn_run_id j" 1] assms(1) f show ?thesis
    by (auto simp: open_journal_def recover_next_sequence_def journal_ok_def add.commute)
qed

end
