(* ===== verification/Execution_Events.thy ===== *)
theory Execution_Events
  imports Orchestrator Run_Journal
begin

text \<open>
  The public event stream of a System execution (system/execution_events.py): the documents of
  hierarchical statuses, events with the checks of their constructor, and the conversion of the
  orchestrator's startup events.

  The text of a time stamp, of a dictionary key that is no text and what becomes of a value of
  another type (its text, the list of a set, the value of an enumeration, or the error for a datetime
  without a time zone) are parameters.  The theorem: whatever the orchestrator reports can be recorded
  - its startup events convert, and their documents are accepted by the journal and say what happened.
\<close>

section \<open>Lenient normalisation\<close>

record event_texts =
  et_stamp :: "int \<Rightarrow> string"
  et_key :: "pyval \<Rightarrow> string"
  et_other :: "string \<Rightarrow> pyval result"

definition float_text :: "pyfloat \<Rightarrow> string" where
  "float_text f = (case f of PosInf \<Rightarrow> ''inf'' | NegInf \<Rightarrow> ''-inf'' | _ \<Rightarrow> ''nan'')"

definition key_text :: "event_texts \<Rightarrow> pyval \<Rightarrow> string" where
  "key_text et k = (case k of PStr s \<Rightarrow> s | _ \<Rightarrow> et_key et k)"

text \<open>A dictionary comprehension: a key that comes again keeps its place and takes the new value.\<close>

definition put_entry :: "(pyval \<times> pyval) list \<Rightarrow> pyval \<times> pyval \<Rightarrow> (pyval \<times> pyval) list" where
  "put_entry d e =
     (if fst e \<in> fst ` set d then map (\<lambda>x. if fst x = fst e then e else x) d else d @ [e])"

definition dict_comprehension :: "(pyval \<times> pyval) list \<Rightarrow> (pyval \<times> pyval) list" where
  "dict_comprehension es = foldl put_entry [] es"

fun event_json :: "event_texts \<Rightarrow> pyval \<Rightarrow> pyval result" where
  "event_json et (PFloat f) = Inr (if finite_float f then PFloat f else PStr (float_text f))"
| "event_json et (PList xs) = ebind (emap (event_json et) xs) (\<lambda>ys. Inr (PList ys))"
| "event_json et (PTuple xs) = ebind (emap (event_json et) xs) (\<lambda>ys. Inr (PList ys))"
| "event_json et (PDict d) =
     ebind (emap (\<lambda>(k, v). ebind (event_json et v) (\<lambda>w. Inr (PStr (key_text et k), w))) d) (\<lambda>es.
       Inr (PDict (dict_comprehension es)))"
| "event_json et (POther t) = et_other et t"
| "event_json et v = Inr v"

definition event_mapping :: "event_texts \<Rightarrow> mapping \<Rightarrow> pyval result" where
  "event_mapping et m = event_json et (PDict (map (\<lambda>(k, v). (PStr k, v)) m))"

section \<open>Statuses\<close>

definition health_value :: "health_state \<Rightarrow> string" where
  "health_value h = (case h of UNKNOWN \<Rightarrow> ''unknown'' | HEALTHY_STATE \<Rightarrow> ''healthy'' | DEGRADED \<Rightarrow> ''degraded''
     | UNHEALTHY \<Rightarrow> ''unhealthy'')"

definition optional_str :: "string option \<Rightarrow> pyval" where
  "optional_str x = (case x of None \<Rightarrow> PNone | Some s \<Rightarrow> PStr s)"

definition optional_bool :: "bool option \<Rightarrow> pyval" where
  "optional_bool x = (case x of None \<Rightarrow> PNone | Some b \<Rightarrow> PBool b)"

definition observation_document :: "observation option \<Rightarrow> pyval" where
  "observation_document x =
     (case x of
        None \<Rightarrow> PNone
      | Some ob \<Rightarrow> PDict [(PStr ''ready'', optional_bool (ob_ready ob)), (PStr ''health'', PStr (health_value (ob_health ob))),
                        (PStr ''message'', optional_str (ob_message ob))])"

definition backend_status_document :: "event_texts \<Rightarrow> backend_status \<Rightarrow> pyval result" where
  "backend_status_document et st =
     ebind (event_mapping et (bs_details st)) (\<lambda>details.
     Inr (PDict [(PStr ''backend'', PStr (bs_backend st)), (PStr ''executionId'', PStr (bs_execution_id st)),
       (PStr ''state'', PStr (state_value (bs_state st))), (PStr ''terminal'', PBool (state_terminal (bs_state st))),
       (PStr ''successful'', PBool (state_successful (bs_state st))), (PStr ''message'', optional_str (bs_message st)),
       (PStr ''details'', details), (PStr ''observation'', observation_document (bs_observation st))]))"

definition scope_status_document :: "event_texts \<Rightarrow> scope_status \<Rightarrow> pyval result" where
  "scope_status_document et x =
     ebind (backend_status_document et (sst_status x)) (\<lambda>status.
     Inr (PDict [(PStr ''scope'', PDict [(PStr ''id'', PStr (scope_id (sst_scope x))), (PStr ''target'', PStr (sc_target (sst_scope x))),
         (PStr ''backend'', PStr (sc_backend (sst_scope x)))]),
       (PStr ''status'', status)]))"

definition instance_document :: "planned_instance \<Rightarrow> pyval" where
  "instance_document i =
     PDict [(PStr ''name'', PStr (in_name i)), (PStr ''definition'', PStr (pl_system (plan_body (in_plan i)))),
       (PStr ''revision'', PStr (in_revision i)), (PStr ''ordinal'', PInt (int (in_ordinal i)))]"

fun system_status_document :: "event_texts \<Rightarrow> system_status \<Rightarrow> pyval result"
  and child_status_document :: "event_texts \<Rightarrow> child_status \<Rightarrow> pyval result" where
  "system_status_document et (SystemExecutionStatus execution_id state scopes systems message details observation) =
     ebind (event_mapping et details) (\<lambda>ds.
     ebind (emap (scope_status_document et) scopes) (\<lambda>scs.
     ebind (emap (child_status_document et) systems) (\<lambda>kids.
     Inr (PDict [(PStr ''executionId'', PStr execution_id), (PStr ''state'', PStr (state_value state)),
       (PStr ''terminal'', PBool (state_terminal state)), (PStr ''successful'', PBool (state_successful state)),
       (PStr ''message'', optional_str message), (PStr ''details'', ds),
       (PStr ''observation'', observation_document observation),
       (PStr ''scopes'', PList scs), (PStr ''systems'', PList kids)]))))"
| "child_status_document et (ChildStatus i st) =
     ebind (system_status_document et st) (\<lambda>status.
     Inr (PDict [(PStr ''instance'', instance_document i), (PStr ''status'', status)]))"

section \<open>Events\<close>

datatype execution_event_kind =
    EE_PREPARED | EE_STARTED | EE_CHILD_STARTED | EE_DEPENDENCY_WAITING | EE_DEPENDENCY_SATISFIED | EE_DEPENDENCY_FAILED
  | EE_SNAPSHOT | EE_STOPPING | EE_FINISHED | EE_ERROR

definition event_kind_value :: "execution_event_kind \<Rightarrow> string" where
  "event_kind_value k = (case k of EE_PREPARED \<Rightarrow> ''prepared'' | EE_STARTED \<Rightarrow> ''started'' | EE_CHILD_STARTED \<Rightarrow> ''child_started''
     | EE_DEPENDENCY_WAITING \<Rightarrow> ''dependency_waiting'' | EE_DEPENDENCY_SATISFIED \<Rightarrow> ''dependency_satisfied''
     | EE_DEPENDENCY_FAILED \<Rightarrow> ''dependency_failed'' | EE_SNAPSHOT \<Rightarrow> ''snapshot'' | EE_STOPPING \<Rightarrow> ''stopping''
     | EE_FINISHED \<Rightarrow> ''finished'' | EE_ERROR \<Rightarrow> ''error'')"

record execution_event =
  xe_event :: execution_event_kind
  xe_system :: string
  xe_timestamp :: int
  xe_execution_id :: "string option"
  xe_status :: "system_status option"
  xe_message :: "string option"
  xe_details :: mapping

definition blank_text :: "string option \<Rightarrow> bool" where
  "blank_text x = (case x of None \<Rightarrow> False | Some s \<Rightarrow> strip s = [])"

definition event_timestamp :: "moment \<Rightarrow> int result" where
  "event_timestamp m =
     (case m of Aware t \<Rightarrow> Inr t
      | Naive \<Rightarrow> Inl (ValueErr ''timestamp must include timezone information'')
      | Not_Datetime \<Rightarrow> Inl (TypeErr ''timestamp must be a datetime''))"

definition resolved_execution_id :: "execution_event \<Rightarrow> string option" where
  "resolved_execution_id e =
     (case xe_execution_id e of Some x \<Rightarrow> Some x | None \<Rightarrow> map_option ss_execution_id (xe_status e))"

definition foreign_status :: "string option \<Rightarrow> system_status option \<Rightarrow> bool" where
  "foreign_status execution_id status =
     (case (execution_id, status) of (Some x, Some st) \<Rightarrow> ss_execution_id st \<noteq> x | _ \<Rightarrow> False)"

definition needs_execution_id :: "execution_event_kind \<Rightarrow> bool" where
  "needs_execution_id k =
     (k \<in> {EE_STARTED, EE_CHILD_STARTED, EE_DEPENDENCY_WAITING, EE_DEPENDENCY_SATISFIED, EE_DEPENDENCY_FAILED, EE_STOPPING})"

definition mk_ExecutionEvent ::
    "execution_event_kind \<Rightarrow> string \<Rightarrow> moment \<Rightarrow> string option \<Rightarrow> system_status option \<Rightarrow> string option \<Rightarrow> mapping \<Rightarrow>
     execution_event result" where
  "mk_ExecutionEvent event system timestamp execution_id status message details =
     (if strip system = [] then Inl (ValueErr ''system must be a non-empty string'')
      else ebind (event_timestamp timestamp) (\<lambda>t.
        if blank_text execution_id then Inl (ValueErr ''execution_id must be a non-empty string or None'')
        else if blank_text message then Inl (ValueErr ''message must be a non-empty string or None'')
        else if foreign_status execution_id status then Inl (ValueErr ''execution_id does not match status.execution_id'')
        else if event \<in> {EE_SNAPSHOT, EE_FINISHED} \<and> status = None
        then Inl (ValueErr (event_kind_value event @ '' events require status''))
        else if event = EE_FINISHED \<and> \<not> (case status of None \<Rightarrow> True | Some st \<Rightarrow> ss_terminal st)
        then Inl (ValueErr ''finished events require terminal status'')
        else
          let e = \<lparr>xe_event = event, xe_system = strip system, xe_timestamp = t, xe_execution_id = execution_id,
                   xe_status = status, xe_message = message, xe_details = details\<rparr> in
          if needs_execution_id event \<and> resolved_execution_id e = None
          then Inl (ValueErr (event_kind_value event @ '' events require execution_id''))
          else Inr e))"

definition event_document :: "event_texts \<Rightarrow> execution_event \<Rightarrow> pyval result" where
  "event_document et e =
     ebind (event_mapping et (xe_details e)) (\<lambda>details.
     ebind (case xe_status e of None \<Rightarrow> Inr PNone | Some st \<Rightarrow> system_status_document et st) (\<lambda>status.
     Inr (PDict [(PStr ''apiVersion'', PStr ''nodrix.execution.event/v1''), (PStr ''kind'', PStr ''ExecutionEvent''),
       (PStr ''event'', PStr (event_kind_value (xe_event e))), (PStr ''timestamp'', PStr (et_stamp et (xe_timestamp e))),
       (PStr ''system'', PStr (xe_system e)), (PStr ''executionId'', optional_str (resolved_execution_id e)),
       (PStr ''message'', optional_str (xe_message e)), (PStr ''details'', details), (PStr ''status'', status)])))"

section \<open>Startup events\<close>

definition startup_kind :: "event_kind \<Rightarrow> execution_event_kind" where
  "startup_kind k = (case k of CHILD_STARTED \<Rightarrow> EE_CHILD_STARTED | DEPENDENCY_WAITING \<Rightarrow> EE_DEPENDENCY_WAITING
     | DEPENDENCY_SATISFIED \<Rightarrow> EE_DEPENDENCY_SATISFIED | DEPENDENCY_FAILED \<Rightarrow> EE_DEPENDENCY_FAILED)"

definition optional_entry :: "string \<Rightarrow> ('a \<Rightarrow> pyval) \<Rightarrow> 'a option \<Rightarrow> mapping" where
  "optional_entry k f x = (case x of None \<Rightarrow> [] | Some v \<Rightarrow> [(k, f v)])"

definition startup_details :: "startup_event \<Rightarrow> mapping" where
  "startup_details ev =
     [(''child'', PStr (ev_child ev))] @
     optional_entry ''childExecutionId'' PStr (ev_child_execution_id ev) @
     optional_entry ''dependencyOrdinal'' (\<lambda>n. PInt (int n)) (ev_dependency_ordinal ev) @
     optional_entry ''requires'' PStr (ev_requires ev) @
     optional_entry ''condition'' (\<lambda>c. PStr (condition_value c)) (ev_condition ev) @
     optional_entry ''timeoutSeconds'' (\<lambda>q. PFloat (Finite q)) (ev_timeout_seconds ev) @
     optional_entry ''elapsedSeconds'' (\<lambda>q. PFloat (Finite q)) (ev_elapsed_seconds ev)"

definition execution_event_from_startup_event :: "startup_event \<Rightarrow> moment \<Rightarrow> execution_event result" where
  "execution_event_from_startup_event ev timestamp =
     mk_ExecutionEvent (startup_kind (ev_event ev)) (ev_system ev) timestamp (Some (ev_execution_id ev)) None (ev_message ev)
       (startup_details ev)"

section \<open>Documents are documents\<close>

lemma set_put_entry: "set (put_entry d e) \<subseteq> insert e (set d)"
  by (auto simp: put_entry_def split: if_splits)

lemma set_dict_comprehension: "set (dict_comprehension es) \<subseteq> set es"
proof -
  have "set (foldl put_entry d es) \<subseteq> set d \<union> set es" for d
  proof (induction es arbitrary: d)
    case (Cons e es)
    from Cons [of "put_entry d e"] set_put_entry [of d e] show ?case by auto
  qed simp
  from this [of "[]"] show ?thesis by (simp add: dict_comprehension_def)
qed

text \<open>A value of another type becomes a document, or is a datetime without a time zone.\<close>

definition naive_datetime :: py_error where
  "naive_datetime = ValueErr ''datetime values must include timezone information''"

definition documented :: "pyval result \<Rightarrow> bool" where
  "documented r = (case r of Inl e \<Rightarrow> e = naive_datetime | Inr v \<Rightarrow> json_doc v)"

definition plain_others :: "event_texts \<Rightarrow> bool" where
  "plain_others et \<longleftrightarrow> (\<forall>t. documented (et_other et t))"

named_theorems documented_intros \<open>results that are a document or the error for a naive datetime\<close>

lemma documented_Inr [documented_intros]: "json_doc v \<Longrightarrow> documented (Inr v)"
  by (simp add: documented_def)

lemma documented_ebind [documented_intros]:
  "documented r \<Longrightarrow> (\<And>v. r = Inr v \<Longrightarrow> json_doc v \<Longrightarrow> documented (f v)) \<Longrightarrow> documented (ebind r f)"
  by (cases r) (simp_all add: documented_def)

lemma documented_list:
  assumes each: "\<And>x. x \<in> set xs \<Longrightarrow> (case g x of Inl e \<Rightarrow> e = naive_datetime | Inr y \<Rightarrow> P y)"
    and f: "\<And>ys. emap g xs = Inr ys \<Longrightarrow> \<forall>y \<in> set ys. P y \<Longrightarrow> documented (f ys)"
  shows "documented (ebind (emap g xs) f)"
proof -
  have "case emap g xs of Inl e \<Rightarrow> e = naive_datetime | Inr ys \<Rightarrow> \<forall>y \<in> set ys. P y"
    using each
  proof (induction xs)
    case (Cons x xs)
    from Cons(2) [of x] Cons(1) [OF Cons(2)] show ?case by (cases "g x"; cases "emap g xs") simp_all
  qed simp
  with f show ?thesis by (cases "emap g xs") (simp_all add: documented_def)
qed

lemma documented_docs [documented_intros]:
  "(\<And>x. x \<in> set xs \<Longrightarrow> documented (g x)) \<Longrightarrow> (\<And>ys. emap g xs = Inr ys \<Longrightarrow> json_doc (PList ys) \<Longrightarrow> documented (f ys)) \<Longrightarrow>
     documented (ebind (emap g xs) f)"
  by (rule documented_list [where P = json_doc]) (auto simp: documented_def)

lemma event_json_doc: "plain_others et \<Longrightarrow> documented (event_json et v)"
proof (induction et v rule: event_json.induct)
  case (4 et d)
  show ?case unfolding event_json.simps
  proof (rule documented_list [where P = "\<lambda>(k, w). is_pstr k \<and> json_doc w"])
    fix x assume x: "x \<in> set d"
    obtain k v where kv: "x = (k, v)" by (cases x)
    from 4(1) [OF x kv [symmetric]] 4(2) show "case (\<lambda>(k, v). ebind (event_json et v) (\<lambda>w. Inr (PStr (key_text et k), w))) x of
        Inl e \<Rightarrow> e = naive_datetime | Inr y \<Rightarrow> (\<lambda>(k, w). is_pstr k \<and> json_doc w) y"
      by (cases "event_json et v") (simp_all add: kv documented_def)
  next
    fix es assume "\<forall>y \<in> set es. (\<lambda>(k, w). is_pstr k \<and> json_doc w) y"
    then show "documented (Inr (PDict (dict_comprehension es)))"
      using set_dict_comprehension [of es] by (auto simp: documented_def)
  qed
qed (auto simp: plain_others_def intro!: documented_intros)

lemma event_mapping_doc [documented_intros]: "plain_others et \<Longrightarrow> documented (event_mapping et m)"
  unfolding event_mapping_def by (rule event_json_doc)

lemma optional_docs [simp]: "json_doc (optional_str x)" "json_doc (optional_bool y)" "json_doc (observation_document z)"
  by (auto simp: optional_str_def optional_bool_def observation_document_def split: option.split)

lemma scope_status_doc [documented_intros]: "plain_others et \<Longrightarrow> documented (scope_status_document et x)"
  unfolding scope_status_document_def backend_status_document_def by (intro documented_intros) simp_all

lemma status_doc:
  "plain_others et \<Longrightarrow> documented (system_status_document et st)"
  "plain_others et \<Longrightarrow> documented (child_status_document et c)"
proof (induction et st and et c rule: system_status_document_child_status_document.induct)
  case (1 et execution_id state scopes systems message details observation)
  show ?case unfolding system_status_document.simps
    using 1 by (intro documented_intros) auto
next
  case (2 et i st)
  then show ?case by (auto simp: instance_document_def intro!: documented_intros)
qed

text \<open>The document of an event, when there is one, can be recorded; when there is none, a value
  holds a datetime without a time zone.\<close>

lemma event_document_recordable:
  assumes "event_document et e = Inr v" and "json_doc v"
  shows "\<exists>d. v = PDict d \<and> versioned_event (PDict d) = Inr d"
proof -
  from assms obtain rest where doc:
    "v = PDict ((PStr ''apiVersion'', PStr ''nodrix.execution.event/v1'') # (PStr ''kind'', PStr ''ExecutionEvent'') # rest)"
    by (auto simp: event_document_def result_elims)
  have get: "dict_get ((PStr ''apiVersion'', PStr ''nodrix.execution.event/v1'') # (PStr ''kind'', PStr ''ExecutionEvent'') # rest) ''apiVersion'' =
      PStr ''nodrix.execution.event/v1''"
    "dict_get ((PStr ''apiVersion'', PStr ''nodrix.execution.event/v1'') # (PStr ''kind'', PStr ''ExecutionEvent'') # rest) ''kind'' =
      PStr ''ExecutionEvent''" by (simp_all add: dict_get_def)
  have "nonempty_val (PStr ''nodrix.execution.event/v1'')" "nonempty_val (PStr ''ExecutionEvent'')" by code_simp+
  then show ?thesis
    using json_doc_writable [OF assms(2)] unfolding doc versioned_event_def
    by (simp add: get del: json_writable.simps)
qed

lemma event_document_documented:
  assumes "plain_others et"
  shows "documented (event_document et e)"
  unfolding event_document_def using assms
  by (intro documented_intros) (auto simp: status_doc split: option.split intro!: documented_intros)

lemma event_recorded_or_naive:
  assumes "plain_others et"
  shows "event_document et e = Inl naive_datetime \<or> (\<exists>d. event_document et e = Inr (PDict d) \<and> versioned_event (PDict d) = Inr d)"
  using event_document_documented [OF assms, of e] event_document_recordable [of et e]
  by (cases "event_document et e") (auto simp: documented_def)

lemma mk_startup_event_texts:
  assumes "mk_startup_event raw = Inr ev"
  shows "strip (ev_system ev) \<noteq> [] \<and> strip (ev_execution_id ev) \<noteq> [] \<and> \<not> blank_text (ev_message ev)"
  using assms
  by (auto simp: mk_startup_event_def event_text_def event_optional_def blank_text_def Let_def ebind_eq_Inr
      split: if_splits option.splits)

text \<open>The details of a startup event are scalars under distinct keys: they are their own document.\<close>

lemma dict_comprehension_distinct: "distinct (map fst es) \<Longrightarrow> dict_comprehension es = es"
proof -
  have "distinct (map fst (d @ es)) \<Longrightarrow> foldl put_entry d es = d @ es" for d
    by (induction es arbitrary: d) (auto simp: put_entry_def)
  from this [of "[]"] show "distinct (map fst es) \<Longrightarrow> dict_comprehension es = es" by (simp add: dict_comprehension_def)
qed

lemma event_mapping_scalars:
  assumes "distinct (map fst m)" and "\<And>k v. (k, v) \<in> set m \<Longrightarrow> event_json et v = Inr v"
  shows "event_mapping et m = Inr (PDict (map (\<lambda>(k, v). (PStr k, v)) m))"
proof -
  let ?d = "map (\<lambda>(k, v). (PStr k, v)) m"
  have "emap (\<lambda>(k, v). ebind (event_json et v) (\<lambda>w. Inr (PStr (key_text et k), w))) ?d = Inr (map (\<lambda>x. x) ?d)"
    by (rule emap_Inr_map) (use assms(2) in \<open>auto simp: key_text_def\<close>)
  moreover have "distinct (map fst ?d)" using assms(1) by (simp add: distinct_map comp_def case_prod_unfold inj_on_def)
  ultimately show ?thesis by (simp add: event_mapping_def dict_comprehension_distinct)
qed

lemma startup_details_distinct: "distinct (map fst (startup_details ev))"
  by (simp add: startup_details_def optional_entry_def split: option.split)

lemma startup_details_scalars: "(k, v) \<in> set (startup_details ev) \<Longrightarrow> event_json et v = Inr v \<and> json_doc v"
  by (auto simp: startup_details_def optional_entry_def finite_float_def split: option.splits)

lemma startup_details_entries:
  "map_of (startup_details ev) ''child'' = Some (PStr (ev_child ev))"
  "map_of (startup_details ev) ''childExecutionId'' = map_option PStr (ev_child_execution_id ev)"
  "map_of (startup_details ev) ''dependencyOrdinal'' = map_option (\<lambda>n. PInt (int n)) (ev_dependency_ordinal ev)"
  "map_of (startup_details ev) ''requires'' = map_option PStr (ev_requires ev)"
  "map_of (startup_details ev) ''condition'' = map_option (\<lambda>c. PStr (condition_value c)) (ev_condition ev)"
  "map_of (startup_details ev) ''timeoutSeconds'' = map_option (\<lambda>q. PFloat (Finite q)) (ev_timeout_seconds ev)"
  "map_of (startup_details ev) ''elapsedSeconds'' = map_option (\<lambda>q. PFloat (Finite q)) (ev_elapsed_seconds ev)"
  by (simp_all add: startup_details_def optional_entry_def split: option.split)

lemma startup_event_converts:
  assumes "mk_startup_event raw = Inr ev"
  shows "execution_event_from_startup_event ev (Aware t) =
    Inr \<lparr>xe_event = startup_kind (ev_event ev), xe_system = strip (ev_system ev), xe_timestamp = t,
         xe_execution_id = Some (ev_execution_id ev), xe_status = None, xe_message = ev_message ev, xe_details = startup_details ev\<rparr>"
  using mk_startup_event_texts [OF assms]
  by (cases "ev_event ev")
     (simp_all add: execution_event_from_startup_event_def mk_ExecutionEvent_def event_timestamp_def blank_text_def
        foreign_status_def startup_kind_def needs_execution_id_def resolved_execution_id_def Let_def)

section \<open>Property\<close>

text \<open>
  C38: Whatever the orchestrator reports while it starts a System can be recorded, and the record says
  what it reported: every startup event it can construct converts to a public event, whose document is
  a strict JSON document that the journal of a Run accepts; the document names the kind of the event,
  the System, the execution, the time and the message, has no status, and its details hold the child and
  exactly those of the child's execution, the dependency's number, requirement and condition and the two
  times that the event has.  (An event whose details or status hold a datetime without a time zone has no
  document; a startup event never does.)
\<close>

theorem startup_events_recordable:
  assumes "mk_startup_event raw = Inr ev"
  shows "\<exists>e d ds. execution_event_from_startup_event ev (Aware t) = Inr e \<and> event_document et e = Inr (PDict d) \<and>
    json_doc (PDict d) \<and> versioned_event (PDict d) = Inr d \<and>
    dict_get d ''event'' = PStr (case ev_event ev of CHILD_STARTED \<Rightarrow> ''child_started'' | DEPENDENCY_WAITING \<Rightarrow> ''dependency_waiting''
      | DEPENDENCY_SATISFIED \<Rightarrow> ''dependency_satisfied'' | DEPENDENCY_FAILED \<Rightarrow> ''dependency_failed'') \<and>
    dict_get d ''system'' = PStr (strip (ev_system ev)) \<and> dict_get d ''executionId'' = PStr (ev_execution_id ev) \<and>
    dict_get d ''timestamp'' = PStr (et_stamp et t) \<and> dict_get d ''status'' = PNone \<and>
    dict_get d ''message'' = (case ev_message ev of None \<Rightarrow> PNone | Some s \<Rightarrow> PStr s) \<and>
    dict_get d ''details'' = PDict (map (\<lambda>(k, v). (PStr k, v)) ds) \<and> distinct (map fst ds) \<and>
    map_of ds ''child'' = Some (PStr (ev_child ev)) \<and>
    map_of ds ''childExecutionId'' = map_option PStr (ev_child_execution_id ev) \<and>
    map_of ds ''dependencyOrdinal'' = map_option (\<lambda>n. PInt (int n)) (ev_dependency_ordinal ev) \<and>
    map_of ds ''requires'' = map_option PStr (ev_requires ev) \<and>
    map_of ds ''condition'' = map_option (\<lambda>c. PStr (condition_value c)) (ev_condition ev) \<and>
    map_of ds ''timeoutSeconds'' = map_option (\<lambda>q. PFloat (Finite q)) (ev_timeout_seconds ev) \<and>
    map_of ds ''elapsedSeconds'' = map_option (\<lambda>q. PFloat (Finite q)) (ev_elapsed_seconds ev)"
proof -
  let ?e = "\<lparr>xe_event = startup_kind (ev_event ev), xe_system = strip (ev_system ev), xe_timestamp = t,
       xe_execution_id = Some (ev_execution_id ev), xe_status = None, xe_message = ev_message ev, xe_details = startup_details ev\<rparr>"
  let ?ds = "PDict (map (\<lambda>(k, v). (PStr k, v)) (startup_details ev))"
  define d where "d = [(PStr ''apiVersion'', PStr ''nodrix.execution.event/v1''), (PStr ''kind'', PStr ''ExecutionEvent''),
       (PStr ''event'', PStr (event_kind_value (startup_kind (ev_event ev)))), (PStr ''timestamp'', PStr (et_stamp et t)),
       (PStr ''system'', PStr (strip (ev_system ev))), (PStr ''executionId'', PStr (ev_execution_id ev)),
       (PStr ''message'', optional_str (ev_message ev)), (PStr ''details'', ?ds), (PStr ''status'', PNone)]"
  have "event_mapping et (startup_details ev) = Inr ?ds"
    using startup_details_distinct startup_details_scalars by (intro event_mapping_scalars) blast+
  then have doc: "event_document et ?e = Inr (PDict d)"
    by (simp add: event_document_def resolved_execution_id_def optional_str_def d_def)
  have "json_doc ?ds" using startup_details_scalars by auto
  then have json: "json_doc (PDict d)" by (auto simp: d_def simp del: optional_docs(1)) (simp add: optional_str_def split: option.split)
  from event_document_recordable [OF doc json] have "versioned_event (PDict d) = Inr d" by simp
  moreover have "event_kind_value (startup_kind (ev_event ev)) = (case ev_event ev of CHILD_STARTED \<Rightarrow> ''child_started''
      | DEPENDENCY_WAITING \<Rightarrow> ''dependency_waiting'' | DEPENDENCY_SATISFIED \<Rightarrow> ''dependency_satisfied''
      | DEPENDENCY_FAILED \<Rightarrow> ''dependency_failed'')"
    by (cases "ev_event ev") (simp_all add: startup_kind_def event_kind_value_def)
  ultimately show ?thesis
    by (intro exI [of _ ?e] exI [of _ d] exI [of _ "startup_details ev"])
       (simp add: startup_event_converts [OF assms] doc json startup_details_entries startup_details_distinct del: json_doc.simps,
        simp add: d_def dict_get_def optional_str_def)
qed

definition sample_texts :: event_texts where
  "sample_texts = \<lparr>et_stamp = int_str, et_key = (\<lambda>_. ''key''), et_other = (\<lambda>t. Inr (PStr t))\<rparr>"

definition sample_startup_event :: startup_event where
  "sample_startup_event = \<lparr>ev_event = CHILD_STARTED, ev_execution_id = ''system-1'', ev_system = ''demo'', ev_child = ''camera'',
     ev_child_execution_id = Some ''system-2'', ev_dependency_ordinal = None, ev_requires = None, ev_condition = None,
     ev_timeout_seconds = None, ev_elapsed_seconds = None, ev_message = None\<rparr>"

theorem startup_events_recordable_witness:
  "\<exists>e d. execution_event_from_startup_event sample_startup_event (Aware 5) = Inr e \<and> event_document sample_texts e = Inr (PDict d) \<and>
     versioned_event (PDict d) = Inr d \<and> dict_get d ''event'' = PStr ''child_started''"
proof -
  have "mk_startup_event sample_startup_event = Inr sample_startup_event" by code_simp
  from startup_events_recordable [OF this, of 5 sample_texts] show ?thesis
    by (elim exE conjE) (intro exI conjI, assumption, assumption, assumption, simp add: sample_startup_event_def)
qed

text \<open>An event whose details hold a datetime without a time zone raises when its document is made.\<close>

lemma naive_details_raise:
  "event_document (sample_texts\<lparr>et_other := (\<lambda>_. Inl naive_datetime)\<rparr>)
     \<lparr>xe_event = EE_ERROR, xe_system = ''demo'', xe_timestamp = 5, xe_execution_id = None, xe_status = None, xe_message = None,
      xe_details = [(''at'', POther ''datetime'')]\<rparr> = Inl naive_datetime"
  by code_simp

end
