(* ===== verification/Canonical_Runtime.thy ===== *)
theory Canonical_Runtime
  imports Run_Records Execution_Events Orchestrator_Start
begin

text \<open>
  The bridge from the orchestrator to canonical records (system/canonical_runtime.py): start with
  its persistent evidence, inspect and stop.

  The world has the part that belongs to the run - the stores, the error lists and the mutable
  fields of a \<open>CanonicalSystemExecution\<close> - around an outer world on which backends, clocks and
  disks act.  Backends are of the orchestrator's type over the whole world, since the sink of
  startup events writes the journal.  The clock may raise or give no aware datetime; every write
  takes the next outcome of its disk.  The snapshot, policy, environment and metric files are
  actions that may raise, and loading of the definition is outside.

  The properties are in \<open>Canonical_Safety\<close>.
\<close>

section \<open>The world of a run\<close>

record 'b run_world =
  rw_outer :: 'b
  rw_store :: run_store
  rw_journal :: "journal option"
  rw_status :: "status_store option"
  rw_record :: "record_store option"
  rw_event_errors :: "string list"
  rw_status_errors :: "string list"
  rw_record_errors :: "string list"
  rw_terminal_recorded :: bool
  rw_final_recorded :: bool
  rw_finished_at :: "int option"

record 'b run_env =
  re_clock :: "('b, moment) act"
  re_journal_io :: "'b \<Rightarrow> io_outcome \<times> 'b"
  re_status_io :: "'b \<Rightarrow> string option \<times> 'b"
  re_record_io :: "'b \<Rightarrow> string option \<times> 'b"
  re_create_io :: "'b \<Rightarrow> (create_io \<times> moment \<times> (nat \<Rightarrow> pyval)) \<times> 'b"
  re_times :: time_text
  re_texts :: event_texts

definition on_outer :: "('b, 'a) act \<Rightarrow> ('b run_world, 'a) act" where
  "on_outer m = (\<lambda>w. case m (rw_outer w) of (r, b) \<Rightarrow> (r, w\<lparr>rw_outer := b\<rparr>))"

text \<open>\<open>_now(clock)\<close>.\<close>

definition clock_now :: "'b run_env \<Rightarrow> ('b run_world, int) act" where
  "clock_now env = act_bind (on_outer (re_clock env)) (\<lambda>m. act_lift (aware ''clock result'' m))"

text \<open>\<open>f"{type(exc).__name__}: {exc}"\<close>.\<close>

definition error_line :: "py_error \<Rightarrow> string" where
  "error_line e = exc_type e @ '': '' @ exc_str e"

text \<open>A repeated error is noted once.\<close>

definition note_error :: "string list \<Rightarrow> py_error \<Rightarrow> string list" where
  "note_error errors e = (if errors = [] \<or> last errors \<noteq> error_line e then errors @ [error_line e] else errors)"

section \<open>Writing\<close>

definition write_run_status ::
    "'b run_env \<Rightarrow> pyval \<Rightarrow> string option \<Rightarrow> string option \<Rightarrow> pyval \<Rightarrow> int \<Rightarrow> ('b run_world, unit) act" where
  "write_run_status env state execution_id message details observed_at = (\<lambda>w.
     case rw_status w of
       None \<Rightarrow> (Inr (), w)
     | Some st \<Rightarrow>
         (case re_status_io env (rw_outer w) of (io, b) \<Rightarrow>
          case write_status_if_changed (re_times env) observed_at state (opt_str execution_id) (opt_str message) details
                 (Some (Aware observed_at)) io st of
            (Inr _, st) \<Rightarrow> (Inr (), w\<lparr>rw_outer := b, rw_status := Some st\<rparr>)
          | (Inl e, st) \<Rightarrow> (Inr (), w\<lparr>rw_outer := b, rw_status := Some st, rw_status_errors := note_error (rw_status_errors w) e\<rparr>)))"

text \<open>\<open>journal.append(ExecutionEvent(...).to_dict(), recorded_at=...)\<close>.\<close>

definition journal_event :: "'b run_env \<Rightarrow> execution_event result \<Rightarrow> int \<Rightarrow> ('b run_world, unit) act" where
  "journal_event env event recorded_at = (\<lambda>w.
     case (rw_journal w, ebind event (event_document (re_texts env))) of
       (None, _) \<Rightarrow> (Inr (), w)
     | (Some _, Inl e) \<Rightarrow> (Inl e, w)
     | (Some j, Inr document) \<Rightarrow>
         (case re_journal_io env (rw_outer w) of (io, b) \<Rightarrow>
          case journal_append (tt_print (re_times env)) recorded_at document (Some (Aware recorded_at)) io j of
            (r, j) \<Rightarrow> (ebind r (\<lambda>_. Inr ()), w\<lparr>rw_outer := b, rw_journal := Some j\<rparr>)))"

definition has_journal :: "'b run_world \<Rightarrow> bool" where
  "has_journal w = (rw_journal w \<noteq> None)"

section \<open>Statuses\<close>

definition canonical_state :: "system_status \<Rightarrow> record_state result" where
  "canonical_state st = parse_state (PStr (state_value (ss_state st)))"

definition scope_detail :: "scope_status \<Rightarrow> pyval" where
  "scope_detail x =
     dict_of_mapping [(''target'', PStr (sc_target (sst_scope x))), (''backend'', PStr (sc_backend (sst_scope x))),
       (''execution_id'', PStr (bs_execution_id (sst_status x))), (''state'', PStr (state_value (bs_state (sst_status x)))),
       (''message'', opt_str (bs_message (sst_status x))), (''details'', dict_of_mapping (bs_details (sst_status x)))]"

text \<open>The measured duration of a scope, as an entry of \<open>backend_timings\<close>.\<close>

definition timing_entry :: "scope_status \<Rightarrow> rat \<Rightarrow> mapping" where
  "timing_entry x seconds =
     [(''target'', PStr (sc_target (sst_scope x))), (''backend'', PStr (sc_backend (sst_scope x))),
      (''execution_id'', PStr (bs_execution_id (sst_status x))), (''duration_seconds'', PFloat (Finite seconds))]"

definition backend_timings :: "scope_status list \<Rightarrow> pyval list" where
  "backend_timings scopes =
     List.map_filter (\<lambda>x. map_option (\<lambda>q. dict_of_mapping (timing_entry x q)) (bs_timing (sst_status x))) scopes"

text \<open>The timing of the only scope of a System without children.\<close>

definition execution_timing :: "scope_status list \<Rightarrow> child_status list \<Rightarrow> pyval option" where
  "execution_timing scopes systems =
     (case scopes of
        [x] \<Rightarrow> if systems \<noteq> [] then None
               else map_option (\<lambda>q. dict_of_mapping ((''source'', PStr ''backend'') # timing_entry x q)) (bs_timing (sst_status x))
      | _ \<Rightarrow> None)"

fun status_details :: "system_status \<Rightarrow> mapping"
  and child_detail :: "child_status \<Rightarrow> pyval" where
  "status_details (SystemExecutionStatus execution_id state scopes systems message details observation) =
     [(''scope_count'', PInt (int (length scopes))), (''scopes'', PTuple (map scope_detail scopes))] @
     (case message of None \<Rightarrow> [] | Some m \<Rightarrow> [(''message'', PStr m)]) @
     (if details = [] then [] else [(''status_details'', dict_of_mapping details)]) @
     (if systems = [] then []
      else [(''system_count'', PInt (int (length systems))), (''systems'', PTuple (map child_detail systems))]) @
     (if backend_timings scopes = [] then [] else [(''backend_timings'', PTuple (backend_timings scopes))]) @
     (case execution_timing scopes systems of None \<Rightarrow> [] | Some d \<Rightarrow> [(''execution_timing'', d)])"
| "child_detail (ChildStatus i st) =
     dict_of_mapping [(''ordinal'', PInt (int (in_ordinal i))), (''name'', PStr (in_name i)),
       (''system'', PStr (pl_system (plan_body (in_plan i)))), (''revision'', PStr (in_revision i)),
       (''execution_id'', PStr (ss_execution_id st)), (''state'', PStr (state_value (ss_state st))),
       (''message'', opt_str (ss_message st)), (''status_details'', dict_of_mapping (ss_details st)),
       (''details'', dict_of_mapping (status_details st))]"

section \<open>The tracked execution\<close>

text \<open>A store attached to the execution: its field, the run and, where it is checked, the plan it belongs to.\<close>

record attached_store =
  as_field :: string
  as_run_id :: string
  as_plan_id :: "string option"

record ('w, 'p) canonical_execution =
  ce_plan :: "system_plan plan_record"
  ce_handle :: "('w, 'p) system_handle"
  ce_started_at :: int
  ce_session :: "run_session option"

definition validate_system_plan_record :: "system_plan plan_record \<Rightarrow> system_plan result" where
  "validate_system_plan_record plan =
     (if pr_kind plan \<noteq> system_execution
      then Inl (ValueErr ''canonical system execution requires a system-execution PlanRecord'')
      else Inr (pr_payload plan))"

definition check_attached :: "system_plan plan_record \<Rightarrow> run_session option \<Rightarrow> attached_store \<Rightarrow> unit result" where
  "check_attached plan session a =
     (case session of
        None \<Rightarrow> Inl (ValueErr (as_field a @ '' requires run_session''))
      | Some s \<Rightarrow>
          if as_run_id a \<noteq> ru_run_id s then Inl (ValueErr (as_field a @ '' belongs to a different RunSession''))
          else (case as_plan_id a of
              None \<Rightarrow> Inr ()
            | Some p \<Rightarrow> if p \<noteq> pr_plan_id plan then Inl (ValueErr (as_field a @ '' belongs to a different PlanRecord'')) else Inr ()))"

definition mk_CanonicalSystemExecution ::
    "system_plan plan_record \<Rightarrow> ('w, 'p) system_handle \<Rightarrow> moment \<Rightarrow> run_session option \<Rightarrow> attached_store list \<Rightarrow>
     ('w, 'p) canonical_execution result" where
  "mk_CanonicalSystemExecution plan handle started_at session stores =
     ebind (validate_system_plan_record plan) (\<lambda>domain_plan.
     if ps_plan (sh_prepared handle) \<noteq> domain_plan
     then Inl (ValueErr ''execution handle belongs to a different SystemExecutionPlan'')
     else if (case session of None \<Rightarrow> False | Some s \<Rightarrow> ru_plan_id s \<noteq> pr_plan_id plan)
     then Inl (ValueErr ''RunSession belongs to a different PlanRecord'')
     else ebind (emap (check_attached plan session) stores) (\<lambda>_.
       ebind (aware ''started_at'' started_at) (\<lambda>t.
       Inr \<lparr>ce_plan = plan, ce_handle = handle, ce_started_at = t, ce_session = session\<rparr>)))"

definition orchestrator_executor :: string where
  "orchestrator_executor = ''nodrix.system.orchestrator''"

definition error_entry :: "string \<Rightarrow> string list \<Rightarrow> mapping" where
  "error_entry k errors = (if errors = [] then [] else [(k, PTuple (map PStr errors))])"

text \<open>\<open>record\<close>: it keeps the time of the first terminal observation.\<close>

definition canonical_record ::
    "('w, 'p) canonical_execution \<Rightarrow> system_status \<Rightarrow> int \<Rightarrow> ('b run_world, system_plan execution_record) act" where
  "canonical_record x st observed_at = (\<lambda>w.
     if ss_execution_id st \<noteq> sh_id (ce_handle x) then (Inl (ValueErr ''status belongs to a different system execution''), w)
     else if observed_at < ce_started_at x then (Inl (ValueErr ''observed_at cannot be earlier than started_at''), w)
     else (case canonical_state st of
         Inl e \<Rightarrow> (Inl e, w)
       | Inr state \<Rightarrow>
           let w = (if record_terminal state \<and> rw_finished_at w = None then w\<lparr>rw_finished_at := Some observed_at\<rparr> else w);
               details = status_details st @
                 error_entry ''run_event_persistence_errors'' (rw_event_errors w) @
                 error_entry ''run_status_persistence_errors'' (rw_status_errors w) @
                 error_entry ''run_record_persistence_errors'' (rw_record_errors w)
           in (mk_ExecutionRecord (PStr (sh_id (ce_handle x))) (ce_plan x) (PStr orchestrator_executor)
                 (PStr (record_state_value state)) (Some (Aware (ce_started_at x)))
                 (if record_terminal state then map_option Aware (rw_finished_at w) else None) details, w)))"

definition finalize_run_record :: "'b run_env \<Rightarrow> system_plan execution_record \<Rightarrow> ('b run_world, unit) act" where
  "finalize_run_record env r = (\<lambda>w.
     if \<not> record_terminal (xr_state r) then (Inr (), w)
     else case rw_record w of
       None \<Rightarrow> (Inr (), w)
     | Some st \<Rightarrow>
         if rw_final_recorded w then (Inr (), w)
         else (case re_record_io env (rw_outer w) of (io, b) \<Rightarrow>
           case create_record (re_times env) r None None io st of
             (Inr _, st) \<Rightarrow> (Inr (), w\<lparr>rw_outer := b, rw_record := Some st, rw_final_recorded := True\<rparr>)
           | (Inl e, st) \<Rightarrow> (Inr (), w\<lparr>rw_outer := b, rw_record := Some st, rw_record_errors := note_error (rw_record_errors w) e\<rparr>)))"

section \<open>inspect and stop\<close>

definition execution_system :: "('w, 'p) canonical_execution \<Rightarrow> string" where
  "execution_system x = pl_system (plan_body (ps_plan (sh_prepared (ce_handle x))))"

definition append_event_error :: "py_error \<Rightarrow> ('b run_world, unit) act" where
  "append_event_error e = act_modify (\<lambda>w. w\<lparr>rw_event_errors := rw_event_errors w @ [error_line e]\<rparr>)"

text \<open>The durable FINISHED event of the first terminal observation.\<close>

definition record_finished ::
    "'b run_env \<Rightarrow> ('w, 'p) canonical_execution \<Rightarrow> system_status \<Rightarrow> int \<Rightarrow> ('b run_world, unit) act" where
  "record_finished env x st observed_at = (\<lambda>w.
     if ss_terminal st \<and> \<not> rw_terminal_recorded w \<and> has_journal w
     then act_try (act_bind (journal_event env (mk_ExecutionEvent EE_FINISHED (execution_system x) (Aware observed_at) None
                               (Some st) None []) observed_at)
                     (\<lambda>_. act_modify (\<lambda>w. w\<lparr>rw_terminal_recorded := True\<rparr>)))
            append_event_error w
     else (Inr (), w))"

text \<open>What inspect and stop do with an observed status.\<close>

definition observe_status ::
    "'b run_env \<Rightarrow> ('w, 'p) canonical_execution \<Rightarrow> system_status \<Rightarrow> ('b run_world, system_plan execution_record) act" where
  "observe_status env x st =
     act_bind (clock_now env) (\<lambda>observed_at.
     act_bind (write_run_status env (PStr (state_value (ss_state st))) (Some (ss_execution_id st)) (ss_message st)
                 (dict_of_mapping (status_details st)) observed_at) (\<lambda>_.
     act_bind (record_finished env x st observed_at) (\<lambda>_.
     act_bind (canonical_record x st observed_at) (\<lambda>r.
     act_bind (finalize_run_record env r) (\<lambda>_.
     act_bind (act_get rw_record_errors) (\<lambda>errors.
     if errors \<noteq> [] then canonical_record x st observed_at else act_return r))))))"

definition inspect_canonical ::
    "'b run_env \<Rightarrow> ('b run_world, 'p) canonical_execution \<Rightarrow> (('b run_world, 'p) machine, system_plan execution_record) act" where
  "inspect_canonical env x =
     act_bind (inspect_system (ce_handle x)) (\<lambda>st. on_world (observe_status env x st))"

text \<open>The two records of a stop request, before the request itself.\<close>

definition announce_stopping :: "'b run_env \<Rightarrow> ('w, 'p) canonical_execution \<Rightarrow> ('b run_world, unit) act" where
  "announce_stopping env x =
     act_bind (clock_now env) (\<lambda>stopping_at.
     act_bind (write_run_status env (PStr ''stopping'') (Some (sh_id (ce_handle x))) None PNone stopping_at) (\<lambda>_.
     act_bind (act_get has_journal) (\<lambda>journal.
     if \<not> journal then act_return ()
     else act_bind (clock_now env) (\<lambda>stopping_at.
       act_try (journal_event env (mk_ExecutionEvent EE_STOPPING (execution_system x) (Aware stopping_at)
                  (Some (sh_id (ce_handle x))) None None []) stopping_at) append_event_error))))"

definition record_stop_failure :: "'b run_env \<Rightarrow> ('w, 'p) canonical_execution \<Rightarrow> py_error \<Rightarrow> ('b run_world, unit) act" where
  "record_stop_failure env x exc =
     act_bind (act_get has_journal) (\<lambda>journal.
     if \<not> journal then act_return ()
     else act_try (act_bind (clock_now env) (\<lambda>failed_at.
         journal_event env (mk_ExecutionEvent EE_ERROR (execution_system x) (Aware failed_at) (Some (sh_id (ce_handle x))) None
           (Some (''stop failed: '' @ exc_str exc)) [(''stage'', PStr ''stop''), (''errorType'', PStr (exc_type exc))]) failed_at))
       (\<lambda>_. act_return ()))"

definition stop_canonical ::
    "'b run_env \<Rightarrow> ('b run_world, 'p) canonical_execution \<Rightarrow> pyfloat option \<Rightarrow>
     (('b run_world, 'p) machine, system_plan execution_record) act" where
  "stop_canonical env x timeout =
     act_bind (on_world (announce_stopping env x)) (\<lambda>_.
     act_bind (act_try (stop_system (ce_handle x) timeout) (\<lambda>exc.
         act_bind (on_world (record_stop_failure env x exc)) (\<lambda>_. act_raise exc))) (\<lambda>st.
     on_world (observe_status env x st)))"

section \<open>start: the request\<close>

text \<open>The policies a caller may give: a whole execution policy, a profile, or its two parts.\<close>

record ('q, 'f, 'e, 'l) policy_request =
  po_execution :: "'q option"
  po_profile :: "'f option"
  po_environment :: "'e option"
  po_logs :: "'l option"

definition effective_policy ::
    "('f \<Rightarrow> 'q result) \<Rightarrow> ('e option \<Rightarrow> 'l option \<Rightarrow> 'q) \<Rightarrow> ('q, 'f, 'e, 'l) policy_request \<Rightarrow> 'q result" where
  "effective_policy resolve_profile default_policy po =
     (if po_execution po \<noteq> None \<and> (po_environment po \<noteq> None \<or> po_logs po \<noteq> None)
      then Inl (ValueErr ''execution_policy cannot be combined with environment_policy or log_policy'')
      else if po_profile po \<noteq> None \<and> (po_execution po \<noteq> None \<or> po_environment po \<noteq> None \<or> po_logs po \<noteq> None)
      then Inl (ValueErr ''observability_profile cannot be combined with execution_policy, environment_policy, or log_policy'')
      else case po_profile po of
        Some f \<Rightarrow> resolve_profile f
      | None \<Rightarrow> (case po_execution po of
            Some q \<Rightarrow> Inr q
          | None \<Rightarrow> Inr (default_policy (po_environment po) (po_logs po))))"

text \<open>
  What start needs from outside the model: the two snapshot serializers, and the files of a Run
  other than its session, journal, status and final record.
\<close>

record ('b, 'd, 'q) start_files =
  sf_definition_snapshot :: "'d \<Rightarrow> system_plan plan_record \<Rightarrow> string result"
  sf_plan_snapshot :: "system_plan plan_record \<Rightarrow> string result"
  sf_create_snapshot :: "string \<Rightarrow> ('b, unit) act"
  sf_create_policy :: "'q \<Rightarrow> ('b, unit) act"
  sf_capture_environment :: "'q \<Rightarrow> int \<Rightarrow> ('b, unit) act"
  sf_has_metrics :: "'q \<Rightarrow> bool"
  sf_open_metrics :: "'q \<Rightarrow> ('b, unit) act"

record 'd start_request =
  sq_definition :: "'d option"
  sq_context :: "execution_context option"
  sq_persistent :: bool
  sq_run_id :: "pyval option"

text \<open>The checks before anything is created: the plan, the policy and the contents of the snapshots.\<close>

definition check_request ::
    "(execution_context \<Rightarrow> string) \<Rightarrow> ('b, 'd, 'q) start_files \<Rightarrow> system_plan plan_record \<Rightarrow> 'd start_request \<Rightarrow>
     'q result \<Rightarrow> (system_plan \<times> 'q \<times> string list) result" where
  "check_request digest files plan rq policy =
     ebind (validate_system_plan_record plan) (\<lambda>domain_plan.
     ebind (validate_context_binding digest (pl_execution_context_sha256 (plan_body domain_plan)) (sq_context rq)) (\<lambda>_.
     ebind policy (\<lambda>q.
     if sf_has_metrics files q \<and> \<not> sq_persistent rq
     then Inl (ValueErr ''canonical Metrics require a persistent RunStore'')
     else if sq_persistent rq \<and> sq_definition rq = None
     then Inl (ValueErr ''persistent canonical System execution requires system_definition'')
     else ebind (case sq_definition rq of
         None \<Rightarrow> Inr []
       | Some d \<Rightarrow> ebind (sf_definition_snapshot files d plan) (\<lambda>a. ebind (sf_plan_snapshot files plan) (\<lambda>b. Inr [a, b]))) (\<lambda>contents.
       if sq_run_id rq \<noteq> None \<and> \<not> sq_persistent rq then Inl (ValueErr ''run_id requires run_store'')
       else Inr (domain_plan, q, contents)))))"

section \<open>start: the persistent Run\<close>

definition on_store :: "(run_store, 'a) act \<Rightarrow> ('b run_world, 'a) act" where
  "on_store m = (\<lambda>w. case m (rw_store w) of (r, st) \<Rightarrow> (r, w\<lparr>rw_store := st\<rparr>))"

definition create_session :: "'b run_env \<Rightarrow> 'a plan_record \<Rightarrow> pyval option \<Rightarrow> ('b run_world, run_session) act" where
  "create_session env plan run_id = (\<lambda>w.
     case re_create_io env (rw_outer w) of ((io, clock, token), b) \<Rightarrow>
       on_store (run_store_create (re_times env) io clock token plan run_id) (w\<lparr>rw_outer := b\<rparr>))"

text \<open>The stores over the fresh directory, and the fields of the execution to come.\<close>

definition attach_stores :: "'b run_env \<Rightarrow> run_session option \<Rightarrow> ('b run_world, unit) act" where
  "attach_stores env session =
     (case session of
        None \<Rightarrow> act_modify (\<lambda>w. w\<lparr>rw_journal := None, rw_status := None, rw_record := None, rw_event_errors := [],
                  rw_status_errors := [], rw_record_errors := [], rw_terminal_recorded := False, rw_final_recorded := False,
                  rw_finished_at := None\<rparr>)
      | Some s \<Rightarrow>
          act_bind (act_lift (open_journal (ru_run_id s) No_File)) (\<lambda>j.
          act_bind (act_lift (open_status_store (re_times env) s Absent)) (\<lambda>st.
          act_bind (act_modify (\<lambda>w. w\<lparr>rw_journal := Some j, rw_status := Some st,
                  rw_record := Some \<lparr>rcs_session = s, rcs_file = Absent\<rparr>, rw_event_errors := [],
                  rw_status_errors := [], rw_record_errors := [], rw_terminal_recorded := False, rw_final_recorded := False,
                  rw_finished_at := None\<rparr>)) (\<lambda>_.
          write_run_status env (PStr ''created'') None None PNone (ru_created_at s)))))"

definition open_run ::
    "'b run_env \<Rightarrow> 'a plan_record \<Rightarrow> 'd start_request \<Rightarrow> ('b run_world, run_session option) act" where
  "open_run env plan rq =
     (if sq_persistent rq
      then act_bind (create_session env plan (sq_run_id rq)) (\<lambda>s.
           act_bind (attach_stores env (Some s)) (\<lambda>_. act_return (Some s)))
      else act_bind (attach_stores env None) (\<lambda>_. act_return None))"

definition persist_error :: "'b run_env \<Rightarrow> string \<Rightarrow> string \<Rightarrow> py_error \<Rightarrow> ('b run_world, unit) act" where
  "persist_error env system stage exc =
     act_bind (act_get has_journal) (\<lambda>journal.
     if \<not> journal then act_return ()
     else act_bind (clock_now env) (\<lambda>observed_at.
       journal_event env (mk_ExecutionEvent EE_ERROR system (Aware observed_at) None None
         (Some (stage @ '' failed: '' @ exc_str exc)) [(''stage'', PStr stage), (''errorType'', PStr (exc_type exc))]) observed_at))"

text \<open>What the handler of a failed stage does before the exception goes on.\<close>

definition stage_failed :: "'b run_env \<Rightarrow> string \<Rightarrow> string \<Rightarrow> py_error \<Rightarrow> ('b run_world, 'a) act" where
  "stage_failed env system stage exc =
     act_bind (act_try (persist_error env system stage exc) (\<lambda>_. act_return ())) (\<lambda>_.
     act_bind (clock_now env) (\<lambda>failed_at.
     act_bind (write_run_status env (PStr ''failed'') None (Some (exc_str exc))
         (dict_of_mapping [(''stage'', PStr stage), (''errorType'', PStr (exc_type exc))]) failed_at) (\<lambda>_.
     act_raise exc)))"

definition run_stage :: "'b run_env \<Rightarrow> string \<Rightarrow> string \<Rightarrow> ('b run_world, 'a) act \<Rightarrow> ('b run_world, 'a) act" where
  "run_stage env system stage m = act_try m (stage_failed env system stage)"

definition snapshot_stage :: "('b, 'd, 'q) start_files \<Rightarrow> string list \<Rightarrow> ('b run_world, unit) act" where
  "snapshot_stage files contents = act_for contents (\<lambda>c. on_outer (sf_create_snapshot files c))"

definition environment_stage :: "'b run_env \<Rightarrow> ('b, 'd, 'q) start_files \<Rightarrow> 'q \<Rightarrow> ('b run_world, unit) act" where
  "environment_stage env files q =
     act_bind (clock_now env) (\<lambda>t. on_outer (sf_capture_environment files q t))"

text \<open>The provenance of the Run: snapshots, policy, environment, metrics.\<close>

definition write_provenance ::
    "'b run_env \<Rightarrow> ('b, 'd, 'q) start_files \<Rightarrow> string \<Rightarrow> run_session option \<Rightarrow> 'q \<Rightarrow> string list \<Rightarrow> ('b run_world, unit) act" where
  "write_provenance env files system session q contents =
     (if session = None then act_return ()
      else
        act_bind (run_stage env system ''snapshot'' (snapshot_stage files contents)) (\<lambda>_.
        act_bind (run_stage env system ''policy'' (on_outer (sf_create_policy files q))) (\<lambda>_.
        act_bind (run_stage env system ''environment'' (environment_stage env files q)) (\<lambda>_.
        if sf_has_metrics files q then on_outer (sf_open_metrics files q) else act_return ()))))"

definition prepare_stage ::
    "'b run_env \<Rightarrow> ('b run_world, 'p) orchestrator \<Rightarrow> system_plan \<Rightarrow> execution_context option \<Rightarrow>
     ('b run_world, ('b run_world, 'p) prepared_system) act" where
  "prepare_stage env orch plan ctx =
     (let system = pl_system (plan_body plan) in
      act_bind (run_stage env system ''prepare'' (prepare_plan orch plan ctx [] [] [])) (\<lambda>x.
      act_bind (clock_now env) (\<lambda>prepared_at.
      act_bind (journal_event env (mk_ExecutionEvent EE_PREPARED system (Aware prepared_at) None None None []) prepared_at) (\<lambda>_.
      act_bind (write_run_status env (PStr ''prepared'') None None PNone prepared_at) (\<lambda>_.
      act_return x)))))"

section \<open>start: the execution\<close>

definition startup_sink :: "'b run_env \<Rightarrow> startup_event \<Rightarrow> ('b run_world, unit) act" where
  "startup_sink env ev =
     act_bind (act_get has_journal) (\<lambda>journal.
     if \<not> journal then act_return ()
     else act_bind (clock_now env) (\<lambda>observed_at.
       journal_event env (execution_event_from_startup_event ev (Aware observed_at)) observed_at))"

text \<open>
  \<open>orchestrator.start\<close> with its handler.  The sink is passed when there is a journal.
\<close>

definition launch ::
    "'b run_env \<Rightarrow> ('b run_world, 'p) orchestrator \<Rightarrow> run_session option \<Rightarrow> ('b run_world, 'p) prepared_system \<Rightarrow>
     (('b run_world, 'p) machine, ('b run_world, 'p) system_handle) pact" where
  "launch env orch session x =
     pact_try (start_system orch None (if session = None then None else Some (startup_sink env)) x)
       (\<lambda>exc. pact_of (on_world (stage_failed env (pl_system (plan_body (ps_plan x))) ''start'' exc)))"

text \<open>The durable STARTED event; when it cannot be written the execution is stopped again.\<close>

definition record_started ::
    "'b run_env \<Rightarrow> string \<Rightarrow> ('b run_world, 'p) system_handle \<Rightarrow> (('b run_world, 'p) machine, unit) act" where
  "record_started env system h =
     act_bind (on_world (act_get has_journal)) (\<lambda>journal.
     if \<not> journal then act_return ()
     else act_bind (on_world (clock_now env)) (\<lambda>t.
       act_try (on_world (journal_event env (mk_ExecutionEvent EE_STARTED system (Aware t) (Some (sh_id h)) None None []) t))
         (\<lambda>exc. act_bind (act_try (act_bind (stop_system h None) (\<lambda>_. act_return ())) (\<lambda>_. act_return ())) (\<lambda>_. act_raise exc))))"

definition session_stores :: "run_session option \<Rightarrow> attached_store list" where
  "session_stores session =
     (case session of
        None \<Rightarrow> []
      | Some s \<Rightarrow>
          map (\<lambda>f. \<lparr>as_field = f, as_run_id = ru_run_id s, as_plan_id = Some (ru_plan_id s)\<rparr>)
            [''snapshot_store'', ''policy_store'', ''environment_store'', ''log_store''] @
          map (\<lambda>f. \<lparr>as_field = f, as_run_id = ru_run_id s, as_plan_id = None\<rparr>)
            [''event_journal'', ''status_store'', ''run_record_store''])"

definition track_running ::
    "'b run_env \<Rightarrow> system_plan plan_record \<Rightarrow> run_session option \<Rightarrow> ('b run_world, 'p) system_handle \<Rightarrow> int \<Rightarrow>
     ('b run_world, ('b run_world, 'p) canonical_execution) act" where
  "track_running env plan session h started_at =
     act_bind (clock_now env) (\<lambda>running_at.
     act_bind (write_run_status env (PStr ''running'') (Some (sh_id h)) None PNone running_at) (\<lambda>_.
     act_lift (mk_CanonicalSystemExecution plan h (Aware started_at) session (session_stores session))))"

definition start_canonical ::
    "'b run_env \<Rightarrow> ('b, 'd, 'q) start_files \<Rightarrow> ('b run_world, 'p) orchestrator \<Rightarrow> system_plan plan_record \<Rightarrow>
     'd start_request \<Rightarrow> 'q result \<Rightarrow> (('b run_world, 'p) machine, ('b run_world, 'p) canonical_execution) pact" where
  "start_canonical env files orch plan rq policy =
     pact_bind (pact_of (on_world (
       act_bind (act_lift (check_request (oc_digest orch) files plan rq policy)) (\<lambda>(domain_plan, q, contents).
       act_bind (open_run env plan rq) (\<lambda>session.
       act_bind (write_provenance env files (pl_system (plan_body domain_plan)) session q contents) (\<lambda>_.
       act_bind (prepare_stage env orch domain_plan (sq_context rq)) (\<lambda>x.
       act_bind (clock_now env) (\<lambda>started_at.
       act_return (session, x, started_at))))))))) (\<lambda>(session, x, started_at).
     pact_bind (launch env orch session x) (\<lambda>h.
     pact_of (
       act_bind (record_started env (pl_system (plan_body (ps_plan x))) h) (\<lambda>_.
       on_world (track_running env plan session h started_at)))))"

end
