(* ===== verification/Canonical_Safety.thy ===== *)
theory Canonical_Safety
  imports Canonical_Runtime
begin

text \<open>
  What the canonical runtime guarantees for live executions, whatever the disks do: a start is all
  or nothing, a stop request reaches every execution, and the call returns its record unless the clock
  is behind the start; and for the evidence of a run: the first
  terminal observation fixes its end.
\<close>

section \<open>Clock and writes\<close>

text \<open>A clock that always gives an aware datetime.\<close>

definition clock_sound :: "'b run_env \<Rightarrow> bool" where
  "clock_sound env \<longleftrightarrow> (\<forall>b. \<exists>t b'. re_clock env b = (Inr (Aware t), b'))"

lemma clock_now_total: "clock_sound env \<Longrightarrow> total_act (clock_now env)"
proof -
  assume sound: "clock_sound env"
  have "\<exists>t v. clock_now env w = (Inr t, v)" for w
  proof -
    from sound obtain t b where "re_clock env (rw_outer w) = (Inr (Aware t), b)" unfolding clock_sound_def by blast
    then show ?thesis by (simp add: clock_now_def on_outer_def act_simps aware_def)
  qed
  then show ?thesis by (simp add: total_act_def)
qed

lemma write_run_status_total: "total_act (write_run_status env state x m d t)"
  unfolding total_act_def write_run_status_def by (auto split: option.split prod.split sum.split)

lemma finalize_total: "total_act (finalize_run_record env r)"
  unfolding total_act_def finalize_run_record_def by (auto split: option.split prod.split sum.split)

lemma total_get [simp]: "total_act (act_get f)" "total_act (act_modify g)"
  by (simp_all add: total_act_def act_simps)

lemma total_if: "total_act m \<Longrightarrow> total_act n \<Longrightarrow> total_act (if b then m else n)"
  by simp

lemma total_on_world: "total_act m \<Longrightarrow> total_act (on_world m)"
  unfolding total_act_def on_world_def by (metis (mono_tags, lifting) case_prod_conv)

lemma on_world_calls [simp]: "calls (on_world m) []"
  by simp

lemma append_event_error_total: "total_act (append_event_error e)"
  by (simp add: append_event_error_def)

lemma try_append_total: "\<exists>u. act_try m append_event_error w = (Inr (), u)"
  using total_act_try [where m = m and h = append_event_error, OF append_event_error_total] unfolding total_act_def by simp

lemma record_finished_total: "total_act (record_finished env x st t)"
  unfolding total_act_def record_finished_def by (auto simp: try_append_total)

lemma announce_stopping_total: "clock_sound env \<Longrightarrow> total_act (announce_stopping env x)"
  unfolding announce_stopping_def
  by (intro total_act_bind clock_now_total write_run_status_total total_get total_if total_act_return total_act_try
      append_event_error_total)

lemma act_try_cases:
  assumes "act_try m h s = (r, t)"
  obtains (handled) e u where "m s = (Inl e, u)" and "h e u = (r, t)"
    | (ok) x where "m s = (Inr x, t)" and "r = Inr x"
  using assms by (auto simp: act_try_def split: prod.splits sum.splits)

section \<open>start\<close>

lemma stage_failed_raises: "\<exists>e v. stage_failed env system stage exc w = (Inl e, v)"
proof (cases "stage_failed env system stage exc w")
  case (Pair r v)
  then show ?thesis by (auto simp: stage_failed_def act_bind_def act_raise_def split: prod.splits sum.splits)
qed

lemma stage_failed_not_Inr [simp]: "stage_failed env system stage exc w \<noteq> (Inr x, v)"
  by (auto simp: stage_failed_def act_bind_def act_raise_def split: prod.splits sum.splits)

lemma open_run_plan: "open_run env plan rq w = (Inr session, v) \<Longrightarrow> (case session of None \<Rightarrow> True | Some s \<Rightarrow> ru_plan_id s = pr_plan_id plan)"
  by (auto simp: open_run_def create_session_def on_store_def run_store_create_def mk_RunSession_def act_bind_Inr
      result_elims split: if_splits prod.splits)

lemma session_stores_attached:
  assumes "case session of None \<Rightarrow> True | Some s \<Rightarrow> ru_plan_id s = pr_plan_id plan"
  shows "\<exists>us. emap (check_attached plan session) (session_stores session) = Inr us"
  using assms by (cases session) (simp_all add: session_stores_def check_attached_def)

lemma track_running_total:
  assumes clock: "clock_sound env" and plan: "pr_kind plan = system_execution" "ps_plan (sh_prepared h) = pr_payload plan"
    and session: "case session of None \<Rightarrow> True | Some s \<Rightarrow> ru_plan_id s = pr_plan_id plan"
  shows "\<exists>v. track_running env plan session h t w =
    (Inr \<lparr>ce_plan = plan, ce_handle = h, ce_started_at = t, ce_session = session\<rparr>, v)"
proof -
  from clock_now_total [OF clock] obtain a u where a: "clock_now env w = (Inr a, u)" unfolding total_act_def by blast
  from write_run_status_total obtain v where b: "write_run_status env (PStr ''running'') (Some (sh_id h)) None PNone a u = (Inr (), v)"
    unfolding total_act_def by (metis old.unit.exhaust)
  from session_stores_attached [OF session] obtain us where
    c: "emap (check_attached plan session) (session_stores session) = Inr us" ..
  have "mk_CanonicalSystemExecution plan h (Aware t) session (session_stores session) =
      Inr \<lparr>ce_plan = plan, ce_handle = h, ce_started_at = t, ce_session = session\<rparr>"
    using plan session c
    by (auto simp: mk_CanonicalSystemExecution_def validate_system_plan_record_def aware_def split: option.splits)
  with a b show ?thesis by (simp add: track_running_def act_simps)
qed

lemma prepare_stage_plan:
  assumes "prepare_stage env orch plan ctx w = (Inr x, v)"
  shows "ps_plan x = plan \<and> matched x"
proof -
  from assms have "\<exists>u u'. run_stage env (pl_system (plan_body plan)) ''prepare'' (prepare_plan orch plan ctx [] [] []) u = (Inr x, u')"
    unfolding prepare_stage_def Let_def act_bind_Inr by auto
  then obtain u u' where "act_try (prepare_plan orch plan ctx [] [] []) (stage_failed env (pl_system (plan_body plan)) ''prepare'') u = (Inr x, u')"
    unfolding run_stage_def by blast
  then have "prepare_plan orch plan ctx [] [] [] u = (Inr x, u')"
    by (cases rule: act_try_cases) simp_all
  from prepare_plan_ok [OF this] show ?thesis by (simp add: prepared_ok_matched)
qed

lemma launch_balanced:
  assumes "launch env orch session x m = Some (r, t)" and "matched x"
  shows "balanced_result x (mc_trace m) r (mc_trace t)"
  using assms(1) unfolding launch_def
proof (cases rule: pact_try_cases)
  case (handled e u)
  from start_system_result [OF assms(2) handled(1)] have "undone (mc_trace m) (mc_trace u)" by (simp add: balanced_result_def)
  moreover from handled(2) obtain e' where "r = Inl e'" and "mc_trace t = mc_trace u"
    by (cases r) (auto simp: pact_of_def on_world_def split: prod.splits)
  ultimately show ?thesis by (simp add: balanced_result_def)
next
  case (ok h)
  from start_system_result [OF assms(2) ok(1)] ok(2) show ?thesis by simp
qed

lemma stop_none_total: "total_act (stop_system h None)"
  by (rule stop_system_total) (simp add: timeout_negative_def)

lemma record_started_effect:
  assumes clock: "clock_sound env" and run: "record_started env system h m = (r, t)"
  shows "mc_trace t = mc_trace m @ (case r of Inl _ \<Rightarrow> stop_calls h | Inr _ \<Rightarrow> [])"
proof -
  let ?b = "has_journal (mc_world m)"
  show ?thesis
  proof (cases ?b)
    case False
    with run show ?thesis by (auto simp: record_started_def act_simps on_world_def)
  next
    case True
    from total_on_world [OF clock_now_total [OF clock]] obtain a u where now: "on_world (clock_now env) m = (Inr a, u)"
      unfolding total_act_def by blast
    let ?ev = "journal_event env (mk_ExecutionEvent EE_STARTED system (Aware a) (Some (sh_id h)) None None []) a"
    obtain q v where ev: "on_world ?ev u = (q, v)" by (cases "on_world ?ev u")
    have same: "mc_trace u = mc_trace m" "mc_trace v = mc_trace u" using on_world_trace [OF now] on_world_trace [OF ev] by simp_all
    have world: "on_world (act_get has_journal) m = (Inr True, m)" using True by (cases m) (simp add: on_world_def act_simps)
    show ?thesis
    proof (cases q)
      case (Inr _)
      with run world now ev have "r = Inr ()" "t = v" by (simp_all add: record_started_def act_simps)
      with same show ?thesis by simp
    next
      case (Inl e)
      from stop_none_total [of h] obtain st w where stop: "stop_system h None v = (Inr st, w)" unfolding total_act_def by blast
      have "calls (stop_system h None) (stop_calls h)" by (rule stop_system_calls) (simp add: timeout_negative_def)
      then have "mc_trace w = mc_trace v @ stop_calls h" using stop unfolding calls_of_def by (metis snd_conv)
      moreover from run world now ev Inl stop have "r = Inl e" "t = w" by (simp_all add: record_started_def act_simps)
      ultimately show ?thesis using same by simp
    qed
  qed
qed

text \<open>
  C4: A canonical start is all or nothing.  When it raises - because of the plan, a store, a backend,
  a disk that cannot take the STARTED event, anything but the clock - every backend execution it had
  started has been stopped again, once and in reverse order; when it returns, exactly the leaves of
  the handle have been started, nothing has been stopped, and the tracked execution is of the given
  plan.
\<close>

theorem canonical_start_all_or_nothing:
  assumes clock: "clock_sound env" and run: "start_canonical env files orch plan rq policy m = Some (r, t)"
  shows "case r of
      Inl e \<Rightarrow> \<exists>C. starts (mc_trace t) = starts (mc_trace m) @ C \<and> stops (mc_trace t) = stops (mc_trace m) @ rev C
    | Inr x \<Rightarrow> starts (mc_trace t) = starts (mc_trace m) @ handle_leaves (ce_handle x) \<and>
        stops (mc_trace t) = stops (mc_trace m) \<and> ce_plan x = plan \<and> ps_plan (sh_prepared (ce_handle x)) = pr_payload plan"
  using run unfolding start_canonical_def
proof (cases rule: pact_bind_cases)
  case (err e)
  then have "mc_trace t = mc_trace m" by (auto simp: pact_of_def on_world_def split: prod.splits)
  with err(2) show ?thesis by (simp add: exI [where x = "[]"])
next
  case (ok v u)
  obtain session x started_at where v: "v = (session, x, started_at)" by (cases v)
  from ok(1) have same: "mc_trace u = mc_trace m" by (auto simp: pact_of_def on_world_def split: prod.splits)
  from ok(1) obtain w0 w1 w2 w3 dp q contents
    where check: "check_request (oc_digest orch) files plan rq policy = Inr (dp, q, contents)"
      and opened: "open_run env plan rq w0 = (Inr session, w1)"
      and prepared: "prepare_stage env orch dp (sq_context rq) w2 = (Inr x, w3)"
    by (auto simp: pact_of_def on_world_def v act_bind_Inr split: prod.splits)
  from check have plan: "pr_kind plan = system_execution" "dp = pr_payload plan"
    by (auto simp: check_request_def validate_system_plan_record_def result_elims split: if_splits)
  from prepare_stage_plan [OF prepared] have x: "ps_plan x = dp" "matched x" by simp_all
  note session = open_run_plan [OF opened]
  from ok(2) have "pact_bind (launch env orch session x) (\<lambda>h. pact_of (
       act_bind (record_started env (pl_system (plan_body (ps_plan x))) h) (\<lambda>_.
       on_world (track_running env plan session h started_at)))) u = Some (r, t)"
    by (simp add: v)
  then show ?thesis
  proof (cases rule: pact_bind_cases)
    case (err e)
    from launch_balanced [OF err(1) x(2)] err(2) same show ?thesis by (simp add: balanced_result_def undone_def)
  next
    case (ok h s)
    from launch_balanced [OF ok(1) x(2)] have h: "starts (mc_trace s) = starts (mc_trace m) @ handle_leaves h"
      "stops (mc_trace s) = stops (mc_trace m)" "sh_prepared h = x" by (simp_all add: balanced_result_def same)
    obtain q' s2 where started: "record_started env (pl_system (plan_body (ps_plan x))) h s = (q', s2)"
      by (cases "record_started env (pl_system (plan_body (ps_plan x))) h s")
    note effect = record_started_effect [OF clock started]
    show ?thesis
    proof (cases q')
      case (Inl e)
      with ok(2) started have "r = Inl e" "t = s2" by (simp_all add: pact_of_def act_simps)
      with effect Inl h show ?thesis by (simp add: stop_calls_def exI [where x = "handle_leaves h"])
    next
      case (Inr _)
      have "ps_plan (sh_prepared h) = pr_payload plan" using h(3) x plan(2) by simp
      from track_running_total [OF clock plan(1) this session] obtain w' where
        track: "track_running env plan session h started_at (mc_world s2) =
          (Inr \<lparr>ce_plan = plan, ce_handle = h, ce_started_at = started_at, ce_session = session\<rparr>, w')" by blast
      with ok(2) started Inr have "r = Inr \<lparr>ce_plan = plan, ce_handle = h, ce_started_at = started_at, ce_session = session\<rparr>"
        "mc_trace t = mc_trace s2" by (auto simp: pact_of_def act_simps on_world_def)
      with effect Inr h x plan(2) show ?thesis by simp
    qed
  qed
qed

text \<open>
  The clock is read outside the \<open>try\<close>: when it raises after the start, the execution stays alive
  although start raises.
\<close>

lemma clock_failure_leaks:
  assumes "has_journal (mc_world m)" and "clock_now env (mc_world m) = (Inl e, w)"
  shows "record_started env system h m = (Inl e, m\<lparr>mc_world := w\<rparr>)"
  using assms by (cases m) (simp add: record_started_def act_simps on_world_def)

section \<open>Backends that leave the run alone\<close>

text \<open>What belongs to the run.\<close>

definition tracking where
  "tracking w = (rw_store w, rw_journal w, rw_status w, rw_record w, rw_event_errors w, rw_status_errors w,
     rw_record_errors w, rw_terminal_recorded w, rw_final_recorded w, rw_finished_at w)"

definition leaves_run :: "('b run_world, 'a) act \<Rightarrow> bool" where
  "leaves_run m \<longleftrightarrow> (\<forall>w. tracking (snd (m w)) = tracking w)"

definition private_backend :: "('b run_world, 'p) backend \<Rightarrow> bool" where
  "private_backend b \<longleftrightarrow> (\<forall>h. leaves_run (hook_inspect b h)) \<and> (\<forall>h t. leaves_run (hook_stop b h t))"

fun private_handle :: "('b run_world, 'p) system_handle \<Rightarrow> bool" where
  "private_handle h =
     (list_all (\<lambda>r. private_backend (rsc_backend r)) (sh_scopes h) \<and>
      list_all (\<lambda>c. private_handle (rc_handle c)) (sh_systems h))"

declare private_handle.simps [simp del]

lemma leaves_on_outer: "leaves_run (on_outer m)"
  by (auto simp: leaves_run_def on_outer_def tracking_def split: prod.split)

lemma leaves_keeps: "leaves_run m \<Longrightarrow> keeps (\<lambda>w. tracking w = c) m"
  by (simp add: leaves_run_def keeps_def)

lemma keeps_on_world: "keeps P m \<Longrightarrow> keeps (\<lambda>s. P (mc_world s)) (on_world m)"
  by (auto simp: keeps_def on_world_def split: prod.split)

lemma keeps_note_call: "keeps (\<lambda>s. P (mc_world s)) (note_call c)"
  by (simp add: note_call_def keeps_def act_simps)

lemma backend_calls_leave:
  assumes "private_backend b"
  shows "keeps (\<lambda>w. tracking w = c) (backend_inspect b h)" and "keeps (\<lambda>w. tracking w = c) (backend_stop b h t)"
proof -
  from assms have hooks: "keeps (\<lambda>w. tracking w = c) (hook_inspect b h)" "keeps (\<lambda>w. tracking w = c) (hook_stop b h t)"
    by (simp_all add: private_backend_def leaves_keeps)
  show "keeps (\<lambda>w. tracking w = c) (backend_inspect b h)" and "keeps (\<lambda>w. tracking w = c) (backend_stop b h t)"
    unfolding backend_inspect_def backend_stop_def by (intro keeps_bind keeps_if keeps_basic hooks)+
qed

abbreviation tracks :: "_ \<Rightarrow> ('b run_world, 'p) machine \<Rightarrow> bool" where
  "tracks c \<equiv> \<lambda>s. tracking (mc_world s) = c"

lemma scope_calls_leave:
  assumes "private_backend (rsc_backend r)"
  shows "keeps (tracks c) (inspect_scope r)" and "keeps (tracks c) (stop_scope t r)"
  unfolding inspect_scope_def stop_scope_def call_inspect_def call_stop_def
  by (intro keeps_bind keeps_try keeps_note_call keeps_on_world backend_calls_leave [OF assms] keeps_basic)+

lemma inspect_leaves: "private_handle h \<Longrightarrow> keeps (tracks c) (inspect_system h)"
proof (induction h rule: measure_induct_rule [where f = size])
  case (less h)
  have "keeps (tracks c) (inspect_child x)" if "x \<in> set (sh_systems h)" for x
    unfolding inspect_child_def using less.IH [OF size_rc_handle [OF that]] less.prems that
    by (intro keeps_bind keeps_try keeps_basic) (auto simp: private_handle.simps [of h] list_all_iff)
  moreover have "keeps (tracks c) (inspect_scope r)" if "r \<in> set (sh_scopes h)" for r
    using less.prems that by (intro scope_calls_leave) (auto simp: private_handle.simps [of h] list_all_iff)
  ultimately show ?case unfolding inspect_system_unfold [of h]
    by (intro keeps_bind keeps_seq keeps_basic) auto
qed

lemma stop_leaves: "private_handle h \<Longrightarrow> keeps (tracks c) (stop_system h t)"
proof (induction h rule: measure_induct_rule [where f = size])
  case (less h)
  have "keeps (tracks c) (stop_child t x)" if "x \<in> set (sh_systems h)" for x
    unfolding stop_child_def using less.IH [OF size_rc_handle [OF that]] less.prems that
    by (intro keeps_bind keeps_try keeps_basic) (auto simp: private_handle.simps [of h] list_all_iff)
  moreover have "keeps (tracks c) (stop_scope t r)" if "r \<in> set (sh_scopes h)" for r
    using less.prems that by (intro scope_calls_leave) (auto simp: private_handle.simps [of h] list_all_iff)
  ultimately show ?case unfolding stop_system_unfold [of h]
    by (intro keeps_if keeps_bind keeps_seq keeps_basic) auto
qed

section \<open>stop and inspect\<close>

text \<open>A clock that never goes back behind the start of the execution.\<close>

definition clock_after :: "'b run_env \<Rightarrow> int \<Rightarrow> bool" where
  "clock_after env t0 \<longleftrightarrow> (\<forall>b. \<exists>t b'. re_clock env b = (Inr (Aware t), b') \<and> t0 \<le> t)"

lemma clock_after_sound: "clock_after env t0 \<Longrightarrow> clock_sound env"
  unfolding clock_after_def clock_sound_def by metis

lemma clock_after_now: "clock_after env t0 \<Longrightarrow> \<exists>t b. clock_now env w = (Inr t, w\<lparr>rw_outer := b\<rparr>) \<and> t0 \<le> t"
proof -
  assume "clock_after env t0"
  then obtain t b where "re_clock env (rw_outer w) = (Inr (Aware t), b)" "t0 \<le> t" unfolding clock_after_def by blast
  then have "clock_now env w = (Inr t, w\<lparr>rw_outer := b\<rparr>)" by (simp add: clock_now_def on_outer_def act_simps aware_def)
  with \<open>t0 \<le> t\<close> show ?thesis by blast
qed

text \<open>The end of the run that has been noted is not before its start.\<close>

definition end_sound :: "int \<Rightarrow> int option \<Rightarrow> bool" where
  "end_sound t0 u = (case u of None \<Rightarrow> True | Some u \<Rightarrow> t0 \<le> u)"

lemma canonical_state_total:
  "\<exists>s. canonical_state st = Inr s \<and> record_state_value s = state_value (ss_state st) \<and> record_terminal s = ss_terminal st"
proof -
  define s where "s = (case ss_state st of PREPARED \<Rightarrow> RS_PREPARED | RUNNING \<Rightarrow> RS_RUNNING | STOPPING \<Rightarrow> RS_STOPPING
    | STOPPED \<Rightarrow> RS_STOPPED | COMPLETED \<Rightarrow> RS_COMPLETED | FAILED \<Rightarrow> RS_FAILED)"
  have v: "record_state_value s = state_value (ss_state st)" "record_terminal s = ss_terminal st"
    by (cases "ss_state st"; simp add: s_def record_state_value_def state_value_def record_terminal_def ss_terminal_def state_terminal_def)+
  then have "canonical_state st = Inr s" unfolding canonical_state_def using parse_state_value [of s] by simp
  with v show ?thesis by blast
qed

lemma mk_ExecutionRecord_ok:
  assumes "plain_text i" and "plain_text e" and "end_sound a b"
  shows "mk_ExecutionRecord (PStr i) plan (PStr e) (PStr (record_state_value s)) (Some (Aware a)) (map_option Aware b) d =
    Inr \<lparr>xr_execution_id = i, xr_plan = plan, xr_executor = e, xr_state = s, xr_started_at = Some a, xr_finished_at = b, xr_details = d\<rparr>"
proof -
  have "check_times (Some a) b = Inr ()" using assms(3) by (auto simp: check_times_def end_sound_def split: option.split)
  moreover have "optional_aware f (map_option Aware b) = Inr b" for f by (cases b) (simp_all add: optional_aware_def aware_def)
  ultimately show ?thesis using assms(1,2) by (simp add: mk_ExecutionRecord_def optional_aware_def aware_def)
qed

lemma canonical_record_total:
  assumes id: "ss_execution_id st = sh_id (ce_handle x)" "plain_text (sh_id (ce_handle x))"
    and t: "ce_started_at x \<le> t" and sound: "end_sound (ce_started_at x) (rw_finished_at w)"
  shows "\<exists>r v. canonical_record x st t w = (Inr r, v) \<and> record_state_value (xr_state r) = state_value (ss_state st) \<and>
    end_sound (ce_started_at x) (rw_finished_at v)"
proof -
  from canonical_state_total obtain s where s: "canonical_state st = Inr s" "record_state_value s = state_value (ss_state st)"
    by blast
  have executor: "plain_text orchestrator_executor" by code_simp
  define v where "v = (if record_terminal s \<and> rw_finished_at w = None then w\<lparr>rw_finished_at := Some t\<rparr> else w)"
  define u where "u = (if record_terminal s then rw_finished_at v else None)"
  have v: "end_sound (ce_started_at x) (rw_finished_at v)" using sound t by (simp add: v_def end_sound_def)
  then have u: "end_sound (ce_started_at x) u" by (simp add: u_def end_sound_def)
  define d where "d = status_details st @ error_entry ''run_event_persistence_errors'' (rw_event_errors v) @
      error_entry ''run_status_persistence_errors'' (rw_status_errors v) @
      error_entry ''run_record_persistence_errors'' (rw_record_errors v)"
  have finished: "(if record_terminal s then map_option Aware (rw_finished_at v) else None) = map_option Aware u"
    by (simp add: u_def)
  have vd: "(if record_terminal s \<and> rw_finished_at w = None then w\<lparr>rw_finished_at := Some t\<rparr> else w) = v"
    by (simp add: v_def)
  have late: "t < ce_started_at x \<longleftrightarrow> False" using t by simp
  have "canonical_record x st t w = (mk_ExecutionRecord (PStr (sh_id (ce_handle x))) (ce_plan x) (PStr orchestrator_executor)
      (PStr (record_state_value s)) (Some (Aware (ce_started_at x))) (map_option Aware u) d, v)"
    unfolding canonical_record_def Let_def by (simp only: id(1) late s(1) vd finished d_def sum.case simp_thms if_False)
  then show ?thesis unfolding mk_ExecutionRecord_ok [OF id(2) executor u] using s(2) v by simp
qed

text \<open>The steps of an observation touch neither the noted end nor, up to its creation, the final record.\<close>

abbreviation on_end :: "(int option \<Rightarrow> record_store option \<Rightarrow> bool) \<Rightarrow> 'b run_world \<Rightarrow> bool" where
  "on_end P \<equiv> \<lambda>w. P (rw_finished_at w) (rw_record w)"

lemma write_run_status_end: "keeps (on_end P) (write_run_status env s i m d t)"
  unfolding keeps_def write_run_status_def by (auto split: option.split prod.split sum.split)

lemma journal_event_end: "keeps (on_end P) (journal_event env e t)"
  unfolding keeps_def journal_event_def by (auto split: option.split prod.split sum.split)

lemma clock_now_end: "keeps (on_end P) (clock_now env)"
  unfolding clock_now_def
proof (rule keeps_bind)
  show "keeps (on_end P) (on_outer (re_clock env))" by (simp add: keeps_def on_outer_def split: prod.split)
qed simp

lemma append_event_error_end: "keeps (on_end P) (append_event_error e)"
  by (auto simp: append_event_error_def intro!: keeps_modify)

lemma record_finished_end: "keeps (on_end P) (record_finished env x st t)"
proof -
  have "keeps (on_end P) (act_try (act_bind (journal_event env e t)
      (\<lambda>_. act_modify (\<lambda>w. w\<lparr>rw_terminal_recorded := True\<rparr>))) append_event_error)" for e
    by (intro keeps_try keeps_bind journal_event_end append_event_error_end keeps_modify) simp
  then show ?thesis unfolding record_finished_def keeps_def by auto
qed

lemma finalize_end: "keeps (\<lambda>w. P (rw_finished_at w)) (finalize_run_record env r)"
  unfolding keeps_def finalize_run_record_def by (auto split: option.split prod.split sum.split)

lemma announce_stopping_end: "keeps (on_end P) (announce_stopping env x)"
  unfolding announce_stopping_def
  by (intro keeps_bind keeps_if keeps_try clock_now_end write_run_status_end journal_event_end append_event_error_end keeps_basic)

lemmas end_kept = write_run_status_end journal_event_end clock_now_end record_finished_end finalize_end announce_stopping_end

lemma keeps_total: "total_act m \<Longrightarrow> keeps P m \<Longrightarrow> P w \<Longrightarrow> \<exists>y v. m w = (Inr y, v) \<and> P v"
  unfolding total_act_def keeps_def by (metis snd_conv)


lemma observe_status_total:
  assumes clock: "clock_after env (ce_started_at x)"
    and id: "ss_execution_id st = sh_id (ce_handle x)" "plain_text (sh_id (ce_handle x))"
    and sound: "end_sound (ce_started_at x) (rw_finished_at w)"
  shows "\<exists>r v. observe_status env x st w = (Inr r, v) \<and> record_state_value (xr_state r) = state_value (ss_state st)"
proof -
  let ?P = "\<lambda>w. end_sound (ce_started_at x) (rw_finished_at w)"
  from clock_after_now [OF clock] obtain t b where now: "clock_now env w = (Inr t, w\<lparr>rw_outer := b\<rparr>)" "ce_started_at x \<le> t"
    by blast
  have begun: "?P (w\<lparr>rw_outer := b\<rparr>)" using sound by simp
  from keeps_total [OF write_run_status_total write_run_status_end [where P = "\<lambda>u _. end_sound (ce_started_at x) u"] begun] obtain y1 w1 where
    s1: "write_run_status env (PStr (state_value (ss_state st))) (Some (ss_execution_id st)) (ss_message st)
                 (dict_of_mapping (status_details st)) t (w\<lparr>rw_outer := b\<rparr>) = (Inr y1, w1)" "?P w1" by blast
  from keeps_total [OF record_finished_total record_finished_end [where P = "\<lambda>u _. end_sound (ce_started_at x) u"] s1(2)] obtain y2 w2 where
    s2: "record_finished env x st t w1 = (Inr y2, w2)" "?P w2" by blast
  from canonical_record_total [OF id now(2) s2(2)] obtain r w3 where
    s3: "canonical_record x st t w2 = (Inr r, w3)" "record_state_value (xr_state r) = state_value (ss_state st)" "?P w3" by blast
  from keeps_total [OF finalize_total finalize_end [where P = "end_sound (ce_started_at x)"] s3(3)] obtain y4 w4 where
    s4: "finalize_run_record env r w3 = (Inr y4, w4)" "?P w4" by blast
  from canonical_record_total [OF id now(2) s4(2)] obtain r' w5 where
    s5: "canonical_record x st t w4 = (Inr r', w5)" "record_state_value (xr_state r') = state_value (ss_state st)" by blast
  show ?thesis
    using now(1) s1(1) s2(1) s3(1,2) s4(1) s5 by (simp add: observe_status_def act_simps)
qed

lemma stop_failure_end: "keeps (on_end P) (record_stop_failure env x e)"
  unfolding record_stop_failure_def
  by (intro keeps_bind keeps_if keeps_try clock_now_end journal_event_end keeps_basic)

section \<open>A stop reaches every leaf\<close>

lemma on_world_run: "f (mc_world m) = (r, w) \<Longrightarrow> on_world f m = (r, m\<lparr>mc_world := w\<rparr>)"
  by (cases m) (simp add: on_world_def)

lemma calls_ofD: "calls_of f m cs \<Longrightarrow> m s = (r, t) \<Longrightarrow> f t = f s @ cs"
  unfolding calls_of_def by (metis snd_conv)

lemma stop_system_id: "stop_system h tm m = (Inr st, t) \<Longrightarrow> ss_execution_id st = sh_id h"
  by (auto simp: stop_system_unfold [of h] act_bind_Inr split: if_splits)

text \<open>What an observation comes to: a record of the observed state, or a \<open>ValueError\<close>.\<close>

definition observed :: "system_status \<Rightarrow> 'a execution_record result \<Rightarrow> bool" where
  "observed st r \<longleftrightarrow>
     (case r of Inl e \<Rightarrow> (\<exists>msg. e = ValueErr msg)
      | Inr rec \<Rightarrow> record_state_value (xr_state rec) = state_value (ss_state st))"

lemma mk_ExecutionRecord_observed:
  assumes s: "record_state_value s = state_value (ss_state st)"
  shows "observed st (mk_ExecutionRecord (PStr i) plan (PStr e) (PStr (record_state_value s)) (Some (Aware a)) (map_option Aware b) d)"
proof -
  let ?r = "mk_ExecutionRecord (PStr i) plan (PStr e) (PStr (record_state_value s)) (Some (Aware a)) (map_option Aware b) d"
  have "optional_aware f (map_option Aware b) = Inr b" for f by (cases b) (simp_all add: optional_aware_def aware_def)
  then have "case ?r of Inl e \<Rightarrow> (\<exists>msg. e = ValueErr msg) | Inr rec \<Rightarrow> xr_state rec = s"
    by (auto simp: mk_ExecutionRecord_def required_text_def optional_aware_def aware_def check_times_def split: option.split)
  with s show ?thesis by (cases ?r) (simp_all add: observed_def)
qed

lemma canonical_record_observed: "observed st (fst (canonical_record x st t w))"
proof -
  from canonical_state_total obtain s where s: "canonical_state st = Inr s" "record_state_value s = state_value (ss_state st)"
    by blast
  define v where "v = (if record_terminal s \<and> rw_finished_at w = None then w\<lparr>rw_finished_at := Some t\<rparr> else w)"
  define d where "d = status_details st @ error_entry ''run_event_persistence_errors'' (rw_event_errors v) @
      error_entry ''run_status_persistence_errors'' (rw_status_errors v) @
      error_entry ''run_record_persistence_errors'' (rw_record_errors v)"
  have finished: "(if record_terminal s then map_option Aware (rw_finished_at v) else None) =
      map_option Aware (if record_terminal s then rw_finished_at v else None)" by simp
  show ?thesis
  proof (cases "ss_execution_id st \<noteq> sh_id (ce_handle x) \<or> t < ce_started_at x")
    case True
    then show ?thesis by (auto simp: canonical_record_def observed_def)
  next
    case False
    then have "ss_execution_id st \<noteq> sh_id (ce_handle x) \<longleftrightarrow> False" "t < ce_started_at x \<longleftrightarrow> False" by simp_all
    then have "fst (canonical_record x st t w) = mk_ExecutionRecord (PStr (sh_id (ce_handle x))) (ce_plan x)
        (PStr orchestrator_executor) (PStr (record_state_value s)) (Some (Aware (ce_started_at x)))
        (map_option Aware (if record_terminal s then rw_finished_at v else None)) d"
      unfolding canonical_record_def Let_def by (simp only: s(1) v_def [symmetric] d_def [symmetric] finished sum.case if_False fst_conv)
    then show ?thesis using mk_ExecutionRecord_observed [OF s(2)] by (simp only:)
  qed
qed

lemma observe_status_observed:
  assumes clock: "clock_sound env"
  shows "observed st (fst (observe_status env x st w))"
proof -
  from clock_now_total [OF clock] obtain t w0 where now: "clock_now env w = (Inr t, w0)" unfolding total_act_def by blast
  from write_run_status_total obtain w1 where s1: "write_run_status env (PStr (state_value (ss_state st))) (Some (ss_execution_id st))
      (ss_message st) (dict_of_mapping (status_details st)) t w0 = (Inr (), w1)" unfolding total_act_def by fastforce
  from record_finished_total obtain w2 where s2: "record_finished env x st t w1 = (Inr (), w2)" unfolding total_act_def by fastforce
  obtain q w3 where s3: "canonical_record x st t w2 = (q, w3)" by (cases "canonical_record x st t w2")
  show ?thesis
  proof (cases q)
    case (Inl e)
    with now s1 s2 s3 canonical_record_observed [of st x t w2] show ?thesis by (simp add: observe_status_def act_simps)
  next
    case (Inr rec)
    from finalize_total obtain w4 where s4: "finalize_run_record env rec w3 = (Inr (), w4)" unfolding total_act_def by fastforce
    show ?thesis
      using now s1 s2 s3 Inr s4 canonical_record_observed [of st x t w2] canonical_record_observed [of st x t w4]
      by (simp add: observe_status_def act_simps)
  qed
qed


section \<open>One end, one record\<close>

text \<open>Any sequence of calls on a tracked execution, with what each returned or raised.\<close>

datatype canonical_call = Inspect | Stop "pyfloat option"

definition canonical_call ::
    "'b run_env \<Rightarrow> ('b run_world, 'p) canonical_execution \<Rightarrow> canonical_call \<Rightarrow>
     (('b run_world, 'p) machine, system_plan execution_record) act" where
  "canonical_call env x c = (case c of Inspect \<Rightarrow> inspect_canonical env x | Stop t \<Rightarrow> stop_canonical env x t)"

fun canonical_calls ::
    "'b run_env \<Rightarrow> ('b run_world, 'p) canonical_execution \<Rightarrow> canonical_call list \<Rightarrow> ('b run_world, 'p) machine \<Rightarrow>
     system_plan execution_record result list \<times> ('b run_world, 'p) machine" where
  "canonical_calls env x [] m = ([], m)"
| "canonical_calls env x (c # cs) m =
     (case canonical_call env x c m of (r, m) \<Rightarrow> case canonical_calls env x cs m of (rs, m) \<Rightarrow> (r # rs, m))"

text \<open>What, once there, stays: the end that was noted and the file of the final record.\<close>

definition fixed :: "int option \<Rightarrow> json_file \<Rightarrow> int option \<Rightarrow> record_store option \<Rightarrow> bool" where
  "fixed u f v st \<longleftrightarrow> (u \<noteq> None \<longrightarrow> v = u) \<and> (f \<noteq> Absent \<longrightarrow> map_option rcs_file st = Some f)"

lemma finalize_fixed: "keeps (on_end (fixed u f)) (finalize_run_record env r)"
proof (rule keepsI)
  fix w :: "'a run_world"
  assume w: "on_end (fixed u f) w"
  show "on_end (fixed u f) (snd (finalize_run_record env r w))"
  proof (cases "f = Absent \<or> rw_record w = None")
    case True
    with w finalize_end [of "\<lambda>v. u \<noteq> None \<longrightarrow> v = u" env r] show ?thesis by (auto simp: fixed_def keeps_def)
  next
    case False
    with w obtain st where st: "rw_record w = Some st" "rcs_file st \<noteq> Absent" by (auto simp: fixed_def)
    obtain io b where io: "re_record_io env (rw_outer w) = (io, b)" by (cases "re_record_io env (rw_outer w)")
    from create_record_occupied [OF st(2)] obtain e where "create_record (re_times env) r None None io st = (Inl e, st)" by blast
    with w st(1) io show ?thesis by (simp add: finalize_run_record_def fixed_def)
  qed
qed

lemma canonical_record_fixed: "keeps (on_end (fixed u f)) (canonical_record x st t)"
  by (auto simp: keeps_def canonical_record_def fixed_def Let_def split: sum.split)

lemma canonical_record_end:
  assumes "canonical_record x st t w = (Inr r, v)"
  shows "xr_finished_at r = (if record_terminal (xr_state r) then rw_finished_at v else None) \<and>
    (record_terminal (xr_state r) \<longrightarrow> rw_finished_at v \<noteq> None)"
proof -
  from assms obtain s where s: "canonical_state st = Inr s"
    by (auto simp: canonical_record_def split: if_splits sum.splits)
  define w' where "w' = (if record_terminal s \<and> rw_finished_at w = None then w\<lparr>rw_finished_at := Some t\<rparr> else w)"
  from assms obtain d where
    r: "mk_ExecutionRecord (PStr (sh_id (ce_handle x))) (ce_plan x) (PStr orchestrator_executor) (PStr (record_state_value s))
      (Some (Aware (ce_started_at x))) (if record_terminal s then map_option Aware (rw_finished_at w') else None) d = Inr r"
    and v: "v = w'"
    unfolding canonical_record_def Let_def w'_def [symmetric] s sum.case by (auto split: if_split_asm simp del: if_split)
  from mk_ExecutionRecord_Inr [OF r] have "s = xr_state r" "(if record_terminal s then map_option Aware (rw_finished_at w') else None) =
      map_option Aware (xr_finished_at r)" unfolding parse_state_value sum.inject by blast+
  moreover have "rw_finished_at w' \<noteq> None" if "record_terminal s" using that by (simp add: w'_def)
  ultimately show ?thesis using v by (cases "xr_finished_at r") (auto split: if_splits)
qed

lemma observe_status_fixed: "keeps (on_end (fixed u f)) (observe_status env x st)"
  unfolding observe_status_def
  by (intro keeps_bind keeps_if clock_now_end write_run_status_end record_finished_end canonical_record_fixed finalize_fixed keeps_basic)

lemma observe_status_end:
  assumes "observe_status env x st w = (Inr r, v)"
  shows "xr_finished_at r = (if record_terminal (xr_state r) then rw_finished_at v else None) \<and>
    (record_terminal (xr_state r) \<longrightarrow> rw_finished_at v \<noteq> None)"
proof -
  from assms obtain t w1 r1 w2 w3 where r1: "canonical_record x st t w1 = (Inr r1, w2)" and "finalize_run_record env r1 w2 = (Inr (), w3)"
    and r: "(if rw_record_errors w3 \<noteq> [] then canonical_record x st t else act_return r1) w3 = (Inr r, v)"
    by (auto simp: observe_status_def act_bind_Inr act_get_def)
  then have "rw_finished_at w3 = rw_finished_at w2" using keepsD [OF finalize_end [where P = "\<lambda>u. u = rw_finished_at w2"]] by blast
  with canonical_record_end [OF r1] canonical_record_end [of x st t w3 r v] r show ?thesis
    by (cases "rw_record_errors w3 = []") (simp_all add: act_return_def)
qed

lemma tracks_end: "(\<And>c. keeps (tracks c) m) \<Longrightarrow> keeps (\<lambda>s. on_end P (mc_world s)) m"
  unfolding keeps_def tracking_def by (metis prod.inject)

lemma canonical_call_fixed:
  assumes "private_handle (ce_handle x)"
  shows "keeps (\<lambda>s. on_end (fixed u f) (mc_world s)) (canonical_call env x c)"
proof (cases c)
  case Inspect
  show ?thesis unfolding canonical_call_def inspect_canonical_def Inspect canonical_call.case
    by (intro keeps_bind tracks_end [OF inspect_leaves [OF assms]] keeps_on_world [OF observe_status_fixed])
next
  case (Stop t)
  show ?thesis unfolding canonical_call_def stop_canonical_def Stop canonical_call.case
    by (intro keeps_bind keeps_try tracks_end [OF stop_leaves [OF assms]] keeps_on_world [OF observe_status_fixed]
      keeps_on_world [OF announce_stopping_end] keeps_on_world [OF stop_failure_end] keeps_basic)
qed

lemma canonical_call_end:
  assumes "canonical_call env x c m = (Inr r, t)"
  shows "xr_finished_at r = (if record_terminal (xr_state r) then rw_finished_at (mc_world t) else None) \<and>
    (record_terminal (xr_state r) \<longrightarrow> rw_finished_at (mc_world t) \<noteq> None)"
proof -
  from assms obtain st u where "on_world (observe_status env x st) u = (Inr r, t)"
    by (auto simp: canonical_call_def inspect_canonical_def stop_canonical_def act_bind_Inr split: canonical_call.splits)
  from observe_status_end [OF on_world_Inr [OF this]] show ?thesis .
qed

lemma canonical_calls_fixed:
  assumes "private_handle (ce_handle x)"
  shows "canonical_calls env x cs m = (rs, t) \<Longrightarrow> on_end (fixed u f) (mc_world m) \<Longrightarrow> on_end (fixed u f) (mc_world t)"
proof (induction cs arbitrary: m rs)
  case (Cons c cs)
  from Cons.prems(1) obtain r n rs' where "canonical_call env x c m = (r, n)" "canonical_calls env x cs n = (rs', t)"
    by (auto split: prod.splits)
  then show ?case using Cons.IH keepsD [OF canonical_call_fixed [OF assms]] Cons.prems(2) by blast
qed simp

lemma canonical_calls_end:
  assumes "private_handle (ce_handle x)"
  shows "canonical_calls env x cs m = (rs, t) \<Longrightarrow> Inr r \<in> set rs \<Longrightarrow>
    xr_finished_at r = (if record_terminal (xr_state r) then rw_finished_at (mc_world t) else None)"
proof (induction cs arbitrary: m rs)
  case (Cons c cs)
  from Cons.prems(1) obtain q n rs' where call: "canonical_call env x c m = (q, n)" and rest: "canonical_calls env x cs n = (rs', t)"
    and rs: "rs = q # rs'" by (auto split: prod.splits)
  show ?case
  proof (cases "Inr r = q")
    case True
    from canonical_call_end call True have r: "xr_finished_at r = (if record_terminal (xr_state r) then rw_finished_at (mc_world n) else None)"
      "record_terminal (xr_state r) \<longrightarrow> rw_finished_at (mc_world n) \<noteq> None" by blast+
    from canonical_calls_fixed [OF assms rest, of "rw_finished_at (mc_world n)" Absent] have
      "rw_finished_at (mc_world n) \<noteq> None \<Longrightarrow> rw_finished_at (mc_world t) = rw_finished_at (mc_world n)" by (simp add: fixed_def)
    with r show ?thesis by simp
  next
    case False
    with Cons.prems(2) rs Cons.IH [OF rest] show ?thesis by simp
  qed
qed simp

text \<open>
  C6: A run ends once.  In any sequence of inspects and stops, whatever raised in between, all the
  terminal records that are returned carry the same end and no other record carries one; and a
  \<open>run.json\<close> that is there is the same file after all of them.
\<close>

theorem canonical_end_is_fixed:
  assumes "private_handle (ce_handle x)" and "canonical_calls env x cs m = (rs, t)"
  shows "(\<exists>u. \<forall>r. Inr r \<in> set rs \<longrightarrow> xr_finished_at r = (if record_terminal (xr_state r) then u else None)) \<and>
    (\<forall>st. rw_record (mc_world m) = Some st \<and> rcs_file st \<noteq> Absent \<longrightarrow>
       (\<exists>st'. rw_record (mc_world t) = Some st' \<and> rcs_file st' = rcs_file st))"
proof (intro conjI allI impI)
  show "\<exists>u. \<forall>r. Inr r \<in> set rs \<longrightarrow> xr_finished_at r = (if record_terminal (xr_state r) then u else None)"
    using canonical_calls_end [OF assms] by blast
next
  fix st
  assume st: "rw_record (mc_world m) = Some st \<and> rcs_file st \<noteq> Absent"
  then have "on_end (fixed None (rcs_file st)) (mc_world m)" by (simp add: fixed_def)
  from canonical_calls_fixed [OF assms this] st
  show "\<exists>st'. rw_record (mc_world t) = Some st' \<and> rcs_file st' = rcs_file st" by (auto simp: fixed_def)
qed

section \<open>A sample run\<close>

text \<open>A backend, and an orchestrator, that act on the outer world only.\<close>

definition outer_backend :: "('b, 'p) backend \<Rightarrow> ('b run_world, 'p) backend" where
  "outer_backend b =
     \<lparr>be_id = be_id b, be_capabilities = be_capabilities b, hook_validate = (\<lambda>c. on_outer (hook_validate b c)),
      hook_prepare = (\<lambda>c. on_outer (hook_prepare b c)), hook_start = (\<lambda>p. on_outer (hook_start b p)),
      hook_inspect = (\<lambda>h. on_outer (hook_inspect b h)), hook_stop = (\<lambda>h t. on_outer (hook_stop b h t))\<rparr>"

definition outer_orchestrator :: "('b, 'p) orchestrator \<Rightarrow> ('b run_world, 'p) orchestrator" where
  "outer_orchestrator oc =
     \<lparr>oc_bindings = map (\<lambda>(s, b). (s, outer_backend b)) (oc_bindings oc), oc_clock = on_outer (oc_clock oc),
      oc_wait = (\<lambda>q. on_outer (oc_wait oc q)), oc_poll_interval = oc_poll_interval oc, oc_uuid_hex = on_outer (oc_uuid_hex oc),
      oc_digest = oc_digest oc, oc_format_g = oc_format_g oc\<rparr>"

text \<open>The disk of the journal is full from the n-th call of the outer world on.\<close>

definition sample_run_env :: "nat \<Rightarrow> nat run_env" where
  "sample_run_env n =
     \<lparr>re_clock = act_return (Aware 7),
      re_journal_io = (\<lambda>b. (if b < n then Wrote Whole None else Wrote Nothing (Some ''ENOSPC''), b + 1)),
      re_status_io = (\<lambda>b. (None, b)), re_record_io = (\<lambda>b. (None, b)),
      re_create_io = (\<lambda>b. ((good_io, Aware 5, \<lambda>_. PStr ''0123456789ab''), b)),
      re_times = unary_times, re_texts = sample_texts\<rparr>"

definition sample_files :: "(nat, unit, unit) start_files" where
  "sample_files =
     \<lparr>sf_definition_snapshot = (\<lambda>_ _. Inr ''definition''), sf_plan_snapshot = (\<lambda>_. Inr ''plan''),
      sf_create_snapshot = (\<lambda>_. act_return ()), sf_create_policy = (\<lambda>_. act_return ()),
      sf_capture_environment = (\<lambda>_ _. act_return ()), sf_has_metrics = (\<lambda>_. False), sf_open_metrics = (\<lambda>_. act_return ())\<rparr>"

definition sample_world :: "nat run_world" where
  "sample_world =
     \<lparr>rw_outer = 0, rw_store = sample_store, rw_journal = None, rw_status = None, rw_record = None, rw_event_errors = [],
      rw_status_errors = [], rw_record_errors = [], rw_terminal_recorded = False, rw_final_recorded = False, rw_finished_at = None\<rparr>"

definition sample_machine :: "(nat run_world, unit) machine" where
  "sample_machine = \<lparr>mc_world = sample_world, mc_trace = []\<rparr>"

definition sample_request :: "unit start_request" where
  "sample_request = \<lparr>sq_definition = Some (), sq_context = None, sq_persistent = True, sq_run_id = None\<rparr>"

definition sample_system_plan :: "system_plan plan_record" where
  "sample_system_plan = \<lparr>pr_plan_id = ''plan-1'', pr_kind = system_execution, pr_operation = sample_operation,
     pr_subject_revision = sample_revision, pr_payload = one_node_plan, pr_metadata = []\<rparr>"

definition sample_start ::
    "nat \<Rightarrow> ((nat run_world, unit) canonical_execution result \<times> (nat run_world, unit) machine) option" where
  "sample_start n = start_canonical (sample_run_env n) sample_files (outer_orchestrator (sample_orchestrator sample_bindings))
     sample_system_plan sample_request (Inr ()) sample_machine"

lemma sample_clock_sound: "clock_sound (sample_run_env n)"
  by (simp add: clock_sound_def sample_run_env_def act_return_def)

definition plain_request :: "unit start_request" where
  "plain_request = \<lparr>sq_definition = None, sq_context = None, sq_persistent = False, sq_run_id = None\<rparr>"

definition plain_start ::
    "((nat run_world, unit) canonical_execution result \<times> (nat run_world, unit) machine) option" where
  "plain_start = start_canonical (sample_run_env 0) sample_files (outer_orchestrator (sample_orchestrator sample_bindings))
     sample_system_plan plain_request (Inr ()) sample_machine"

theorem canonical_start_all_or_nothing_witness:
  "\<exists>x t. plain_start = Some (Inr x, t) \<and> starts (mc_trace t) \<noteq> [] \<and> starts (mc_trace t) = handle_leaves (ce_handle x) \<and>
     stops (mc_trace t) = []"
proof -
  have "case plain_start of Some (Inr x, t) \<Rightarrow> starts (mc_trace t) \<noteq> [] | _ \<Rightarrow> False" by code_simp
  then obtain x t where run: "plain_start = Some (Inr x, t)" and some: "starts (mc_trace t) \<noteq> []"
    by (auto split: option.splits prod.splits sum.splits)
  from canonical_start_all_or_nothing [OF sample_clock_sound run [unfolded plain_start_def]]
  have "starts (mc_trace t) = handle_leaves (ce_handle x)" "stops (mc_trace t) = []" by (simp_all add: sample_machine_def)
  with run some show ?thesis by blast
qed

text \<open>A tracked execution of two scopes whose backends act on the outer world only.\<close>

definition sample_tracked :: "(nat run_world, unit) canonical_execution" where
  "sample_tracked =
     \<lparr>ce_plan = sample_system_plan,
      ce_handle = SystemExecutionHandle ''system-abc'' (PreparedSystemExecution one_node_plan None [] [] [] [])
        (map (\<lambda>b. \<lparr>rsc_scope = \<lparr>sc_target = ''t'', sc_backend = b\<rparr>, rsc_backend = outer_backend (sample_backend b True),
                   rsc_handle = sample_handle one_node_plan b\<rparr>) [''a'', ''b'']) [],
      ce_started_at = 5, ce_session = None\<rparr>"

lemma outer_backend_private: "private_backend (outer_backend b)"
  by (simp add: private_backend_def outer_backend_def leaves_on_outer)

lemma sample_tracked_private: "private_handle (ce_handle sample_tracked)"
  unfolding private_handle.simps [of "ce_handle sample_tracked"] by (simp add: sample_tracked_def outer_backend_private)

lemma sample_clock_after: "clock_after (sample_run_env n) (ce_started_at sample_tracked)"
  by (simp add: clock_after_def sample_run_env_def act_return_def sample_tracked_def)


text \<open>A clock behind the start of the execution: the backends are stopped, and then the call raises.\<close>

lemma clock_behind_start_raises:
  "fst (stop_canonical (sample_run_env 0) (sample_tracked\<lparr>ce_started_at := 9\<rparr>) None sample_machine) =
     Inl (ValueErr ''observed_at cannot be earlier than started_at'')"
  by code_simp

definition sample_published :: "(nat run_world, unit) machine" where
  "sample_published = sample_machine
     \<lparr>mc_world := sample_world\<lparr>rw_record := Some \<lparr>rcs_session = sample_session, rcs_file = Json (PDict [])\<rparr>\<rparr>\<rparr>"

theorem canonical_end_is_fixed_witness:
  "\<exists>rs t u st. canonical_calls (sample_run_env 0) sample_tracked [Inspect, Stop None] sample_published = (rs, t) \<and>
     (\<forall>r. Inr r \<in> set rs \<longrightarrow> xr_finished_at r = (if record_terminal (xr_state r) then u else None)) \<and>
     rw_record (mc_world t) = Some st \<and> rcs_file st = Json (PDict [])"
proof -
  obtain rs t where run: "canonical_calls (sample_run_env 0) sample_tracked [Inspect, Stop None] sample_published = (rs, t)"
    by (cases "canonical_calls (sample_run_env 0) sample_tracked [Inspect, Stop None] sample_published")
  note final = canonical_end_is_fixed [OF sample_tracked_private this]
  from final obtain u where
    u: "\<forall>r. Inr r \<in> set rs \<longrightarrow> xr_finished_at r = (if record_terminal (xr_state r) then u else None)" by blast
  from final have "\<exists>st. rw_record (mc_world t) = Some st \<and> rcs_file st = Json (PDict [])"
    by (simp add: sample_published_def)
  with run u show ?thesis by blast
qed

end
