(* ===== verification/Redaction.thy ===== *)
theory Redaction
  imports Json_Values "HOL-Library.Sublist"
begin

text \<open>
  Redaction of persistent records (redaction.py): the policy with the normalisation of its
  constructor, \<open>str.replace\<close>, redaction of text and the recursive redaction of structured values.

  The theorem: no text of a redacted value but a mapping key contains a secret, provided that the marker
  has no character of a secret.  Without that proviso it fails, and the keys of mappings are not redacted.
\<close>

section \<open>Policies\<close>

record redaction_policy =
  rp_tokens :: "string list"
  rp_secrets :: "string list"
  rp_marker :: string

definition normalized_key :: "string \<Rightarrow> string" where
  "normalized_key s = map lower_char (filter is_alnum s)"

definition default_sensitive_tokens :: "string list" where
  "default_sensitive_tokens =
     [''accesskey'', ''apikey'', ''authorization'', ''cookie'', ''credential'', ''password'', ''passwd'', ''privatekey'',
      ''secret'', ''token'']"

definition default_marker :: string where
  "default_marker = ''[REDACTED]''"

definition redaction_marker :: "pyval \<Rightarrow> string result" where
  "redaction_marker v =
     (case v of
        PStr s \<Rightarrow> if strip s = [] then Inl (ValueErr ''redaction marker must be non-empty'') else Inr (strip s)
      | _ \<Rightarrow> Inl (TypeErr ''redaction marker must be a string''))"

definition sensitive_token :: "pyval \<Rightarrow> string result" where
  "sensitive_token v =
     (case v of
        PStr s \<Rightarrow> if normalized_key s = [] then Inl (ValueErr ''sensitive key token must be non-empty'')
                  else Inr (normalized_key s)
      | _ \<Rightarrow> Inl (TypeErr ''sensitive key tokens must be strings''))"

definition secret_text :: "pyval \<Rightarrow> string result" where
  "secret_text v =
     (case v of
        PStr s \<Rightarrow> if s = [] then Inl (ValueErr ''redaction secret must be non-empty'') else Inr s
      | _ \<Rightarrow> Inl (TypeErr ''redaction secrets must be strings''))"

text \<open>\<open>secrets.sort(key=len, reverse=True)\<close>, a stable sort.\<close>

definition longest_first :: "string list \<Rightarrow> string list" where
  "longest_first = sort_key (\<lambda>s. - int (length s))"

definition mk_RedactionPolicy :: "pyval list \<Rightarrow> pyval list \<Rightarrow> pyval \<Rightarrow> redaction_policy result" where
  "mk_RedactionPolicy tokens secrets marker =
     ebind (redaction_marker marker) (\<lambda>m.
     ebind (emap sensitive_token tokens) (\<lambda>ts.
     ebind (emap secret_text secrets) (\<lambda>ss.
     Inr \<lparr>rp_tokens = ordered_unique ts, rp_secrets = longest_first (ordered_unique ss), rp_marker = m\<rparr>)))"

section \<open>Redacting\<close>

text \<open>\<open>str.replace\<close>: occurrences from the left, without overlap; an empty pattern occurs everywhere.\<close>

function replace_from :: "string \<Rightarrow> string \<Rightarrow> string \<Rightarrow> string" where
  "replace_from old new [] = []"
| "replace_from old new (c # cs) =
     (if old \<noteq> [] \<and> take (length old) (c # cs) = old then new @ replace_from old new (drop (length old - 1) cs)
      else c # replace_from old new cs)"
  by pat_completeness auto

termination replace_from
  by (relation "measure (\<lambda>(old, new, text). length text)") auto

definition replace_text :: "string \<Rightarrow> string \<Rightarrow> string \<Rightarrow> string" where
  "replace_text old new t = (if old = [] then new @ concat (map (\<lambda>c. c # new) t) else replace_from old new t)"

definition key_is_sensitive :: "redaction_policy \<Rightarrow> string \<Rightarrow> bool" where
  "key_is_sensitive p k = list_ex (\<lambda>t. sublist t (normalized_key k)) (rp_tokens p)"

definition redact_text :: "redaction_policy \<Rightarrow> string \<Rightarrow> string" where
  "redact_text p t = foldl (\<lambda>result secret. replace_text secret (rp_marker p) result) t (rp_secrets p)"

definition keyed_sensitive :: "redaction_policy \<Rightarrow> string option \<Rightarrow> bool" where
  "keyed_sensitive p key = (case key of None \<Rightarrow> False | Some k \<Rightarrow> key_is_sensitive p k)"

fun redact :: "redaction_policy \<Rightarrow> string option \<Rightarrow> pyval \<Rightarrow> pyval result" where
  "redact p key (PStr s) = Inr (PStr (if keyed_sensitive p key then rp_marker p else redact_text p s))"
| "redact p key (PDict d) =
     (if keyed_sensitive p key then Inr (PStr (rp_marker p))
      else ebind (emap (\<lambda>(k, v). case k of
          PStr s \<Rightarrow> ebind (redact p (Some s) v) (\<lambda>w. Inr (k, w))
        | _ \<Rightarrow> Inl (TypeErr ''redacted mapping keys must be strings'')) d) (\<lambda>e. Inr (PDict e)))"
| "redact p key (PList xs) =
     (if keyed_sensitive p key then Inr (PStr (rp_marker p)) else ebind (emap (redact p None) xs) (\<lambda>ys. Inr (PList ys)))"
| "redact p key (PTuple xs) =
     (if keyed_sensitive p key then Inr (PStr (rp_marker p)) else ebind (emap (redact p None) xs) (\<lambda>ys. Inr (PList ys)))"
| "redact p key (POther t) =
     (if keyed_sensitive p key then Inr (PStr (rp_marker p))
      else Inl (TypeErr (''redaction contains unsupported value '' @ t)))"
| "redact p key v = Inr (if keyed_sensitive p key then PStr (rp_marker p) else v)"

section \<open>Normalisation\<close>

lemma normalized_key_idem [simp]: "normalized_key (normalized_key s) = normalized_key s"
proof -
  have "is_alnum (lower_char c)" if "is_alnum c" for c
    using that by (auto simp: is_alnum_def of_char_lower_char is_upper_def Let_def)
  then have "filter is_alnum (map lower_char (filter is_alnum s)) = map lower_char (filter is_alnum s)"
    by (intro filter_True) auto
  then show ?thesis by (simp add: normalized_key_def)
qed

lemma sensitive_token_Inr: "sensitive_token v = Inr s \<Longrightarrow> s \<noteq> [] \<and> normalized_key s = s"
  by (auto simp: sensitive_token_def split: pyval.splits if_splits)

lemma secret_text_Inr: "secret_text v = Inr s \<Longrightarrow> v = PStr s \<and> s \<noteq> []"
  by (auto simp: secret_text_def split: pyval.splits if_splits)

lemma set_longest_first [simp]: "set (longest_first ss) = set ss"
  by (simp add: longest_first_def)

text \<open>A policy as its constructor makes it.\<close>

definition wf_redaction :: "redaction_policy \<Rightarrow> bool" where
  "wf_redaction p = (rp_marker p \<noteq> [] \<and> strip (rp_marker p) = rp_marker p \<and> [] \<notin> set (rp_secrets p) \<and>
     distinct (rp_secrets p) \<and> sorted (map (\<lambda>s. - int (length s)) (rp_secrets p)) \<and>
     distinct (rp_tokens p) \<and> list_all (\<lambda>t. t \<noteq> [] \<and> normalized_key t = t) (rp_tokens p))"

lemma mk_RedactionPolicy_wf:
  assumes "mk_RedactionPolicy tokens secrets marker = Inr p"
  shows "wf_redaction p \<and> set (map PStr (rp_secrets p)) = set secrets"
proof -
  from assms obtain m ts ss where m: "redaction_marker marker = Inr m" and ts: "emap sensitive_token tokens = Inr ts"
    and ss: "emap secret_text secrets = Inr ss"
    and p: "p = \<lparr>rp_tokens = ordered_unique ts, rp_secrets = longest_first (ordered_unique ss), rp_marker = m\<rparr>"
    by (auto simp: mk_RedactionPolicy_def ebind_eq_Inr)
  have "m \<noteq> []" "strip m = m" using m by (auto simp: redaction_marker_def split: pyval.splits if_splits)
  moreover have t: "t \<noteq> [] \<and> normalized_key t = t" if "t \<in> set ts" for t
    using emap_Inr_set [OF ts that] sensitive_token_Inr by blast
  moreover have "secrets = map PStr ss \<and> [] \<notin> set ss"
    using ss by (induction secrets arbitrary: ss) (auto simp: ebind_eq_Inr dest!: secret_text_Inr)
  moreover have "distinct (longest_first (ordered_unique ss))" by (simp add: longest_first_def)
  moreover have "sorted (map (\<lambda>s. - int (length s)) (longest_first (ordered_unique ss)))"
    unfolding longest_first_def by (rule sorted_sort_key)
  ultimately show ?thesis by (simp add: p wf_redaction_def list_all_iff)
qed

section \<open>Replacing\<close>

text \<open>The pattern and the marker have no character in common.\<close>

lemma prefix_replace_from:
  assumes "m \<noteq> []" and "set u \<inter> set m = {}"
  shows "prefix u (replace_from old m t) \<Longrightarrow> prefix u t"
  using assms(2)
proof (induction t arbitrary: u)
  case (Cons c cs)
  show ?case
  proof (cases "old \<noteq> [] \<and> take (length old) (c # cs) = old")
    case True
    with Cons.prems(1) have "prefix u (m @ replace_from old m (drop (length old - 1) cs))" by simp
    with assms(1) Cons.prems(2) have "u = []" by (cases m; cases u) auto
    then show ?thesis by simp
  next
    case False
    with Cons.prems(1) have "prefix u (c # replace_from old m cs)" by auto
    with Cons.IH Cons.prems(2) show ?thesis by (cases u) auto
  qed
qed simp

lemma sublist_past_marker:
  assumes "s \<noteq> []" and "set s \<inter> set m = {}"
  shows "sublist s (m @ r) \<Longrightarrow> sublist s r"
  using assms(2)
proof (induction m)
  case (Cons a m)
  have "\<not> prefix s (a # m @ r)" using assms(1) Cons.prems(2) by (cases s) auto
  with Cons.prems(1) have "sublist s (m @ r)" by (simp add: sublist_Cons_right)
  with Cons show ?case by simp
qed simp

lemma replace_from_removes:
  assumes s: "s \<noteq> []" "set s \<inter> set m = {}" and m: "m \<noteq> []"
  shows "old = s \<or> \<not> sublist s t \<Longrightarrow> \<not> sublist s (replace_from old m t)"
proof (induction t rule: length_induct)
  case (1 t)
  show ?case
  proof (cases t)
    case Nil
    with s(1) show ?thesis by simp
  next
    case (Cons c cs)
    have tail: "old = s \<or> \<not> sublist s (drop n cs)" for n
      using "1.prems" sublist_order.order_trans [OF _ sublist_drop [of n cs]] by (auto simp: Cons sublist_Cons_right)
    show ?thesis
    proof (cases "old \<noteq> [] \<and> take (length old) (c # cs) = old")
      case True
      have "\<not> sublist s (replace_from old m (drop (length old - 1) cs))" using "1.IH" tail [of "length old - 1"] by (auto simp: Cons)
      with True sublist_past_marker [OF s] show ?thesis by (auto simp: Cons)
    next
      case False
      have "\<not> sublist s (replace_from old m cs)" using "1.IH" tail [of 0] by (auto simp: Cons)
      moreover have "\<not> prefix s (replace_from old m t)"
      proof
        assume "prefix s (replace_from old m t)"
        with prefix_replace_from [OF m s(2)] have "prefix s t" by blast
        with "1.prems" have "old = s" "prefix old t" by (auto intro: prefix_imp_sublist)
        with False s(1) Cons show False by (auto simp: prefix_def)
      qed
      ultimately show ?thesis using False by (auto simp: Cons sublist_Cons_right)
    qed
  qed
qed

lemma replace_text_removes:
  assumes "s \<noteq> []" "set s \<inter> set m = {}" "m \<noteq> []" "old \<noteq> []" "old = s \<or> \<not> sublist s t"
  shows "\<not> sublist s (replace_text old m t)"
  using assms replace_from_removes by (simp add: replace_text_def)

section \<open>Redacted values\<close>

definition marker_apart :: "redaction_policy \<Rightarrow> bool" where
  "marker_apart p = (\<forall>s \<in> set (rp_secrets p). set s \<inter> set (rp_marker p) = {})"

text \<open>A text without secrets.\<close>

definition secret_free :: "redaction_policy \<Rightarrow> string \<Rightarrow> bool" where
  "secret_free p t = (\<forall>s \<in> set (rp_secrets p). \<not> sublist s t)"

lemma redact_text_secret_free:
  assumes "wf_redaction p" and "marker_apart p"
  shows "secret_free p (redact_text p t)"
proof -
  have "\<forall>s \<in> set ss \<union> set rest. \<not> sublist s (foldl (\<lambda>r s. replace_text s (rp_marker p) r) t rest)"
    if "\<forall>s \<in> set ss. \<not> sublist s t" "set ss \<union> set rest \<subseteq> set (rp_secrets p)" for ss rest t
    using that
  proof (induction rest arbitrary: ss t)
    case (Cons x rest)
    have "\<not> sublist s (replace_text x (rp_marker p) t)" if "s \<in> set (x # ss)" for s
      using assms Cons.prems that
      by (intro replace_text_removes) (auto simp: wf_redaction_def marker_apart_def)
    then have "\<forall>s \<in> set (x # ss). \<not> sublist s (replace_text x (rp_marker p) t)" by blast
    from Cons.IH [OF this] Cons.prems(2) show ?case by auto
  qed simp
  from this [of "[]" t "rp_secrets p"] show ?thesis by (simp add: secret_free_def redact_text_def)
qed

text \<open>The texts of a value, without the keys, and what it holds under sensitive keys.\<close>

fun value_texts :: "pyval \<Rightarrow> string list" where
  "value_texts (PStr s) = [s]"
| "value_texts (PList xs) = concat (map value_texts xs)"
| "value_texts (PTuple xs) = concat (map value_texts xs)"
| "value_texts (PDict d) = concat (map (\<lambda>(k, v). value_texts v) d)"
| "value_texts _ = []"

fun masked :: "redaction_policy \<Rightarrow> pyval \<Rightarrow> bool" where
  "masked p (PList xs) = (\<forall>x \<in> set xs. masked p x)"
| "masked p (PTuple xs) = (\<forall>x \<in> set xs. masked p x)"
| "masked p (PDict d) =
     (\<forall>(k, v) \<in> set d. (\<exists>s. k = PStr s \<and> (key_is_sensitive p s \<longrightarrow> v = PStr (rp_marker p))) \<and> masked p v)"
| "masked p _ = True"

lemma redact_sensitive: "keyed_sensitive p key \<Longrightarrow> redact p key v = Inr (PStr (rp_marker p))"
  by (cases v) auto

lemma marker_secret_free:
  assumes "wf_redaction p" and "marker_apart p"
  shows "secret_free p (rp_marker p)"
  unfolding secret_free_def
proof
  fix s
  assume s: "s \<in> set (rp_secrets p)"
  with assms have "s \<noteq> []" "set s \<inter> set (rp_marker p) = {}" by (auto simp: wf_redaction_def marker_apart_def)
  with sublist_past_marker [of s "rp_marker p" "[]"] show "\<not> sublist s (rp_marker p)" by auto
qed

definition redacted :: "redaction_policy \<Rightarrow> pyval \<Rightarrow> bool" where
  "redacted p w = (list_all (secret_free p) (value_texts w) \<and> masked p w)"

lemma redacted_simps [simp]:
  "redacted p (PStr s) = secret_free p s" "redacted p (PList xs) = (\<forall>x \<in> set xs. redacted p x)"
  "redacted p (PDict d) = (\<forall>(k, v) \<in> set d.
     (\<exists>s. k = PStr s \<and> (key_is_sensitive p s \<longrightarrow> v = PStr (rp_marker p))) \<and> redacted p v)"
  "redacted p (PInt n)" "redacted p (PBool b)" "redacted p PNone" "redacted p (PFloat f)"
  by (auto simp: redacted_def list_all_iff)

lemma redact_safe: "wf_redaction p \<Longrightarrow> marker_apart p \<Longrightarrow> redact p key v = Inr w \<Longrightarrow> redacted p w"
proof (induction p key v arbitrary: w rule: redact.induct)
  case (1 p key s)
  then show ?case using redact_text_secret_free marker_secret_free by (auto split: if_splits)
next
  case (2 p key d)
  show ?case
  proof (cases "keyed_sensitive p key")
    case True
    with 2(4) redact_sensitive marker_secret_free [OF 2(2,3)] show ?thesis by fastforce
  next
    case False
    with 2(4) obtain e where e: "emap (\<lambda>(k, v). case k of
          PStr s \<Rightarrow> ebind (redact p (Some s) v) (\<lambda>w. Inr (k, w))
        | _ \<Rightarrow> Inl (TypeErr ''redacted mapping keys must be strings'')) d = Inr e" and w: "w = PDict e"
      by (auto simp: ebind_eq_Inr)
    have "(\<exists>s. k = PStr s \<and> (key_is_sensitive p s \<longrightarrow> x = PStr (rp_marker p))) \<and> redacted p x" if "(k, x) \<in> set e" for k x
    proof -
      from emap_Inr_set [OF e that] obtain k0 v0 where kv: "(k0, v0) \<in> set d"
        and r: "(case k0 of PStr s \<Rightarrow> ebind (redact p (Some s) v0) (\<lambda>w. Inr (k0, w))
           | _ \<Rightarrow> Inl (TypeErr ''redacted mapping keys must be strings'')) = Inr (k, x)" by auto
      from r obtain s where k0: "k0 = PStr s" by (cases k0) auto
      with r have x: "k = PStr s" "redact p (Some s) v0 = Inr x" by (auto simp: ebind_eq_Inr)
      from 2(1) [OF False kv refl k0 2(2,3) x(2)] have "redacted p x" .
      moreover have "x = PStr (rp_marker p)" if "key_is_sensitive p s"
        using redact_sensitive [of p "Some s" v0] x(2) that by (simp add: keyed_sensitive_def)
      ultimately show ?thesis using x(1) by simp
    qed
    with w show ?thesis by auto
  qed
next
  case (3 p key xs)
  show ?case
  proof (cases "keyed_sensitive p key")
    case True
    with 3(4) redact_sensitive marker_secret_free [OF 3(2,3)] show ?thesis by fastforce
  next
    case False
    with 3(4) obtain ys where "emap (redact p None) xs = Inr ys" "w = PList ys" by (auto simp: ebind_eq_Inr)
    with 3(1) [OF False _ 3(2,3)] show ?thesis by (auto dest!: emap_Inr_set)
  qed
next
  case (4 p key xs)
  show ?case
  proof (cases "keyed_sensitive p key")
    case True
    with 4(4) redact_sensitive marker_secret_free [OF 4(2,3)] show ?thesis by fastforce
  next
    case False
    with 4(4) obtain ys where "emap (redact p None) xs = Inr ys" "w = PList ys" by (auto simp: ebind_eq_Inr)
    with 4(1) [OF False _ 4(2,3)] show ?thesis by (auto dest!: emap_Inr_set)
  qed
qed (auto simp: marker_secret_free split: if_splits)

section \<open>Property\<close>

text \<open>
  C37: Redaction removes secrets from values.  With a policy the constructor accepted, whose marker has
  no character of a secret, no text of a redacted value that is not a mapping key contains a secret, at
  any depth, and every value under a key that looks like a credential is the marker.  The keys
  themselves are left as they are: a secret that is part of a key stays.
\<close>

theorem redaction_removes_secrets:
  assumes policy: "mk_RedactionPolicy tokens secrets marker = Inr p" and apart: "marker_apart p"
    and run: "redact p key v = Inr w"
  shows "(\<forall>t \<in> set (value_texts w). \<forall>s. PStr s \<in> set secrets \<longrightarrow> \<not> sublist s t) \<and> masked p w"
proof -
  from mk_RedactionPolicy_wf [OF policy] have wf: "wf_redaction p" and secrets: "set (map PStr (rp_secrets p)) = set secrets" by simp_all
  from redact_safe [OF wf apart run] have "\<forall>t \<in> set (value_texts w). \<forall>s \<in> set (rp_secrets p). \<not> sublist s t" and "masked p w"
    by (auto simp: redacted_def list_all_iff secret_free_def)
  moreover have "s \<in> set (rp_secrets p)" if "PStr s \<in> set secrets" for s using that by (auto simp flip: secrets)
  ultimately show ?thesis by blast
qed

definition sample_policy :: redaction_policy where
  "sample_policy =
     \<lparr>rp_tokens = [''token''], rp_secrets = [''hunter22'', ''hunter''], rp_marker = ''[**]''\<rparr>"

definition sample_record :: pyval where
  "sample_record = PDict [(PStr ''message'', PStr ''hunter22 and hunter''), (PStr ''Auth-Token'', PInt 5)]"

theorem redaction_removes_secrets_witness:
  "\<exists>w. redact sample_policy None sample_record = Inr w \<and> value_texts w = [''[**] and [**]'', ''[**]''] \<and>
     (\<forall>t \<in> set (value_texts w). \<not> sublist ''hunter'' t)"
proof -
  let ?secrets = "[PStr ''hunter'', PStr ''hunter22'', PStr ''hunter'']"
  have policy: "mk_RedactionPolicy [PStr ''To-Ken''] ?secrets (PStr '' [**] '') = Inr sample_policy" by code_simp
  have apart: "marker_apart sample_policy" by (simp add: marker_apart_def sample_policy_def)
  have run: "redact sample_policy None sample_record =
      Inr (PDict [(PStr ''message'', PStr ''[**] and [**]''), (PStr ''Auth-Token'', PStr ''[**]'')])" by code_simp
  from redaction_removes_secrets [OF policy apart run]
  have "\<forall>t \<in> {''[**] and [**]'', ''[**]''}. \<not> sublist ''hunter'' t" by simp
  with run show ?thesis by simp
qed

text \<open>The default marker has letters: a secret that is part of it survives its own replacement.\<close>

lemma marker_reveals_secret:
  assumes "p = \<lparr>rp_tokens = [], rp_secrets = [''ACTED''], rp_marker = default_marker\<rparr>"
  shows "mk_RedactionPolicy [] [PStr ''ACTED''] (PStr default_marker) = Inr p \<and> sublist ''ACTED'' (redact_text p ''ACTED'')"
proof -
  have "redact_text p ''ACTED'' = ''[RED'' @ ''ACTED'' @ '']''" unfolding assms by code_simp
  moreover have "mk_RedactionPolicy [] [PStr ''ACTED''] (PStr default_marker) = Inr p" unfolding assms by code_simp
  ultimately show ?thesis unfolding sublist_def by blast
qed

text \<open>Keys are left alone.\<close>

lemma key_reveals_secret:
  "redact \<lparr>rp_tokens = [], rp_secrets = [''hunter''], rp_marker = ''[**]''\<rparr> None (PDict [(PStr ''hunter'', PNone)]) =
     Inr (PDict [(PStr ''hunter'', PNone)])"
  by code_simp

end
