(* ===== verification/Spec2Isabelle.thy ===== *)
theory Spec2Isabelle
  imports Orchestrator_Live Direct_System Watchdog Canonical_Safety Redaction
begin

text \<open>
  Nodrix: a verification library of its System execution core.

  Nodrix executes a \<open>System\<close>: a declarative model of nodes, resources, applications and child
  Systems, of the connections between them and of the targets they run on.  The Python package
  under src/nodrix validates the model, resolves it into an immutable plan, splits the plan into
  scopes (one per target and backend), has every scope prepared by its backend, starts, inspects
  and stops the scopes of the whole hierarchy, moves messages between nodes, and records the run.
  This development models these parts in the order in which a System passes through them.

  \<^bold>\<open>Common vocabulary.\<close>  Prelude has the Python values (\<open>pyval\<close>), the errors a function can raise
  (\<open>py_error\<close>, an exception is a value of the left side of a sum), the string methods the code
  uses and the lemmas on them.  Effects has actions that take the state and return a result or an
  error and the new state (\<open>act\<close>), and those that may not return (\<open>pact\<close>).

  \<^bold>\<open>References and the System Model.\<close>  Identity: model/identity.py and model/references.py.
  Endpoints: system/graph.py.  System_Model: system/model.py, instances.py, parameters and targets,
  with every field validator.  The theorems are round trips between a reference and its text - for
  every reference but those whose canonical text is not theirs alone - and what each validator accepts
  and returns, which it accepts again unchanged.  The four kinds of reference share one
  interface, the locale \<open>canonical_text\<close>, interpreted for each.

  \<^bold>\<open>Contracts and validation.\<close>  Catalog: system/catalog.py, sdk/definitions.py and the contract
  compatibility of system/contracts.py.  Validation and Validation_Sound: system/validation.py.
  A System whose report has no error is well linked, which \<open>well_linked\<close> states without the code's
  diagnostics, and without catalogue and resolver the converse holds too; and validation reports
  instead of raising exactly when the artifact producers are endpoint texts.

  \<^bold>\<open>Planning.\<close>  Plan_Model, Topology, Execution_Context, Connection_Policy, Node_Policy, Planner:
  system/planning.py and the modules it calls.  Planner_Sound has what a plan guarantees at every
  level of the hierarchy (placement, order, links, pinned children), Planner_Total that planning
  ends and how it can fail when the artifact producers parse and the resolver does not raise, Planned_System a hierarchical sample and the composition with the
  orchestrator.

  \<^bold>\<open>Scopes and backends.\<close>  Scopes: the scopes of a plan, the projection of the plan onto a scope
  and the routing of System links, from the first half of system/orchestration.py.  Backend:
  system/backend.py; the hooks of a backend are arguments and the template methods around them are
  the model; the locale \<open>execution_backend\<close> is the contract the orchestrator relies on,
  interpreted on the template methods for arbitrary hooks.

  \<^bold>\<open>The orchestrator.\<close>  System_Status (aggregation of states, readiness and health),
  Orchestration_Plan (validate_plan, prepare_plan), Orchestrator (start with its rollback and its
  dependency scheduler, inspect, stop), with the proofs in Orchestrator_Stop, Orchestrator_Start,
  Orchestrator_Schedule and Orchestrator_Live.  The world the backends act on is a type variable;
  the calls are recorded in a trace that no operation reads, over which the theorems speak: a
  failed start is undone in reverse, stop reaches every execution once and never raises, statuses
  mirror handles, and a start returns when time passes.

  \<^bold>\<open>The data plane.\<close>  Bounded_Queue and Edge_Queue: queueing.py and the edge queues of
  runtime_primitives.py.  An attempt of a call is one step; threads that share a queue are the step
  relation \<open>mstep\<close> of a monitor with its waiting and ready threads; every property of the queue
  holds in all interleavings, and a FIFO channel (locale \<open>channel\<close>) is what it implements.
  Synchronization and Runtime_Worker: runtime_workers.py and hybrid_runtime.py, how a node reads one
  group of messages and what its thread does with it; a source is an iterator that need not end, and
  the recording and stream writers of the host may raise.  Lifecycle and Watchdog: lifecycle.py and the
  watchdog.  Runtime_Graph: memory.py and the wiring and validation of a runtime graph.
  Direct_Preparation and Direct_System: from a backend context to a wired runtime, and the
  composition of planner, scopes and wiring.

  \<^bold>\<open>The record of a run.\<close>  Json_Values says what a JSON document is; Canonical_Records has plans,
  executions and runs of src/nodrix/model and the identity of a plan, which does not depend on the order
  of keys.  The files of a Run are
  stores on which calls may fail, the process may end and a new one opens the file again: the
  locales \<open>durable_store\<close>, \<open>append_only\<close> and \<open>write_once\<close> of Durable_Store state what they promise,
  and are interpreted for Run_Status (run_status.py, replaced as a whole), Run_Journal
  (run_events.py, append-only) and Run_Records (run_record.py, published once).  Run_Sessions has
  the Run directories of run_session.py, with the root that may be missing and the resolution of paths.
  What the operating system does with a write, and what it leaves of a removed directory, is an
  argument of it.

  \<^bold>\<open>The canonical runtime.\<close>  Execution_Events (system/execution_events.py) turns what the
  orchestrator reports into documents.  Canonical_Runtime (system/canonical_runtime.py) ties the
  orchestrator to the record of the run: start with its persistent stages, inspect and stop.
  Canonical_Safety has the theorems that compose the two: a start is all or nothing, a stop reaches
  every execution whatever becomes of its records (and returns one unless the clock went back behind
  the start), and a run has one end.  Redaction (redaction.py) is what protects the values that logs and
  environment snapshots persist: no secret is left in a redacted text, mapping keys apart.

  \<^bold>\<open>Bounds and fuel.\<close>  Recursion into child Systems is structural on plans, prepared and running
  executions.  A planner call refers to child definitions by reference, so \<open>plan_system\<close> has a
  depth: it is enough when the hierarchy has a rank below it, which \<open>planning_terminates\<close> assumes
  of the catalogue (a cyclic catalogue makes the code recurse until RecursionError).  The loop of
  the dependency scheduler is a \<open>partial_function\<close> in the option type; that it returns is the
  theorem \<open>start_returns\<close>.  The loops of a node's thread are partial functions too; \<open>worker_returns\<close> has
  when they end.  The receive loops of synchronisation recurse on the messages still to
  come.  Clock readings and timeouts are exact rationals; Python integers are unbounded integers;
  payload sizes and counters are natural numbers, as the code has no fixed width anywhere.

  \<^bold>\<open>Not modelled.\<close>  Everything that is input, output or a third-party library: the command line and
  its presentation, YAML and JSON text, SHA-256 (an argument), pydantic's coercion of raw input,
  operating-system threads and processes (the monitor and the workers are modelled, their start and
  join in system/local_backend.py are not), shared memory and wire formats, the C++ runtime, vision
  and media, provider discovery and loading, projects and workspaces, benchmarks, optimisation and
  workflows, the legacy pipeline format.  Of the files of a Run the snapshots, the policy, the
  environment, logs and metrics are arguments of the canonical start, and recovery, comparison and
  bundles are left out.  Exceptions outside Exception (KeyboardInterrupt) and
  running out of memory are not modelled.  Strings are over the code points U+0000 to U+00FF.
\<close>

end
